(* ===== verification/Prelude.thy ===== *)
theory Prelude
  imports Main "HOL-Library.Word"
begin

text \<open>
  Shared vocabulary of the development: bytes and machine integers, the faults a C++
  computation can end in, the error monad that carries them, C \<open>for\<close> loops over it, and
  the list and loop lemmas every component uses.

  A C++ function that can leave the defined behaviour of the language, fail an \<open>assert\<close> or
  throw is modelled by a function into \<open>fault + 'a\<close>. A fault ends the computation, and a
  theorem that a result is \<open>Inr\<close> is a theorem that none of these things happen.
\<close>

named_theorems bind_simps "rewriting of the error monad"
named_theorems loop_rules "invariant rules of the C loops"

section \<open>Bytes and machine integers\<close>

type_synonym byte = char
type_synonym bytes = string
type_synonym u8 = "8 word"
type_synonym u16 = "16 word"
type_synonym u32 = "32 word"
type_synonym u64 = "64 word"

abbreviation byte_val :: "byte \<Rightarrow> nat" where
  "byte_val c \<equiv> of_char c"

abbreviation INT_MAX :: int where "INT_MAX \<equiv> 2147483647"
abbreviation INT_MIN :: int where "INT_MIN \<equiv> -2147483648"

definition in_int :: "int \<Rightarrow> bool" where
  "in_int i \<longleftrightarrow> INT_MIN \<le> i \<and> i \<le> INT_MAX"

lemma in_int_sint [simp]: "in_int (sint (w :: u32))"
  using sint_greater_eq [of w] sint_lt [of w] by (simp add: in_int_def)

section \<open>Faults and the error monad\<close>

datatype fault =
    Out_Of_Bounds      \<comment> \<open>a read or write outside its allocation\<close>
  | Signed_Overflow    \<comment> \<open>\<open>int\<close> arithmetic outside its range\<close>
  | Bad_Variant        \<comment> \<open>dereference of a null \<open>std::get_if\<close>\<close>
  | Assertion_Failed   \<comment> \<open>a failing \<open>assert\<close>\<close>
  | Nonterminating     \<comment> \<open>a loop that ran out of its fuel\<close>
  | Throws_out_of_range
  | Throws_invalid_argument

type_synonym 'a res = "fault + 'a"

text \<open>The same monad serves \<open>std::expected\<close>, with the error type of the function in place of a fault.\<close>

definition bindR :: "'e + 'a \<Rightarrow> ('a \<Rightarrow> 'e + 'b) \<Rightarrow> 'e + 'b" where
  "bindR m f = (case m of Inl e \<Rightarrow> Inl e | Inr x \<Rightarrow> f x)"

lemma bindR_Inr [simp, bind_simps]: "bindR (Inr x) f = f x"
  by (simp add: bindR_def)

lemma bindR_Inl [simp, bind_simps]: "bindR (Inl e) f = Inl e"
  by (simp add: bindR_def)

lemma bindR_eq_Inr [bind_simps]:
  "bindR m f = Inr y \<longleftrightarrow> (\<exists>x. m = Inr x \<and> f x = Inr y)"
  by (cases m) auto

lemma bindR_eq_Inl [bind_simps]:
  "bindR m f = Inl e \<longleftrightarrow> m = Inl e \<or> (\<exists>x. m = Inr x \<and> f x = Inl e)"
  by (cases m) auto

lemma bindR_assoc: "bindR (bindR m f) g = bindR m (\<lambda>x. bindR (f x) g)"
  by (cases m) auto

lemma bindR_return [simp]: "bindR m Inr = m"
  by (cases m) auto

text \<open>An \<open>assert\<close>, and \<open>int\<close> arithmetic with its overflow.\<close>

definition assertR :: "bool \<Rightarrow> unit res" where
  "assertR b = (if b then Inr () else Inl Assertion_Failed)"

definition mk_int :: "int \<Rightarrow> int res" where
  "mk_int i = (if in_int i then Inr i else Inl Signed_Overflow)"

lemma assertR_True [simp]: "assertR True = Inr ()"
  by (simp add: assertR_def)

lemma mk_int_Inr: "mk_int i = Inr j \<longleftrightarrow> in_int i \<and> j = i"
  by (auto simp: mk_int_def)

lemma mk_int_in [simp]: "in_int i \<Longrightarrow> mk_int i = Inr i"
  by (simp add: mk_int_def)

text \<open>Running a fallible step over a list, as a range-based \<open>for\<close> does.\<close>

fun foldR :: "('s \<Rightarrow> 'x \<Rightarrow> 'e + 's) \<Rightarrow> 's \<Rightarrow> 'x list \<Rightarrow> 'e + 's" where
  "foldR f s [] = Inr s"
| "foldR f s (x # xs) = bindR (f s x) (\<lambda>s'. foldR f s' xs)"

lemma foldR_append: "foldR f s (xs @ ys) = bindR (foldR f s xs) (\<lambda>s'. foldR f s' ys)"
  by (induction xs arbitrary: s) (auto simp: bindR_assoc)

section \<open>Overwriting part of a list\<close>

text \<open>\<open>std::copy\<close> of \<open>zs\<close> to the elements of a list from an index on.\<close>

definition overwrite :: "nat \<Rightarrow> 'a list \<Rightarrow> 'a list \<Rightarrow> 'a list" where
  "overwrite k zs xs = take k xs @ zs @ drop (k + length zs) xs"

lemma length_overwrite [simp]:
  "k + length zs \<le> length xs \<Longrightarrow> length (overwrite k zs xs) = length xs"
  by (simp add: overwrite_def)

lemma nth_overwrite:
  "k + length zs \<le> length xs \<Longrightarrow> i < length xs \<Longrightarrow>
    overwrite k zs xs ! i = (if k \<le> i \<and> i < k + length zs then zs ! (i - k) else xs ! i)"
  by (auto simp: overwrite_def nth_append)

lemma overwrite_Nil [simp]: "overwrite k [] xs = xs"
  by (simp add: overwrite_def)

lemma overwrite_single: "k < length xs \<Longrightarrow> overwrite k [v] xs = xs[k := v]"
  by (simp add: overwrite_def upd_conv_take_nth_drop)

lemma overwrite_all: "length zs = length xs \<Longrightarrow> overwrite 0 zs xs = zs"
  by (simp add: overwrite_def)

section \<open>Machines that keep an invariant\<close>

text \<open>
  The contract between a component that processes a list of inputs one by one and the client
  that feeds it: on an acceptable input every step from a good state ends in a good state,
  with no fault, as long as the credit pays for the cost of the input. What the client gets is
  the same for a whole list of inputs.
\<close>

locale safe_machine =
  fixes step :: "'s \<Rightarrow> 'x \<Rightarrow> 's res"
    and good :: "nat \<Rightarrow> 's \<Rightarrow> bool"
    and acceptable :: "'x \<Rightarrow> bool"
    and cost :: "'x \<Rightarrow> nat"
  assumes step_safe: "good n s \<Longrightarrow> acceptable x \<Longrightarrow> cost x \<le> n \<Longrightarrow>
    \<exists>s'. step s x = Inr s' \<and> good (n - cost x) s'"
begin

lemma run_safe:
  "good n s \<Longrightarrow> \<forall>x \<in> set xs. acceptable x \<Longrightarrow> sum_list (map cost xs) \<le> n \<Longrightarrow>
    \<exists>s'. foldR step s xs = Inr s' \<and> good (n - sum_list (map cost xs)) s'"
proof (induction xs arbitrary: n s)
  case Nil
  then show ?case by simp
next
  case (Cons x xs)
  from Cons.prems obtain s1 where s1: "step s x = Inr s1" "good (n - cost x) s1"
    using step_safe [of n s x] by auto
  have "\<forall>x \<in> set xs. acceptable x" "sum_list (map cost xs) \<le> n - cost x"
    using Cons.prems by simp_all
  from Cons.IH [OF s1(2) this] obtain s' where
    "foldR step s1 xs = Inr s'" "good (n - cost x - sum_list (map cost xs)) s'" by blast
  with s1 show ?case by simp
qed

end

section \<open>C loops\<close>

text \<open>\<open>for( int i = lo; i < hi; ++i ) body\<close> and \<open>for( int i = hi; i >= lo; --i ) body\<close>.\<close>

function for_up :: "int \<Rightarrow> int \<Rightarrow> (int \<Rightarrow> 's \<Rightarrow> 's res) \<Rightarrow> 's \<Rightarrow> 's res" where
  "for_up i hi body s =
     (if i < hi then bindR (body i s) (\<lambda>s'. for_up (i + 1) hi body s') else Inr s)"
  by pat_completeness auto
termination
  by (relation "measure (\<lambda>(i, hi, body, s). nat (hi - i))") auto

function for_down :: "int \<Rightarrow> int \<Rightarrow> (int \<Rightarrow> 's \<Rightarrow> 's res) \<Rightarrow> 's \<Rightarrow> 's res" where
  "for_down i lo body s =
     (if lo \<le> i then bindR (body i s) (\<lambda>s'. for_down (i - 1) lo body s') else Inr s)"
  by pat_completeness auto
termination
  by (relation "measure (\<lambda>(i, lo, body, s). nat (i - lo + 1))") auto

declare for_up.simps [simp del] for_down.simps [simp del]

lemma for_up_done [simp]: "hi \<le> i \<Longrightarrow> for_up i hi body s = Inr s"
  by (simp add: for_up.simps)

lemma for_down_done [simp]: "i < lo \<Longrightarrow> for_down i lo body s = Inr s"
  by (simp add: for_down.simps)

lemma for_up_step: "i < hi \<Longrightarrow>
    for_up i hi body s = bindR (body i s) (\<lambda>s'. for_up (i + 1) hi body s')"
  by (subst for_up.simps) simp

lemma for_down_step: "lo \<le> i \<Longrightarrow>
    for_down i lo body s = bindR (body i s) (\<lambda>s'. for_down (i - 1) lo body s')"
  by (subst for_down.simps) simp

text \<open>
  The invariant rules: if the invariant holds for the first index and the body runs without a
  fault and moves it to the next index, the loop runs without a fault and the invariant holds
  for the index it stops at.
\<close>

lemma for_up_rule [loop_rules]:
  assumes "P lo s" and "lo \<le> hi"
    and "\<And>i s. lo \<le> i \<Longrightarrow> i < hi \<Longrightarrow> P i s \<Longrightarrow> \<exists>s'. body i s = Inr s' \<and> P (i + 1) s'"
  shows "\<exists>s'. for_up lo hi body s = Inr s' \<and> P hi s'"
  using assms
proof (induction lo hi body s rule: for_up.induct)
  case (1 i hi body s)
  show ?case
  proof (cases "i < hi")
    case True
    then obtain s1 where s1: "body i s = Inr s1" "P (i + 1) s1"
      using "1.prems" by blast
    have "\<exists>s'. for_up (i + 1) hi body s1 = Inr s' \<and> P hi s'"
      by (rule "1.IH") (use True s1 "1.prems" in auto)
    with True s1 show ?thesis by (simp add: for_up_step)
  next
    case False
    with "1.prems" show ?thesis by simp
  qed
qed

lemma for_down_rule [loop_rules]:
  assumes "P hi s" and "lo \<le> hi + 1"
    and "\<And>i s. lo \<le> i \<Longrightarrow> i \<le> hi \<Longrightarrow> P i s \<Longrightarrow> \<exists>s'. body i s = Inr s' \<and> P (i - 1) s'"
  shows "\<exists>s'. for_down hi lo body s = Inr s' \<and> P (lo - 1) s'"
  using assms
proof (induction hi lo body s rule: for_down.induct)
  case (1 i lo body s)
  show ?case
  proof (cases "lo \<le> i")
    case True
    then obtain s1 where s1: "body i s = Inr s1" "P (i - 1) s1"
      using "1.prems" by blast
    have "\<exists>s'. for_down (i - 1) lo body s1 = Inr s' \<and> P (lo - 1) s'"
      by (rule "1.IH") (use True s1 "1.prems" in auto)
    with True s1 show ?thesis by (simp add: for_down_step)
  next
    case False
    with "1.prems" have "i = lo - 1" by simp
    with "1.prems" False show ?thesis by simp
  qed
qed

lemma for_up_cong:
  "(\<And>i s. lo \<le> i \<Longrightarrow> i < hi \<Longrightarrow> body i s = body' i s) \<Longrightarrow> for_up lo hi body s = for_up lo hi body' s"
proof (induction lo hi body s rule: for_up.induct)
  case (1 i hi body s)
  show ?case
  proof (cases "i < hi")
    case True
    with 1 show ?thesis by (cases "body' i s") (auto simp: for_up_step)
  next
    case False
    then show ?thesis by simp
  qed
qed

end
