(* ===== verification/Decimal.thy ===== *)
theory Decimal
  imports Prelude
begin

text \<open>
  Decimal numerals as \<open>std::to_string\<close> and \<open>fmt\<close> print them and as \<open>std::from_chars\<close> reads
  them.
\<close>

section \<open>Decimal output\<close>

text \<open>What \<open>fmt::format("{}")\<close> prints for an integer.\<close>

fun decimal :: "nat \<Rightarrow> bytes" where
  "decimal n = (if n < 10 then [char_of (48 + n)] else decimal (n div 10) @ [char_of (48 + n mod 10)])"

declare decimal.simps [simp del]

definition decimal_int :: "int \<Rightarrow> bytes" where
  "decimal_int i = (if i < 0 then CHR ''-'' # decimal (nat (- i)) else decimal (nat i))"

section \<open>Reading\<close>

definition is_digit :: "byte \<Rightarrow> bool" where
  "is_digit c \<longleftrightarrow> 48 \<le> byte_val c \<and> byte_val c \<le> 57"

definition dec_val :: "bytes \<Rightarrow> nat" where
  "dec_val ds = foldl (\<lambda>n c. 10 * n + (byte_val c - 48)) 0 ds"

lemma digit_char: "d < 10 \<Longrightarrow> is_digit (char_of (48 + d :: nat))"
  by (simp add: is_digit_def)

lemma dec_digits: "list_all is_digit (decimal n)"
proof (induction n rule: decimal.induct)
  case (1 n)
  then show ?case
    by (subst decimal.simps) (simp add: digit_char)
qed

lemma dec_not_Nil [simp]: "decimal n \<noteq> []"
  by (subst decimal.simps) simp

lemma dec_val_snoc: "dec_val (ds @ [c]) = 10 * dec_val ds + (byte_val c - 48)"
  by (simp add: dec_val_def)

lemma dec_val_single: "dec_val [c] = byte_val c - 48"
  by (simp add: dec_val_def)

lemma dec_val_dec: "dec_val (decimal n) = n"
proof (induction n rule: decimal.induct)
  case (1 n)
  show ?case
  proof (cases "n < 10")
    case True
    then show ?thesis by (subst decimal.simps) (simp add: dec_val_single)
  next
    case False
    with 1 show ?thesis by (subst decimal.simps) (simp add: dec_val_snoc)
  qed
qed

text \<open>
  Decimal \<open>std::from_chars\<close>: the longest prefix of digits (after an optional minus sign for a
  signed target) is the pattern; with no digit, or with a value the type cannot hold, the
  target keeps its previous value. The last component is the text from the returned \<open>ptr\<close> on.
\<close>

datatype errc = errc_ok | invalid_argument | result_out_of_range

definition from_chars_u64 :: "bytes \<Rightarrow> u64 \<Rightarrow> errc \<times> u64 \<times> bytes" where
  "from_chars_u64 s v =
     (let ds = takeWhile is_digit s in
      if ds = [] then (invalid_argument, v, s)
      else if dec_val ds < 2 ^ 64 then (errc_ok, word_of_nat (dec_val ds), dropWhile is_digit s)
      else (result_out_of_range, v, dropWhile is_digit s))"

text \<open>A numeral without leading zeros is what is printed for its value.\<close>

lemma digit_of: "is_digit c \<Longrightarrow> char_of (48 + (byte_val c - 48)) = c"
  by (simp add: is_digit_def)

lemma dec_val_ge: "ds \<noteq> [] \<Longrightarrow> list_all is_digit ds \<Longrightarrow> hd ds \<noteq> CHR ''0'' \<Longrightarrow> 0 < dec_val ds"
proof (induction ds rule: rev_induct)
  case (snoc c ds)
  show ?case
  proof (cases "ds = []")
    case True
    have "byte_val c \<noteq> 48"
    proof
      assume "byte_val c = 48"
      then have "c = char_of (48 :: nat)" by (metis char_of_char)
      with True snoc.prems show False by (simp add: char_of_def bit_0)
    qed
    with True snoc.prems show ?thesis by (simp add: dec_val_single is_digit_def)
  next
    case False
    with snoc show ?thesis by (simp add: dec_val_snoc)
  qed
qed simp

lemma decimal_dec_val:
  "ds \<noteq> [] \<Longrightarrow> list_all is_digit ds \<Longrightarrow> hd ds \<noteq> CHR ''0'' \<Longrightarrow> decimal (dec_val ds) = ds"
proof (induction ds rule: rev_induct)
  case (snoc c ds)
  have c: "is_digit c" "byte_val c - 48 < 10" using snoc.prems by (auto simp: is_digit_def)
  show ?case
  proof (cases "ds = []")
    case True
    with c show ?thesis by (subst decimal.simps) (simp add: dec_val_single digit_of)
  next
    case False
    with snoc.prems have "0 < dec_val ds" by (intro dec_val_ge) auto
    moreover have "decimal (dec_val ds) = ds" using False snoc by simp
    ultimately show ?thesis using c by (subst decimal.simps) (simp add: dec_val_snoc digit_of)
  qed
qed simp

lemma decimal_first: "0 < n \<Longrightarrow> hd (decimal n) \<noteq> CHR ''0''"
proof (induction n rule: decimal.induct)
  case (1 n)
  show ?case
  proof (cases "n < 10")
    case True
    have "char_of (48 + n) \<noteq> CHR ''0''"
    proof
      assume "char_of (48 + n) = CHR ''0''"
      then have "byte_val (char_of (48 + n)) = byte_val CHR ''0''" by simp
      with True 1(2) show False by simp
    qed
    with True show ?thesis by (subst decimal.simps) simp
  next
    case False
    with 1 show ?thesis by (subst decimal.simps) (simp add: hd_append)
  qed
qed

end
