(* ===== verification/TermCommands.thy ===== *)
theory TermCommands
  imports Prelude
begin

text \<open>
  The vocabulary between the terminal's parser and its interpreter
  (\<open>Source/Term/include/Term/Parser.h\<close>, \<open>Color.h\<close>, \<open>CursorMode.h\<close>): colours, the command types
  and their payloads. A command is a type and a payload, two independent fields as in the code;
  \<open>payload_fits\<close> says which payload the interpreter dereferences for which type.
\<close>

section \<open>Colours\<close>

type_synonym Color = u8

abbreviation Color_Black :: Color where "Color_Black \<equiv> 0"
abbreviation Color_Red :: Color where "Color_Red \<equiv> 1"
abbreviation Color_Green :: Color where "Color_Green \<equiv> 2"
abbreviation Color_Yellow :: Color where "Color_Yellow \<equiv> 3"
abbreviation Color_Blue :: Color where "Color_Blue \<equiv> 4"
abbreviation Color_Magenta :: Color where "Color_Magenta \<equiv> 5"
abbreviation Color_Cyan :: Color where "Color_Cyan \<equiv> 6"
abbreviation Color_White :: Color where "Color_White \<equiv> 7"
abbreviation Color_BrightBlack :: Color where "Color_BrightBlack \<equiv> 8"
abbreviation Color_BrightRed :: Color where "Color_BrightRed \<equiv> 9"
abbreviation Color_BrightGreen :: Color where "Color_BrightGreen \<equiv> 10"
abbreviation Color_BrightYellow :: Color where "Color_BrightYellow \<equiv> 11"
abbreviation Color_BrightBlue :: Color where "Color_BrightBlue \<equiv> 12"
abbreviation Color_BrightMagenta :: Color where "Color_BrightMagenta \<equiv> 13"
abbreviation Color_BrightCyan :: Color where "Color_BrightCyan \<equiv> 14"
abbreviation Color_BrightWhite :: Color where "Color_BrightWhite \<equiv> 15"

text \<open>The grayscale table of the three-component constructor, band by band.\<close>

definition gray_tbl :: "u8 list" where
  "gray_tbl = concat
     [replicate 11 232, replicate 11 233, replicate 10 234,
      replicate 11 235, replicate 11 236, replicate 10 237,
      replicate 11 238, replicate 11 239, replicate 10 240,
      replicate 11 241, replicate 11 242, replicate 10 243,
      replicate 11 244, replicate 11 245, replicate 10 246,
      replicate 11 247, replicate 11 248, replicate 10 249,
      replicate 11 250, replicate 11 251, replicate 10 252,
      replicate 11 253, replicate 11 254, replicate 10 255]"

definition Color_rgb :: "u8 \<Rightarrow> u8 \<Rightarrow> u8 \<Rightarrow> Color" where
  "Color_rgb r g b =
     (if r = g \<and> r = b then gray_tbl ! unat r
      else let r' = r div 43; g' = g div 43; b' = b div 43
           in 16 + 36 * r' + 6 * g' + b')"

section \<open>Cursor styles\<close>

datatype CursorMode =
    BlinkingBlock | BlinkingUnderline | BlinkingBar | SteadyBlock | SteadyUnderline | SteadyBar

definition IsSteady :: "CursorMode \<Rightarrow> bool" where
  "IsSteady m \<longleftrightarrow> m = SteadyBar \<or> m = SteadyBlock \<or> m = SteadyUnderline"

section \<open>Commands\<close>

datatype CmdType =
    T_noop | T_text | T_line_feed | T_horizontal_tab | T_carriage_return | T_back_space | T_bell
  | T_reverse_index | T_reset | T_save_state | T_restore_state | T_screen_alignment_test
  | T_change_title | T_manipulate_title | T_move_cursor | T_erase_in_display | T_erase_in_line
  | T_insert_lines | T_delete_lines | T_delete_characters | T_insert_characters | T_scroll_lines
  | T_erase_characters | T_repeat_last_character | T_report | T_change_mode
  | T_set_scrolling_region | T_clear_tab | T_set_tab | T_set_character_attributes
  | T_select_character_set | T_designate_character_set | T_set_cursor_style

datatype TitleKind = Title_IconAndWindow | Title_Icon | Title_Window

record Title =
  title_kind :: TitleKind
  title_text :: bytes

datatype Positioning = Absolute | Relative

record CursorMovement =
  cm_positioning :: Positioning
  cm_x :: "int option"
  cm_y :: "int option"

datatype DisplayErasure =
  FromCursorToDisplayEnd | FromDisplayStartToCursor | WholeDisplay | WholeDisplayWithScrollback

datatype LineErasure = FromCursorToLineEnd | FromLineStartToCursor | WholeLine

datatype ModeKind =
    Mode_Insert | Mode_NewLine | Mode_Column132 | Mode_Origin | Mode_AutoWrap | Mode_ReverseVideo
  | Mode_SmoothScroll | Mode_ApplicationCursorKeys | Mode_AlternateScreenBuffer
  | Mode_AlternateScreenBuffer1049 | Mode_BlinkingCursor | Mode_ShowCursor | Mode_AutoRepeatKeys
  | Mode_SendMouseXYOnPress | Mode_SendMouseXYOnPressAndRelease
  | Mode_SendMouseXYOnPressDragAndRelease | Mode_SendMouseXYAnyEvent | Mode_SendMouseReportUFT8
  | Mode_SendMouseReportSGR | Mode_BracketedPaste

record ModeChange =
  mc_mode :: ModeKind
  mc_status :: bool

datatype DeviceReport = TerminalId | DeviceStatus | CursorPosition

record ScrollRange =
  range_top :: int
  range_bottom :: int

datatype TabClear = TabClear_All | TabClear_CurrentColumn

datatype AttrKind =
    CA_Normal | CA_Bold | CA_Faint | CA_Italicized | CA_Underlined | CA_Blink | CA_Inverse
  | CA_Invisible | CA_Crossed | CA_DoublyUnderlined | CA_NotBoldNotFaint | CA_NotItalicized
  | CA_NotUnderlined | CA_NotBlink | CA_NotInverse | CA_NotInvisible | CA_NotCrossed
  | CA_ForegroundColor | CA_ForegroundDefault | CA_BackgroundColor | CA_BackgroundDefault

record CharacterAttributes =
  ca_mode :: AttrKind
  ca_color :: Color

datatype CharSet =
    DECSpecialGraphics | AlternateCharacterROMStandardCharacters
  | AlternateCharacterROMSpecialGraphics | UK | USASCII

record CharacterSetDesignation =
  csd_target :: nat
  csd_set :: CharSet

datatype TitleTarget = TM_Both | TM_Icon | TM_Window

datatype TitleOperation = TM_Save | TM_Restore

record TitleManipulation =
  tm_target :: TitleTarget
  tm_operation :: TitleOperation

datatype Payload =
    P_None
  | P_signed int
  | P_unsigned u32
  | P_UTF8Text bytes
  | P_Title Title
  | P_CursorMovement CursorMovement
  | P_DisplayErasure DisplayErasure
  | P_LineErasure LineErasure
  | P_ModeChange ModeChange
  | P_DeviceReport DeviceReport
  | P_ScrollingRegion "ScrollRange option"
  | P_TabClear TabClear
  | P_CharacterAttributes CharacterAttributes
  | P_CharacterSetDesignation CharacterSetDesignation
  | P_TitleManipulation TitleManipulation
  | P_CursorStyle "CursorMode option"

record Command =
  cmd_type :: CmdType
  payload :: Payload

definition mk_cmd :: "CmdType \<Rightarrow> Payload \<Rightarrow> Command" where
  "mk_cmd t p = \<lparr>cmd_type = t, payload = p\<rparr>"

lemma mk_cmd_sel [simp]: "cmd_type (mk_cmd t p) = t" "payload (mk_cmd t p) = p"
  by (simp_all add: mk_cmd_def)

lemma mk_cmd_inject [simp]: "mk_cmd t p = mk_cmd t' p' \<longleftrightarrow> t = t' \<and> p = p'"
  by (simp add: mk_cmd_def)

text \<open>
  The payload each type carries according to the comments of the \<open>Type\<close> enumeration; these are
  the alternatives \<open>InterpreterImpl::InterpretSingleCommand\<close> reads with \<open>*std::get_if\<close>.
\<close>

definition payload_fits :: "Command \<Rightarrow> bool" where
  "payload_fits c = (case cmd_type c of
      T_text \<Rightarrow> (\<exists>s. payload c = P_UTF8Text s)
    | T_horizontal_tab \<Rightarrow> (\<exists>n. payload c = P_signed n \<and> in_int n)
    | T_scroll_lines \<Rightarrow> (\<exists>n. payload c = P_signed n \<and> in_int n)
    | T_change_title \<Rightarrow> (\<exists>t. payload c = P_Title t)
    | T_manipulate_title \<Rightarrow> (\<exists>t. payload c = P_TitleManipulation t)
    | T_move_cursor \<Rightarrow> (\<exists>m. payload c = P_CursorMovement m \<and>
        pred_option in_int (cm_x m) \<and> pred_option in_int (cm_y m))
    | T_erase_in_display \<Rightarrow> (\<exists>e. payload c = P_DisplayErasure e)
    | T_erase_in_line \<Rightarrow> (\<exists>e. payload c = P_LineErasure e)
    | T_insert_lines \<Rightarrow> (\<exists>n. payload c = P_unsigned n)
    | T_delete_lines \<Rightarrow> (\<exists>n. payload c = P_unsigned n)
    | T_delete_characters \<Rightarrow> (\<exists>n. payload c = P_unsigned n)
    | T_insert_characters \<Rightarrow> (\<exists>n. payload c = P_unsigned n)
    | T_erase_characters \<Rightarrow> (\<exists>n. payload c = P_unsigned n)
    | T_repeat_last_character \<Rightarrow> (\<exists>n. payload c = P_unsigned n)
    | T_report \<Rightarrow> (\<exists>r. payload c = P_DeviceReport r)
    | T_change_mode \<Rightarrow> (\<exists>m. payload c = P_ModeChange m)
    | T_set_scrolling_region \<Rightarrow> (\<exists>r. payload c = P_ScrollingRegion r \<and>
        pred_option (\<lambda>r. in_int (range_top r) \<and> in_int (range_bottom r)) r)
    | T_clear_tab \<Rightarrow> (\<exists>t. payload c = P_TabClear t)
    | T_set_character_attributes \<Rightarrow> (\<exists>a. payload c = P_CharacterAttributes a)
    | T_select_character_set \<Rightarrow> (\<exists>n. payload c = P_unsigned n \<and> n < 4)
    | T_designate_character_set \<Rightarrow> (\<exists>d. payload c = P_CharacterSetDesignation d \<and> csd_target d < 4)
    | T_set_cursor_style \<Rightarrow> (\<exists>s. payload c = P_CursorStyle s)
    | _ \<Rightarrow> payload c = P_None)"

section \<open>Properties of the colour quantisation\<close>

lemma replicate_numeral_Cons: "replicate (numeral k) x = x # replicate (pred_numeral k) x"
  by (simp add: numeral_eq_Suc)

lemma gray_tbl_eq:
  "gray_tbl = map (\<lambda>r. word_of_nat (232 + 24 * r div 256)) [0..<256]"
  by (simp add: gray_tbl_def replicate_numeral_Cons upt_conv_Cons del: upt_Suc)

lemma gray_tbl_nth: "n < 256 \<Longrightarrow> unat (gray_tbl ! n) = 232 + 24 * n div 256"
  by (simp add: gray_tbl_eq unat_word_ariths unat_of_nat)

lemma unat_u8_less [simp]: "unat (w :: u8) < 256"
  using unsigned_less [of w, where 'a = nat] by simp

lemma Color_rgb_gray: "unat (Color_rgb x x x) = 232 + 24 * unat x div 256"
  by (simp add: Color_rgb_def gray_tbl_nth)

lemma Color_rgb_cube:
  assumes "\<not> (r = g \<and> r = b)"
  shows "unat (Color_rgb r g b) = 16 + 36 * (unat r div 43) + 6 * (unat g div 43) + unat b div 43"
proof -
  have div43: "unat (w div 43) = unat w div 43" and le5: "unat w div 43 \<le> 5" for w :: u8
    using unat_u8_less [of w] by (simp_all add: unat_div del: unat_u8_less)
  have "36 * (unat r div 43) + 6 * (unat g div 43) + unat b div 43 \<le> 215"
    using le5 [of r] le5 [of g] le5 [of b] by linarith
  then show ?thesis
    using assms by (auto simp: Color_rgb_def Let_def unat_word_ariths div43 mod_simps)
qed

end
