(* ===== verification/ParserCSI.thy ===== *)
theory ParserCSI
  imports Decimal TermCommands
begin

text \<open>
  The control-sequence handlers of the terminal parser (\<open>Source/Term/source/ParserImpl.cpp\<close>,
  \<open>CSI_A\<close> to \<open>CSI_At\<close>, \<open>CSIParamsScanner\<close>): what is emitted for a complete
  \<open>CSI ... final\<close> sequence. A handler is a function of the collected buffer; its result is
  the list of effects in order, commands appended to \<open>m_Output\<close> and complaints passed to the
  error log, or the fault of a negation that leaves \<open>int\<close>.
\<close>

section \<open>Effects\<close>

datatype Missed = MissedEsc byte | MissedOSC u32 bytes | MissedCSI bytes

datatype effect = Emit Command | Complain Missed

type_synonym effects = "effect list"

abbreviation emit_cmd :: "CmdType \<Rightarrow> Payload \<Rightarrow> effects res" where
  "emit_cmd t p \<equiv> Inr [Emit (mk_cmd t p)]"

section \<open>std::from_chars\<close>

definition from_chars_u32 :: "bytes \<Rightarrow> u32 \<Rightarrow> errc \<times> u32 \<times> bytes" where
  "from_chars_u32 s v =
     (let ds = takeWhile is_digit s in
      if ds = [] then (invalid_argument, v, s)
      else if dec_val ds < 2 ^ 32 then (errc_ok, word_of_nat (dec_val ds), dropWhile is_digit s)
      else (result_out_of_range, v, dropWhile is_digit s))"

definition from_chars_int :: "bytes \<Rightarrow> int \<Rightarrow> errc \<times> int \<times> bytes" where
  "from_chars_int s v =
     (let neg = (s \<noteq> [] \<and> hd s = CHR ''-'');
          body = (if neg then tl s else s);
          ds = takeWhile is_digit body;
          n = (if neg then - int (dec_val ds) else int (dec_val ds)) in
      if ds = [] then (invalid_argument, v, s)
      else if in_int n then (errc_ok, n, dropWhile is_digit body)
      else (result_out_of_range, v, dropWhile is_digit body))"

definition parse_u32 :: "bytes \<Rightarrow> u32 \<Rightarrow> u32" where
  "parse_u32 s v = fst (snd (from_chars_u32 s v))"

definition parse_int :: "bytes \<Rightarrow> int \<Rightarrow> int" where
  "parse_int s v = fst (snd (from_chars_int s v))"

section \<open>Parameter lists\<close>

text \<open>
  \<open>CSIParamsScanner::Parse\<close>. The array and its count are the list of the values read so far; it
  holds at most \<open>MaxParams\<close>.
\<close>

definition MaxParams :: nat where "MaxParams = 8"

function scan_params :: "u32 list \<Rightarrow> bytes \<Rightarrow> u32 list" where
  "scan_params vs s =
     (if length vs \<ge> MaxParams then vs
      else case from_chars_u32 s 0 of (ec, v, rest) \<Rightarrow>
        if ec = errc_ok then
          if rest = [] \<or> hd rest \<noteq> CHR '';'' then vs @ [v]
          else scan_params (vs @ [v]) (tl rest)
        else if s \<noteq> [] \<and> hd s = CHR '';'' then scan_params (vs @ [0]) (tl s)
        else vs)"
  by pat_completeness auto
termination
  by (relation "measure (\<lambda>(vs, s). MaxParams - length vs)") auto

declare scan_params.simps [simp del]

definition CSIParamsScanner_Parse :: "bytes \<Rightarrow> u32 list" where
  "CSIParamsScanner_Parse s = scan_params [] s"

section \<open>Cursor movement\<close>

definition move_cursor :: "Positioning \<Rightarrow> int option \<Rightarrow> int option \<Rightarrow> effect" where
  "move_cursor pos x y = Emit (mk_cmd T_move_cursor
     (P_CursorMovement \<lparr>cm_positioning = pos, cm_x = x, cm_y = y\<rparr>))"

definition CSI_A :: "bytes \<Rightarrow> effects res" where
  "CSI_A s = (let ps = parse_u32 s 1 in
     Inr [move_cursor Relative (Some 0) (Some (- max (sint ps) 1))])"

definition CSI_B :: "bytes \<Rightarrow> effects res" where
  "CSI_B s = (let ps = parse_u32 s 1 in
     Inr [move_cursor Relative (Some 0) (Some (max (sint ps) 1))])"

definition CSI_C :: "bytes \<Rightarrow> effects res" where
  "CSI_C s = (let ps = parse_u32 s 1 in
     Inr [move_cursor Relative (Some (max (sint ps) 1)) (Some 0)])"

definition CSI_D :: "bytes \<Rightarrow> effects res" where
  "CSI_D s = (let ps = parse_u32 s 1 in
     Inr [move_cursor Relative (Some (- max (sint ps) 1)) (Some 0)])"

definition CSI_E :: "bytes \<Rightarrow> effects res" where
  "CSI_E s = (let ps = parse_u32 s 1 in
     Inr [move_cursor Relative None (Some (sint ps)), move_cursor Absolute (Some 0) None])"

definition CSI_F :: "bytes \<Rightarrow> effects res" where
  "CSI_F s = (let ps = parse_u32 s 1 in
     bindR (mk_int (- sint ps)) (\<lambda>y.
     Inr [move_cursor Relative None (Some y), move_cursor Absolute (Some 0) None]))"

definition CSI_G :: "bytes \<Rightarrow> effects res" where
  "CSI_G s = (let p = CSIParamsScanner_Parse s;
       x = (if length p \<ge> 1 then (if p ! 0 > 0 then sint (p ! 0 - 1) else 0) else 0) in
     Inr [move_cursor Absolute (Some x) None])"

definition CSI_H :: "bytes \<Rightarrow> effects res" where
  "CSI_H s = (let p = CSIParamsScanner_Parse s;
       y = (if length p = 2 then (if p ! 0 > 0 then sint (p ! 0 - 1) else 0) else 0);
       x = (if length p = 2 then (if p ! 1 > 0 then sint (p ! 1 - 1) else 0) else 0) in
     Inr [move_cursor Absolute (Some x) (Some y)])"

definition CSI_a :: "bytes \<Rightarrow> effects res" where
  "CSI_a s = Inr [move_cursor Relative (Some (parse_int s 1)) None]"

definition CSI_d :: "bytes \<Rightarrow> effects res" where
  "CSI_d s = bindR (mk_int (parse_int s 1 - 1)) (\<lambda>d.
     Inr [move_cursor Absolute None (Some (max d 0))])"

definition CSI_e :: "bytes \<Rightarrow> effects res" where
  "CSI_e s = Inr [move_cursor Relative None (Some (parse_int s 1))]"

definition CSI_f :: "bytes \<Rightarrow> effects res" where
  "CSI_f s = CSI_H s"

definition CSI_Accent :: "bytes \<Rightarrow> effects res" where
  "CSI_Accent s = bindR (mk_int (parse_int s 1 - 1)) (\<lambda>d.
     Inr [move_cursor Absolute (Some (max d 0)) None])"

section \<open>Tabulation, erasure, insertion, deletion, scrolling\<close>

definition CSI_I :: "bytes \<Rightarrow> effects res" where
  "CSI_I s = emit_cmd T_horizontal_tab (P_signed (sint (parse_u32 s 1)))"

definition CSI_Z :: "bytes \<Rightarrow> effects res" where
  "CSI_Z s = bindR (mk_int (- sint (parse_u32 s 1))) (\<lambda>n.
     emit_cmd T_horizontal_tab (P_signed n))"

definition CSI_J :: "bytes \<Rightarrow> effects res" where
  "CSI_J s = (let ps = parse_u32 s 0 in
     if ps = 0 then emit_cmd T_erase_in_display (P_DisplayErasure FromCursorToDisplayEnd)
     else if ps = 1 then emit_cmd T_erase_in_display (P_DisplayErasure FromDisplayStartToCursor)
     else if ps = 2 then emit_cmd T_erase_in_display (P_DisplayErasure WholeDisplay)
     else if ps = 3 then emit_cmd T_erase_in_display (P_DisplayErasure WholeDisplayWithScrollback)
     else Inr [])"

definition CSI_K :: "bytes \<Rightarrow> effects res" where
  "CSI_K s = (let ps = parse_u32 s 0 in
     if ps = 0 then emit_cmd T_erase_in_line (P_LineErasure FromCursorToLineEnd)
     else if ps = 1 then emit_cmd T_erase_in_line (P_LineErasure FromLineStartToCursor)
     else if ps = 2 then emit_cmd T_erase_in_line (P_LineErasure WholeLine)
     else Inr [])"

definition CSI_L :: "bytes \<Rightarrow> effects res" where
  "CSI_L s = emit_cmd T_insert_lines (P_unsigned (parse_u32 s 1))"

definition CSI_M :: "bytes \<Rightarrow> effects res" where
  "CSI_M s = emit_cmd T_delete_lines (P_unsigned (parse_u32 s 1))"

definition CSI_P :: "bytes \<Rightarrow> effects res" where
  "CSI_P s = emit_cmd T_delete_characters (P_unsigned (parse_u32 s 1))"

definition CSI_S :: "bytes \<Rightarrow> effects res" where
  "CSI_S s = emit_cmd T_scroll_lines (P_signed (sint (parse_u32 s 1)))"

definition CSI_T :: "bytes \<Rightarrow> effects res" where
  "CSI_T s = bindR (mk_int (- sint (parse_u32 s 1))) (\<lambda>n.
     emit_cmd T_scroll_lines (P_signed n))"

definition CSI_X :: "bytes \<Rightarrow> effects res" where
  "CSI_X s = emit_cmd T_erase_characters (P_unsigned (max (parse_u32 s 1) 1))"

definition CSI_b :: "bytes \<Rightarrow> effects res" where
  "CSI_b s = emit_cmd T_repeat_last_character (P_unsigned (parse_u32 s 1))"

definition CSI_At :: "bytes \<Rightarrow> effects res" where
  "CSI_At s = emit_cmd T_insert_characters (P_unsigned (word_of_int (parse_int s 1)))"

definition CSI_g :: "bytes \<Rightarrow> effects res" where
  "CSI_g s = (let ps = parse_int s 0 in
     if ps = 0 \<or> ps = 3
     then emit_cmd T_clear_tab (P_TabClear (if ps = 0 then TabClear_CurrentColumn else TabClear_All))
     else Inr [])"

section \<open>Reports, modes, character attributes, cursor style\<close>

definition CSI_c :: "bytes \<Rightarrow> effects res" where
  "CSI_c s = (if parse_u32 s 0 = 0 then emit_cmd T_report (P_DeviceReport TerminalId) else Inr [])"

definition CSI_n :: "bytes \<Rightarrow> effects res" where
  "CSI_n s = (case from_chars_int s 0 of (ec, ps, rest) \<Rightarrow>
     if ec = errc_ok then
       Inr ((if ps = 5 then [Emit (mk_cmd T_report (P_DeviceReport DeviceStatus))] else []) @
            (if ps = 6 then [Emit (mk_cmd T_report (P_DeviceReport CursorPosition))] else []))
     else Inr [])"

definition ToModeChange :: "u32 \<Rightarrow> bool \<Rightarrow> ModeKind option" where
  "ToModeChange ps dec =
     (if dec then map_of
        [(1, Mode_ApplicationCursorKeys), (3, Mode_Column132), (4, Mode_SmoothScroll),
         (5, Mode_ReverseVideo), (6, Mode_Origin), (7, Mode_AutoWrap), (8, Mode_AutoRepeatKeys),
         (9, Mode_SendMouseXYOnPress), (12, Mode_BlinkingCursor), (25, Mode_ShowCursor),
         (47, Mode_AlternateScreenBuffer), (1000, Mode_SendMouseXYOnPressAndRelease),
         (1002, Mode_SendMouseXYOnPressDragAndRelease), (1003, Mode_SendMouseXYAnyEvent),
         (1005, Mode_SendMouseReportUFT8), (1006, Mode_SendMouseReportSGR),
         (1049, Mode_AlternateScreenBuffer1049), (2004, Mode_BracketedPaste)] ps
      else map_of [(4, Mode_Insert), (20, Mode_NewLine)] ps)"

definition hl_effect :: "bytes \<Rightarrow> bool \<Rightarrow> bool \<Rightarrow> u32 \<Rightarrow> effect" where
  "hl_effect s dec on ps = (case ToModeChange ps dec of
      None \<Rightarrow> Complain (MissedCSI s)
    | Some k \<Rightarrow> Emit (mk_cmd T_change_mode (P_ModeChange \<lparr>mc_mode = k, mc_status = on\<rparr>)))"

definition CSI_hl :: "bytes \<Rightarrow> effects res" where
  "CSI_hl s = bindR (assertR (s \<noteq> [])) (\<lambda>_.
     let on = (last s = CHR ''h'');
         dec = (hd s = CHR ''?'');
         request = (if dec then tl s else s) in
     Inr (map (hl_effect s dec on) (CSIParamsScanner_Parse request)))"

definition CA :: "AttrKind \<Rightarrow> CharacterAttributes" where
  "CA k = \<lparr>ca_mode = k, ca_color = Color_Black\<rparr>"

definition CA_fg :: "Color \<Rightarrow> CharacterAttributes" where
  "CA_fg c = \<lparr>ca_mode = CA_ForegroundColor, ca_color = c\<rparr>"

definition CA_bg :: "Color \<Rightarrow> CharacterAttributes" where
  "CA_bg c = \<lparr>ca_mode = CA_BackgroundColor, ca_color = c\<rparr>"

definition SCIm_table :: "(int \<times> CharacterAttributes) list" where
  "SCIm_table =
     [(0, CA CA_Normal), (1, CA CA_Bold), (2, CA CA_Faint), (3, CA CA_Italicized),
      (4, CA CA_Underlined), (5, CA CA_Blink), (7, CA CA_Inverse), (8, CA CA_Invisible),
      (9, CA CA_Crossed), (21, CA CA_DoublyUnderlined), (22, CA CA_NotBoldNotFaint),
      (23, CA CA_NotItalicized), (24, CA CA_NotUnderlined), (25, CA CA_NotBlink),
      (27, CA CA_NotInverse), (28, CA CA_NotInvisible), (29, CA CA_NotCrossed),
      (30, CA_fg Color_Black), (31, CA_fg Color_Red), (32, CA_fg Color_Green),
      (33, CA_fg Color_Yellow), (34, CA_fg Color_Blue), (35, CA_fg Color_Magenta),
      (36, CA_fg Color_Cyan), (37, CA_fg Color_White), (39, CA CA_ForegroundDefault),
      (40, CA_bg Color_Black), (41, CA_bg Color_Red), (42, CA_bg Color_Green),
      (43, CA_bg Color_Yellow), (44, CA_bg Color_Blue), (45, CA_bg Color_Magenta),
      (46, CA_bg Color_Cyan), (47, CA_bg Color_White), (49, CA CA_BackgroundDefault),
      (90, CA_fg Color_BrightBlack), (91, CA_fg Color_BrightRed), (92, CA_fg Color_BrightGreen),
      (93, CA_fg Color_BrightYellow), (94, CA_fg Color_BrightBlue),
      (95, CA_fg Color_BrightMagenta), (96, CA_fg Color_BrightCyan),
      (97, CA_fg Color_BrightWhite),
      (100, CA_bg Color_BrightBlack), (101, CA_bg Color_BrightRed),
      (102, CA_bg Color_BrightGreen), (103, CA_bg Color_BrightYellow),
      (104, CA_bg Color_BrightBlue), (105, CA_bg Color_BrightMagenta),
      (106, CA_bg Color_BrightCyan), (107, CA_bg Color_BrightWhite)]"

definition SCImToCharacterAttributes :: "int \<Rightarrow> CharacterAttributes option" where
  "SCImToCharacterAttributes ps = map_of SCIm_table ps"

definition sca :: "CharacterAttributes \<Rightarrow> effect" where
  "sca a = Emit (mk_cmd T_set_character_attributes (P_CharacterAttributes a))"

text \<open>
  The loop of \<open>CSI_m\<close> over the parameters, with its index: the extended colours (38 and 48)
  look ahead and skip the parameters they consumed.
\<close>

definition extended_color :: "bytes \<Rightarrow> u32 list \<Rightarrow> nat \<Rightarrow> effect" where
  "extended_color s p i =
     (let mode = (if p ! i = 38 then CA_ForegroundColor else CA_BackgroundColor) in
      if i + 2 < length p \<and> p ! (i + 1) = 5 \<and> p ! (i + 2) < 256
      then sca \<lparr>ca_mode = mode, ca_color = ucast (p ! (i + 2))\<rparr>
      else if i + 4 < length p \<and> p ! (i + 1) = 2
          \<and> p ! (i + 2) < 256 \<and> p ! (i + 3) < 256 \<and> p ! (i + 4) < 256
      then sca \<lparr>ca_mode = mode,
             ca_color = Color_rgb (ucast (p ! (i + 2))) (ucast (p ! (i + 3))) (ucast (p ! (i + 4)))\<rparr>
      else Complain (MissedCSI s))"

function sgr_loop :: "bytes \<Rightarrow> u32 list \<Rightarrow> nat \<Rightarrow> effects" where
  "sgr_loop s p i =
     (if i < length p then
        let ps = p ! i in
        if ps = 38 \<or> ps = 48 then
          let skip = (if i + 1 < length p \<and> p ! (i + 1) = 2 then 4 else 2) in
          extended_color s p i # sgr_loop s p (i + skip + 1)
        else (case SCImToCharacterAttributes (sint ps) of
                Some a \<Rightarrow> sca a
              | None \<Rightarrow> Complain (MissedCSI s)) # sgr_loop s p (i + 1)
      else [])"
  by pat_completeness auto
termination
  by (relation "measure (\<lambda>(s, p, i). length p - i)") auto

declare sgr_loop.simps [simp del]

definition CSI_m :: "bytes \<Rightarrow> effects res" where
  "CSI_m s = (let p = CSIParamsScanner_Parse s;
                  p' = (if length p = 0 then [0] else p) in
     Inr (sgr_loop s p' 0))"

definition CSI_q :: "bytes \<Rightarrow> effects res" where
  "CSI_q s = (let p = CSIParamsScanner_Parse s;
       is_sp = (length s \<ge> 2 \<and> s ! (length s - 2) = CHR '' '') in
     if is_sp then
       let mode = (if length p = 1 then p ! 0 else 0);
           style = (if mode = 1 then Some BlinkingBlock
                    else if mode = 2 then Some SteadyBlock
                    else if mode = 3 then Some BlinkingUnderline
                    else if mode = 4 then Some SteadyUnderline
                    else if mode = 5 then Some BlinkingBar
                    else if mode = 6 then Some SteadyBar
                    else None) in
       emit_cmd T_set_cursor_style (P_CursorStyle style)
     else Inr [Complain (MissedCSI s)])"

definition CSI_r :: "bytes \<Rightarrow> effects res" where
  "CSI_r s = (let p = CSIParamsScanner_Parse s in
     if length p = 0 then emit_cmd T_set_scrolling_region (P_ScrollingRegion None)
     else if length p = 2 then
       emit_cmd T_set_scrolling_region (P_ScrollingRegion
         (if p ! 0 \<ge> 1 \<and> p ! 1 \<ge> 1 \<and> p ! 1 > p ! 0
          then Some \<lparr>range_top = sint (p ! 0 - 1), range_bottom = sint (p ! 1)\<rparr>
          else None))
     else Inr [Complain (MissedCSI s)])"

definition ComposeWindowTitleManipulation :: "u32 \<Rightarrow> u32 \<Rightarrow> TitleManipulation option" where
  "ComposeWindowTitleManipulation ps pt =
     (case (if ps = 22 then Some TM_Save else if ps = 23 then Some TM_Restore else None) of
        None \<Rightarrow> None
      | Some operation \<Rightarrow>
          (case (if pt = 0 then Some TM_Both else if pt = 1 then Some TM_Icon
                 else if pt = 2 then Some TM_Window else None) of
             None \<Rightarrow> None
           | Some tgt \<Rightarrow> Some \<lparr>tm_target = tgt, tm_operation = operation\<rparr>))"

definition CSI_t :: "bytes \<Rightarrow> effects res" where
  "CSI_t s = (let p = CSIParamsScanner_Parse s in
     if length p < 1 then Inr []
     else let ps = p ! 0 in
       if (ps = 22 \<or> ps = 23) \<and> length p = 2 then
         (case ComposeWindowTitleManipulation ps (p ! 1) of
            Some m \<Rightarrow> emit_cmd T_manipulate_title (P_TitleManipulation m)
          | None \<Rightarrow> Inr [])
       else Inr [Complain (MissedCSI s)])"

section \<open>Dispatch\<close>

definition CSI_handlers :: "(byte \<times> (bytes \<Rightarrow> effects res)) list" where
  "CSI_handlers =
     [(CHR ''A'', CSI_A), (CHR ''B'', CSI_B), (CHR ''C'', CSI_C), (CHR ''D'', CSI_D),
      (CHR ''E'', CSI_E), (CHR ''F'', CSI_F), (CHR ''G'', CSI_G), (CHR ''H'', CSI_H),
      (CHR ''I'', CSI_I), (CHR ''J'', CSI_J), (CHR ''K'', CSI_K), (CHR ''L'', CSI_L),
      (CHR ''M'', CSI_M), (CHR ''P'', CSI_P), (CHR ''S'', CSI_S), (CHR ''T'', CSI_T),
      (CHR ''X'', CSI_X), (CHR ''Z'', CSI_Z), (CHR ''a'', CSI_a), (CHR ''b'', CSI_b),
      (CHR ''c'', CSI_c), (CHR ''d'', CSI_d), (CHR ''e'', CSI_e), (CHR ''f'', CSI_f),
      (CHR ''g'', CSI_g), (CHR ''h'', CSI_hl), (CHR ''l'', CSI_hl), (CHR ''m'', CSI_m),
      (CHR ''n'', CSI_n), (CHR ''q'', CSI_q), (CHR ''r'', CSI_r), (CHR ''t'', CSI_t),
      (CHR ''`'', CSI_Accent), (CHR ''@'', CSI_At)]"

definition SSCSISubmit :: "bytes \<Rightarrow> effects res" where
  "SSCSISubmit s = (if s = [] then Inr []
     else case map_of CSI_handlers (last s) of
            Some handler \<Rightarrow> handler s
          | None \<Rightarrow> Inr [Complain (MissedCSI s)])"

section \<open>What the handlers emit\<close>

named_theorems csi_typed "the handlers emit well-typed commands"

text \<open>Every emitted command carries the payload its type announces.\<close>

definition typed :: "effects \<Rightarrow> bool" where
  "typed es \<longleftrightarrow> (\<forall>c. Emit c \<in> set es \<longrightarrow> payload_fits c)"

lemma typed_Nil [simp]: "typed []"
  by (simp add: typed_def)

lemma typed_Emit [simp]: "typed (Emit c # es) \<longleftrightarrow> payload_fits c \<and> typed es"
  by (auto simp: typed_def)

lemma typed_Complain [simp]: "typed (Complain m # es) \<longleftrightarrow> typed es"
  by (auto simp: typed_def)

lemma typed_append [simp]: "typed (xs @ ys) \<longleftrightarrow> typed xs \<and> typed ys"
  by (auto simp: typed_def)

lemma in_int_parse_int [simp]: "in_int v \<Longrightarrow> in_int (parse_int s v)"
  by (simp add: parse_int_def from_chars_int_def Let_def)

lemma in_int_max [simp]: "in_int a \<Longrightarrow> in_int b \<Longrightarrow> in_int (max a b)"
  by (simp add: max_def)

lemma in_int_numerals [simp]: "in_int 0" "in_int 1"
  by (simp_all add: in_int_def)

lemma in_int_neg_max [simp]: "in_int a \<Longrightarrow> in_int (- max a 1)"
  by (auto simp: in_int_def max_def)

lemma move_cursor_typed [simp]:
  "typed (move_cursor pos x y # es) \<longleftrightarrow> pred_option in_int x \<and> pred_option in_int y \<and> typed es"
  by (simp add: move_cursor_def payload_fits_def)

lemma sca_typed [simp]: "typed (sca a # es) \<longleftrightarrow> typed es"
  by (simp add: sca_def payload_fits_def)

lemma extended_color_typed: "typed es \<Longrightarrow> typed (extended_color s p i # es)"
  by (simp add: extended_color_def Let_def)

lemma sgr_loop_typed: "typed (sgr_loop s p i)"
proof (induction s p i rule: sgr_loop.induct)
  case (1 s p i)
  then show ?case
    by (subst sgr_loop.simps)
      (auto simp: Let_def extended_color_typed simp del: One_nat_def split: option.split)
qed

lemma hl_effects_typed: "typed (map (hl_effect s dec on) ps)"
  by (induction ps) (auto simp: hl_effect_def payload_fits_def split: option.split)

lemmas cursor_defs = CSI_A_def CSI_B_def CSI_C_def CSI_D_def CSI_E_def CSI_F_def CSI_G_def
  CSI_H_def CSI_a_def CSI_d_def CSI_e_def CSI_f_def CSI_Accent_def

lemmas edit_defs = CSI_I_def CSI_Z_def CSI_J_def CSI_K_def CSI_L_def CSI_M_def CSI_P_def
  CSI_S_def CSI_T_def CSI_X_def CSI_b_def CSI_At_def CSI_g_def

lemmas report_defs = CSI_c_def CSI_n_def CSI_hl_def CSI_m_def CSI_q_def CSI_r_def CSI_t_def

lemma cursor_typed [csi_typed]:
  "CSI_A s = Inr es \<Longrightarrow> typed es" "CSI_B s = Inr es \<Longrightarrow> typed es"
  "CSI_C s = Inr es \<Longrightarrow> typed es" "CSI_D s = Inr es \<Longrightarrow> typed es"
  "CSI_E s = Inr es \<Longrightarrow> typed es" "CSI_F s = Inr es \<Longrightarrow> typed es"
  "CSI_G s = Inr es \<Longrightarrow> typed es" "CSI_H s = Inr es \<Longrightarrow> typed es"
  "CSI_a s = Inr es \<Longrightarrow> typed es" "CSI_d s = Inr es \<Longrightarrow> typed es"
  "CSI_e s = Inr es \<Longrightarrow> typed es" "CSI_f s = Inr es \<Longrightarrow> typed es"
  "CSI_Accent s = Inr es \<Longrightarrow> typed es"
  unfolding cursor_defs Let_def bindR_eq_Inr mk_int_Inr by auto

lemma edit_typed [csi_typed]:
  "CSI_I s = Inr es \<Longrightarrow> typed es" "CSI_Z s = Inr es \<Longrightarrow> typed es"
  "CSI_J s = Inr es \<Longrightarrow> typed es" "CSI_K s = Inr es \<Longrightarrow> typed es"
  "CSI_L s = Inr es \<Longrightarrow> typed es" "CSI_M s = Inr es \<Longrightarrow> typed es"
  "CSI_P s = Inr es \<Longrightarrow> typed es" "CSI_S s = Inr es \<Longrightarrow> typed es"
  "CSI_T s = Inr es \<Longrightarrow> typed es" "CSI_X s = Inr es \<Longrightarrow> typed es"
  "CSI_b s = Inr es \<Longrightarrow> typed es" "CSI_At s = Inr es \<Longrightarrow> typed es"
  "CSI_g s = Inr es \<Longrightarrow> typed es"
  unfolding edit_defs Let_def bindR_eq_Inr mk_int_Inr
  by (auto simp: payload_fits_def split: if_splits)

lemma report_typed [csi_typed]:
  "CSI_c s = Inr es \<Longrightarrow> typed es" "CSI_n s = Inr es \<Longrightarrow> typed es"
  "CSI_q s = Inr es \<Longrightarrow> typed es" "CSI_r s = Inr es \<Longrightarrow> typed es"
  "CSI_t s = Inr es \<Longrightarrow> typed es"
  unfolding CSI_c_def CSI_n_def CSI_q_def CSI_r_def CSI_t_def Let_def
  by (auto simp: payload_fits_def split: if_splits option.splits prod.splits)

lemma hl_m_typed [csi_typed]:
  "CSI_hl s = Inr es \<Longrightarrow> typed es" "CSI_m s = Inr es \<Longrightarrow> typed es"
  unfolding CSI_hl_def CSI_m_def Let_def bindR_eq_Inr
  by (auto simp: hl_effects_typed sgr_loop_typed)

lemma handlers_typed: "(c, h) \<in> set CSI_handlers \<Longrightarrow> h s = Inr es \<Longrightarrow> typed es"
  unfolding CSI_handlers_def by (auto dest: csi_typed)

lemma SSCSISubmit_typed: "SSCSISubmit s = Inr es \<Longrightarrow> typed es"
  by (auto simp: SSCSISubmit_def dest: map_of_SomeD handlers_typed split: if_splits option.splits)

text \<open>The handlers that can leave \<open>int\<close>, and exactly when.\<close>

lemma sint_u32_min: "\<not> in_int (- sint (w :: u32)) \<longleftrightarrow> w = 0x80000000"
proof -
  have "sint w = - 2147483648 \<longleftrightarrow> w = 0x80000000"
    using signed_word_eqI [of w "0x80000000"] by auto
  then show ?thesis
    using in_int_sint [of w] by (auto simp: in_int_def)
qed

lemma parse_int_no_minus:
  assumes "CHR ''-'' \<notin> set s" and "0 \<le> v"
  shows "0 \<le> parse_int s v"
proof -
  from assms(1) have "\<not> (s \<noteq> [] \<and> hd s = CHR ''-'')"
    using list.set_sel(1) by force
  with assms(2) show ?thesis
    by (auto simp: parse_int_def from_chars_int_def Let_def)
qed

lemma csi_no_fault [simp]:
  "CSI_A s \<noteq> Inl e" "CSI_B s \<noteq> Inl e" "CSI_C s \<noteq> Inl e" "CSI_D s \<noteq> Inl e"
  "CSI_E s \<noteq> Inl e" "CSI_G s \<noteq> Inl e" "CSI_H s \<noteq> Inl e" "CSI_a s \<noteq> Inl e"
  "CSI_e s \<noteq> Inl e" "CSI_f s \<noteq> Inl e" "CSI_I s \<noteq> Inl e" "CSI_J s \<noteq> Inl e"
  "CSI_K s \<noteq> Inl e" "CSI_L s \<noteq> Inl e" "CSI_M s \<noteq> Inl e" "CSI_P s \<noteq> Inl e"
  "CSI_S s \<noteq> Inl e" "CSI_X s \<noteq> Inl e" "CSI_b s \<noteq> Inl e" "CSI_At s \<noteq> Inl e"
  "CSI_g s \<noteq> Inl e" "CSI_c s \<noteq> Inl e" "CSI_n s \<noteq> Inl e" "CSI_m s \<noteq> Inl e"
  "CSI_q s \<noteq> Inl e" "CSI_r s \<noteq> Inl e" "CSI_t s \<noteq> Inl e"
  unfolding cursor_defs edit_defs report_defs Let_def by (auto split: prod.split option.split)

lemma csi_neg_fault:
  "CSI_F s = Inl e \<longleftrightarrow> e = Signed_Overflow \<and> parse_u32 s 1 = 0x80000000"
  "CSI_T s = Inl e \<longleftrightarrow> e = Signed_Overflow \<and> parse_u32 s 1 = 0x80000000"
  "CSI_Z s = Inl e \<longleftrightarrow> e = Signed_Overflow \<and> parse_u32 s 1 = 0x80000000"
  unfolding CSI_F_def CSI_T_def CSI_Z_def Let_def bindR_eq_Inl mk_int_def
  by (auto simp: sint_u32_min [symmetric])

lemma csi_other_fault:
  "CHR ''-'' \<notin> set s \<Longrightarrow> CSI_d s \<noteq> Inl e"
  "CHR ''-'' \<notin> set s \<Longrightarrow> CSI_Accent s \<noteq> Inl e"
  "s \<noteq> [] \<Longrightarrow> CSI_hl s \<noteq> Inl e"
  using parse_int_no_minus [of s 1] in_int_parse_int [of 1 s]
  unfolding CSI_d_def CSI_Accent_def CSI_hl_def Let_def bindR_eq_Inl mk_int_def in_int_def
  by auto

lemma handlers_fault_all:
  "list_all (\<lambda>(c, h). \<forall>s e. s \<noteq> [] \<longrightarrow> CHR ''-'' \<notin> set s \<longrightarrow>
     (h s = Inl e \<longleftrightarrow> e = Signed_Overflow \<and> c \<in> set ''FTZ'' \<and> parse_u32 s 1 = 0x80000000))
   CSI_handlers"
  by (simp add: CSI_handlers_def csi_neg_fault csi_other_fault)

lemma handlers_fault:
  "(c, h) \<in> set CSI_handlers \<Longrightarrow> s \<noteq> [] \<Longrightarrow> CHR ''-'' \<notin> set s \<Longrightarrow>
    h s = Inl e \<longleftrightarrow> e = Signed_Overflow \<and> c \<in> set ''FTZ'' \<and> parse_u32 s 1 = 0x80000000"
  using handlers_fault_all unfolding list_all_iff by fast

lemma map_of_handlers_FTZ: "c \<in> set ''FTZ'' \<Longrightarrow> map_of CSI_handlers c \<noteq> None"
  by (auto simp: CSI_handlers_def)

lemma SSCSISubmit_fault:
  assumes "CHR ''-'' \<notin> set s"
  shows "SSCSISubmit s = Inl e \<longleftrightarrow>
    e = Signed_Overflow \<and> s \<noteq> [] \<and> last s \<in> set ''FTZ'' \<and> parse_u32 s 1 = 0x80000000"
proof (cases "s = []")
  case True
  then show ?thesis by (simp add: SSCSISubmit_def)
next
  case False
  show ?thesis
  proof (cases "map_of CSI_handlers (last s)")
    case None
    then have "last s \<notin> set ''FTZ''" using map_of_handlers_FTZ by blast
    with None False show ?thesis by (simp add: SSCSISubmit_def)
  next
    case (Some h)
    from map_of_SomeD [OF Some] handlers_fault [of "last s" h s e] False assms
    show ?thesis by (simp add: SSCSISubmit_def Some)
  qed
qed

end
