(* ===== verification/Utf8Scan.thy ===== *)
theory Utf8Scan
  imports Prelude
begin

unbundle bit_operations_syntax

text \<open>
  \<open>ScanUTF8ForValidSequenceLength\<close> of \<open>Source/Utility/source/Encodings.cpp\<close>, which the terminal
  parser uses to decide how much of its pending text can be handed out: the scanner as the code
  has it, a declarative notion of well-formed text, and the proof that the scanner finds the
  longest well-formed prefix.
\<close>

text \<open>
  The loop, with its three counters \<open>utf8_expected\<close>, \<open>utf8_pending\<close> and \<open>length\<close>; a \<open>break\<close>
  returns the length accumulated so far.
\<close>

fun scan_utf8 :: "nat \<Rightarrow> nat \<Rightarrow> nat \<Rightarrow> bytes \<Rightarrow> nat" where
  "scan_utf8 expected pending len [] = len"
| "scan_utf8 expected pending len (b # bs) =
     (let c = byte_val b in
      if c > 0x7f then
        if expected \<noteq> 0 then
          if c AND 0xC0 = 0x80 then
            if expected - 1 = 0 then scan_utf8 0 0 (len + (pending + 1) + 1) bs
            else scan_utf8 (expected - 1) (pending + 1) len bs
          else len
        else if c AND 0xe0 = 0xc0 then scan_utf8 1 pending len bs
        else if c AND 0xf0 = 0xe0 then scan_utf8 2 pending len bs
        else if c AND 0xf8 = 0xf0 then scan_utf8 3 pending len bs
        else len
      else if expected \<noteq> 0 then len
      else scan_utf8 expected pending (len + 1) bs)"

definition ScanUTF8ForValidSequenceLength :: "bytes \<Rightarrow> nat" where
  "ScanUTF8ForValidSequenceLength s = (if s = [] then 0 else scan_utf8 0 0 0 s)"

section \<open>Well-formed text\<close>

text \<open>
  The number of bytes of the sequence a lead byte announces (0 for a byte that leads none), and
  texts that are concatenations of complete sequences.
\<close>

definition seq_len :: "byte \<Rightarrow> nat" where
  "seq_len b = (let c = byte_val b in
     if c \<le> 0x7f then 1
     else if c AND 0xe0 = 0xc0 then 2
     else if c AND 0xf0 = 0xe0 then 3
     else if c AND 0xf8 = 0xf0 then 4
     else 0)"

definition is_cont :: "byte \<Rightarrow> bool" where
  "is_cont b \<longleftrightarrow> byte_val b > 0x7f \<and> byte_val b AND 0xC0 = 0x80"

function utf8_text :: "bytes \<Rightarrow> bool" where
  "utf8_text [] = True"
| "utf8_text (b # bs) =
     (seq_len b > 0 \<and> seq_len b \<le> Suc (length bs)
      \<and> list_all is_cont (take (seq_len b - 1) bs) \<and> utf8_text (drop (seq_len b - 1) bs))"
  by pat_completeness auto
termination
  by (relation "measure length") auto

declare utf8_text.simps(2) [simp del]

lemma utf8_text_ascii: "byte_val b \<le> 127 \<Longrightarrow> utf8_text (b # bs) = utf8_text bs"
  by (simp add: utf8_text.simps seq_len_def)

text \<open>
  The scanner in the middle of a sequence: with \<open>e\<close> continuation bytes missing it either sees all
  of them and counts the whole sequence, or stops with what it had.
\<close>

lemma scan_utf8_sequence:
  "0 < e \<Longrightarrow> scan_utf8 e p len bs =
     (if e \<le> length bs \<and> list_all is_cont (take e bs)
      then scan_utf8 0 0 (len + p + e + 1) (drop e bs) else len)"
proof (induction bs arbitrary: e p)
  case Nil
  then show ?case by simp
next
  case (Cons b bs)
  show ?case
  proof (cases "is_cont b")
    case True
    show ?thesis
    proof (cases "e = 1")
      case True
      with \<open>is_cont b\<close> show ?thesis by (simp add: is_cont_def Let_def)
    next
      case False
      with Cons.prems obtain k where k: "e = Suc k" "0 < k"
        by (cases e) auto
      have "scan_utf8 e p len (b # bs) = scan_utf8 k (p + 1) len bs"
        using k True by (simp add: is_cont_def Let_def)
      then show ?thesis
        using k True Cons.IH [of k "p + 1"] by simp
    qed
  next
    case False
    with Cons.prems have "scan_utf8 e p len (b # bs) = len"
      by (auto simp: is_cont_def Let_def)
    with False Cons.prems show ?thesis by (cases e) auto
  qed
qed

lemma scan_utf8_Cons:
  "scan_utf8 0 0 len (b # bs) =
     (if seq_len b > 0 \<and> seq_len b \<le> Suc (length bs) \<and> list_all is_cont (take (seq_len b - 1) bs)
      then scan_utf8 0 0 (len + seq_len b) (drop (seq_len b - 1) bs) else len)"
proof -
  have seqs: "scan_utf8 e 0 len bs =
      (if e \<le> length bs \<and> list_all is_cont (take e bs)
       then scan_utf8 0 0 (len + (e + 1)) (drop e bs) else len)" if "0 < e" for e
    using scan_utf8_sequence [OF that, of 0 len bs] by simp
  show ?thesis
    using seqs [of 1] seqs [of 2] seqs [of 3]
    by (simp add: seq_len_def Let_def)
qed

lemma scan_utf8_len: "scan_utf8 0 0 len s = len + scan_utf8 0 0 0 s"
proof (induction s arbitrary: len rule: utf8_text.induct)
  case 1
  show ?case by simp
next
  case (2 b bs)
  show ?case
    using "2.IH" [of "len + seq_len b"] "2.IH" [of "seq_len b"]
    by (simp add: scan_utf8_Cons del: scan_utf8.simps(2))
qed

lemma scan_utf8_longest:
  "scan_utf8 0 0 0 s \<le> length s \<and> utf8_text (take (scan_utf8 0 0 0 s) s)
   \<and> (\<forall>n. scan_utf8 0 0 0 s < n \<and> n \<le> length s \<longrightarrow> \<not> utf8_text (take n s))"
proof (induction s rule: utf8_text.induct)
  case 1
  show ?case by auto
next
  case (2 b bs)
  let ?k = "seq_len b - 1"
  show ?case
  proof (cases "seq_len b > 0 \<and> seq_len b \<le> Suc (length bs) \<and> list_all is_cont (take ?k bs)")
    case True
    then obtain k where k: "seq_len b = Suc k" "k \<le> length bs" "list_all is_cont (take k bs)"
      by (cases "seq_len b") auto
    let ?m = "scan_utf8 0 0 0 (drop k bs)"
    have scan: "scan_utf8 0 0 0 (b # bs) = Suc k + ?m"
      using k scan_utf8_len [of "Suc k" "drop k bs"]
      by (simp add: scan_utf8_Cons del: scan_utf8.simps(2))
    have m: "?m \<le> length (drop k bs)" "utf8_text (take ?m (drop k bs))"
      "\<And>n. ?m < n \<Longrightarrow> n \<le> length (drop k bs) \<Longrightarrow> \<not> utf8_text (take n (drop k bs))"
      using "2.IH" k by auto
    have split: "utf8_text (take (Suc (k + n)) (b # bs)) = utf8_text (take n (drop k bs))" for n
      using k by (simp add: utf8_text.simps take_drop add.commute min_def)
    have "\<not> utf8_text (take n (b # bs))" if "Suc k + ?m < n" "n \<le> length (b # bs)" for n
      using split [of "n - Suc k"] m(3) [of "n - Suc k"] that k by simp
    with m split [of ?m] k show ?thesis unfolding scan by simp
  next
    case False
    then have scan: "scan_utf8 0 0 0 (b # bs) = 0"
      by (simp only: scan_utf8_Cons if_False)
    have "\<not> utf8_text (take n (b # bs))" if "0 < n" for n
    proof
      assume a: "utf8_text (take n (b # bs))"
      from that obtain j where "n = Suc j" by (cases n) auto
      with a have "seq_len b > 0" "seq_len b \<le> Suc (length bs)" "?k \<le> j"
        and "list_all is_cont (take ?k (take j bs))"
        by (auto simp: utf8_text.simps)
      with False show False by (simp add: min_def)
    qed
    then show ?thesis unfolding scan by auto
  qed
qed

lemma Scan_le_length: "ScanUTF8ForValidSequenceLength s \<le> length s"
  using scan_utf8_longest [of s] by (simp add: ScanUTF8ForValidSequenceLength_def)

end
