(* ===== verification/TermParser.thy ===== *)
theory TermParser
  imports ParserCSI Utf8Scan
begin

text \<open>
  The byte-level state machine of the terminal parser (\<open>ParserImpl\<close> in
  \<open>Source/Term/source/ParserImpl.cpp\<close>): its state, the entry, exit and consumption routines of
  its six sub-states, the loop of \<open>EatByte\<close> and \<open>Parse\<close>.
\<close>

section \<open>State\<close>

datatype EscState = ES_Text | ES_Control | ES_Esc | ES_OSC | ES_CSI | ES_DCS

record ParserImpl =
  m_SubState :: EscState
  m_Hash :: bool                     \<comment> \<open>\<open>m_EscState.hash\<close>\<close>
  m_Stock :: bytes                   \<comment> \<open>the first \<open>UTF8StockLen\<close> bytes of \<open>UTF8CharsStock\<close>\<close>
  m_OSCBuffer :: bytes
  m_GotEsc :: bool
  m_CSIBuffer :: bytes
  m_DCSBuffer :: bytes
  m_Output :: "Command list"
  m_HasErrorLog :: bool              \<comment> \<open>whether \<open>m_ErrorLog\<close> holds a callback\<close>
  m_ErrorLog :: "Missed list"        \<comment> \<open>the calls it has received\<close>

definition UTF8CharsStockSize :: nat where "UTF8CharsStockSize = 16384"

text \<open>The constructor: the state starts as \<open>Text\<close>, so \<open>Reset\<close> leaves it alone.\<close>

definition ParserImpl_init :: "bool \<Rightarrow> ParserImpl" where
  "ParserImpl_init log = \<lparr>m_SubState = ES_Text, m_Hash = False, m_Stock = [], m_OSCBuffer = [],
     m_GotEsc = False, m_CSIBuffer = [], m_DCSBuffer = [], m_Output = [],
     m_HasErrorLog = log, m_ErrorLog = []\<rparr>"

section \<open>Effects on the state\<close>

definition emplace_back :: "Command \<Rightarrow> ParserImpl \<Rightarrow> ParserImpl" where
  "emplace_back c p = p\<lparr>m_Output := m_Output p @ [c]\<rparr>"

definition LogMissed :: "Missed \<Rightarrow> ParserImpl \<Rightarrow> ParserImpl" where
  "LogMissed m p = (if m_HasErrorLog p then p\<lparr>m_ErrorLog := m_ErrorLog p @ [m]\<rparr> else p)"

fun apply_effect :: "ParserImpl \<Rightarrow> effect \<Rightarrow> ParserImpl" where
  "apply_effect p (Emit c) = emplace_back c p"
| "apply_effect p (Complain m) = LogMissed m p"

definition LogMissedEscChar :: "byte \<Rightarrow> ParserImpl \<Rightarrow> ParserImpl" where
  "LogMissedEscChar c p = LogMissed (MissedEsc c) p"

definition LogMissedOSCRequest :: "u32 \<Rightarrow> bytes \<Rightarrow> ParserImpl \<Rightarrow> ParserImpl" where
  "LogMissedOSCRequest ps pt p = LogMissed (MissedOSC ps pt) p"

section \<open>Text\<close>

definition ConsumeNextUTF8TextChar :: "byte \<Rightarrow> ParserImpl \<Rightarrow> ParserImpl" where
  "ConsumeNextUTF8TextChar b p =
     (if length (m_Stock p) < UTF8CharsStockSize then p\<lparr>m_Stock := m_Stock p @ [b]\<rparr> else p)"

definition text_cmd :: "bytes \<Rightarrow> Command" where
  "text_cmd s = mk_cmd T_text (P_UTF8Text s)"

definition FlushAllText :: "ParserImpl \<Rightarrow> ParserImpl" where
  "FlushAllText p =
     (if length (m_Stock p) = 0 then p
      else (emplace_back (text_cmd (m_Stock p)) p)\<lparr>m_Stock := []\<rparr>)"

definition FlushCompleteText :: "ParserImpl \<Rightarrow> ParserImpl res" where
  "FlushCompleteText p =
     (if length (m_Stock p) = 0 then Inr p
      else let valid_length = ScanUTF8ForValidSequenceLength (m_Stock p) in
        if valid_length = 0 then Inr p
        else bindR (assertR (valid_length \<le> length (m_Stock p))) (\<lambda>_.
          Inr (emplace_back (text_cmd (take valid_length (m_Stock p)))
                (p\<lparr>m_Stock := drop valid_length (m_Stock p)\<rparr>))))"

section \<open>Control characters and escapes\<close>

definition LF :: "ParserImpl \<Rightarrow> ParserImpl" where
  "LF = emplace_back (mk_cmd T_line_feed P_None)"
definition HT :: "ParserImpl \<Rightarrow> ParserImpl" where
  "HT = emplace_back (mk_cmd T_horizontal_tab (P_signed 1))"
definition CR :: "ParserImpl \<Rightarrow> ParserImpl" where
  "CR = emplace_back (mk_cmd T_carriage_return P_None)"
definition BS :: "ParserImpl \<Rightarrow> ParserImpl" where
  "BS = emplace_back (mk_cmd T_back_space P_None)"
definition BEL :: "ParserImpl \<Rightarrow> ParserImpl" where
  "BEL = emplace_back (mk_cmd T_bell P_None)"
definition RI :: "ParserImpl \<Rightarrow> ParserImpl" where
  "RI = emplace_back (mk_cmd T_reverse_index P_None)"
definition HTS :: "ParserImpl \<Rightarrow> ParserImpl" where
  "HTS = emplace_back (mk_cmd T_set_tab P_None)"
definition SI :: "ParserImpl \<Rightarrow> ParserImpl" where
  "SI = emplace_back (mk_cmd T_select_character_set (P_unsigned 0))"
definition SO :: "ParserImpl \<Rightarrow> ParserImpl" where
  "SO = emplace_back (mk_cmd T_select_character_set (P_unsigned 1))"
definition DECSC :: "ParserImpl \<Rightarrow> ParserImpl" where
  "DECSC = emplace_back (mk_cmd T_save_state P_None)"
definition DECRC :: "ParserImpl \<Rightarrow> ParserImpl" where
  "DECRC = emplace_back (mk_cmd T_restore_state P_None)"
definition DECALN :: "ParserImpl \<Rightarrow> ParserImpl" where
  "DECALN = emplace_back (mk_cmd T_screen_alignment_test P_None)"

section \<open>Leaving and entering sub-states\<close>

definition SSOSCSubmit :: "ParserImpl \<Rightarrow> ParserImpl" where
  "SSOSCSubmit p =
     (let s = m_OSCBuffer p in
      if CHR '';'' \<notin> set s then p
      else let prefix = takeWhile (\<lambda>c. c \<noteq> CHR '';'') s;
               pt = tl (dropWhile (\<lambda>c. c \<noteq> CHR '';'') s) in
        case from_chars_u32 prefix (- 1) of (ec, ps, rest) \<Rightarrow>
          if ec \<noteq> errc_ok then p
          else if ps = 0 then emplace_back (mk_cmd T_change_title
                 (P_Title \<lparr>title_kind = Title_IconAndWindow, title_text = pt\<rparr>)) p
          else if ps = 1 then emplace_back (mk_cmd T_change_title
                 (P_Title \<lparr>title_kind = Title_Icon, title_text = pt\<rparr>)) p
          else if ps = 2 then emplace_back (mk_cmd T_change_title
                 (P_Title \<lparr>title_kind = Title_Window, title_text = pt\<rparr>)) p
          else LogMissedOSCRequest ps pt p)"

definition DCS_Target :: "byte \<Rightarrow> nat option" where
  "DCS_Target c = (if c = CHR ''('' then Some 0 else if c = CHR '')'' then Some 1
     else if c = CHR ''*'' then Some 2 else if c = CHR ''+'' then Some 3 else None)"

definition DCS_Set :: "bytes \<Rightarrow> CharSet option" where
  "DCS_Set s = (if s = ''0'' then Some DECSpecialGraphics
     else if s = ''1'' then Some AlternateCharacterROMStandardCharacters
     else if s = ''2'' then Some AlternateCharacterROMSpecialGraphics
     else if s = ''A'' then Some UK
     else if s = ''B'' then Some USASCII else None)"

definition SSDCSExit :: "ParserImpl \<Rightarrow> ParserImpl" where
  "SSDCSExit p = (let buffer = m_DCSBuffer p in
     if length buffer < 2 then p
     else case DCS_Target (hd buffer) of None \<Rightarrow> p
        | Some tgt \<Rightarrow> (case DCS_Set (tl buffer) of None \<Rightarrow> p
            | Some cset \<Rightarrow> emplace_back (mk_cmd T_designate_character_set
                (P_CharacterSetDesignation \<lparr>csd_target = tgt, csd_set = cset\<rparr>)) p))"

definition SSCSIExit :: "ParserImpl \<Rightarrow> ParserImpl res" where
  "SSCSIExit p = bindR (SSCSISubmit (m_CSIBuffer p)) (\<lambda>es. Inr (foldl apply_effect p es))"

fun ss_exit :: "EscState \<Rightarrow> ParserImpl \<Rightarrow> ParserImpl res" where
  "ss_exit ES_Text p = Inr (FlushAllText p)"
| "ss_exit ES_Control p = Inr p"
| "ss_exit ES_Esc p = Inr p"
| "ss_exit ES_OSC p = Inr (SSOSCSubmit p)"
| "ss_exit ES_CSI p = SSCSIExit p"
| "ss_exit ES_DCS p = Inr (SSDCSExit p)"

fun ss_enter :: "EscState \<Rightarrow> ParserImpl \<Rightarrow> ParserImpl" where
  "ss_enter ES_Text p = p\<lparr>m_Stock := []\<rparr>"
| "ss_enter ES_Control p = p"
| "ss_enter ES_Esc p = p\<lparr>m_Hash := False\<rparr>"
| "ss_enter ES_OSC p = p\<lparr>m_OSCBuffer := [], m_GotEsc := False\<rparr>"
| "ss_enter ES_CSI p = p\<lparr>m_CSIBuffer := []\<rparr>"
| "ss_enter ES_DCS p = p\<lparr>m_DCSBuffer := []\<rparr>"

definition SwitchTo :: "EscState \<Rightarrow> ParserImpl \<Rightarrow> ParserImpl res" where
  "SwitchTo st p =
     (if m_SubState p \<noteq> st
      then bindR (ss_exit (m_SubState p) p) (\<lambda>p'. Inr (ss_enter st (p'\<lparr>m_SubState := st\<rparr>)))
      else Inr p)"

definition RIS :: "ParserImpl \<Rightarrow> ParserImpl res" where
  "RIS p = bindR (SwitchTo ES_Text p) (\<lambda>p. Inr (emplace_back (mk_cmd T_reset P_None) p))"

section \<open>Consumption\<close>

text \<open>Each routine returns whether it consumed the byte, and the state.\<close>

definition SSTextConsume :: "byte \<Rightarrow> ParserImpl \<Rightarrow> (bool \<times> ParserImpl) res" where
  "SSTextConsume b p =
     (if byte_val b < 32 then bindR (SwitchTo ES_Control p) (\<lambda>p. Inr (False, p))
      else Inr (True, ConsumeNextUTF8TextChar b p))"

definition SSEscConsume :: "byte \<Rightarrow> ParserImpl \<Rightarrow> (bool \<times> ParserImpl) res" where
  "SSEscConsume c p =
     (if c = CHR ''#'' then Inr (True, p\<lparr>m_Hash := True\<rparr>)
      else bindR (SwitchTo ES_Text p) (\<lambda>p.
        if c = CHR ''['' then bindR (SwitchTo ES_CSI p) (\<lambda>p. Inr (True, p))
        else if c = CHR '']'' then bindR (SwitchTo ES_OSC p) (\<lambda>p. Inr (True, p))
        else if c = CHR ''>'' \<or> c = CHR ''='' then Inr (True, p)
        else if c = CHR ''7'' then Inr (True, DECSC p)
        else if c = CHR ''8'' then Inr (True, if m_Hash p then DECALN p else DECRC p)
        else if c = CHR ''D'' then Inr (True, LF p)
        else if c = CHR ''E'' then Inr (True, LF (CR p))
        else if c = CHR ''H'' then Inr (True, HTS p)
        else if c = CHR ''M'' then Inr (True, RI p)
        else if c = CHR ''c'' then bindR (RIS p) (\<lambda>p. Inr (True, p))
        else if c = CHR ''('' \<or> c = CHR '')'' \<or> c = CHR ''*'' \<or> c = CHR ''+''
        then bindR (SwitchTo ES_DCS p) (\<lambda>p. Inr (False, p))
        else Inr (True, LogMissedEscChar c p)))"

definition SSControlConsume :: "byte \<Rightarrow> ParserImpl \<Rightarrow> (bool \<times> ParserImpl) res" where
  "SSControlConsume b p =
     (let c = byte_val b in
      if c < 32 then
        if c \<le> 6 then bindR (SwitchTo ES_Text p) (\<lambda>p. Inr (True, p))
        else if c = 7 then bindR (SwitchTo ES_Text p) (\<lambda>p. Inr (True, BEL p))
        else if c = 8 then bindR (SwitchTo ES_Text p) (\<lambda>p. Inr (True, BS p))
        else if c = 9 then bindR (SwitchTo ES_Text p) (\<lambda>p. Inr (True, HT p))
        else if c \<le> 12 then bindR (SwitchTo ES_Text p) (\<lambda>p. Inr (True, LF p))
        else if c = 13 then bindR (SwitchTo ES_Text p) (\<lambda>p. Inr (True, CR p))
        else if c = 14 then bindR (SwitchTo ES_Text p) (\<lambda>p. Inr (True, SO p))
        else if c = 15 then bindR (SwitchTo ES_Text p) (\<lambda>p. Inr (True, SI p))
        else if c \<le> 26 then bindR (SwitchTo ES_Text p) (\<lambda>p. Inr (True, p))
        else if c = 27 then bindR (SwitchTo ES_Esc p) (\<lambda>p. Inr (True, p))
        else bindR (SwitchTo ES_Text p) (\<lambda>p. Inr (True, p))
      else bindR (SwitchTo ES_Text p) (\<lambda>p. Inr (False, p)))"

definition SSOSCDiscard :: "ParserImpl \<Rightarrow> ParserImpl" where
  "SSOSCDiscard p = p\<lparr>m_OSCBuffer := []\<rparr>"

definition SSOSCConsume :: "byte \<Rightarrow> ParserImpl \<Rightarrow> (bool \<times> ParserImpl) res" where
  "SSOSCConsume b p =
     (if m_GotEsc p then
        bindR (SwitchTo ES_Text (if b \<noteq> CHR 92 then SSOSCDiscard p else p)) (\<lambda>p. Inr (True, p))
      else if byte_val b \<ge> 32 then Inr (True, p\<lparr>m_OSCBuffer := m_OSCBuffer p @ [b]\<rparr>)
      else if byte_val b = 0x07 then bindR (SwitchTo ES_Text p) (\<lambda>p. Inr (True, p))
      else if byte_val b = 0x1B then Inr (True, p\<lparr>m_GotEsc := True\<rparr>)
      else bindR (SwitchTo ES_Text (SSOSCDiscard p)) (\<lambda>p. Inr (True, p)))"

definition SSOSCConsumeControl :: "byte \<Rightarrow> ParserImpl \<Rightarrow> (bool \<times> ParserImpl) res" where
  "SSOSCConsumeControl b p =
     (let c = byte_val b in
      if c = 8 then Inr (True, BS p)
      else if c = 10 \<or> c = 11 \<or> c = 12 then Inr (True, LF p)
      else if c = 13 then Inr (True, CR p)
      else Inr (True, p))"

definition CSI_ValidTerminal :: "byte \<Rightarrow> bool" where
  "CSI_ValidTerminal c \<longleftrightarrow> c \<in> set ''@ABCDEFGHIJKLMPSTXZ^`abcdefghilmnpqrstuvwxyz{|}~''"

definition CSI_ValidContents :: "byte \<Rightarrow> bool" where
  "CSI_ValidContents c \<longleftrightarrow> c \<in> set (''01234567890; ?>=!'' @ [CHR 34, CHR 39] @ ''$#*'')"

definition SSCSIConsume :: "byte \<Rightarrow> ParserImpl \<Rightarrow> (bool \<times> ParserImpl) res" where
  "SSCSIConsume b p =
     (if byte_val b < 32 then SSOSCConsumeControl b p
      else if CSI_ValidContents b then Inr (True, p\<lparr>m_CSIBuffer := m_CSIBuffer p @ [b]\<rparr>)
      else if CSI_ValidTerminal b then
        bindR (SwitchTo ES_Text (p\<lparr>m_CSIBuffer := m_CSIBuffer p @ [b]\<rparr>)) (\<lambda>p. Inr (True, p))
      else bindR (SwitchTo ES_Text (p\<lparr>m_CSIBuffer := []\<rparr>)) (\<lambda>p. Inr (False, p)))"

definition DCS_ValidTerminal :: "byte \<Rightarrow> bool" where
  "DCS_ValidTerminal c \<longleftrightarrow> c \<in> set ''?=<>012345679ABCEHKQRfYZ''"

definition DCS_ValidContents :: "byte \<Rightarrow> bool" where
  "DCS_ValidContents c \<longleftrightarrow> c \<in> set (''()*+'' @ [CHR 34] @ ''%`&'')"

definition SSDCSConsume :: "byte \<Rightarrow> ParserImpl \<Rightarrow> (bool \<times> ParserImpl) res" where
  "SSDCSConsume b p =
     (if DCS_ValidContents b then Inr (True, p\<lparr>m_DCSBuffer := m_DCSBuffer p @ [b]\<rparr>)
      else if DCS_ValidTerminal b then
        bindR (SwitchTo ES_Text (p\<lparr>m_DCSBuffer := m_DCSBuffer p @ [b]\<rparr>)) (\<lambda>p. Inr (True, p))
      else bindR (SwitchTo ES_Text (p\<lparr>m_DCSBuffer := []\<rparr>)) (\<lambda>p. Inr (False, p)))"

fun ss_consume :: "EscState \<Rightarrow> byte \<Rightarrow> ParserImpl \<Rightarrow> (bool \<times> ParserImpl) res" where
  "ss_consume ES_Text b p = SSTextConsume b p"
| "ss_consume ES_Control b p = SSControlConsume b p"
| "ss_consume ES_Esc b p = SSEscConsume b p"
| "ss_consume ES_OSC b p = SSOSCConsume b p"
| "ss_consume ES_CSI b p = SSCSIConsume b p"
| "ss_consume ES_DCS b p = SSDCSConsume b p"

text \<open>
  The \<open>while( true )\<close> of \<open>EatByte\<close>, with fuel, and the assertion that a sub-state that refuses a
  byte has switched. Three rounds are always enough (\<open>EatByte_rounds\<close> below).
\<close>

fun EatByte_loop :: "nat \<Rightarrow> byte \<Rightarrow> ParserImpl \<Rightarrow> ParserImpl res" where
  "EatByte_loop 0 b p = Inl Nonterminating"
| "EatByte_loop (Suc fuel) b p =
     bindR (ss_consume (m_SubState p) b p) (\<lambda>(consumed, p').
       if consumed then Inr p'
       else bindR (assertR (m_SubState p \<noteq> m_SubState p')) (\<lambda>_. EatByte_loop fuel b p'))"

definition EatByte :: "ParserImpl \<Rightarrow> byte \<Rightarrow> ParserImpl res" where
  "EatByte p b = EatByte_loop 3 b p"

definition Parse :: "bytes \<Rightarrow> ParserImpl \<Rightarrow> (Command list \<times> ParserImpl) res" where
  "Parse bs p =
     bindR (foldR EatByte p bs) (\<lambda>p.
     bindR (FlushCompleteText p) (\<lambda>p. Inr (m_Output p, p\<lparr>m_Output := []\<rparr>)))"

definition GetEscState :: "ParserImpl \<Rightarrow> EscState" where
  "GetEscState p = m_SubState p"

end
