(* ===== verification/ParserProps.thy ===== *)
theory ParserProps
  imports TermParser
begin

text \<open>
  Facts about the terminal parser: a simulation between a run that flushes complete text now and
  then and one that does not, the state invariant, the bound on the rounds of \<open>EatByte\<close> and the
  exact condition under which a byte makes it fault.
\<close>

section \<open>Sub-state switches\<close>

lemma emplace_back_sel [simp]:
  "m_SubState (emplace_back c p) = m_SubState p" "m_Stock (emplace_back c p) = m_Stock p"
  "m_Hash (emplace_back c p) = m_Hash p" "m_OSCBuffer (emplace_back c p) = m_OSCBuffer p"
  "m_GotEsc (emplace_back c p) = m_GotEsc p" "m_CSIBuffer (emplace_back c p) = m_CSIBuffer p"
  "m_DCSBuffer (emplace_back c p) = m_DCSBuffer p"
  "m_Output (emplace_back c p) = m_Output p @ [c]"
  "m_HasErrorLog (emplace_back c p) = m_HasErrorLog p"
  "m_ErrorLog (emplace_back c p) = m_ErrorLog p"
  by (simp_all add: emplace_back_def)

lemma LogMissed_sel [simp]:
  "m_SubState (LogMissed m p) = m_SubState p" "m_Stock (LogMissed m p) = m_Stock p"
  "m_Hash (LogMissed m p) = m_Hash p" "m_OSCBuffer (LogMissed m p) = m_OSCBuffer p"
  "m_GotEsc (LogMissed m p) = m_GotEsc p" "m_CSIBuffer (LogMissed m p) = m_CSIBuffer p"
  "m_DCSBuffer (LogMissed m p) = m_DCSBuffer p" "m_Output (LogMissed m p) = m_Output p"
  "m_HasErrorLog (LogMissed m p) = m_HasErrorLog p"
  "m_ErrorLog (LogMissed m p) = (if m_HasErrorLog p then m_ErrorLog p @ [m] else m_ErrorLog p)"
  by (simp_all add: LogMissed_def)

lemma apply_effect_sel [simp]:
  "m_SubState (apply_effect p e) = m_SubState p" "m_Stock (apply_effect p e) = m_Stock p"
  "m_Hash (apply_effect p e) = m_Hash p" "m_OSCBuffer (apply_effect p e) = m_OSCBuffer p"
  "m_GotEsc (apply_effect p e) = m_GotEsc p" "m_CSIBuffer (apply_effect p e) = m_CSIBuffer p"
  "m_DCSBuffer (apply_effect p e) = m_DCSBuffer p"
  "m_HasErrorLog (apply_effect p e) = m_HasErrorLog p"
  by (cases e; simp)+

lemma apply_effects_sel [simp]:
  "m_SubState (foldl apply_effect p es) = m_SubState p"
  "m_Stock (foldl apply_effect p es) = m_Stock p"
  "m_Hash (foldl apply_effect p es) = m_Hash p"
  "m_OSCBuffer (foldl apply_effect p es) = m_OSCBuffer p"
  "m_GotEsc (foldl apply_effect p es) = m_GotEsc p"
  "m_CSIBuffer (foldl apply_effect p es) = m_CSIBuffer p"
  "m_DCSBuffer (foldl apply_effect p es) = m_DCSBuffer p"
  "m_HasErrorLog (foldl apply_effect p es) = m_HasErrorLog p"
  by (induction es arbitrary: p) auto

lemmas control_defs = LF_def HT_def CR_def BS_def BEL_def RI_def HTS_def SI_def SO_def
  DECSC_def DECRC_def DECALN_def LogMissedEscChar_def LogMissedOSCRequest_def

text \<open>Two parser states that agree on everything but the text still pending and the output.\<close>

definition core :: "ParserImpl \<Rightarrow> EscState \<times> bool \<times> bytes \<times> bool \<times> bytes \<times> bytes \<times> bool \<times> Missed list" where
  "core p = (m_SubState p, m_Hash p, m_OSCBuffer p, m_GotEsc p, m_CSIBuffer p, m_DCSBuffer p,
     m_HasErrorLog p, m_ErrorLog p)"

text \<open>
  What has been delivered, with text commands taken apart into bytes: how text is cut into
  commands is not observable, the order of text and other commands is.
\<close>

datatype item = Ch byte | Cmd Command

definition items_of :: "Command \<Rightarrow> item list" where
  "items_of c = (case payload c of P_UTF8Text s \<Rightarrow> map Ch s | _ \<Rightarrow> [Cmd c])"

definition items :: "Command list \<Rightarrow> item list" where
  "items cs = concat (map items_of cs)"

lemma items_simps [simp]:
  "items [] = []" "items (c # cs) = items_of c @ items cs" "items (xs @ ys) = items xs @ items ys"
  by (simp_all add: items_def)

lemma items_of_text [simp]: "items_of (text_cmd s) = map Ch s"
  by (simp add: items_of_def text_cmd_def)

definition obs :: "ParserImpl \<Rightarrow> item list" where
  "obs p = items (m_Output p) @ map Ch (m_Stock p)"

text \<open>
  The simulation between a run that flushes complete text now and then (the left state) and one
  that has not: same core, and what the right state still holds in its stock beyond the left one is
  complete text the left run has already handed out. Pending text exists only in the \<open>Text\<close>
  state and has at most \<open>k\<close> bytes. The prefixes \<open>d\<close> and \<open>e\<close> are what earlier calls have
  handed out.
\<close>

definition sim :: "nat \<Rightarrow> Command list \<Rightarrow> ParserImpl \<Rightarrow> Command list \<Rightarrow> ParserImpl \<Rightarrow> bool" where
  "sim k d p e q \<longleftrightarrow> core p = core q
     \<and> (\<exists>x. utf8_text x \<and> m_Stock q = x @ m_Stock p
          \<and> items d @ items (m_Output p) = items e @ items (m_Output q) @ map Ch x)
     \<and> length (m_Stock q) \<le> k
     \<and> (m_SubState p \<noteq> ES_Text \<longrightarrow> m_Stock q = [])"

lemma sim_mono: "sim k d p e q \<Longrightarrow> k \<le> k' \<Longrightarrow> sim k' d p e q"
  by (auto simp: sim_def)

lemma rel_bind:
  assumes "rel_sum (=) R m m'" and "\<And>x y. R x y \<Longrightarrow> rel_sum (=) S (f x) (g y)"
  shows "rel_sum (=) S (bindR m f) (bindR m' g)"
  using assms by (cases m; cases m') auto

lemma sim_emit:
  assumes "sim 0 d p e q"
  shows "sim 0 d (emplace_back c p) e (emplace_back c q)"
  using assms by (auto simp: sim_def core_def obs_def)

lemma sim_log: "sim k d p e q \<Longrightarrow> sim k d (LogMissed m p) e (LogMissed m q)"
  by (auto simp: sim_def core_def obs_def)

lemma sim_effects:
  "sim 0 d p e q \<Longrightarrow> sim 0 d (foldl apply_effect p es) e (foldl apply_effect q es)"
proof (induction es arbitrary: p q)
  case Nil
  then show ?case by simp
next
  case (Cons x xs)
  have "sim 0 d (apply_effect p x) e (apply_effect q x)"
    using Cons.prems by (cases x) (auto intro: sim_emit sim_log)
  then show ?case using Cons.IH by simp
qed

lemma FlushAllText_sel [simp]:
  "m_SubState (FlushAllText p) = m_SubState p" "m_Stock (FlushAllText p) = []"
  "core (FlushAllText p) = core p" "items (m_Output (FlushAllText p)) = obs p"
  by (simp_all add: FlushAllText_def core_def obs_def)

lemma OSC_sim: "sim 0 d p e q \<Longrightarrow> sim 0 d (SSOSCSubmit p) e (SSOSCSubmit q)"
proof -
  assume s: "sim 0 d p e q"
  then have "m_OSCBuffer p = m_OSCBuffer q" by (simp add: sim_def core_def)
  with s show ?thesis
    by (auto simp: SSOSCSubmit_def Let_def LogMissedOSCRequest_def split: prod.splits
        intro: sim_emit sim_log)
qed

lemma DCS_sim: "sim 0 d p e q \<Longrightarrow> sim 0 d (SSDCSExit p) e (SSDCSExit q)"
proof -
  assume s: "sim 0 d p e q"
  then have "m_DCSBuffer p = m_DCSBuffer q" by (simp add: sim_def core_def)
  with s show ?thesis
    by (auto simp: SSDCSExit_def Let_def split: option.splits intro: sim_emit)
qed

lemma sim_zero: "sim k d p e q \<Longrightarrow> m_SubState p \<noteq> ES_Text \<Longrightarrow> sim 0 d p e q"
  by (auto simp: sim_def)

lemma sim_SubState: "sim k d p e q \<Longrightarrow> m_SubState q = m_SubState p"
  by (simp add: sim_def core_def)

lemma exit_sim:
  assumes s: "sim k d p e q"
  shows "rel_sum (=) (\<lambda>p' q'. sim 0 d p' e q')
    (ss_exit (m_SubState p) p) (ss_exit (m_SubState p) q)"
proof (cases "m_SubState p = ES_Text")
  case True
  with s show ?thesis by (auto simp: sim_def obs_def simp flip: append_assoc)
next
  case False
  from sim_zero [OF s this] have s0: "sim 0 d p e q" .
  then have "m_CSIBuffer p = m_CSIBuffer q" by (simp add: sim_def core_def)
  with s0 False show ?thesis
    by (cases "m_SubState p"; cases "SSCSISubmit (m_CSIBuffer q)")
      (auto intro: OSC_sim DCS_sim sim_effects simp: SSCSIExit_def)
qed

lemma enter_sim:
  "sim 0 d p e q \<Longrightarrow> sim 0 d (ss_enter st (p\<lparr>m_SubState := st\<rparr>)) e (ss_enter st (q\<lparr>m_SubState := st\<rparr>))"
  by (cases st) (auto simp: sim_def core_def obs_def)

lemma ss_enter_SubState [simp]: "m_SubState (ss_enter st p) = m_SubState p"
  by (cases st) auto

lemma SwitchTo_sim:
  assumes s: "sim k d p e q"
  shows "rel_sum (=) (\<lambda>p' q'. sim (if m_SubState p = st then k else 0) d p' e q')
    (SwitchTo st p) (SwitchTo st q)"
proof (cases "m_SubState p = st")
  case True
  with s sim_SubState [OF s] show ?thesis by (simp add: SwitchTo_def)
next
  case False
  then show ?thesis
    using sim_SubState [OF s]
    by (auto simp: SwitchTo_def intro!: rel_bind [OF exit_sim [OF s]] enter_sim)
qed

lemma SwitchTo_sim0:
  assumes "sim k d p e q" and "m_SubState p \<noteq> st \<or> k = 0"
  shows "rel_sum (=) (\<lambda>p' q'. sim 0 d p' e q') (SwitchTo st p) (SwitchTo st q)"
  using SwitchTo_sim [OF assms(1), of st] assms(2) by (auto split: if_splits)

text \<open>One round: what a sub-state does with a byte keeps the simulation.\<close>

definition post :: "nat \<Rightarrow> byte \<Rightarrow> nat" where
  "post k b = (if byte_val b < 32 then 0 else Suc k)"

definition consume_rel where
  "consume_rel k b d e = (\<lambda>(c, p') (c', q'). c = c' \<and>
     sim (if c then post k b else 0) d p' e q')"

lemma sim_post: "sim 0 d p e q \<Longrightarrow> sim (post k b) d p e q"
  by (rule sim_mono) auto

lemma Text_sim:
  assumes s: "sim k d p e q" "m_SubState p = ES_Text"
    and k: "32 \<le> byte_val b \<Longrightarrow> k < UTF8CharsStockSize"
  shows "rel_sum (=) (consume_rel k b d e) (SSTextConsume b p) (SSTextConsume b q)"
proof (cases "byte_val b < 32")
  case True
  then show ?thesis
    using s by (auto simp: SSTextConsume_def consume_rel_def
        intro!: rel_bind [OF SwitchTo_sim0 [OF s(1)]])
next
  case False
  with k have "k < UTF8CharsStockSize" by simp
  with s False show ?thesis
    by (auto simp: SSTextConsume_def consume_rel_def ConsumeNextUTF8TextChar_def post_def sim_def
        core_def obs_def)
qed

text \<open>
  The routines of the other states run with no text pending. These rules take one apart: a
  switch, a branch, the emission of a command, the end.
\<close>

named_theorems sim_intros "rules that take a consumption routine apart"

lemma sim_switch [sim_intros]:
  assumes "sim 0 d p e q"
    and "\<And>p' q'. sim 0 d p' e q' \<Longrightarrow> rel_sum (=) (consume_rel k b d e) (f p') (g q')"
  shows "rel_sum (=) (consume_rel k b d e) (bindR (SwitchTo st p) f) (bindR (SwitchTo st q) g)"
  using SwitchTo_sim0 [OF assms(1)] assms(2) by (auto intro: rel_bind)

lemma sim_if [sim_intros]:
  assumes "c \<Longrightarrow> rel_sum (=) R x x'" and "\<not> c \<Longrightarrow> rel_sum (=) R y y'"
  shows "rel_sum (=) R (if c then x else y) (if c then x' else y')"
  using assms by simp

lemma sim_done [sim_intros]:
  "sim 0 d p e q \<Longrightarrow> rel_sum (=) (consume_rel k b d e) (Inr (c, p)) (Inr (c, q))"
  by (auto simp: consume_rel_def intro: sim_post)

lemma sim_hash [sim_intros]:
  assumes "sim 0 d p e q" and "sim 0 d (f p) e (f q)" and "sim 0 d (g p) e (g q)"
  shows "rel_sum (=) (consume_rel k b d e)
    (Inr (c, if m_Hash p then f p else g p)) (Inr (c, if m_Hash q then f q else g q))"
proof -
  have "m_Hash p = m_Hash q" using assms(1) by (simp add: sim_def core_def)
  with assms(2,3) show ?thesis
    by (cases "m_Hash q") (auto simp: consume_rel_def intro: sim_post)
qed

declare sim_emit [sim_intros] sim_log [sim_intros]

lemma Control_sim:
  assumes "sim 0 d p e q"
  shows "rel_sum (=) (consume_rel k b d e) (SSControlConsume b p) (SSControlConsume b q)"
  unfolding SSControlConsume_def Let_def control_defs
  by (intro sim_intros assms)

lemma Esc_sim:
  assumes s: "sim 0 d p e q"
  shows "rel_sum (=) (consume_rel k b d e) (SSEscConsume b p) (SSEscConsume b q)"
proof -
  have h: "sim 0 d (p\<lparr>m_Hash := True\<rparr>) e (q\<lparr>m_Hash := True\<rparr>)"
    using s by (auto simp: sim_def core_def obs_def)
  show ?thesis
    unfolding SSEscConsume_def RIS_def control_defs bindR_assoc bindR_Inr
    by (intro sim_intros s h)
qed

lemma OSC_consume_sim:
  assumes s: "sim 0 d p e q"
  shows "rel_sum (=) (consume_rel k b d e) (SSOSCConsume b p) (SSOSCConsume b q)"
proof -
  have esc: "m_GotEsc q = m_GotEsc p" and buf: "m_OSCBuffer q = m_OSCBuffer p"
    using s by (simp_all add: sim_def core_def)
  have upd: "sim 0 d (SSOSCDiscard p) e (SSOSCDiscard q)"
      "sim 0 d (if b \<noteq> CHR 92 then SSOSCDiscard p else p) e
        (if b \<noteq> CHR 92 then SSOSCDiscard q else q)"
      "sim 0 d (p\<lparr>m_OSCBuffer := m_OSCBuffer p @ [b]\<rparr>) e (q\<lparr>m_OSCBuffer := m_OSCBuffer p @ [b]\<rparr>)"
      "sim 0 d (p\<lparr>m_GotEsc := True\<rparr>) e (q\<lparr>m_GotEsc := True\<rparr>)"
    using s by (auto simp: sim_def core_def obs_def SSOSCDiscard_def)
  show ?thesis
    unfolding SSOSCConsume_def esc buf by (intro sim_intros upd s)
qed

lemma CSI_consume_sim:
  assumes s: "sim 0 d p e q"
  shows "rel_sum (=) (consume_rel k b d e) (SSCSIConsume b p) (SSCSIConsume b q)"
proof -
  have buf: "m_CSIBuffer q = m_CSIBuffer p"
    using s by (simp add: sim_def core_def)
  have upd: "sim 0 d (p\<lparr>m_CSIBuffer := x\<rparr>) e (q\<lparr>m_CSIBuffer := x\<rparr>)" for x
    using s by (auto simp: sim_def core_def obs_def)
  show ?thesis
    unfolding SSCSIConsume_def SSOSCConsumeControl_def Let_def control_defs buf
    by (intro sim_intros upd s)
qed

lemma DCS_consume_sim:
  assumes s: "sim 0 d p e q"
  shows "rel_sum (=) (consume_rel k b d e) (SSDCSConsume b p) (SSDCSConsume b q)"
proof -
  have buf: "m_DCSBuffer q = m_DCSBuffer p"
    using s by (simp add: sim_def core_def)
  have upd: "sim 0 d (p\<lparr>m_DCSBuffer := x\<rparr>) e (q\<lparr>m_DCSBuffer := x\<rparr>)" for x
    using s by (auto simp: sim_def core_def obs_def)
  show ?thesis
    unfolding SSDCSConsume_def buf by (intro sim_intros upd)
qed

lemma ss_consume_sim:
  assumes s: "sim k d p e q" and k: "32 \<le> byte_val b \<Longrightarrow> k < UTF8CharsStockSize"
  shows "rel_sum (=) (consume_rel k b d e)
    (ss_consume (m_SubState p) b p) (ss_consume (m_SubState q) b q)"
proof (cases "m_SubState p = ES_Text")
  case True
  with Text_sim [OF s True k] sim_SubState [OF s] show ?thesis by simp
next
  case False
  from sim_zero [OF s False] have s0: "sim 0 d p e q" .
  with False sim_SubState [OF s] show ?thesis
    by (cases "m_SubState p")
      (auto intro: Control_sim Esc_sim OSC_consume_sim CSI_consume_sim DCS_consume_sim)
qed

lemma EatByte_loop_sim:
  "sim k d p e q \<Longrightarrow> (32 \<le> byte_val b \<Longrightarrow> k < UTF8CharsStockSize) \<Longrightarrow>
    rel_sum (=) (\<lambda>p' q'. sim (post k b) d p' e q') (EatByte_loop n b p) (EatByte_loop n b q)"
proof (induction n arbitrary: k p q)
  case 0
  then show ?case by simp
next
  case (Suc n)
  have step: "rel_sum (=) (\<lambda>p' q'. sim (post k b) d p' e q') (EatByte_loop n b p') (EatByte_loop n b q')"
    if "sim 0 d p' e q'" for p' q'
  proof -
    have "0 < UTF8CharsStockSize" by (simp add: UTF8CharsStockSize_def)
    with Suc.IH [OF that]
    have "rel_sum (=) (\<lambda>p' q'. sim (post 0 b) d p' e q') (EatByte_loop n b p') (EatByte_loop n b q')"
      by blast
    then show ?thesis
      by (rule sum.rel_mono_strong) (auto simp: post_def elim: sim_mono)
  qed
  have subst: "m_SubState q = m_SubState p" by (rule sim_SubState [OF Suc.prems(1)])
  show ?case
    unfolding EatByte_loop.simps
    by (rule rel_bind [OF ss_consume_sim [OF Suc.prems]])
      (auto simp: consume_rel_def assertR_def subst dest: sim_SubState intro!: step)
qed

section \<open>The state invariant and the faults\<close>

text \<open>
  Pending text exists only in the \<open>Text\<close> state and never exceeds its buffer, a control sequence
  being collected consists of parameter and intermediate bytes, and every command already
  produced carries the payload its type announces.
\<close>

definition parser_ok :: "ParserImpl \<Rightarrow> bool" where
  "parser_ok p \<longleftrightarrow> (m_SubState p \<noteq> ES_Text \<longrightarrow> m_Stock p = [])
     \<and> length (m_Stock p) \<le> UTF8CharsStockSize
     \<and> (m_SubState p = ES_CSI \<longrightarrow> list_all CSI_ValidContents (m_CSIBuffer p))
     \<and> list_all payload_fits (m_Output p)"

text \<open>The one way the parser can fault: the byte completes a sequence whose negation overflows.\<close>

definition overflows :: "ParserImpl \<Rightarrow> byte \<Rightarrow> bool" where
  "overflows p b \<longleftrightarrow> m_SubState p = ES_CSI \<and> b \<in> set ''FTZ''
     \<and> parse_u32 (m_CSIBuffer p @ [b]) 1 = 0x80000000"

lemma parser_ok_init [simp]: "parser_ok (ParserImpl_init log)"
  by (simp add: parser_ok_def ParserImpl_init_def)

definition outputs_fit :: "ParserImpl \<Rightarrow> bool" where
  "outputs_fit p \<longleftrightarrow> list_all payload_fits (m_Output p)"

lemma outputs_fit_emit [simp]:
  "outputs_fit (emplace_back c p) \<longleftrightarrow> outputs_fit p \<and> payload_fits c"
  by (auto simp: outputs_fit_def)

lemma outputs_fit_log [simp]: "outputs_fit (LogMissed m p) \<longleftrightarrow> outputs_fit p"
  by (simp add: outputs_fit_def)

lemma outputs_fit_effects: "typed es \<Longrightarrow> outputs_fit p \<Longrightarrow> outputs_fit (foldl apply_effect p es)"
proof (induction es arbitrary: p)
  case (Cons x xs)
  then show ?case by (cases x) auto
qed simp

lemma payload_fits_text [simp]: "payload_fits (text_cmd s)"
  by (simp add: payload_fits_def text_cmd_def)

lemma DCS_Target_less: "DCS_Target c = Some t \<Longrightarrow> t < 4"
  by (auto simp: DCS_Target_def split: if_splits)

lemma exit_outputs_fit:
  assumes "outputs_fit p" and "ss_exit (m_SubState p) p = Inr p'"
  shows "outputs_fit p'"
proof (cases "m_SubState p")
  case ES_CSI
  with assms obtain es where "SSCSISubmit (m_CSIBuffer p) = Inr es" "p' = foldl apply_effect p es"
    by (auto simp: SSCSIExit_def bind_simps)
  then show ?thesis using assms(1) by (simp add: outputs_fit_effects SSCSISubmit_typed)
next
  case ES_Text
  with assms show ?thesis
    by (auto simp: FlushAllText_def outputs_fit_def)
next
  case ES_OSC
  with assms show ?thesis
    by (auto simp: SSOSCSubmit_def Let_def LogMissedOSCRequest_def payload_fits_def
        split: prod.splits if_splits)
next
  case ES_DCS
  with assms show ?thesis
    by (auto simp: SSDCSExit_def Let_def payload_fits_def DCS_Target_less
        split: option.splits if_splits)
qed (use assms in auto)

lemma exit_Stock:
  assumes "ss_exit (m_SubState p) p = Inr p'" and "m_SubState p \<noteq> ES_Text \<longrightarrow> m_Stock p = []"
  shows "m_Stock p' = []"
  using assms
  by (cases "m_SubState p")
    (auto simp: SSCSIExit_def bind_simps SSOSCSubmit_def Let_def LogMissedOSCRequest_def
      SSDCSExit_def split: prod.splits if_splits option.splits)

lemma SwitchTo_ok:
  assumes ok: "parser_ok p" and st: "m_SubState p \<noteq> st" and sw: "SwitchTo st p = Inr p'"
  shows "parser_ok p' \<and> m_SubState p' = st \<and> m_Stock p' = []"
proof -
  from sw st obtain q where q: "ss_exit (m_SubState p) p = Inr q"
      "p' = ss_enter st (q\<lparr>m_SubState := st\<rparr>)"
    by (auto simp: SwitchTo_def bind_simps)
  have "outputs_fit q" using exit_outputs_fit [OF _ q(1)] ok by (simp add: parser_ok_def outputs_fit_def)
  moreover have "m_Stock q = []" using exit_Stock [OF q(1)] ok by (simp add: parser_ok_def)
  ultimately show ?thesis
    unfolding q(2) by (cases st) (auto simp: parser_ok_def outputs_fit_def)
qed

lemma valid_no_minus: "list_all CSI_ValidContents s \<Longrightarrow> CHR ''-'' \<notin> set s"
proof -
  have "\<not> CSI_ValidContents CHR ''-''" by (simp add: CSI_ValidContents_def)
  then show "CHR ''-'' \<notin> set s" if "list_all CSI_ValidContents s"
    using that by (auto simp: list_all_iff)
qed

lemma SwitchTo_fault:
  assumes "m_SubState p = ES_CSI \<Longrightarrow> CHR ''-'' \<notin> set (m_CSIBuffer p)"
  shows "SwitchTo st p = Inl e \<longleftrightarrow> e = Signed_Overflow \<and> m_SubState p \<noteq> st \<and> m_SubState p = ES_CSI
    \<and> m_CSIBuffer p \<noteq> [] \<and> last (m_CSIBuffer p) \<in> set ''FTZ''
    \<and> parse_u32 (m_CSIBuffer p) 1 = 0x80000000"
  using assms SSCSISubmit_fault [of "m_CSIBuffer p" e]
  by (cases "m_SubState p") (auto simp: SwitchTo_def SSCSIExit_def bind_simps)

text \<open>How many rounds of the loop a byte can need in a sub-state.\<close>

definition rounds :: "EscState \<Rightarrow> byte \<Rightarrow> nat" where
  "rounds st b = (case st of
      ES_Text \<Rightarrow> if byte_val b < 32 then 2 else 1
    | ES_Control \<Rightarrow> if byte_val b < 32 then 1 else 2
    | ES_Esc \<Rightarrow> if b \<in> set ''()*+'' then 2 else 1
    | ES_OSC \<Rightarrow> 1
    | ES_CSI \<Rightarrow> if byte_val b < 32 then 1 else 2
    | ES_DCS \<Rightarrow> if DCS_ValidContents b then 1 else 3)"

text \<open>A round without a fault: invariant kept, and a refusal leaves fewer rounds to go.\<close>

definition round_ok :: "EscState \<Rightarrow> byte \<Rightarrow> (bool \<times> ParserImpl) res \<Rightarrow> bool" where
  "round_ok st b m \<longleftrightarrow> (\<exists>c p'. m = Inr (c, p') \<and> parser_ok p'
     \<and> (\<not> c \<longrightarrow> m_SubState p' \<noteq> ES_CSI \<and> rounds (m_SubState p') b < rounds st b))"

named_theorems round_intros "rules that take a consumption routine apart"

lemma round_done [round_intros]:
  "parser_ok p \<Longrightarrow> m_SubState p \<noteq> ES_CSI \<Longrightarrow> rounds (m_SubState p) b < rounds st b \<Longrightarrow> round_ok st b (Inr (False, p))"
  "parser_ok p \<Longrightarrow> round_ok st b (Inr (True, p))"
  by (auto simp: round_ok_def)

lemma round_switch [round_intros]:
  assumes "parser_ok p" and "m_SubState p = ES_CSI \<Longrightarrow> m_CSIBuffer p = []"
    and "m_SubState p \<noteq> target"
    and "\<And>p'. parser_ok p' \<Longrightarrow> m_SubState p' = target \<Longrightarrow> m_Stock p' = [] \<Longrightarrow> round_ok st b (f p')"
  shows "round_ok st b (bindR (SwitchTo target p) f)"
proof -
  have "SwitchTo target p \<noteq> Inl e" for e
    using SwitchTo_fault [of p target e] assms(2) by auto
  then obtain p' where "SwitchTo target p = Inr p'" by (cases "SwitchTo target p") auto
  with SwitchTo_ok [OF assms(1,3)] assms(4) show ?thesis by simp
qed

lemma round_if [round_intros]:
  "(c \<Longrightarrow> round_ok st b x) \<Longrightarrow> (\<not> c \<Longrightarrow> round_ok st b y) \<Longrightarrow> round_ok st b (if c then x else y)"
  by simp

lemma SwitchTo_same: "m_SubState p = st \<Longrightarrow> SwitchTo st p = Inr p"
  by (simp add: SwitchTo_def)

lemma parser_ok_emit [simp]: "parser_ok (emplace_back c p) \<longleftrightarrow> parser_ok p \<and> payload_fits c"
  by (auto simp: parser_ok_def)

lemma parser_ok_log [simp]: "parser_ok (LogMissed m p) \<longleftrightarrow> parser_ok p"
  by (simp add: parser_ok_def)

lemma control_fits [simp]:
  "payload_fits (mk_cmd T_line_feed P_None)" "payload_fits (mk_cmd T_carriage_return P_None)"
  "payload_fits (mk_cmd T_back_space P_None)" "payload_fits (mk_cmd T_bell P_None)"
  "payload_fits (mk_cmd T_reverse_index P_None)" "payload_fits (mk_cmd T_set_tab P_None)"
  "payload_fits (mk_cmd T_save_state P_None)" "payload_fits (mk_cmd T_restore_state P_None)"
  "payload_fits (mk_cmd T_screen_alignment_test P_None)" "payload_fits (mk_cmd T_reset P_None)"
  "payload_fits (mk_cmd T_horizontal_tab (P_signed 1))"
  "payload_fits (mk_cmd T_select_character_set (P_unsigned 0))"
  "payload_fits (mk_cmd T_select_character_set (P_unsigned 1))"
  by (simp_all add: payload_fits_def)

lemma Text_round:
  assumes "parser_ok p" and "m_SubState p = ES_Text"
  shows "round_ok ES_Text b (SSTextConsume b p)"
proof (cases "byte_val b < 32")
  case True
  then show ?thesis
    using assms unfolding SSTextConsume_def
    by (auto intro!: round_intros simp: rounds_def)
next
  case False
  then have "parser_ok (ConsumeNextUTF8TextChar b p)"
    using assms by (simp add: ConsumeNextUTF8TextChar_def parser_ok_def)
  with False show ?thesis by (simp add: SSTextConsume_def round_intros)
qed

lemma Control_round:
  assumes "parser_ok p" and "m_SubState p = ES_Control"
  shows "round_ok ES_Control b (SSControlConsume b p)"
  unfolding SSControlConsume_def Let_def control_defs
  by (intro round_intros) (use assms in \<open>simp_all add: rounds_def\<close>)

lemma DCS_ValidContents_start: "b \<in> set ''()*+'' \<Longrightarrow> DCS_ValidContents b"
  unfolding DCS_ValidContents_def set_append Un_iff by (rule disjI1)

lemma rounds_Esc_DCS:
  assumes "b = CHR ''('' \<or> b = CHR '')'' \<or> b = CHR ''*'' \<or> b = CHR ''+''"
  shows "rounds ES_DCS b < rounds ES_Esc b"
proof -
  have "b \<in> set ''()*+''" using assms by simp
  with DCS_ValidContents_start [OF this] show ?thesis by (simp add: rounds_def)
qed

lemma Esc_round:
  assumes "parser_ok p" and "m_SubState p = ES_Esc"
  shows "round_ok ES_Esc b (SSEscConsume b p)"
proof -
  have h: "parser_ok (p\<lparr>m_Hash := True\<rparr>)" using assms by (simp add: parser_ok_def)
  have if2: "round_ok ES_Esc b (Inr (True, if c then x else y))"
    if "parser_ok x" "parser_ok y" for c x y
    using that by (simp add: round_intros)
  have ris: "round_ok ES_Esc b (bindR (RIS p) (\<lambda>p. Inr (True, p)))"
    if "parser_ok p" "m_SubState p = ES_Text" for p
    using that by (simp add: RIS_def SwitchTo_same round_intros)
  show ?thesis
    unfolding SSEscConsume_def control_defs
    by (intro round_intros if2 ris h)
      (use assms in \<open>simp_all add: rounds_Esc_DCS\<close>)
qed

lemma OSC_round:
  assumes "parser_ok p" and "m_SubState p = ES_OSC"
  shows "round_ok ES_OSC b (SSOSCConsume b p)"
  unfolding SSOSCConsume_def SSOSCDiscard_def
  by (intro round_intros) (use assms in \<open>auto simp: parser_ok_def\<close>)

lemma DCS_round:
  assumes "parser_ok p" and "m_SubState p = ES_DCS"
  shows "round_ok ES_DCS b (SSDCSConsume b p)"
  unfolding SSDCSConsume_def
  by (intro round_intros) (use assms in \<open>auto simp: parser_ok_def rounds_def\<close>)

lemma CSI_round:
  assumes "parser_ok p" and "m_SubState p = ES_CSI" and "\<not> overflows p b"
  shows "round_ok ES_CSI b (SSCSIConsume b p)"
proof -
  let ?q = "p\<lparr>m_CSIBuffer := m_CSIBuffer p @ [b]\<rparr>"
  have minus: "CHR ''-'' \<notin> set (m_CSIBuffer ?q)" if "CSI_ValidTerminal b"
  proof -
    have "\<not> CSI_ValidTerminal CHR ''-''" by (simp add: CSI_ValidTerminal_def)
    with that assms(1,2) show ?thesis by (auto simp: parser_ok_def dest: valid_no_minus)
  qed
  have terminal: "round_ok ES_CSI b (bindR (SwitchTo ES_Text ?q) (\<lambda>p. Inr (True, p)))"
    if "CSI_ValidTerminal b"
  proof (cases "SwitchTo ES_Text ?q")
    case (Inl e)
    then show ?thesis
      using SwitchTo_fault [of ?q ES_Text e] minus [OF that] assms(2,3) by (auto simp: overflows_def)
  next
    case (Inr r)
    have "ss_exit ES_CSI ?q = Inr (r' :: ParserImpl) \<Longrightarrow> outputs_fit r' \<and> m_Stock r' = []" for r'
      using exit_outputs_fit [of ?q r'] exit_Stock [of ?q r'] assms(1,2)
      by (simp add: parser_ok_def outputs_fit_def)
    with Inr assms(2) have "parser_ok r"
      by (auto simp: SwitchTo_def bind_simps parser_ok_def outputs_fit_def)
    with Inr show ?thesis by (simp add: round_intros)
  qed
  show ?thesis
    unfolding SSCSIConsume_def SSOSCConsumeControl_def Let_def control_defs
    by (intro round_intros terminal) (use assms in \<open>auto simp: parser_ok_def rounds_def\<close>)
qed

lemma ss_round:
  "parser_ok p \<Longrightarrow> \<not> overflows p b \<Longrightarrow>
    round_ok (m_SubState p) b (ss_consume (m_SubState p) b p)"
  by (cases "m_SubState p")
    (auto simp: Text_round Control_round Esc_round OSC_round CSI_round DCS_round)

lemma EatByte_loop_ok:
  "parser_ok p \<Longrightarrow> \<not> overflows p b \<Longrightarrow> rounds (m_SubState p) b \<le> n \<Longrightarrow>
    \<exists>p'. EatByte_loop n b p = Inr p' \<and> parser_ok p'"
proof (induction n arbitrary: p)
  case 0
  then show ?case by (auto simp: rounds_def split: EscState.splits if_splits)
next
  case (Suc n)
  from ss_round [OF Suc.prems(1,2)] obtain c p1
    where c: "ss_consume (m_SubState p) b p = Inr (c, p1)" "parser_ok p1"
      "\<not> c \<Longrightarrow> m_SubState p1 \<noteq> ES_CSI \<and> rounds (m_SubState p1) b < rounds (m_SubState p) b"
    by (auto simp: round_ok_def)
  show ?case
  proof (cases c)
    case True
    with c show ?thesis by simp
  next
    case False
    then have "\<not> overflows p1 b" using c(3) by (simp add: overflows_def)
    moreover have "m_SubState p \<noteq> m_SubState p1" using c(3) [OF False] by auto
    ultimately show ?thesis using Suc.IH [of p1] c False Suc.prems(3) by simp
  qed
qed

text \<open>A byte that overflows does fault, so the condition is exact.\<close>

lemma EatByte_overflow:
  assumes "parser_ok p" and ov: "overflows p b"
  shows "EatByte p b = Inl Signed_Overflow"
proof -
  from ov have st: "m_SubState p = ES_CSI" and b: "b = CHR ''F'' \<or> b = CHR ''T'' \<or> b = CHR ''Z''"
    by (auto simp: overflows_def)
  let ?q = "p\<lparr>m_CSIBuffer := m_CSIBuffer p @ [b]\<rparr>"
  have "CHR ''-'' \<notin> set (m_CSIBuffer p)"
    using assms st by (auto simp: parser_ok_def dest: valid_no_minus)
  then have "CHR ''-'' \<notin> set (m_CSIBuffer ?q)" using b by auto
  then have sw: "SwitchTo ES_Text ?q = Inl Signed_Overflow"
    using SwitchTo_fault [of ?q ES_Text Signed_Overflow] ov st by (simp add: overflows_def)
  have "SSCSIConsume b p = Inl Signed_Overflow"
  proof -
    have "\<not> byte_val b < 32 \<and> \<not> CSI_ValidContents b \<and> CSI_ValidTerminal b"
      using b by (elim disjE) (simp_all add: CSI_ValidContents_def CSI_ValidTerminal_def)
    then show ?thesis by (simp add: SSCSIConsume_def sw [simplified])
  qed
  with st show ?thesis by (simp add: EatByte_def numeral_3_eq_3)
qed

lemma EatByte_ok:
  assumes "parser_ok p" and "\<not> overflows p b"
  shows "\<exists>p'. EatByte p b = Inr p' \<and> parser_ok p'"
proof -
  have "rounds (m_SubState p) b \<le> 3" by (auto simp: rounds_def split: EscState.split)
  with assms show ?thesis unfolding EatByte_def by (rule EatByte_loop_ok)
qed

lemma FlushCompleteText_ok:
  assumes "parser_ok p"
  shows "\<exists>p'. FlushCompleteText p = Inr p' \<and> parser_ok p'"
  using assms Scan_le_length [of "m_Stock p"]
  by (auto simp: FlushCompleteText_def Let_def parser_ok_def)

lemma EatBytes_result:
  "parser_ok p \<Longrightarrow> (\<exists>p'. foldR EatByte p bs = Inr p' \<and> parser_ok p')
     \<or> (\<exists>xs b ys p1. bs = xs @ b # ys \<and> foldR EatByte p xs = Inr p1 \<and> overflows p1 b
          \<and> foldR EatByte p bs = Inl Signed_Overflow)"
proof (induction bs arbitrary: p)
  case Nil
  then show ?case by simp
next
  case (Cons a bs)
  show ?case
  proof (cases "overflows p a")
    case True
    have "foldR EatByte p (a # bs) = Inl Signed_Overflow"
      by (simp add: EatByte_overflow [OF Cons.prems True])
    moreover have "a # bs = [] @ a # bs \<and> foldR EatByte p [] = Inr p \<and> overflows p a"
      using True by simp
    ultimately show ?thesis by blast
  next
    case False
    from EatByte_ok [OF Cons.prems False] obtain p1 where p1: "EatByte p a = Inr p1" "parser_ok p1"
      by blast
    from Cons.IH [OF p1(2)] show ?thesis
    proof (elim disjE exE conjE)
      fix p' assume "foldR EatByte p1 bs = Inr p'" "parser_ok p'"
      with p1 show ?thesis by simp
    next
      fix xs b ys p2
      assume h: "bs = xs @ b # ys" "foldR EatByte p1 xs = Inr p2" "overflows p2 b"
        "foldR EatByte p1 bs = Inl Signed_Overflow"
      have "a # bs = (a # xs) @ b # ys \<and> foldR EatByte p (a # xs) = Inr p2"
        using h p1 by simp
      with h p1 show ?thesis by (metis foldR.simps(2) bindR_Inr)
    qed
  qed
qed

end
