(* ===== verification/ParserChunks.thy ===== *)
theory ParserChunks
  imports ParserProps
begin

text \<open>
  Properties of the terminal parser as a whole. The contract of a consumer that is fed chunk by
  chunk is stated as a locale and proved once: if eating a byte and flushing keep a simulation,
  then cutting the input elsewhere cannot be told from the result. The parser is its
  interpretation.
\<close>

section \<open>Consumers fed in chunks\<close>

text \<open>
  \<open>sim k d s e t\<close>: the state \<open>s\<close> after handing out \<open>d\<close> stands for the state \<open>t\<close> after handing
  out \<open>e\<close>, with a credit \<open>k\<close> that \<open>nxt\<close> updates and that can run out. \<open>flush\<close> ends a chunk.
\<close>

locale chunked_consumer =
  fixes eat :: "'s \<Rightarrow> 'b \<Rightarrow> 's res"
    and flush :: "'s \<Rightarrow> ('o list \<times> 's) res"
    and nxt :: "'k \<Rightarrow> 'b \<Rightarrow> 'k option"
    and sim :: "'k \<Rightarrow> 'o list \<Rightarrow> 's \<Rightarrow> 'o list \<Rightarrow> 's \<Rightarrow> bool"
  assumes eat_sim: "sim k d s e t \<Longrightarrow> nxt k b = Some k' \<Longrightarrow>
      rel_sum (=) (\<lambda>s' t'. sim k' d s' e t') (eat s b) (eat t b)"
    and flush_left: "sim k d s e t \<Longrightarrow> \<exists>os s'. flush s = Inr (os, s') \<and> sim k (d @ os) s' e t"
begin

fun credit :: "'k \<Rightarrow> 'b list \<Rightarrow> 'k option" where
  "credit k [] = Some k"
| "credit k (b # bs) = Option.bind (nxt k b) (\<lambda>k'. credit k' bs)"

lemma credit_append: "credit k (xs @ ys) = Option.bind (credit k xs) (\<lambda>k'. credit k' ys)"
  by (induction xs arbitrary: k) (auto simp: Option.bind_assoc)

definition chunk :: "'o list \<times> 's \<Rightarrow> 'b list \<Rightarrow> ('o list \<times> 's) res" where
  "chunk ds bs = (case ds of (d, s) \<Rightarrow>
     bindR (foldR eat s bs) (\<lambda>s1. bindR (flush s1) (\<lambda>(os, s2). Inr (d @ os, s2))))"

lemma eat_all_sim:
  "sim k d s e t \<Longrightarrow> credit k bs = Some k' \<Longrightarrow>
    rel_sum (=) (\<lambda>s' t'. sim k' d s' e t') (foldR eat s bs) (foldR eat t bs)"
proof (induction bs arbitrary: k s t)
  case Nil
  then show ?case by simp
next
  case (Cons b bs)
  from Cons.prems(2) obtain k1 where k1: "nxt k b = Some k1" "credit k1 bs = Some k'"
    by (auto simp: bind_eq_Some_conv)
  from eat_sim [OF Cons.prems(1) k1(1)] show ?case
    by (cases "eat s b"; cases "eat t b") (use Cons.IH k1(2) in auto)
qed

lemma chunk_sim:
  assumes "sim k d s e t" and "credit k bs = Some k'"
  shows "rel_sum (=) (\<lambda>(d', s') t'. sim k' d' s' e t') (chunk (d, s) bs) (foldR eat t bs)"
  using eat_all_sim [OF assms]
proof (cases "foldR eat s bs"; cases "foldR eat t bs")
  fix s1 t1 assume h: "foldR eat s bs = Inr s1" "foldR eat t bs = Inr t1"
  with eat_all_sim [OF assms] have "sim k' d s1 e t1" by simp
  from flush_left [OF this] obtain os s2 where "flush s1 = Inr (os, s2)" "sim k' (d @ os) s2 e t1"
    by blast
  with h show ?thesis by (simp add: chunk_def)
qed (simp_all add: chunk_def)

lemma chunks_sim:
  "sim k d s e t \<Longrightarrow> credit k (concat cs) = Some k' \<Longrightarrow>
    rel_sum (=) (\<lambda>(d', s') t'. sim k' d' s' e t')
      (foldR chunk (d, s) cs) (foldR eat t (concat cs))"
proof (induction cs arbitrary: k d s t)
  case Nil
  then show ?case by simp
next
  case (Cons c cs)
  from Cons.prems(2) obtain k1 where k1: "credit k c = Some k1" "credit k1 (concat cs) = Some k'"
    by (auto simp: credit_append bind_eq_Some_conv)
  from chunk_sim [OF Cons.prems(1) k1(1)] show ?case
    by (cases "chunk (d, s) c"; cases "foldR eat t c")
      (use Cons.IH k1(2) in \<open>auto simp: foldR_append\<close>)
qed

end

section \<open>The parser is such a consumer\<close>

definition hand_out :: "ParserImpl \<Rightarrow> (Command list \<times> ParserImpl) res" where
  "hand_out p = bindR (FlushCompleteText p) (\<lambda>p. Inr (m_Output p, p\<lparr>m_Output := []\<rparr>))"

text \<open>The number of text bytes since the last control byte; it may not exceed the stock.\<close>

definition text_credit :: "nat \<Rightarrow> byte \<Rightarrow> nat option" where
  "text_credit k b =
     (if byte_val b < 32 then Some 0 else if k < UTF8CharsStockSize then Some (Suc k) else None)"

lemma text_credit_post: "text_credit k b = Some k' \<Longrightarrow> k' = post k b"
  by (auto simp: text_credit_def post_def split: if_splits)

lemma scan_append: "utf8_text x \<Longrightarrow> scan_utf8 0 0 0 (x @ y) = length x + scan_utf8 0 0 0 y"
proof (induction x rule: utf8_text.induct)
  case 1
  show ?case by simp
next
  case (2 b bs)
  then have h: "seq_len b > 0" "seq_len b \<le> Suc (length bs)"
    "list_all is_cont (take (seq_len b - 1) bs)" "utf8_text (drop (seq_len b - 1) bs)"
    by (auto simp: utf8_text.simps)
  have "scan_utf8 0 0 0 (b # bs @ y) = scan_utf8 0 0 (seq_len b) (drop (seq_len b - 1) bs @ y)"
    using h by (simp add: scan_utf8_Cons del: scan_utf8.simps(2))
  also have "\<dots> = seq_len b + scan_utf8 0 0 0 (drop (seq_len b - 1) bs @ y)"
    by (rule scan_utf8_len)
  also have "\<dots> = seq_len b + (length (drop (seq_len b - 1) bs) + scan_utf8 0 0 0 y)"
    using "2.IH" h by simp
  finally show ?case using h by simp
qed

lemma Scan_scan: "ScanUTF8ForValidSequenceLength s = scan_utf8 0 0 0 s"
  by (simp add: ScanUTF8ForValidSequenceLength_def)

lemma Scan_append:
  "utf8_text x \<Longrightarrow> ScanUTF8ForValidSequenceLength (x @ y) =
     length x + ScanUTF8ForValidSequenceLength y"
  by (simp add: Scan_scan scan_append)

lemma Scan_text: "utf8_text (take (ScanUTF8ForValidSequenceLength s) s)"
  using scan_utf8_longest [of s] by (simp add: Scan_scan)

text \<open>Handing out, in one equation: it takes the longest complete prefix off the stock.\<close>

lemma hand_out_eq:
  "hand_out p = (let n = ScanUTF8ForValidSequenceLength (m_Stock p) in
     Inr (m_Output p @ (if n = 0 then [] else [text_cmd (take n (m_Stock p))]),
          p\<lparr>m_Stock := drop n (m_Stock p), m_Output := []\<rparr>))"
  using Scan_le_length [of "m_Stock p"]
  by (simp add: hand_out_def FlushCompleteText_def Let_def emplace_back_def Scan_scan)

lemma utf8_text_append: "utf8_text x \<Longrightarrow> utf8_text y \<Longrightarrow> utf8_text (x @ y)"
proof (induction x rule: utf8_text.induct)
  case (2 b bs)
  then show ?case by (auto simp: utf8_text.simps)
qed simp

lemma hand_out_sim:
  assumes "sim k d p e q"
  shows "\<exists>os p'. hand_out p = Inr (os, p') \<and> sim k (d @ os) p' e q"
proof -
  let ?n = "ScanUTF8ForValidSequenceLength (m_Stock p)"
  from assms obtain x where x: "utf8_text x" "m_Stock q = x @ m_Stock p"
      "items d @ items (m_Output p) = items e @ items (m_Output q) @ map Ch x"
    and rest: "core p = core q" "length (m_Stock q) \<le> k"
      "m_SubState p \<noteq> ES_Text \<longrightarrow> m_Stock q = []"
    unfolding sim_def by blast
  let ?os = "m_Output p @ (if ?n = 0 then [] else [text_cmd (take ?n (m_Stock p))])"
  let ?p = "p\<lparr>m_Stock := drop ?n (m_Stock p), m_Output := []\<rparr>"
  have "items (d @ ?os) = items e @ items (m_Output q) @ map Ch (x @ take ?n (m_Stock p))"
    using x(3) by (auto simp flip: append_assoc)
  then have "sim k (d @ ?os) ?p e q"
    unfolding sim_def using x rest utf8_text_append [OF x(1) Scan_text]
    by (intro conjI exI [of _ "x @ take ?n (m_Stock p)"]) (auto simp: core_def)
  then show ?thesis by (simp add: hand_out_eq Let_def)
qed

interpretation tp: chunked_consumer EatByte hand_out text_credit sim
proof
  fix k d p e q b k'
  assume s: "sim k d p e q" and k: "text_credit k b = Some k'"
  have "32 \<le> byte_val b \<Longrightarrow> k < UTF8CharsStockSize"
    using k by (simp add: text_credit_def split: if_splits)
  from EatByte_loop_sim [OF s this]
  show "rel_sum (=) (\<lambda>p' q'. sim k' d p' e q') (EatByte p b) (EatByte q b)"
    unfolding EatByte_def text_credit_post [OF k] .
next
  fix k d p e q assume "sim k d p e q"
  then show "\<exists>os p'. hand_out p = Inr (os, p') \<and> sim k (d @ os) p' e q"
    by (rule hand_out_sim)
qed

section \<open>Properties of the parser\<close>

text \<open>A session: the calls of \<open>Parse\<close> that the reader of the pseudo-terminal makes, one per read.\<close>

fun Parse_chunks :: "bytes list \<Rightarrow> ParserImpl \<Rightarrow> (Command list \<times> ParserImpl) res" where
  "Parse_chunks [] p = Inr ([], p)"
| "Parse_chunks (c # cs) p =
     bindR (Parse c p) (\<lambda>(ds, p1). bindR (Parse_chunks cs p1) (\<lambda>(es, p2). Inr (ds @ es, p2)))"

text \<open>The state between two calls: nothing in \<open>m_Output\<close>, no complete text in the stock.\<close>

definition between_calls :: "ParserImpl \<Rightarrow> bool" where
  "between_calls p \<longleftrightarrow> parser_ok p \<and> m_Output p = []
     \<and> ScanUTF8ForValidSequenceLength (m_Stock p) = 0"

text \<open>
  Every run of text bytes, up to the next control byte, fits the stock of the parser, where
  \<open>k\<close> bytes are already in.
\<close>

fun runs_fit :: "nat \<Rightarrow> bytes \<Rightarrow> bool" where
  "runs_fit k [] = True"
| "runs_fit k (b # bs) =
     (if byte_val b < 32 then runs_fit 0 bs else k < UTF8CharsStockSize \<and> runs_fit (Suc k) bs)"

lemma runs_fit_credit: "runs_fit k bs \<longleftrightarrow> tp.credit k bs \<noteq> None"
proof (induction k bs rule: runs_fit.induct)
  case (2 k b bs)
  then show ?case using text_credit_def [of k b] by simp
qed simp

lemma Parse_hand_out: "Parse bs p = bindR (foldR EatByte p bs) hand_out"
  by (simp add: Parse_def hand_out_def [abs_def])

lemma chunk_Parse: "tp.chunk (d, p) bs = bindR (Parse bs p) (\<lambda>(os, p'). Inr (d @ os, p'))"
  by (simp add: tp.chunk_def Parse_hand_out bindR_assoc)

lemma chunks_Parse:
  "foldR tp.chunk (d, p) cs = bindR (Parse_chunks cs p) (\<lambda>(os, p'). Inr (d @ os, p'))"
proof (induction cs arbitrary: d p)
  case Nil
  then show ?case by simp
next
  case (Cons c cs)
  show ?case
    by (cases "Parse c p")
      (auto simp: chunk_Parse Cons.IH bindR_assoc case_prod_unfold)
qed

lemma hand_out_stock:
  assumes "hand_out p = Inr (os, p')"
  shows "m_Output p' = [] \<and> ScanUTF8ForValidSequenceLength (m_Stock p') = 0"
proof -
  let ?n = "ScanUTF8ForValidSequenceLength (m_Stock p)"
  have "?n = ?n + ScanUTF8ForValidSequenceLength (drop ?n (m_Stock p))"
    using Scan_append [OF Scan_text, of "m_Stock p" "drop ?n (m_Stock p)"]
    by (simp add: Scan_le_length)
  with assms show ?thesis by (auto simp: hand_out_eq Let_def)
qed

lemma chunks_quiet:
  "Parse_chunks cs p = Inr (ds, p') \<Longrightarrow>
    m_Output p = [] \<and> ScanUTF8ForValidSequenceLength (m_Stock p) = 0 \<Longrightarrow>
    m_Output p' = [] \<and> ScanUTF8ForValidSequenceLength (m_Stock p') = 0"
proof (induction cs arbitrary: p ds)
  case Nil
  then show ?case by simp
next
  case (Cons c cs)
  from Cons.prems(1) obtain xs p1 ys where "Parse c p = Inr (xs, p1)" "Parse_chunks cs p1 = Inr (ys, p')"
    by (auto simp: bind_simps)
  then show ?case using Cons.IH [of p1 ys] hand_out_stock
    by (auto simp: Parse_hand_out bind_simps)
qed

lemma sim_start:
  "m_Output p = [] \<Longrightarrow> parser_ok p \<Longrightarrow> sim (length (m_Stock p)) [] p [] p"
  by (auto simp: sim_def parser_ok_def intro: exI [of _ "[]"])

lemma sim_flushed:
  assumes "sim k d p e q" and "m_Output p = []" and "ScanUTF8ForValidSequenceLength (m_Stock p) = 0"
  shows "\<exists>os. hand_out q = Inr (os, p) \<and> items d = items (e @ os)"
proof -
  from assms(1) obtain x where x: "utf8_text x" "m_Stock q = x @ m_Stock p"
      "items d @ items (m_Output p) = items e @ items (m_Output q) @ map Ch x" "core p = core q"
    unfolding sim_def by blast
  have n: "ScanUTF8ForValidSequenceLength (m_Stock q) = length x"
    using x(1,2) assms(3) by (simp add: Scan_append)
  have "q\<lparr>m_Stock := m_Stock p, m_Output := []\<rparr> = p"
    using x(4) assms(2) by (cases p; cases q) (simp add: core_def)
  with x assms(2) n show ?thesis by (auto simp: hand_out_eq)
qed

text \<open>
  C5. How the input is cut does not matter: a session that delivers a byte stream in any chunks
  ends with the same fault as one call on the whole stream, or with the same parser state, and
  has handed out the same text and commands in the same order (text commands taken apart into
  their bytes), provided no run of text exceeds the 16384 bytes of the stock.
\<close>

theorem Parse_chunks_eq:
  assumes "between_calls p" and "runs_fit (length (m_Stock p)) (concat cs)"
  shows "(\<exists>f. Parse_chunks cs p = Inl f \<and> Parse (concat cs) p = Inl f) \<or>
    (\<exists>ds es p'. Parse_chunks cs p = Inr (ds, p') \<and> Parse (concat cs) p = Inr (es, p')
       \<and> items ds = items es)"
proof -
  from assms obtain k' where k: "tp.credit (length (m_Stock p)) (concat cs) = Some k'"
    by (auto simp: runs_fit_credit)
  have start: "sim (length (m_Stock p)) [] p [] p"
    using assms(1) by (simp add: between_calls_def sim_start)
  from tp.chunks_sim [OF start k] show ?thesis
  proof (cases "Parse_chunks cs p"; cases "foldR EatByte p (concat cs)")
    fix r q assume r: "Parse_chunks cs p = Inr r" "foldR EatByte p (concat cs) = Inr q"
    obtain ds p1 where p1: "r = (ds, p1)" by (cases r)
    with tp.chunks_sim [OF start k] r have "sim k' ds p1 [] q" by (simp add: chunks_Parse)
    moreover have "m_Output p1 = [] \<and> ScanUTF8ForValidSequenceLength (m_Stock p1) = 0"
      using chunks_quiet [of cs p ds p1] r(1) p1 assms(1) by (simp add: between_calls_def)
    ultimately obtain os where "hand_out q = Inr (os, p1)" "items ds = items os"
      using sim_flushed by fastforce
    with r p1 show ?thesis by (auto simp: Parse_hand_out)
  qed (auto simp: chunks_Parse Parse_hand_out)
qed

end
