(* ===== verification/ParserTheorems.thy ===== *)
theory ParserTheorems
  imports ParserChunks
begin

text \<open>
  Functional properties of the terminal parser: what a call of \<open>Parse\<close> can end in, the rounds of
  \<open>EatByte\<close>, numeric parameters, complete control sequences, character attributes and colours.
\<close>

section \<open>Decimal parameters\<close>

text \<open>Printing a parameter list, as an application that writes control sequences does.\<close>

fun join_params :: "nat list \<Rightarrow> bytes" where
  "join_params [] = []"
| "join_params [n] = decimal n"
| "join_params (n # m # ns) = decimal n @ CHR '';'' # join_params (m # ns)"

lemma from_chars_dec:
  assumes "n < 2 ^ 32" and "rest = [] \<or> \<not> is_digit (hd rest)"
  shows "from_chars_u32 (decimal n @ rest) v = (errc_ok, word_of_nat n, rest)"
proof -
  have tw: "takeWhile is_digit (decimal n @ rest) = decimal n" and dw: "dropWhile is_digit (decimal n @ rest) = rest"
    using dec_digits [of n] assms(2) by (cases rest; auto simp: list_all_iff)+
  show ?thesis using assms(1) by (simp add: from_chars_u32_def tw dw dec_val_dec)
qed

lemma scan_params_join:
  assumes "list_all (\<lambda>n. n < 2 ^ 32) ns" and "ns \<noteq> []"
    and "\<not> is_digit t" and "t \<noteq> CHR '';''"
  shows "scan_params vs (join_params ns @ t # rest) =
    vs @ take (MaxParams - length vs) (map word_of_nat ns)"
  using assms(1,2)
proof (induction ns arbitrary: vs rule: join_params.induct)
  case 1
  then show ?case by simp
next
  case (2 n)
  then show ?case
    using from_chars_dec [of n "t # rest" 0] assms(3,4)
    by (subst scan_params.simps) (auto simp: min_def)
next
  case (3 n m ns)
  have semi: "\<not> is_digit CHR '';''" by (simp add: is_digit_def)
  show ?case
  proof (cases "length vs \<ge> MaxParams")
    case True
    then show ?thesis by (subst scan_params.simps) simp
  next
    case False
    then obtain j where j: "MaxParams - length vs = Suc j" "MaxParams - Suc (length vs) = j"
      by (metis Suc_diff_Suc not_le)
    have "scan_params vs (join_params (n # m # ns) @ t # rest)
        = scan_params (vs @ [word_of_nat n]) (join_params (m # ns) @ t # rest)"
      using False 3 from_chars_dec [of n "CHR '';'' # join_params (m # ns) @ t # rest" 0] semi
      by (subst scan_params.simps) simp
    also have "\<dots> = vs @ take (Suc j) (map word_of_nat (n # m # ns))"
      using 3 j by simp
    finally show ?thesis using j by simp
  qed
qed

text \<open>
  Reading back printed parameters: for a list of 32-bit values joined with semicolons and
  followed by a byte that is neither a digit nor a semicolon, \<open>CSIParamsScanner::Parse\<close> returns
  the values in order, cut to the first eight.
\<close>

theorem CSIParams_roundtrip:
  assumes "list_all (\<lambda>n. n < 2 ^ 32) ns" and "ns \<noteq> []" and "\<not> is_digit t" and "t \<noteq> CHR '';''"
  shows "CSIParamsScanner_Parse (join_params ns @ t # rest) = take 8 (map word_of_nat ns)"
  unfolding CSIParamsScanner_Parse_def
  using scan_params_join [OF assms, of "[]" rest] by (simp add: MaxParams_def)

theorem CSIParams_roundtrip_witness:
  "CSIParamsScanner_Parse (''12;0;4294967295'' @ ''m'') = [12, 0, 4294967295]"
proof -
  have "join_params [12, 0, 4294967295] = ''12;0;4294967295''"
    by (simp add: decimal.simps char_of_def bit_0)
  then show ?thesis
    using CSIParams_roundtrip [of "[12, 0, 4294967295]" "CHR ''m''" "[]"]
    by (simp add: is_digit_def)
qed

section \<open>Complete control sequences\<close>

lemma SwitchTo_simps:
  "SwitchTo ES_Text p = (if m_SubState p = ES_Text then Inr p else
     bindR (ss_exit (m_SubState p) p) (\<lambda>p'. Inr (p'\<lparr>m_SubState := ES_Text, m_Stock := []\<rparr>)))"
  "m_SubState p = ES_Text \<Longrightarrow>
     SwitchTo ES_Control p = Inr ((FlushAllText p)\<lparr>m_SubState := ES_Control\<rparr>)"
  "m_SubState p = ES_Control \<Longrightarrow>
     SwitchTo ES_Esc p = Inr (p\<lparr>m_SubState := ES_Esc, m_Hash := False\<rparr>)"
  by (auto simp: SwitchTo_def bindR_def split: sum.splits)

lemma EatByte_ESC:
  assumes "m_SubState p = ES_Text"
  shows "EatByte p (CHR 27) = Inr ((FlushAllText p)\<lparr>m_SubState := ES_Esc, m_Hash := False\<rparr>)"
  using assms
  by (simp add: EatByte_def numeral_3_eq_3 SSTextConsume_def SSControlConsume_def SwitchTo_simps)

lemma EatByte_bracket:
  assumes "m_SubState p = ES_Esc" and "m_Stock p = []"
  shows "EatByte p (CHR ''['') = Inr (p\<lparr>m_SubState := ES_CSI, m_CSIBuffer := []\<rparr>)"
proof -
  have "SwitchTo ES_CSI q = Inr (q\<lparr>m_SubState := ES_CSI, m_CSIBuffer := []\<rparr>)"
    if "m_SubState q = ES_Text" "m_Stock q = []" for q
    using that by (simp add: SwitchTo_def FlushAllText_def)
  with assms show ?thesis
    by (cases p) (simp add: EatByte_def numeral_3_eq_3 SSEscConsume_def SwitchTo_simps)
qed

lemma valid_contents_ge: "CSI_ValidContents b \<Longrightarrow> \<not> byte_val b < 32"
  unfolding CSI_ValidContents_def set_append Un_iff list.set insert_iff empty_iff
  by (elim disjE) simp_all

lemma EatBytes_contents:
  "list_all CSI_ValidContents body \<Longrightarrow> m_SubState p = ES_CSI \<Longrightarrow>
    foldR EatByte p body = Inr (p\<lparr>m_CSIBuffer := m_CSIBuffer p @ body\<rparr>)"
proof (induction body arbitrary: p)
  case Nil
  then show ?case by simp
next
  case (Cons b body)
  then have "EatByte p b = Inr (p\<lparr>m_CSIBuffer := m_CSIBuffer p @ [b]\<rparr>)"
    by (simp add: EatByte_def numeral_3_eq_3 SSCSIConsume_def valid_contents_ge)
  with Cons show ?case by simp
qed

lemma EatByte_terminal:
  assumes "m_SubState p = ES_CSI" and "m_Stock p = []"
    and "CSI_ValidTerminal t" "\<not> CSI_ValidContents t" "\<not> byte_val t < 32"
  shows "EatByte p t = bindR (SSCSISubmit (m_CSIBuffer p @ [t])) (\<lambda>es.
    Inr ((foldl apply_effect (p\<lparr>m_CSIBuffer := m_CSIBuffer p @ [t]\<rparr>) es)
         \<lparr>m_SubState := ES_Text, m_Stock := []\<rparr>))"
  using assms
  by (simp add: EatByte_def numeral_3_eq_3 SSCSIConsume_def SwitchTo_simps SSCSIExit_def bindR_assoc)

lemma terminal_bytes: "CSI_ValidTerminal t \<Longrightarrow> \<not> CSI_ValidContents t \<and> \<not> byte_val t < 32"
proof -
  have "list_all (\<lambda>t. \<not> CSI_ValidContents t \<and> \<not> byte_val t < 32)
      ''@ABCDEFGHIJKLMPSTXZ^`abcdefghilmnpqrstuvwxyz{|}~''"
    by (simp add: CSI_ValidContents_def)
  then show "CSI_ValidTerminal t \<Longrightarrow> \<not> CSI_ValidContents t \<and> \<not> byte_val t < 32"
    unfolding CSI_ValidTerminal_def list_all_iff by blast
qed

text \<open>The commands among the effects of a sequence.\<close>

fun emitted :: "effects \<Rightarrow> Command list" where
  "emitted [] = []"
| "emitted (Emit c # es) = c # emitted es"
| "emitted (Complain m # es) = emitted es"

lemma apply_effects_output: "m_Output (foldl apply_effect p es) = m_Output p @ emitted es"
  by (induction es arbitrary: p rule: emitted.induct) auto

definition pending_text :: "ParserImpl \<Rightarrow> Command list" where
  "pending_text p = (if m_Stock p = [] then [] else [text_cmd (m_Stock p)])"

lemma FlushAllText_output: "m_Output (FlushAllText p) = m_Output p @ pending_text p"
  by (simp add: FlushAllText_def pending_text_def)

lemma CSI_sequence:
  assumes p: "m_SubState p = ES_Text" and body: "list_all CSI_ValidContents body"
    and t: "CSI_ValidTerminal t" and es: "SSCSISubmit (body @ [t]) = Inr es"
  shows "\<exists>q. foldR EatByte p ([CHR 27, CHR ''[''] @ body @ [t]) = Inr q \<and> m_SubState q = ES_Text
    \<and> m_Stock q = [] \<and> m_Output q = m_Output p @ pending_text p @ emitted es"
  using p terminal_bytes [OF t] t body es
  by (simp add: EatByte_ESC EatByte_bracket foldR_append EatBytes_contents EatByte_terminal
      apply_effects_output FlushAllText_output)

lemma hand_out_empty: "m_Stock q = [] \<Longrightarrow> hand_out q = Inr (m_Output q, q\<lparr>m_Output := []\<rparr>)"
  by (simp add: hand_out_eq ScanUTF8ForValidSequenceLength_def Let_def)

text \<open>
  A complete control sequence in one read: from the \<open>Text\<close> state, the bytes \<open>ESC [\<close>, a body of
  parameter and intermediate bytes and a final byte hand out the text that was pending, then
  exactly the commands of the handler for that sequence, and leave the parser in \<open>Text\<close> with
  nothing pending.
\<close>

theorem Parse_control_sequence:
  assumes "GetEscState p = ES_Text" and "m_Output p = []"
    and "list_all CSI_ValidContents body" and "CSI_ValidTerminal t"
    and "SSCSISubmit (body @ [t]) = Inr es"
  shows "\<exists>q. Parse ([CHR 27, CHR ''[''] @ body @ [t]) p = Inr (pending_text p @ emitted es, q)
    \<and> GetEscState q = ES_Text \<and> m_Stock q = []"
  using CSI_sequence [of p body t es] assms
  by (auto simp: GetEscState_def Parse_hand_out hand_out_empty)

theorem Parse_control_sequence_witness:
  "\<exists>q. Parse ([CHR 27, CHR ''[''] @ ''?25'' @ [CHR ''l'']) (ParserImpl_init False)
     = Inr ([mk_cmd T_change_mode (P_ModeChange \<lparr>mc_mode = Mode_ShowCursor, mc_status = False\<rparr>)], q)
     \<and> GetEscState q = ES_Text \<and> m_Stock q = []"
proof -
  have es: "SSCSISubmit (''?25'' @ [CHR ''l'']) = Inr [Emit (mk_cmd T_change_mode
      (P_ModeChange \<lparr>mc_mode = Mode_ShowCursor, mc_status = False\<rparr>))]"
    by (simp add: SSCSISubmit_def CSI_handlers_def CSI_hl_def CSIParamsScanner_Parse_def
        scan_params.simps MaxParams_def from_chars_u32_def is_digit_def dec_val_def hl_effect_def
        ToModeChange_def)
  show ?thesis
    using Parse_control_sequence [OF _ _ _ _ es, of "ParserImpl_init False"]
    by (simp add: GetEscState_def ParserImpl_init_def CSI_ValidContents_def CSI_ValidTerminal_def
        pending_text_def)
qed

section \<open>Cursor position\<close>

lemma digit_valid: "is_digit c \<Longrightarrow> CSI_ValidContents c"
proof -
  assume "is_digit c"
  then have "c \<in> (char_of :: nat \<Rightarrow> char) ` {48..57}"
    by (auto simp: is_digit_def intro!: image_eqI [of _ _ "byte_val c"])
  also have "{48..57} = set [48..<58 :: nat]" unfolding set_upt by auto
  finally have "c \<in> set (map (char_of :: nat \<Rightarrow> char) [48..<58])" by simp
  then have "c \<in> set ''0123456789''"
    by (simp add: upt_rec [of _ "numeral _"] char_of_def bit_0)
  then show ?thesis
    unfolding list.set insert_iff empty_iff
    by (elim disjE FalseE) (simp_all add: CSI_ValidContents_def)
qed

lemma dec_valid: "list_all CSI_ValidContents (decimal n)"
  using dec_digits [of n] by (auto simp: list_all_iff digit_valid)

lemma sint_of_nat: "n < 2 ^ 31 \<Longrightarrow> sint (word_of_nat n :: u32) = int n"
  by (simp add: signed_of_nat signed_take_bit_int_eq_self)

lemma coordinate:
  assumes "n \<le> 2 ^ 31"
  shows "(if (word_of_nat n :: u32) > 0 then sint (word_of_nat n - 1 :: u32) else 0) = int (n - 1)"
proof (cases "n = 0")
  case True
  then show ?thesis by simp
next
  case False
  with assms have "(word_of_nat n :: u32) > 0"
    by (simp add: word_less_nat_alt unat_of_nat)
  moreover have "(word_of_nat n - 1 :: u32) = word_of_nat (n - 1)"
    using False by (simp add: of_nat_diff)
  ultimately show ?thesis using sint_of_nat [of "n - 1"] assms False by simp
qed

lemma cursor_sequence:
  assumes "r \<le> 2 ^ 31" and "c \<le> 2 ^ 31"
  defines "body \<equiv> decimal r @ CHR '';'' # decimal c"
  shows "SSCSISubmit (body @ [CHR ''H'']) =
      Inr [move_cursor Absolute (Some (int (c - 1))) (Some (int (r - 1)))]"
    and "list_all CSI_ValidContents body" "CSI_ValidTerminal CHR ''H''"
proof -
  have "CSIParamsScanner_Parse (body @ [CHR ''H'']) = [word_of_nat r, word_of_nat c]"
    unfolding CSIParamsScanner_Parse_def body_def
    using scan_params_join [of "[r, c]" "CHR ''H''" "[]" "[]"] assms(1,2)
    by (simp add: is_digit_def MaxParams_def)
  then show "SSCSISubmit (body @ [CHR ''H'']) =
      Inr [move_cursor Absolute (Some (int (c - 1))) (Some (int (r - 1)))]"
    using coordinate [OF assms(1)] coordinate [OF assms(2)]
    by (simp add: SSCSISubmit_def CSI_handlers_def CSI_H_def Let_def
        cong: if_cong split del: if_split)
  show "list_all CSI_ValidContents body" "CSI_ValidTerminal CHR ''H''"
    by (simp_all add: body_def dec_valid CSI_ValidTerminal_def CSI_ValidContents_def)
qed

text \<open>
  Cursor positioning end to end: \<open>ESC [ row ; col H\<close> hands out one absolute cursor movement to
  the zero-based coordinates, for every printed row and column up to 2147483648, with zero read
  as one.
\<close>

theorem Parse_cursor_position:
  assumes "r \<le> 2 ^ 31" and "c \<le> 2 ^ 31"
  shows "\<exists>q. Parse ([CHR 27, CHR ''[''] @ (decimal r @ CHR '';'' # decimal c) @ [CHR ''H''])
      (ParserImpl_init log)
    = Inr ([mk_cmd T_move_cursor (P_CursorMovement \<lparr>cm_positioning = Absolute,
        cm_x = Some (int (c - 1)), cm_y = Some (int (r - 1))\<rparr>)], q) \<and> GetEscState q = ES_Text"
proof -
  note cs = cursor_sequence [OF assms]
  from CSI_sequence [of "ParserImpl_init log", OF _ cs(2,3,1)] show ?thesis
    by (auto simp: GetEscState_def Parse_hand_out hand_out_empty ParserImpl_init_def
        pending_text_def move_cursor_def)
qed

theorem Parse_cursor_position_witness:
  "\<exists>q. Parse ([CHR 27, CHR ''[''] @ ''24;80'' @ [CHR ''H'']) (ParserImpl_init True)
    = Inr ([mk_cmd T_move_cursor (P_CursorMovement \<lparr>cm_positioning = Absolute,
        cm_x = Some 79, cm_y = Some 23\<rparr>)], q) \<and> GetEscState q = ES_Text"
proof -
  have "decimal 24 @ CHR '';'' # decimal 80 = ''24;80''" by (simp add: decimal.simps char_of_def bit_0)
  then show ?thesis using Parse_cursor_position [of 24 80 True] by simp
qed

section \<open>What a call can end in\<close>

lemma hand_out_ok:
  assumes "parser_ok p"
  shows "\<exists>os p'. hand_out p = Inr (os, p') \<and> list_all payload_fits os \<and> between_calls p'"
proof -
  let ?n = "ScanUTF8ForValidSequenceLength (m_Stock p)"
  let ?q = "p\<lparr>m_Stock := drop ?n (m_Stock p), m_Output := []\<rparr>"
  obtain os where h: "hand_out p = Inr (os, ?q)" and os: "list_all payload_fits os"
    using assms by (simp add: hand_out_eq Let_def parser_ok_def)
  have "parser_ok ?q" using assms by (auto simp: parser_ok_def)
  with hand_out_stock [OF h] have "between_calls ?q" by (simp add: between_calls_def)
  with h os show ?thesis by blast
qed

text \<open>
  The only fault of the parser: from any state it can be in, \<open>Parse\<close> on any bytes returns
  commands that all carry the payload their type announces, with the state invariant kept, or
  it reaches the final byte of a \<open>CSI F\<close>, \<open>CSI T\<close> or \<open>CSI Z\<close> sequence with the parameter
  2147483648, whose negation overflows \<open>int\<close>. No assertion fails, no index leaves its array and
  the loop of \<open>EatByte\<close> ends.
\<close>

theorem Parse_outcome:
  assumes "parser_ok p"
  shows "(\<exists>cs p'. Parse bs p = Inr (cs, p') \<and> list_all payload_fits cs \<and> between_calls p')
    \<or> (Parse bs p = Inl Signed_Overflow \<and>
       (\<exists>xs b ys q. bs = xs @ b # ys \<and> foldR EatByte p xs = Inr q \<and> overflows q b))"
  using EatBytes_result [OF assms, of bs]
proof (elim disjE exE conjE)
  fix p' assume "foldR EatByte p bs = Inr p'" "parser_ok p'"
  with hand_out_ok [of p'] show ?thesis by (auto simp: Parse_hand_out)
next
  fix xs b ys q
  assume "bs = xs @ b # ys" "foldR EatByte p xs = Inr q" "overflows q b"
    "foldR EatByte p bs = Inl Signed_Overflow"
  then show ?thesis unfolding Parse_hand_out by simp blast
qed

theorem Parse_outcome_witness:
  "(\<exists>cs p'. Parse ''a'' (ParserImpl_init True) = Inr (cs, p') \<and> list_all payload_fits cs
      \<and> between_calls p')
    \<or> (Parse ''a'' (ParserImpl_init True) = Inl Signed_Overflow \<and>
       (\<exists>xs b ys q. ''a'' = xs @ b # ys \<and> foldR EatByte (ParserImpl_init True) xs = Inr q
          \<and> overflows q b))"
  by (rule Parse_outcome) simp

text \<open>
  C37. The overflow is reachable: a parser in \<open>Text\<close> faults on \<open>ESC [ 2147483648 F\<close>, and likewise
  for the final bytes \<open>T\<close> and \<open>Z\<close>.
\<close>

theorem Parse_overflow_reachable:
  "\<forall>t \<in> set ''FTZ''. Parse ([CHR 27, CHR ''[''] @ decimal (2 ^ 31) @ [t]) (ParserImpl_init log)
     = Inl Signed_Overflow"
proof
  fix t assume t: "t \<in> set ''FTZ''"
  then have t': "\<not> is_digit t" by (auto simp: is_digit_def)
  let ?p = "ParserImpl_init log"
  let ?q = "?p\<lparr>m_SubState := ES_CSI, m_CSIBuffer := decimal (2 ^ 31)\<rparr>"
  have q: "foldR EatByte ?p ([CHR 27, CHR ''[''] @ decimal (2 ^ 31)) = Inr ?q"
    by (simp add: EatByte_ESC EatByte_bracket EatBytes_contents dec_valid ParserImpl_init_def
        FlushAllText_def del: power_numeral)
  have "parse_u32 (decimal (2 ^ 31) @ [t]) 1 = 0x80000000"
    using from_chars_dec [of "2 ^ 31" "[t]" 1] t' by (simp add: parse_u32_def)
  with t have "overflows ?q t" by (simp add: overflows_def)
  moreover have "parser_ok ?q"
    by (simp add: parser_ok_def ParserImpl_init_def dec_valid)
  ultimately have "EatByte ?q t = Inl Signed_Overflow" by (simp add: EatByte_overflow)
  with q show "Parse ([CHR 27, CHR ''[''] @ decimal (2 ^ 31) @ [t]) ?p = Inl Signed_Overflow"
    unfolding Parse_hand_out using foldR_append [of EatByte ?p "[CHR 27, CHR ''[''] @ decimal (2 ^ 31)" "[t]"]
    by simp
qed

theorem Parse_overflow_reachable_witness:
  "Parse ([CHR 27, CHR ''[''] @ decimal (2 ^ 31) @ [CHR ''F'']) (ParserImpl_init True)
     = Inl Signed_Overflow"
  using Parse_overflow_reachable [of True] by simp

lemma EatByte_loop_more:
  "EatByte_loop n b p \<noteq> Inl Nonterminating \<Longrightarrow> EatByte_loop (n + k) b p = EatByte_loop n b p"
proof (induction n arbitrary: p)
  case 0
  then show ?case by simp
next
  case (Suc n)
  show ?case
  proof (cases "ss_consume (m_SubState p) b p")
    case (Inr r)
    then obtain c p' where r: "r = (c, p')" by (cases r)
    show ?thesis
      using Suc.IH [of p'] Suc.prems by (auto simp: Inr r assertR_def)
  qed simp
qed

text \<open>
  C38. Termination of the \<open>while( true )\<close> of \<open>EatByte\<close>: three rounds are enough for every byte in
  every state the parser can be in, so more fuel changes nothing and the loop never starves.
\<close>

theorem EatByte_terminates:
  assumes "parser_ok p"
  shows "EatByte_loop (3 + n) b p = EatByte p b \<and> EatByte p b \<noteq> Inl Nonterminating
    \<and> EatByte p b \<noteq> Inl Assertion_Failed"
proof -
  have "EatByte p b \<noteq> Inl Nonterminating \<and> EatByte p b \<noteq> Inl Assertion_Failed"
    using EatByte_ok [OF assms] EatByte_overflow [OF assms] by (cases "overflows p b") force+
  then show ?thesis using EatByte_loop_more [of 3 b p n] by (simp add: EatByte_def)
qed

theorem EatByte_terminates_witness:
  "EatByte_loop (3 + 5) (CHR ''('') (ParserImpl_init True \<lparr>m_SubState := ES_Esc\<rparr>)
     = EatByte (ParserImpl_init True \<lparr>m_SubState := ES_Esc\<rparr>) (CHR ''('')"
  using EatByte_terminates [of "ParserImpl_init True \<lparr>m_SubState := ES_Esc\<rparr>" 5 "CHR ''(''"]
  by (simp add: parser_ok_def ParserImpl_init_def)

section \<open>Text\<close>

text \<open>
  What \<open>FlushCompleteText\<close> hands out at the end of a read: the longest prefix of the pending
  bytes that consists of complete UTF-8 sequences, as one text command; the rest stays pending,
  and nothing else of the state changes.
\<close>

theorem FlushCompleteText_longest:
  "\<exists>xs ys. m_Stock p = xs @ ys \<and> utf8_text xs
    \<and> (\<forall>us vs. ys = us @ vs \<and> us \<noteq> [] \<longrightarrow> \<not> utf8_text (xs @ us))
    \<and> FlushCompleteText p = Inr (p\<lparr>m_Stock := ys,
        m_Output := m_Output p @ (if xs = [] then [] else [text_cmd xs])\<rparr>)"
proof -
  let ?s = "m_Stock p"
  let ?n = "ScanUTF8ForValidSequenceLength ?s"
  have n: "?n \<le> length ?s" "utf8_text (take ?n ?s)"
    "\<And>m. ?n < m \<Longrightarrow> m \<le> length ?s \<Longrightarrow> \<not> utf8_text (take m ?s)"
    using scan_utf8_longest [of ?s] by (simp_all add: Scan_scan)
  have longer: "\<not> utf8_text (take ?n ?s @ us)" if "drop ?n ?s = us @ vs" "us \<noteq> []" for us vs
  proof -
    have "take ?n ?s @ us = take (?n + length us) ?s"
      using that(1) by (simp add: take_add)
    moreover have "length (drop ?n ?s) = length us + length vs" using that(1) by simp
    ultimately show ?thesis using n(1) n(3) [of "?n + length us"] that(2)
      by (cases us) auto
  qed
  have "FlushCompleteText p = Inr (p\<lparr>m_Stock := drop ?n ?s,
      m_Output := m_Output p @ (if take ?n ?s = [] then [] else [text_cmd (take ?n ?s)])\<rparr>)"
    using n(1) by (auto simp: FlushCompleteText_def Let_def emplace_back_def Scan_scan)
  with n(2) longer show ?thesis
    by (intro exI [of _ "take ?n ?s"] exI [of _ "drop ?n ?s"]) auto
qed

theorem FlushCompleteText_longest_witness:
  "\<exists>xs ys. m_Stock (ParserImpl_init True \<lparr>m_Stock := [CHR ''a'', CHR 0xD0]\<rparr>) = xs @ ys
    \<and> FlushCompleteText (ParserImpl_init True \<lparr>m_Stock := [CHR ''a'', CHR 0xD0]\<rparr>)
      = Inr (ParserImpl_init True \<lparr>m_Stock := ys,
          m_Output := (if xs = [] then [] else [text_cmd xs])\<rparr>)"
  using FlushCompleteText_longest [of "ParserImpl_init True \<lparr>m_Stock := [CHR ''a'', CHR 0xD0]\<rparr>"]
  by (auto simp: ParserImpl_init_def)

section \<open>Character attributes\<close>

text \<open>
  The specification of \<open>CSI_m\<close> as a recursion on the parameter list: an extended colour (38 or
  48) takes the parameters that follow it, four when the first of them is 2 and two otherwise,
  whether or not they are there; every other parameter stands for itself.
\<close>

definition color_spec :: "bytes \<Rightarrow> AttrKind \<Rightarrow> u32 list \<Rightarrow> effect" where
  "color_spec s mode ps = (case ps of
      [] \<Rightarrow> Complain (MissedCSI s)
    | k # vs \<Rightarrow>
        if k = 5 \<and> 1 \<le> length vs \<and> list_all (\<lambda>v. v < 256) (take 1 vs)
        then sca \<lparr>ca_mode = mode, ca_color = ucast (vs ! 0)\<rparr>
        else if k = 2 \<and> 3 \<le> length vs \<and> list_all (\<lambda>v. v < 256) (take 3 vs)
        then sca \<lparr>ca_mode = mode,
               ca_color = Color_rgb (ucast (vs ! 0)) (ucast (vs ! 1)) (ucast (vs ! 2))\<rparr>
        else Complain (MissedCSI s))"

definition plain_spec :: "bytes \<Rightarrow> u32 \<Rightarrow> effect" where
  "plain_spec s v = (case SCImToCharacterAttributes (sint v) of
      Some a \<Rightarrow> sca a | None \<Rightarrow> Complain (MissedCSI s))"

function sgr_spec :: "bytes \<Rightarrow> u32 list \<Rightarrow> effects" where
  "sgr_spec s [] = []"
| "sgr_spec s (v # vs) =
     (if v = 38 then color_spec s CA_ForegroundColor vs # sgr_spec s (drop (if take 1 vs = [2] then 4 else 2) vs)
      else if v = 48 then color_spec s CA_BackgroundColor vs # sgr_spec s (drop (if take 1 vs = [2] then 4 else 2) vs)
      else plain_spec s v # sgr_spec s vs)"
  by pat_completeness auto
termination
  by (relation "measure (\<lambda>(s, vs). length vs)") auto

lemma extended_color_drop:
  assumes "i < length p"
  shows "extended_color s p i = color_spec s
    (if p ! i = 38 then CA_ForegroundColor else CA_BackgroundColor) (drop (Suc i) p)"
proof (cases "drop (Suc i) p")
  case Nil
  then show ?thesis by (simp add: extended_color_def color_spec_def Let_def)
next
  case (Cons k vs)
  have len: "length p = Suc (Suc i) + length vs"
    using arg_cong [OF Cons, of length] assms by simp
  have nth: "p ! (i + Suc j) = (k # vs) ! j" if "j \<le> length vs" for j
    using that Cons len nth_drop [of "Suc i" p j] by simp
  have take3: "3 \<le> length vs \<Longrightarrow> take 3 vs = [vs ! 0, vs ! 1, vs ! 2]"
    and take1: "1 \<le> length vs \<Longrightarrow> take 1 vs = [vs ! 0]"
    by (cases vs; cases "tl vs"; cases "tl (tl vs)"; simp add: numeral_3_eq_3)+
  have p1: "p ! (i + 1) = k"
    and p2: "1 \<le> length vs \<Longrightarrow> p ! (i + 2) = vs ! 0"
    and p4: "3 \<le> length vs \<Longrightarrow> p ! (i + 3) = vs ! 1 \<and> p ! (i + 4) = vs ! 2"
    using nth [of 0] nth [of 1] nth [of 2] nth [of 3] by (simp_all add: numeral_eq_Suc)
  have l2: "i + 2 < length p \<longleftrightarrow> 1 \<le> length vs" and l4: "i + 4 < length p \<longleftrightarrow> 3 \<le> length vs"
    using len by linarith+
  note unfolded = extended_color_def color_spec_def Let_def Cons l2 l4 p1
  show ?thesis
  proof (cases "1 \<le> length vs")
    case True
    note one = True p2 [OF True] take1 [OF True]
    show ?thesis
    proof (cases "3 \<le> length vs")
      case True
      show ?thesis unfolding unfolded using one p4 [OF True] take3 [OF True] True by simp
    next
      case False
      show ?thesis unfolding unfolded using one False by simp
    qed
  next
    case False
    then show ?thesis unfolding unfolded by simp
  qed
qed

lemma sgr_loop_spec: "sgr_loop s p i = sgr_spec s (drop i p)"
proof (induction s p i rule: sgr_loop.induct)
  case (1 s p i)
  show ?case
  proof (cases "i < length p")
    case False
    then show ?thesis by (subst sgr_loop.simps) simp
  next
    case True
    then have d: "drop i p = p ! i # drop (Suc i) p" by (simp add: Cons_nth_drop_Suc)
    have take1: "take 1 (drop (Suc i) p) = [2] \<longleftrightarrow> i + 1 < length p \<and> p ! (i + 1) = 2"
    proof (cases "i + 1 < length p")
      case True
      then have "drop (Suc i) p = p ! (i + 1) # drop (Suc (Suc i)) p"
        by (simp add: Cons_nth_drop_Suc)
      with True show ?thesis by simp
    qed simp
    show ?thesis
    proof (cases "p ! i = 38 \<or> p ! i = 48")
      case True
      then show ?thesis
        using \<open>i < length p\<close> "1.IH"(1) take1
        by (subst sgr_loop.simps) (auto simp: d Let_def extended_color_drop add.commute)
    next
      case False
      then show ?thesis
        using \<open>i < length p\<close> "1.IH"(2)
        by (subst sgr_loop.simps) (simp add: d Let_def plain_spec_def)
    qed
  qed
qed

text \<open>
  C39. The index arithmetic of \<open>CSI_m\<close> with its look-ahead and skips computes that specification
  for every buffer, an empty parameter list read as a single zero.
\<close>

theorem CSI_m_spec:
  "CSI_m s = Inr (sgr_spec s (let ps = CSIParamsScanner_Parse s in if ps = [] then [0] else ps))"
  by (simp add: CSI_m_def Let_def sgr_loop_spec)

section \<open>Colours\<close>

text \<open>
  The three-component constructor of \<open>Color\<close> quantises correctly: equal components go to the
  24-step gray ramp, anything else to the 6x6x6 cube, the result is never one of the sixteen
  basic colours and, on the gray ramp, grows with the component.
\<close>

theorem Color_rgb_quantisation:
  "unat (Color_rgb r g b) =
     (if r = g \<and> r = b then 232 + 24 * unat r div 256
      else 16 + 36 * (unat r div 43) + 6 * (unat g div 43) + unat b div 43)
   \<and> 16 \<le> Color_rgb r g b \<and> (x \<le> y \<longrightarrow> Color_rgb x x x \<le> Color_rgb y y y)"
proof (intro conjI impI)
  show v: "unat (Color_rgb r g b) =
     (if r = g \<and> r = b then 232 + 24 * unat r div 256
      else 16 + 36 * (unat r div 43) + 6 * (unat g div 43) + unat b div 43)"
    using Color_rgb_gray [of r] Color_rgb_cube [of r g b] by auto
  show "16 \<le> Color_rgb r g b"
    unfolding word_le_nat_alt v by simp
  assume "x \<le> y"
  then show "Color_rgb x x x \<le> Color_rgb y y y"
    by (simp add: word_le_nat_alt Color_rgb_gray div_le_mono)
qed

theorem Color_rgb_quantisation_witness:
  "unat (Color_rgb 255 128 0) = 208 \<and> (Color_rgb 8 8 8 \<le> Color_rgb 200 200 200)"
  using Color_rgb_quantisation [of 255 128 0 8 200] by simp

text \<open>A session in three reads, for the claim about chunks.\<close>

theorem Parse_chunks_eq_witness:
  "\<exists>ds es p'. Parse_chunks [''a'', [CHR 27], ''7''] (ParserImpl_init True) = Inr (ds, p')
     \<and> Parse [CHR ''a'', CHR 27, CHR ''7''] (ParserImpl_init True) = Inr (es, p')
     \<and> items ds = items es"
proof -
  have "between_calls (ParserImpl_init True)"
    by (simp add: between_calls_def ParserImpl_init_def parser_ok_def Scan_scan)
  moreover have "runs_fit (length (m_Stock (ParserImpl_init True))) [CHR ''a'', CHR 27, CHR ''7'']"
    by (simp add: ParserImpl_init_def UTF8CharsStockSize_def)
  moreover have "Parse [CHR ''a'', CHR 27, CHR ''7''] (ParserImpl_init True) \<noteq> Inl f" for f
    by (simp add: Parse_hand_out hand_out_eq ParserImpl_init_def EatByte_def numeral_3_eq_3
        SSTextConsume_def SSEscConsume_def SSControlConsume_def SwitchTo_def FlushAllText_def
        ConsumeNextUTF8TextChar_def UTF8CharsStockSize_def Scan_scan DECSC_def Let_def
        emplace_back_def)
  ultimately show ?thesis
    using Parse_chunks_eq [of "ParserImpl_init True" "[''a'', [CHR 27], ''7'']"] by auto
qed

end
