(* ===== verification/TranslateMaps.thy ===== *)
theory TranslateMaps
  imports Prelude
begin

text \<open>
  The character translation tables (\<open>Source/Term/source/TranslateMaps.cpp\<close>, \<open>TranslateMaps.h\<close>):
  three maps of 256 UTF-16 units, the identity, the UK set and the DEC special graphics, and
  their application to a text (\<open>ApplyTranslateMap\<close> of \<open>InterpreterImpl.cpp\<close>).
\<close>

definition USASCII_codeset :: nat where "USASCII_codeset = 0"
definition UK_codeset :: nat where "UK_codeset = 1"
definition Graph_codeset :: nat where "Graph_codeset = 2"

definition identity_map :: "u16 list" where
  "identity_map = map word_of_nat [0..<256]"

text \<open>The entries of the graphics map that differ: 0x5f to 0x7e.\<close>

definition graph_entries :: "u16 list" where
  "graph_entries =
     [0x0020, 0x25c6, 0x2592, 0x2409, 0x240c, 0x240d, 0x240a, 0x00b0, 0x00b1, 0x2424, 0x240b,
      0x2518, 0x2510, 0x250c, 0x2514, 0x253c, 0x23ba, 0x23bb, 0x2500, 0x23bc, 0x23bd, 0x251c,
      0x2524, 0x2534, 0x252c, 0x2502, 0x2264, 0x2265, 0x03c0, 0x2260, 0x00a3, 0x00b7]"

definition g_TranslateMaps :: "u16 list list" where
  "g_TranslateMaps = [identity_map, identity_map[0x23 := 0x00a3],
     overwrite 0x5f graph_entries identity_map]"

definition ApplyTranslateMap :: "u16 list \<Rightarrow> u16 list \<Rightarrow> u16 list" where
  "ApplyTranslateMap m s = map (\<lambda>c. if c \<le> 0x7f then m ! unat c else c) s"

lemma length_identity_map [simp]: "length identity_map = 256"
  by (simp add: identity_map_def)

lemma length_maps: "m \<in> set g_TranslateMaps \<Longrightarrow> length m = 256"
  by (auto simp: g_TranslateMaps_def graph_entries_def)

lemma length_ApplyTranslateMap [simp]: "length (ApplyTranslateMap m s) = length s"
  by (simp add: ApplyTranslateMap_def)

lemma identity_map_nth: "n < 256 \<Longrightarrow> identity_map ! n = word_of_nat n"
  by (simp add: identity_map_def)

text \<open>The identity map changes nothing, as the null pointer in its place.\<close>

lemma ApplyTranslateMap_identity: "ApplyTranslateMap identity_map s = s"
proof -
  have "identity_map ! unat c = c" if "c \<le> 0x7f" for c
  proof -
    have "unat c \<le> unat (0x7f :: u16)" using that by (simp only: word_le_nat_alt)
    then show ?thesis by (simp add: identity_map_nth)
  qed
  then show ?thesis unfolding ApplyTranslateMap_def by (intro map_idI) simp
qed

end
