(* ===== verification/CharRegistry.thy ===== *)
theory CharRegistry
  imports Prelude
begin

unbundle bit_operations_syntax

text \<open>
  The registry of composed characters (\<open>ExtendedCharRegistry\<close> in
  \<open>Source/Term/source/ExtendedCharRegistry.mm\<close> and its header): a grapheme of several UTF-16
  units is stored once and stands in the screen as a code with the top bit set. The functions of
  Core Foundation it calls, and the width table of \<open>CharInfo\<close>, are parameters.
\<close>

section \<open>Core Foundation\<close>

record CF =
  cf_valid :: "u16 list \<Rightarrow> bool"          \<comment> \<open>\<open>CFStringCreateWithCharactersNoCopy\<close> is not null\<close>
  cf_grapheme :: "u16 list \<Rightarrow> nat"        \<comment> \<open>\<open>CFStringGetRangeOfComposedCharactersAtIndex(s, 0).length\<close>\<close>
  cf_is_high :: "u16 \<Rightarrow> bool"             \<comment> \<open>\<open>CFStringIsSurrogateHighCharacter\<close>\<close>
  cf_is_low :: "u16 \<Rightarrow> bool"              \<comment> \<open>\<open>CFStringIsSurrogateLowCharacter\<close>\<close>
  cf_long :: "u16 \<Rightarrow> u16 \<Rightarrow> u32"          \<comment> \<open>\<open>CFStringGetLongCharacterForSurrogatePair\<close>\<close>
  cf_units :: "u32 \<Rightarrow> u16 list"           \<comment> \<open>what \<open>CFStringGetSurrogatePairForLongCharacter\<close> writes\<close>
  cf_width :: "u32 \<Rightarrow> nat"                \<comment> \<open>\<open>CharInfo::WCWidthMin1\<close>\<close>
  cf_utf16 :: "bytes \<Rightarrow> u16 list option"  \<comment> \<open>a \<open>CFString\<close> from UTF-8 and its units\<close>

text \<open>
  What the code relies on: a composed sequence is never empty and within its string, stands alone
  as one sequence, and is not broken by what follows it; a single character is one sequence. How long
  a sequence may get is not limited.
\<close>

definition cf_ok :: "CF \<Rightarrow> bool" where
  "cf_ok cf \<longleftrightarrow> (\<forall>s. cf_valid cf s)
     \<and> (\<forall>s. s \<noteq> [] \<longrightarrow> 1 \<le> cf_grapheme cf s \<and> cf_grapheme cf s \<le> length s)
     \<and> (\<forall>s. s \<noteq> [] \<longrightarrow> cf_grapheme cf (take (cf_grapheme cf s) s) = cf_grapheme cf s)
     \<and> (\<forall>s t. s \<noteq> [] \<longrightarrow> cf_grapheme cf s = length s \<longrightarrow> length s \<le> cf_grapheme cf (s @ t))
     \<and> (\<forall>c. length (cf_units cf c) \<in> {1, 2} \<and> cf_grapheme cf (cf_units cf c) = length (cf_units cf c))
     \<and> (\<forall>b s. cf_utf16 cf b = Some s \<longrightarrow> length s \<le> length b)"

section \<open>The registry\<close>

record ExtendedChar =
  ec_str :: "u16 list"
  ec_double_width :: bool    \<comment> \<open>the \<open>DoubleWidth\<close> bit of \<open>flags\<close>\<close>

record Registry =
  m_Chars :: "ExtendedChar list"
  m_Lookup :: "nat list"     \<comment> \<open>the elements of the hash set\<close>

definition Registry_init :: Registry where
  "Registry_init = \<lparr>m_Chars = [], m_Lookup = []\<rparr>"

definition g_MaxGraphemeLen :: nat where "g_MaxGraphemeLen = 64"

definition IsBase :: "u32 \<Rightarrow> bool" where
  "IsBase c \<longleftrightarrow> c AND push_bit 31 1 = 0"

definition IsExtended :: "u32 \<Rightarrow> bool" where
  "IsExtended c \<longleftrightarrow> c AND push_bit 31 1 \<noteq> 0"

definition ToExtIdx :: "u32 \<Rightarrow> u32 res" where
  "ToExtIdx c = bindR (assertR (IsExtended c)) (\<lambda>_. Inr (c AND NOT (push_bit 31 1)))"

definition ToExtChar :: "u32 \<Rightarrow> u32" where
  "ToExtChar idx = idx OR push_bit 31 1"

definition IsPotentiallyComposableCharacter :: "u16 \<Rightarrow> bool" where
  "IsPotentiallyComposableCharacter c \<longleftrightarrow>
     list_ex (\<lambda>(first, last). first \<le> c \<and> c \<le> last)
       [(0x0300, 0x036F), (0x1AB0, 0x1AFF), (0x1DC0, 0x1DFF), (0x2000, 0x206F),
        (0x20D0, 0x20FF), (0xD800, 0xDFFF), (0xFE00, 0xFE0F), (0xFE20, 0xFE2F)]"

text \<open>The constructor of \<open>ExtendedChar\<close>: the variation selectors decide when the width does not.\<close>

fun variation_width :: "u16 list \<Rightarrow> bool" where
  "variation_width [] = False"
| "variation_width (c # cs) =
     (if c = 0xFE0F then True else if c = 0xFE0E then False else variation_width cs)"

definition ExtendedChar_new :: "CF \<Rightarrow> u16 list \<Rightarrow> ExtendedChar res" where
  "ExtendedChar_new cf s = bindR (assertR (s \<noteq> [])) (\<lambda>_.
     let c0 = hd s; c1 = (if length s > 1 then s ! 1 else 0);
         utf32 = (if cf_is_high cf c0 \<and> cf_is_low cf c1 then cf_long cf c0 c1 else ucast c0);
         is_double_width = (cf_width cf utf32 = 2) in
     Inr \<lparr>ec_str = s, ec_double_width = (if \<not> is_double_width then variation_width s else True)\<rparr>)"

definition FindOrAdd :: "CF \<Rightarrow> u16 list \<Rightarrow> Registry \<Rightarrow> (u32 \<times> Registry) res" where
  "FindOrAdd cf s r = bindR (assertR (length s > 1)) (\<lambda>_.
     case find (\<lambda>i. ec_str (m_Chars r ! i) = s) (m_Lookup r) of
       Some i \<Rightarrow> Inr (word_of_nat i, r)
     | None \<Rightarrow> let idx = length (m_Chars r) in
         bindR (ExtendedChar_new cf s) (\<lambda>ec.
         Inr (word_of_nat idx, r\<lparr>m_Chars := m_Chars r @ [ec], m_Lookup := m_Lookup r @ [idx]\<rparr>)))"

section \<open>Composition\<close>

text \<open>The common end of both paths with an initial character: \<open>buf\<close> starts with its units.\<close>

definition compose :: "CF \<Rightarrow> u16 list \<Rightarrow> nat \<Rightarrow> u32 \<Rightarrow> u16 list \<Rightarrow> Registry \<Rightarrow>
    ((u32 \<times> nat) \<times> Registry) res" where
  "compose cf buf initial_len initial input r =
     (if \<not> cf_valid cf buf then Inr ((initial, length input), r)
      else let grapheme_len = cf_grapheme cf buf in
        bindR (assertR (grapheme_len \<ge> initial_len)) (\<lambda>_.
        if grapheme_len = initial_len then Inr ((initial, 0), r)
        else if grapheme_len > length buf then Inl Out_Of_Bounds
        else bindR (FindOrAdd cf (take grapheme_len buf) r) (\<lambda>(idx, r).
          Inr ((ToExtChar idx, grapheme_len - initial_len), r))))"

definition fast_path :: "u16 list \<Rightarrow> bool" where
  "fast_path input \<longleftrightarrow>
     (if length input > 1 then \<not> IsPotentiallyComposableCharacter (input ! 1)
        \<and> \<not> IsPotentiallyComposableCharacter (input ! 0)
      else length input = 1 \<and> \<not> IsPotentiallyComposableCharacter (input ! 0))"

text \<open>
  \<open>Append\<close>: the new character, the number of units eaten, and the registry. Copying more than
  the buffer holds is a fault.
\<close>

definition Append :: "CF \<Rightarrow> u16 list \<Rightarrow> u32 \<Rightarrow> Registry \<Rightarrow> ((u32 \<times> nat) \<times> Registry) res" where
  "Append cf input initial r =
     (if input = [] then Inr ((initial, 0), r)
      else if fast_path input then
        Inr ((if initial = 0 then (ucast (input ! 0), 1) else (initial, 0)), r)
      else if initial = 0 then
        (if \<not> cf_valid cf input then Inr ((initial, length input), r)
         else let grapheme_len = cf_grapheme cf input in
           if grapheme_len = 1 then Inr ((ucast (input ! 0), 1), r)
           else if grapheme_len = 2 \<and> cf_is_high cf (input ! 0) \<and> cf_is_low cf (input ! 1)
           then Inr ((cf_long cf (input ! 0) (input ! 1), 2), r)
           else bindR (FindOrAdd cf (take grapheme_len input) r) (\<lambda>(idx, r).
             Inr ((ToExtChar idx, grapheme_len), r)))
      else if IsBase initial then
        let units = cf_units cf initial; initial_len = length units;
            input_len = min (length input) (g_MaxGraphemeLen - initial_len) in
        compose cf (units @ take input_len input) initial_len initial input r
      else bindR (ToExtIdx initial) (\<lambda>idx.
        if unat idx \<ge> length (m_Chars r) then Inr ((initial, 0), r)
        else let str = ec_str (m_Chars r ! unat idx); initial_len = length str in
          if initial_len = g_MaxGraphemeLen then Inr ((initial, 0), r)
          else if initial_len > g_MaxGraphemeLen then Inl Out_Of_Bounds
          else let input_len = min (length input) (g_MaxGraphemeLen - initial_len) in
            compose cf (str @ take input_len input) initial_len initial input r))"

definition IsDoubleWidth :: "CF \<Rightarrow> Registry \<Rightarrow> u32 \<Rightarrow> bool" where
  "IsDoubleWidth cf r c =
     (if IsBase c then cf_width cf c = 2
      else let idx = unat (c AND NOT (push_bit 31 1)) in
        if idx \<ge> length (m_Chars r) then False else ec_double_width (m_Chars r ! idx))"

definition Decode :: "Registry \<Rightarrow> u32 \<Rightarrow> u16 list option" where
  "Decode r c =
     (if IsBase c then None
      else let idx = unat (c AND NOT (push_bit 31 1)) in
        if idx \<ge> length (m_Chars r) then None else Some (ec_str (m_Chars r ! idx)))"

text \<open>
  The buffers of \<open>Append\<close> hold 64 units. A text whose composed sequences all fit into them: the rule
  is checked at every position, as the loop over the text may start a sequence anywhere.
\<close>

definition short_sequences :: "CF \<Rightarrow> u16 list \<Rightarrow> bool" where
  "short_sequences cf input \<longleftrightarrow>
     list_all (\<lambda>k. cf_grapheme cf (drop k input) \<le> g_MaxGraphemeLen) [0..<length input]"

lemma short_sequences_drop:
  assumes "short_sequences cf input" shows "short_sequences cf (drop j input)"
proof -
  have "cf_grapheme cf (drop k (drop j input)) \<le> g_MaxGraphemeLen" if "k < length (drop j input)" for k
    using assms that by (auto simp: short_sequences_def list_all_iff)
  then show ?thesis by (simp add: short_sequences_def list_all_iff)
qed

lemma short_sequences_first:
  "short_sequences cf input \<Longrightarrow> input \<noteq> [] \<Longrightarrow> cf_grapheme cf input \<le> g_MaxGraphemeLen"
  by (force simp: short_sequences_def list_all_iff)

text \<open>Every text of up to 64 units is one.\<close>

lemma short_text:
  assumes "cf_ok cf" "length input \<le> g_MaxGraphemeLen" shows "short_sequences cf input"
proof -
  have "cf_grapheme cf (drop k input) \<le> g_MaxGraphemeLen" if "k < length input" for k
  proof -
    have "drop k input \<noteq> []" using that by simp
    then have "cf_grapheme cf (drop k input) \<le> length (drop k input)"
      using assms(1) unfolding cf_ok_def by blast
    with assms(2) show ?thesis by simp
  qed
  then show ?thesis by (simp add: short_sequences_def list_all_iff)
qed

section \<open>Codes\<close>

lemma ToExtChar_extended: "\<not> IsBase (ToExtChar idx)" "IsExtended (ToExtChar idx)"
proof -
  have b: "bit (ToExtChar idx AND push_bit 31 1) 31"
    by (simp add: ToExtChar_def bit_simps)
  have "ToExtChar idx AND push_bit 31 1 \<noteq> 0"
  proof
    assume "ToExtChar idx AND push_bit 31 1 = 0"
    with b show False by (simp only: bit_0_eq bot_apply bot_bool_def)
  qed
  then show "\<not> IsBase (ToExtChar idx)" "IsExtended (ToExtChar idx)"
    by (simp_all add: IsBase_def IsExtended_def)
qed

lemma ToExtChar_index:
  assumes "i < 2 ^ 31"
  shows "unat (ToExtChar (word_of_nat i) AND NOT (push_bit 31 1) :: u32) = i"
proof -
  have "\<not> bit i 31" using assms by (simp add: bit_iff_odd)
  then have "\<not> bit (word_of_nat i :: u32) 31" by (simp add: bit_of_nat_iff)
  moreover define m :: u32 where "m = push_bit 31 1"
  have "bit m n \<longleftrightarrow> n = 31" for n
    unfolding m_def bit_push_bit_iff by (auto simp: bit_1_iff)
  ultimately have "(word_of_nat i OR m) AND NOT m = word_of_nat i"
    by (intro bit_word_eqI) (auto simp: bit_or_iff bit_and_iff bit_not_iff)
  then show ?thesis using assms unfolding ToExtChar_def m_def by (simp add: unat_of_nat)
qed

lemma IsExtended_iff: "IsExtended c \<longleftrightarrow> \<not> IsBase c"
  by (simp add: IsExtended_def IsBase_def)

section \<open>Invariant\<close>

text \<open>Every stored string is one composed sequence of 2 to 64 units.\<close>

definition registry_ok :: "CF \<Rightarrow> Registry \<Rightarrow> bool" where
  "registry_ok cf r \<longleftrightarrow> list_all (\<lambda>e. 1 < length (ec_str e) \<and> length (ec_str e) \<le> g_MaxGraphemeLen
       \<and> cf_grapheme cf (ec_str e) = length (ec_str e)) (m_Chars r)
     \<and> list_all (\<lambda>i. i < length (m_Chars r)) (m_Lookup r)"

lemma registry_ok_init: "registry_ok cf Registry_init"
  by (simp add: registry_ok_def Registry_init_def)

lemma FindOrAdd_ok:
  assumes ok: "registry_ok cf r" and s: "1 < length s" "length s \<le> g_MaxGraphemeLen"
    "cf_grapheme cf s = length s"
  shows "\<exists>i r'. FindOrAdd cf s r = Inr (word_of_nat i, r') \<and> i < length (m_Chars r')
    \<and> ec_str (m_Chars r' ! i) = s \<and> registry_ok cf r' \<and> length (m_Chars r') \<le> Suc (length (m_Chars r))
    \<and> take (length (m_Chars r)) (m_Chars r') = m_Chars r"
proof (cases "find (\<lambda>i. ec_str (m_Chars r ! i) = s) (m_Lookup r)")
  case None
  obtain ec where ec: "ExtendedChar_new cf s = Inr ec" "ec_str ec = s"
  proof -
    have "s \<noteq> []" using s(1) by auto
    then show thesis using that by (auto simp: ExtendedChar_new_def Let_def)
  qed
  let ?r = "r\<lparr>m_Chars := m_Chars r @ [ec], m_Lookup := m_Lookup r @ [length (m_Chars r)]\<rparr>"
  have "FindOrAdd cf s r = Inr (word_of_nat (length (m_Chars r)), ?r)"
    using None ec s by (simp add: FindOrAdd_def Let_def)
  moreover have "registry_ok cf ?r"
    using ok ec s by (auto simp: registry_ok_def list_all_iff)
  ultimately show ?thesis
    using ec(2) by (intro exI [of _ "length (m_Chars r)"] exI [of _ ?r]) simp
next
  case (Some i)
  then have "i \<in> set (m_Lookup r)" "ec_str (m_Chars r ! i) = s"
    by (auto simp: find_Some_iff)
  with Some ok s show ?thesis
    by (auto simp: FindOrAdd_def registry_ok_def list_all_iff)
qed

section \<open>The contract with the interpreter\<close>

text \<open>
  What a consumer of text relies on: without an initial character something is eaten of a text that
  fits, never more than there is, and with one either nothing is eaten or the character becomes another.
  \<open>inv n\<close> is the invariant with room for \<open>n\<close> more calls.
\<close>

locale char_registry =
  fixes append :: "u16 list \<Rightarrow> u32 \<Rightarrow> 'r \<Rightarrow> ((u32 \<times> nat) \<times> 'r) res"
    and inv :: "nat \<Rightarrow> 'r \<Rightarrow> bool"
    and fits :: "u16 list \<Rightarrow> bool"
  assumes append_fresh: "inv (Suc n) r \<Longrightarrow> input \<noteq> [] \<Longrightarrow> fits input \<Longrightarrow>
      \<exists>ch k r'. append input 0 r = Inr ((ch, k), r') \<and> 0 < k \<and> k \<le> length input \<and> inv n r'"
    and append_to: "inv (Suc n) r \<Longrightarrow> input \<noteq> [] \<Longrightarrow> c \<noteq> 0 \<Longrightarrow>
      \<exists>ch k r'. append input c r = Inr ((ch, k), r') \<and> k \<le> length input
        \<and> (k \<noteq> 0 \<longrightarrow> ch \<noteq> c) \<and> inv n r'"
    and inv_mono: "inv (Suc n) r \<Longrightarrow> inv n r"
    and fits_drop: "fits input \<Longrightarrow> fits (drop k input)"
begin

lemma inv_less: "inv m r \<Longrightarrow> n \<le> m \<Longrightarrow> inv n r"
  by (induction m) (auto simp: le_Suc_eq dest: inv_mono)

text \<open>
  A loop that takes characters off the front of a text and hands each to a client step: it ends
  within as many rounds as there are units, whatever the client does with the characters, if the
  client's step has no fault and keeps its invariant.
\<close>

fun each_char :: "nat \<Rightarrow> (u32 \<Rightarrow> 'r \<Rightarrow> 'c \<Rightarrow> 'c res) \<Rightarrow> u16 list \<Rightarrow> 'r \<Rightarrow> 'c \<Rightarrow> ('r \<times> 'c) res" where
  "each_char fuel f input r c =
     (if input = [] then Inr (r, c)
      else case fuel of 0 \<Rightarrow> Inl Nonterminating
        | Suc n \<Rightarrow> bindR (append input 0 r) (\<lambda>((ch, k), r').
            bindR (assertR (k \<le> length input)) (\<lambda>_.
            bindR (if ch = 0 then Inr c else f ch r' c) (\<lambda>c'. each_char n f (drop k input) r' c'))))"

declare each_char.simps [simp del]

lemma each_char_ends:
  assumes step: "\<And>ch n r c. ch \<noteq> 0 \<Longrightarrow> inv n r \<Longrightarrow> P c \<Longrightarrow> \<exists>c'. f ch r c = Inr c' \<and> P c'"
  shows "inv (length input + n) r \<Longrightarrow> length input \<le> fuel \<Longrightarrow> P c \<Longrightarrow> fits input \<Longrightarrow>
    \<exists>r' c'. each_char fuel f input r c = Inr (r', c') \<and> inv n r' \<and> P c'"
proof (induction fuel arbitrary: input r c)
  case 0
  then show ?case by (simp add: each_char.simps)
next
  case (Suc fuel)
  show ?case
  proof (cases "input = []")
    case True
    with Suc.prems show ?thesis by (simp add: each_char.simps)
  next
    case False
    then obtain m where m: "length input + n = Suc m" by (cases input) auto
    from append_fresh [of m r input] False Suc.prems(1,4) m obtain ch k r' where a:
      "append input 0 r = Inr ((ch, k), r')" "0 < k" "k \<le> length input" "inv m r'" by auto
    have "length (drop k input) + n \<le> m" using a(2,3) m by simp
    then have inv': "inv (length (drop k input) + n) r'" using inv_less a(4) by blast
    obtain c' where c': "(if ch = 0 then Inr c else f ch r' c) = Inr c'" "P c'"
      using step [of ch _ r' c] a(4) Suc.prems(3) by (cases "ch = 0") auto
    have "length (drop k input) \<le> fuel" using a(2) Suc.prems(2) by simp
    from Suc.IH [OF inv' this c'(2) fits_drop [OF Suc.prems(4)]] a c' False show ?thesis
      by (subst each_char.simps) simp
  qed
qed

end

text \<open>
  Functions of Core Foundation that behave as the code relies on, for two ideas of what composes:
  nothing does, or a character is continued by the combining marks, variation selectors and low
  surrogates that follow it.
\<close>

definition simple_cf :: CF where
  "simple_cf = \<lparr>cf_valid = (\<lambda>_. True), cf_grapheme = (\<lambda>s. min 1 (length s)),
     cf_is_high = (\<lambda>c. 0xD800 \<le> c \<and> c \<le> 0xDBFF), cf_is_low = (\<lambda>c. 0xDC00 \<le> c \<and> c \<le> 0xDFFF),
     cf_long = (\<lambda>h l. push_bit 10 (ucast h - 0xD800) + (ucast l - 0xDC00) + 0x10000),
     cf_units = (\<lambda>c. [ucast c]), cf_width = (\<lambda>_. 1), cf_utf16 = (\<lambda>b. Some (map of_char b))\<rparr>"

definition continues :: "u16 \<Rightarrow> bool" where
  "continues c \<longleftrightarrow> 0x0300 \<le> c \<and> c \<le> 0x036F \<or> 0xFE00 \<le> c \<and> c \<le> 0xFE0F \<or> 0xDC00 \<le> c \<and> c \<le> 0xDFFF"

fun composed_length :: "u16 list \<Rightarrow> nat" where
  "composed_length [] = 0"
| "composed_length (c # cs) = Suc (length (takeWhile continues cs))"

definition surrogates :: "u32 \<Rightarrow> u16 list" where
  "surrogates c = (if c < 0x10000 then [ucast c]
     else [ucast (0xD800 + drop_bit 10 (c - 0x10000)), 0xDC00 + ucast (c AND 0x3FF)])"

text \<open>One-byte sequences of UTF-8, and the two-byte ones, where the combining marks are.\<close>

fun utf16_of :: "bytes \<Rightarrow> u16 list option" where
  "utf16_of [] = Some []"
| "utf16_of (b # bs) = (let v = of_char b :: u16 in
     if v < 0x80 then map_option (Cons v) (utf16_of bs)
     else case bs of [] \<Rightarrow> None
       | c # cs \<Rightarrow> if v AND 0xE0 = 0xC0 \<and> (of_char c AND 0xC0 :: u16) = 0x80
           then map_option (Cons (push_bit 6 (v AND 0x1F) OR (of_char c AND 0x3F))) (utf16_of cs)
           else None)"

definition composing_cf :: CF where
  "composing_cf = simple_cf\<lparr>cf_grapheme := composed_length, cf_units := surrogates, cf_utf16 := utf16_of\<rparr>"

lemma simple_cf_ok: "cf_ok simple_cf"
proof -
  have one: "min 1 (length s) = 1" if "s \<noteq> []" for s :: "u16 list" using that by (cases s) auto
  show ?thesis
    using one by (auto simp: cf_ok_def simple_cf_def Suc_le_eq)
qed

lemma composed_length_alone: "composed_length (take (composed_length s) s) = composed_length s"
proof (cases s)
  case (Cons c cs)
  have "take (length (takeWhile continues cs)) cs = takeWhile continues cs"
    by (metis append_eq_conv_conj takeWhile_dropWhile_id)
  then show ?thesis by (simp add: Cons takeWhile_idem)
qed simp

lemma low_surrogate: "continues (0xDC00 + ucast ((c :: u32) AND 0x3FF))"
proof -
  have "unat (c AND 0x3FF) \<le> 0x3FF" using word_and_le1 [of c "0x3FF"] by (simp add: word_le_nat_alt)
  moreover from this have "unat (ucast (c AND 0x3FF) :: u16) = unat (c AND 0x3FF)"
    by (simp add: unsigned_ucast_eq take_bit_nat_eq_self)
  ultimately have l: "unat (ucast (c AND 0x3FF) :: u16) \<le> 0x3FF" by simp
  then have "unat (0xDC00 + ucast (c AND 0x3FF) :: u16) = 0xDC00 + unat (ucast (c AND 0x3FF) :: u16)"
    by (subst unat_add_lem [THEN iffD1]) simp_all
  with l show ?thesis by (simp add: continues_def word_le_nat_alt)
qed

lemma surrogates_length: "length (surrogates c) \<in> {1, 2}"
  "composed_length (surrogates c) = length (surrogates c)"
  using low_surrogate [of c] by (simp_all add: surrogates_def)

lemma utf16_of_length: "utf16_of b = Some s \<Longrightarrow> length s \<le> length b"
  by (induction b arbitrary: s rule: utf16_of.induct)
    (fastforce simp: Let_def split: if_splits list.splits)+

lemma composing_cf_ok: "cf_ok composing_cf"
proof -
  have "1 \<le> composed_length s \<and> composed_length s \<le> length s" if "s \<noteq> []" for s
    using that length_takeWhile_le [of continues "tl s"] by (cases s) simp_all
  moreover have "length s \<le> composed_length (s @ t)" if "s \<noteq> []" "composed_length s = length s" for s t
  proof -
    from that obtain c cs where s: "s = c # cs" by (cases s) auto
    with that(2) have "takeWhile continues cs = cs"
      by (metis Suc_inject append_Nil2 append_eq_append_conv composed_length.simps(2) length_Cons
          takeWhile_dropWhile_id)
    then have "\<forall>x \<in> set cs. continues x" by (simp add: takeWhile_eq_all_conv)
    then have "takeWhile continues (cs @ t) = cs @ takeWhile continues t" by (simp add: takeWhile_append2)
    then show ?thesis by (simp add: s)
  qed
  ultimately show ?thesis
    using composed_length_alone surrogates_length utf16_of_length
    by (simp add: cf_ok_def composing_cf_def simple_cf_def)
qed

typedef lawful_cf = "{cf. cf_ok cf}"
  using simple_cf_ok by blast

lemma lawful: "cf_ok (Rep_lawful_cf x)"
  using Rep_lawful_cf [of x] by simp

definition reg_inv :: "CF \<Rightarrow> nat \<Rightarrow> Registry \<Rightarrow> bool" where
  "reg_inv cf n r \<longleftrightarrow> registry_ok cf r \<and> length (m_Chars r) + n < 2 ^ 31"

section \<open>The registry keeps the contract\<close>

text \<open>The units of a known initial character, with what the laws say of a longer sequence.\<close>

lemma compose_ok:
  assumes cf: "cf_ok cf" and inv: "reg_inv cf (Suc n) r"
    and units: "units \<noteq> []" "cf_grapheme cf units = length units"
    and room: "length units + m \<le> g_MaxGraphemeLen"
    and new: "\<And>i (r' :: Registry). i < length (m_Chars r') \<Longrightarrow> i < 2 ^ 31 \<Longrightarrow>
      take (length (m_Chars r)) (m_Chars r') = m_Chars r \<Longrightarrow>
      length units < length (ec_str (m_Chars r' ! i)) \<Longrightarrow> ToExtChar (word_of_nat i) \<noteq> c"
  shows "\<exists>ch k r'. compose cf (units @ take m input) (length units) c input r = Inr ((ch, k), r')
    \<and> k \<le> length input \<and> (k \<noteq> 0 \<longrightarrow> ch \<noteq> c) \<and> reg_inv cf n r'"
proof -
  let ?buf = "units @ take m input" and ?g = "cf_grapheme cf (units @ take m input)"
  have g: "length units \<le> ?g" "?g \<le> length ?buf" "cf_grapheme cf (take ?g ?buf) = ?g"
    and valid: "cf_valid cf ?buf"
    using cf units unfolding cf_ok_def by blast+
  have short: "?g \<le> g_MaxGraphemeLen" using g(2) room by simp
  show ?thesis
  proof (cases "?g = length units")
    case True
    with valid inv show ?thesis by (auto simp: compose_def reg_inv_def)
  next
    case False
    let ?s = "take ?g ?buf"
    have len: "length ?s = ?g" using g(2) by simp
    have "1 < length ?s" "length ?s \<le> g_MaxGraphemeLen" "cf_grapheme cf ?s = length ?s"
      using g short False units(1) len by (cases units; simp)+
    from FindOrAdd_ok [OF _ this] inv obtain i r' where f:
      "FindOrAdd cf ?s r = Inr (word_of_nat i, r')" "i < length (m_Chars r')"
      "ec_str (m_Chars r' ! i) = ?s" "registry_ok cf r'"
      "length (m_Chars r') \<le> Suc (length (m_Chars r))"
      "take (length (m_Chars r)) (m_Chars r') = m_Chars r"
      unfolding reg_inv_def by blast
    have "i < 2 ^ 31" using f(2,5) inv by (simp add: reg_inv_def)
    moreover have "length units < length (ec_str (m_Chars r' ! i))"
      unfolding f(3) len using g(1) False by simp
    ultimately have "ToExtChar (word_of_nat i) \<noteq> c" using new f(2,6) by blast
    moreover have "compose cf ?buf (length units) c input r
        = Inr ((ToExtChar (word_of_nat i), ?g - length units), r')"
      using valid g False f(1) by (simp add: compose_def Let_def)
    moreover have "?g - length units \<le> length input" using g(2) by simp
    moreover have "reg_inv cf n r'" using f(4,5) inv by (simp add: reg_inv_def)
    ultimately show ?thesis by blast
  qed
qed

lemma Append_to_ok:
  assumes cf: "cf_ok cf" and inv: "reg_inv cf (Suc n) r"
    and input: "input \<noteq> []" and c: "c \<noteq> 0"
  shows "\<exists>ch k r'. Append cf input c r = Inr ((ch, k), r') \<and> k \<le> length input
    \<and> (k \<noteq> 0 \<longrightarrow> ch \<noteq> c) \<and> reg_inv cf n r'"
proof -
  have inv': "reg_inv cf n r" using inv by (simp add: reg_inv_def)
  consider "fast_path input" | "\<not> fast_path input" "IsBase c" | "\<not> fast_path input" "\<not> IsBase c"
    by blast
  then show ?thesis
  proof cases
    case 1
    with input c inv' show ?thesis by (simp add: Append_def)
  next
    case 2
    have "length (cf_units cf c) \<in> {1, 2}" "cf_grapheme cf (cf_units cf c) = length (cf_units cf c)"
      using cf unfolding cf_ok_def by blast+
    moreover have "cf_units cf c \<noteq> []" using \<open>length (cf_units cf c) \<in> {1, 2}\<close> by auto
    moreover have "ToExtChar w \<noteq> c" for w using 2(2) ToExtChar_extended(1) by metis
    ultimately have "\<exists>ch k r'. compose cf (cf_units cf c @ take m input) (length (cf_units cf c)) c input r
        = Inr ((ch, k), r') \<and> k \<le> length input \<and> (k \<noteq> 0 \<longrightarrow> ch \<noteq> c) \<and> reg_inv cf n r'"
      if "length (cf_units cf c) + m \<le> g_MaxGraphemeLen" for m
      using that by (intro compose_ok [OF cf inv]) blast+
    from this [of "min (length input) (g_MaxGraphemeLen - length (cf_units cf c))"]
      \<open>length (cf_units cf c) \<in> {1, 2}\<close>
    have "\<exists>ch k r'. compose cf (cf_units cf c @ take (min (length input)
          (g_MaxGraphemeLen - length (cf_units cf c))) input) (length (cf_units cf c)) c input r
        = Inr ((ch, k), r') \<and> k \<le> length input \<and> (k \<noteq> 0 \<longrightarrow> ch \<noteq> c) \<and> reg_inv cf n r'"
      by (auto simp: g_MaxGraphemeLen_def)
    with 2 input c show ?thesis by (simp add: Append_def Let_def)
  next
    case 3
    let ?j = "unat (c AND NOT (push_bit 31 1))"
    have idx: "ToExtIdx c = Inr (c AND NOT (push_bit 31 1))"
      using 3 by (simp add: ToExtIdx_def IsExtended_iff)
    show ?thesis
    proof (cases "?j < length (m_Chars r) \<and> length (ec_str (m_Chars r ! ?j)) \<noteq> g_MaxGraphemeLen")
      case False
      then show ?thesis using 3 input c idx inv' by (auto simp: Append_def Let_def not_less)
    next
      case True
      let ?s = "ec_str (m_Chars r ! ?j)"
      have "m_Chars r ! ?j \<in> set (m_Chars r)" using True by simp
      then have s: "1 < length ?s" "length ?s \<le> g_MaxGraphemeLen" "cf_grapheme cf ?s = length ?s"
        using inv unfolding reg_inv_def registry_ok_def list_all_iff by blast+
      have new: "ToExtChar (word_of_nat i) \<noteq> c"
        if i: "i < 2 ^ 31" and r': "take (length (m_Chars r)) (m_Chars r') = m_Chars r"
          and len: "length ?s < length (ec_str (m_Chars r' ! i))" for i and r' :: Registry
      proof
        assume "ToExtChar (word_of_nat i) = c"
        then have "i = ?j" using ToExtChar_index [OF i] by simp
        moreover have "m_Chars r' ! ?j = m_Chars r ! ?j"
          using True arg_cong [OF r', of "\<lambda>xs. xs ! ?j"] by simp
        ultimately show False using len by simp
      qed
      have "?s \<noteq> []" using s(1) by auto
      then have "\<exists>ch k r'. compose cf (?s @ take m input) (length ?s) c input r = Inr ((ch, k), r')
          \<and> k \<le> length input \<and> (k \<noteq> 0 \<longrightarrow> ch \<noteq> c) \<and> reg_inv cf n r'"
        if "length ?s + m \<le> g_MaxGraphemeLen" for m
        using that by (intro compose_ok [OF cf inv] s(3) new) assumption+
      from this [of "min (length input) (g_MaxGraphemeLen - length ?s)"] s(2)
      have "\<exists>ch k r'. compose cf (?s @ take (min (length input) (g_MaxGraphemeLen - length ?s)) input)
          (length ?s) c input r = Inr ((ch, k), r')
          \<and> k \<le> length input \<and> (k \<noteq> 0 \<longrightarrow> ch \<noteq> c) \<and> reg_inv cf n r'" by simp
      then show ?thesis using 3 input c idx True s(2) by (simp add: Append_def Let_def)
    qed
  qed
qed

lemma Append_fresh_ok:
  assumes cf: "cf_ok cf" and inv: "reg_inv cf (Suc n) r" and input: "input \<noteq> []"
    and short: "short_sequences cf input"
  shows "\<exists>ch k r'. Append cf input 0 r = Inr ((ch, k), r') \<and> 0 < k \<and> k \<le> length input
    \<and> reg_inv cf n r'"
proof -
  let ?g = "cf_grapheme cf input"
  have inv': "reg_inv cf n r" using inv by (simp add: reg_inv_def)
  have g: "1 \<le> ?g" "?g \<le> length input" "cf_grapheme cf (take ?g input) = ?g"
    and valid: "cf_valid cf input"
    using cf input unfolding cf_ok_def by blast+
  note first = short_sequences_first [OF short input]
  show ?thesis
  proof (cases "fast_path input \<or> ?g = 1 \<or> (?g = 2 \<and> cf_is_high cf (input ! 0) \<and> cf_is_low cf (input ! 1))")
    case True
    with input valid inv' g show ?thesis by (auto simp: Append_def Let_def Suc_le_eq)
  next
    case False
    let ?s = "take ?g input"
    have "1 < length ?s" "length ?s \<le> g_MaxGraphemeLen" "cf_grapheme cf ?s = length ?s"
      using g first False by auto
    from FindOrAdd_ok [OF _ this] inv obtain i r' where f:
      "FindOrAdd cf ?s r = Inr (word_of_nat i, r')" "registry_ok cf r'"
      "length (m_Chars r') \<le> Suc (length (m_Chars r))" unfolding reg_inv_def by blast
    have "Append cf input 0 r = Inr ((ToExtChar (word_of_nat i), ?g), r')"
      using False input valid f(1) by (auto simp: Append_def Let_def)
    moreover have "reg_inv cf n r'" using f inv by (simp add: reg_inv_def)
    ultimately show ?thesis using g by auto
  qed
qed

interpretation reg: char_registry "Append (Rep_lawful_cf x)" "reg_inv (Rep_lawful_cf x)"
    "short_sequences (Rep_lawful_cf x)" for x
proof
  fix n r and input :: "u16 list" and c :: u32 and k
  show "short_sequences (Rep_lawful_cf x) input \<Longrightarrow> short_sequences (Rep_lawful_cf x) (drop k input)"
    by (rule short_sequences_drop)
  assume inv: "reg_inv (Rep_lawful_cf x) (Suc n) r"
  then show "reg_inv (Rep_lawful_cf x) n r" by (simp add: reg_inv_def)
  assume input: "input \<noteq> []"
  show "short_sequences (Rep_lawful_cf x) input \<Longrightarrow>
      \<exists>ch k r'. Append (Rep_lawful_cf x) input 0 r = Inr ((ch, k), r') \<and> 0 < k \<and> k \<le> length input
      \<and> reg_inv (Rep_lawful_cf x) n r'"
    by (rule Append_fresh_ok [OF lawful inv input])
  assume "c \<noteq> 0"
  then show "\<exists>ch k r'. Append (Rep_lawful_cf x) input c r = Inr ((ch, k), r') \<and> k \<le> length input
      \<and> (k \<noteq> 0 \<longrightarrow> ch \<noteq> c) \<and> reg_inv (Rep_lawful_cf x) n r'"
    by (rule Append_to_ok [OF lawful inv input])
qed

section \<open>Longer sequences\<close>

text \<open>
  What a longer sequence does: it is stored as it is, and the next character that might continue it
  makes \<open>Append\<close> copy it into the buffer of 64 units.
\<close>

theorem Append_long_sequence:
  assumes "cf_ok cf" "cf_grapheme cf input > g_MaxGraphemeLen" "input \<noteq> []" "\<not> fast_path input"
    and "IsPotentiallyComposableCharacter d"
  shows "\<exists>c k r. Append cf input 0 Registry_init = Inr ((c, k), r) \<and> Append cf [d] c r = Inl Out_Of_Bounds"
proof -
  let ?g = "cf_grapheme cf input" and ?s = "take (cf_grapheme cf input) input"
  have g: "?g \<le> length input" "cf_valid cf input" using assms(1,3) unfolding cf_ok_def by blast+
  then have len: "length ?s = ?g" by simp
  obtain ec where ec: "ExtendedChar_new cf ?s = Inr ec" "ec_str ec = ?s"
    using assms(3) len assms(2) by (cases "?s = []") (auto simp: ExtendedChar_new_def Let_def)
  let ?r = "\<lparr>m_Chars = [ec], m_Lookup = [0]\<rparr>" and ?c = "ToExtChar (word_of_nat 0)"
  have "FindOrAdd cf ?s Registry_init = Inr (word_of_nat 0, ?r)"
    using ec len assms(2) by (simp add: FindOrAdd_def Registry_init_def Let_def g_MaxGraphemeLen_def)
  then have "Append cf input 0 Registry_init = Inr ((?c, ?g), ?r)"
    using assms(2-4) g(2) by (simp add: Append_def Let_def g_MaxGraphemeLen_def)
  moreover have "unat (?c AND NOT (push_bit 31 1) :: u32) = 0" by (rule ToExtChar_index) simp
  moreover have "?c \<noteq> 0" using ToExtChar_extended(1) [of "word_of_nat 0"] by (auto simp: IsBase_def)
  ultimately have "Append cf [d] ?c ?r = Inl Out_Of_Bounds"
    using assms(2,5) len ec(2) ToExtChar_extended [of "word_of_nat 0"]
    by (simp add: Append_def fast_path_def ToExtIdx_def Let_def)
  then show ?thesis using \<open>Append cf input 0 Registry_init = Inr ((?c, ?g), ?r)\<close> by blast
qed

theorem Append_long_sequence_witness:
  "\<exists>c k r. Append composing_cf (0x65 # replicate 64 0x0301) 0 Registry_init = Inr ((c, k), r)
    \<and> Append composing_cf [0x0301] c r = Inl Out_Of_Bounds"
proof (rule Append_long_sequence [OF composing_cf_ok])
  have "takeWhile continues (replicate n 0x0301) = replicate n 0x0301" for n
    by (induction n) (simp_all add: continues_def)
  then show "g_MaxGraphemeLen < cf_grapheme composing_cf (0x65 # replicate 64 0x0301)"
    by (simp add: composing_cf_def g_MaxGraphemeLen_def)
qed (simp_all add: fast_path_def IsPotentiallyComposableCharacter_def)

end
