(* ===== verification/ScreenBuffer.thy ===== *)
theory ScreenBuffer
  imports TermCommands
begin

unbundle bit_operations_syntax

text \<open>
  The storage of the terminal screen (\<open>ScreenBuffer\<close> in
  \<open>Source/Term/source/ScreenBuffer.cpp\<close> and \<open>Source/Term/include/Term/ScreenBuffer.h\<close>).
  The on-screen cells are one allocation, the scrollback another; a line is a meta record that
  points into them, and \<open>LineFromNo\<close> hands out spans over them. Reads and writes go through
  these spans, and one that leaves its span or its allocation is a fault.

  Sizes and indices are natural numbers; the invariant bounds the number of cells below
  \<open>2 ^ 31\<close>, where they agree with the \<open>unsigned\<close> arithmetic of the code.
\<close>

section \<open>Cells\<close>

record Space =
  sp_l :: u32
  sp_foreground :: Color
  sp_background :: Color
  sp_customfg :: bool
  sp_custombg :: bool
  sp_faint :: bool
  sp_underline :: bool
  sp_crossed :: bool
  sp_reverse :: bool
  sp_bold :: bool
  sp_italic :: bool
  sp_invisible :: bool
  sp_blink :: bool

definition DefaultEraseChar :: Space where
  "DefaultEraseChar = \<lparr>sp_l = 0, sp_foreground = 0, sp_background = 0, sp_customfg = False,
     sp_custombg = False, sp_faint = False, sp_underline = False, sp_crossed = False,
     sp_reverse = False, sp_bold = False, sp_italic = False, sp_invisible = False,
     sp_blink = False\<rparr>"

definition MultiCellGlyph :: u32 where "MultiCellGlyph = 0xFFFE"

text \<open>The eight bytes of a cell as the 64-bit integer \<open>HaveSameAttributes\<close> reads them as.\<close>

definition bit_at :: "bool \<Rightarrow> nat \<Rightarrow> 64 word" where
  "bit_at b n = (if b then push_bit n 1 else 0)"

definition Space_bits :: "Space \<Rightarrow> 64 word" where
  "Space_bits s = ucast (sp_l s) OR push_bit 32 (ucast (sp_foreground s))
     OR push_bit 40 (ucast (sp_background s))
     OR bit_at (sp_customfg s) 48 OR bit_at (sp_custombg s) 49 OR bit_at (sp_faint s) 50
     OR bit_at (sp_underline s) 51 OR bit_at (sp_crossed s) 52 OR bit_at (sp_reverse s) 53
     OR bit_at (sp_bold s) 54 OR bit_at (sp_italic s) 55 OR bit_at (sp_invisible s) 56
     OR bit_at (sp_blink s) 57"

definition HaveSameAttributes :: "Space \<Rightarrow> Space \<Rightarrow> bool" where
  "HaveSameAttributes s t = (let mask = 0x3FFFFFF00000000 in
     Space_bits s AND mask = Space_bits t AND mask)"

section \<open>Screen points\<close>

record ScreenPoint =
  pt_x :: int
  pt_y :: int

definition pt_gt :: "ScreenPoint \<Rightarrow> ScreenPoint \<Rightarrow> bool" where
  "pt_gt a b \<longleftrightarrow> pt_y a > pt_y b \<or> (pt_y a = pt_y b \<and> pt_x a > pt_x b)"

definition pt_ge :: "ScreenPoint \<Rightarrow> ScreenPoint \<Rightarrow> bool" where
  "pt_ge a b \<longleftrightarrow> pt_y a > pt_y b \<or> (pt_y a = pt_y b \<and> pt_x a \<ge> pt_x b)"

definition pt_lt :: "ScreenPoint \<Rightarrow> ScreenPoint \<Rightarrow> bool" where
  "pt_lt a b \<longleftrightarrow> \<not> pt_ge a b"

definition pt_le :: "ScreenPoint \<Rightarrow> ScreenPoint \<Rightarrow> bool" where
  "pt_le a b \<longleftrightarrow> \<not> pt_gt a b"

section \<open>Lines, spans and the buffer\<close>

record LineMeta =
  start_index :: nat
  line_length :: nat
  is_wrapped :: bool

definition LineMeta_init :: LineMeta where
  "LineMeta_init = \<lparr>start_index = 0, line_length = 0, is_wrapped = False\<rparr>"

datatype region = OnScreen | BackScreen

text \<open>A span: the region and offset its \<open>data()\<close> points to (none for a null pointer), its size.\<close>

record Span =
  sp_data :: "(region \<times> nat) option"
  sp_len :: nat

record ScreenBuffer =
  m_Width :: nat
  m_Height :: nat
  m_OnScreenLines :: "LineMeta list"
  m_BackScreenLines :: "LineMeta list"
  m_OnScreenSpaces :: "Space list"
  m_BackScreenSpaces :: "Space list"
  m_BackAllocated :: bool     \<comment> \<open>whether \<open>m_BackScreenSpaces.data()\<close> is not null\<close>
  m_BufferEraseChar :: Space  \<comment> \<open>\<open>m_EraseChar\<close> of the buffer\<close>

definition ProduceRectangularSpaces :: "nat \<Rightarrow> nat \<Rightarrow> Space list" where
  "ProduceRectangularSpaces w h = replicate (w * h) DefaultEraseChar"

definition ProduceRectangularSpaces_with :: "nat \<Rightarrow> nat \<Rightarrow> Space \<Rightarrow> Space list" where
  "ProduceRectangularSpaces_with w h c = replicate (w * h) c"

text \<open>\<open>FixupOnScreenLinesIndeces\<close> over a range of metas; it leaves \<open>is_wrapped\<close> alone.\<close>

fun Fixup_loop :: "nat \<Rightarrow> nat \<Rightarrow> LineMeta list \<Rightarrow> LineMeta list" where
  "Fixup_loop start w [] = []"
| "Fixup_loop start w (m # ms) =
     m\<lparr>start_index := start, line_length := w\<rparr> # Fixup_loop (start + w) w ms"

definition FixupOnScreenLinesIndeces :: "LineMeta list \<Rightarrow> nat \<Rightarrow> LineMeta list" where
  "FixupOnScreenLinesIndeces ms w = Fixup_loop 0 w ms"

text \<open>\<open>std::vector::resize\<close>.\<close>

definition vec_resize :: "nat \<Rightarrow> 'a \<Rightarrow> 'a list \<Rightarrow> 'a list" where
  "vec_resize n v xs = take n xs @ replicate (n - length xs) v"

definition ScreenBuffer_init :: "nat \<Rightarrow> nat \<Rightarrow> ScreenBuffer" where
  "ScreenBuffer_init w h = \<lparr>m_Width = w, m_Height = h,
     m_OnScreenLines = FixupOnScreenLinesIndeces (vec_resize h LineMeta_init []) w,
     m_BackScreenLines = [], m_OnScreenSpaces = ProduceRectangularSpaces w h,
     m_BackScreenSpaces = [], m_BackAllocated = False, m_BufferEraseChar = DefaultEraseChar\<rparr>"

section \<open>Access through spans\<close>

definition area :: "region \<Rightarrow> ScreenBuffer \<Rightarrow> Space list" where
  "area r b = (case r of OnScreen \<Rightarrow> m_OnScreenSpaces b | BackScreen \<Rightarrow> m_BackScreenSpaces b)"

definition set_area :: "region \<Rightarrow> Space list \<Rightarrow> ScreenBuffer \<Rightarrow> ScreenBuffer" where
  "set_area r xs b = (case r of OnScreen \<Rightarrow> b\<lparr>m_OnScreenSpaces := xs\<rparr>
     | BackScreen \<Rightarrow> b\<lparr>m_BackScreenSpaces := xs\<rparr>)"

text \<open>Reading and writing cells at an offset of an allocation, and elements of a span.\<close>

definition mem_read :: "region \<Rightarrow> int \<Rightarrow> nat \<Rightarrow> ScreenBuffer \<Rightarrow> Space list res" where
  "mem_read r i n b =
     (if 0 \<le> i \<and> nat i + n \<le> length (area r b) then Inr (take n (drop (nat i) (area r b)))
      else Inl Out_Of_Bounds)"

definition mem_write :: "region \<Rightarrow> int \<Rightarrow> Space list \<Rightarrow> ScreenBuffer \<Rightarrow> ScreenBuffer res" where
  "mem_write r i xs b =
     (if 0 \<le> i \<and> nat i + length xs \<le> length (area r b)
      then Inr (set_area r (overwrite (nat i) xs (area r b)) b)
      else Inl Out_Of_Bounds)"

text \<open>Through the pointer \<open>data()\<close>, which may move anywhere in its allocation.\<close>

definition ptr_get :: "Span \<Rightarrow> int \<Rightarrow> ScreenBuffer \<Rightarrow> Space res" where
  "ptr_get s i b = (case sp_data s of None \<Rightarrow> Inl Out_Of_Bounds
     | Some (r, off) \<Rightarrow> bindR (mem_read r (int off + i) 1 b) (\<lambda>xs. Inr (hd xs)))"

definition ptr_set :: "Span \<Rightarrow> int \<Rightarrow> Space \<Rightarrow> ScreenBuffer \<Rightarrow> ScreenBuffer res" where
  "ptr_set s i v b = (case sp_data s of None \<Rightarrow> Inl Out_Of_Bounds
     | Some (r, off) \<Rightarrow> mem_write r (int off + i) [v] b)"

text \<open>
  Through the iterators and \<open>operator[]\<close> of the span, which may not leave it. A range
  \<open>[from, to)\<close> with \<open>from > to\<close> never reaches its end.
\<close>

definition span_contents :: "Span \<Rightarrow> ScreenBuffer \<Rightarrow> Space list res" where
  "span_contents s b = (case sp_data s of None \<Rightarrow> Inr []
     | Some (r, off) \<Rightarrow> mem_read r (int off) (sp_len s) b)"

definition span_get :: "Span \<Rightarrow> int \<Rightarrow> ScreenBuffer \<Rightarrow> Space res" where
  "span_get s i b = (if 0 \<le> i \<and> i < int (sp_len s) then ptr_get s i b else Inl Out_Of_Bounds)"

definition span_set :: "Span \<Rightarrow> int \<Rightarrow> Space \<Rightarrow> ScreenBuffer \<Rightarrow> ScreenBuffer res" where
  "span_set s i v b = (if 0 \<le> i \<and> i < int (sp_len s) then ptr_set s i v b else Inl Out_Of_Bounds)"

definition span_write :: "Span \<Rightarrow> int \<Rightarrow> Space list \<Rightarrow> ScreenBuffer \<Rightarrow> ScreenBuffer res" where
  "span_write s i xs b =
     (if xs = [] then Inr b
      else if 0 \<le> i \<and> i + int (length xs) \<le> int (sp_len s)
      then (case sp_data s of None \<Rightarrow> Inl Out_Of_Bounds
            | Some (r, off) \<Rightarrow> mem_write r (int off + i) xs b)
      else Inl Out_Of_Bounds)"

definition span_fill :: "Span \<Rightarrow> int \<Rightarrow> int \<Rightarrow> Space \<Rightarrow> ScreenBuffer \<Rightarrow> ScreenBuffer res" where
  "span_fill s from to v b =
     (if from \<le> to then span_write s from (replicate (nat (to - from)) v) b
      else Inl Out_Of_Bounds)"

section \<open>Lookup of lines\<close>

definition null_span :: Span where "null_span = \<lparr>sp_data = None, sp_len = 0\<rparr>"

definition LineFromNo :: "int \<Rightarrow> ScreenBuffer \<Rightarrow> Span res" where
  "LineFromNo n b =
     (if 0 \<le> n \<and> n < int (length (m_OnScreenLines b)) then
        let line = m_OnScreenLines b ! nat n in
        bindR (assertR (start_index line + line_length line \<le> m_Height b * m_Width b)) (\<lambda>_.
        Inr \<lparr>sp_data = Some (OnScreen, start_index line), sp_len = line_length line\<rparr>)
      else if n < 0 \<and> - n \<le> int (length (m_BackScreenLines b)) then
        let ind = nat (int (length (m_BackScreenLines b)) + n);
            line = m_BackScreenLines b ! ind in
        bindR (assertR (start_index line + line_length line \<le> length (m_BackScreenSpaces b))) (\<lambda>_.
        Inr \<lparr>sp_data = (if m_BackAllocated b then Some (BackScreen, start_index line) else None),
             sp_len = line_length line\<rparr>)
      else Inr null_span)"

definition At :: "int \<Rightarrow> int \<Rightarrow> ScreenBuffer \<Rightarrow> Space res" where
  "At x y b = bindR (LineFromNo y b) (\<lambda>line.
     if sp_len line = 0 then Inl Throws_invalid_argument
     else if x < 0 \<or> x \<ge> int (sp_len line) then Inl Throws_invalid_argument
     else span_get line x b)"

text \<open>\<open>MetaFromLineNo\<close> returns a pointer to a meta: the vector it is in and the index.\<close>

definition MetaFromLineNo :: "int \<Rightarrow> ScreenBuffer \<Rightarrow> (region \<times> nat) option" where
  "MetaFromLineNo n b =
     (if 0 \<le> n \<and> n < int (length (m_OnScreenLines b)) then Some (OnScreen, nat n)
      else if n < 0 \<and> - n \<le> int (length (m_BackScreenLines b))
      then Some (BackScreen, nat (int (length (m_BackScreenLines b)) + n))
      else None)"

definition LineWrapped :: "int \<Rightarrow> ScreenBuffer \<Rightarrow> bool" where
  "LineWrapped n b = (case MetaFromLineNo n b of
      Some (OnScreen, i) \<Rightarrow> is_wrapped (m_OnScreenLines b ! i)
    | Some (BackScreen, i) \<Rightarrow> is_wrapped (m_BackScreenLines b ! i)
    | None \<Rightarrow> False)"

definition SetLineWrapped :: "int \<Rightarrow> bool \<Rightarrow> ScreenBuffer \<Rightarrow> ScreenBuffer" where
  "SetLineWrapped n w b = (case MetaFromLineNo n b of
      Some (OnScreen, i) \<Rightarrow>
        b\<lparr>m_OnScreenLines := (m_OnScreenLines b)[i := (m_OnScreenLines b ! i)\<lparr>is_wrapped := w\<rparr>]\<rparr>
    | Some (BackScreen, i) \<Rightarrow>
        b\<lparr>m_BackScreenLines := (m_BackScreenLines b)[i := (m_BackScreenLines b ! i)\<lparr>is_wrapped := w\<rparr>]\<rparr>
    | None \<Rightarrow> b)"

definition SetEraseChar :: "Space \<Rightarrow> ScreenBuffer \<Rightarrow> ScreenBuffer" where
  "SetEraseChar c b = b\<lparr>m_BufferEraseChar := c\<rparr>"

definition BackScreenLines :: "ScreenBuffer \<Rightarrow> nat" where
  "BackScreenLines b = length (m_BackScreenLines b)"

section \<open>Occupied cells\<close>

definition IsOccupiedChar :: "Space \<Rightarrow> bool" where
  "IsOccupiedChar s \<longleftrightarrow> sp_l s \<noteq> 0"

text \<open>The backward loop of \<open>OccupiedChars\<close>: \<open>i\<close> cells are left to look at.\<close>

fun Occupied_loop :: "Space list \<Rightarrow> nat \<Rightarrow> nat" where
  "Occupied_loop xs 0 = 0"
| "Occupied_loop xs (Suc i) = (if IsOccupiedChar (xs ! i) then Suc i else Occupied_loop xs i)"

definition OccupiedChars :: "Space list \<Rightarrow> nat" where
  "OccupiedChars xs = (if xs = [] then 0 else Occupied_loop xs (length xs))"

fun HasOccupiedChars :: "Space list \<Rightarrow> bool" where
  "HasOccupiedChars [] = False"
| "HasOccupiedChars (x # xs) = (if IsOccupiedChar x then True else HasOccupiedChars xs)"

definition OccupiedChars_line :: "int \<Rightarrow> ScreenBuffer \<Rightarrow> nat res" where
  "OccupiedChars_line n b = bindR (LineFromNo n b) (\<lambda>s.
     if sp_len s \<noteq> 0 then bindR (span_contents s b) (\<lambda>xs. Inr (OccupiedChars xs)) else Inr 0)"

definition HasOccupiedChars_line :: "int \<Rightarrow> ScreenBuffer \<Rightarrow> bool res" where
  "HasOccupiedChars_line n b = bindR (LineFromNo n b) (\<lambda>s.
     if sp_len s \<noteq> 0 then bindR (span_contents s b) (\<lambda>xs. Inr (HasOccupiedChars xs)) else Inr False)"

definition OccupiedOnScreenLines :: "ScreenBuffer \<Rightarrow> (int \<times> int) option res" where
  "OccupiedOnScreenLines b =
     bindR (for_up 0 (int (m_Height b))
        (\<lambda>i (first, last). bindR (HasOccupiedChars_line i b) (\<lambda>occ.
           Inr (if occ then (min first i, max last i) else (first, last))))
        (INT_MAX, INT_MIN))
     (\<lambda>(first, last). Inr (if first > last then None else Some (first, last + 1)))"

section \<open>Scrollback and snapshots\<close>

definition push_back_line :: "Space list \<Rightarrow> bool \<Rightarrow> ScreenBuffer \<Rightarrow> ScreenBuffer" where
  "push_back_line xs w b = b\<lparr>
     m_BackScreenLines := m_BackScreenLines b @
       [\<lparr>start_index = length (m_BackScreenSpaces b), line_length = length xs, is_wrapped = w\<rparr>],
     m_BackScreenSpaces := m_BackScreenSpaces b @ xs,
     m_BackAllocated := (m_BackAllocated b \<or> xs \<noteq> [])\<rparr>"

text \<open>The loop of \<open>FeedBackscreen\<close>; with a width of zero it would never advance.\<close>

function FeedBackscreen :: "Space list \<Rightarrow> bool \<Rightarrow> ScreenBuffer \<Rightarrow> ScreenBuffer res" where
  "FeedBackscreen xs wrapped b =
     (if xs = [] then Inr b
      else if m_Width b = 0 then Inl Nonterminating
      else let line_len = min (m_Width b) (length xs) in
        FeedBackscreen (drop line_len xs) wrapped
          (push_back_line (take line_len xs) (if wrapped then True else m_Width b < length xs) b))"
  by pat_completeness auto
termination
  by (relation "measure (\<lambda>(xs, wrapped, b). length xs)") auto

declare FeedBackscreen.simps [simp del]

record Snapshot =
  snap_width :: nat
  snap_height :: nat
  snap_chars :: "Space list"

definition Snapshot_init :: Snapshot where
  "Snapshot_init = \<lparr>snap_width = 0, snap_height = 0, snap_chars = []\<rparr>"

definition MakeSnapshot :: "ScreenBuffer \<Rightarrow> Snapshot res" where
  "MakeSnapshot b = bindR (mem_read OnScreen 0 (m_Width b * m_Height b) b) (\<lambda>xs.
     Inr \<lparr>snap_width = m_Width b, snap_height = m_Height b, snap_chars = xs\<rparr>)"

definition snap_read :: "Snapshot \<Rightarrow> nat \<Rightarrow> nat \<Rightarrow> Space list res" where
  "snap_read s i n = (if i + n \<le> length (snap_chars s) then Inr (take n (drop i (snap_chars s)))
     else Inl Out_Of_Bounds)"

definition RevertToSnapshot :: "Snapshot \<Rightarrow> ScreenBuffer \<Rightarrow> ScreenBuffer res" where
  "RevertToSnapshot s b =
     (if m_Height b = snap_height s \<and> m_Width b = snap_width s then
        bindR (snap_read s 0 (m_Width b * m_Height b)) (\<lambda>xs. mem_write OnScreen 0 xs b)
      else
        bindR (mem_write OnScreen 0 (replicate (m_Width b * m_Height b) (m_BufferEraseChar b)) b)
          (for_up 0 (int (min (snap_height s) (m_Height b))) (\<lambda>y b.
             bindR (snap_read s (nat y * snap_width s) (min (snap_width s) (m_Width b))) (\<lambda>xs.
             mem_write OnScreen (y * int (m_Width b)) xs b))))"

section \<open>The cells as a grid\<close>

text \<open>
  The invariant: the metas of the screen cut its allocation into \<open>m_Height\<close> rows of \<open>m_Width\<close>
  cells, and the metas of the scrollback stay within theirs.
\<close>

definition buf_ok :: "ScreenBuffer \<Rightarrow> bool" where
  "buf_ok b \<longleftrightarrow> length (m_OnScreenLines b) = m_Height b
     \<and> (\<forall>i < m_Height b. start_index (m_OnScreenLines b ! i) = i * m_Width b
          \<and> line_length (m_OnScreenLines b ! i) = m_Width b)
     \<and> length (m_OnScreenSpaces b) = m_Height b * m_Width b
     \<and> list_all (\<lambda>m. start_index m + line_length m \<le> length (m_BackScreenSpaces b))
         (m_BackScreenLines b)
     \<and> (m_BackScreenSpaces b \<noteq> [] \<longrightarrow> m_BackAllocated b)
     \<and> 0 < m_Width b \<and> 0 < m_Height b \<and> m_Width b * m_Height b < 2 ^ 31"

text \<open>Row \<open>y\<close> of the screen, all rows, and rows with their wrap flags: what the screen shows.\<close>

definition row :: "ScreenBuffer \<Rightarrow> nat \<Rightarrow> Space list" where
  "row b y = take (m_Width b) (drop (y * m_Width b) (m_OnScreenSpaces b))"

definition rows :: "ScreenBuffer \<Rightarrow> Space list list" where
  "rows b = map (row b) [0..<m_Height b]"

definition wraps :: "ScreenBuffer \<Rightarrow> bool list" where
  "wraps b = map is_wrapped (m_OnScreenLines b)"

lemma length_rows [simp]: "length (rows b) = m_Height b"
  by (simp add: rows_def)

lemma nth_rows [simp]: "y < m_Height b \<Longrightarrow> rows b ! y = row b y"
  by (simp add: rows_def)

lemma length_wraps [simp]: "buf_ok b \<Longrightarrow> length (wraps b) = m_Height b"
  by (simp add: wraps_def buf_ok_def)

lemma row_end: "y < (h :: nat) \<Longrightarrow> y * w + w \<le> h * w"
proof -
  assume "y < h"
  then have "Suc y * w \<le> h * w" by (intro mult_le_mono1) simp
  then show ?thesis by simp
qed

lemma length_row [simp]: "buf_ok b \<Longrightarrow> y < m_Height b \<Longrightarrow> length (row b y) = m_Width b"
  using row_end [of y "m_Height b" "m_Width b"] by (simp add: row_def buf_ok_def)

lemma nth_row:
  "buf_ok b \<Longrightarrow> y < m_Height b \<Longrightarrow> x < m_Width b \<Longrightarrow>
    row b y ! x = m_OnScreenSpaces b ! (y * m_Width b + x)"
  using row_end [of y "m_Height b" "m_Width b"] by (simp add: row_def buf_ok_def)

text \<open>Two cells of the rectangle are the same memory only if they are the same cell.\<close>

lemma cell_index:
  assumes "x < w" and "x' < w"
  shows "y * w + x = y' * w + x' \<longleftrightarrow> y = (y' :: nat) \<and> x = x'"
proof
  assume e: "y * w + x = y' * w + x'"
  have "(y * w + x) div w = y" "(y' * w + x') div w = y'"
    using assms by (simp_all add: div_mult_self3 add.commute)
  with e show "y = y' \<and> x = x'" by simp
qed simp

lemma area_sel [simp]:
  "area OnScreen b = m_OnScreenSpaces b" "area BackScreen b = m_BackScreenSpaces b"
  "set_area OnScreen xs b = b\<lparr>m_OnScreenSpaces := xs\<rparr>"
  "set_area BackScreen xs b = b\<lparr>m_BackScreenSpaces := xs\<rparr>"
  by (simp_all add: area_def set_area_def)

text \<open>A write inside row \<open>y\<close> changes that row only.\<close>

definition put_row :: "nat \<Rightarrow> nat \<Rightarrow> Space list \<Rightarrow> ScreenBuffer \<Rightarrow> ScreenBuffer" where
  "put_row y x zs b = b\<lparr>m_OnScreenSpaces := overwrite (y * m_Width b + x) zs (m_OnScreenSpaces b)\<rparr>"

lemma put_row_sel [simp]:
  "m_Width (put_row y x zs b) = m_Width b" "m_Height (put_row y x zs b) = m_Height b"
  "m_OnScreenLines (put_row y x zs b) = m_OnScreenLines b"
  "m_BackScreenLines (put_row y x zs b) = m_BackScreenLines b"
  "m_BackScreenSpaces (put_row y x zs b) = m_BackScreenSpaces b"
  "m_BackAllocated (put_row y x zs b) = m_BackAllocated b"
  "m_BufferEraseChar (put_row y x zs b) = m_BufferEraseChar b"
  "wraps (put_row y x zs b) = wraps b"
  by (simp_all add: put_row_def wraps_def)

lemma put_row_end:
  "buf_ok b \<Longrightarrow> y < m_Height b \<Longrightarrow> x + n \<le> m_Width b \<Longrightarrow>
    y * m_Width b + x + n \<le> length (m_OnScreenSpaces b)"
  using row_end [of y "m_Height b" "m_Width b"] by (simp add: buf_ok_def)

lemma put_row_ok [simp]:
  assumes "buf_ok b" and "y < m_Height b" and "x + length zs \<le> m_Width b"
  shows "buf_ok (put_row y x zs b)"
  using assms put_row_end [OF assms] by (simp add: buf_ok_def put_row_def)

lemma row_put_row:
  assumes "buf_ok b" and "y < m_Height b" and "x + length zs \<le> m_Width b" and "y' < m_Height b"
  shows "row (put_row y x zs b) y' = (if y' = y then overwrite x zs (row b y) else row b y')"
proof (rule nth_equalityI)
  show "length (row (put_row y x zs b) y') =
      length (if y' = y then overwrite x zs (row b y) else row b y')"
    using assms by simp
next
  fix i assume "i < length (row (put_row y x zs b) y')"
  then have i: "i < m_Width b" using assms by simp
  have "y' * m_Width b + i < length (m_OnScreenSpaces b)"
    using put_row_end [OF assms(1,4), of i 1] i by simp
  then have "row (put_row y x zs b) y' ! i =
      (if y * m_Width b + x \<le> y' * m_Width b + i \<and> y' * m_Width b + i < y * m_Width b + x + length zs
       then zs ! (y' * m_Width b + i - (y * m_Width b + x)) else row b y' ! i)"
    using assms i put_row_end [OF assms(1,2,3)]
    by (simp add: nth_row) (simp add: put_row_def nth_overwrite)
  moreover have "y * m_Width b + x \<le> y' * m_Width b + i
      \<and> y' * m_Width b + i < y * m_Width b + x + length zs \<longleftrightarrow> y' = y \<and> x \<le> i \<and> i < x + length zs"
  proof (cases "y' = y")
    case False
    then consider "y' + 1 \<le> y" | "y + 1 \<le> y'" by linarith
    then show ?thesis
    proof cases
      case 1
      from mult_le_mono1 [OF this, of "m_Width b"] i False show ?thesis by simp
    next
      case 2
      from mult_le_mono1 [OF this, of "m_Width b"] assms(3) False show ?thesis by simp
    qed
  qed simp
  ultimately show "row (put_row y x zs b) y' ! i =
      (if y' = y then overwrite x zs (row b y) else row b y') ! i"
    using assms i by (simp add: nth_overwrite)
qed

lemma rows_put_row:
  assumes "buf_ok b" and "y < m_Height b" and "x + length zs \<le> m_Width b"
  shows "rows (put_row y x zs b) = (rows b)[y := overwrite x zs (row b y)]"
  using assms by (intro nth_equalityI) (simp_all add: row_put_row nth_list_update)

section \<open>Spans over rows\<close>

definition row_span :: "ScreenBuffer \<Rightarrow> nat \<Rightarrow> Span" where
  "row_span b y = \<lparr>sp_data = Some (OnScreen, y * m_Width b), sp_len = m_Width b\<rparr>"

lemma row_span_sel [simp]:
  "sp_data (row_span b y) = Some (OnScreen, y * m_Width b)" "sp_len (row_span b y) = m_Width b"
  by (simp_all add: row_span_def)

lemma row_span_put_row [simp]: "row_span (put_row y x zs b) = row_span b"
  by (simp add: row_span_def fun_eq_iff)

lemma LineFromNo_row:
  "buf_ok b \<Longrightarrow> 0 \<le> n \<Longrightarrow> n < int (m_Height b) \<Longrightarrow> LineFromNo n b = Inr (row_span b (nat n))"
  using row_end [of "nat n" "m_Height b" "m_Width b"]
  by (simp add: LineFromNo_def buf_ok_def Let_def row_span_def nat_less_iff)

lemma LineFromNo_below:
  "buf_ok b \<Longrightarrow> int (m_Height b) \<le> n \<Longrightarrow> LineFromNo n b = Inr null_span"
  by (auto simp: LineFromNo_def buf_ok_def)

lemma LineFromNo_total: "buf_ok b \<Longrightarrow> \<exists>s. LineFromNo n b = Inr s"
proof -
  assume ok: "buf_ok b"
  consider "0 \<le> n" "n < int (m_Height b)" | "int (m_Height b) \<le> n" | "n < 0" by linarith
  then show ?thesis
  proof cases
    case 3
    then have "nat (int (length (m_BackScreenLines b)) + n) < length (m_BackScreenLines b)
        \<or> \<not> - n \<le> int (length (m_BackScreenLines b))" by linarith
    with 3 ok show ?thesis
      by (auto simp: LineFromNo_def Let_def buf_ok_def list_all_length)
  qed (use ok in \<open>simp_all add: LineFromNo_row LineFromNo_below\<close>)
qed

lemma nat_int_mult [simp]: "nat (int y * int w) = y * w"
  by (simp flip: of_nat_mult)

lemma row_read:
  "buf_ok b \<Longrightarrow> y < m_Height b \<Longrightarrow> span_contents (row_span b y) b = Inr (row b y)"
  using put_row_end [of b y 0 "m_Width b"] by (simp add: span_contents_def mem_read_def row_def)

lemma row_get:
  assumes "buf_ok b" and "y < m_Height b" and "0 \<le> x" and "x < int (m_Width b)"
  shows "span_get (row_span b y) x b = Inr (row b y ! nat x)"
    and "ptr_get (row_span b y) x b = Inr (row b y ! nat x)"
proof -
  have e: "nat (int (y * m_Width b) + x) = y * m_Width b + nat x"
    using assms(3) by (simp add: nat_add_distrib)
  have "y * m_Width b + nat x < length (m_OnScreenSpaces b)"
    using put_row_end [of b y "nat x" 1] assms by (simp add: Suc_le_eq nat_less_iff)
  then show g: "ptr_get (row_span b y) x b = Inr (row b y ! nat x)"
    using assms e by (simp add: ptr_get_def mem_read_def nth_row nat_less_iff hd_drop_conv_nth)
  show "span_get (row_span b y) x b = Inr (row b y ! nat x)"
    using assms g by (simp add: span_get_def)
qed

lemma row_write:
  assumes "buf_ok b" and "y < m_Height b" and "0 \<le> x" and "x + int (length zs) \<le> int (m_Width b)"
  shows "span_write (row_span b y) x zs b = Inr (put_row y (nat x) zs b)"
proof -
  have e: "nat (int (y * m_Width b) + x) = y * m_Width b + nat x"
    using assms(3) by (simp add: nat_add_distrib)
  have "nat x + length zs \<le> m_Width b" using assms by linarith
  from put_row_end [OF assms(1,2) this] show ?thesis
    using assms e by (simp add: span_write_def mem_write_def put_row_def)
qed

lemma row_set:
  assumes "buf_ok b" and "y < m_Height b" and "0 \<le> x" and "x < int (m_Width b)"
  shows "span_set (row_span b y) x v b = Inr (put_row y (nat x) [v] b)"
    and "ptr_set (row_span b y) x v b = Inr (put_row y (nat x) [v] b)"
  using row_write [OF assms(1,2,3), of "[v]"] assms
  by (simp_all add: span_set_def ptr_set_def span_write_def)

lemma row_fill:
  "buf_ok b \<Longrightarrow> y < m_Height b \<Longrightarrow> 0 \<le> x \<Longrightarrow> x \<le> x' \<Longrightarrow> x' \<le> int (m_Width b) \<Longrightarrow>
    span_fill (row_span b y) x x' v b = Inr (put_row y (nat x) (replicate (nat (x' - x)) v) b)"
  by (simp add: span_fill_def row_write)

text \<open>Filling and copying a whole row.\<close>

lemma put_row_all:
  "buf_ok b \<Longrightarrow> y < m_Height b \<Longrightarrow> length zs = m_Width b \<Longrightarrow>
    rows (put_row y 0 zs b) = (rows b)[y := zs]"
  by (simp add: rows_put_row overwrite_all)

section \<open>Wrap flags\<close>

lemma LineWrapped_row:
  "buf_ok b \<Longrightarrow> 0 \<le> n \<Longrightarrow> n < int (m_Height b) \<Longrightarrow> LineWrapped n b = wraps b ! nat n"
  by (simp add: LineWrapped_def MetaFromLineNo_def wraps_def buf_ok_def)

lemma SetLineWrapped_row:
  assumes "buf_ok b" and "0 \<le> n" and "n < int (m_Height b)"
  shows "buf_ok (SetLineWrapped n w b)"
    and "rows (SetLineWrapped n w b) = rows b"
    and "wraps (SetLineWrapped n w b) = (wraps b)[nat n := w]"
    and "m_Width (SetLineWrapped n w b) = m_Width b" "m_Height (SetLineWrapped n w b) = m_Height b"
    and "m_BufferEraseChar (SetLineWrapped n w b) = m_BufferEraseChar b"
    and "m_BackScreenLines (SetLineWrapped n w b) = m_BackScreenLines b"
    and "m_BackScreenSpaces (SetLineWrapped n w b) = m_BackScreenSpaces b"
  using assms
  by (auto simp: SetLineWrapped_def MetaFromLineNo_def buf_ok_def rows_def row_def wraps_def
      nth_list_update map_update)

lemma SetLineWrapped_ok:
  assumes "buf_ok b" shows "buf_ok (SetLineWrapped n w b)"
proof -
  consider "0 \<le> n" "n < int (m_Height b)" | "int (m_Height b) \<le> n" | "n < 0" by linarith
  then show ?thesis
  proof cases
    case 3
    have "list_all (\<lambda>m. start_index m + line_length m \<le> length (m_BackScreenSpaces b))
        ((m_BackScreenLines b)[i := (m_BackScreenLines b ! i)\<lparr>is_wrapped := w\<rparr>])"
      if "i < length (m_BackScreenLines b)" for i
      using assms that by (auto simp: buf_ok_def list_all_length nth_list_update)
    with 3 assms show ?thesis
      by (auto simp: SetLineWrapped_def MetaFromLineNo_def buf_ok_def)
  qed (use assms in \<open>simp_all add: SetLineWrapped_row,
      simp add: SetLineWrapped_def MetaFromLineNo_def buf_ok_def\<close>)
qed

lemma SetLineWrapped_sel [simp]:
  "m_Width (SetLineWrapped n w b) = m_Width b" "m_Height (SetLineWrapped n w b) = m_Height b"
  "m_BufferEraseChar (SetLineWrapped n w b) = m_BufferEraseChar b"
  "m_OnScreenSpaces (SetLineWrapped n w b) = m_OnScreenSpaces b"
  "m_BackScreenSpaces (SetLineWrapped n w b) = m_BackScreenSpaces b"
  by (auto simp: SetLineWrapped_def split: option.split prod.split region.split)

section \<open>Scrollback and snapshots, abstractly\<close>

text \<open>The lines of the scrollback with their wrap flags, oldest first.\<close>

definition back_lines :: "ScreenBuffer \<Rightarrow> (Space list \<times> bool) list" where
  "back_lines b = map (\<lambda>m. (take (line_length m) (drop (start_index m) (m_BackScreenSpaces b)),
     is_wrapped m)) (m_BackScreenLines b)"

lemma push_back_line_props:
  assumes "buf_ok b"
  shows "buf_ok (push_back_line xs w b)" "rows (push_back_line xs w b) = rows b"
    "wraps (push_back_line xs w b) = wraps b"
    "back_lines (push_back_line xs w b) = back_lines b @ [(xs, w)]"
  using assms
  by (auto simp: push_back_line_def buf_ok_def rows_def row_def wraps_def back_lines_def list_all_iff)

lemma push_back_line_sel [simp]:
  "m_Width (push_back_line xs w b) = m_Width b" "m_Height (push_back_line xs w b) = m_Height b"
  "m_BufferEraseChar (push_back_line xs w b) = m_BufferEraseChar b"
  "m_OnScreenSpaces (push_back_line xs w b) = m_OnScreenSpaces b"
  "m_OnScreenLines (push_back_line xs w b) = m_OnScreenLines b"
  by (simp_all add: push_back_line_def)

text \<open>A line of exactly the buffer's width is appended to the scrollback as it is.\<close>

lemma FeedBackscreen_row:
  "0 < m_Width b \<Longrightarrow> length xs = m_Width b \<Longrightarrow>
    FeedBackscreen xs w b = Inr (push_back_line xs w b)"
  by (subst FeedBackscreen.simps, subst FeedBackscreen.simps) auto

lemma FeedBackscreen_keeps:
  "buf_ok b \<Longrightarrow> \<exists>b'. FeedBackscreen xs w b = Inr b' \<and> buf_ok b' \<and> rows b' = rows b
     \<and> wraps b' = wraps b \<and> m_Width b' = m_Width b"
proof (induction xs w b rule: FeedBackscreen.induct)
  case (1 xs w b)
  show ?case
  proof (cases "xs = []")
    case True
    with 1 show ?thesis by (subst FeedBackscreen.simps) simp
  next
    case False
    have "m_Width b \<noteq> 0" using "1.prems" by (simp add: buf_ok_def)
    with False 1 show ?thesis
      by (subst FeedBackscreen.simps) (simp add: Let_def push_back_line_props)
  qed
qed

end
