(* ===== verification/ScreenResize.thy ===== *)
theory ScreenResize
  imports ScreenBuffer
begin

text \<open>
  Reflow of the screen when its size changes (\<open>ComposeContinuousLines\<close>,
  \<open>DecomposeContinuousLines\<close> and \<open>ScreenBuffer::ResizeScreen\<close> in
  \<open>Source/Term/source/ScreenBuffer.cpp\<close>): physical lines are joined into logical ones along
  their wrap flags, cut to the new width, and distributed over scrollback and screen.
\<close>

section \<open>Joining and cutting lines\<close>

text \<open>\<open>lines.back()\<close> grows by the occupied cells of the next line.\<close>

definition append_to_back :: "'a list \<Rightarrow> 'a list list \<Rightarrow> 'a list list" where
  "append_to_back xs ls = butlast ls @ [last ls @ xs]"

text \<open>
  The loop of \<open>ComposeContinuousLines\<close> with \<open>continue_prev\<close> and \<open>lines\<close>. A line that wraps is
  followed by one that is appended to the last logical line, so \<open>lines.back()\<close> exists then.
\<close>

definition Compose_body :: "ScreenBuffer \<Rightarrow> int \<Rightarrow> bool \<times> Space list list \<Rightarrow> (bool \<times> Space list list) res"
  where
  "Compose_body b n st = (case st of (continue_prev, lines) \<Rightarrow>
     bindR (LineFromNo n b) (\<lambda>source.
     if sp_data source = None then Inl Throws_out_of_range
     else let lines1 = (if continue_prev then lines else lines @ [[]]) in
       bindR (span_contents source b) (\<lambda>xs.
       Inr (LineWrapped n b, append_to_back (take (OccupiedChars xs) xs) lines1))))"

definition ComposeContinuousLines :: "int \<Rightarrow> int \<Rightarrow> ScreenBuffer \<Rightarrow> Space list list res" where
  "ComposeContinuousLines from to b =
     bindR (for_up from to (Compose_body b) (False, [])) (\<lambda>(c, lines). Inr lines)"

text \<open>The inner loop of \<open>DecomposeContinuousLines\<close> over one non-empty logical line.\<close>

function Decompose_line :: "nat \<Rightarrow> Space list \<Rightarrow> nat \<Rightarrow> (Space list \<times> bool) list" where
  "Decompose_line w l i =
     (if i < length l \<and> w \<noteq> 0 then
        (if i + w < length l then (take w (drop i l), True) else (drop i l, False))
        # Decompose_line w l (i + w)
      else [])"
  by pat_completeness auto
termination
  by (relation "measure (\<lambda>(w, l, i). length l - i)") auto

declare Decompose_line.simps [simp del]

definition DecomposeContinuousLines ::
  "Space list list \<Rightarrow> nat \<Rightarrow> (Space list \<times> bool) list res" where
  "DecomposeContinuousLines src w =
     (if w = 0 then Inl Throws_invalid_argument
      else Inr (concat (map (\<lambda>l. (if l = [] then [([], False)] else []) @ Decompose_line w l 0) src)))"

section \<open>Resizing\<close>

text \<open>\<open>fill_scr_from_declines\<close>: \<open>std::copy\<close> of each line to where the meta \<open>k\<close> says.\<close>

fun fill_scr :: "nat \<Rightarrow> (Space list \<times> bool) list \<Rightarrow> ScreenBuffer \<Rightarrow> ScreenBuffer res" where
  "fill_scr k [] b = Inr b"
| "fill_scr k ((xs, w) # ds) b =
     (if k < length (m_OnScreenLines b) then
        bindR (if xs = [] then Inr b
               else mem_write OnScreen (int (start_index (m_OnScreenLines b ! k))) xs b) (\<lambda>b.
        fill_scr (Suc k) ds
          (b\<lparr>m_OnScreenLines := (m_OnScreenLines b)[k := (m_OnScreenLines b ! k)\<lparr>is_wrapped := w\<rparr>]\<rparr>))
      else Inl Out_Of_Bounds)"

text \<open>\<open>fill_bkscr_from_declines\<close>.\<close>

fun fill_bkscr :: "(Space list \<times> bool) list \<Rightarrow> ScreenBuffer \<Rightarrow> ScreenBuffer" where
  "fill_bkscr [] b = b"
| "fill_bkscr ((xs, w) # ds) b = fill_bkscr ds (push_back_line xs w b)"

definition clear_back :: "ScreenBuffer \<Rightarrow> ScreenBuffer" where
  "clear_back b = b\<lparr>m_BackScreenLines := [], m_BackScreenSpaces := []\<rparr>"

definition new_rectangle :: "nat \<Rightarrow> nat \<Rightarrow> ScreenBuffer \<Rightarrow> ScreenBuffer" where
  "new_rectangle sx sy b = b\<lparr>
     m_OnScreenSpaces := ProduceRectangularSpaces_with sx sy (m_BufferEraseChar b),
     m_OnScreenLines := FixupOnScreenLinesIndeces
       (vec_resize sy LineMeta_init (m_OnScreenLines b)) sx\<rparr>"

definition ResizeScreen :: "nat \<Rightarrow> nat \<Rightarrow> bool \<Rightarrow> ScreenBuffer \<Rightarrow> ScreenBuffer res" where
  "ResizeScreen sx sy merge_with_backscreen b =
     (if sx = 0 \<or> sy = 0 then Inl Throws_out_of_range
      else bindR
        (if merge_with_backscreen then
           bindR (ComposeContinuousLines (- int (BackScreenLines b)) (int (m_Height b)) b) (\<lambda>comp_lines.
           bindR (DecomposeContinuousLines comp_lines sx) (\<lambda>ds.
           let b1 = clear_back b in
           if length ds > sy then
             let b2 = new_rectangle sx sy (fill_bkscr (take (length ds - sy) ds) b1) in
             fill_scr 0 (drop (length ds - sy) ds) b2
           else fill_scr 0 ds (new_rectangle sx sy b1)))
         else
           bindR (ComposeContinuousLines (- int (BackScreenLines b)) 0 b) (\<lambda>bk_lines.
           bindR (DecomposeContinuousLines bk_lines sx) (\<lambda>bk.
           let b1 = fill_bkscr bk (clear_back b) in
           bindR (ComposeContinuousLines 0 (int (m_Height b1)) b1) (\<lambda>on_lines.
           bindR (DecomposeContinuousLines on_lines sx) (\<lambda>ds.
           fill_scr 0 (take sy ds) (new_rectangle sx sy b1))))))
        (\<lambda>b. Inr (b\<lparr>m_Width := sx, m_Height := sy\<rparr>)))"

section \<open>Cutting and joining are inverse\<close>

text \<open>
  The specification of joining: lines with their wrap flags, each appended to the last logical
  line when its predecessor wraps.
\<close>

definition join_step :: "'a list \<times> bool \<Rightarrow> bool \<times> 'a list list \<Rightarrow> bool \<times> 'a list list" where
  "join_step ln st = (case ln of (xs, w) \<Rightarrow> case st of (cont, ls) \<Rightarrow>
     (w, append_to_back xs (if cont then ls else ls @ [[]])))"

definition join_lines :: "('a list \<times> bool) list \<Rightarrow> 'a list list" where
  "join_lines ds = snd (fold join_step ds (False, []))"

lemma append_to_back_snoc [simp]: "append_to_back xs (ls @ [l]) = ls @ [l @ xs]"
  by (simp add: append_to_back_def)

lemma append_to_back_twice:
  "append_to_back ys (append_to_back xs ls) = append_to_back (xs @ ys) ls"
  by (simp add: append_to_back_def)

lemma join_Decompose_line:
  "0 < w \<Longrightarrow> i < length l \<Longrightarrow> fold join_step (Decompose_line w l i) (cont, ls) =
     (False, append_to_back (drop i l) (if cont then ls else ls @ [[]]))"
proof (induction w l i arbitrary: cont ls rule: Decompose_line.induct)
  case (1 w l i)
  let ?ls = "if cont then ls else ls @ [[]]"
  show ?case
  proof (cases "i + w < length l")
    case True
    have d: "drop i l = take w (drop i l) @ drop (i + w) l"
      by (metis append_take_drop_id drop_drop add.commute)
    have "fold join_step (Decompose_line w l i) (cont, ls) =
        fold join_step (Decompose_line w l (i + w)) (True, append_to_back (take w (drop i l)) ?ls)"
      using True "1.prems" by (subst Decompose_line.simps) (simp add: join_step_def)
    also have "\<dots> = (False, append_to_back (drop (i + w) l) (append_to_back (take w (drop i l)) ?ls))"
      using "1.IH" [of True] True "1.prems" by simp
    also have "\<dots> = (False, append_to_back (drop i l) ?ls)"
      by (simp only: append_to_back_twice d [symmetric])
    finally show ?thesis .
  next
    case False
    then have "Decompose_line w l (i + w) = []" by (subst Decompose_line.simps) simp
    with False "1.prems" show ?thesis
      by (subst Decompose_line.simps) (simp add: join_step_def)
  qed
qed

lemma Decompose_line_Nil [simp]: "Decompose_line w [] i = []"
  by (subst Decompose_line.simps) simp

lemma join_Decompose_all:
  "0 < w \<Longrightarrow> fold join_step (concat (map (\<lambda>l. (if l = [] then [([], False)] else [])
      @ Decompose_line w l 0) src)) (False, ls) = (False, ls @ src)"
proof (induction src arbitrary: ls)
  case Nil
  then show ?case by simp
next
  case (Cons l src)
  show ?case
  proof (cases "l = []")
    case True
    with Cons show ?thesis by (simp add: join_step_def)
  next
    case False
    with Cons.prems have "fold join_step (Decompose_line w l 0) (False, ls) = (False, ls @ [l])"
      using join_Decompose_line [of w 0 l False ls] by simp
    with False Cons show ?thesis by simp
  qed
qed

lemma Decompose_line_width:
  "0 < w \<Longrightarrow> d \<in> set (Decompose_line w l i) \<Longrightarrow> length (fst d) \<le> w \<and> fst d \<noteq> []
     \<and> (snd d \<longrightarrow> length (fst d) = w)"
proof (induction w l i rule: Decompose_line.induct)
  case (1 w l i)
  from "1.prems"(2) show ?case
    by (subst (asm) Decompose_line.simps)
      (use 1 in \<open>auto simp: not_less split: if_splits\<close>)
qed

text \<open>\<open>DecomposeContinuousLines\<close> as a function on lists.\<close>

definition cut_lines :: "nat \<Rightarrow> Space list list \<Rightarrow> (Space list \<times> bool) list" where
  "cut_lines w src =
     concat (map (\<lambda>l. (if l = [] then [([], False)] else []) @ Decompose_line w l 0) src)"

lemma Decompose_cut: "0 < w \<Longrightarrow> DecomposeContinuousLines src w = Inr (cut_lines w src)"
  by (simp add: DecomposeContinuousLines_def cut_lines_def)

lemma cut_lines_width:
  assumes "0 < w" and "d \<in> set (cut_lines w src)"
  shows "length (fst d) \<le> w \<and> (snd d \<longrightarrow> length (fst d) = w)"
  using assms
  by (auto simp: cut_lines_def dest: Decompose_line_width [OF assms(1)] split: if_splits)

lemma join_cut: "0 < w \<Longrightarrow> join_lines (cut_lines w src) = src"
  using join_Decompose_all [of w src "[]"] by (simp add: join_lines_def cut_lines_def)

section \<open>What \<open>ComposeContinuousLines\<close> computes\<close>

text \<open>Trailing cells that hold nothing are dropped from a line.\<close>

definition occupied :: "Space list \<Rightarrow> Space list" where
  "occupied xs = rev (dropWhile (\<lambda>s. \<not> IsOccupiedChar s) (rev xs))"

lemma Occupied_loop_take:
  "n \<le> length xs \<Longrightarrow> take (Occupied_loop xs n) xs = occupied (take n xs)"
proof (induction n)
  case 0
  then show ?case by (simp add: occupied_def)
next
  case (Suc n)
  then show ?case by (simp add: occupied_def take_Suc_conv_app_nth)
qed

lemma take_OccupiedChars: "take (OccupiedChars xs) xs = occupied xs"
  using Occupied_loop_take [of "length xs" xs] by (simp add: OccupiedChars_def occupied_def)

text \<open>The physical lines of the screen and of the scrollback, and both in order.\<close>

definition screen_lines :: "ScreenBuffer \<Rightarrow> (Space list \<times> bool) list" where
  "screen_lines b = zip (rows b) (wraps b)"

definition trimmed :: "(Space list \<times> bool) list \<Rightarrow> (Space list \<times> bool) list" where
  "trimmed ds = map (\<lambda>(xs, w). (occupied xs, w)) ds"

lemma length_screen_lines [simp]: "buf_ok b \<Longrightarrow> length (screen_lines b) = m_Height b"
  by (simp add: screen_lines_def)

lemma length_back_lines [simp]: "length (back_lines b) = BackScreenLines b"
  by (simp add: back_lines_def BackScreenLines_def)

definition line_at :: "ScreenBuffer \<Rightarrow> int \<Rightarrow> Space list \<times> bool" where
  "line_at b n = (if n < 0 then back_lines b ! nat (int (BackScreenLines b) + n)
     else screen_lines b ! nat n)"

definition back_readable :: "ScreenBuffer \<Rightarrow> bool" where
  "back_readable b \<longleftrightarrow> m_BackScreenLines b = [] \<or> m_BackAllocated b"

lemma Compose_body_eq:
  assumes ok: "buf_ok b" "back_readable b"
    and n: "- int (BackScreenLines b) \<le> n" "n < int (m_Height b)"
  shows "Compose_body b n st =
    Inr (join_step (occupied (fst (line_at b n)), snd (line_at b n)) st)"
proof (cases "n < 0")
  case True
  let ?i = "nat (int (BackScreenLines b) + n)"
  let ?m = "m_BackScreenLines b ! ?i"
  have i: "?i < length (m_BackScreenLines b)" using True n by (simp add: BackScreenLines_def nat_less_iff)
  then have fits: "start_index ?m + line_length ?m \<le> length (m_BackScreenSpaces b)"
    using ok(1) by (simp add: buf_ok_def list_all_length)
  have alloc: "m_BackAllocated b" using ok(2) i by (auto simp: back_readable_def)
  have L: "LineFromNo n b = Inr \<lparr>sp_data = Some (BackScreen, start_index ?m), sp_len = line_length ?m\<rparr>"
    using True n fits alloc by (simp add: LineFromNo_def BackScreenLines_def Let_def)
  have W: "LineWrapped n b = is_wrapped ?m"
    using True n by (simp add: LineWrapped_def MetaFromLineNo_def BackScreenLines_def)
  show ?thesis
    using True i fits
    by (auto simp: Compose_body_def L W span_contents_def mem_read_def line_at_def back_lines_def
        join_step_def Let_def take_OccupiedChars split: prod.split)
next
  case False
  then have y: "nat n < m_Height b" using n by linarith
  then have "snd (line_at b n) = LineWrapped n b" "fst (line_at b n) = row b (nat n)"
    using False ok(1) n by (simp_all add: line_at_def screen_lines_def LineWrapped_row)
  then show ?thesis
    using False n ok(1) y
    by (auto simp: Compose_body_def LineFromNo_row row_read join_step_def Let_def
        take_OccupiedChars split: prod.split)
qed

lemma for_up_pure:
  "(\<And>i s. lo \<le> i \<Longrightarrow> i < hi \<Longrightarrow> body i s = Inr (f i s)) \<Longrightarrow>
    for_up lo hi body s = Inr (fold f (upto lo (hi - 1)) s)"
proof (induction lo hi body s rule: for_up.induct)
  case (1 i hi body s)
  show ?case
  proof (cases "i < hi")
    case True
    with 1 show ?thesis by (simp add: for_up_step upto_rec1)
  next
    case False
    then show ?thesis by simp
  qed
qed

lemma Compose_eq:
  assumes "buf_ok b" and "back_readable b"
    and "- int (BackScreenLines b) \<le> from" and "to \<le> int (m_Height b)"
  shows "ComposeContinuousLines from to b =
    Inr (join_lines (trimmed (map (line_at b) (upto from (to - 1)))))"
proof -
  have "for_up from to (Compose_body b) (False, []) =
      Inr (fold (\<lambda>n. join_step (occupied (fst (line_at b n)), snd (line_at b n)))
        (upto from (to - 1)) (False, []))"
    by (rule for_up_pure) (use assms in \<open>simp add: Compose_body_eq\<close>)
  then show ?thesis
    by (simp add: ComposeContinuousLines_def join_lines_def trimmed_def fold_map comp_def
        case_prod_unfold)
qed

lemma line_at_back: "map (line_at b) (upto (- int (BackScreenLines b)) (- 1)) = back_lines b"
  by (rule nth_equalityI) (simp_all add: line_at_def nth_upto)

lemma line_at_screen:
  "buf_ok b \<Longrightarrow> map (line_at b) (upto 0 (int (m_Height b) - 1)) = screen_lines b"
  by (rule nth_equalityI) (simp_all add: line_at_def nth_upto)

lemma line_at_all:
  assumes "buf_ok b"
  shows "map (line_at b) (upto (- int (BackScreenLines b)) (int (m_Height b) - 1))
    = back_lines b @ screen_lines b"
proof -
  have "upto (- int (BackScreenLines b)) (int (m_Height b) - 1)
      = upto (- int (BackScreenLines b)) (- 1) @ upto 0 (int (m_Height b) - 1)"
    using assms upto_split1 [of "- int (BackScreenLines b)" 0 "int (m_Height b) - 1"]
    by (cases "BackScreenLines b"; simp add: buf_ok_def upto_split2)
  with assms show ?thesis by (simp add: line_at_back line_at_screen)
qed

section \<open>Distributing lines\<close>

lemma clear_back_props:
  "buf_ok b \<Longrightarrow> buf_ok (clear_back b)" "back_lines (clear_back b) = []"
  "m_Width (clear_back b) = m_Width b" "m_Height (clear_back b) = m_Height b"
  "m_BufferEraseChar (clear_back b) = m_BufferEraseChar b"
  "m_OnScreenLines (clear_back b) = m_OnScreenLines b"
  "screen_lines (clear_back b) = screen_lines b"
  by (simp_all add: clear_back_def buf_ok_def back_lines_def screen_lines_def rows_def
      row_def [abs_def] wraps_def)

lemma fill_bkscr_props:
  "buf_ok b \<Longrightarrow> buf_ok (fill_bkscr ds b) \<and> back_lines (fill_bkscr ds b) = back_lines b @ ds
     \<and> rows (fill_bkscr ds b) = rows b \<and> wraps (fill_bkscr ds b) = wraps b"
  by (induction ds b rule: fill_bkscr.induct) (auto simp: push_back_line_props)

lemma fill_bkscr_sel [simp]:
  "m_Width (fill_bkscr ds b) = m_Width b" "m_Height (fill_bkscr ds b) = m_Height b"
  "m_BufferEraseChar (fill_bkscr ds b) = m_BufferEraseChar b"
  "m_OnScreenLines (fill_bkscr ds b) = m_OnScreenLines b"
  by (induction ds b rule: fill_bkscr.induct) auto

lemma length_Fixup [simp]: "length (Fixup_loop s w ms) = length ms"
  by (induction s w ms rule: Fixup_loop.induct) auto

lemma nth_Fixup:
  "i < length ms \<Longrightarrow> Fixup_loop s w ms ! i = (ms ! i)\<lparr>start_index := s + i * w, line_length := w\<rparr>"
  by (induction s w ms arbitrary: i rule: Fixup_loop.induct)
    (auto simp: nth_Cons' algebra_simps)

lemma length_vec_resize [simp]: "length (vec_resize n v xs) = n"
  by (simp add: vec_resize_def min_def)

definition set_size :: "nat \<Rightarrow> nat \<Rightarrow> ScreenBuffer \<Rightarrow> ScreenBuffer" where
  "set_size sx sy b = b\<lparr>m_Width := sx, m_Height := sy\<rparr>"

lemma set_size_sel [simp]:
  "m_Width (set_size sx sy b) = sx" "m_Height (set_size sx sy b) = sy"
  "m_OnScreenLines (set_size sx sy b) = m_OnScreenLines b"
  "m_OnScreenSpaces (set_size sx sy b) = m_OnScreenSpaces b"
  "m_BufferEraseChar (set_size sx sy b) = m_BufferEraseChar b"
  "back_lines (set_size sx sy b) = back_lines b"
  by (simp_all add: set_size_def back_lines_def)

lemma size_eq: "(\<lambda>b. Inr (b\<lparr>m_Width := sx, m_Height := sy\<rparr>)) = (\<lambda>b. Inr (set_size sx sy b))"
  by (simp add: set_size_def)

lemma set_size_commute:
  "set_size sx sy (b\<lparr>m_OnScreenLines := ls\<rparr>) = (set_size sx sy b)\<lparr>m_OnScreenLines := ls\<rparr>"
  "set_size sx sy (b\<lparr>m_OnScreenSpaces := xs\<rparr>) = (set_size sx sy b)\<lparr>m_OnScreenSpaces := xs\<rparr>"
  by (cases b; simp add: set_size_def)+

lemma fill_scr_size:
  "bindR (fill_scr k ds b) (\<lambda>b. Inr (set_size sx sy b)) = fill_scr k ds (set_size sx sy b)"
proof (induction ds arbitrary: k b)
  case Nil
  then show ?case by simp
next
  case (Cons d ds)
  then show ?case
    by (cases d) (simp add: mem_write_def bindR_assoc set_size_commute)
qed

text \<open>A fresh rectangle: every cell is the erase character; the flags of old lines survive.\<close>

lemma new_rectangle_props:
  assumes "buf_ok b" and "0 < sx" and "0 < sy" and "sx * sy < 2 ^ 31"
  shows "buf_ok (set_size sx sy (new_rectangle sx sy b))"
    and "rows (set_size sx sy (new_rectangle sx sy b)) =
      replicate sy (replicate sx (m_BufferEraseChar b))"
    and "back_lines (set_size sx sy (new_rectangle sx sy b)) = back_lines b"
    and "wraps (set_size sx sy (new_rectangle sx sy b)) = vec_resize sy False (wraps b)"
proof -
  let ?b = "set_size sx sy (new_rectangle sx sy b)"
  have "start_index (m_OnScreenLines ?b ! i) = i * sx \<and> line_length (m_OnScreenLines ?b ! i) = sx"
    if "i < sy" for i
    using that by (simp add: new_rectangle_def FixupOnScreenLinesIndeces_def nth_Fixup)
  then show ok: "buf_ok ?b"
    using assms
    by (simp add: buf_ok_def) (simp add: set_size_def new_rectangle_def
        FixupOnScreenLinesIndeces_def ProduceRectangularSpaces_with_def mult.commute)
  show "rows ?b = replicate sy (replicate sx (m_BufferEraseChar b))"
  proof (rule nth_equalityI)
    fix y assume "y < length (rows ?b)"
    then have y: "y < sy" by simp
    have "row ?b y = replicate sx (m_BufferEraseChar b)"
      using row_end [OF y, of sx]
      by (simp add: row_def set_size_def new_rectangle_def ProduceRectangularSpaces_with_def
          min_def mult.commute)
    with y show "rows ?b ! y = replicate sy (replicate sx (m_BufferEraseChar b)) ! y" by simp
  qed simp
  show "back_lines ?b = back_lines b" 
    by (simp add: new_rectangle_def back_lines_def set_size_def)
  show "wraps ?b = vec_resize sy False (wraps b)"
    by (rule nth_equalityI)
      (auto simp: wraps_def new_rectangle_def FixupOnScreenLinesIndeces_def nth_Fixup
        vec_resize_def nth_append LineMeta_init_def)
qed

lemma fill_scr_rows:
  "buf_ok b \<Longrightarrow> k + length ds \<le> m_Height b \<Longrightarrow> \<forall>d \<in> set ds. length (fst d) \<le> m_Width b \<Longrightarrow>
    \<exists>b'. fill_scr k ds b = Inr b' \<and> buf_ok b' \<and> m_Width b' = m_Width b \<and> m_Height b' = m_Height b
      \<and> back_lines b' = back_lines b
      \<and> rows b' = take k (rows b) @ map2 (\<lambda>d r. overwrite 0 (fst d) r) ds (drop k (rows b))
                   @ drop (k + length ds) (rows b)
      \<and> wraps b' = overwrite k (map snd ds) (wraps b)"
proof (induction ds arbitrary: k b)
  case Nil
  then show ?case by simp
next
  case (Cons d ds)
  obtain xs w where d: "d = (xs, w)" by (cases d)
  have k: "k < m_Height b" and xs: "length xs \<le> m_Width b" using Cons.prems d by auto
  let ?b1 = "SetLineWrapped (int k) w (put_row k 0 xs b)"
  have step: "fill_scr k (d # ds) b = fill_scr (Suc k) ds ?b1"
  proof -
    have "k * m_Width b + length xs \<le> length (m_OnScreenSpaces b)"
      using put_row_end [of b k 0 "length xs"] Cons.prems(1) k xs by simp
    then show ?thesis
      using Cons.prems(1) k
      by (auto simp: d buf_ok_def mem_write_def put_row_def SetLineWrapped_def MetaFromLineNo_def)
  qed
  have p: "buf_ok (put_row k 0 xs b)" using Cons.prems(1) k xs by simp
  have hk: "0 \<le> int k" "int k < int (m_Height (put_row k 0 xs b))" using k by simp_all
  note sw = SetLineWrapped_row [OF p hk, of w]
  have rows1: "rows ?b1 = (rows b)[k := overwrite 0 xs (row b k)]"
    using sw(2) rows_put_row [of b k 0 xs] Cons.prems(1) k xs by simp
  have wraps1: "wraps ?b1 = (wraps b)[k := w]" using sw(3) by simp
  have back1: "back_lines ?b1 = back_lines b" using sw(7,8) by (simp add: back_lines_def)
  from Cons.IH [of ?b1 "Suc k"] sw(1) Cons.prems obtain b' where b':
    "fill_scr (Suc k) ds ?b1 = Inr b'" "buf_ok b'" "m_Width b' = m_Width b" "m_Height b' = m_Height b"
    "back_lines b' = back_lines b"
    "rows b' = take (Suc k) (rows ?b1) @ map2 (\<lambda>d r. overwrite 0 (fst d) r) ds (drop (Suc k) (rows ?b1))
        @ drop (Suc k + length ds) (rows ?b1)"
    "wraps b' = overwrite (Suc k) (map snd ds) (wraps ?b1)"
    by (auto simp: back1)
  have r: "drop k (rows b) = row b k # drop (Suc k) (rows b)"
    using k Cons_nth_drop_Suc [of k "rows b"] by simp
  have t: "take (Suc k) ((rows b)[k := x]) = take k (rows b) @ [x]" for x
    using k by (simp add: take_Suc_conv_app_nth)
  have "rows b' = take k (rows b) @ map2 (\<lambda>d r. overwrite 0 (fst d) r) (d # ds) (drop k (rows b))
        @ drop (k + length (d # ds)) (rows b)"
    unfolding b'(6) rows1 r t by (simp add: d)
  moreover have "wraps b' = overwrite k (map snd (d # ds)) (wraps b)"
    using Cons.prems(1,2) k unfolding b'(7) wraps1
    by (simp add: overwrite_def d take_Suc_conv_app_nth)
  ultimately show ?case using step b'(1-5) by simp
qed

text \<open>How a list of cut lines looks on a screen of a given size: padded with the erase character.\<close>

definition padded :: "nat \<Rightarrow> nat \<Rightarrow> Space \<Rightarrow> (Space list \<times> bool) list \<Rightarrow> Space list list" where
  "padded sx sy c ds = map (\<lambda>d. fst d @ replicate (sx - length (fst d)) c) ds
     @ replicate (sy - length ds) (replicate sx c)"

lemma overwrite_replicate:
  "length xs \<le> n \<Longrightarrow> overwrite 0 xs (replicate n c) = xs @ replicate (n - length xs) c"
  by (simp add: overwrite_def)

lemma fill_fresh:
  assumes "buf_ok b" and "0 < sx" and "0 < sy" and "sx * sy < 2 ^ 31"
    and "length ds \<le> sy" and "\<forall>d \<in> set ds. length (fst d) \<le> sx"
  shows "\<exists>b'. bindR (fill_scr 0 ds (new_rectangle sx sy b)) (\<lambda>b. Inr (set_size sx sy b)) = Inr b'
    \<and> buf_ok b' \<and> m_Width b' = sx \<and> m_Height b' = sy \<and> back_lines b' = back_lines b
    \<and> rows b' = padded sx sy (m_BufferEraseChar b) ds
    \<and> take (length ds) (wraps b') = map snd ds"
proof -
  let ?n = "set_size sx sy (new_rectangle sx sy b)"
  note n = new_rectangle_props [OF assms(1-4)]
  have pre: "0 + length ds \<le> m_Height ?n" "\<forall>d \<in> set ds. length (fst d) \<le> m_Width ?n"
    using assms(5,6) by simp_all
  from fill_scr_rows [OF n(1) pre] obtain b' where f:
    "fill_scr 0 ds ?n = Inr b'" "buf_ok b'" "m_Width b' = m_Width ?n" "m_Height b' = m_Height ?n"
    "back_lines b' = back_lines ?n"
    "rows b' = take 0 (rows ?n) @ map2 (\<lambda>d r. overwrite 0 (fst d) r) ds (drop 0 (rows ?n))
       @ drop (0 + length ds) (rows ?n)"
    "wraps b' = overwrite 0 (map snd ds) (wraps ?n)"
    by blast
  have b': "fill_scr 0 ds ?n = Inr b'" "buf_ok b'" "m_Width b' = sx" "m_Height b' = sy"
    "back_lines b' = back_lines b"
    "rows b' = map2 (\<lambda>d r. overwrite 0 (fst d) r) ds (rows ?n) @ drop (length ds) (rows ?n)"
    "wraps b' = overwrite 0 (map snd ds) (wraps ?n)"
    using f n(3) by simp_all
  have "map2 (\<lambda>d r. overwrite 0 (fst d) r) ds (replicate sy (replicate sx c))
      = map (\<lambda>d. fst d @ replicate (sx - length (fst d)) c) ds" for c
    using assms(5,6) by (intro nth_equalityI) (auto simp: overwrite_replicate)
  then have "rows b' = padded sx sy (m_BufferEraseChar b) ds"
    by (simp add: b'(6) n(2) padded_def)
  with b' show ?thesis by (simp add: fill_scr_size overwrite_def)
qed

lemma Resize_merge:
  assumes ok: "buf_ok b" "back_readable b" and size: "0 < sx" "0 < sy" "sx * sy < 2 ^ 31"
  defines "ds \<equiv> cut_lines sx (join_lines (trimmed (back_lines b @ screen_lines b)))"
  shows "\<exists>b'. ResizeScreen sx sy True b = Inr b' \<and> buf_ok b' \<and> m_Width b' = sx \<and> m_Height b' = sy
    \<and> back_lines b' = take (length ds - sy) ds
    \<and> rows b' = padded sx sy (m_BufferEraseChar b) (drop (length ds - sy) ds)
    \<and> take (min sy (length ds)) (wraps b') = map snd (drop (length ds - sy) ds)"
proof -
  let ?k = "length ds - sy"
  have comp: "ComposeContinuousLines (- int (BackScreenLines b)) (int (m_Height b)) b
      = Inr (join_lines (trimmed (back_lines b @ screen_lines b)))"
    using Compose_eq [OF ok] line_at_all [OF ok(1)] by simp
  have fits: "\<forall>d \<in> set (drop ?k ds). length (fst d) \<le> sx"
    unfolding ds_def by (auto dest!: in_set_dropD dest: cut_lines_width [OF size(1)])
  let ?b = "fill_bkscr (take ?k ds) (clear_back b)"
  have b: "buf_ok ?b" "back_lines ?b = take ?k ds" "m_BufferEraseChar ?b = m_BufferEraseChar b"
    using fill_bkscr_props [of "clear_back b"] clear_back_props [of b] ok(1) by simp_all
  have "length (drop ?k ds) \<le> sy" by simp
  from fill_fresh [OF b(1) size this fits, unfolded b(2) b(3)]
  obtain b' where b': "bindR (fill_scr 0 (drop ?k ds) (new_rectangle sx sy ?b))
      (\<lambda>b. Inr (set_size sx sy b)) = Inr b'" "buf_ok b'" "m_Width b' = sx" "m_Height b' = sy"
    "back_lines b' = take ?k ds"
    "rows b' = padded sx sy (m_BufferEraseChar b) (drop ?k ds)"
    "take (length (drop ?k ds)) (wraps b') = map snd (drop ?k ds)"
    by blast
  have dec: "DecomposeContinuousLines (join_lines (trimmed (back_lines b @ screen_lines b))) sx = Inr ds"
    using size by (simp add: Decompose_cut ds_def)
  have "ResizeScreen sx sy True b = Inr b'"
  proof (cases "length ds > sy")
    case True
    with b'(1) size show ?thesis by (simp add: ResizeScreen_def comp dec Let_def size_eq)
  next
    case False
    with b'(1) size show ?thesis by (simp add: ResizeScreen_def comp dec Let_def size_eq)
  qed
  moreover have "length (drop ?k ds) = min sy (length ds)" by simp
  ultimately show ?thesis using b' by metis
qed

lemma Resize_split:
  assumes ok: "buf_ok b" "back_readable b" and size: "0 < sx" "0 < sy" "sx * sy < 2 ^ 31"
  defines "ds \<equiv> cut_lines sx (join_lines (trimmed (screen_lines b)))"
  shows "\<exists>b'. ResizeScreen sx sy False b = Inr b' \<and> buf_ok b' \<and> m_Width b' = sx \<and> m_Height b' = sy
    \<and> back_lines b' = cut_lines sx (join_lines (trimmed (back_lines b)))
    \<and> rows b' = padded sx sy (m_BufferEraseChar b) (take sy ds)
    \<and> take (min sy (length ds)) (wraps b') = map snd (take sy ds)"
proof -
  let ?bk = "cut_lines sx (join_lines (trimmed (back_lines b)))"
  let ?b = "fill_bkscr ?bk (clear_back b)"
  have comp: "ComposeContinuousLines (- int (BackScreenLines b)) 0 b
      = Inr (join_lines (trimmed (back_lines b)))"
    using Compose_eq [OF ok, of _ 0] line_at_back [of b] by simp
  have b: "buf_ok ?b" "back_lines ?b = ?bk" "m_BufferEraseChar ?b = m_BufferEraseChar b"
      "screen_lines ?b = screen_lines b" "m_Height ?b = m_Height b"
    using fill_bkscr_props [of "clear_back b"] clear_back_props [of b] ok(1)
    by (simp_all add: screen_lines_def)
  have on: "ComposeContinuousLines 0 (int (m_Height b)) ?b = Inr (join_lines (trimmed (screen_lines b)))"
  proof -
    have "Compose_body ?b n st = Inr (join_step (occupied (fst (line_at ?b n)), snd (line_at ?b n)) st)"
      if "0 \<le> n" "n < int (m_Height b)" for n st
    proof -
      have "LineFromNo n ?b = Inr (row_span ?b (nat n))" "nat n < m_Height ?b"
        using LineFromNo_row [OF b(1), of n] that b(5) by auto
      moreover have "snd (line_at ?b n) = LineWrapped n ?b" "fst (line_at ?b n) = row ?b (nat n)"
        using that b(1,5) by (simp_all add: line_at_def screen_lines_def LineWrapped_row)
      ultimately show ?thesis
        using b(1) by (auto simp: Compose_body_def row_read join_step_def Let_def
            take_OccupiedChars split: prod.split)
    qed
    then have "for_up 0 (int (m_Height b)) (Compose_body ?b) (False, []) =
        Inr (fold (\<lambda>n. join_step (occupied (fst (line_at ?b n)), snd (line_at ?b n)))
          (upto 0 (int (m_Height b) - 1)) (False, []))"
      by (intro for_up_pure)
    moreover have "map (line_at ?b) (upto 0 (int (m_Height b) - 1)) = screen_lines b"
      using line_at_screen [OF b(1)] b(4,5) by simp
    ultimately show ?thesis
      by (simp add: ComposeContinuousLines_def join_lines_def trimmed_def comp_def
          case_prod_unfold fold_map flip: \<open>map (line_at ?b) (upto 0 (int (m_Height b) - 1)) = screen_lines b\<close>)
  qed
  have fits: "\<forall>d \<in> set (take sy ds). length (fst d) \<le> sx"
    unfolding ds_def by (auto dest!: in_set_takeD dest: cut_lines_width [OF size(1)])
  have "length (take sy ds) \<le> sy" by simp
  from fill_fresh [OF b(1) size this fits, unfolded b(2) b(3)] obtain b' where b':
    "bindR (fill_scr 0 (take sy ds) (new_rectangle sx sy ?b)) (\<lambda>b. Inr (set_size sx sy b)) = Inr b'"
    "buf_ok b' \<and> m_Width b' = sx \<and> m_Height b' = sy \<and> back_lines b' = ?bk
      \<and> rows b' = padded sx sy (m_BufferEraseChar b) (take sy ds)
      \<and> take (length (take sy ds)) (wraps b') = map snd (take sy ds)"
    by blast
  have dec: "DecomposeContinuousLines (join_lines (trimmed (screen_lines b))) sx = Inr ds"
    using size by (simp add: Decompose_cut ds_def)
  have decb: "DecomposeContinuousLines (join_lines (trimmed (back_lines b))) sx = Inr ?bk"
    using size by (simp add: Decompose_cut)
  have "ResizeScreen sx sy False b = Inr b'"
    using b'(1) size b(5)
    by (simp add: ResizeScreen_def comp on dec decb Let_def size_eq)
  with b'(2) show ?thesis by (auto simp: min.commute)
qed

end
