(* ===== verification/Screen.thy ===== *)
theory Screen
  imports ScreenResize
begin

text \<open>
  The terminal screen (\<open>Screen\<close> in \<open>Source/Term/source/Screen.cpp\<close> and
  \<open>Source/Term/include/Term/Screen.h\<close>): a buffer with a cursor, the attributes for new cells,
  and the pair of saved screens behind the alternate screen. Cursor arithmetic is \<open>int\<close>
  arithmetic with its overflow. The width of a character is a parameter of \<open>PutCh\<close>. The lock is
  not modelled: the interpreter holds it for the whole of a call.
\<close>

section \<open>State\<close>

record SavedScreen =
  saved_snapshot :: Snapshot
  saved_pos_x :: int
  saved_pos_y :: int

definition SavedScreen_init :: SavedScreen where
  "SavedScreen_init = \<lparr>saved_snapshot = Snapshot_init, saved_pos_x = 0, saved_pos_y = 0\<rparr>"

record Screen =
  m_Buffer :: ScreenBuffer
  m_PosX :: int
  m_PosY :: int
  m_EraseChar :: Space
  m_AlternateScreen :: bool
  m_LineOverflown :: bool
  m_ReverseVideo :: bool
  m_PrimaryScreenshot :: SavedScreen
  m_AlternativeScreenshot :: SavedScreen

abbreviation Width :: "Screen \<Rightarrow> int" where "Width s \<equiv> int (m_Width (m_Buffer s))"
abbreviation Height :: "Screen \<Rightarrow> int" where "Height s \<equiv> int (m_Height (m_Buffer s))"

definition on_buffer :: "(ScreenBuffer \<Rightarrow> ScreenBuffer res) \<Rightarrow> Screen \<Rightarrow> Screen res" where
  "on_buffer f s = bindR (f (m_Buffer s)) (\<lambda>b. Inr (s\<lparr>m_Buffer := b\<rparr>))"

section \<open>Cursor\<close>

definition GoTo :: "int \<Rightarrow> int \<Rightarrow> Screen \<Rightarrow> Screen" where
  "GoTo x y s =
     (let x1 = max x 0; x2 = (if x1 \<ge> Width s then Width s - 1 else x1);
          y1 = max y 0; y2 = (if y1 \<ge> Height s then Height s - 1 else y1) in
      s\<lparr>m_PosX := x2, m_PosY := y2, m_LineOverflown := False\<rparr>)"

definition GoToDefaultPosition :: "Screen \<Rightarrow> Screen" where
  "GoToDefaultPosition s = GoTo 0 0 s"

definition DoCursorUp :: "int \<Rightarrow> Screen \<Rightarrow> Screen res" where
  "DoCursorUp n s = bindR (mk_int (m_PosY s - n)) (\<lambda>y. Inr (GoTo (m_PosX s) y s))"

definition DoCursorDown :: "int \<Rightarrow> Screen \<Rightarrow> Screen res" where
  "DoCursorDown n s = bindR (mk_int (m_PosY s + n)) (\<lambda>y. Inr (GoTo (m_PosX s) y s))"

definition DoCursorLeft :: "int \<Rightarrow> Screen \<Rightarrow> Screen res" where
  "DoCursorLeft n s = bindR (mk_int (m_PosX s - n)) (\<lambda>x. Inr (GoTo x (m_PosY s) s))"

definition DoCursorRight :: "int \<Rightarrow> Screen \<Rightarrow> Screen res" where
  "DoCursorRight n s = bindR (mk_int (m_PosX s + n)) (\<lambda>x. Inr (GoTo x (m_PosY s) s))"

definition Screen_init :: "nat \<Rightarrow> nat \<Rightarrow> Screen" where
  "Screen_init w h = GoToDefaultPosition \<lparr>m_Buffer = ScreenBuffer_init w h, m_PosX = 0, m_PosY = 0,
     m_EraseChar = DefaultEraseChar, m_AlternateScreen = False, m_LineOverflown = False,
     m_ReverseVideo = False, m_PrimaryScreenshot = SavedScreen_init,
     m_AlternativeScreenshot = SavedScreen_init\<rparr>"

section \<open>Characters\<close>

definition GetCh :: "Screen \<Rightarrow> u32 res" where
  "GetCh s = bindR (LineFromNo (m_PosY s) (m_Buffer s)) (\<lambda>line.
     if sp_len line = 0 then Inr 0
     else if m_PosX s < int (sp_len line)
     then bindR (span_get line (m_PosX s) (m_Buffer s)) (\<lambda>sp. Inr (sp_l sp))
     else Inr 0)"

definition PutCh :: "(u32 \<Rightarrow> bool) \<Rightarrow> u32 \<Rightarrow> Screen \<Rightarrow> Screen res" where
  "PutCh IsDoubleWidth char s = bindR (LineFromNo (m_PosY s) (m_Buffer s)) (\<lambda>line.
     if sp_len line = 0 then Inr s
     else let line_len = int (sp_len line);
              sp = (m_EraseChar s)\<lparr>sp_l := char\<rparr>;
              is_dw = IsDoubleWidth char in
       bindR (span_set line (m_PosX s) sp (m_Buffer s)) (\<lambda>b.
       bindR (if is_dw \<and> m_PosX s + 1 < line_len
              then span_set line (m_PosX s + 1) (sp\<lparr>sp_l := MultiCellGlyph\<rparr>) b
              else Inr b) (\<lambda>b.
       let overflown = (if m_PosX s = line_len - 1 \<or> (m_PosX s = line_len - 2 \<and> is_dw)
                        then True else m_LineOverflown s) in
       Inr (s\<lparr>m_Buffer := SetLineWrapped (m_PosY s) False b, m_LineOverflown := overflown\<rparr>))))"

definition PutWrap :: "Screen \<Rightarrow> Screen" where
  "PutWrap s = s\<lparr>m_Buffer := SetLineWrapped (m_PosY s) True (m_Buffer s)\<rparr>"

section \<open>Erasure\<close>

text \<open>The loop bodies: a line filled and unwrapped, a line unwrapped and set cell by cell.\<close>

definition EraseLine :: "Space \<Rightarrow> int \<Rightarrow> ScreenBuffer \<Rightarrow> ScreenBuffer res" where
  "EraseLine c i b = bindR (LineFromNo i b) (\<lambda>l.
     bindR (span_fill l 0 (int (sp_len l)) c b) (\<lambda>b. Inr (SetLineWrapped i False b)))"

definition EraseLineFrom :: "Space \<Rightarrow> int \<Rightarrow> int \<Rightarrow> int \<Rightarrow> ScreenBuffer \<Rightarrow> ScreenBuffer res" where
  "EraseLineFrom c width j0 i b = (let b1 = SetLineWrapped i False b in
     bindR (LineFromNo i b1) (\<lambda>chars. for_up j0 width (\<lambda>j b. ptr_set chars j c b) b1))"

text \<open>The loop of mode 1 stops at the cursor's line; \<open>n\<close> lines are left.\<close>

fun Erase_to_cursor :: "nat \<Rightarrow> int \<Rightarrow> Screen \<Rightarrow> ScreenBuffer \<Rightarrow> ScreenBuffer res" where
  "Erase_to_cursor 0 i s b = Inr b"
| "Erase_to_cursor (Suc n) i s b =
     (if i \<noteq> m_PosY s then
        bindR (EraseLine (m_EraseChar s) i b) (\<lambda>b. Erase_to_cursor n (i + 1) s b)
      else bindR (LineFromNo i b) (\<lambda>l.
        span_fill l 0 (min (m_PosX s + 1) (int (sp_len l))) (m_EraseChar s) b))"

definition DoEraseScreen :: "int \<Rightarrow> Screen \<Rightarrow> Screen res" where
  "DoEraseScreen mode s =
     (if mode = 1 then on_buffer (Erase_to_cursor (m_Height (m_Buffer s)) 0 s) s
      else if mode = 2 then
        on_buffer (for_up 0 (Height s) (EraseLine (m_EraseChar s))) s
      else
        on_buffer (for_up (m_PosY s) (Height s) (\<lambda>i b.
          EraseLineFrom (m_EraseChar s) (Width s) (if i = m_PosY s then m_PosX s else 0) i b)) s)"

definition EraseInLine :: "int \<Rightarrow> Screen \<Rightarrow> Screen res" where
  "EraseInLine mode s = bindR (LineFromNo (m_PosY s) (m_Buffer s)) (\<lambda>line.
     if sp_len line = 0 then Inr s
     else let e = int (sp_len line);
              i' = (if mode = 0 then min (m_PosX s) e else 0);
              e' = (if mode = 1 then min (m_PosX s + 1) e else e) in
       on_buffer (span_fill line i' e' (m_EraseChar s)) s)"

definition EraseInLineCount :: "u32 \<Rightarrow> Screen \<Rightarrow> Screen res" where
  "EraseInLineCount n s = bindR (LineFromNo (m_PosY s) (m_Buffer s)) (\<lambda>line.
     if sp_len line = 0 then Inr s
     else let i = m_PosX s; e = min (i + int (unat n)) (int (sp_len line)) in
       on_buffer (span_fill line i e (m_EraseChar s)) s)"

definition EraseAt :: "u32 \<Rightarrow> u32 \<Rightarrow> u32 \<Rightarrow> Screen \<Rightarrow> Screen res" where
  "EraseAt x y count s = bindR (LineFromNo (sint y) (m_Buffer s)) (\<lambda>line.
     if sp_len line = 0 then Inr s
     else let i = int (unat x); e = min (i + int (unat count)) (int (sp_len line)) in
       on_buffer (span_fill line i e (m_EraseChar s)) s)"

definition FillLine :: "Space \<Rightarrow> int \<Rightarrow> ScreenBuffer \<Rightarrow> ScreenBuffer res" where
  "FillLine sp y b = bindR (LineFromNo y b) (\<lambda>line. span_fill line 0 (int (sp_len line)) sp b)"

definition FillScreenWithSpace :: "Space \<Rightarrow> Screen \<Rightarrow> Screen res" where
  "FillScreenWithSpace sp s = on_buffer (for_up 0 (Height s) (FillLine sp)) s"

section \<open>Attributes\<close>

definition set_erase_char :: "(Space \<Rightarrow> Space) \<Rightarrow> Screen \<Rightarrow> Screen" where
  "set_erase_char f s = s\<lparr>m_EraseChar := f (m_EraseChar s),
     m_Buffer := SetEraseChar (f (m_EraseChar s)) (m_Buffer s)\<rparr>"

definition SetFgColor :: "Color option \<Rightarrow> Screen \<Rightarrow> Screen" where
  "SetFgColor c = set_erase_char (\<lambda>e. case c of
      Some k \<Rightarrow> e\<lparr>sp_foreground := k, sp_customfg := True\<rparr>
    | None \<Rightarrow> e\<lparr>sp_foreground := 0, sp_customfg := False\<rparr>)"

definition SetBgColor :: "Color option \<Rightarrow> Screen \<Rightarrow> Screen" where
  "SetBgColor c = set_erase_char (\<lambda>e. case c of
      Some k \<Rightarrow> e\<lparr>sp_background := k, sp_custombg := True\<rparr>
    | None \<Rightarrow> e\<lparr>sp_background := 0, sp_custombg := False\<rparr>)"

definition SetFaint :: "bool \<Rightarrow> Screen \<Rightarrow> Screen" where
  "SetFaint v = set_erase_char (\<lambda>e. e\<lparr>sp_faint := v\<rparr>)"
definition SetUnderline :: "bool \<Rightarrow> Screen \<Rightarrow> Screen" where
  "SetUnderline v = set_erase_char (\<lambda>e. e\<lparr>sp_underline := v\<rparr>)"
definition SetCrossed :: "bool \<Rightarrow> Screen \<Rightarrow> Screen" where
  "SetCrossed v = set_erase_char (\<lambda>e. e\<lparr>sp_crossed := v\<rparr>)"
definition SetReverse :: "bool \<Rightarrow> Screen \<Rightarrow> Screen" where
  "SetReverse v = set_erase_char (\<lambda>e. e\<lparr>sp_reverse := v\<rparr>)"
definition SetBold :: "bool \<Rightarrow> Screen \<Rightarrow> Screen" where
  "SetBold v = set_erase_char (\<lambda>e. e\<lparr>sp_bold := v\<rparr>)"
definition SetItalic :: "bool \<Rightarrow> Screen \<Rightarrow> Screen" where
  "SetItalic v = set_erase_char (\<lambda>e. e\<lparr>sp_italic := v\<rparr>)"
definition SetInvisible :: "bool \<Rightarrow> Screen \<Rightarrow> Screen" where
  "SetInvisible v = set_erase_char (\<lambda>e. e\<lparr>sp_invisible := v\<rparr>)"
definition SetBlink :: "bool \<Rightarrow> Screen \<Rightarrow> Screen" where
  "SetBlink v = set_erase_char (\<lambda>e. e\<lparr>sp_blink := v\<rparr>)"

section \<open>Alternate screen\<close>

definition CaptureScreen :: "Screen \<Rightarrow> SavedScreen res" where
  "CaptureScreen s = bindR (MakeSnapshot (m_Buffer s)) (\<lambda>snap.
     Inr \<lparr>saved_snapshot = snap, saved_pos_x = m_PosX s, saved_pos_y = m_PosY s\<rparr>)"

definition SetAlternateScreen :: "bool \<Rightarrow> Screen \<Rightarrow> Screen res" where
  "SetAlternateScreen is_alternate s =
     (if m_AlternateScreen s = is_alternate then Inr s
      else bindR (CaptureScreen s) (\<lambda>captured.
        if m_AlternateScreen s then
          bindR (on_buffer (RevertToSnapshot (saved_snapshot (m_PrimaryScreenshot s)))
                  (s\<lparr>m_AlternativeScreenshot := captured\<rparr>)) (\<lambda>s.
          Inr ((GoTo (saved_pos_x (m_PrimaryScreenshot s)) (saved_pos_y (m_PrimaryScreenshot s)) s)
               \<lparr>m_AlternateScreen := is_alternate\<rparr>))
        else
          bindR (on_buffer (RevertToSnapshot (saved_snapshot (m_AlternativeScreenshot s)))
                  (s\<lparr>m_PrimaryScreenshot := captured\<rparr>)) (\<lambda>s.
          Inr ((GoTo 0 0 s)\<lparr>m_AlternateScreen := is_alternate\<rparr>))))"

section \<open>Shifting and scrolling\<close>

text \<open>\<open>chars[to] = chars[from]\<close> through the pointer of a line.\<close>

definition ptr_move :: "Span \<Rightarrow> int \<Rightarrow> int \<Rightarrow> ScreenBuffer \<Rightarrow> ScreenBuffer res" where
  "ptr_move chars from to b = bindR (ptr_get chars from b) (\<lambda>v. ptr_set chars to v b)"

definition DoShiftRowLeft :: "int \<Rightarrow> Screen \<Rightarrow> Screen res" where
  "DoShiftRowLeft n s = bindR (LineFromNo (m_PosY s) (m_Buffer s)) (\<lambda>chars.
     if sp_len chars = 0 then Inr s
     else bindR (mk_int (m_PosX s + n)) (\<lambda>start.
       on_buffer (\<lambda>b.
         bindR (for_up start (Width s)
           (\<lambda>x b. bindR (mk_int (x - n)) (\<lambda>d. ptr_move chars x d b)) b)
         (for_up 0 n (\<lambda>i b. ptr_set chars (Width s - i - 1) (m_EraseChar s) b))) s))"

definition DoShiftRowRight :: "int \<Rightarrow> Screen \<Rightarrow> Screen res" where
  "DoShiftRowRight n s = bindR (LineFromNo (m_PosY s) (m_Buffer s)) (\<lambda>chars.
     if sp_len chars = 0 then Inr s
     else bindR (mk_int (m_PosX s + n)) (\<lambda>lo.
       on_buffer (\<lambda>b.
         bindR (for_down (Width s - 1) lo
           (\<lambda>x b. bindR (mk_int (x - n)) (\<lambda>d. ptr_move chars d x b)) b)
         (for_up 0 n (\<lambda>i b. bindR (mk_int (m_PosX s + i)) (\<lambda>x.
            ptr_set chars x (m_EraseChar s) b)))) s))"

definition CopyLineChars :: "int \<Rightarrow> int \<Rightarrow> ScreenBuffer \<Rightarrow> ScreenBuffer res" where
  "CopyLineChars from to b =
     bindR (LineFromNo from b) (\<lambda>src. bindR (LineFromNo to b) (\<lambda>dst.
       if sp_len src \<noteq> 0 \<and> sp_len dst \<noteq> 0 then
         bindR (span_contents (src\<lparr>sp_len := min (sp_len src) (sp_len dst)\<rparr>) b) (\<lambda>xs.
         span_write dst 0 xs b)
       else Inr b))"

definition ClearLine :: "Space \<Rightarrow> int \<Rightarrow> ScreenBuffer \<Rightarrow> ScreenBuffer res" where
  "ClearLine erase ind b = bindR (LineFromNo ind b) (\<lambda>line.
     if sp_len line \<noteq> 0 then
       bindR (span_fill line 0 (int (sp_len line)) erase b) (\<lambda>b.
       Inr (SetLineWrapped ind False b))
     else Inr b)"

text \<open>The body of both scrolling loops: a line moves with its wrap flag.\<close>

definition MoveLine :: "int \<Rightarrow> int \<Rightarrow> ScreenBuffer \<Rightarrow> ScreenBuffer res" where
  "MoveLine n_src n_dst b = bindR (CopyLineChars n_src n_dst b) (\<lambda>b.
     Inr (SetLineWrapped n_dst (LineWrapped n_src b) b))"

function down_loop :: "int \<Rightarrow> int \<Rightarrow> int \<Rightarrow> (int \<Rightarrow> int \<Rightarrow> 's \<Rightarrow> 's res) \<Rightarrow> 's \<Rightarrow> 's res" where
  "down_loop n_dst n_src first move b =
     (if n_dst > first \<and> n_src \<ge> first
      then bindR (move n_src n_dst b) (\<lambda>b. down_loop (n_dst - 1) (n_src - 1) first move b)
      else Inr b)"
  by pat_completeness auto
termination
  by (relation "measure (\<lambda>(n_dst, n_src, first, move, b). nat (n_dst - first))") auto

function up_loop :: "int \<Rightarrow> int \<Rightarrow> int \<Rightarrow> (int \<Rightarrow> int \<Rightarrow> 's \<Rightarrow> 's res) \<Rightarrow> 's \<Rightarrow> 's res" where
  "up_loop n_src n_dst bottom move b =
     (if n_src < bottom \<and> n_dst < bottom
      then bindR (move n_src n_dst b) (\<lambda>b. up_loop (n_src + 1) (n_dst + 1) bottom move b)
      else Inr b)"
  by pat_completeness auto
termination
  by (relation "measure (\<lambda>(n_src, n_dst, bottom, move, b). nat (bottom - n_src))") auto

declare down_loop.simps [simp del] up_loop.simps [simp del]

definition ScrollDown :: "u32 \<Rightarrow> u32 \<Rightarrow> u32 \<Rightarrow> Screen \<Rightarrow> Screen res" where
  "ScrollDown top0 bottom0 lines0 s =
     (let top = sint top0; bottom = min (sint bottom0) (Height s); lines = sint lines0 in
      if top \<ge> Height s then Inr s
      else if top \<ge> bottom then Inr s
      else if lines < 1 then Inr s
      else on_buffer (\<lambda>b.
        bindR (mk_int (bottom - 1 - lines)) (\<lambda>n_src.
        bindR (down_loop (bottom - 1) n_src top MoveLine b) (\<lambda>b.
        bindR (mk_int (top + lines)) (\<lambda>last.
        for_up top (min last bottom) (ClearLine (m_EraseChar s)) b)))) s)"

definition DoScrollUp :: "u32 \<Rightarrow> u32 \<Rightarrow> u32 \<Rightarrow> Screen \<Rightarrow> Screen res" where
  "DoScrollUp top0 bottom0 lines0 s =
     (let top = sint top0; bottom = min (sint bottom0) (Height s); lines = sint lines0 in
      if top \<ge> Height s then Inr s
      else if top \<ge> bottom then Inr s
      else if lines < 1 then Inr s
      else on_buffer (\<lambda>b.
        bindR (if top = 0 \<and> bottom = Height s \<and> \<not> m_AlternateScreen s then
                 for_up 0 (min lines (Height s)) (\<lambda>i b.
                   bindR (LineFromNo i b) (\<lambda>line.
                   bindR (assertR (sp_len line \<noteq> 0)) (\<lambda>_.
                   bindR (span_contents line b) (\<lambda>xs.
                   FeedBackscreen xs (LineWrapped i b) b)))) b
               else Inr b) (\<lambda>b.
        bindR (mk_int (top + lines)) (\<lambda>n_src.
        bindR (up_loop n_src top bottom MoveLine b) (\<lambda>b.
        bindR (mk_int (bottom - lines)) (\<lambda>low.
        for_down (bottom - 1) (max low top) (ClearLine (m_EraseChar s)) b))))) s)"

section \<open>Resizing\<close>

definition Screen_ResizeScreen :: "nat \<Rightarrow> nat \<Rightarrow> Screen \<Rightarrow> Screen res" where
  "Screen_ResizeScreen sx sy s =
     (if Width s = int sx \<and> Height s = int sy then Inr s
      else if sx = 0 \<or> sy = 0 then Inl Throws_invalid_argument
      else let feed_from_bs = (m_PosY s = Height s - 1) in
        bindR (on_buffer (ResizeScreen sx sy (feed_from_bs \<and> \<not> m_AlternateScreen s)) s) (\<lambda>s.
        Inr (GoTo (m_PosX s) (if feed_from_bs then Height s - 1 else m_PosY s) s)))"

definition SetVideoReverse :: "bool \<Rightarrow> Screen \<Rightarrow> Screen" where
  "SetVideoReverse r s = s\<lparr>m_ReverseVideo := r\<rparr>"

end
