(* ===== verification/Interpreter.thy ===== *)
theory Interpreter
  imports Decimal TermCommands TranslateMaps CharRegistry Screen
begin

text \<open>
  The interpreter of terminal commands (\<open>InterpreterImpl\<close> in
  \<open>Source/Term/source/InterpreterImpl.cpp\<close> and its header): one routine per command, over a
  state that holds the screen, the registry of composed characters and the modes. The calls it
  makes to its callbacks and to the input translator are events, recorded in their order.
\<close>

section \<open>State\<close>

datatype RequestedMouseEvents = RME_None | RME_X10 | RME_Normal | RME_ButtonTracking | RME_Any

datatype MouseReportingMode = MRM_X10 | MRM_Normal | MRM_UTF8 | MRM_SGR

datatype TitleChangeKind = TitleKind_Icon | TitleKind_Window

datatype Event =
    Ev_Output bytes
  | Ev_Bell
  | Ev_TitleChanged bytes TitleChangeKind
  | Ev_ShowCursorChanged bool
  | Ev_CursorStyleChanged "CursorMode option"
  | Ev_RequestedMouseEventsChanged RequestedMouseEvents
  | Ev_SetApplicationCursorKeys bool
  | Ev_SetBracketedPaste bool
  | Ev_SetMouseReportingMode MouseReportingMode

record Extent =
  ext_height :: int
  ext_width :: int
  ext_top :: int        \<comment> \<open>closed\<close>
  ext_bottom :: int     \<comment> \<open>open\<close>

record Rendition =
  r_faint :: bool
  r_inverse :: bool
  r_bold :: bool
  r_italic :: bool
  r_invisible :: bool
  r_blink :: bool
  r_underline :: bool
  r_crossed :: bool
  r_fg_color :: "Color option"
  r_bg_color :: "Color option"

definition Rendition_init :: Rendition where
  "Rendition_init = \<lparr>r_faint = False, r_inverse = False, r_bold = False, r_italic = False,
     r_invisible = False, r_blink = False, r_underline = False, r_crossed = False,
     r_fg_color = None, r_bg_color = None\<rparr>"

text \<open>A translate map is a pointer into \<open>g_TranslateMaps\<close>, here the index of the map.\<close>

record SavedState =
  st_x :: int
  st_y :: int
  st_rendition :: Rendition
  st_character_sets :: "nat list"
  st_translate_map :: "nat option"

record Titles =
  t_icon :: bytes
  t_window :: bytes
  t_saved_icon :: "bytes list"     \<comment> \<open>the back of the vector is the head\<close>
  t_saved_window :: "bytes list"

record Interp =
  m_Screen :: Screen
  m_Registry :: Registry
  m_HasOutput :: bool
  m_HasBell :: bool
  m_HasInputTranslator :: bool
  m_Extent :: Extent
  m_TabStops :: "bool list"
  m_TranslateMap :: "nat option"
  m_CS :: "nat list"
  m_OriginLineMode :: bool
  m_AllowScreenResize :: bool
  m_AutoWrapMode :: bool
  m_InsertMode :: bool
  m_CursorShown :: bool
  m_MouseReportingUTF8 :: bool
  m_MouseReportingSGR :: bool
  m_Rendition :: Rendition
  m_RequestedMouseEvents :: RequestedMouseEvents
  m_SavedState :: "SavedState option"
  m_Titles :: Titles
  m_Events :: "Event list"

definition with_screen :: "(Screen \<Rightarrow> Screen res) \<Rightarrow> Interp \<Rightarrow> Interp res" where
  "with_screen f i = bindR (f (m_Screen i)) (\<lambda>s. Inr (i\<lparr>m_Screen := s\<rparr>))"

definition on_screen :: "(Screen \<Rightarrow> Screen) \<Rightarrow> Interp \<Rightarrow> Interp" where
  "on_screen f i = i\<lparr>m_Screen := f (m_Screen i)\<rparr>"

definition event :: "Event \<Rightarrow> Interp \<Rightarrow> Interp" where
  "event e i = i\<lparr>m_Events := m_Events i @ [e]\<rparr>"

abbreviation CursorX :: "Interp \<Rightarrow> int" where "CursorX i \<equiv> m_PosX (m_Screen i)"
abbreviation CursorY :: "Interp \<Rightarrow> int" where "CursorY i \<equiv> m_PosY (m_Screen i)"

definition ResetToDefaultTabStops :: "bool list" where
  "ResetToDefaultTabStops = map (\<lambda>n. n mod 8 = 0) [0..<1024]"

text \<open>\<open>std::clamp\<close>, which asserts that its bounds are in order.\<close>

definition clampR :: "int \<Rightarrow> int \<Rightarrow> int \<Rightarrow> int res" where
  "clampR v lo hi = bindR (assertR (lo \<le> hi)) (\<lambda>_. Inr (max lo (min v hi)))"

section \<open>Attributes\<close>

definition set_fg :: "Color option \<Rightarrow> Interp \<Rightarrow> Interp" where
  "set_fg c i = on_screen (SetFgColor c) (i\<lparr>m_Rendition := (m_Rendition i)\<lparr>r_fg_color := c\<rparr>\<rparr>)"
definition set_bg :: "Color option \<Rightarrow> Interp \<Rightarrow> Interp" where
  "set_bg c i = on_screen (SetBgColor c) (i\<lparr>m_Rendition := (m_Rendition i)\<lparr>r_bg_color := c\<rparr>\<rparr>)"
definition set_faint :: "bool \<Rightarrow> Interp \<Rightarrow> Interp" where
  "set_faint v i = on_screen (SetFaint v) (i\<lparr>m_Rendition := (m_Rendition i)\<lparr>r_faint := v\<rparr>\<rparr>)"
definition set_inverse :: "bool \<Rightarrow> Interp \<Rightarrow> Interp" where
  "set_inverse v i = on_screen (SetReverse v) (i\<lparr>m_Rendition := (m_Rendition i)\<lparr>r_inverse := v\<rparr>\<rparr>)"
definition set_bold :: "bool \<Rightarrow> Interp \<Rightarrow> Interp" where
  "set_bold v i = on_screen (SetBold v) (i\<lparr>m_Rendition := (m_Rendition i)\<lparr>r_bold := v\<rparr>\<rparr>)"
definition set_italic :: "bool \<Rightarrow> Interp \<Rightarrow> Interp" where
  "set_italic v i = on_screen (SetItalic v) (i\<lparr>m_Rendition := (m_Rendition i)\<lparr>r_italic := v\<rparr>\<rparr>)"
definition set_invisible :: "bool \<Rightarrow> Interp \<Rightarrow> Interp" where
  "set_invisible v i = on_screen (SetInvisible v) (i\<lparr>m_Rendition := (m_Rendition i)\<lparr>r_invisible := v\<rparr>\<rparr>)"
definition set_blink :: "bool \<Rightarrow> Interp \<Rightarrow> Interp" where
  "set_blink v i = on_screen (SetBlink v) (i\<lparr>m_Rendition := (m_Rendition i)\<lparr>r_blink := v\<rparr>\<rparr>)"
definition set_underline :: "bool \<Rightarrow> Interp \<Rightarrow> Interp" where
  "set_underline v i = on_screen (SetUnderline v) (i\<lparr>m_Rendition := (m_Rendition i)\<lparr>r_underline := v\<rparr>\<rparr>)"
definition set_crossed :: "bool \<Rightarrow> Interp \<Rightarrow> Interp" where
  "set_crossed v i = on_screen (SetCrossed v) (i\<lparr>m_Rendition := (m_Rendition i)\<lparr>r_crossed := v\<rparr>\<rparr>)"

definition ProcessSetCharacterAttributes :: "CharacterAttributes \<Rightarrow> Interp \<Rightarrow> Interp" where
  "ProcessSetCharacterAttributes a i = (case ca_mode a of
      CA_Normal \<Rightarrow> set_bg None (set_fg None (set_crossed False (set_underline False (set_blink False
        (set_invisible False (set_italic False (set_bold False (set_inverse False (set_faint False i)))))))))
    | CA_Faint \<Rightarrow> set_faint True i
    | CA_NotBoldNotFaint \<Rightarrow> set_bold False (set_faint False i)
    | CA_Inverse \<Rightarrow> set_inverse True i
    | CA_NotInverse \<Rightarrow> set_inverse False i
    | CA_Bold \<Rightarrow> set_bold True i
    | CA_Italicized \<Rightarrow> set_italic True i
    | CA_NotItalicized \<Rightarrow> set_italic False i
    | CA_Invisible \<Rightarrow> set_invisible True i
    | CA_NotInvisible \<Rightarrow> set_invisible False i
    | CA_Blink \<Rightarrow> set_blink True i
    | CA_NotBlink \<Rightarrow> set_blink False i
    | CA_Underlined \<Rightarrow> set_underline True i
    | CA_DoublyUnderlined \<Rightarrow> set_underline True i
    | CA_NotUnderlined \<Rightarrow> set_underline False i
    | CA_ForegroundColor \<Rightarrow> set_fg (Some (ca_color a)) i
    | CA_ForegroundDefault \<Rightarrow> set_fg None i
    | CA_BackgroundColor \<Rightarrow> set_bg (Some (ca_color a)) i
    | CA_BackgroundDefault \<Rightarrow> set_bg None i
    | CA_Crossed \<Rightarrow> set_crossed True i
    | CA_NotCrossed \<Rightarrow> set_crossed False i)"

definition UpdateCharacterAttributes :: "Interp \<Rightarrow> Interp" where
  "UpdateCharacterAttributes i = (let r = m_Rendition i in
     on_screen (\<lambda>s. SetCrossed (r_crossed r) (SetUnderline (r_underline r) (SetBlink (r_blink r)
       (SetInvisible (r_invisible r) (SetItalic (r_italic r) (SetBold (r_bold r)
       (SetReverse (r_inverse r) (SetFaint (r_faint r) (SetBgColor (r_bg_color r)
       (SetFgColor (r_fg_color r) s)))))))))) i)"

definition InterpreterImpl_init :: "Screen \<Rightarrow> Registry \<Rightarrow> Interp" where
  "InterpreterImpl_init s r = UpdateCharacterAttributes \<lparr>m_Screen = s, m_Registry = r,
     m_HasOutput = True, m_HasBell = True, m_HasInputTranslator = False,
     m_Extent = \<lparr>ext_height = Height s, ext_width = Width s, ext_top = 0, ext_bottom = Height s\<rparr>,
     m_TabStops = ResetToDefaultTabStops, m_TranslateMap = None, m_CS = [0, 0, 0, 0],
     m_OriginLineMode = False, m_AllowScreenResize = True, m_AutoWrapMode = True,
     m_InsertMode = False, m_CursorShown = True, m_MouseReportingUTF8 = False,
     m_MouseReportingSGR = False, m_Rendition = Rendition_init,
     m_RequestedMouseEvents = RME_None, m_SavedState = None,
     m_Titles = \<lparr>t_icon = [], t_window = [], t_saved_icon = [], t_saved_window = []\<rparr>,
     m_Events = []\<rparr>"

section \<open>Cursor\<close>

definition ProcessCR :: "Interp \<Rightarrow> Interp" where
  "ProcessCR i = on_screen (GoTo 0 (CursorY i)) i"

definition ProcessLF :: "Interp \<Rightarrow> Interp res" where
  "ProcessLF i = bindR (mk_int (CursorY i + 1)) (\<lambda>next.
     if next = ext_bottom (m_Extent i)
     then with_screen (DoScrollUp (word_of_int (ext_top (m_Extent i)))
            (word_of_int (ext_bottom (m_Extent i))) 1) i
     else with_screen (DoCursorDown 1) i)"

definition ProcessBS :: "Interp \<Rightarrow> Interp res" where
  "ProcessBS i = with_screen (DoCursorLeft 1) i"

definition ProcessRI :: "Interp \<Rightarrow> Interp res" where
  "ProcessRI i =
     (if CursorY i = ext_top (m_Extent i)
      then with_screen (ScrollDown (word_of_int (ext_top (m_Extent i)))
             (word_of_int (ext_bottom (m_Extent i))) 1) i
      else bindR (mk_int (CursorY i - 1)) (\<lambda>up.
        bindR (if m_OriginLineMode i
               then bindR (mk_int (ext_bottom (m_Extent i) - 1)) (\<lambda>last.
                 clampR up (ext_top (m_Extent i)) last)
               else clampR up 0 (ext_height (m_Extent i) - 1)) (\<lambda>target_y.
        Inr (on_screen (GoTo (CursorX i) target_y) i))))"

definition ProcessMC :: "CursorMovement \<Rightarrow> Interp \<Rightarrow> Interp res" where
  "ProcessMC m i =
     (if cm_positioning m = Absolute then
        let line_basis = (if m_OriginLineMode i then ext_top (m_Extent i) else 0) in
        (case (cm_x m, cm_y m) of
           (Some x, Some y) \<Rightarrow> bindR (mk_int (y + line_basis)) (\<lambda>y. Inr (on_screen (GoTo x y) i))
         | (Some x, None) \<Rightarrow> Inr (on_screen (GoTo x (CursorY i)) i)
         | (None, Some y) \<Rightarrow> bindR (mk_int (y + line_basis)) (\<lambda>y.
             Inr (on_screen (GoTo (CursorX i) y) i))
         | (None, None) \<Rightarrow> Inr i)
      else
        (case (cm_x m, cm_y m) of
           (Some dx, Some dy) \<Rightarrow>
             bindR (mk_int (CursorY i + dy)) (\<lambda>y.
             bindR (if m_OriginLineMode i
                    then bindR (mk_int (ext_bottom (m_Extent i) - 1)) (\<lambda>last.
                      clampR y (ext_top (m_Extent i)) last)
                    else Inr y) (\<lambda>target_y.
             bindR (mk_int (CursorX i + dx)) (\<lambda>x. Inr (on_screen (GoTo x target_y) i))))
         | (Some dx, None) \<Rightarrow> bindR (mk_int (CursorX i + dx)) (\<lambda>x.
             Inr (on_screen (GoTo x (CursorY i)) i))
         | (None, Some dy) \<Rightarrow> bindR (mk_int (CursorY i + dy)) (\<lambda>y.
             Inr (on_screen (GoTo (CursorX i) y) i))
         | (None, None) \<Rightarrow> Inr i))"

section \<open>Tab stops\<close>

text \<open>\<open>operator[]\<close> of the \<open>std::bitset\<close>, undefined past its size.\<close>

definition tab_at :: "bool list \<Rightarrow> int \<Rightarrow> bool res" where
  "tab_at ts x = (if 0 \<le> x \<and> x < int (length ts) then Inr (ts ! nat x) else Inl Out_Of_Bounds)"

function HT_forward :: "bool list \<Rightarrow> int \<Rightarrow> int \<Rightarrow> int \<Rightarrow> int res" where
  "HT_forward ts width x amount =
     (if x < width - 1 \<and> amount > 0
      then bindR (tab_at ts (x + 1)) (\<lambda>t.
        HT_forward ts width (x + 1) (if t then amount - 1 else amount))
      else Inr x)"
  by pat_completeness auto
termination
  by (relation "measure (\<lambda>(ts, width, x, amount). nat (width - 1 - x))") auto

function HT_backward :: "bool list \<Rightarrow> int \<Rightarrow> int \<Rightarrow> int res" where
  "HT_backward ts x amount =
     (if x > 0 \<and> amount < 0
      then bindR (tab_at ts (x - 1)) (\<lambda>t.
        HT_backward ts (x - 1) (if t then amount + 1 else amount))
      else Inr x)"
  by pat_completeness auto
termination
  by (relation "measure (\<lambda>(ts, x, amount). nat x)") auto

declare HT_forward.simps [simp del] HT_backward.simps [simp del]

definition ProcessHT :: "int \<Rightarrow> Interp \<Rightarrow> Interp res" where
  "ProcessHT amount i =
     (if amount = 0 then Inr i
      else if amount > 0 then
        let width = min (Width (m_Screen i)) (int (length (m_TabStops i))) in
        bindR (HT_forward (m_TabStops i) width (CursorX i) amount) (\<lambda>x.
        Inr (on_screen (GoTo x (CursorY i)) i))
      else bindR (HT_backward (m_TabStops i) (CursorX i) amount) (\<lambda>x.
        Inr (on_screen (GoTo x (CursorY i)) i)))"

definition ProcessHTS :: "Interp \<Rightarrow> Interp" where
  "ProcessHTS i = (let x = unat (word_of_int (CursorX i) :: 64 word) in
     if x < length (m_TabStops i) then i\<lparr>m_TabStops := (m_TabStops i)[x := True]\<rparr> else i)"

definition ProcessClearTab :: "TabClear \<Rightarrow> Interp \<Rightarrow> Interp" where
  "ProcessClearTab t i =
     (if t = TabClear_CurrentColumn then
        let x = unat (word_of_int (CursorX i) :: 64 word) in
        if x < length (m_TabStops i) then i\<lparr>m_TabStops := (m_TabStops i)[x := False]\<rparr> else i
      else i\<lparr>m_TabStops := replicate (length (m_TabStops i)) False\<rparr>)"

section \<open>Text\<close>

definition ConvertUTF8ToUTF16 :: "CF \<Rightarrow> bytes \<Rightarrow> u16 list" where
  "ConvertUTF8ToUTF16 cf s = (case cf_utf16 cf s of None \<Rightarrow> [] | Some u \<Rightarrow> u)"

definition curr_line_ends_with_mcg :: "Screen \<Rightarrow> bool res" where
  "curr_line_ends_with_mcg s = bindR (LineFromNo (m_PosY s) (m_Buffer s)) (\<lambda>line.
     bindR (span_get line (int (sp_len line) - 1) (m_Buffer s)) (\<lambda>sp.
     Inr (sp_l sp = MultiCellGlyph)))"

text \<open>The condition of the automatic wrap, with its short-circuit evaluation.\<close>

definition wrap_needed :: "int \<Rightarrow> Interp \<Rightarrow> bool res" where
  "wrap_needed sx i =
     (if m_AutoWrapMode i \<and> m_LineOverflown (m_Screen i) then
        if CursorX i \<ge> sx - 1 then Inr True
        else if CursorX i = sx - 2 then curr_line_ends_with_mcg (m_Screen i)
        else Inr False
      else Inr False)"

text \<open>What the loop of \<open>ProcessText\<close> does with one character.\<close>

definition put_char :: "CF \<Rightarrow> int \<Rightarrow> u32 \<Rightarrow> Interp \<Rightarrow> Interp res" where
  "put_char cf sx newchar i =
     bindR (wrap_needed sx i) (\<lambda>wrap.
     bindR (if wrap then ProcessLF (ProcessCR (on_screen PutWrap i)) else Inr i) (\<lambda>i.
     let is_dw = IsDoubleWidth cf (m_Registry i) newchar; char_width = (if is_dw then 2 else 1) in
     bindR (if m_InsertMode i then with_screen (DoShiftRowRight char_width) i else Inr i) (\<lambda>i.
     bindR (with_screen (PutCh (IsDoubleWidth cf (m_Registry i)) newchar) i) (\<lambda>i.
     bindR (mk_int (CursorX i + char_width)) (\<lambda>x.
     Inr (if x < sx then on_screen (GoTo x (CursorY i)) i else i))))))"

text \<open>The loop; each round eats at least one unit, so the length of the text is fuel enough.\<close>

fun text_loop :: "CF \<Rightarrow> int \<Rightarrow> nat \<Rightarrow> u16 list \<Rightarrow> Interp \<Rightarrow> Interp res" where
  "text_loop cf sx fuel input i =
     (if input = [] then Inr i
      else case fuel of 0 \<Rightarrow> Inl Nonterminating
        | Suc n \<Rightarrow> bindR (Append cf input 0 (m_Registry i)) (\<lambda>((newchar, eaten), r).
            bindR (assertR (eaten \<le> length input)) (\<lambda>_.
            bindR (if newchar = 0 then Inr (i\<lparr>m_Registry := r\<rparr>)
                   else put_char cf sx newchar (i\<lparr>m_Registry := r\<rparr>)) (\<lambda>i.
            text_loop cf sx n (drop eaten input) i))))"

declare text_loop.simps [simp del]

text \<open>The first step: what continues the character under the cursor is added to it.\<close>

definition append_to_current :: "CF \<Rightarrow> u16 list \<Rightarrow> Interp \<Rightarrow> (u16 list \<times> Interp) res" where
  "append_to_current cf input i = bindR (GetCh (m_Screen i)) (\<lambda>curr.
     if curr \<noteq> 0 \<and> curr \<noteq> MultiCellGlyph then
       bindR (Append cf input curr (m_Registry i)) (\<lambda>((newchar, eaten), r).
       let i = i\<lparr>m_Registry := r\<rparr> in
       if eaten \<noteq> 0 then
         bindR (assertR (curr \<noteq> newchar)) (\<lambda>_.
         bindR (assertR (eaten \<le> length input)) (\<lambda>_.
         bindR (with_screen (PutCh (IsDoubleWidth cf (m_Registry i)) newchar) i) (\<lambda>i.
         Inr (drop eaten input, i))))
       else Inr (input, i))
     else Inr (input, i))"

definition ProcessText :: "CF \<Rightarrow> bytes \<Rightarrow> Interp \<Rightarrow> Interp res" where
  "ProcessText cf characters i =
     (let utf16 = ConvertUTF8ToUTF16 cf characters;
          input = (case m_TranslateMap i of None \<Rightarrow> utf16
            | Some k \<Rightarrow> ApplyTranslateMap (g_TranslateMaps ! k) utf16) in
      if input = [] then Inr i
      else bindR (append_to_current cf input i) (\<lambda>(input, i).
        text_loop cf (Width (m_Screen i)) (length input) input i))"

section \<open>Reports\<close>

definition Response :: "bytes \<Rightarrow> Interp \<Rightarrow> Interp res" where
  "Response t i = bindR (assertR (m_HasOutput i)) (\<lambda>_. Inr (event (Ev_Output t) i))"

definition ProcessReport :: "DeviceReport \<Rightarrow> Interp \<Rightarrow> Interp res" where
  "ProcessReport m i = (case m of
      TerminalId \<Rightarrow> Response (CHR 27 # ''[?6c'') i
    | DeviceStatus \<Rightarrow> Response (CHR 27 # ''[0n'') i
    | CursorPosition \<Rightarrow>
        bindR (mk_int (if m_OriginLineMode i then CursorY i - ext_top (m_Extent i) else CursorY i)) (\<lambda>y.
        bindR (mk_int (y + 1)) (\<lambda>row. bindR (mk_int (CursorX i + 1)) (\<lambda>col.
        Response (CHR 27 # CHR ''['' # decimal_int row @ CHR '';'' # decimal_int col @ ''R'') i))))"

definition ProcessBell :: "Interp \<Rightarrow> Interp res" where
  "ProcessBell i = bindR (assertR (m_HasBell i)) (\<lambda>_. Inr (event Ev_Bell i))"

section \<open>Erasure\<close>

definition ProcessScreenAlignment :: "Interp \<Rightarrow> Interp res" where
  "ProcessScreenAlignment i =
     (let erase_char = (m_BufferEraseChar (m_Buffer (m_Screen i)))\<lparr>sp_l := 69\<rparr> in
      bindR (with_screen (FillScreenWithSpace erase_char) i) (\<lambda>i. Inr (on_screen (GoTo 0 0) i)))"

definition ProcessEraseInDisplay :: "DisplayErasure \<Rightarrow> Interp \<Rightarrow> Interp res" where
  "ProcessEraseInDisplay e i = with_screen (DoEraseScreen (case e of
      FromCursorToDisplayEnd \<Rightarrow> 0 | FromDisplayStartToCursor \<Rightarrow> 1
    | WholeDisplayWithScrollback \<Rightarrow> 2 | WholeDisplay \<Rightarrow> 2)) i"

definition ProcessEraseInLine :: "LineErasure \<Rightarrow> Interp \<Rightarrow> Interp res" where
  "ProcessEraseInLine e i = with_screen (EraseInLine (case e of
      FromCursorToLineEnd \<Rightarrow> 0 | FromLineStartToCursor \<Rightarrow> 1 | WholeLine \<Rightarrow> 2)) i"

definition ProcessEraseCharacters :: "u32 \<Rightarrow> Interp \<Rightarrow> Interp res" where
  "ProcessEraseCharacters amount i =
     (if amount = 0 then Inr i
      else with_screen (EraseAt (word_of_int (CursorX i)) (word_of_int (CursorY i)) amount) i)"

section \<open>Regions and lines\<close>

definition ProcessSetScrollingRegion :: "ScrollRange option \<Rightarrow> Interp \<Rightarrow> Interp res" where
  "ProcessSetScrollingRegion region i =
     bindR (case region of
         Some r \<Rightarrow> bindR (mk_int (range_top r + 1)) (\<lambda>next.
           Inr (if next < range_bottom r \<and> range_top r \<ge> 0 \<and> range_top r \<le> Height (m_Screen i)
                then i\<lparr>m_Extent := (m_Extent i)\<lparr>ext_top := range_top r, ext_bottom := range_bottom r\<rparr>\<rparr>
                else i))
       | None \<Rightarrow> Inr (i\<lparr>m_Extent := (m_Extent i)\<lparr>ext_top := 0, ext_bottom := Height (m_Screen i)\<rparr>\<rparr>))
     (\<lambda>i. Inr (if m_OriginLineMode i then on_screen (GoTo 0 (ext_top (m_Extent i))) i else i))"

text \<open>\<open>static_cast<int>\<close> of the count, capped to the room there is, zero read as one.\<close>

definition capped_count :: "u32 \<Rightarrow> int \<Rightarrow> int" where
  "capped_count n room = (let k = sint n in if k > room then room else if k = 0 then 1 else k)"

definition ProcessInsertLines :: "u32 \<Rightarrow> Interp \<Rightarrow> Interp res" where
  "ProcessInsertLines n i =
     (if CursorY i < ext_top (m_Extent i) \<or> CursorY i > ext_bottom (m_Extent i) then Inr i
      else let lines = capped_count n (Height (m_Screen i) - CursorY i) in
        with_screen (ScrollDown (word_of_int (CursorY i)) (word_of_int (ext_bottom (m_Extent i)))
          (word_of_int lines)) i)"

definition ProcessDeleteLines :: "u32 \<Rightarrow> Interp \<Rightarrow> Interp res" where
  "ProcessDeleteLines n i =
     (if CursorY i < ext_top (m_Extent i) \<or> CursorY i > ext_bottom (m_Extent i) then Inr i
      else let lines = capped_count n (Height (m_Screen i) - CursorY i) in
        with_screen (DoScrollUp (word_of_int (CursorY i)) (word_of_int (ext_bottom (m_Extent i)))
          (word_of_int lines)) i)"

definition ProcessDeleteCharacters :: "u32 \<Rightarrow> Interp \<Rightarrow> Interp res" where
  "ProcessDeleteCharacters n i =
     with_screen (DoShiftRowLeft (capped_count n (Width (m_Screen i) - CursorX i))) i"

definition ProcessInsertCharacters :: "u32 \<Rightarrow> Interp \<Rightarrow> Interp res" where
  "ProcessInsertCharacters n i =
     with_screen (DoShiftRowRight (capped_count n (Width (m_Screen i) - CursorX i))) i"

section \<open>Modes\<close>

definition UpdateMouseReporting :: "Interp \<Rightarrow> Interp" where
  "UpdateMouseReporting i =
     (if \<not> m_HasInputTranslator i then i
      else let events = m_RequestedMouseEvents i in
        if events = RME_X10 then event (Ev_SetMouseReportingMode MRM_X10) i
        else if events = RME_Normal \<or> events = RME_ButtonTracking \<or> events = RME_Any then
          event (Ev_SetMouseReportingMode
            (if m_MouseReportingSGR i then MRM_SGR
             else if m_MouseReportingUTF8 i then MRM_UTF8 else MRM_Normal)) i
        else i)"

definition RequestMouseEventsChanged :: "Interp \<Rightarrow> Interp" where
  "RequestMouseEventsChanged i =
     UpdateMouseReporting (event (Ev_RequestedMouseEventsChanged (m_RequestedMouseEvents i)) i)"

text \<open>The four requests for mouse events, alike but for the kind.\<close>

definition request_mouse :: "RequestedMouseEvents \<Rightarrow> bool \<Rightarrow> Interp \<Rightarrow> Interp" where
  "request_mouse kind status i =
     (let i1 = (if status \<and> m_RequestedMouseEvents i \<noteq> kind
                then RequestMouseEventsChanged (i\<lparr>m_RequestedMouseEvents := kind\<rparr>) else i) in
      if \<not> status \<and> m_RequestedMouseEvents i1 = kind
      then RequestMouseEventsChanged (i1\<lparr>m_RequestedMouseEvents := RME_None\<rparr>) else i1)"

definition ProcessChangeColumnMode132 :: "bool \<Rightarrow> Interp \<Rightarrow> Interp res" where
  "ProcessChangeColumnMode132 on i =
     (if \<not> m_AllowScreenResize i then Inr i
      else with_screen (Screen_ResizeScreen (if on then 132 else 80) (m_Height (m_Buffer (m_Screen i)))) i)"

definition ProcessChangeMode :: "ModeChange \<Rightarrow> Interp \<Rightarrow> Interp res" where
  "ProcessChangeMode m i = (let status = mc_status m in case mc_mode m of
      Mode_Origin \<Rightarrow> Inr (i\<lparr>m_OriginLineMode := status\<rparr>)
    | Mode_AutoWrap \<Rightarrow> Inr (i\<lparr>m_AutoWrapMode := status\<rparr>)
    | Mode_Column132 \<Rightarrow> ProcessChangeColumnMode132 status i
    | Mode_ReverseVideo \<Rightarrow> Inr (on_screen (SetVideoReverse status) i)
    | Mode_Insert \<Rightarrow> Inr (i\<lparr>m_InsertMode := status\<rparr>)
    | Mode_ApplicationCursorKeys \<Rightarrow>
        Inr (if m_HasInputTranslator i then event (Ev_SetApplicationCursorKeys status) i else i)
    | Mode_BracketedPaste \<Rightarrow>
        Inr (if m_HasInputTranslator i then event (Ev_SetBracketedPaste status) i else i)
    | Mode_AlternateScreenBuffer \<Rightarrow> with_screen (SetAlternateScreen status) i
    | Mode_AlternateScreenBuffer1049 \<Rightarrow>
        bindR (with_screen (SetAlternateScreen status) i) (\<lambda>i.
        if status then ProcessEraseInDisplay WholeDisplay i else Inr i)
    | Mode_ShowCursor \<Rightarrow>
        Inr (if status \<noteq> m_CursorShown i
             then event (Ev_ShowCursorChanged status) (i\<lparr>m_CursorShown := status\<rparr>) else i)
    | Mode_SendMouseReportUFT8 \<Rightarrow>
        Inr (if status \<noteq> m_MouseReportingUTF8 i
             then UpdateMouseReporting (i\<lparr>m_MouseReportingUTF8 := status\<rparr>) else i)
    | Mode_SendMouseReportSGR \<Rightarrow>
        Inr (if status \<noteq> m_MouseReportingSGR i
             then UpdateMouseReporting (i\<lparr>m_MouseReportingSGR := status\<rparr>) else i)
    | Mode_SendMouseXYOnPress \<Rightarrow> Inr (request_mouse RME_X10 status i)
    | Mode_SendMouseXYOnPressAndRelease \<Rightarrow> Inr (request_mouse RME_Normal status i)
    | Mode_SendMouseXYOnPressDragAndRelease \<Rightarrow> Inr (request_mouse RME_ButtonTracking status i)
    | Mode_SendMouseXYAnyEvent \<Rightarrow> Inr (request_mouse RME_Any status i)
    | _ \<Rightarrow> Inr i)"

section \<open>Character sets and saved state\<close>

definition translate_map_of :: "nat \<Rightarrow> nat option" where
  "translate_map_of codeset = (if codeset = USASCII_codeset then None else Some codeset)"

definition ProcessDesignateCharacterSet :: "CharacterSetDesignation \<Rightarrow> Interp \<Rightarrow> Interp" where
  "ProcessDesignateCharacterSet d i =
     (let codeset = (case csd_set d of
          DECSpecialGraphics \<Rightarrow> Graph_codeset
        | AlternateCharacterROMSpecialGraphics \<Rightarrow> Graph_codeset
        | UK \<Rightarrow> UK_codeset
        | USASCII \<Rightarrow> USASCII_codeset
        | AlternateCharacterROMStandardCharacters \<Rightarrow> USASCII_codeset) in
      if csd_target d < length (m_CS i) then
        i\<lparr>m_CS := (m_CS i)[csd_target d := codeset], m_TranslateMap := translate_map_of codeset\<rparr>
      else i)"

definition ProcessSelectCharacterSet :: "u32 \<Rightarrow> Interp \<Rightarrow> Interp" where
  "ProcessSelectCharacterSet target i =
     (if unat target < length (m_CS i)
      then i\<lparr>m_TranslateMap := translate_map_of (m_CS i ! unat target)\<rparr> else i)"

definition ProcessSaveState :: "Interp \<Rightarrow> Interp" where
  "ProcessSaveState i = i\<lparr>m_SavedState := Some \<lparr>st_x = CursorX i, st_y = CursorY i,
     st_rendition = m_Rendition i, st_character_sets = m_CS i,
     st_translate_map = m_TranslateMap i\<rparr>\<rparr>"

definition ProcessRestoreState :: "Interp \<Rightarrow> Interp" where
  "ProcessRestoreState i = (case m_SavedState i of None \<Rightarrow> i
     | Some st \<Rightarrow> UpdateCharacterAttributes ((on_screen (GoTo (st_x st) (st_y st)) i)
         \<lparr>m_CS := st_character_sets st, m_TranslateMap := st_translate_map st,
          m_Rendition := st_rendition st\<rparr>))"

section \<open>Titles and cursor style\<close>

definition change_icon :: "bytes \<Rightarrow> Interp \<Rightarrow> Interp" where
  "change_icon t i = (if t_icon (m_Titles i) = t then i
     else event (Ev_TitleChanged t TitleKind_Icon) (i\<lparr>m_Titles := (m_Titles i)\<lparr>t_icon := t\<rparr>\<rparr>))"

definition change_window :: "bytes \<Rightarrow> Interp \<Rightarrow> Interp" where
  "change_window t i = (if t_window (m_Titles i) = t then i
     else event (Ev_TitleChanged t TitleKind_Window) (i\<lparr>m_Titles := (m_Titles i)\<lparr>t_window := t\<rparr>\<rparr>))"

definition ProcessChangeTitle :: "Title \<Rightarrow> Interp \<Rightarrow> Interp" where
  "ProcessChangeTitle t i = (case title_kind t of
      Title_Icon \<Rightarrow> change_icon (title_text t) i
    | Title_Window \<Rightarrow> change_window (title_text t) i
    | Title_IconAndWindow \<Rightarrow> change_window (title_text t) (change_icon (title_text t) i))"

definition save_icon :: "Interp \<Rightarrow> Interp" where
  "save_icon i = i\<lparr>m_Titles := (m_Titles i)\<lparr>t_saved_icon := t_icon (m_Titles i) # t_saved_icon (m_Titles i)\<rparr>\<rparr>"

definition save_window :: "Interp \<Rightarrow> Interp" where
  "save_window i = i\<lparr>m_Titles := (m_Titles i)\<lparr>t_saved_window := t_window (m_Titles i) # t_saved_window (m_Titles i)\<rparr>\<rparr>"

definition restore_icon :: "Interp \<Rightarrow> Interp" where
  "restore_icon i = (case t_saved_icon (m_Titles i) of [] \<Rightarrow> i
     | t # ts \<Rightarrow> ProcessChangeTitle \<lparr>title_kind = Title_Icon, title_text = t\<rparr>
         (i\<lparr>m_Titles := (m_Titles i)\<lparr>t_saved_icon := ts\<rparr>\<rparr>))"

definition restore_window :: "Interp \<Rightarrow> Interp" where
  "restore_window i = (case t_saved_window (m_Titles i) of [] \<Rightarrow> i
     | t # ts \<Rightarrow> ProcessChangeTitle \<lparr>title_kind = Title_Window, title_text = t\<rparr>
         (i\<lparr>m_Titles := (m_Titles i)\<lparr>t_saved_window := ts\<rparr>\<rparr>))"

definition ProcessTitleManipulation :: "TitleManipulation \<Rightarrow> Interp \<Rightarrow> Interp" where
  "ProcessTitleManipulation m i =
     (if tm_operation m = TM_Save then
        (case tm_target m of TM_Icon \<Rightarrow> save_icon i | TM_Window \<Rightarrow> save_window i
           | TM_Both \<Rightarrow> save_window (save_icon i))
      else
        let i1 = (if tm_target m = TM_Icon \<or> tm_target m = TM_Both then restore_icon i else i) in
        if tm_target m = TM_Window \<or> tm_target m = TM_Both then restore_window i1 else i1)"

definition ProcessCursorStyle :: "CursorMode option \<Rightarrow> Interp \<Rightarrow> Interp" where
  "ProcessCursorStyle style i = event (Ev_CursorStyleChanged style) i"

section \<open>Dispatch\<close>

text \<open>\<open>*std::get_if<T>\<close>: another alternative in the payload is a null dereference.\<close>

definition InterpretSingleCommand :: "CF \<Rightarrow> Interp \<Rightarrow> Command \<Rightarrow> Interp res" where
  "InterpretSingleCommand cf i c = (case cmd_type c of
      T_text \<Rightarrow> (case payload c of P_UTF8Text t \<Rightarrow> ProcessText cf t i | _ \<Rightarrow> Inl Bad_Variant)
    | T_line_feed \<Rightarrow> ProcessLF i
    | T_carriage_return \<Rightarrow> Inr (ProcessCR i)
    | T_back_space \<Rightarrow> ProcessBS i
    | T_reverse_index \<Rightarrow> ProcessRI i
    | T_move_cursor \<Rightarrow> (case payload c of P_CursorMovement m \<Rightarrow> ProcessMC m i | _ \<Rightarrow> Inl Bad_Variant)
    | T_horizontal_tab \<Rightarrow> (case payload c of P_signed n \<Rightarrow> ProcessHT n i | _ \<Rightarrow> Inl Bad_Variant)
    | T_report \<Rightarrow> (case payload c of P_DeviceReport r \<Rightarrow> ProcessReport r i | _ \<Rightarrow> Inl Bad_Variant)
    | T_bell \<Rightarrow> ProcessBell i
    | T_screen_alignment_test \<Rightarrow> ProcessScreenAlignment i
    | T_erase_in_display \<Rightarrow> (case payload c of P_DisplayErasure e \<Rightarrow> ProcessEraseInDisplay e i
        | _ \<Rightarrow> Inl Bad_Variant)
    | T_erase_in_line \<Rightarrow> (case payload c of P_LineErasure e \<Rightarrow> ProcessEraseInLine e i
        | _ \<Rightarrow> Inl Bad_Variant)
    | T_erase_characters \<Rightarrow> (case payload c of P_unsigned n \<Rightarrow> ProcessEraseCharacters n i
        | _ \<Rightarrow> Inl Bad_Variant)
    | T_set_scrolling_region \<Rightarrow> (case payload c of P_ScrollingRegion r \<Rightarrow> ProcessSetScrollingRegion r i
        | _ \<Rightarrow> Inl Bad_Variant)
    | T_change_mode \<Rightarrow> (case payload c of P_ModeChange m \<Rightarrow> ProcessChangeMode m i | _ \<Rightarrow> Inl Bad_Variant)
    | T_set_tab \<Rightarrow> Inr (ProcessHTS i)
    | T_clear_tab \<Rightarrow> (case payload c of P_TabClear t \<Rightarrow> Inr (ProcessClearTab t i) | _ \<Rightarrow> Inl Bad_Variant)
    | T_set_character_attributes \<Rightarrow> (case payload c of
          P_CharacterAttributes a \<Rightarrow> Inr (ProcessSetCharacterAttributes a i) | _ \<Rightarrow> Inl Bad_Variant)
    | T_designate_character_set \<Rightarrow> (case payload c of
          P_CharacterSetDesignation d \<Rightarrow> Inr (ProcessDesignateCharacterSet d i) | _ \<Rightarrow> Inl Bad_Variant)
    | T_select_character_set \<Rightarrow> (case payload c of
          P_unsigned n \<Rightarrow> Inr (ProcessSelectCharacterSet n i) | _ \<Rightarrow> Inl Bad_Variant)
    | T_save_state \<Rightarrow> Inr (ProcessSaveState i)
    | T_restore_state \<Rightarrow> Inr (ProcessRestoreState i)
    | T_insert_lines \<Rightarrow> (case payload c of P_unsigned n \<Rightarrow> ProcessInsertLines n i | _ \<Rightarrow> Inl Bad_Variant)
    | T_delete_lines \<Rightarrow> (case payload c of P_unsigned n \<Rightarrow> ProcessDeleteLines n i | _ \<Rightarrow> Inl Bad_Variant)
    | T_delete_characters \<Rightarrow> (case payload c of P_unsigned n \<Rightarrow> ProcessDeleteCharacters n i
        | _ \<Rightarrow> Inl Bad_Variant)
    | T_insert_characters \<Rightarrow> (case payload c of P_unsigned n \<Rightarrow> ProcessInsertCharacters n i
        | _ \<Rightarrow> Inl Bad_Variant)
    | T_change_title \<Rightarrow> (case payload c of P_Title t \<Rightarrow> Inr (ProcessChangeTitle t i) | _ \<Rightarrow> Inl Bad_Variant)
    | T_manipulate_title \<Rightarrow> (case payload c of
          P_TitleManipulation m \<Rightarrow> Inr (ProcessTitleManipulation m i) | _ \<Rightarrow> Inl Bad_Variant)
    | T_set_cursor_style \<Rightarrow> (case payload c of
          P_CursorStyle s \<Rightarrow> Inr (ProcessCursorStyle s i) | _ \<Rightarrow> Inl Bad_Variant)
    | _ \<Rightarrow> Inr i)"

definition Interpret :: "CF \<Rightarrow> Command list \<Rightarrow> Interp \<Rightarrow> Interp res" where
  "Interpret cf cs i = foldR (InterpretSingleCommand cf) i cs"

section \<open>The rest of the interface\<close>

definition SetOuput :: "bool \<Rightarrow> Interp \<Rightarrow> Interp" where
  "SetOuput callable i = i\<lparr>m_HasOutput := callable\<rparr>"

definition SetBell :: "bool \<Rightarrow> Interp \<Rightarrow> Interp" where
  "SetBell callable i = i\<lparr>m_HasBell := callable\<rparr>"

definition SetInputTranslator :: "bool \<Rightarrow> Interp \<Rightarrow> Interp" where
  "SetInputTranslator present i = i\<lparr>m_HasInputTranslator := present\<rparr>"

definition SetScreenResizeAllowed :: "bool \<Rightarrow> Interp \<Rightarrow> Interp" where
  "SetScreenResizeAllowed allow i = i\<lparr>m_AllowScreenResize := allow\<rparr>"

definition NotifyScreenResized :: "Interp \<Rightarrow> Interp" where
  "NotifyScreenResized i = (let old = m_Extent i; w = Width (m_Screen i); h = Height (m_Screen i) in
     i\<lparr>m_Extent := \<lparr>ext_height = h, ext_width = w, ext_top = min (ext_top old) (h - 1),
       ext_bottom = (if ext_bottom old = ext_height old then h else min (ext_bottom old) h)\<rparr>\<rparr>)"

definition ScreenResizeAllowed :: "Interp \<Rightarrow> bool" where
  "ScreenResizeAllowed i = m_AllowScreenResize i"

definition ShowCursor :: "Interp \<Rightarrow> bool" where
  "ShowCursor i = m_CursorShown i"

text \<open>
  The setters of the callbacks the interpreter calls without a test. They assert that the new
  callback can be called; which one it is does not show in the state, whose \<open>m_Events\<close> lists the
  calls.
\<close>

definition SetTitle :: "bool \<Rightarrow> Interp \<Rightarrow> Interp res" where
  "SetTitle callable i = bindR (assertR callable) (\<lambda>_. Inr i)"

definition SetShowCursorChanged :: "bool \<Rightarrow> Interp \<Rightarrow> Interp res" where
  "SetShowCursorChanged callable i = bindR (assertR callable) (\<lambda>_. Inr i)"

definition SetCursorStyleChanged :: "bool \<Rightarrow> Interp \<Rightarrow> Interp res" where
  "SetCursorStyleChanged callable i = bindR (assertR callable) (\<lambda>_. Inr i)"

definition SetRequstedMouseEventsChanged :: "bool \<Rightarrow> Interp \<Rightarrow> Interp res" where
  "SetRequstedMouseEventsChanged callable i = bindR (assertR callable) (\<lambda>_. Inr i)"

end
