(* ===== verification/ScreenLines.thy ===== *)
theory ScreenLines
  imports Screen
begin

text \<open>
  Scrolling. The screen relies on its storage through three operations on numbered lines: moving
  a line over another, clearing a line, and the list of lines they act on. The locale states
  what they promise; the effect of the scrolling loops is proved from it alone, and the storage
  of the model is its interpretation.
\<close>

section \<open>Specification\<close>

text \<open>
  Lines \<open>t\<close> to \<open>b - 1\<close> move up, or down, by \<open>n\<close>; what leaves the range is lost and blank lines
  come in.
\<close>

definition scrolled_up :: "nat \<Rightarrow> nat \<Rightarrow> nat \<Rightarrow> 'l \<Rightarrow> 'l list \<Rightarrow> 'l list" where
  "scrolled_up t b n blank ls = take t ls @ drop n (take (b - t) (drop t ls))
     @ replicate (min n (b - t)) blank @ drop b ls"

definition scrolled_down :: "nat \<Rightarrow> nat \<Rightarrow> nat \<Rightarrow> 'l \<Rightarrow> 'l list \<Rightarrow> 'l list" where
  "scrolled_down t b n blank ls = take t ls @ replicate (min n (b - t)) blank
     @ take (b - t - n) (drop t ls) @ drop b ls"

lemma length_scrolled [simp]:
  "t \<le> b \<Longrightarrow> b \<le> length ls \<Longrightarrow> length (scrolled_up t b n v ls) = length ls"
  "t \<le> b \<Longrightarrow> b \<le> length ls \<Longrightarrow> length (scrolled_down t b n v ls) = length ls"
  by (auto simp: scrolled_up_def scrolled_down_def min_def)

lemma nth_scrolled_up:
  assumes "t \<le> b" "b \<le> length ls" "i < length ls"
  shows "scrolled_up t b n v ls ! i =
    (if t \<le> i \<and> i < b then (if i + n < b then ls ! (i + n) else v) else ls ! i)"
  using assms by (auto simp: scrolled_up_def nth_append min_def add.commute intro: arg_cong)

lemma nth_scrolled_down:
  assumes "t \<le> b" "b \<le> length ls" "i < length ls"
  shows "scrolled_down t b n v ls ! i =
    (if t \<le> i \<and> i < b then (if t + n \<le> i then ls ! (i - n) else v) else ls ! i)"
  using assms by (auto simp: scrolled_down_def nth_append min_def intro!: arg_cong [where f = "nth ls"])

section \<open>The interface\<close>

locale line_store =
  fixes lines :: "'s \<Rightarrow> 'l list"
    and move :: "int \<Rightarrow> int \<Rightarrow> 's \<Rightarrow> 's res"
    and clear :: "int \<Rightarrow> 's \<Rightarrow> 's res"
    and blank :: 'l
    and ok :: "'s \<Rightarrow> bool"
  assumes move_line: "ok s \<Longrightarrow> 0 \<le> i \<Longrightarrow> i < int (length (lines s)) \<Longrightarrow> 0 \<le> j \<Longrightarrow>
      j < int (length (lines s)) \<Longrightarrow>
      \<exists>s'. move i j s = Inr s' \<and> ok s' \<and> lines s' = (lines s)[nat j := lines s ! nat i]"
    and clear_line: "ok s \<Longrightarrow> 0 \<le> i \<Longrightarrow> i < int (length (lines s)) \<Longrightarrow>
      \<exists>s'. clear i s = Inr s' \<and> ok s' \<and> lines s' = (lines s)[nat i := blank]"
begin

lemma up_loop_lines:
  "ok s \<Longrightarrow> 0 \<le> dst \<Longrightarrow> dst < src \<Longrightarrow> bottom \<le> int (length (lines s)) \<Longrightarrow>
    \<exists>s'. up_loop src dst bottom move s = Inr s' \<and> ok s' \<and> length (lines s') = length (lines s)
      \<and> (\<forall>i < length (lines s). lines s' ! i =
           (if dst \<le> int i \<and> int i + (src - dst) < bottom then lines s ! (i + nat (src - dst))
            else lines s ! i))"
proof (induction "nat (bottom - src)" arbitrary: src dst s rule: less_induct)
  case (less src dst s)
  note prems = less.prems
  have diff: "src + 1 - (dst + 1) = src - dst" by simp
  show ?case
  proof (cases "src < bottom")
    case False
    then show ?thesis using prems by (subst up_loop.simps) auto
  next
    case True
    with prems have "0 \<le> src" "src < int (length (lines s))" "0 \<le> dst" "dst < int (length (lines s))"
      by simp_all
    from move_line [OF prems(1) this] obtain s1 where
      s1: "move src dst s = Inr s1" "ok s1" "lines s1 = (lines s)[nat dst := lines s ! nat src]"
      by blast
    have "\<exists>s'. up_loop (src + 1) (dst + 1) bottom move s1 = Inr s' \<and> ok s'
        \<and> length (lines s') = length (lines s1) \<and> (\<forall>i < length (lines s1). lines s' ! i =
           (if dst + 1 \<le> int i \<and> int i + (src + 1 - (dst + 1)) < bottom
            then lines s1 ! (i + nat (src + 1 - (dst + 1))) else lines s1 ! i))"
      by (rule less.hyps) (use True prems s1 in auto)
    with s1(3) obtain s' where s':
      "up_loop (src + 1) (dst + 1) bottom move s1 = Inr s'" "ok s'"
      "length (lines s') = length (lines s)"
      "\<forall>i < length (lines s). lines s' ! i =
           (if dst + 1 \<le> int i \<and> int i + (src - dst) < bottom then lines s1 ! (i + nat (src - dst))
            else lines s1 ! i)"
      unfolding diff by auto
    have "lines s' ! i = (if dst \<le> int i \<and> int i + (src - dst) < bottom
        then lines s ! (i + nat (src - dst)) else lines s ! i)" if "i < length (lines s)" for i
    proof (cases "int i = dst")
      case True
      then have "i + nat (src - dst) = nat src" "nat dst = i" using prems by auto
      then show ?thesis using s'(4) that True s1(3) \<open>src < bottom\<close> by simp
    next
      case False
      then show ?thesis using s'(4) that s1(3) prems by (auto simp: nth_list_update)
    qed
    then show ?thesis
      using s' s1 True prems by (subst up_loop.simps) simp
  qed
qed

lemma down_loop_lines:
  "ok s \<Longrightarrow> 0 \<le> first \<Longrightarrow> src < dst \<Longrightarrow> dst < int (length (lines s)) \<Longrightarrow>
    \<exists>s'. down_loop dst src first move s = Inr s' \<and> ok s' \<and> length (lines s') = length (lines s)
      \<and> (\<forall>i < length (lines s). lines s' ! i =
           (if int i \<le> dst \<and> first \<le> int i - (dst - src) then lines s ! (i - nat (dst - src))
            else lines s ! i))"
proof (induction "nat (dst - first)" arbitrary: src dst s rule: less_induct)
  case (less dst src s)
  note prems = less.prems
  have diff: "dst - 1 - (src - 1) = dst - src" by simp
  show ?case
  proof (cases "first \<le> src")
    case False
    then show ?thesis using prems by (subst down_loop.simps) auto
  next
    case True
    with prems have "0 \<le> src" "src < int (length (lines s))" "0 \<le> dst" "dst < int (length (lines s))"
      by simp_all
    from move_line [OF prems(1) this] obtain s1 where
      s1: "move src dst s = Inr s1" "ok s1" "lines s1 = (lines s)[nat dst := lines s ! nat src]"
      by blast
    have "\<exists>s'. down_loop (dst - 1) (src - 1) first move s1 = Inr s' \<and> ok s'
        \<and> length (lines s') = length (lines s1) \<and> (\<forall>i < length (lines s1). lines s' ! i =
           (if int i \<le> dst - 1 \<and> first \<le> int i - (dst - 1 - (src - 1))
            then lines s1 ! (i - nat (dst - 1 - (src - 1))) else lines s1 ! i))"
      by (rule less.hyps) (use True prems s1 in auto)
    with s1(3) obtain s' where s':
      "down_loop (dst - 1) (src - 1) first move s1 = Inr s'" "ok s'"
      "length (lines s') = length (lines s)"
      "\<forall>i < length (lines s). lines s' ! i =
           (if int i \<le> dst - 1 \<and> first \<le> int i - (dst - src) then lines s1 ! (i - nat (dst - src))
            else lines s1 ! i)"
      unfolding diff by auto
    have "lines s' ! i = (if int i \<le> dst \<and> first \<le> int i - (dst - src)
        then lines s ! (i - nat (dst - src)) else lines s ! i)" if "i < length (lines s)" for i
    proof (cases "int i = dst")
      case True
      then have "i - nat (dst - src) = nat src" "nat dst = i" using prems by auto
      then show ?thesis using s'(4) that True s1(3) \<open>first \<le> src\<close> by simp
    next
      case False
      then show ?thesis using s'(4) that s1(3) prems by (auto simp: nth_list_update)
    qed
    then show ?thesis
      using s' s1 True prems by (subst down_loop.simps) simp
  qed
qed

lemma clear_up_lines:
  assumes "ok s" "0 \<le> lo" "lo \<le> hi" "hi \<le> int (length (lines s))"
  shows "\<exists>s'. for_up lo hi clear s = Inr s' \<and> ok s' \<and> length (lines s') = length (lines s)
    \<and> (\<forall>i < length (lines s). lines s' ! i = (if lo \<le> int i \<and> int i < hi then blank else lines s ! i))"
proof -
  let ?P = "\<lambda>k s'. ok s' \<and> length (lines s') = length (lines s)
    \<and> (\<forall>i < length (lines s). lines s' ! i = (if lo \<le> int i \<and> int i < k then blank else lines s ! i))"
  have "\<exists>s'. for_up lo hi clear s = Inr s' \<and> ?P hi s'"
  proof (rule for_up_rule)
    fix k s1 assume k: "lo \<le> k" "k < hi" and P: "?P k s1"
    with assms clear_line [of s1 k] obtain s2 where
      "clear k s1 = Inr s2" "ok s2" "lines s2 = (lines s1)[nat k := blank]" by auto
    moreover obtain m where "k = int m" using k assms nonneg_int_cases [of k] by auto
    ultimately show "\<exists>s'. clear k s1 = Inr s' \<and> ?P (k + 1) s'"
      using P k assms by (auto simp: nth_list_update)
  qed (use assms in auto)
  then show ?thesis by blast
qed

lemma clear_down_lines:
  assumes "ok s" "0 \<le> lo" "lo \<le> hi" "hi \<le> int (length (lines s))"
  shows "\<exists>s'. for_down (hi - 1) lo clear s = Inr s' \<and> ok s' \<and> length (lines s') = length (lines s)
    \<and> (\<forall>i < length (lines s). lines s' ! i = (if lo \<le> int i \<and> int i < hi then blank else lines s ! i))"
proof -
  let ?P = "\<lambda>k s'. ok s' \<and> length (lines s') = length (lines s)
    \<and> (\<forall>i < length (lines s). lines s' ! i = (if k < int i \<and> int i < hi then blank else lines s ! i))"
  have "\<exists>s'. for_down (hi - 1) lo clear s = Inr s' \<and> ?P (lo - 1) s'"
  proof (rule for_down_rule)
    fix k s1 assume k: "lo \<le> k" "k \<le> hi - 1" and P: "?P k s1"
    with assms clear_line [of s1 k] obtain s2 where
      "clear k s1 = Inr s2" "ok s2" "lines s2 = (lines s1)[nat k := blank]" by auto
    moreover obtain m where "k = int m" using k assms nonneg_int_cases [of k] by auto
    ultimately show "\<exists>s'. clear k s1 = Inr s' \<and> ?P (k - 1) s'"
      using P k assms by (auto simp: nth_list_update)
  qed (use assms in auto)
  then show ?thesis by auto
qed

text \<open>The two scrolling operations, loops in the order the code runs them.\<close>

lemma scroll_up_lines:
  assumes "ok s" "0 \<le> t" "t < b" "b \<le> int (length (lines s))" "1 \<le> n"
  shows "\<exists>s'. bindR (up_loop (t + n) t b move s) (for_down (b - 1) (max (b - n) t) clear) = Inr s'
    \<and> ok s' \<and> lines s' = scrolled_up (nat t) (nat b) (nat n) blank (lines s)"
proof -
  from up_loop_lines [of s t "t + n" b] assms obtain s1 where s1:
    "up_loop (t + n) t b move s = Inr s1" "ok s1" "length (lines s1) = length (lines s)"
    "\<forall>i < length (lines s). lines s1 ! i =
       (if t \<le> int i \<and> int i + n < b then lines s ! (i + nat n) else lines s ! i)"
    by auto
  have "0 \<le> max (b - n) t" "max (b - n) t \<le> b" "b \<le> int (length (lines s1))"
    using assms s1(3) by simp_all
  from clear_down_lines [OF s1(2) this] s1(3) obtain s2 where s2:
    "for_down (b - 1) (max (b - n) t) clear s1 = Inr s2" "ok s2"
    "length (lines s2) = length (lines s)"
    "\<forall>i < length (lines s). lines s2 ! i =
       (if max (b - n) t \<le> int i \<and> int i < b then blank else lines s1 ! i)"
    by auto
  have "lines s2 = scrolled_up (nat t) (nat b) (nat n) blank (lines s)"
    using assms s1(4) s2(3,4) by (intro nth_equalityI) (auto simp: nth_scrolled_up)
  with s1 s2 show ?thesis by simp
qed

lemma scroll_down_lines:
  assumes "ok s" "0 \<le> t" "t < b" "b \<le> int (length (lines s))" "1 \<le> n"
  shows "\<exists>s'. bindR (down_loop (b - 1) (b - 1 - n) t move s) (for_up t (min (t + n) b) clear) = Inr s'
    \<and> ok s' \<and> lines s' = scrolled_down (nat t) (nat b) (nat n) blank (lines s)"
proof -
  from down_loop_lines [of s t "b - 1 - n" "b - 1"] assms obtain s1 where s1:
    "down_loop (b - 1) (b - 1 - n) t move s = Inr s1" "ok s1" "length (lines s1) = length (lines s)"
    "\<forall>i < length (lines s). lines s1 ! i =
       (if int i \<le> b - 1 \<and> t \<le> int i - n then lines s ! (i - nat n) else lines s ! i)"
    by auto
  have "0 \<le> t" "t \<le> min (t + n) b" "min (t + n) b \<le> int (length (lines s1))"
    using assms s1(3) by simp_all
  from clear_up_lines [OF s1(2) this] s1(3) obtain s2 where s2:
    "for_up t (min (t + n) b) clear s1 = Inr s2" "ok s2"
    "length (lines s2) = length (lines s)"
    "\<forall>i < length (lines s). lines s2 ! i =
       (if t \<le> int i \<and> int i < min (t + n) b then blank else lines s1 ! i)"
    by auto
  have "lines s2 = scrolled_down (nat t) (nat b) (nat n) blank (lines s)"
    using assms s1(4) s2(3,4) by (intro nth_equalityI) (auto simp: nth_scrolled_down)
  with s1 s2 show ?thesis by simp
qed

end

section \<open>The storage of the model\<close>

text \<open>What the line operations leave alone, besides the invariant.\<close>

definition lines_inv :: "nat \<Rightarrow> nat \<Rightarrow> Space \<Rightarrow> (Space list \<times> bool) list \<Rightarrow> bool \<Rightarrow> ScreenBuffer \<Rightarrow> bool"
  where
  "lines_inv w h e bl al b \<longleftrightarrow> buf_ok b \<and> m_Width b = w \<and> m_Height b = h
     \<and> m_BufferEraseChar b = e \<and> back_lines b = bl \<and> m_BackAllocated b = al"

lemma lines_inv_self: "buf_ok b \<Longrightarrow> lines_inv (m_Width b) (m_Height b) (m_BufferEraseChar b)
    (back_lines b) (m_BackAllocated b) b"
  by (simp add: lines_inv_def)

lemma back_lines_put_row [simp]: "back_lines (put_row y x zs b) = back_lines b"
  by (simp add: back_lines_def)

lemma SetLineWrapped_alloc [simp]: "m_BackAllocated (SetLineWrapped n w b) = m_BackAllocated b"
  by (auto simp: SetLineWrapped_def split: option.split prod.split region.split)

text \<open>Writing a whole row and its flag, seen as an update of the list of lines.\<close>

lemma replace_line:
  assumes "lines_inv w h e bl al b" and "0 \<le> j" and "j < int h" and "length zs = w"
  shows "lines_inv w h e bl al (SetLineWrapped j f (put_row (nat j) 0 zs b))"
    and "screen_lines (SetLineWrapped j f (put_row (nat j) 0 zs b)) = (screen_lines b)[nat j := (zs, f)]"
proof -
  have ok: "buf_ok b" and wh: "m_Width b = w" "m_Height b = h" using assms(1) by (simp_all add: lines_inv_def)
  let ?p = "put_row (nat j) 0 zs b"
  have p: "buf_ok ?p" using ok wh assms by (simp add: nat_less_iff)
  note sw = SetLineWrapped_row [OF p assms(2), of f]
  show "lines_inv w h e bl al (SetLineWrapped j f ?p)"
    using assms(1,3) sw wh by (simp add: lines_inv_def back_lines_def)
  have "rows ?p = (rows b)[nat j := zs]"
    using put_row_all [of b "nat j" zs] ok wh assms by (simp add: nat_less_iff)
  then show "screen_lines (SetLineWrapped j f ?p) = (screen_lines b)[nat j := (zs, f)]"
    using sw assms(3) wh by (simp add: screen_lines_def zip_update)
qed

lemma row_span_len [simp]: "(row_span b y)\<lparr>sp_len := m_Width b\<rparr> = row_span b y"
  by (simp add: row_span_def)

lemma buf_ok_pos: "buf_ok b \<Longrightarrow> 0 < m_Width b \<and> 0 < m_Height b"
  by (simp add: buf_ok_def)

lemma CopyLineChars_row:
  assumes "buf_ok b" "0 \<le> i" "i < int (m_Height b)" "0 \<le> j" "j < int (m_Height b)"
  shows "CopyLineChars i j b = Inr (put_row (nat j) 0 (row b (nat i)) b)"
proof -
  have y: "nat i < m_Height b" "nat j < m_Height b" using assms by auto
  have "span_write (row_span b (nat j)) 0 (row b (nat i)) b = Inr (put_row (nat j) 0 (row b (nat i)) b)"
    using row_write [of b "nat j" 0 "row b (nat i)"] assms(1) y by simp
  then show ?thesis
    using assms y buf_ok_pos [OF assms(1)] by (simp add: CopyLineChars_def LineFromNo_row row_read)
qed

lemma MoveLine_row:
  assumes "buf_ok b" "0 \<le> i" "i < int (m_Height b)" "0 \<le> j" "j < int (m_Height b)"
  shows "MoveLine i j b = Inr (SetLineWrapped j (wraps b ! nat i) (put_row (nat j) 0 (row b (nat i)) b))"
proof -
  have "nat i < m_Height b" "nat j < m_Height b" using assms by auto
  then have "LineWrapped i (put_row (nat j) 0 (row b (nat i)) b) = wraps b ! nat i"
    using LineWrapped_row [of "put_row (nat j) 0 (row b (nat i)) b" i] assms by simp
  then show ?thesis by (simp add: MoveLine_def CopyLineChars_row [OF assms])
qed

lemma ClearLine_row:
  assumes "buf_ok b" "0 \<le> i" "i < int (m_Height b)"
  shows "ClearLine c i b =
    Inr (SetLineWrapped i False (put_row (nat i) 0 (replicate (m_Width b) c) b))"
proof -
  have "nat i < m_Height b" using assms by auto
  with assms row_fill [of b "nat i" 0 "int (m_Width b)" c] show ?thesis
    by (simp add: ClearLine_def LineFromNo_row buf_ok_def)
qed

interpretation sl: line_store screen_lines MoveLine "ClearLine c" "(replicate w c, False)"
    "lines_inv w h e bl al"
  for c w h e bl al
proof
  fix b :: ScreenBuffer and i j :: int
  assume inv: "lines_inv w h e bl al b" and i: "0 \<le> i" "i < int (length (screen_lines b))"
  then have b: "buf_ok b" "m_Width b = w" "m_Height b = h" "i < int h"
    by (auto simp: lines_inv_def)
  then have y: "nat i < h" using i by auto
  show "\<exists>b'. ClearLine c i b = Inr b' \<and> lines_inv w h e bl al b'
      \<and> screen_lines b' = (screen_lines b)[nat i := (replicate w c, False)]"
    using ClearLine_row [of b i c] replace_line [OF inv i(1) b(4), of "replicate w c" False] b i
    by simp
  assume j: "0 \<le> j" "j < int (length (screen_lines b))"
  then have j': "j < int h" using b by simp
  have "length (row b (nat i)) = w" using b y by simp
  moreover have "screen_lines b ! nat i = (row b (nat i), wraps b ! nat i)"
    using b y by (simp add: screen_lines_def)
  ultimately show "\<exists>b'. MoveLine i j b = Inr b' \<and> lines_inv w h e bl al b'
      \<and> screen_lines b' = (screen_lines b)[nat j := screen_lines b ! nat i]"
    using MoveLine_row [of b i j] replace_line [OF inv j(1) j', of "row b (nat i)" "wraps b ! nat i"]
      b i j j' by simp
qed

text \<open>
  The bodies of the erasing loops clear a line as well; they are instances of the same interface.
\<close>

lemma EraseLine_row:
  assumes "buf_ok b" "0 \<le> i" "i < int (m_Height b)"
  shows "EraseLine c i b =
    Inr (SetLineWrapped i False (put_row (nat i) 0 (replicate (m_Width b) c) b))"
  using ClearLine_row [OF assms, of c] assms
  by (simp add: ClearLine_def EraseLine_def LineFromNo_row buf_ok_def)

lemma FillLine_row:
  assumes "buf_ok b" "0 \<le> i" "i < int (m_Height b)"
  shows "FillLine c i b = Inr (put_row (nat i) 0 (replicate (m_Width b) c) b)"
  using row_fill [of b "nat i" 0 "int (m_Width b)" c] assms
  by (simp add: FillLine_def LineFromNo_row nat_less_iff)

interpretation er: line_store screen_lines MoveLine "EraseLine c" "(replicate w c, False)"
    "lines_inv w h e bl al"
  for c w h e bl al
proof
  fix b :: ScreenBuffer and i j :: int
  assume inv: "lines_inv w h e bl al b" and i: "0 \<le> i" "i < int (length (screen_lines b))"
  then have "buf_ok b" "i < int (m_Height b)" by (auto simp: lines_inv_def)
  then have "EraseLine c i b = ClearLine c i b"
    using i by (simp add: EraseLine_row ClearLine_row)
  with sl.clear_line [OF inv i] show "\<exists>b'. EraseLine c i b = Inr b' \<and> lines_inv w h e bl al b'
      \<and> screen_lines b' = (screen_lines b)[nat i := (replicate w c, False)]" by simp
  assume "0 \<le> j" "j < int (length (screen_lines b))"
  with sl.move_line [OF inv i] show "\<exists>b'. MoveLine i j b = Inr b' \<and> lines_inv w h e bl al b'
      \<and> screen_lines b' = (screen_lines b)[nat j := screen_lines b ! nat i]" by simp
qed

text \<open>Filling keeps the wrap flags; here the lines are the rows alone.\<close>

interpretation fs: line_store rows CopyLineChars "FillLine c" "replicate w c"
    "\<lambda>b. lines_inv w h e bl al b \<and> wraps b = ws"
  for c w h e bl al ws
proof
  fix b :: ScreenBuffer and i j :: int
  assume inv: "lines_inv w h e bl al b \<and> wraps b = ws" and i: "0 \<le> i" "i < int (length (rows b))"
  then have b: "buf_ok b" "m_Width b = w" "m_Height b = h" "i < int (m_Height b)" "nat i < h"
    by (auto simp: lines_inv_def)
  have keep: "lines_inv w h e bl al (put_row y 0 zs b) \<and> wraps (put_row y 0 zs b) = ws"
    if "y < h" "length zs = w" for y zs
    using inv that by (simp add: lines_inv_def)
  show "\<exists>b'. FillLine c i b = Inr b' \<and> (lines_inv w h e bl al b' \<and> wraps b' = ws)
      \<and> rows b' = (rows b)[nat i := replicate w c]"
    using FillLine_row [OF b(1) i(1) b(4), of c] keep [OF b(5), of "replicate w c"]
      put_row_all [OF b(1), of "nat i" "replicate w c"] b by simp
  assume j: "0 \<le> j" "j < int (length (rows b))"
  then have y: "nat j < h" using b by auto
  have "length (row b (nat i)) = w" using b by simp
  then show "\<exists>b'. CopyLineChars i j b = Inr b' \<and> (lines_inv w h e bl al b' \<and> wraps b' = ws)
      \<and> rows b' = (rows b)[nat j := rows b ! nat i]"
    using keep [OF y, of "row b (nat i)"] put_row_all [OF b(1), of "nat j" "row b (nat i)"] b i j y
    by (simp add: CopyLineChars_row)
qed

section \<open>The invariant of the screen\<close>

definition snapshot_ok :: "Snapshot \<Rightarrow> bool" where
  "snapshot_ok s \<longleftrightarrow> length (snap_chars s) = snap_width s * snap_height s"

definition screen_ok :: "Screen \<Rightarrow> bool" where
  "screen_ok s \<longleftrightarrow> buf_ok (m_Buffer s)
     \<and> 0 \<le> m_PosX s \<and> m_PosX s < Width s \<and> 0 \<le> m_PosY s \<and> m_PosY s < Height s
     \<and> m_BufferEraseChar (m_Buffer s) = m_EraseChar s
     \<and> snapshot_ok (saved_snapshot (m_PrimaryScreenshot s))
     \<and> snapshot_ok (saved_snapshot (m_AlternativeScreenshot s))"

lemma screen_okD:
  assumes "screen_ok s"
  shows "buf_ok (m_Buffer s)" "0 \<le> m_PosX s" "m_PosX s < Width s" "0 \<le> m_PosY s"
    "m_PosY s < Height s" "m_BufferEraseChar (m_Buffer s) = m_EraseChar s"
    "nat (m_PosY s) < m_Height (m_Buffer s)" "nat (m_PosX s) < m_Width (m_Buffer s)"
  using assms by (auto simp: screen_ok_def)

lemma buf_ok_init:
  assumes "0 < w" "0 < h" "w * h < 2 ^ 31"
  shows "buf_ok (ScreenBuffer_init w h)"
  using assms
  by (simp add: buf_ok_def ScreenBuffer_init_def FixupOnScreenLinesIndeces_def nth_Fixup
      ProduceRectangularSpaces_def mult.commute)

lemma GoTo_sel [simp]:
  "m_Buffer (GoTo x y s) = m_Buffer s" "m_EraseChar (GoTo x y s) = m_EraseChar s"
  "m_AlternateScreen (GoTo x y s) = m_AlternateScreen s"
  "m_ReverseVideo (GoTo x y s) = m_ReverseVideo s"
  "m_PrimaryScreenshot (GoTo x y s) = m_PrimaryScreenshot s"
  "m_AlternativeScreenshot (GoTo x y s) = m_AlternativeScreenshot s"
  "m_LineOverflown (GoTo x y s) = False"
  by (simp_all add: GoTo_def Let_def)

text \<open>\<open>GoTo\<close> clamps into the screen, and goes where it is told when that is on the screen.\<close>

lemma GoTo_pos:
  assumes "0 < Width s" and "0 < Height s"
  shows "m_PosX (GoTo x y s) = min (max x 0) (Width s - 1)"
    and "m_PosY (GoTo x y s) = min (max y 0) (Height s - 1)"
  using assms by (simp_all add: GoTo_def Let_def)

lemma GoTo_ok:
  assumes "buf_ok (m_Buffer s)" "m_BufferEraseChar (m_Buffer s) = m_EraseChar s"
    "snapshot_ok (saved_snapshot (m_PrimaryScreenshot s))"
    "snapshot_ok (saved_snapshot (m_AlternativeScreenshot s))"
  shows "screen_ok (GoTo x y s)"
  using assms GoTo_pos [of s x y] buf_ok_pos [OF assms(1)]
  by (auto simp: screen_ok_def min_def max_def)

lemma screen_ok_GoTo [simp]: "screen_ok s \<Longrightarrow> screen_ok (GoTo x y s)"
  by (rule GoTo_ok) (simp_all add: screen_ok_def)

lemma screen_ok_init:
  "0 < w \<Longrightarrow> 0 < h \<Longrightarrow> w * h < 2 ^ 31 \<Longrightarrow> screen_ok (Screen_init w h)"
  unfolding Screen_init_def GoToDefaultPosition_def
  by (rule GoTo_ok) (simp_all add: buf_ok_init snapshot_ok_def SavedScreen_init_def
      Snapshot_init_def, simp add: ScreenBuffer_init_def)

text \<open>Replacing the buffer by one of the same size.\<close>

definition same_frame :: "ScreenBuffer \<Rightarrow> ScreenBuffer \<Rightarrow> bool" where
  "same_frame b b' \<longleftrightarrow> buf_ok b' \<and> m_Width b' = m_Width b \<and> m_Height b' = m_Height b
     \<and> m_BufferEraseChar b' = m_BufferEraseChar b"

lemma screen_ok_buffer:
  "screen_ok s \<Longrightarrow> same_frame (m_Buffer s) b \<Longrightarrow> screen_ok (s\<lparr>m_Buffer := b\<rparr>)"
  by (simp add: screen_ok_def same_frame_def)

lemma same_frame_put_row:
  "buf_ok b \<Longrightarrow> y < m_Height b \<Longrightarrow> x + length zs \<le> m_Width b \<Longrightarrow> same_frame b (put_row y x zs b)"
  by (simp add: same_frame_def)

lemma same_frame_wrap: "buf_ok b \<Longrightarrow> same_frame b (SetLineWrapped n w b)"
  by (simp add: same_frame_def SetLineWrapped_ok)

lemma same_frame_trans: "same_frame a b \<Longrightarrow> same_frame b c \<Longrightarrow> same_frame a c"
  by (simp add: same_frame_def)

lemma same_frame_refl: "buf_ok b \<Longrightarrow> same_frame b b"
  by (simp add: same_frame_def)

end
