(* ===== verification/ScreenProps.thy ===== *)
theory ScreenProps
  imports ScreenLines
begin

text \<open>
  What the operations of the screen do, seen on the grid of cells: every operation keeps the
  invariant of the screen and has no fault where its arguments are in range, and its effect is
  given as a function on rows, wrap flags, scrollback and cursor.
\<close>

named_theorems screen_safe "operations that keep the invariant of the screen"

section \<open>Scrolling\<close>

text \<open>Feeding the first lines of the screen to the scrollback.\<close>

lemma feed_loop:
  assumes "buf_ok b" and "0 \<le> n" and "n \<le> int (m_Height b)"
  shows "\<exists>b'. for_up 0 n (\<lambda>i b. bindR (LineFromNo i b) (\<lambda>line.
        bindR (assertR (sp_len line \<noteq> 0)) (\<lambda>_.
        bindR (span_contents line b) (\<lambda>xs. FeedBackscreen xs (LineWrapped i b) b)))) b = Inr b'
    \<and> same_frame b b' \<and> screen_lines b' = screen_lines b
    \<and> back_lines b' = back_lines b @ take (nat n) (screen_lines b)
    \<and> (m_BackAllocated b \<or> n > 0 \<longrightarrow> m_BackAllocated b')"
proof -
  let ?P = "\<lambda>k b'. same_frame b b' \<and> screen_lines b' = screen_lines b
    \<and> back_lines b' = back_lines b @ take (nat k) (screen_lines b)
    \<and> (m_BackAllocated b \<or> k > 0 \<longrightarrow> m_BackAllocated b')"
  have "\<exists>b'. for_up 0 n (\<lambda>i b. bindR (LineFromNo i b) (\<lambda>line.
        bindR (assertR (sp_len line \<noteq> 0)) (\<lambda>_.
        bindR (span_contents line b) (\<lambda>xs. FeedBackscreen xs (LineWrapped i b) b)))) b = Inr b'
      \<and> ?P n b'"
  proof (rule for_up_rule)
    show "?P 0 b" using assms by (simp add: same_frame_refl)
    show "0 \<le> n" by fact
  next
    fix k c assume k: "0 \<le> k" "k < n" and P: "?P k c"
    then have c: "buf_ok c" "m_Height c = m_Height b" "m_Width c = m_Width b" "0 < m_Width c"
      by (auto simp: same_frame_def dest: buf_ok_pos)
    have y: "nat k < m_Height c" "k < int (m_Height c)" using k c assms by auto
    let ?w = "wraps c ! nat k"
    have "screen_lines c ! nat k = (row c (nat k), ?w)"
      using c y by (simp add: screen_lines_def)
    then have line: "screen_lines b ! nat k = (row c (nat k), ?w)" using P by simp
    have "back_lines (push_back_line (row c (nat k)) ?w c) =
        back_lines b @ take (nat (k + 1)) (screen_lines b)"
      using P c line y k assms
      by (simp add: push_back_line_props nat_add_distrib take_Suc_conv_app_nth)
    moreover have "screen_lines (push_back_line (row c (nat k)) ?w c) = screen_lines b"
      using P c by (simp add: screen_lines_def push_back_line_props)
    moreover have "same_frame b (push_back_line (row c (nat k)) ?w c)"
      using P c by (simp add: same_frame_def push_back_line_props)
    moreover have "m_BackAllocated (push_back_line (row c (nat k)) ?w c)"
    proof -
      have "length (row c (nat k)) \<noteq> 0" using c y by simp
      then show ?thesis by (simp add: push_back_line_def)
    qed
    ultimately show "\<exists>b'. bindR (LineFromNo k c) (\<lambda>line. bindR (assertR (sp_len line \<noteq> 0)) (\<lambda>_.
        bindR (span_contents line c) (\<lambda>xs. FeedBackscreen xs (LineWrapped k c) c))) = Inr b'
        \<and> ?P (k + 1) b'"
      using c y k by (simp add: LineFromNo_row row_read LineWrapped_row FeedBackscreen_row)
  qed
  then show ?thesis by blast
qed

text \<open>The range a scroll acts on, and what leaves the top of a primary screen.\<close>

definition scroll_bottom :: "u32 \<Rightarrow> Screen \<Rightarrow> int" where
  "scroll_bottom bottom s = min (sint bottom) (Height s)"

definition scroll_args :: "u32 \<Rightarrow> u32 \<Rightarrow> u32 \<Rightarrow> Screen \<Rightarrow> bool" where
  "scroll_args t b n s \<longleftrightarrow> 0 \<le> sint t \<and> sint t < scroll_bottom b s \<and> 1 \<le> sint n
     \<and> in_int (sint t + sint n)"

definition scrolled_off :: "u32 \<Rightarrow> u32 \<Rightarrow> u32 \<Rightarrow> Screen \<Rightarrow> (Space list \<times> bool) list" where
  "scrolled_off t b n s =
     (if sint t = 0 \<and> scroll_bottom b s = Height s \<and> \<not> m_AlternateScreen s
      then take (nat (sint n)) (screen_lines (m_Buffer s)) else [])"

abbreviation blank_line :: "Screen \<Rightarrow> Space list \<times> bool" where
  "blank_line s \<equiv> (replicate (m_Width (m_Buffer s)) (m_EraseChar s), False)"

lemma scroll_up_eff:
  assumes ok: "screen_ok s" and args: "scroll_args t b n s"
  shows "\<exists>c. DoScrollUp t b n s = Inr (s\<lparr>m_Buffer := c\<rparr>) \<and> same_frame (m_Buffer s) c
    \<and> screen_lines c = scrolled_up (nat (sint t)) (nat (scroll_bottom b s)) (nat (sint n))
        (blank_line s) (screen_lines (m_Buffer s))
    \<and> back_lines c = back_lines (m_Buffer s) @ scrolled_off t b n s"
proof -
  let ?t = "sint t" and ?b = "scroll_bottom b s" and ?n = "sint n"
  let ?feed = "?t = 0 \<and> ?b = Height s \<and> \<not> m_AlternateScreen s"
  note buf = screen_okD(1) [OF ok]
  have a: "0 \<le> ?t" "?t < ?b" "?b \<le> Height s" "1 \<le> ?n" "in_int (?t + ?n)"
    using args by (simp_all add: scroll_args_def scroll_bottom_def)
  have len: "length (screen_lines (m_Buffer s)) = m_Height (m_Buffer s)" using buf by simp
  have "\<exists>b1. (if ?feed then for_up 0 (min ?n (Height s)) (\<lambda>i b. bindR (LineFromNo i b) (\<lambda>line.
          bindR (assertR (sp_len line \<noteq> 0)) (\<lambda>_.
          bindR (span_contents line b) (\<lambda>xs. FeedBackscreen xs (LineWrapped i b) b)))) (m_Buffer s)
        else Inr (m_Buffer s)) = Inr b1
      \<and> same_frame (m_Buffer s) b1 \<and> screen_lines b1 = screen_lines (m_Buffer s)
      \<and> back_lines b1 = back_lines (m_Buffer s) @ scrolled_off t b n s"
  proof (cases ?feed)
    case True
    have "nat (min ?n (Height s)) = min (nat ?n) (m_Height (m_Buffer s))" by simp
    then have "take (nat (min ?n (Height s))) (screen_lines (m_Buffer s)) = scrolled_off t b n s"
      using True len by (simp add: scrolled_off_def min_def)
    with feed_loop [OF buf, of "min ?n (Height s)"] True a show ?thesis by auto
  next
    case False
    then show ?thesis using buf by (auto simp: scrolled_off_def same_frame_refl)
  qed
  then obtain b1 where b1: "(if ?feed then for_up 0 (min ?n (Height s)) (\<lambda>i b.
          bindR (LineFromNo i b) (\<lambda>line. bindR (assertR (sp_len line \<noteq> 0)) (\<lambda>_.
          bindR (span_contents line b) (\<lambda>xs. FeedBackscreen xs (LineWrapped i b) b)))) (m_Buffer s)
        else Inr (m_Buffer s)) = Inr b1"
      "same_frame (m_Buffer s) b1" "screen_lines b1 = screen_lines (m_Buffer s)"
      "back_lines b1 = back_lines (m_Buffer s) @ scrolled_off t b n s" by blast
  let ?inv = "lines_inv (m_Width (m_Buffer s)) (m_Height (m_Buffer s)) (m_BufferEraseChar (m_Buffer s))
    (back_lines b1) (m_BackAllocated b1)"
  have inv: "?inv b1" using b1(2) by (simp add: lines_inv_def same_frame_def)
  have "?b \<le> sint b" by (simp add: scroll_bottom_def)
  then have low: "in_int (?b - ?n)"
    using a in_int_sint [of n] in_int_sint [of b] unfolding in_int_def by linarith
  from sl.scroll_up_lines [OF inv a(1,2) _ a(4), of "m_EraseChar s"] a(3) len b1(3) obtain c where c:
    "bindR (up_loop (?t + ?n) ?t ?b MoveLine b1) (for_down (?b - 1) (max (?b - ?n) ?t)
       (ClearLine (m_EraseChar s))) = Inr c" "?inv c"
    "screen_lines c = scrolled_up (nat ?t) (nat ?b) (nat ?n) (blank_line s) (screen_lines (m_Buffer s))"
    by auto
  have "DoScrollUp t b n s = Inr (s\<lparr>m_Buffer := c\<rparr>)"
    using a b1(1) c(1) low
    by (simp add: DoScrollUp_def Let_def on_buffer_def flip: scroll_bottom_def)
  moreover have "same_frame (m_Buffer s) c" "back_lines c = back_lines b1"
    using c(2) by (simp_all add: lines_inv_def same_frame_def)
  ultimately show ?thesis using c(3) b1(4) by auto
qed

lemma scroll_down_eff:
  assumes ok: "screen_ok s" and args: "scroll_args t b n s"
  shows "\<exists>c. ScrollDown t b n s = Inr (s\<lparr>m_Buffer := c\<rparr>) \<and> same_frame (m_Buffer s) c
    \<and> screen_lines c = scrolled_down (nat (sint t)) (nat (scroll_bottom b s)) (nat (sint n))
        (blank_line s) (screen_lines (m_Buffer s))
    \<and> back_lines c = back_lines (m_Buffer s)"
proof -
  let ?t = "sint t" and ?b = "scroll_bottom b s" and ?n = "sint n"
  note buf = screen_okD(1) [OF ok]
  have a: "0 \<le> ?t" "?t < ?b" "?b \<le> Height s" "1 \<le> ?n" "in_int (?t + ?n)"
    using args by (simp_all add: scroll_args_def scroll_bottom_def)
  have len: "length (screen_lines (m_Buffer s)) = m_Height (m_Buffer s)" using buf by simp
  note inv = lines_inv_self [OF buf]
  have "?b \<le> sint b" by (simp add: scroll_bottom_def)
  then have low: "in_int (?b - 1 - ?n)"
    using a in_int_sint [of n] in_int_sint [of b] unfolding in_int_def by linarith
  from sl.scroll_down_lines [OF inv a(1,2) _ a(4), of "m_EraseChar s"] a(3) len obtain c where c:
    "bindR (down_loop (?b - 1) (?b - 1 - ?n) ?t MoveLine (m_Buffer s)) (for_up ?t (min (?t + ?n) ?b)
       (ClearLine (m_EraseChar s))) = Inr c"
    "lines_inv (m_Width (m_Buffer s)) (m_Height (m_Buffer s)) (m_BufferEraseChar (m_Buffer s))
       (back_lines (m_Buffer s)) (m_BackAllocated (m_Buffer s)) c"
    "screen_lines c = scrolled_down (nat ?t) (nat ?b) (nat ?n) (blank_line s) (screen_lines (m_Buffer s))"
    by auto
  have "ScrollDown t b n s = Inr (s\<lparr>m_Buffer := c\<rparr>)"
    using a c(1) low
    by (simp add: ScrollDown_def Let_def on_buffer_def flip: scroll_bottom_def)
  moreover have "same_frame (m_Buffer s) c" "back_lines c = back_lines (m_Buffer s)"
    using c(2) by (simp_all add: lines_inv_def same_frame_def)
  ultimately show ?thesis using c(3) by auto
qed

section \<open>Editing one row\<close>

text \<open>The buffer \<open>b\<close> is \<open>b0\<close> with row \<open>y\<close> replaced by \<open>r\<close>.\<close>

definition row_state :: "ScreenBuffer \<Rightarrow> nat \<Rightarrow> Space list \<Rightarrow> ScreenBuffer \<Rightarrow> bool" where
  "row_state b0 y r b \<longleftrightarrow> same_frame b0 b \<and> wraps b = wraps b0 \<and> back_lines b = back_lines b0
     \<and> m_BackAllocated b = m_BackAllocated b0
     \<and> rows b = (rows b0)[y := r] \<and> length r = m_Width b0"

lemma row_state_start: "buf_ok b \<Longrightarrow> y < m_Height b \<Longrightarrow> row_state b y (row b y) b"
  using list_update_id [of "rows b" y] by (simp add: row_state_def same_frame_def)

lemma row_state_row:
  assumes "row_state b0 y r b" and "y < m_Height b0"
  shows "row b y = r" "buf_ok b" "m_Width b = m_Width b0" "m_Height b = m_Height b0"
    "row_span b = row_span b0"
proof -
  show f: "buf_ok b" "m_Width b = m_Width b0" "m_Height b = m_Height b0"
    using assms(1) by (simp_all add: row_state_def same_frame_def)
  have "rows b ! y = r" using assms by (simp add: row_state_def)
  with f(3) assms(2) show "row b y = r" by simp
  show "row_span b = row_span b0" using f(2) by (simp add: row_span_def fun_eq_iff)
qed

lemma row_state_put:
  assumes st: "row_state b0 y r b" and y: "y < m_Height b0" and x: "x + length zs \<le> m_Width b0"
  shows "row_state b0 y (overwrite x zs r) (put_row y x zs b)"
  using row_state_row [OF st y] st x y
  by (auto simp: row_state_def rows_put_row same_frame_def)

lemma row_state_get:
  assumes st: "row_state b0 y r b" and y: "y < m_Height b0" and x: "0 \<le> x" "x < int (m_Width b0)"
  shows "ptr_get (row_span b0 y) x b = Inr (r ! nat x)"
  using row_get(2) [of b y x] row_state_row [OF st y] y x by simp

lemma row_state_set:
  assumes st: "row_state b0 y r b" and y: "y < m_Height b0" and x: "0 \<le> x" "x < int (m_Width b0)"
  shows "\<exists>b'. ptr_set (row_span b0 y) x v b = Inr b' \<and> span_set (row_span b0 y) x v b = Inr b'
    \<and> row_state b0 y (r[nat x := v]) b'"
proof -
  have "nat x + length [v] \<le> m_Width b0" using x by simp
  from row_state_put [OF st y this] have "row_state b0 y (r[nat x := v]) (put_row y (nat x) [v] b)"
    using st x by (simp add: overwrite_single row_state_def nat_less_iff)
  then show ?thesis using row_set [of b y x v] row_state_row [OF st y] y x by auto
qed

lemma row_state_fill:
  assumes st: "row_state b0 y r b" and y: "y < m_Height b0"
    and x: "0 \<le> x" "x \<le> x'" "x' \<le> int (m_Width b0)"
  shows "\<exists>b'. span_fill (row_span b0 y) x x' v b = Inr b'
    \<and> row_state b0 y (overwrite (nat x) (replicate (nat (x' - x)) v) r) b'"
proof -
  have "nat x + length (replicate (nat (x' - x)) v) \<le> m_Width b0" using x by simp
  from row_state_put [OF st y this]
  show ?thesis using row_fill [of b y x x' v] row_state_row [OF st y] y x by auto
qed

text \<open>Loops over the cells of a row.\<close>

lemma row_loop_up:
  assumes "row_state b0 y r b" and "Q lo r" and "lo \<le> hi"
    and "\<And>x r b. lo \<le> x \<Longrightarrow> x < hi \<Longrightarrow> row_state b0 y r b \<Longrightarrow> Q x r \<Longrightarrow>
      \<exists>b' r'. body x b = Inr b' \<and> row_state b0 y r' b' \<and> Q (x + 1) r'"
  shows "\<exists>b' r'. for_up lo hi body b = Inr b' \<and> row_state b0 y r' b' \<and> Q hi r'"
proof -
  have "\<exists>b'. for_up lo hi body b = Inr b' \<and> (\<exists>r'. row_state b0 y r' b' \<and> Q hi r')"
    by (rule for_up_rule [where P = "\<lambda>x b'. \<exists>r'. row_state b0 y r' b' \<and> Q x r'"])
      (use assms in \<open>blast\<close>)+
  then show ?thesis by blast
qed

lemma row_loop_down:
  assumes "row_state b0 y r b" and "Q hi r" and "lo \<le> hi + 1"
    and "\<And>x r b. lo \<le> x \<Longrightarrow> x \<le> hi \<Longrightarrow> row_state b0 y r b \<Longrightarrow> Q x r \<Longrightarrow>
      \<exists>b' r'. body x b = Inr b' \<and> row_state b0 y r' b' \<and> Q (x - 1) r'"
  shows "\<exists>b' r'. for_down hi lo body b = Inr b' \<and> row_state b0 y r' b' \<and> Q (lo - 1) r'"
proof -
  have "\<exists>b'. for_down hi lo body b = Inr b' \<and> (\<exists>r'. row_state b0 y r' b' \<and> Q (lo - 1) r')"
    by (rule for_down_rule [where P = "\<lambda>x b'. \<exists>r'. row_state b0 y r' b' \<and> Q x r'"])
      (use assms in \<open>blast\<close>)+
  then show ?thesis by blast
qed

section \<open>Shifting a row\<close>

text \<open>Deleting and inserting cells at column \<open>x\<close>, specified.\<close>

definition deleted_cells :: "nat \<Rightarrow> nat \<Rightarrow> 'a \<Rightarrow> 'a list \<Rightarrow> 'a list" where
  "deleted_cells x n v r = take x r @ drop (x + n) r @ replicate n v"

definition inserted_cells :: "nat \<Rightarrow> nat \<Rightarrow> 'a \<Rightarrow> 'a list \<Rightarrow> 'a list" where
  "inserted_cells x n v r = take x r @ replicate n v @ take (length r - x - n) (drop x r)"

lemma nth_deleted_cells:
  "x + n \<le> length r \<Longrightarrow> i < length r \<Longrightarrow> deleted_cells x n v r ! i =
    (if i < x then r ! i else if i + n < length r then r ! (i + n) else v)"
  by (auto simp: deleted_cells_def nth_append add.commute intro!: arg_cong [where f = "nth r"])

lemma nth_inserted_cells:
  "x + n \<le> length r \<Longrightarrow> i < length r \<Longrightarrow> inserted_cells x n v r ! i =
    (if i < x then r ! i else if i < x + n then v else r ! (i - n))"
  by (auto simp: inserted_cells_def nth_append intro!: arg_cong [where f = "nth r"])

lemma length_cells [simp]:
  "x + n \<le> length r \<Longrightarrow> length (deleted_cells x n v r) = length r"
  "x + n \<le> length r \<Longrightarrow> length (inserted_cells x n v r) = length r"
  by (auto simp: deleted_cells_def inserted_cells_def)

lemma buf_ok_int: "buf_ok b \<Longrightarrow> int (m_Width b) < 2 ^ 31 \<and> int (m_Height b) < 2 ^ 31"
proof -
  assume ok: "buf_ok b"
  then have "m_Width b * m_Height b < 2 ^ 31" by (simp add: buf_ok_def)
  moreover have "m_Width b \<le> m_Width b * m_Height b" "m_Height b \<le> m_Width b * m_Height b"
    using buf_ok_pos [OF ok] by simp_all
  ultimately have "m_Width b < 2 ^ 31 \<and> m_Height b < 2 ^ 31" by linarith
  then show ?thesis by simp
qed

lemma buf_ok_in_int: "buf_ok b \<Longrightarrow> 0 \<le> x \<Longrightarrow> x \<le> int (m_Width b) \<Longrightarrow> in_int x"
  using buf_ok_int [of b] by (simp add: in_int_def)

text \<open>The moving loops: cells move by \<open>n\<close>, leftwards in ascending order or rightwards in
  descending order, so none is overwritten before it is read.\<close>

lemma moved_left:
  assumes "buf_ok b0" "y < m_Height b0" "0 \<le> n" "0 \<le> X" "X + n \<le> int (m_Width b0)"
  defines "r0 \<equiv> row b0 y"
  shows "\<exists>b r. for_up (X + n) (int (m_Width b0))
      (\<lambda>x b. bindR (mk_int (x - n)) (\<lambda>d. ptr_move (row_span b0 y) x d b)) b0 = Inr b
    \<and> row_state b0 y r b \<and> (\<forall>k < m_Width b0. r ! k =
        (if X \<le> int k \<and> int k + n < int (m_Width b0) then r0 ! (k + nat n) else r0 ! k))"
proof (rule row_loop_up [where r = r0 and Q = "\<lambda>x r. \<forall>k < m_Width b0. r ! k =
    (if X \<le> int k \<and> int k + n < x then r0 ! (k + nat n) else r0 ! k)"])
  show "row_state b0 y r0 b0" using assms by (simp add: row_state_start)
next
  fix x r b
  assume x: "X + n \<le> x" "x < int (m_Width b0)" and st: "row_state b0 y r b"
    and Q: "\<forall>k < m_Width b0. r ! k = (if X \<le> int k \<and> int k + n < x then r0 ! (k + nat n) else r0 ! k)"
  have d: "0 \<le> x - n" "x - n < int (m_Width b0)" "0 \<le> x" using x assms by auto
  then have "in_int (x - n)" using buf_ok_in_int [OF assms(1), of "x - n"] by simp
  moreover from row_state_set [OF st assms(2) d(1,2)] obtain b' where b':
    "ptr_set (row_span b0 y) (x - n) (r ! nat x) b = Inr b'"
    "row_state b0 y (r[nat (x - n) := r ! nat x]) b'" by blast
  ultimately have "bindR (mk_int (x - n)) (\<lambda>d. ptr_move (row_span b0 y) x d b) = Inr b'"
    using row_state_get [OF st assms(2) d(3) x(2)] by (simp add: ptr_move_def)
  moreover have "\<forall>k < m_Width b0. r[nat (x - n) := r ! nat x] ! k =
      (if X \<le> int k \<and> int k + n < x + 1 then r0 ! (k + nat n) else r0 ! k)"
  proof (intro allI impI)
    fix k assume k: "k < m_Width b0"
    have lr: "length r = m_Width b0" using st by (simp add: row_state_def)
    have rx: "r ! nat x = r0 ! nat x" using Q x assms d by auto
    show "r[nat (x - n) := r ! nat x] ! k =
      (if X \<le> int k \<and> int k + n < x + 1 then r0 ! (k + nat n) else r0 ! k)"
    proof (cases "int k = x - n")
      case True
      then have "nat (x - n) = k" "nat x = k + nat n" using assms by auto
      then show ?thesis using True k lr rx x by simp
    next
      case False
      then show ?thesis using Q k d by (auto simp: nth_list_update)
    qed
  qed
  ultimately show "\<exists>b' r'. bindR (mk_int (x - n)) (\<lambda>d. ptr_move (row_span b0 y) x d b) = Inr b'
      \<and> row_state b0 y r' b' \<and> (\<forall>k < m_Width b0. r' ! k =
        (if X \<le> int k \<and> int k + n < x + 1 then r0 ! (k + nat n) else r0 ! k))"
    using b'(2) by blast
qed (use assms in auto)

lemma moved_right:
  assumes "buf_ok b0" "y < m_Height b0" "0 \<le> n" "0 \<le> X" "X + n \<le> int (m_Width b0)"
  defines "r0 \<equiv> row b0 y"
  shows "\<exists>b r. for_down (int (m_Width b0) - 1) (X + n)
      (\<lambda>x b. bindR (mk_int (x - n)) (\<lambda>d. ptr_move (row_span b0 y) d x b)) b0 = Inr b
    \<and> row_state b0 y r b \<and> (\<forall>k < m_Width b0. r ! k =
        (if X + n - 1 < int k then r0 ! (k - nat n) else r0 ! k))"
proof (rule row_loop_down [where r = r0 and Q = "\<lambda>x r. \<forall>k < m_Width b0. r ! k =
    (if x < int k then r0 ! (k - nat n) else r0 ! k)"])
  show "row_state b0 y r0 b0" using assms by (simp add: row_state_start)
next
  fix x r b
  assume x: "X + n \<le> x" "x \<le> int (m_Width b0) - 1" and st: "row_state b0 y r b"
    and Q: "\<forall>k < m_Width b0. r ! k = (if x < int k then r0 ! (k - nat n) else r0 ! k)"
  have d: "0 \<le> x - n" "x - n < int (m_Width b0)" "0 \<le> x" "x < int (m_Width b0)" using x assms by auto
  then have "in_int (x - n)" using buf_ok_in_int [OF assms(1), of "x - n"] by simp
  moreover from row_state_set [OF st assms(2) d(3,4)] obtain b' where b':
    "ptr_set (row_span b0 y) x (r ! nat (x - n)) b = Inr b'"
    "row_state b0 y (r[nat x := r ! nat (x - n)]) b'" by blast
  ultimately have "bindR (mk_int (x - n)) (\<lambda>d. ptr_move (row_span b0 y) d x b) = Inr b'"
    using row_state_get [OF st assms(2) d(1,2)] by (simp add: ptr_move_def)
  moreover have "\<forall>k < m_Width b0. r[nat x := r ! nat (x - n)] ! k =
      (if x - 1 < int k then r0 ! (k - nat n) else r0 ! k)"
  proof (intro allI impI)
    fix k assume k: "k < m_Width b0"
    have lr: "length r = m_Width b0" using st by (simp add: row_state_def)
    have rx: "r ! nat (x - n) = r0 ! nat (x - n)" using Q assms d by auto
    show "r[nat x := r ! nat (x - n)] ! k = (if x - 1 < int k then r0 ! (k - nat n) else r0 ! k)"
    proof (cases "int k = x")
      case True
      then have "nat x = k" "nat (x - n) = k - nat n" using assms by auto
      then show ?thesis using True k lr rx by simp
    next
      case False
      then show ?thesis using Q k d by (auto simp: nth_list_update)
    qed
  qed
  ultimately show "\<exists>b' r'. bindR (mk_int (x - n)) (\<lambda>d. ptr_move (row_span b0 y) d x b) = Inr b'
      \<and> row_state b0 y r' b' \<and> (\<forall>k < m_Width b0. r' ! k =
        (if x - 1 < int k then r0 ! (k - nat n) else r0 ! k))"
    using b'(2) by blast
qed (use assms in auto)

text \<open>A loop that sets the cells at \<open>f 0, \<dots>, f (n - 1)\<close>.\<close>

lemma set_loop:
  assumes "row_state b0 y r0 b" "y < m_Height b0" "0 \<le> n"
    and f: "\<And>i. 0 \<le> i \<Longrightarrow> i < n \<Longrightarrow> 0 \<le> f i \<and> f i < int (m_Width b0)"
    and body: "\<And>i b. 0 \<le> i \<Longrightarrow> i < n \<Longrightarrow> body i b = ptr_set (row_span b0 y) (f i) v b"
  shows "\<exists>b' r. for_up 0 n body b = Inr b' \<and> row_state b0 y r b'
    \<and> (\<forall>k < m_Width b0. r ! k = (if \<exists>i. 0 \<le> i \<and> i < n \<and> f i = int k then v else r0 ! k))"
proof (rule row_loop_up [where r = r0 and Q = "\<lambda>i r. \<forall>k < m_Width b0. r ! k =
    (if \<exists>j. 0 \<le> j \<and> j < i \<and> f j = int k then v else r0 ! k)"])
  fix i r b
  assume i: "0 \<le> i" "i < n" and st: "row_state b0 y r b"
    and Q: "\<forall>k < m_Width b0. r ! k = (if \<exists>j. 0 \<le> j \<and> j < i \<and> f j = int k then v else r0 ! k)"
  from f [OF i] row_state_set [OF st assms(2)] obtain b' where b':
    "ptr_set (row_span b0 y) (f i) v b = Inr b'" "row_state b0 y (r[nat (f i) := v]) b'" by blast
  have lr: "length r = m_Width b0" using st by (simp add: row_state_def)
  have less: "(\<exists>j. 0 \<le> j \<and> j < i + 1 \<and> f j = int k) \<longleftrightarrow> f i = int k \<or> (\<exists>j. 0 \<le> j \<and> j < i \<and> f j = int k)" for k
    unfolding zless_add1_eq using i by auto
  have "\<forall>k < m_Width b0. r[nat (f i) := v] ! k =
      (if \<exists>j. 0 \<le> j \<and> j < i + 1 \<and> f j = int k then v else r0 ! k)"
    unfolding less using Q lr f [OF i] by (auto simp: nth_list_update)
  with b' body [OF i] show "\<exists>b' r'. body i b = Inr b' \<and> row_state b0 y r' b'
      \<and> (\<forall>k < m_Width b0. r' ! k =
          (if \<exists>j. 0 \<le> j \<and> j < i + 1 \<and> f j = int k then v else r0 ! k))"
    unfolding body [OF i] by blast
qed (use assms in auto)

lemma shift_left_eff:
  assumes ok: "screen_ok s" and n: "0 \<le> n" "m_PosX s + n \<le> Width s"
  shows "\<exists>c. DoShiftRowLeft n s = Inr (s\<lparr>m_Buffer := c\<rparr>)
    \<and> row_state (m_Buffer s) (nat (m_PosY s))
        (deleted_cells (nat (m_PosX s)) (nat n) (m_EraseChar s) (row (m_Buffer s) (nat (m_PosY s)))) c"
proof -
  let ?b = "m_Buffer s" and ?y = "nat (m_PosY s)" and ?X = "m_PosX s" and ?e = "m_EraseChar s"
  let ?r = "row ?b ?y"
  note so = screen_okD [OF ok]
  from moved_left [OF so(1,7) n(1) so(2) n(2)] obtain b1 r1 where 1: "for_up (?X + n) (Width s)
      (\<lambda>x b. bindR (mk_int (x - n)) (\<lambda>d. ptr_move (row_span ?b ?y) x d b)) ?b = Inr b1"
      "row_state ?b ?y r1 b1" "\<forall>k < m_Width ?b. r1 ! k =
          (if ?X \<le> int k \<and> int k + n < Width s then ?r ! (k + nat n) else ?r ! k)" by blast
  have "0 \<le> Width s - i - 1 \<and> Width s - i - 1 < Width s" if "0 \<le> i" "i < n" for i
    using that n so by auto
  from set_loop [OF 1(2) so(7) n(1), of "\<lambda>i. Width s - i - 1", OF this refl, of ?e]
  obtain b2 r2 where 2: "for_up 0 n (\<lambda>i b. ptr_set (row_span ?b ?y) (Width s - i - 1) ?e b) b1 = Inr b2"
    "row_state ?b ?y r2 b2" "\<forall>k < m_Width ?b. r2 ! k =
      (if \<exists>i. 0 \<le> i \<and> i < n \<and> Width s - i - 1 = int k then ?e else r1 ! k)"
    by blast
  have blanks: "(\<exists>i. 0 \<le> i \<and> i < n \<and> Width s - i - 1 = int k) \<longleftrightarrow> Width s \<le> int k + n"
    if "k < m_Width ?b" for k
    using that by (auto intro!: exI [of _ "Width s - int k - 1"])
  have "r2 = deleted_cells (nat ?X) (nat n) ?e ?r"
    using 1(3) 2(2,3) n so blanks
    by (intro nth_equalityI) (auto simp: nth_deleted_cells row_state_def)
  then have st: "row_state ?b ?y (deleted_cells (nat ?X) (nat n) ?e ?r) b2" using 2(2) by simp
  have "in_int (?X + n)" using n so buf_ok_in_int [OF so(1), of "?X + n"] by simp
  then have "DoShiftRowLeft n s = Inr (s\<lparr>m_Buffer := b2\<rparr>)"
    using 1(1) 2(1) so(2-5) LineFromNo_row [OF so(1) so(4,5)] buf_ok_pos [OF so(1)]
    by (simp add: DoShiftRowLeft_def on_buffer_def)
  with st show ?thesis by blast
qed

lemma shift_right_eff:
  assumes ok: "screen_ok s" and n: "0 \<le> n" "m_PosX s + n \<le> Width s"
  shows "\<exists>c. DoShiftRowRight n s = Inr (s\<lparr>m_Buffer := c\<rparr>)
    \<and> row_state (m_Buffer s) (nat (m_PosY s))
        (inserted_cells (nat (m_PosX s)) (nat n) (m_EraseChar s) (row (m_Buffer s) (nat (m_PosY s)))) c"
proof -
  let ?b = "m_Buffer s" and ?y = "nat (m_PosY s)" and ?X = "m_PosX s" and ?e = "m_EraseChar s"
  let ?r = "row ?b ?y"
  note so = screen_okD [OF ok]
  from moved_right [OF so(1,7) n(1) so(2) n(2)] obtain b1 r1 where 1: "for_down (Width s - 1) (?X + n)
      (\<lambda>x b. bindR (mk_int (x - n)) (\<lambda>d. ptr_move (row_span ?b ?y) d x b)) ?b = Inr b1"
      "row_state ?b ?y r1 b1" "\<forall>k < m_Width ?b. r1 ! k =
          (if ?X + n - 1 < int k then ?r ! (k - nat n) else ?r ! k)" by blast
  have f: "0 \<le> ?X + i \<and> ?X + i < Width s" if "0 \<le> i" "i < n" for i
    using that n so by auto
  have body: "bindR (mk_int (?X + i)) (\<lambda>x. ptr_set (row_span ?b ?y) x ?e b)
      = ptr_set (row_span ?b ?y) (?X + i) ?e b" if "0 \<le> i" "i < n" for i b
    using buf_ok_in_int [OF so(1), of "?X + i"] f [OF that] by simp
  from set_loop [OF 1(2) so(7) n(1), of "\<lambda>i. ?X + i", OF f body]
  obtain b2 r2 where 2: "for_up 0 n (\<lambda>i b. bindR (mk_int (?X + i)) (\<lambda>x.
      ptr_set (row_span ?b ?y) x ?e b)) b1 = Inr b2"
    "row_state ?b ?y r2 b2" "\<forall>k < m_Width ?b. r2 ! k =
      (if \<exists>i. 0 \<le> i \<and> i < n \<and> ?X + i = int k then ?e else r1 ! k)"
    by blast
  have blanks: "(\<exists>i. 0 \<le> i \<and> i < n \<and> ?X + i = int k) \<longleftrightarrow> ?X \<le> int k \<and> int k < ?X + n" for k
    by (auto intro!: exI [of _ "int k - ?X"])
  have "r2 = inserted_cells (nat ?X) (nat n) ?e ?r"
    using 1(3) 2(2,3) n so unfolding blanks
    by (intro nth_equalityI) (auto simp: nth_inserted_cells row_state_def)
  then have st: "row_state ?b ?y (inserted_cells (nat ?X) (nat n) ?e ?r) b2" using 2(2) by simp
  have "in_int (?X + n)" using n so buf_ok_in_int [OF so(1), of "?X + n"] by simp
  then have "DoShiftRowRight n s = Inr (s\<lparr>m_Buffer := b2\<rparr>)"
    using 1(1) 2(1) so(2-5) LineFromNo_row [OF so(1) so(4,5)] buf_ok_pos [OF so(1)]
    by (simp add: DoShiftRowRight_def on_buffer_def)
  with st show ?thesis by blast
qed

section \<open>Writing a character\<close>

definition put_cells :: "nat \<Rightarrow> bool \<Rightarrow> Space \<Rightarrow> Space list \<Rightarrow> Space list" where
  "put_cells x dw sp r = (let r1 = r[x := sp] in
     if dw \<and> x + 1 < length r then r1[x + 1 := sp\<lparr>sp_l := MultiCellGlyph\<rparr>] else r1)"

definition put_overflows :: "bool \<Rightarrow> Screen \<Rightarrow> bool" where
  "put_overflows dw s \<longleftrightarrow> m_PosX s = Width s - 1 \<or> (m_PosX s = Width s - 2 \<and> dw)"

text \<open>Unwrapping the line that has just been edited.\<close>

lemma row_state_unwrap:
  assumes st: "row_state b0 y r b" and y: "y < m_Height b0" "int y = n"
  shows "same_frame b0 (SetLineWrapped n False b)"
    "rows (SetLineWrapped n False b) = (rows b0)[y := r]"
    "wraps (SetLineWrapped n False b) = (wraps b0)[y := False]"
    "back_lines (SetLineWrapped n False b) = back_lines b0"
proof -
  note f = row_state_row [OF st y(1)]
  have n: "0 \<le> n" "n < int (m_Height b)" "nat n = y" using y f(4) by auto
  note sw = SetLineWrapped_row [OF f(2) n(1,2), of False]
  show "same_frame b0 (SetLineWrapped n False b)"
    using st sw by (simp add: row_state_def same_frame_def)
  show "rows (SetLineWrapped n False b) = (rows b0)[y := r]"
    "wraps (SetLineWrapped n False b) = (wraps b0)[y := False]"
    "back_lines (SetLineWrapped n False b) = back_lines b0"
    using st sw n(3) by (simp_all add: row_state_def back_lines_def)
qed

lemma PutCh_eff:
  assumes ok: "screen_ok s"
  defines "y \<equiv> nat (m_PosY s)"
  shows "\<exists>c. PutCh dw ch s = Inr (s\<lparr>m_Buffer := c,
        m_LineOverflown := put_overflows (dw ch) s \<or> m_LineOverflown s\<rparr>)
    \<and> same_frame (m_Buffer s) c \<and> back_lines c = back_lines (m_Buffer s)
    \<and> rows c = (rows (m_Buffer s))[y := put_cells (nat (m_PosX s)) (dw ch)
        ((m_EraseChar s)\<lparr>sp_l := ch\<rparr>) (row (m_Buffer s) y)]
    \<and> wraps c = (wraps (m_Buffer s))[y := False]"
proof -
  let ?b = "m_Buffer s" and ?sp = "(m_EraseChar s)\<lparr>sp_l := ch\<rparr>" and ?X = "m_PosX s"
  note so = screen_okD [OF ok]
  have y: "y < m_Height ?b" using so by (simp add: y_def)
  have line: "LineFromNo (m_PosY s) ?b = Inr (row_span ?b y)" "m_Width ?b \<noteq> 0"
    using LineFromNo_row [OF so(1,4,5)] buf_ok_pos [OF so(1)] by (simp_all add: y_def)
  from row_state_set [OF row_state_start [OF so(1) y] y so(2,3), of ?sp] obtain b1 where b1:
    "span_set (row_span ?b y) ?X ?sp ?b = Inr b1" "row_state ?b y ((row ?b y)[nat ?X := ?sp]) b1"
    by blast
  have "\<exists>b2. (if dw ch \<and> ?X + 1 < Width s
      then span_set (row_span ?b y) (?X + 1) (?sp\<lparr>sp_l := MultiCellGlyph\<rparr>) b1 else Inr b1) = Inr b2
      \<and> row_state ?b y (put_cells (nat ?X) (dw ch) ?sp (row ?b y)) b2"
  proof (cases "dw ch \<and> ?X + 1 < Width s")
    case True
    then have x: "0 \<le> ?X + 1" "?X + 1 < int (m_Width ?b)" "nat (?X + 1) = nat ?X + 1"
      "nat ?X + 1 < m_Width ?b" using so by auto
    from row_state_set [OF b1(2) y x(1,2), of "?sp\<lparr>sp_l := MultiCellGlyph\<rparr>"] True x so(1) y
    show ?thesis by (auto simp: put_cells_def)
  next
    case False
    then have "\<not> (dw ch \<and> nat ?X + 1 < m_Width ?b)" using so by auto
    with False b1(2) so(1) y show ?thesis by (auto simp: put_cells_def)
  qed
  then obtain b2 where b2: "(if dw ch \<and> ?X + 1 < Width s
      then span_set (row_span ?b y) (?X + 1) (?sp\<lparr>sp_l := MultiCellGlyph\<rparr>) b1 else Inr b1) = Inr b2"
    "row_state ?b y (put_cells (nat ?X) (dw ch) ?sp (row ?b y)) b2" by blast
  have "int y = m_PosY s" using so by (simp add: y_def)
  note un = row_state_unwrap [OF b2(2) y this]
  have ov: "(if m_PosX s = Width s - 1 \<or> m_PosX s = Width s - 2 \<and> dw ch then True
      else m_LineOverflown s) = (put_overflows (dw ch) s \<or> m_LineOverflown s)"
    by (auto simp: put_overflows_def)
  have "PutCh dw ch s = Inr (s\<lparr>m_Buffer := SetLineWrapped (m_PosY s) False b2,
      m_LineOverflown := put_overflows (dw ch) s \<or> m_LineOverflown s\<rparr>)"
    by (simp only: PutCh_def Let_def line b1(1) b2(1) bindR_Inr row_span_sel if_False ov)
  with un show ?thesis by blast
qed

section \<open>Erasure\<close>

definition erased_cells :: "nat \<Rightarrow> nat \<Rightarrow> 'a \<Rightarrow> 'a list \<Rightarrow> 'a list" where
  "erased_cells x x' v r = overwrite x (replicate (x' - x) v) r"

lemma on_buffer_Inr: "f (m_Buffer s) = Inr c \<Longrightarrow> on_buffer f s = Inr (s\<lparr>m_Buffer := c\<rparr>)"
  by (simp add: on_buffer_def)

lemma fill_eff:
  assumes ok: "screen_ok s" and x: "0 \<le> x" "x \<le> x'" "x' \<le> Width s"
  defines "y \<equiv> nat (m_PosY s)"
  shows "\<exists>c. on_buffer (span_fill (row_span (m_Buffer s) y) x x' (m_EraseChar s)) s
      = Inr (s\<lparr>m_Buffer := c\<rparr>)
    \<and> row_state (m_Buffer s) y (erased_cells (nat x) (nat x') (m_EraseChar s) (row (m_Buffer s) y)) c"
proof -
  note so = screen_okD [OF ok]
  have y: "y < m_Height (m_Buffer s)" using so by (simp add: y_def)
  have "nat (x' - x) = nat x' - nat x" using x by simp
  then show ?thesis
    using row_state_fill [OF row_state_start [OF so(1) y] y x, of "m_EraseChar s"]
    by (auto simp: on_buffer_def erased_cells_def)
qed

lemma EraseInLine_eff:
  assumes ok: "screen_ok s"
  defines "y \<equiv> nat (m_PosY s)" and "X \<equiv> nat (m_PosX s)" and "W \<equiv> m_Width (m_Buffer s)"
  shows "\<exists>c. EraseInLine mode s = Inr (s\<lparr>m_Buffer := c\<rparr>)
    \<and> row_state (m_Buffer s) y (erased_cells (if mode = 0 then X else 0) (if mode = 1 then X + 1 else W)
        (m_EraseChar s) (row (m_Buffer s) y)) c"
proof -
  note so = screen_okD [OF ok]
  let ?i = "if mode = 0 then min (m_PosX s) (Width s) else 0"
  let ?e = "if mode = 1 then min (m_PosX s + 1) (Width s) else Width s"
  have "0 \<le> ?i" "?i \<le> ?e" "?e \<le> Width s" using so by auto
  moreover have "nat ?i = (if mode = 0 then X else 0)" "nat ?e = (if mode = 1 then X + 1 else W)"
    using so by (auto simp: X_def W_def)
  ultimately show ?thesis
    using fill_eff [OF ok, of ?i ?e] LineFromNo_row [OF so(1,4,5)] buf_ok_pos [OF so(1)]
    by (simp add: EraseInLine_def Let_def y_def)
qed

lemma EraseAt_eff:
  assumes ok: "screen_ok s"
  defines "y \<equiv> nat (m_PosY s)" and "X \<equiv> nat (m_PosX s)" and "W \<equiv> m_Width (m_Buffer s)"
  shows "\<exists>c. EraseAt (word_of_int (m_PosX s)) (word_of_int (m_PosY s)) n s = Inr (s\<lparr>m_Buffer := c\<rparr>)
    \<and> row_state (m_Buffer s) y (erased_cells X (min (X + unat n) W)
        (m_EraseChar s) (row (m_Buffer s) y)) c"
proof -
  note so = screen_okD [OF ok]
  have lim: "m_PosX s < 2 ^ 31" "m_PosY s < 2 ^ 31" using buf_ok_int [OF so(1)] so(3,5) by linarith+
  then have y: "sint (word_of_int (m_PosY s) :: u32) = m_PosY s"
    using so by (simp add: signed_of_int signed_take_bit_int_eq_self)
  have x: "unat (word_of_int (m_PosX s) :: u32) = X"
    using so lim by (simp add: X_def unsigned_of_int take_bit_int_eq_self)
  let ?e = "min (m_PosX s + int (unat n)) (Width s)"
  have "nat (min (m_PosX s + int k) (int w)) = min (X + k) w" for k w
    using so(2) by (auto simp: X_def)
  then have "nat ?e = min (X + unat n) W" unfolding W_def .
  moreover have "m_PosX s \<le> ?e" "?e \<le> Width s" using so by simp_all
  ultimately show ?thesis
    using fill_eff [OF ok so(2), of ?e] LineFromNo_row [OF so(1,4,5)] buf_ok_pos [OF so(1)] so(2)
    by (simp add: EraseAt_def Let_def x y y_def X_def)
qed

text \<open>The three modes of \<open>DoEraseScreen\<close> line by line.\<close>

lemma erase_all_eff:
  assumes ok: "screen_ok s"
  shows "\<exists>c. DoEraseScreen 2 s = Inr (s\<lparr>m_Buffer := c\<rparr>) \<and> same_frame (m_Buffer s) c
    \<and> back_lines c = back_lines (m_Buffer s)
    \<and> screen_lines c = replicate (m_Height (m_Buffer s)) (blank_line s)"
proof -
  note buf = screen_okD(1) [OF ok]
  note inv = lines_inv_self [OF buf]
  have "0 \<le> Height s" "Height s \<le> int (length (screen_lines (m_Buffer s)))" using buf by simp_all
  from er.clear_up_lines [OF inv _ this, where c = "m_EraseChar s"] buf obtain c where c:
    "for_up 0 (Height s) (EraseLine (m_EraseChar s)) (m_Buffer s) = Inr c"
    "lines_inv (m_Width (m_Buffer s)) (m_Height (m_Buffer s)) (m_BufferEraseChar (m_Buffer s))
       (back_lines (m_Buffer s)) (m_BackAllocated (m_Buffer s)) c"
    "length (screen_lines c) = m_Height (m_Buffer s)"
    "\<forall>i < m_Height (m_Buffer s). screen_lines c ! i =
       (if 0 \<le> int i \<and> int i < Height s then blank_line s else screen_lines (m_Buffer s) ! i)"
    by auto
  have "screen_lines c = replicate (m_Height (m_Buffer s)) (blank_line s)"
    using c(3,4) by (intro nth_equalityI) auto
  with c show ?thesis
    by (auto simp: DoEraseScreen_def on_buffer_def lines_inv_def same_frame_def)
qed

lemma Erase_to_cursor_loop:
  "i \<le> m_PosY s \<Longrightarrow> m_PosY s < i + int n \<Longrightarrow> Erase_to_cursor n i s b =
    bindR (for_up i (m_PosY s) (EraseLine (m_EraseChar s)) b) (\<lambda>b.
    bindR (LineFromNo (m_PosY s) b) (\<lambda>l.
      span_fill l 0 (min (m_PosX s + 1) (int (sp_len l))) (m_EraseChar s) b))"
proof (induction n arbitrary: i b)
  case 0
  then show ?case by simp
next
  case (Suc n)
  show ?case
  proof (cases "i = m_PosY s")
    case True
    then show ?thesis by simp
  next
    case False
    with Suc.prems have "i < m_PosY s" "i + 1 \<le> m_PosY s" "m_PosY s < i + 1 + int n" by simp_all
    with Suc.IH False show ?thesis
      by (cases "EraseLine (m_EraseChar s) i b") (simp_all add: for_up_step)
  qed
qed

lemma erase_above_eff:
  assumes ok: "screen_ok s"
  defines "y \<equiv> nat (m_PosY s)" and "X \<equiv> nat (m_PosX s)"
  shows "\<exists>c. DoEraseScreen 1 s = Inr (s\<lparr>m_Buffer := c\<rparr>) \<and> same_frame (m_Buffer s) c
    \<and> back_lines c = back_lines (m_Buffer s)
    \<and> screen_lines c = replicate y (blank_line s)
        @ (erased_cells 0 (X + 1) (m_EraseChar s) (row (m_Buffer s) y), wraps (m_Buffer s) ! y)
        # drop (y + 1) (screen_lines (m_Buffer s))"
proof -
  let ?b = "m_Buffer s"
  note so = screen_okD [OF ok]
  note inv = lines_inv_self [OF so(1)]
  have y: "y < m_Height ?b" "int y = m_PosY s" using so by (simp_all add: y_def)
  have len: "length (screen_lines ?b) = m_Height ?b" using so by simp
  have "m_PosY s \<le> int (length (screen_lines ?b))" using so by simp
  from er.clear_up_lines [OF inv _ so(4) this, where c = "m_EraseChar s"] so obtain c where c:
    "for_up 0 (m_PosY s) (EraseLine (m_EraseChar s)) ?b = Inr c"
    "lines_inv (m_Width ?b) (m_Height ?b) (m_BufferEraseChar ?b) (back_lines ?b) (m_BackAllocated ?b) c"
    "length (screen_lines c) = m_Height ?b"
    "\<forall>i < m_Height ?b. screen_lines c ! i =
       (if 0 \<le> int i \<and> int i < m_PosY s then blank_line s else screen_lines ?b ! i)"
    by auto
  have cf: "buf_ok c" "m_Width c = m_Width ?b" "m_Height c = m_Height ?b"
    using c(2) by (simp_all add: lines_inv_def)
  have same: "row c y = row ?b y" "wraps c ! y = wraps ?b ! y"
    using c(4) y so(1) cf by (auto simp: screen_lines_def)
  have yc: "y < m_Height c" using y cf by simp
  have lim: "0 \<le> m_PosX s + 1" "m_PosX s + 1 \<le> int (m_Width c)" using so cf by simp_all
  from row_state_fill [OF row_state_start [OF cf(1) yc] yc, of 0 "m_PosX s + 1" "m_EraseChar s"] lim
  obtain d where d: "span_fill (row_span c y) 0 (m_PosX s + 1) (m_EraseChar s) c = Inr d"
    "row_state c y (overwrite 0 (replicate (nat (m_PosX s + 1)) (m_EraseChar s)) (row c y)) d"
    by auto
  have "DoEraseScreen 1 s = Inr (s\<lparr>m_Buffer := d\<rparr>)"
  proof -
    have "min (m_PosX s + 1) (int (m_Width c)) = m_PosX s + 1" using lim by simp
    then show ?thesis
      using Erase_to_cursor_loop [of 0 s "m_Height ?b" ?b] so c(1) d(1) LineFromNo_row [OF cf(1) so(4)] cf
      by (simp add: DoEraseScreen_def on_buffer_def y_def)
  qed
  moreover have "same_frame ?b d" "back_lines d = back_lines ?b"
    using c(2) d(2) by (auto simp: lines_inv_def row_state_def same_frame_def)
  moreover have "screen_lines d = (screen_lines c)[y :=
      (erased_cells 0 (X + 1) (m_EraseChar s) (row ?b y), wraps ?b ! y)]"
  proof -
    have "nat (m_PosX s + 1) = X + 1" using so by (simp add: X_def)
    moreover have "wraps d = (wraps c)[y := wraps ?b ! y]" "rows d = (rows c)[y := overwrite 0
        (replicate (nat (m_PosX s + 1)) (m_EraseChar s)) (row c y)]"
      using d(2) same(2) list_update_id [of "wraps c" y] by (simp_all add: row_state_def)
    ultimately show ?thesis by (simp add: screen_lines_def zip_update erased_cells_def same)
  qed
  moreover have "(screen_lines c)[y := v] = replicate y (blank_line s) @ v # drop (y + 1) (screen_lines ?b)"
    for v
    using c(3,4) y len by (intro nth_equalityI) (auto simp: nth_list_update nth_append nth_Cons')
  ultimately show ?thesis by auto
qed

lemma EraseLineFrom_eff:
  assumes b: "buf_ok b" and i: "0 \<le> i" "i < int (m_Height b)" and j: "0 \<le> j" "j \<le> int (m_Width b)"
  shows "\<exists>b'. EraseLineFrom c (int (m_Width b)) j i b = Inr b' \<and> same_frame b b'
    \<and> back_lines b' = back_lines b \<and> m_BackAllocated b' = m_BackAllocated b
    \<and> screen_lines b' = (screen_lines b)
        [nat i := (erased_cells (nat j) (m_Width b) c (row b (nat i)), False)]"
proof -
  let ?b1 = "SetLineWrapped i False b" and ?y = "nat i" and ?r = "row b (nat i)"
  note sw = SetLineWrapped_row [OF b i, of False]
  have y: "?y < m_Height ?b1" using i sw by simp
  have row1: "row ?b1 ?y = ?r" using y sw nth_rows [of ?y ?b1] nth_rows [of ?y b] by simp
  have st: "row_state ?b1 ?y ?r ?b1" using row_state_start [OF sw(1) y] row1 by simp
  have "\<exists>b' r'. for_up j (int (m_Width b)) (\<lambda>k b. ptr_set (row_span ?b1 ?y) k c b) ?b1 = Inr b'
      \<and> row_state ?b1 ?y r' b' \<and> r' = overwrite (nat j) (replicate (nat (int (m_Width b) - j)) c) ?r"
  proof (rule row_loop_up [OF st, where Q = "\<lambda>k r. r = overwrite (nat j) (replicate (nat (k - j)) c) ?r"])
    fix k r b2
    assume k: "j \<le> k" "k < int (m_Width b)" and st: "row_state ?b1 ?y r b2"
      and r: "r = overwrite (nat j) (replicate (nat (k - j)) c) ?r"
    have "0 \<le> k" "k < int (m_Width ?b1)" using k j sw by simp_all
    from row_state_set [OF st y this, of c] obtain b3 where b3:
      "ptr_set (row_span ?b1 ?y) k c b2 = Inr b3" "row_state ?b1 ?y (r[nat k := c]) b3" by blast
    have "r[nat k := c] = overwrite (nat j) (replicate (nat (k + 1 - j)) c) ?r"
      using r k j b y by (intro nth_equalityI) (auto simp: nth_overwrite nth_list_update less_diff_conv2)
    with b3 show "\<exists>b' r'. ptr_set (row_span ?b1 ?y) k c b2 = Inr b' \<and> row_state ?b1 ?y r' b'
        \<and> r' = overwrite (nat j) (replicate (nat (k + 1 - j)) c) ?r" by blast
  qed (use j in auto)
  then obtain b' where b': "for_up j (int (m_Width b)) (\<lambda>k b. ptr_set (row_span ?b1 ?y) k c b) ?b1 = Inr b'"
    "row_state ?b1 ?y (erased_cells (nat j) (m_Width b) c ?r) b'"
    using j by (auto simp: erased_cells_def nat_diff_distrib)
  have "EraseLineFrom c (int (m_Width b)) j i b = Inr b'"
    using b'(1) LineFromNo_row [OF sw(1), of i] i by (simp add: EraseLineFrom_def Let_def)
  moreover have "screen_lines b' = (screen_lines b)
      [?y := (erased_cells (nat j) (m_Width b) c ?r, False)]"
    using b'(2) sw by (simp add: row_state_def screen_lines_def zip_update)
  moreover have "same_frame b b'" "back_lines b' = back_lines b" "m_BackAllocated b' = m_BackAllocated b"
    using b'(2) sw by (simp_all add: row_state_def same_frame_def back_lines_def)
  ultimately show ?thesis by blast
qed

interpretation ef: line_store screen_lines MoveLine "EraseLineFrom c (int w) 0"
    "(replicate w c, False)" "lines_inv w h e bl al"
  for c w h e bl al
proof
  fix b :: ScreenBuffer and i j :: int
  assume inv: "lines_inv w h e bl al b" and i: "0 \<le> i" "i < int (length (screen_lines b))"
  then have b: "buf_ok b" "m_Width b = w" "m_Height b = h" "i < int (m_Height b)"
    by (auto simp: lines_inv_def)
  then have "length (row b (nat i)) = w" using i by auto
  then have "erased_cells 0 w c (row b (nat i)) = replicate w c"
    by (simp add: erased_cells_def overwrite_def)
  then show "\<exists>b'. EraseLineFrom c (int w) 0 i b = Inr b' \<and> lines_inv w h e bl al b'
      \<and> screen_lines b' = (screen_lines b)[nat i := (replicate w c, False)]"
    using EraseLineFrom_eff [OF b(1) i(1) b(4), of 0 c] inv b
    by (auto simp: lines_inv_def same_frame_def)
  assume "0 \<le> j" "j < int (length (screen_lines b))"
  with sl.move_line [OF inv i] show "\<exists>b'. MoveLine i j b = Inr b' \<and> lines_inv w h e bl al b'
      \<and> screen_lines b' = (screen_lines b)[nat j := screen_lines b ! nat i]" by simp
qed

lemma erase_below_eff:
  assumes ok: "screen_ok s"
  defines "y \<equiv> nat (m_PosY s)" and "X \<equiv> nat (m_PosX s)" and "W \<equiv> m_Width (m_Buffer s)"
  shows "\<exists>c. DoEraseScreen 0 s = Inr (s\<lparr>m_Buffer := c\<rparr>) \<and> same_frame (m_Buffer s) c
    \<and> back_lines c = back_lines (m_Buffer s)
    \<and> screen_lines c = take y (screen_lines (m_Buffer s))
        @ (erased_cells X W (m_EraseChar s) (row (m_Buffer s) y), False)
        # replicate (m_Height (m_Buffer s) - y - 1) (blank_line s)"
proof -
  let ?b = "m_Buffer s" and ?e = "m_EraseChar s"
  note so = screen_okD [OF ok]
  have y: "y < m_Height ?b" "int y = m_PosY s" using so by (simp_all add: y_def)
  let ?v = "(erased_cells X W ?e (row ?b y), False)"
  from EraseLineFrom_eff [OF so(1,4,5,2), of ?e] so(3) obtain c where c:
    "EraseLineFrom ?e (Width s) (m_PosX s) (m_PosY s) ?b = Inr c" "same_frame ?b c"
    "back_lines c = back_lines ?b" "screen_lines c = (screen_lines ?b)[y := ?v]"
    by (auto simp: y_def X_def W_def)
  have inv: "lines_inv W (m_Height ?b) (m_BufferEraseChar ?b) (back_lines ?b) (m_BackAllocated c) c"
    using c(2,3) by (simp add: lines_inv_def same_frame_def W_def)
  have len: "length (screen_lines ?b) = m_Height ?b" "length (screen_lines c) = m_Height ?b"
    using so c(4) by simp_all
  have "0 \<le> m_PosY s + 1" "m_PosY s + 1 \<le> Height s" "Height s \<le> int (length (screen_lines c))"
    using so len by simp_all
  from ef.clear_up_lines [OF inv this, of ?e] len obtain d where d:
    "for_up (m_PosY s + 1) (Height s) (EraseLineFrom ?e (int W) 0) c = Inr d"
    "lines_inv W (m_Height ?b) (m_BufferEraseChar ?b) (back_lines ?b) (m_BackAllocated c) d"
    "length (screen_lines d) = m_Height ?b"
    "\<forall>i < m_Height ?b. screen_lines d ! i =
       (if m_PosY s + 1 \<le> int i \<and> int i < Height s then (replicate W ?e, False) else screen_lines c ! i)"
    by auto
  have "for_up (m_PosY s + 1) (Height s)
      (\<lambda>i b. EraseLineFrom ?e (Width s) (if i = m_PosY s then m_PosX s else 0) i b) c = Inr d"
    using d(1) by (subst for_up_cong [where body' = "EraseLineFrom ?e (int W) 0"]) (auto simp: W_def)
  then have "DoEraseScreen 0 s = Inr (s\<lparr>m_Buffer := d\<rparr>)"
    using c(1) so by (simp add: DoEraseScreen_def on_buffer_def for_up_step)
  moreover have "same_frame ?b d" "back_lines d = back_lines ?b"
    using d(2) by (simp_all add: lines_inv_def same_frame_def W_def)
  moreover have "screen_lines d = take y (screen_lines ?b) @ ?v
      # replicate (m_Height ?b - y - 1) (blank_line s)"
    using d(3,4) c(4) y len
    by (intro nth_equalityI) (auto simp: nth_list_update nth_append nth_Cons' W_def min_def)
  ultimately show ?thesis by blast
qed

lemma fill_screen_eff:
  assumes ok: "screen_ok s"
  shows "\<exists>c. FillScreenWithSpace sp s = Inr (s\<lparr>m_Buffer := c\<rparr>) \<and> same_frame (m_Buffer s) c
    \<and> back_lines c = back_lines (m_Buffer s) \<and> wraps c = wraps (m_Buffer s)
    \<and> rows c = replicate (m_Height (m_Buffer s)) (replicate (m_Width (m_Buffer s)) sp)"
proof -
  let ?b = "m_Buffer s"
  note buf = screen_okD(1) [OF ok]
  have inv: "lines_inv (m_Width ?b) (m_Height ?b) (m_BufferEraseChar ?b) (back_lines ?b)
      (m_BackAllocated ?b) ?b \<and> wraps ?b = wraps ?b" using lines_inv_self [OF buf] by simp
  have "0 \<le> Height s" "Height s \<le> int (length (rows ?b))" by simp_all
  from fs.clear_up_lines [OF inv _ this, where c = sp] obtain c where c:
    "for_up 0 (Height s) (FillLine sp) ?b = Inr c"
    "lines_inv (m_Width ?b) (m_Height ?b) (m_BufferEraseChar ?b) (back_lines ?b) (m_BackAllocated ?b) c"
    "wraps c = wraps ?b" "length (rows c) = m_Height ?b"
    "\<forall>i < m_Height ?b. rows c ! i = (if 0 \<le> int i \<and> int i < Height s
       then replicate (m_Width ?b) sp else rows ?b ! i)"
    by auto
  have "rows c = replicate (m_Height ?b) (replicate (m_Width ?b) sp)"
    using c(4,5) by (intro nth_equalityI) auto
  with c show ?thesis
    by (auto simp: FillScreenWithSpace_def on_buffer_def lines_inv_def same_frame_def)
qed

section \<open>The alternate screen\<close>

lemma screen_ok_fields [simp]:
  "screen_ok (s\<lparr>m_AlternateScreen := v\<rparr>) \<longleftrightarrow> screen_ok s"
  "screen_ok (s\<lparr>m_LineOverflown := v\<rparr>) \<longleftrightarrow> screen_ok s"
  "screen_ok (s\<lparr>m_ReverseVideo := v\<rparr>) \<longleftrightarrow> screen_ok s"
  by (simp_all add: screen_ok_def)

lemma MakeSnapshot_ok:
  "buf_ok b \<Longrightarrow> MakeSnapshot b = Inr \<lparr>snap_width = m_Width b, snap_height = m_Height b,
     snap_chars = m_OnScreenSpaces b\<rparr>"
  by (simp add: MakeSnapshot_def mem_read_def buf_ok_def mult.commute)

lemma buf_ok_cells:
  "buf_ok b \<Longrightarrow> length xs = length (m_OnScreenSpaces b) \<Longrightarrow> buf_ok (b\<lparr>m_OnScreenSpaces := xs\<rparr>)"
  by (simp add: buf_ok_def)

text \<open>Reverting to a snapshot of the size of the screen puts its cells back.\<close>

lemma RevertToSnapshot_same:
  assumes "buf_ok b" "snapshot_ok s" "m_Width b = snap_width s" "m_Height b = snap_height s"
  shows "RevertToSnapshot s b = Inr (b\<lparr>m_OnScreenSpaces := snap_chars s\<rparr>)"
  using assms
  by (simp add: RevertToSnapshot_def snap_read_def mem_write_def snapshot_ok_def buf_ok_def
      mult.commute overwrite_all)

lemma RevertToSnapshot_ok:
  assumes "buf_ok b" and "snapshot_ok s"
  shows "\<exists>xs. RevertToSnapshot s b = Inr (b\<lparr>m_OnScreenSpaces := xs\<rparr>)
    \<and> length xs = length (m_OnScreenSpaces b)"
proof (cases "m_Height b = snap_height s \<and> m_Width b = snap_width s")
  case True
  with RevertToSnapshot_same [OF assms] assms show ?thesis
    by (auto simp: snapshot_ok_def buf_ok_def mult.commute)
next
  case False
  let ?n = "m_Width b * m_Height b" and ?h = "min (snap_height s) (m_Height b)"
  let ?w = "min (snap_width s) (m_Width b)"
  let ?P = "\<lambda>(k :: int) b'. \<exists>xs. b' = b\<lparr>m_OnScreenSpaces := xs\<rparr> \<and> length xs = ?n"
  have n: "length (m_OnScreenSpaces b) = ?n" using assms(1) by (simp add: buf_ok_def mult.commute)
  have "\<exists>b'. for_up 0 (int ?h) (\<lambda>y b'. bindR (snap_read s (nat y * snap_width s)
      (min (snap_width s) (m_Width b'))) (\<lambda>xs. mem_write OnScreen (y * int (m_Width b')) xs b'))
      (b\<lparr>m_OnScreenSpaces := replicate ?n (m_BufferEraseChar b)\<rparr>) = Inr b' \<and> ?P (int ?h) b'"
  proof (rule for_up_rule [where P = ?P])
    fix y b' assume y: "0 \<le> y" "y < int ?h" and "?P y b'"
    then obtain xs where xs: "b' = b\<lparr>m_OnScreenSpaces := xs\<rparr>" "length xs = ?n" by blast
    have "nat y < snap_height s" "nat y < m_Height b" using y by auto
    from row_end [OF this(1), of "snap_width s"] row_end [OF this(2), of "m_Width b"]
    have fits: "nat y * snap_width s + ?w \<le> length (snap_chars s)"
      "nat y * m_Width b + ?w \<le> ?n" "nat (y * int (m_Width b)) = nat y * m_Width b"
      using assms(2) y by (simp_all add: snapshot_ok_def mult.commute nat_mult_distrib)
    let ?zs = "take ?w (drop (nat y * snap_width s) (snap_chars s))"
    have "length ?zs = ?w" using fits(1) by simp
    with xs fits y show "\<exists>b''. bindR (snap_read s (nat y * snap_width s)
        (min (snap_width s) (m_Width b'))) (\<lambda>xs. mem_write OnScreen (y * int (m_Width b')) xs b') = Inr b''
        \<and> ?P (y + 1) b''"
      by (auto simp: snap_read_def mem_write_def
          intro!: exI [of _ "overwrite (nat y * m_Width b) ?zs xs"])
  qed auto
  then obtain b' xs where "for_up 0 (int ?h) (\<lambda>y b'. bindR (snap_read s (nat y * snap_width s)
      (min (snap_width s) (m_Width b'))) (\<lambda>xs. mem_write OnScreen (y * int (m_Width b')) xs b'))
      (b\<lparr>m_OnScreenSpaces := replicate ?n (m_BufferEraseChar b)\<rparr>) = Inr b'"
    "b' = b\<lparr>m_OnScreenSpaces := xs\<rparr>" "length xs = ?n" by blast
  moreover have "mem_write OnScreen 0 (replicate ?n (m_BufferEraseChar b)) b =
      Inr (b\<lparr>m_OnScreenSpaces := replicate ?n (m_BufferEraseChar b)\<rparr>)"
    using n by (simp add: mem_write_def overwrite_all)
  ultimately have "RevertToSnapshot s b = Inr (b\<lparr>m_OnScreenSpaces := xs\<rparr>)"
    unfolding RevertToSnapshot_def if_not_P [OF False] by simp
  with n \<open>length xs = ?n\<close> show ?thesis by auto
qed

lemma SetAlternateScreen_ok:
  assumes ok: "screen_ok s"
  shows "\<exists>s'. SetAlternateScreen v s = Inr s' \<and> screen_ok s'
    \<and> m_Width (m_Buffer s') = m_Width (m_Buffer s) \<and> m_Height (m_Buffer s') = m_Height (m_Buffer s)
    \<and> m_EraseChar s' = m_EraseChar s"
proof (cases "m_AlternateScreen s = v")
  case True
  with ok show ?thesis by (simp add: SetAlternateScreen_def)
next
  case False
  note buf = screen_okD(1) [OF ok]
  have snap: "CaptureScreen s = Inr \<lparr>saved_snapshot = \<lparr>snap_width = m_Width (m_Buffer s),
      snap_height = m_Height (m_Buffer s), snap_chars = m_OnScreenSpaces (m_Buffer s)\<rparr>,
      saved_pos_x = m_PosX s, saved_pos_y = m_PosY s\<rparr>"
    by (simp add: CaptureScreen_def MakeSnapshot_ok [OF buf])
  have "snapshot_ok \<lparr>snap_width = m_Width (m_Buffer s), snap_height = m_Height (m_Buffer s),
      snap_chars = m_OnScreenSpaces (m_Buffer s)\<rparr>"
    using buf by (simp add: snapshot_ok_def buf_ok_def mult.commute)
  note snap_ok = this
  show ?thesis
  proof (cases "m_AlternateScreen s")
    case True
    from RevertToSnapshot_ok [OF buf, of "saved_snapshot (m_PrimaryScreenshot s)"] ok obtain xs where
      "RevertToSnapshot (saved_snapshot (m_PrimaryScreenshot s)) (m_Buffer s)
        = Inr (m_Buffer s\<lparr>m_OnScreenSpaces := xs\<rparr>)"
      "length xs = length (m_OnScreenSpaces (m_Buffer s))" by (auto simp: screen_ok_def)
    with True False snap_ok ok buf show ?thesis
      by (simp add: SetAlternateScreen_def snap on_buffer_def)
        (intro GoTo_ok, simp_all add: buf_ok_cells, simp_all add: screen_ok_def)
  next
    case prim: False
    from RevertToSnapshot_ok [OF buf, of "saved_snapshot (m_AlternativeScreenshot s)"] ok obtain xs where
      "RevertToSnapshot (saved_snapshot (m_AlternativeScreenshot s)) (m_Buffer s)
        = Inr (m_Buffer s\<lparr>m_OnScreenSpaces := xs\<rparr>)"
      "length xs = length (m_OnScreenSpaces (m_Buffer s))" by (auto simp: screen_ok_def)
    with prim False snap_ok ok buf show ?thesis
      by (simp add: SetAlternateScreen_def snap on_buffer_def)
        (intro GoTo_ok, simp_all add: buf_ok_cells, simp_all add: screen_ok_def)
  qed
qed

end
