(* ===== verification/InterpreterProps.thy ===== *)
theory InterpreterProps
  imports Interpreter ScreenProps
begin

text \<open>
  The invariant of the interpreter and the lemma that every command keeps it: the screen is well
  formed, the scrolling region is in order, the tables have their sizes, and the attributes for
  new cells are those of the rendition. The text loop is run through the contract of the
  character registry.
\<close>

named_theorems interp_intros "operations of the interpreter that keep its invariant"

section \<open>The invariant\<close>

definition rendition_shown :: "Rendition \<Rightarrow> Space \<Rightarrow> bool" where
  "rendition_shown r e \<longleftrightarrow> sp_faint e = r_faint r \<and> sp_reverse e = r_inverse r \<and> sp_bold e = r_bold r
     \<and> sp_italic e = r_italic r \<and> sp_invisible e = r_invisible r \<and> sp_blink e = r_blink r
     \<and> sp_underline e = r_underline r \<and> sp_crossed e = r_crossed r
     \<and> sp_customfg e = (r_fg_color r \<noteq> None)
     \<and> sp_foreground e = (case r_fg_color r of None \<Rightarrow> 0 | Some c \<Rightarrow> c)
     \<and> sp_custombg e = (r_bg_color r \<noteq> None)
     \<and> sp_background e = (case r_bg_color r of None \<Rightarrow> 0 | Some c \<Rightarrow> c)"

definition extent_ok :: "Extent \<Rightarrow> int \<Rightarrow> bool" where
  "extent_ok e h \<longleftrightarrow> ext_height e = h \<and> 0 \<le> ext_top e \<and> ext_top e \<le> h \<and> ext_top e < ext_bottom e
     \<and> ext_bottom e \<le> INT_MAX"

definition map_ok :: "nat option \<Rightarrow> bool" where
  "map_ok m \<longleftrightarrow> (case m of None \<Rightarrow> True | Some k \<Rightarrow> k < 3)"

definition sets_ok :: "nat list \<Rightarrow> bool" where
  "sets_ok cs \<longleftrightarrow> length cs = 4 \<and> list_all (\<lambda>k. k < 3) cs"

definition saved_ok :: "SavedState option \<Rightarrow> bool" where
  "saved_ok st \<longleftrightarrow> (case st of None \<Rightarrow> True
     | Some s \<Rightarrow> map_ok (st_translate_map s) \<and> sets_ok (st_character_sets s))"

definition interp_core :: "Interp \<Rightarrow> bool" where
  "interp_core i \<longleftrightarrow> screen_ok (m_Screen i)
     \<and> Width (m_Screen i) \<le> 1024 \<and> Height (m_Screen i) \<le> 2 ^ 30
     \<and> rendition_shown (m_Rendition i) (m_EraseChar (m_Screen i))
     \<and> extent_ok (m_Extent i) (Height (m_Screen i))
     \<and> length (m_TabStops i) = 1024 \<and> sets_ok (m_CS i) \<and> map_ok (m_TranslateMap i)
     \<and> saved_ok (m_SavedState i)
     \<and> \<not> m_AllowScreenResize i \<and> \<not> m_InsertMode i \<and> m_HasOutput i \<and> m_HasBell i"

definition interp_ok :: "CF \<Rightarrow> nat \<Rightarrow> Interp \<Rightarrow> bool" where
  "interp_ok cf n i \<longleftrightarrow> interp_core i \<and> reg_inv cf n (m_Registry i)"

lemma interp_coreD:
  assumes "interp_core i"
  shows "screen_ok (m_Screen i)" "Width (m_Screen i) \<le> 1024" "Height (m_Screen i) \<le> 2 ^ 30"
    "extent_ok (m_Extent i) (Height (m_Screen i))" "length (m_TabStops i) = 1024"
  using assms by (simp_all add: interp_core_def)

text \<open>The parts of the state the invariant does not look at.\<close>

lemma interp_core_fields [simp]:
  "interp_core (i\<lparr>m_Registry := r\<rparr>) = interp_core i"
  "interp_core (i\<lparr>m_Events := e\<rparr>) = interp_core i"
  "interp_core (i\<lparr>m_Titles := t\<rparr>) = interp_core i"
  "interp_core (i\<lparr>m_OriginLineMode := v\<rparr>) = interp_core i"
  "interp_core (i\<lparr>m_AutoWrapMode := v\<rparr>) = interp_core i"
  "interp_core (i\<lparr>m_CursorShown := v\<rparr>) = interp_core i"
  "interp_core (i\<lparr>m_MouseReportingUTF8 := v\<rparr>) = interp_core i"
  "interp_core (i\<lparr>m_MouseReportingSGR := v\<rparr>) = interp_core i"
  "interp_core (i\<lparr>m_RequestedMouseEvents := q\<rparr>) = interp_core i"
  "interp_core (event ev i) = interp_core i"
  by (simp_all add: interp_core_def event_def)

text \<open>Steps that leave the registry alone and keep the invariant, with or without a fault.\<close>

definition keeps_core :: "Interp \<Rightarrow> Interp \<Rightarrow> bool" where
  "keeps_core i i' \<longleftrightarrow> interp_core i' \<and> m_Registry i' = m_Registry i
     \<and> Width (m_Screen i') = Width (m_Screen i) \<and> Height (m_Screen i') = Height (m_Screen i)"

lemma keeps_coreD:
  assumes "keeps_core i i'"
  shows "interp_core i'" "m_Registry i' = m_Registry i"
    "m_Width (m_Buffer (m_Screen i')) = m_Width (m_Buffer (m_Screen i))"
    "m_Height (m_Buffer (m_Screen i')) = m_Height (m_Buffer (m_Screen i))"
  using assms by (simp_all add: keeps_core_def)

definition safe_step :: "Interp \<Rightarrow> Interp res \<Rightarrow> bool" where
  "safe_step i m \<longleftrightarrow> (\<exists>i'. m = Inr i' \<and> keeps_core i i')"

lemma safe_step_Inr [interp_intros]: "keeps_core i i' \<Longrightarrow> safe_step i (Inr i')"
  by (simp add: safe_step_def)

lemma safe_step_bind:
  assumes "safe_step i m" and "\<And>j. keeps_core i j \<Longrightarrow> safe_step j (f j)"
  shows "safe_step i (bindR m f)"
  using assms by (force simp: safe_step_def keeps_core_def)

lemma keeps_core_refl [interp_intros]: "interp_core i \<Longrightarrow> keeps_core i i"
  by (simp add: keeps_core_def)

lemma keeps_core_trans: "keeps_core i j \<Longrightarrow> keeps_core j k \<Longrightarrow> keeps_core i k"
  by (simp add: keeps_core_def)

section \<open>Operations of the screen\<close>

definition keeps :: "Screen \<Rightarrow> Screen \<Rightarrow> bool" where
  "keeps s s' \<longleftrightarrow> screen_ok s' \<and> Width s' = Width s \<and> Height s' = Height s
     \<and> m_EraseChar s' = m_EraseChar s"

lemma keeps_screen: "interp_core i \<Longrightarrow> keeps (m_Screen i) s \<Longrightarrow> keeps_core i (i\<lparr>m_Screen := s\<rparr>)"
  by (simp add: keeps_core_def keeps_def interp_core_def)

lemma safe_with_screen [interp_intros]:
  "interp_core i \<Longrightarrow> \<exists>s. f (m_Screen i) = Inr s \<and> keeps (m_Screen i) s \<Longrightarrow> safe_step i (with_screen f i)"
  using keeps_screen by (auto simp: with_screen_def safe_step_def)

lemma keeps_on_screen [interp_intros]:
  "interp_core i \<Longrightarrow> keeps (m_Screen i) (f (m_Screen i)) \<Longrightarrow> keeps_core i (on_screen f i)"
  unfolding on_screen_def by (rule keeps_screen)

lemma keeps_GoTo [interp_intros]: "screen_ok s \<Longrightarrow> keeps s (GoTo x y s)"
  by (simp add: keeps_def)

lemma keeps_frame: "screen_ok s \<Longrightarrow> same_frame (m_Buffer s) c \<Longrightarrow> keeps s (s\<lparr>m_Buffer := c\<rparr>)"
  using screen_ok_buffer [of s c] by (simp add: keeps_def same_frame_def)

lemma keeps_row: "screen_ok s \<Longrightarrow> row_state (m_Buffer s) y r c \<Longrightarrow> keeps s (s\<lparr>m_Buffer := c\<rparr>)"
  by (simp add: row_state_def keeps_frame)

lemma keeps_PutWrap [interp_intros]: "screen_ok s \<Longrightarrow> keeps s (PutWrap s)"
  unfolding PutWrap_def by (intro keeps_frame same_frame_wrap screen_okD(1))

lemma keeps_VideoReverse [interp_intros]: "screen_ok s \<Longrightarrow> keeps s (SetVideoReverse v s)"
  by (simp add: keeps_def SetVideoReverse_def)

lemma sint_in_int [simp]: "in_int x \<Longrightarrow> sint (word_of_int x :: u32) = x"
  by (simp add: in_int_def int_word_sint)

lemma DoScrollUp_keeps:
  assumes ok: "screen_ok s" and t: "0 \<le> sint t" "in_int (sint t + sint n)"
  shows "\<exists>s'. DoScrollUp t b n s = Inr s' \<and> keeps s s'"
proof (cases "scroll_args t b n s")
  case True
  from scroll_up_eff [OF ok True] show ?thesis using keeps_frame [OF ok] by blast
next
  case False
  then have "DoScrollUp t b n s = Inr s"
    using t by (auto simp: DoScrollUp_def scroll_args_def scroll_bottom_def Let_def)
  with ok show ?thesis by (simp add: keeps_def)
qed

lemma ScrollDown_keeps:
  assumes ok: "screen_ok s" and t: "0 \<le> sint t" "in_int (sint t + sint n)"
  shows "\<exists>s'. ScrollDown t b n s = Inr s' \<and> keeps s s'"
proof (cases "scroll_args t b n s")
  case True
  from scroll_down_eff [OF ok True] show ?thesis using keeps_frame [OF ok] by blast
next
  case False
  then have "ScrollDown t b n s = Inr s"
    using t by (auto simp: ScrollDown_def scroll_args_def scroll_bottom_def Let_def)
  with ok show ?thesis by (simp add: keeps_def)
qed

lemma DoEraseScreen_keeps: "screen_ok s \<Longrightarrow> mode \<in> {0, 1, 2} \<Longrightarrow>
    \<exists>s'. DoEraseScreen mode s = Inr s' \<and> keeps s s'"
  using erase_all_eff [of s] erase_above_eff [of s] erase_below_eff [of s] keeps_frame [of s] by blast

lemma EraseInLine_keeps: "screen_ok s \<Longrightarrow> \<exists>s'. EraseInLine mode s = Inr s' \<and> keeps s s'"
  using EraseInLine_eff [of s mode] keeps_row [of s] by blast

lemma EraseAt_keeps: "screen_ok s \<Longrightarrow>
    \<exists>s'. EraseAt (word_of_int (m_PosX s)) (word_of_int (m_PosY s)) n s = Inr s' \<and> keeps s s'"
  using EraseAt_eff [of s n] keeps_row [of s] by blast

lemma Fill_keeps: "screen_ok s \<Longrightarrow> \<exists>s'. FillScreenWithSpace sp s = Inr s' \<and> keeps s s'"
  using fill_screen_eff [of s sp] keeps_frame [of s] by blast

lemma Shift_keeps:
  assumes "screen_ok s" "0 \<le> n" "m_PosX s + n \<le> Width s"
  shows "\<exists>s'. DoShiftRowLeft n s = Inr s' \<and> keeps s s'" "\<exists>s'. DoShiftRowRight n s = Inr s' \<and> keeps s s'"
  using shift_left_eff [OF assms] shift_right_eff [OF assms] keeps_row [OF assms(1)] by blast+

lemma PutCh_keeps: "screen_ok s \<Longrightarrow> \<exists>s'. PutCh dw ch s = Inr s' \<and> keeps s s'"
proof -
  assume ok: "screen_ok s"
  from PutCh_eff [OF ok, of dw ch] obtain c where
    "PutCh dw ch s = Inr (s\<lparr>m_Buffer := c, m_LineOverflown := put_overflows (dw ch) s \<or> m_LineOverflown s\<rparr>)"
    "same_frame (m_Buffer s) c" by blast
  with keeps_frame [OF ok this(2)] show ?thesis by (simp add: keeps_def)
qed

lemma Alternate_keeps: "screen_ok s \<Longrightarrow> \<exists>s'. SetAlternateScreen v s = Inr s' \<and> keeps s s'"
  using SetAlternateScreen_ok [of s v] by (auto simp: keeps_def)

lemma screen_ints:
  assumes "screen_ok s"
  shows "0 \<le> m_PosX s" "m_PosX s < Width s" "0 \<le> m_PosY s" "m_PosY s < Height s"
    "Width s < 2 ^ 31" "Height s < 2 ^ 31"
  using screen_okD [OF assms] buf_ok_int [of "m_Buffer s"] by auto

lemma Cursor_keeps:
  assumes ok: "screen_ok s"
  shows "\<exists>s'. DoCursorDown 1 s = Inr s' \<and> keeps s s'" "\<exists>s'. DoCursorLeft 1 s = Inr s' \<and> keeps s s'"
proof -
  have "in_int (m_PosY s + 1)" "in_int (m_PosX s - 1)"
    using screen_ints [OF ok] by (auto simp: in_int_def)
  then show "\<exists>s'. DoCursorDown 1 s = Inr s' \<and> keeps s s'" "\<exists>s'. DoCursorLeft 1 s = Inr s' \<and> keeps s s'"
    using keeps_GoTo [OF ok] by (simp_all add: DoCursorDown_def DoCursorLeft_def mk_int_def)
qed

section \<open>Attributes\<close>

lemma set_erase_char_ok:
  "screen_ok s \<Longrightarrow> screen_ok (set_erase_char f s)"
  "m_EraseChar (set_erase_char f s) = f (m_EraseChar s)"
  "m_Width (m_Buffer (set_erase_char f s)) = m_Width (m_Buffer s)"
  "m_Height (m_Buffer (set_erase_char f s)) = m_Height (m_Buffer s)"
  by (simp_all add: set_erase_char_def screen_ok_def SetEraseChar_def buf_ok_def)

lemma keeps_attribute:
  "interp_core i \<Longrightarrow> rendition_shown r (f (m_EraseChar (m_Screen i))) \<Longrightarrow>
    keeps_core i (on_screen (set_erase_char f) (i\<lparr>m_Rendition := r\<rparr>))"
  by (simp add: keeps_core_def interp_core_def on_screen_def set_erase_char_ok)

lemmas screen_attributes = SetFgColor_def SetBgColor_def SetFaint_def SetUnderline_def
  SetCrossed_def SetReverse_def SetBold_def SetItalic_def SetInvisible_def SetBlink_def

lemma keeps_set [interp_intros]:
  assumes "interp_core i"
  shows "keeps_core i (set_fg c i)" "keeps_core i (set_bg c i)" "keeps_core i (set_faint v i)"
    "keeps_core i (set_inverse v i)" "keeps_core i (set_bold v i)" "keeps_core i (set_italic v i)"
    "keeps_core i (set_invisible v i)" "keeps_core i (set_blink v i)"
    "keeps_core i (set_underline v i)" "keeps_core i (set_crossed v i)"
  using assms unfolding set_fg_def set_bg_def set_faint_def set_inverse_def set_bold_def
    set_italic_def set_invisible_def set_blink_def set_underline_def set_crossed_def screen_attributes
  by (intro keeps_attribute; simp add: interp_core_def rendition_shown_def split: option.splits)+

lemma keeps_set_after:
  assumes "keeps_core i j"
  shows "keeps_core i (set_fg c j)" "keeps_core i (set_bg c j)" "keeps_core i (set_faint v j)"
    "keeps_core i (set_inverse v j)" "keeps_core i (set_bold v j)" "keeps_core i (set_italic v j)"
    "keeps_core i (set_invisible v j)" "keeps_core i (set_blink v j)"
    "keeps_core i (set_underline v j)" "keeps_core i (set_crossed v j)"
  using assms keeps_set [OF keeps_coreD(1) [OF assms]] keeps_core_trans by blast+

lemma keeps_SetCharacterAttributes [interp_intros]:
  assumes "interp_core i"
  shows "keeps_core i (ProcessSetCharacterAttributes a i)"
  unfolding ProcessSetCharacterAttributes_def
  using keeps_core_refl [OF assms]
  by (cases "ca_mode a") (simp_all add: keeps_set_after)

lemma UpdateCharacterAttributes_shown:
  "rendition_shown (m_Rendition i) (m_EraseChar (m_Screen (UpdateCharacterAttributes i)))"
  by (simp add: UpdateCharacterAttributes_def on_screen_def Let_def screen_attributes
      set_erase_char_def rendition_shown_def split: option.splits)

lemma UpdateCharacterAttributes_fields [simp]:
  "m_Registry (UpdateCharacterAttributes i) = m_Registry i"
  "m_Rendition (UpdateCharacterAttributes i) = m_Rendition i"
  "m_Extent (UpdateCharacterAttributes i) = m_Extent i"
  "m_TabStops (UpdateCharacterAttributes i) = m_TabStops i"
  "m_CS (UpdateCharacterAttributes i) = m_CS i"
  "m_TranslateMap (UpdateCharacterAttributes i) = m_TranslateMap i"
  "m_SavedState (UpdateCharacterAttributes i) = m_SavedState i"
  "m_AllowScreenResize (UpdateCharacterAttributes i) = m_AllowScreenResize i"
  "m_InsertMode (UpdateCharacterAttributes i) = m_InsertMode i"
  "m_HasOutput (UpdateCharacterAttributes i) = m_HasOutput i"
  "m_HasBell (UpdateCharacterAttributes i) = m_HasBell i"
  "m_OriginLineMode (UpdateCharacterAttributes i) = m_OriginLineMode i"
  "m_Titles (UpdateCharacterAttributes i) = m_Titles i"
  "m_Events (UpdateCharacterAttributes i) = m_Events i"
  by (simp_all add: UpdateCharacterAttributes_def on_screen_def Let_def)

lemma UpdateCharacterAttributes_screen:
  "m_PosX (m_Screen (UpdateCharacterAttributes i)) = m_PosX (m_Screen i)"
  "m_PosY (m_Screen (UpdateCharacterAttributes i)) = m_PosY (m_Screen i)"
  "m_Width (m_Buffer (m_Screen (UpdateCharacterAttributes i))) = m_Width (m_Buffer (m_Screen i))"
  "m_Height (m_Buffer (m_Screen (UpdateCharacterAttributes i))) = m_Height (m_Buffer (m_Screen i))"
  "screen_ok (m_Screen i) \<Longrightarrow> screen_ok (m_Screen (UpdateCharacterAttributes i))"
proof -
  show "m_PosX (m_Screen (UpdateCharacterAttributes i)) = m_PosX (m_Screen i)"
    "m_PosY (m_Screen (UpdateCharacterAttributes i)) = m_PosY (m_Screen i)"
    "m_Width (m_Buffer (m_Screen (UpdateCharacterAttributes i))) = m_Width (m_Buffer (m_Screen i))"
    "m_Height (m_Buffer (m_Screen (UpdateCharacterAttributes i))) = m_Height (m_Buffer (m_Screen i))"
    by (simp_all add: UpdateCharacterAttributes_def on_screen_def Let_def screen_attributes
        set_erase_char_def SetEraseChar_def)
  assume "screen_ok (m_Screen i)"
  then show "screen_ok (m_Screen (UpdateCharacterAttributes i))"
    unfolding UpdateCharacterAttributes_def on_screen_def Let_def screen_attributes
    by (simp add: set_erase_char_ok)
qed

section \<open>Commands\<close>

text \<open>Cursor movements.\<close>

lemma keeps_CR [interp_intros]: "interp_core i \<Longrightarrow> keeps_core i (ProcessCR i)"
  unfolding ProcessCR_def by (intro keeps_on_screen keeps_GoTo interp_coreD(1))

lemma keeps_goto: "interp_core i \<Longrightarrow> keeps_core i (on_screen (GoTo x y) i)"
  by (intro keeps_on_screen keeps_GoTo interp_coreD(1))

lemma safe_LF [interp_intros]:
  assumes i: "interp_core i"
  shows "safe_step i (ProcessLF i)"
proof -
  note s = interp_coreD(1) [OF i]
  have "in_int (CursorY i + 1)" using screen_ints [OF s] by (auto simp: in_int_def)
  moreover have t: "in_int (ext_top (m_Extent i))" "0 \<le> ext_top (m_Extent i)"
    "in_int (ext_top (m_Extent i) + 1)"
    using interp_coreD(3,4) [OF i] by (auto simp: extent_ok_def in_int_def)
  have "sint (1 :: u32) = 1" by code_simp
  with t have "\<exists>s'. DoScrollUp (word_of_int (ext_top (m_Extent i))) (word_of_int (ext_bottom (m_Extent i)))
      1 (m_Screen i) = Inr s' \<and> keeps (m_Screen i) s'"
    by (intro DoScrollUp_keeps [OF s]) simp_all
  ultimately show ?thesis
    using safe_with_screen [OF i] Cursor_keeps(1) [OF s] by (simp add: ProcessLF_def mk_int_def)
qed

lemma safe_BS [interp_intros]: "interp_core i \<Longrightarrow> safe_step i (ProcessBS i)"
  unfolding ProcessBS_def by (intro safe_with_screen Cursor_keeps interp_coreD(1))

lemma clampR_ok: "lo \<le> hi \<Longrightarrow> clampR v lo hi = Inr (max lo (min v hi))"
  by (simp add: clampR_def assertR_def)

lemma extent_ints:
  assumes "interp_core i"
  shows "0 \<le> ext_top (m_Extent i)" "ext_top (m_Extent i) \<le> 2 ^ 30"
    "ext_top (m_Extent i) \<le> ext_bottom (m_Extent i) - 1" "in_int (ext_bottom (m_Extent i) - 1)"
    "in_int (ext_top (m_Extent i))" "in_int (ext_bottom (m_Extent i))"
    "ext_height (m_Extent i) = Height (m_Screen i)"
  using interp_coreD(3,4) [OF assms] by (auto simp: extent_ok_def in_int_def)

lemma safe_RI [interp_intros]:
  assumes i: "interp_core i"
  shows "safe_step i (ProcessRI i)"
proof (cases "CursorY i = ext_top (m_Extent i)")
  case True
  note s = interp_coreD(1) [OF i]
  have "sint (1 :: u32) = 1" by code_simp
  then have "\<exists>s'. ScrollDown (word_of_int (ext_top (m_Extent i))) (word_of_int (ext_bottom (m_Extent i)))
      1 (m_Screen i) = Inr s' \<and> keeps (m_Screen i) s'"
    using extent_ints [OF i] by (intro ScrollDown_keeps [OF s]) (auto simp: in_int_def)
  with True show ?thesis using safe_with_screen [OF i] by (simp add: ProcessRI_def)
next
  case False
  note e = extent_ints [OF i] and s = screen_ints [OF interp_coreD(1) [OF i]]
  have "in_int (CursorY i - 1)" using s by (auto simp: in_int_def)
  moreover have "(0 :: int) \<le> ext_height (m_Extent i) - 1" using e(7) s by simp
  ultimately show ?thesis
    using False e keeps_goto [OF i]
    by (simp add: ProcessRI_def mk_int_def clampR_ok safe_step_def)
qed

definition small :: "int \<Rightarrow> bool" where "small d \<longleftrightarrow> - (2 ^ 30) \<le> d \<and> d \<le> 2 ^ 30 - 1"

lemma safe_MC [interp_intros]:
  assumes i: "interp_core i" and m: "pred_option small (cm_x m)" "pred_option small (cm_y m)"
  shows "safe_step i (ProcessMC m i)"
proof -
  note e = extent_ints [OF i] and s = screen_ints [OF interp_coreD(1) [OF i]]
  have h: "Height (m_Screen i) \<le> 2 ^ 30" "Width (m_Screen i) \<le> 1024"
    using interp_coreD [OF i] by auto
  have ints: "in_int (d + ext_top (m_Extent i))" "in_int d" "in_int (CursorY i + d)" "in_int (CursorX i + d)"
    if "small d" for d
    using that e(1,2) s h by (auto simp: small_def in_int_def)
  show ?thesis
    using m e(3,4) keeps_goto [OF i] keeps_core_refl [OF i]
    unfolding ProcessMC_def
    by (cases "cm_x m"; cases "cm_y m")
      (auto simp: Let_def mk_int_def ints clampR_ok safe_step_def)
qed

text \<open>Tab stops: both loops end where they should, inside the row.\<close>

lemma tab_at_ok: "0 \<le> x \<Longrightarrow> x < int (length ts) \<Longrightarrow> tab_at ts x = Inr (ts ! nat x)"
  by (simp add: tab_at_def)

lemma HT_forward_ok:
  "0 \<le> x \<Longrightarrow> width \<le> int (length ts) \<Longrightarrow> \<exists>y. HT_forward ts width x amount = Inr y \<and> x \<le> y"
proof (induction ts width x amount rule: HT_forward.induct)
  case (1 ts width x amount)
  show ?case
  proof (cases "x < width - 1 \<and> amount > 0")
    case True
    then have t: "tab_at ts (x + 1) = Inr (ts ! nat (x + 1))" using "1.prems" by (simp add: tab_at_ok)
    with "1.IH" [OF True] "1.prems" obtain y where
      "HT_forward ts width (x + 1) (if ts ! nat (x + 1) then amount - 1 else amount) = Inr y" "x + 1 \<le> y"
      by auto
    with True t show ?thesis by (subst HT_forward.simps) simp
  qed (subst HT_forward.simps, auto)
qed

lemma HT_backward_ok:
  "x \<le> int (length ts) \<Longrightarrow> \<exists>y. HT_backward ts x amount = Inr y"
proof (induction ts x amount rule: HT_backward.induct)
  case (1 ts x amount)
  show ?case
  proof (cases "x > 0 \<and> amount < 0")
    case True
    then have t: "tab_at ts (x - 1) = Inr (ts ! nat (x - 1))" using "1.prems" by (simp add: tab_at_ok)
    with "1.IH" [OF True] "1.prems" obtain y where
      "HT_backward ts (x - 1) (if ts ! nat (x - 1) then amount + 1 else amount) = Inr y" by auto
    with True t show ?thesis by (subst HT_backward.simps) simp
  qed (subst HT_backward.simps, auto)
qed

lemma safe_HT [interp_intros]:
  assumes i: "interp_core i"
  shows "safe_step i (ProcessHT amount i)"
proof -
  have x: "0 \<le> CursorX i" "CursorX i \<le> int (length (m_TabStops i))"
    using screen_ints [OF interp_coreD(1) [OF i]] interp_coreD(2,5) [OF i] by auto
  from HT_backward_ok [OF x(2)] obtain y where "HT_backward (m_TabStops i) (CursorX i) amount = Inr y"
    by blast
  moreover from HT_forward_ok [OF x(1)] obtain z where "HT_forward (m_TabStops i)
      (min (Width (m_Screen i)) (int (length (m_TabStops i)))) (CursorX i) amount = Inr z"
    by (meson min.cobounded2)
  ultimately show ?thesis
    using keeps_goto [OF i] keeps_core_refl [OF i] by (auto simp: ProcessHT_def Let_def safe_step_def)
qed

lemma keeps_tabs:
  "interp_core i \<Longrightarrow> length ts = 1024 \<Longrightarrow> keeps_core i (i\<lparr>m_TabStops := ts\<rparr>)"
  by (simp add: keeps_core_def interp_core_def)

lemma keeps_HTS [interp_intros]: "interp_core i \<Longrightarrow> keeps_core i (ProcessHTS i)"
  using keeps_tabs [of i] keeps_core_refl [of i] interp_coreD(5) [of i]
  by (simp add: ProcessHTS_def Let_def)

lemma keeps_ClearTab [interp_intros]: "interp_core i \<Longrightarrow> keeps_core i (ProcessClearTab t i)"
  using keeps_tabs [of i] keeps_core_refl [of i] interp_coreD(5) [of i]
  by (simp add: ProcessClearTab_def Let_def)

text \<open>Reports and the bell.\<close>

lemma keeps_event [interp_intros]: "interp_core i \<Longrightarrow> keeps_core i (event e i)"
  by (simp add: keeps_core_def, simp add: event_def)

lemma safe_Response: "interp_core i \<Longrightarrow> safe_step i (Response t i)"
  using keeps_event [of i] by (simp add: Response_def safe_step_def assertR_def interp_core_def)

lemma safe_Bell [interp_intros]: "interp_core i \<Longrightarrow> safe_step i (ProcessBell i)"
  using keeps_event [of i] by (simp add: ProcessBell_def safe_step_def assertR_def interp_core_def)

lemma safe_Report [interp_intros]:
  assumes i: "interp_core i"
  shows "safe_step i (ProcessReport m i)"
proof -
  note e = extent_ints [OF i] and s = screen_ints [OF interp_coreD(1) [OF i]]
  have "in_int (CursorY i - ext_top (m_Extent i))" "in_int (CursorY i)" "in_int (CursorX i + 1)"
    "in_int (CursorY i + 1)" "in_int (CursorY i - ext_top (m_Extent i) + 1)"
    using e(1,2) s by (auto simp: in_int_def)
  then show ?thesis
    using safe_Response [OF i] by (cases m) (simp_all add: ProcessReport_def mk_int_def)
qed

text \<open>Erasure.\<close>

lemma safe_ScreenAlignment [interp_intros]:
  assumes i: "interp_core i"
  shows "safe_step i (ProcessScreenAlignment i)"
  unfolding ProcessScreenAlignment_def Let_def
proof (rule safe_step_bind)
  show "safe_step i (with_screen (FillScreenWithSpace
      ((m_BufferEraseChar (m_Buffer (m_Screen i)))\<lparr>sp_l := 69\<rparr>)) i)"
    by (intro safe_with_screen Fill_keeps interp_coreD(1) i)
qed (simp add: safe_step_def keeps_goto keeps_coreD(1))

lemma safe_EraseInDisplay [interp_intros]: "interp_core i \<Longrightarrow> safe_step i (ProcessEraseInDisplay e i)"
  unfolding ProcessEraseInDisplay_def
  by (intro safe_with_screen DoEraseScreen_keeps interp_coreD(1)) (auto split: DisplayErasure.splits)

lemma safe_EraseInLine [interp_intros]: "interp_core i \<Longrightarrow> safe_step i (ProcessEraseInLine e i)"
  unfolding ProcessEraseInLine_def by (intro safe_with_screen EraseInLine_keeps interp_coreD(1))

lemma safe_EraseCharacters [interp_intros]: "interp_core i \<Longrightarrow> safe_step i (ProcessEraseCharacters n i)"
  unfolding ProcessEraseCharacters_def
  by (cases "n = 0") (simp_all add: safe_step_Inr keeps_core_refl safe_with_screen EraseAt_keeps interp_coreD(1))

text \<open>The scrolling region; it may lie below the screen, and is then left alone by the cursor.\<close>

lemma keeps_extent: "interp_core i \<Longrightarrow> extent_ok e (Height (m_Screen i)) \<Longrightarrow>
    keeps_core i (i\<lparr>m_Extent := e\<rparr>)"
  by (simp add: keeps_core_def interp_core_def)

lemma safe_SetScrollingRegion [interp_intros]:
  assumes i: "interp_core i"
    and r: "pred_option (\<lambda>r. INT_MIN \<le> range_top r \<and> range_top r < INT_MAX \<and> in_int (range_bottom r)) region"
  shows "safe_step i (ProcessSetScrollingRegion region i)"
  unfolding ProcessSetScrollingRegion_def
proof (rule safe_step_bind)
  have h: "0 < Height (m_Screen i)" "Height (m_Screen i) \<le> INT_MAX"
    "ext_height (m_Extent i) = Height (m_Screen i)"
    using screen_ints [OF interp_coreD(1) [OF i]] extent_ints [OF i] by auto
  show "safe_step i (case region of
         Some r \<Rightarrow> bindR (mk_int (range_top r + 1)) (\<lambda>next.
           Inr (if next < range_bottom r \<and> range_top r \<ge> 0 \<and> range_top r \<le> Height (m_Screen i)
                then i\<lparr>m_Extent := (m_Extent i)\<lparr>ext_top := range_top r, ext_bottom := range_bottom r\<rparr>\<rparr>
                else i))
       | None \<Rightarrow> Inr (i\<lparr>m_Extent := (m_Extent i)\<lparr>ext_top := 0, ext_bottom := Height (m_Screen i)\<rparr>\<rparr>))"
  proof (cases region)
    case None
    with h show ?thesis
      by (auto simp: extent_ok_def intro!: safe_step_Inr keeps_extent i)
  next
    case (Some q)
    with r have q: "INT_MIN \<le> range_top q" "range_top q < INT_MAX" "in_int (range_bottom q)" by simp_all
    then have "in_int (range_top q + 1)" by (simp add: in_int_def)
    with Some q h show ?thesis
      by (auto simp: mk_int_def extent_ok_def in_int_def intro!: safe_step_Inr keeps_extent keeps_core_refl i)
  qed
qed (simp add: safe_step_def keeps_goto keeps_core_refl keeps_coreD(1))

text \<open>Insertion and deletion.\<close>

lemma capped_count_le: "0 < room \<Longrightarrow> capped_count n room \<le> room"
  by (simp add: capped_count_def Let_def)

lemma capped_count_ge: "0 < room \<Longrightarrow> 0 \<le> sint n \<Longrightarrow> 1 \<le> capped_count n room"
  by (auto simp: capped_count_def Let_def)

lemma capped_count_in_int: "0 < room \<Longrightarrow> room \<le> INT_MAX \<Longrightarrow> in_int (capped_count n room)"
  using in_int_sint [of n] unfolding capped_count_def Let_def in_int_def by auto

lemma scroll_room:
  fixes n :: u32
  assumes i: "interp_core i"
  defines "k \<equiv> capped_count n (Height (m_Screen i) - CursorY i)"
  shows "sint (word_of_int (CursorY i) :: u32) = CursorY i" "sint (word_of_int k :: u32) = k"
    "0 \<le> CursorY i" "in_int (CursorY i + k)"
proof -
  note s = screen_ints [OF interp_coreD(1) [OF i]]
  have y: "in_int (CursorY i)" "0 \<le> CursorY i" using s by (auto simp: in_int_def)
  have k: "in_int k" "k \<le> Height (m_Screen i) - CursorY i"
    unfolding k_def using s by (auto intro!: capped_count_in_int capped_count_le)
  show "sint (word_of_int (CursorY i) :: u32) = CursorY i" "sint (word_of_int k :: u32) = k"
    "0 \<le> CursorY i" using y k by simp_all
  show "in_int (CursorY i + k)" using y k s by (auto simp: in_int_def)
qed

lemma safe_InsertLines [interp_intros]:
  assumes i: "interp_core i"
  shows "safe_step i (ProcessInsertLines n i)"
proof -
  note r = scroll_room(1,3) [OF i] scroll_room(2,4) [OF i, where n = n]
  have "safe_step i (with_screen (ScrollDown (word_of_int (CursorY i)) (word_of_int (ext_bottom (m_Extent i)))
      (word_of_int (capped_count n (Height (m_Screen i) - CursorY i)))) i)"
    using r by (intro safe_with_screen [OF i] ScrollDown_keeps interp_coreD(1) [OF i]) simp_all
  then show ?thesis using keeps_core_refl [OF i] by (simp add: ProcessInsertLines_def Let_def safe_step_Inr)
qed

lemma safe_DeleteLines [interp_intros]:
  assumes i: "interp_core i"
  shows "safe_step i (ProcessDeleteLines n i)"
proof -
  note r = scroll_room(1,3) [OF i] scroll_room(2,4) [OF i, where n = n]
  have "safe_step i (with_screen (DoScrollUp (word_of_int (CursorY i)) (word_of_int (ext_bottom (m_Extent i)))
      (word_of_int (capped_count n (Height (m_Screen i) - CursorY i)))) i)"
    using r by (intro safe_with_screen [OF i] DoScrollUp_keeps interp_coreD(1) [OF i]) simp_all
  then show ?thesis using keeps_core_refl [OF i] by (simp add: ProcessDeleteLines_def Let_def safe_step_Inr)
qed

lemma safe_Characters [interp_intros]:
  assumes i: "interp_core i" and n: "0 \<le> sint n"
  shows "safe_step i (ProcessDeleteCharacters n i)" "safe_step i (ProcessInsertCharacters n i)"
proof -
  have room: "0 < Width (m_Screen i) - CursorX i"
    using screen_ints [OF interp_coreD(1) [OF i]] by simp
  show "safe_step i (ProcessDeleteCharacters n i)" "safe_step i (ProcessInsertCharacters n i)"
    unfolding ProcessDeleteCharacters_def ProcessInsertCharacters_def
    using capped_count_le [OF room, of n] capped_count_ge [OF room n]
    by (intro safe_with_screen [OF i] Shift_keeps interp_coreD(1) [OF i]; simp)+
qed

text \<open>Modes.\<close>

lemma keeps_fields [interp_intros]:
  assumes "interp_core i"
  shows "keeps_core i (i\<lparr>m_OriginLineMode := v\<rparr>)" "keeps_core i (i\<lparr>m_AutoWrapMode := v\<rparr>)"
    "keeps_core i (i\<lparr>m_CursorShown := v\<rparr>)" "keeps_core i (i\<lparr>m_MouseReportingUTF8 := v\<rparr>)"
    "keeps_core i (i\<lparr>m_MouseReportingSGR := v\<rparr>)" "keeps_core i (i\<lparr>m_RequestedMouseEvents := q\<rparr>)"
    "keeps_core i (i\<lparr>m_Titles := t\<rparr>)"
  using assms by (simp_all add: keeps_core_def)

lemma keeps_UpdateMouseReporting: "interp_core i \<Longrightarrow> keeps_core i (UpdateMouseReporting i)"
  by (simp add: UpdateMouseReporting_def Let_def keeps_event keeps_core_refl)

lemma keeps_after:
  assumes "keeps_core i j"
  shows "keeps_core i (event e j)" "keeps_core i (UpdateMouseReporting j)"
    "keeps_core i (RequestMouseEventsChanged j)" "keeps_core i (j\<lparr>m_RequestedMouseEvents := q\<rparr>)"
    "keeps_core i (j\<lparr>m_Titles := t\<rparr>)"
proof -
  have step: "keeps_core i (f j)" if "\<And>k. interp_core k \<Longrightarrow> keeps_core k (f k)" for f
    using keeps_core_trans [OF assms that] keeps_coreD(1) [OF assms] by blast
  show "keeps_core i (event e j)" "keeps_core i (UpdateMouseReporting j)"
    "keeps_core i (j\<lparr>m_RequestedMouseEvents := q\<rparr>)" "keeps_core i (j\<lparr>m_Titles := t\<rparr>)"
    by (intro step keeps_event keeps_UpdateMouseReporting keeps_fields; assumption)+
  have "keeps_core k (RequestMouseEventsChanged k)" if "interp_core k" for k
    unfolding RequestMouseEventsChanged_def
    using keeps_core_trans [OF keeps_event keeps_UpdateMouseReporting] that by simp
  then show "keeps_core i (RequestMouseEventsChanged j)" by (intro step)
qed

lemma keeps_request_mouse: "interp_core i \<Longrightarrow> keeps_core i (request_mouse k v i)"
  by (simp add: request_mouse_def Let_def keeps_after keeps_fields keeps_core_refl)

lemma safe_ChangeMode [interp_intros]:
  assumes i: "interp_core i" and m: "\<not> (mc_mode m = Mode_Insert \<and> mc_status m)"
  shows "safe_step i (ProcessChangeMode m i)"
proof -
  have alt: "safe_step i (with_screen (SetAlternateScreen v) i)" for v
    by (intro safe_with_screen Alternate_keeps interp_coreD(1) i)
  have no_insert: "keeps_core i (i\<lparr>m_InsertMode := False\<rparr>)"
    using i by (simp add: keeps_core_def interp_core_def)
  have col: "ProcessChangeColumnMode132 v i = Inr i" for v
    using i by (simp add: ProcessChangeColumnMode132_def interp_core_def)
  have rev: "keeps_core i (on_screen (SetVideoReverse v) i)" for v
    by (intro keeps_on_screen keeps_VideoReverse interp_coreD(1) i)
  show ?thesis
  proof (cases "mc_mode m = Mode_AlternateScreenBuffer1049")
    case True
    have "safe_step i (bindR (with_screen (SetAlternateScreen (mc_status m)) i)
        (\<lambda>i. if mc_status m then ProcessEraseInDisplay WholeDisplay i else Inr i))"
      by (rule safe_step_bind [OF alt])
        (simp add: safe_EraseInDisplay safe_step_Inr keeps_core_refl keeps_coreD(1))
    with True show ?thesis by (simp add: ProcessChangeMode_def Let_def)
  next
    case False
    with i m show ?thesis
      by (cases "mc_mode m")
        (simp_all add: ProcessChangeMode_def Let_def alt no_insert col rev keeps_request_mouse
          safe_step_Inr keeps_fields keeps_after keeps_event keeps_core_refl)
  qed
qed

text \<open>Character sets and the saved state.\<close>

lemma codesets: "USASCII_codeset = 0" "UK_codeset = 1" "Graph_codeset = 2"
  by (simp_all add: USASCII_codeset_def UK_codeset_def Graph_codeset_def)

lemma translate_map_ok: "k < 3 \<Longrightarrow> map_ok (translate_map_of k)"
  by (simp add: map_ok_def translate_map_of_def)

lemma keeps_sets:
  "interp_core i \<Longrightarrow> sets_ok cs \<Longrightarrow> map_ok m \<Longrightarrow> keeps_core i (i\<lparr>m_CS := cs, m_TranslateMap := m\<rparr>)"
  by (simp add: keeps_core_def interp_core_def)

lemma keeps_Designate [interp_intros]:
  assumes i: "interp_core i"
  shows "keeps_core i (ProcessDesignateCharacterSet d i)"
proof -
  have cs: "sets_ok (m_CS i)" using i by (simp add: interp_core_def)
  have upd: "sets_ok ((m_CS i)[t := k])" if "k < 3" for t k
    using cs that set_update_subset_insert [of "m_CS i" t k] by (auto simp: sets_ok_def list_all_iff)
  show ?thesis
    using keeps_sets [OF i upd translate_map_ok] keeps_core_refl [OF i]
    by (cases "csd_set d") (simp_all add: ProcessDesignateCharacterSet_def Let_def codesets)
qed

lemma keeps_Select [interp_intros]:
  assumes i: "interp_core i"
  shows "keeps_core i (ProcessSelectCharacterSet n i)"
proof -
  have cs: "sets_ok (m_CS i)" using i by (simp add: interp_core_def)
  have "keeps_core i (i\<lparr>m_TranslateMap := m\<rparr>)" if "map_ok m" for m
    using i that by (simp add: keeps_core_def interp_core_def)
  moreover have "map_ok (translate_map_of (m_CS i ! unat n))" if "unat n < length (m_CS i)"
    using cs that by (intro translate_map_ok) (simp add: sets_ok_def list_all_length)
  ultimately show ?thesis
    using keeps_core_refl [OF i] by (simp add: ProcessSelectCharacterSet_def)
qed

lemma keeps_SaveState [interp_intros]: "interp_core i \<Longrightarrow> keeps_core i (ProcessSaveState i)"
  by (simp add: ProcessSaveState_def keeps_core_def interp_core_def saved_ok_def)

lemma keeps_Update:
  assumes "screen_ok (m_Screen i)" "interp_core (i\<lparr>m_Rendition := r\<rparr>)"
  shows "interp_core (UpdateCharacterAttributes i)"
  using assms UpdateCharacterAttributes_shown [of i] UpdateCharacterAttributes_screen [of i]
  by (simp add: interp_core_def)

lemma keeps_RestoreState [interp_intros]:
  assumes i: "interp_core i"
  shows "keeps_core i (ProcessRestoreState i)"
proof (cases "m_SavedState i")
  case None
  with i show ?thesis by (simp add: ProcessRestoreState_def keeps_core_refl)
next
  case (Some st)
  let ?j = "(on_screen (GoTo (st_x st) (st_y st)) i)
         \<lparr>m_CS := st_character_sets st, m_TranslateMap := st_translate_map st,
          m_Rendition := st_rendition st\<rparr>"
  have ok: "screen_ok (m_Screen ?j)" using i by (simp add: on_screen_def interp_core_def)
  have "interp_core (?j\<lparr>m_Rendition := m_Rendition i\<rparr>)"
    using i Some by (simp add: interp_core_def on_screen_def saved_ok_def)
  from keeps_Update [OF ok this] show ?thesis
    using Some UpdateCharacterAttributes_screen [of ?j]
    by (simp add: ProcessRestoreState_def keeps_core_def on_screen_def)
qed

text \<open>Titles.\<close>

lemma keeps_title:
  "keeps_core i j \<Longrightarrow> keeps_core i (change_icon t j)" "keeps_core i j \<Longrightarrow> keeps_core i (change_window t j)"
  by (simp_all add: change_icon_def change_window_def keeps_after)

lemma keeps_ChangeTitle: "keeps_core i j \<Longrightarrow> keeps_core i (ProcessChangeTitle t j)"
  by (simp add: ProcessChangeTitle_def keeps_title split: TitleKind.split)

lemma keeps_title_stack:
  "keeps_core i j \<Longrightarrow> keeps_core i (save_icon j)" "keeps_core i j \<Longrightarrow> keeps_core i (save_window j)"
  "keeps_core i j \<Longrightarrow> keeps_core i (restore_icon j)" "keeps_core i j \<Longrightarrow> keeps_core i (restore_window j)"
  by (simp_all add: save_icon_def save_window_def restore_icon_def restore_window_def keeps_after
      keeps_ChangeTitle split: list.split)

lemma keeps_TitleManipulation [interp_intros]:
  "interp_core i \<Longrightarrow> keeps_core i (ProcessTitleManipulation m i)"
  by (simp add: ProcessTitleManipulation_def Let_def keeps_title_stack keeps_core_refl
      split: TitleTarget.split)

lemma keeps_CursorStyle [interp_intros]: "interp_core i \<Longrightarrow> keeps_core i (ProcessCursorStyle s i)"
  by (simp add: ProcessCursorStyle_def keeps_event)

section \<open>Text\<close>

lemma ends_with_mcg_ok:
  assumes ok: "screen_ok s"
  shows "\<exists>v. curr_line_ends_with_mcg s = Inr v"
proof -
  note s = screen_okD [OF ok]
  have "LineFromNo (m_PosY s) (m_Buffer s) = Inr (row_span (m_Buffer s) (nat (m_PosY s)))"
    using LineFromNo_row s by simp
  moreover have "span_get (row_span (m_Buffer s) (nat (m_PosY s))) (Width s - 1) (m_Buffer s)
      = Inr (row (m_Buffer s) (nat (m_PosY s)) ! nat (Width s - 1))"
    using s by (intro row_get(1)) auto
  ultimately show ?thesis by (simp add: curr_line_ends_with_mcg_def)
qed

lemma wrap_needed_ok: "interp_core i \<Longrightarrow> \<exists>v. wrap_needed sx i = Inr v"
  using ends_with_mcg_ok [OF interp_coreD(1), of i] by (auto simp: wrap_needed_def)

lemma safe_put_char:
  assumes i: "interp_core i"
  shows "safe_step i (put_char cf sx ch i)"
proof -
  obtain w where w: "wrap_needed sx i = Inr w" using wrap_needed_ok [OF i] by blast
  have "keeps_core i (ProcessCR (on_screen PutWrap i))"
    using keeps_core_trans [OF keeps_on_screen keeps_CR] i keeps_PutWrap interp_coreD(1)
    by (meson keeps_coreD(1) keeps_on_screen)
  then have wrapped: "safe_step i (if w then ProcessLF (ProcessCR (on_screen PutWrap i)) else Inr i)"
    using safe_step_bind [OF safe_step_Inr, of i "ProcessCR (on_screen PutWrap i)" ProcessLF]
    by (simp add: safe_LF keeps_coreD(1) safe_step_Inr keeps_core_refl [OF i])
  have rest: "safe_step j (bindR (if m_InsertMode j then with_screen (DoShiftRowRight n) j else Inr j)
      (\<lambda>i. bindR (with_screen (PutCh (IsDoubleWidth cf (m_Registry i)) ch) i) (\<lambda>i.
        bindR (mk_int (CursorX i + n)) (\<lambda>x.
        Inr (if x < sx then on_screen (GoTo x (CursorY i)) i else i)))))"
    if j: "interp_core j" and n: "n = 1 \<or> n = 2" for j n
  proof -
    have "\<not> m_InsertMode j" using j by (simp add: interp_core_def)
    moreover have "safe_step j (bindR (with_screen (PutCh (IsDoubleWidth cf (m_Registry j)) ch) j) (\<lambda>i.
        bindR (mk_int (CursorX i + n)) (\<lambda>x. Inr (if x < sx then on_screen (GoTo x (CursorY i)) i else i))))"
    proof (rule safe_step_bind)
      show "safe_step j (with_screen (PutCh (IsDoubleWidth cf (m_Registry j)) ch) j)"
        by (intro safe_with_screen PutCh_keeps interp_coreD(1) j)
      fix k assume "keeps_core j k"
      then have k: "interp_core k" by (rule keeps_coreD)
      then have "in_int (CursorX k + n)"
        using screen_ints [OF interp_coreD(1) [OF k]] interp_coreD(2) [OF k] n by (auto simp: in_int_def)
      then show "safe_step k (bindR (mk_int (CursorX k + n)) (\<lambda>x.
          Inr (if x < sx then on_screen (GoTo x (CursorY k)) k else k)))"
        using keeps_goto [OF k] keeps_core_refl [OF k] by (simp add: mk_int_def safe_step_Inr)
    qed
    ultimately show ?thesis by simp
  qed
  show ?thesis
    unfolding put_char_def Let_def w bindR_Inr
    by (rule safe_step_bind [OF wrapped], rule rest) (simp_all add: keeps_coreD(1))
qed

text \<open>The loop is the registry's own loop over characters with \<open>put_char\<close> as its client.\<close>

lemma with_screen_registry: "with_screen f i = Inr j \<Longrightarrow> m_Registry j = m_Registry i"
  by (auto simp: with_screen_def bindR_eq_Inr)

definition same_registry :: "Interp \<Rightarrow> Interp res \<Rightarrow> bool" where
  "same_registry i m \<longleftrightarrow> (\<forall>j. m = Inr j \<longrightarrow> m_Registry j = m_Registry i)"

lemma same_registry_bind:
  assumes "same_registry i m" and "\<And>j. m = Inr j \<Longrightarrow> same_registry j (f j)"
  shows "same_registry i (bindR m f)"
  using assms by (cases m) (simp_all add: same_registry_def)

lemma same_registry_with_screen: "same_registry i (with_screen f i)"
  by (simp add: same_registry_def with_screen_registry)

lemma same_registry_Inr: "m_Registry j = m_Registry i \<Longrightarrow> same_registry i (Inr j)"
  by (simp add: same_registry_def)

lemma same_registry_LF: "same_registry i (ProcessLF i)"
  unfolding ProcessLF_def
  by (cases "mk_int (CursorY i + 1)") (simp_all add: same_registry_with_screen, simp add: same_registry_def)

lemma put_char_registry:
  assumes "put_char cf sx ch i = Inr j"
  shows "m_Registry j = m_Registry i"
proof -
  have "same_registry i (put_char cf sx ch i)"
  proof (cases "wrap_needed sx i")
    case (Inr w)
    have "same_registry (ProcessCR (on_screen PutWrap i)) (ProcessLF (ProcessCR (on_screen PutWrap i)))"
      by (rule same_registry_LF)
    then have "same_registry i (if w then ProcessLF (ProcessCR (on_screen PutWrap i)) else Inr i)"
      by (simp add: same_registry_def ProcessCR_def on_screen_def)
    moreover have "same_registry k (bindR (if m_InsertMode k then with_screen (DoShiftRowRight n) k else Inr k)
        (\<lambda>i. bindR (with_screen (PutCh (IsDoubleWidth cf (m_Registry i)) ch) i) (\<lambda>i.
          bindR (mk_int (CursorX i + n)) (\<lambda>x.
          Inr (if x < sx then on_screen (GoTo x (CursorY i)) i else i)))))" for k n
    proof (rule same_registry_bind)
      show "same_registry k (if m_InsertMode k then with_screen (DoShiftRowRight n) k else Inr k)"
        by (simp add: same_registry_with_screen same_registry_Inr)
      have "same_registry j (bindR (mk_int (CursorX j + n)) (\<lambda>x.
          Inr (if x < sx then on_screen (GoTo x (CursorY j)) j else j)))" for j
        by (cases "mk_int (CursorX j + n)") (simp_all add: same_registry_def on_screen_def)
      then show "same_registry l (bindR (with_screen (PutCh (IsDoubleWidth cf (m_Registry l)) ch) l) (\<lambda>i.
          bindR (mk_int (CursorX i + n)) (\<lambda>x. Inr (if x < sx then on_screen (GoTo x (CursorY i)) i else i))))" for l
        by (rule same_registry_bind [OF same_registry_with_screen])
    qed
    ultimately show ?thesis
      unfolding put_char_def Let_def Inr bindR_Inr by (rule same_registry_bind)
  qed (simp add: same_registry_def put_char_def)
  with assms show ?thesis by (simp add: same_registry_def)
qed

lemma text_loop_each_char:
  "text_loop (Rep_lawful_cf x) sx fuel input (i\<lparr>m_Registry := r\<rparr>) =
    bindR (reg.each_char x fuel (\<lambda>ch r j. put_char (Rep_lawful_cf x) sx ch (j\<lparr>m_Registry := r\<rparr>))
      input r i) (\<lambda>(r, j). Inr (j\<lparr>m_Registry := r\<rparr>))"
proof (induction fuel arbitrary: input i r)
  case 0
  show ?case by (simp add: text_loop.simps reg.each_char.simps)
next
  case (Suc fuel)
  let ?cf = "Rep_lawful_cf x"
  show ?case
  proof (cases "input = [] \<or> (\<exists>e. Append ?cf input 0 r = Inl e)")
    case True
    then show ?thesis
      by (subst text_loop.simps, subst reg.each_char.simps) auto
  next
    case False
    then obtain ch k q where a: "Append ?cf input 0 r = Inr ((ch, k), q)"
      by (cases "Append ?cf input 0 r") auto
    have same: "bindR (if ch = 0 then Inr (i\<lparr>m_Registry := q\<rparr>) else put_char ?cf sx ch (i\<lparr>m_Registry := q\<rparr>))
        (text_loop ?cf sx fuel (drop k input)) =
      bindR (if ch = 0 then Inr i else put_char ?cf sx ch (i\<lparr>m_Registry := q\<rparr>)) (\<lambda>j.
        text_loop ?cf sx fuel (drop k input) (j\<lparr>m_Registry := q\<rparr>))"
    proof (cases "ch = 0")
      case False
      have "j\<lparr>m_Registry := q\<rparr> = j" if "put_char ?cf sx ch (i\<lparr>m_Registry := q\<rparr>) = Inr j" for j
        using put_char_registry [OF that] by simp
      with False show ?thesis by (cases "put_char ?cf sx ch (i\<lparr>m_Registry := q\<rparr>)") auto
    qed simp
    show ?thesis
    proof (cases "k \<le> length input")
      case True
      then show ?thesis
        using False a same
        by (subst text_loop.simps, subst reg.each_char.simps)
          (simp add: bindR_assoc Suc.IH assertR_def split del: if_split cong: if_cong)
    next
      case long: False
      with False a show ?thesis
        by (subst text_loop.simps, subst reg.each_char.simps) (simp add: assertR_def)
    qed
  qed
qed

lemma text_loop_safe:
  assumes i: "interp_core i" and reg: "reg_inv (Rep_lawful_cf x) (length input + n) (m_Registry i)"
    and short: "short_sequences (Rep_lawful_cf x) input"
  shows "\<exists>i'. text_loop (Rep_lawful_cf x) sx (length input) input i = Inr i' \<and> interp_core i'
    \<and> reg_inv (Rep_lawful_cf x) n (m_Registry i')"
proof -
  let ?f = "\<lambda>ch r j. put_char (Rep_lawful_cf x) sx ch (j\<lparr>m_Registry := r\<rparr>)"
  have "\<exists>j'. ?f ch r j = Inr j' \<and> interp_core j'" if "interp_core j" for ch r j
    using safe_put_char [of "j\<lparr>m_Registry := r\<rparr>" "Rep_lawful_cf x" sx ch] that by (auto simp: safe_step_def keeps_core_def)
  from reg.each_char_ends [where P = interp_core and f = ?f, OF this reg le_refl i short]
  obtain r j where "reg.each_char x (length input) ?f input (m_Registry i) i = Inr (r, j)"
    "reg_inv (Rep_lawful_cf x) n r" "interp_core j" by auto
  with text_loop_each_char [where i = i and r = "m_Registry i" and fuel = "length input" and input = input] show ?thesis
    by simp
qed

lemma GetCh_ok:
  assumes ok: "screen_ok s"
  shows "\<exists>c. GetCh s = Inr c"
proof -
  note s = screen_okD [OF ok]
  have "LineFromNo (m_PosY s) (m_Buffer s) = Inr (row_span (m_Buffer s) (nat (m_PosY s)))"
    using LineFromNo_row s by simp
  moreover have "span_get (row_span (m_Buffer s) (nat (m_PosY s))) (m_PosX s) (m_Buffer s)
      = Inr (row (m_Buffer s) (nat (m_PosY s)) ! nat (m_PosX s))"
    using s by (intro row_get(1)) auto
  ultimately show ?thesis by (simp add: GetCh_def)
qed

lemma append_to_current_safe:
  assumes i: "interp_core i" and reg: "reg_inv (Rep_lawful_cf x) (Suc n) (m_Registry i)"
    and input: "input \<noteq> []"
  shows "\<exists>rest i'. append_to_current (Rep_lawful_cf x) input i = Inr (rest, i') \<and> interp_core i'
    \<and> (\<exists>k. rest = drop k input) \<and> reg_inv (Rep_lawful_cf x) n (m_Registry i')"
proof -
  let ?cf = "Rep_lawful_cf x"
  obtain c where c: "GetCh (m_Screen i) = Inr c" using GetCh_ok [OF interp_coreD(1) [OF i]] by blast
  show ?thesis
  proof (cases "c \<noteq> 0 \<and> c \<noteq> MultiCellGlyph")
    case False
    with c i reg.inv_mono [OF reg] show ?thesis
      by (auto simp: append_to_current_def intro: exI [of _ 0])
  next
    case True
    then obtain ch k r where a: "Append ?cf input c (m_Registry i) = Inr ((ch, k), r)"
      "k \<le> length input" "k \<noteq> 0 \<longrightarrow> ch \<noteq> c" "reg_inv ?cf n r"
      using reg.append_to [OF reg input, of c] by blast
    let ?j = "i\<lparr>m_Registry := r\<rparr>"
    have "safe_step ?j (with_screen (PutCh (IsDoubleWidth ?cf r) ch) ?j)"
      using i by (intro safe_with_screen PutCh_keeps) (simp_all add: interp_coreD(1))
    then obtain j' where "with_screen (PutCh (IsDoubleWidth ?cf r) ch) ?j = Inr j'" "keeps_core ?j j'"
      by (auto simp: safe_step_def)
    with True c a i show ?thesis
      by (auto simp: append_to_current_def assertR_def Let_def dest: keeps_coreD intro: exI [of _ 0])
  qed
qed

text \<open>What the text of a command may come to, by the translation in force.\<close>

definition translated_texts :: "CF \<Rightarrow> bytes \<Rightarrow> u16 list list" where
  "translated_texts cf t = ConvertUTF8ToUTF16 cf t #
     map (\<lambda>m. ApplyTranslateMap m (ConvertUTF8ToUTF16 cf t)) g_TranslateMaps"

lemma translated_texts_length:
  assumes "cf_ok cf" "us \<in> set (translated_texts cf t)" shows "length us \<le> length t"
proof -
  have "length (ConvertUTF8ToUTF16 cf t) \<le> length t"
    using assms(1) by (auto simp: ConvertUTF8ToUTF16_def cf_ok_def split: option.splits)
  with assms(2) show ?thesis by (auto simp: translated_texts_def)
qed

definition text_limits :: "CF \<Rightarrow> bytes \<Rightarrow> bool" where
  "text_limits cf t \<longleftrightarrow> list_all (short_sequences cf) (translated_texts cf t)"

lemma ProcessText_safe:
  assumes i: "interp_ok (Rep_lawful_cf x) (Suc (length t) + n) i" and t: "text_limits (Rep_lawful_cf x) t"
  shows "\<exists>i'. ProcessText (Rep_lawful_cf x) t i = Inr i' \<and> interp_ok (Rep_lawful_cf x) n i'"
proof -
  let ?cf = "Rep_lawful_cf x"
  define input where "input = (case m_TranslateMap i of None \<Rightarrow> ConvertUTF8ToUTF16 ?cf t
    | Some k \<Rightarrow> ApplyTranslateMap (g_TranslateMaps ! k) (ConvertUTF8ToUTF16 ?cf t))"
  have core: "interp_core i" and reg: "reg_inv ?cf (Suc (length t) + n) (m_Registry i)"
    using i by (simp_all add: interp_ok_def)
  have input: "input \<in> set (translated_texts ?cf t)"
  proof (cases "m_TranslateMap i")
    case (Some k)
    then have "k < length g_TranslateMaps" using core by (simp add: interp_core_def map_ok_def g_TranslateMaps_def)
    then have "g_TranslateMaps ! k \<in> set g_TranslateMaps" by (rule nth_mem)
    with Some show ?thesis by (simp add: input_def translated_texts_def)
  qed (simp add: input_def translated_texts_def)
  have len: "length input \<le> length t" by (rule translated_texts_length [OF lawful input])
  have short: "short_sequences ?cf input" using t input by (simp add: text_limits_def list_all_iff)
  show ?thesis
  proof (cases "input = []")
    case True
    with core reg.inv_less [OF reg, of n] show ?thesis
      by (simp add: ProcessText_def Let_def input_def [symmetric] interp_ok_def)
  next
    case False
    have "reg_inv ?cf (Suc (length t + n)) (m_Registry i)" using reg by simp
    from append_to_current_safe [OF core this False] obtain rest j k where j:
      "append_to_current ?cf input i = Inr (rest, j)" "interp_core j" "rest = drop k input"
      "reg_inv ?cf (length t + n) (m_Registry j)" by blast
    have "length rest + n \<le> length t + n" using j(3) len by simp
    have rest: "short_sequences ?cf rest" unfolding j(3) by (rule short_sequences_drop [OF short])
    have "reg_inv ?cf (length rest + n) (m_Registry j)" by (rule reg.inv_less [OF j(4)]) fact
    from text_loop_safe [OF j(2) this rest] obtain i' where
      "text_loop ?cf (Width (m_Screen j)) (length rest) rest j = Inr i'" "interp_core i'"
      "reg_inv ?cf n (m_Registry i')" by blast
    with False j(1) show ?thesis
      by (simp add: ProcessText_def Let_def input_def [symmetric] interp_ok_def)
  qed
qed

section \<open>Every command\<close>

text \<open>
  What the interpreter relies on beyond the payload that fits the type: coordinates far from the
  ends of \<open>int\<close>, counts of characters that are not negative as \<open>int\<close>, no insert mode, and text whose
  composed sequences fit into the registry's buffers.
\<close>

definition cmd_limits :: "CF \<Rightarrow> Command \<Rightarrow> bool" where
  "cmd_limits cf c \<longleftrightarrow> (case payload c of
      P_UTF8Text t \<Rightarrow> text_limits cf t
    | P_CursorMovement m \<Rightarrow> pred_option small (cm_x m) \<and> pred_option small (cm_y m)
    | P_unsigned n \<Rightarrow> cmd_type c \<in> {T_delete_characters, T_insert_characters} \<longrightarrow> 0 \<le> sint n
    | P_ScrollingRegion r \<Rightarrow> pred_option (\<lambda>r. range_top r < INT_MAX) r
    | P_ModeChange m \<Rightarrow> \<not> (mc_mode m = Mode_Insert \<and> mc_status m)
    | _ \<Rightarrow> True)"

definition safe_cmd :: "CF \<Rightarrow> Command \<Rightarrow> bool" where
  "safe_cmd cf c \<longleftrightarrow> payload_fits c \<and> cmd_limits cf c"

definition cmd_cost :: "Command \<Rightarrow> nat" where
  "cmd_cost c = (case payload c of P_UTF8Text t \<Rightarrow> Suc (length t) | _ \<Rightarrow> 0)"

lemma safe_command:
  assumes i: "interp_core i" and c: "safe_cmd cf c" and not_text: "cmd_type c \<noteq> T_text"
  shows "safe_step i (InterpretSingleCommand cf i c)"
proof (cases "cmd_type c")
  case T_text
  with not_text show ?thesis by simp
next
  case T_set_scrolling_region
  then obtain r where "payload c = P_ScrollingRegion r"
    "pred_option (\<lambda>r. in_int (range_top r) \<and> in_int (range_bottom r)) r"
    "pred_option (\<lambda>r. range_top r < INT_MAX) r"
    using c by (auto simp: safe_cmd_def cmd_limits_def payload_fits_def)
  with T_set_scrolling_region i show ?thesis
    by (cases r) (auto simp: InterpretSingleCommand_def in_int_def intro!: safe_SetScrollingRegion)
next
  case T_change_mode
  with c i show ?thesis
    by (auto simp: InterpretSingleCommand_def safe_cmd_def cmd_limits_def payload_fits_def intro!: safe_ChangeMode)
next
  case T_move_cursor
  with c i show ?thesis
    by (auto simp: InterpretSingleCommand_def safe_cmd_def cmd_limits_def payload_fits_def intro!: safe_MC)
next
  case T_delete_characters
  with c i show ?thesis
    by (auto simp: InterpretSingleCommand_def safe_cmd_def cmd_limits_def payload_fits_def intro!: safe_Characters)
next
  case T_insert_characters
  with c i show ?thesis
    by (auto simp: InterpretSingleCommand_def safe_cmd_def cmd_limits_def payload_fits_def intro!: safe_Characters)
qed (use c i in \<open>auto simp: InterpretSingleCommand_def safe_cmd_def cmd_limits_def payload_fits_def
      intro!: interp_intros keeps_ChangeTitle\<close>)

lemma interpret_command_safe:
  assumes i: "interp_ok (Rep_lawful_cf x) n i" and c: "safe_cmd (Rep_lawful_cf x) c" and n: "cmd_cost c \<le> n"
  shows "\<exists>i'. InterpretSingleCommand (Rep_lawful_cf x) i c = Inr i'
    \<and> interp_ok (Rep_lawful_cf x) (n - cmd_cost c) i'"
proof (cases "cmd_type c = T_text")
  case True
  then obtain t where t: "payload c = P_UTF8Text t" "text_limits (Rep_lawful_cf x) t" using c by (auto simp: safe_cmd_def cmd_limits_def payload_fits_def)
  with n have "interp_ok (Rep_lawful_cf x) (Suc (length t) + (n - cmd_cost c)) i"
    using i by (simp add: cmd_cost_def)
  from ProcessText_safe [OF this t(2)] True t show ?thesis by (simp add: InterpretSingleCommand_def)
next
  case False
  have core: "interp_core i" and reg: "reg_inv (Rep_lawful_cf x) n (m_Registry i)"
    using i by (simp_all add: interp_ok_def)
  from safe_command [OF core c False] obtain i' where i':
    "InterpretSingleCommand (Rep_lawful_cf x) i c = Inr i'" "interp_core i'" "m_Registry i' = m_Registry i"
    by (auto simp: safe_step_def keeps_core_def)
  have "reg_inv (Rep_lawful_cf x) (n - cmd_cost c) (m_Registry i)" by (rule reg.inv_less [OF reg]) simp
  with i' show ?thesis by (simp add: interp_ok_def)
qed

interpretation ti: safe_machine "InterpretSingleCommand (Rep_lawful_cf x)" "interp_ok (Rep_lawful_cf x)"
    "safe_cmd (Rep_lawful_cf x)" cmd_cost for x
  by standard (rule interpret_command_safe)

end
