(* ===== verification/ScreenTheorems.thy ===== *)
theory ScreenTheorems
  imports ScreenProps
begin

text \<open>
  The properties of the screen: what the visible operations do to the lines, the cells, the wrap
  flags and the scrollback of a well-formed screen, stated cell by cell or line by line, that
  the alternate screen and the insertion of cells can be undone, that a resize keeps the text,
  and the two places where the code leaves its allocations or throws.
\<close>

section \<open>Points in reading order\<close>

instantiation ScreenPoint_ext :: (linorder) linorder
begin

definition less_eq_ScreenPoint_ext :: "'a ScreenPoint_scheme \<Rightarrow> 'a ScreenPoint_scheme \<Rightarrow> bool" where
  "less_eq_ScreenPoint_ext a b \<longleftrightarrow> pt_y a < pt_y b \<or> (pt_y a = pt_y b \<and>
     (pt_x a < pt_x b \<or> (pt_x a = pt_x b \<and> ScreenPoint.more a \<le> ScreenPoint.more b)))"

definition less_ScreenPoint_ext :: "'a ScreenPoint_scheme \<Rightarrow> 'a ScreenPoint_scheme \<Rightarrow> bool" where
  "less_ScreenPoint_ext a b \<longleftrightarrow> a \<le> b \<and> \<not> b \<le> a"

instance
  by standard (auto simp: less_eq_ScreenPoint_ext_def less_ScreenPoint_ext_def)

end

text \<open>
  The comparison operators of \<open>ScreenPoint\<close>, two of which are written as negations of the
  other two, are one total order: the reading order, line by line and left to right.
\<close>

theorem ScreenPoint_order:
  fixes a b :: ScreenPoint
  shows "(pt_lt a b \<longleftrightarrow> a < b) \<and> (pt_le a b \<longleftrightarrow> a \<le> b) \<and> (pt_gt a b \<longleftrightarrow> b < a) \<and> (pt_ge a b \<longleftrightarrow> b \<le> a)
    \<and> (pt_lt a b \<longleftrightarrow> (pt_y a, pt_x a) \<noteq> (pt_y b, pt_x b)
         \<and> (pt_y a < pt_y b \<or> pt_y a = pt_y b \<and> pt_x a < pt_x b))"
  by (auto simp: pt_lt_def pt_le_def pt_gt_def pt_ge_def less_eq_ScreenPoint_ext_def
      less_ScreenPoint_ext_def)

section \<open>Attributes\<close>

lemma attribute_mask: "bit (0x3FFFFFF00000000 :: 64 word) n \<longleftrightarrow> 32 \<le> n \<and> n < 58"
proof -
  have "(0x3FFFFFF00000000 :: 64 word) = push_bit 32 (mask 26)" by (simp add: mask_numeral)
  then show ?thesis by (simp only: bit_push_bit_iff bit_mask_iff) auto
qed

lemma bit_at_bit: "bit (bit_at b k) n \<longleftrightarrow> b \<and> n = k \<and> n < 64"
  by (auto simp: bit_at_def bit_simps)

lemma bit_u8: "bit (w :: u8) n \<Longrightarrow> n < 8" "bit (v :: u32) n \<Longrightarrow> n < 32"
  using bit_imp_le_length [of w n] bit_imp_le_length [of v n] by simp_all

lemma bits_fg: "k < 8 \<Longrightarrow> bit (Space_bits s) (k + 32) \<longleftrightarrow> bit (sp_foreground s) k"
  using bit_u8(2) [of "sp_l s" "k + 32"]
  unfolding Space_bits_def bit_or_iff bit_at_bit bit_push_bit_iff bit_ucast_iff by auto

lemma bits_bg: "k < 8 \<Longrightarrow> bit (Space_bits s) (k + 40) \<longleftrightarrow> bit (sp_background s) k"
  using bit_u8(2) [of "sp_l s" "k + 40"] bit_u8(1) [of "sp_foreground s" "8 + k"]
  unfolding Space_bits_def bit_or_iff bit_at_bit bit_push_bit_iff bit_ucast_iff by auto

lemma bits_flag:
  assumes "48 \<le> n" and "n < 58"
  shows "bit (Space_bits s) n \<longleftrightarrow> [sp_customfg s, sp_custombg s, sp_faint s, sp_underline s,
    sp_crossed s, sp_reverse s, sp_bold s, sp_italic s, sp_invisible s, sp_blink s] ! (n - 48)"
proof -
  have no: "\<not> bit (sp_l s) n" "\<not> bit (sp_foreground s) (n - 32)" "\<not> bit (sp_background s) (n - 40)"
    using assms bit_u8(2) [of "sp_l s" "n"] bit_u8(1) [of "sp_foreground s" "n - 32"]
      bit_u8(1) [of "sp_background s" "n - 40"] by force+
  have "n \<in> {48, 49, 50, 51, 52, 53, 54, 55, 56, 57}" using assms by simp presburger
  then show ?thesis
    using no unfolding Space_bits_def bit_or_iff bit_at_bit bit_push_bit_iff bit_ucast_iff
    by (elim insertE emptyE) simp_all
qed

lemma bits_not_char:
  "32 \<le> n \<Longrightarrow> bit (Space_bits (s\<lparr>sp_l := c\<rparr>)) n \<longleftrightarrow> bit (Space_bits s) n"
  using bit_u8(2) [of "sp_l s" n] bit_u8(2) [of c n]
  unfolding Space_bits_def bit_or_iff bit_ucast_iff by auto

lemma masked_eq:
  "HaveSameAttributes a b \<longleftrightarrow> (\<forall>n. 32 \<le> n \<and> n < 58 \<longrightarrow> bit (Space_bits a) n = bit (Space_bits b) n)"
  unfolding HaveSameAttributes_def Let_def bit_eq_iff bit_and_iff attribute_mask
  by (rule iff_allI) (auto simp: possible_bit_def)

text \<open>
  Two cells have the same attributes, by the masked comparison of their bytes, exactly when
  all their fields other than the character are equal.
\<close>

theorem HaveSameAttributes_iff:
  "HaveSameAttributes a b \<longleftrightarrow> a\<lparr>sp_l := 0\<rparr> = b\<lparr>sp_l := 0\<rparr>"
proof
  assume e: "a\<lparr>sp_l := 0\<rparr> = b\<lparr>sp_l := 0\<rparr>"
  show "HaveSameAttributes a b"
    unfolding masked_eq
    using bits_not_char [where s = a and c = 0] bits_not_char [where s = b and c = 0] e by simp
next
  assume "HaveSameAttributes a b"
  then have same: "bit (Space_bits a) n = bit (Space_bits b) n" if "32 \<le> n" "n < 58" for n
    using that masked_eq by blast
  have "bit (sp_foreground a) n = bit (sp_foreground b) n" if "n < 8" for n
    using same [of "n + 32"] that by (simp add: bits_fg)
  then have "sp_foreground a = sp_foreground b" by (intro bit_word_eqI) simp
  moreover have "bit (sp_background a) n = bit (sp_background b) n" if "n < 8" for n
    using same [of "n + 40"] that by (simp add: bits_bg)
  then have "sp_background a = sp_background b" by (intro bit_word_eqI) simp
  moreover note same [of 48] same [of 49] same [of 50] same [of 51] same [of 52] same [of 53]
    same [of 54] same [of 55] same [of 56] same [of 57]
  ultimately show "a\<lparr>sp_l := 0\<rparr> = b\<lparr>sp_l := 0\<rparr>"
    by (cases a; cases b) (simp add: bits_flag)
qed

section \<open>Scrolling\<close>

text \<open>A screen of three letters per line, for the witnesses.\<close>

definition letter :: "u32 \<Rightarrow> Space" where
  "letter c = DefaultEraseChar\<lparr>sp_l := c\<rparr>"

definition demo_screen :: Screen where
  "demo_screen = (let s = Screen_init 3 2 in
     s\<lparr>m_Buffer := put_row 1 0 (map letter [68, 69, 70]) (put_row 0 0 (map letter [65, 66, 67]) (m_Buffer s)),
       m_PosX := 1, m_PosY := 1\<rparr>)"

lemma demo_ok: "screen_ok demo_screen"
proof -
  have "screen_ok (Screen_init 3 2)" by (rule screen_ok_init) simp_all
  moreover have "Width (Screen_init 3 2) = 3 \<and> Height (Screen_init 3 2) = 2"
    by (simp add: Screen_init_def GoToDefaultPosition_def ScreenBuffer_init_def)
  ultimately show ?thesis
    by (simp add: screen_ok_def demo_screen_def Let_def)
qed

lemma sint_u32_one [simp]: "sint (1 :: u32) = 1"
  by code_simp

lemma demo_sel [simp]:
  "m_Width (m_Buffer demo_screen) = 3" "m_Height (m_Buffer demo_screen) = 2" "m_PosX demo_screen = 1" "m_PosY demo_screen = 1"
  "m_AlternateScreen demo_screen = False"
  by (simp_all add: demo_screen_def Let_def Screen_init_def GoToDefaultPosition_def ScreenBuffer_init_def)

text \<open>
  C22: scrolling up a range of lines by any positive count, on a well-formed screen, has no fault
  and keeps the screen well formed: inside the range every line is replaced, with its wrap flag,
  by the one \<open>n\<close> below it or by a blank line, outside of it nothing changes, and only a
  scroll of the whole primary screen feeds the lines that leave to the scrollback.
\<close>

theorem DoScrollUp_lines:
  assumes "screen_ok s" and "scroll_args t b n s"
  shows "\<exists>s'. DoScrollUp t b n s = Inr s' \<and> screen_ok s'
    \<and> m_PosX s' = m_PosX s \<and> m_PosY s' = m_PosY s
    \<and> length (screen_lines (m_Buffer s')) = m_Height (m_Buffer s)
    \<and> (\<forall>i < m_Height (m_Buffer s). screen_lines (m_Buffer s') ! i =
        (if sint t \<le> int i \<and> int i < scroll_bottom b s then
           if int i + sint n < scroll_bottom b s
           then screen_lines (m_Buffer s) ! (i + nat (sint n)) else blank_line s
         else screen_lines (m_Buffer s) ! i))
    \<and> back_lines (m_Buffer s') = back_lines (m_Buffer s) @
        (if sint t = 0 \<and> scroll_bottom b s = Height s \<and> \<not> m_AlternateScreen s
         then take (nat (sint n)) (screen_lines (m_Buffer s)) else [])"
proof -
  from scroll_up_eff [OF assms] obtain c where c:
    "DoScrollUp t b n s = Inr (s\<lparr>m_Buffer := c\<rparr>)" "same_frame (m_Buffer s) c"
    "screen_lines c = scrolled_up (nat (sint t)) (nat (scroll_bottom b s)) (nat (sint n))
        (blank_line s) (screen_lines (m_Buffer s))"
    "back_lines c = back_lines (m_Buffer s) @ scrolled_off t b n s" by blast
  have b: "nat (sint t) \<le> nat (scroll_bottom b s)"
      "nat (scroll_bottom b s) \<le> length (screen_lines (m_Buffer s))"
    using assms screen_okD(1) [OF assms(1)] by (auto simp: scroll_args_def scroll_bottom_def)
  show ?thesis
    using assms b screen_okD(1) [OF assms(1)] screen_ok_buffer [OF assms(1) c(2)]
    by (intro exI [of _ "s\<lparr>m_Buffer := c\<rparr>"])
      (auto simp: c nth_scrolled_up scrolled_off_def scroll_args_def nat_le_iff zless_nat_eq_int_zless)
qed

theorem DoScrollUp_lines_witness:
  "\<exists>s'. DoScrollUp 0 2 1 demo_screen = Inr s'
     \<and> screen_lines (m_Buffer s') ! 0 = screen_lines (m_Buffer demo_screen) ! 1
     \<and> length (back_lines (m_Buffer s')) = Suc (length (back_lines (m_Buffer demo_screen)))"
proof -
  have "scroll_args 0 2 1 demo_screen"
    by (simp add: scroll_args_def scroll_bottom_def in_int_def)
  moreover have "2 \<le> length (screen_lines (m_Buffer demo_screen))"
    using screen_okD(1) [OF demo_ok] by simp
  ultimately show ?thesis
    using DoScrollUp_lines [OF demo_ok, of 0 2 1]
    by (auto simp: scroll_bottom_def simp del: length_back_lines)
qed

text \<open>
  Scrolling down a range of lines, the mirror image, never touches the scrollback.
\<close>

theorem ScrollDown_lines:
  assumes "screen_ok s" and "scroll_args t b n s"
  shows "\<exists>s'. ScrollDown t b n s = Inr s' \<and> screen_ok s'
    \<and> m_PosX s' = m_PosX s \<and> m_PosY s' = m_PosY s
    \<and> length (screen_lines (m_Buffer s')) = m_Height (m_Buffer s)
    \<and> (\<forall>i < m_Height (m_Buffer s). screen_lines (m_Buffer s') ! i =
        (if sint t \<le> int i \<and> int i < scroll_bottom b s then
           if sint t + sint n \<le> int i
           then screen_lines (m_Buffer s) ! (i - nat (sint n)) else blank_line s
         else screen_lines (m_Buffer s) ! i))
    \<and> back_lines (m_Buffer s') = back_lines (m_Buffer s)"
proof -
  from scroll_down_eff [OF assms] obtain c where c:
    "ScrollDown t b n s = Inr (s\<lparr>m_Buffer := c\<rparr>)" "same_frame (m_Buffer s) c"
    "screen_lines c = scrolled_down (nat (sint t)) (nat (scroll_bottom b s)) (nat (sint n))
        (blank_line s) (screen_lines (m_Buffer s))"
    "back_lines c = back_lines (m_Buffer s)" by blast
  have b: "nat (sint t) \<le> nat (scroll_bottom b s)"
      "nat (scroll_bottom b s) \<le> length (screen_lines (m_Buffer s))"
    using assms screen_okD(1) [OF assms(1)] by (auto simp: scroll_args_def scroll_bottom_def)
  show ?thesis
    using assms b screen_okD(1) [OF assms(1)] screen_ok_buffer [OF assms(1) c(2)]
    by (intro exI [of _ "s\<lparr>m_Buffer := c\<rparr>"])
      (auto simp: c nth_scrolled_down scroll_args_def nat_le_iff zless_nat_eq_int_zless)
qed

theorem ScrollDown_lines_witness:
  "\<exists>s'. ScrollDown 0 2 1 demo_screen = Inr s'
     \<and> screen_lines (m_Buffer s') ! 1 = screen_lines (m_Buffer demo_screen) ! 0"
proof -
  have "scroll_args 0 2 1 demo_screen"
    by (simp add: scroll_args_def scroll_bottom_def in_int_def)
  then show ?thesis
    using ScrollDown_lines [OF demo_ok, of 0 2 1] by (auto simp: scroll_bottom_def)
qed

section \<open>Cells\<close>

definition cell :: "Screen \<Rightarrow> nat \<Rightarrow> nat \<Rightarrow> Space" where
  "cell s x y = row (m_Buffer s) y ! x"

definition wrapped :: "Screen \<Rightarrow> nat \<Rightarrow> bool" where
  "wrapped s y = wraps (m_Buffer s) ! y"

definition cursor :: "Screen \<Rightarrow> ScreenPoint" where
  "cursor s = \<lparr>pt_x = m_PosX s, pt_y = m_PosY s\<rparr>"

text \<open>What an operation on cells leaves alone: the size, the cursor and the scrollback.\<close>

definition same_place :: "Screen \<Rightarrow> Screen \<Rightarrow> bool" where
  "same_place s s' \<longleftrightarrow> Width s' = Width s \<and> Height s' = Height s \<and> cursor s' = cursor s
     \<and> back_lines (m_Buffer s') = back_lines (m_Buffer s)"

lemma screen_lines_at:
  "buf_ok b \<Longrightarrow> y < m_Height b \<Longrightarrow> screen_lines b ! y = (row b y, wraps b ! y)"
  by (simp add: screen_lines_def)

lemma cells_by_lines:
  assumes "buf_ok (m_Buffer s')" and "screen_lines (m_Buffer s') ! y = (r, w)"
    and "y < m_Height (m_Buffer s')"
  shows "cell s' x y = r ! x" "wrapped s' y = w"
  using assms screen_lines_at [of "m_Buffer s'" y] by (simp_all add: cell_def wrapped_def)

definition erased_by :: "int \<Rightarrow> Screen \<Rightarrow> nat \<Rightarrow> nat \<Rightarrow> bool" where
  "erased_by mode s x y \<longleftrightarrow> (let p = \<lparr>pt_x = int x, pt_y = int y\<rparr> in
     if mode = 0 then pt_ge p (cursor s) else if mode = 1 then pt_le p (cursor s) else True)"

lemma nth_erased_cells:
  "x \<le> x' \<Longrightarrow> x' \<le> length r \<Longrightarrow> i < length r \<Longrightarrow>
    erased_cells x x' v r ! i = (if x \<le> i \<and> i < x' then v else r ! i)"
  by (auto simp: erased_cells_def overwrite_def nth_append)

text \<open>
  Erasing the display, from the cursor to the end, from the start to the cursor or the whole,
  has no fault on a well-formed screen and sets exactly the cells of that part, in reading order
  and the cursor's own included, to the erase character; the lines erased by their own loop lose
  their wrap flags, the cursor's line in the second mode keeps it.
\<close>

theorem DoEraseScreen_cells:
  assumes ok: "screen_ok s" and mode: "mode \<in> {0, 1, 2}"
  shows "\<exists>s'. DoEraseScreen mode s = Inr s' \<and> screen_ok s' \<and> same_place s s'
    \<and> (\<forall>x < m_Width (m_Buffer s). \<forall>y < m_Height (m_Buffer s).
         cell s' x y = (if erased_by mode s x y then m_EraseChar s else cell s x y))
    \<and> (\<forall>y < m_Height (m_Buffer s). wrapped s' y = (wrapped s y \<and>
         (mode = 0 \<and> int y < m_PosY s \<or> mode = 1 \<and> m_PosY s \<le> int y)))"
proof -
  let ?b = "m_Buffer s" and ?y = "nat (m_PosY s)" and ?X = "nat (m_PosX s)"
  note ok' = screen_okD [OF ok]
  have row: "length (row ?b i) = m_Width ?b" if "i < m_Height ?b" for i
    using that ok'(1) by simp
  have old: "screen_lines ?b ! i = (row ?b i, wraps ?b ! i)" if "i < m_Height ?b" for i
    using that ok'(1) by (simp add: screen_lines_at)
  have goal: ?thesis if run: "DoEraseScreen mode s = Inr (s\<lparr>m_Buffer := c\<rparr>)"
      and frame: "same_frame ?b c" and bl: "back_lines c = back_lines ?b"
      and lines: "\<And>i. i < m_Height ?b \<Longrightarrow> screen_lines c ! i = (R i, W i)"
      and R: "\<And>i j. i < m_Height ?b \<Longrightarrow> j < m_Width ?b \<Longrightarrow>
        R i ! j = (if erased_by mode s j i then m_EraseChar s else row ?b i ! j)"
      and W: "\<And>i. i < m_Height ?b \<Longrightarrow> W i = (wraps ?b ! i \<and>
         (mode = 0 \<and> int i < m_PosY s \<or> mode = 1 \<and> m_PosY s \<le> int i))" for c R W
  proof -
    have c: "buf_ok c" "m_Height c = m_Height ?b" "m_Width c = m_Width ?b"
      using frame by (simp_all add: same_frame_def)
    have "cell (s\<lparr>m_Buffer := c\<rparr>) x y = R y ! x" "wrapped (s\<lparr>m_Buffer := c\<rparr>) y = W y"
      if "y < m_Height ?b" for x y
      using cells_by_lines [of "s\<lparr>m_Buffer := c\<rparr>" y "R y" "W y"] lines that c by simp_all
    with run screen_ok_buffer [OF ok frame] bl c R W show ?thesis
      by (intro exI [of _ "s\<lparr>m_Buffer := c\<rparr>"])
        (simp add: same_place_def cursor_def cell_def [of s] wrapped_def [of s])
  qed
  consider "mode = 0" | "mode = 1" | "mode = 2" using mode by blast
  then show ?thesis
  proof cases
    case 1
    from erase_below_eff [OF ok] obtain c where "DoEraseScreen 0 s = Inr (s\<lparr>m_Buffer := c\<rparr>)"
      "same_frame ?b c" "back_lines c = back_lines ?b" and l:
      "screen_lines c = take ?y (screen_lines ?b)
        @ (erased_cells ?X (m_Width ?b) (m_EraseChar s) (row ?b ?y), False)
        # replicate (m_Height ?b - ?y - 1) (blank_line s)" by blast
    then show ?thesis using 1 ok' row old
      by (intro goal [of c "\<lambda>i. if i < ?y then row ?b i else if i = ?y then
            erased_cells ?X (m_Width ?b) (m_EraseChar s) (row ?b ?y) else replicate (m_Width ?b) (m_EraseChar s)"
          "\<lambda>i. i < ?y \<and> wraps ?b ! i"])
        (auto simp: l nth_append nth_Cons' nth_erased_cells erased_by_def pt_ge_def cursor_def Let_def
           zless_nat_eq_int_zless nat_le_iff)
  next
    case 2
    from erase_above_eff [OF ok] obtain c where "DoEraseScreen 1 s = Inr (s\<lparr>m_Buffer := c\<rparr>)"
      "same_frame ?b c" "back_lines c = back_lines ?b" and l:
      "screen_lines c = replicate ?y (blank_line s)
        @ (erased_cells 0 (?X + 1) (m_EraseChar s) (row ?b ?y), wraps ?b ! ?y)
        # drop (?y + 1) (screen_lines ?b)" by blast
    then show ?thesis using 2 ok' row old
      by (intro goal [of c "\<lambda>i. if i < ?y then replicate (m_Width ?b) (m_EraseChar s) else if i = ?y then
            erased_cells 0 (?X + 1) (m_EraseChar s) (row ?b ?y) else row ?b i"
          "\<lambda>i. ?y \<le> i \<and> wraps ?b ! i"])
        (auto simp: l nth_append nth_Cons' nth_erased_cells erased_by_def pt_le_def pt_gt_def cursor_def Let_def
           zless_nat_eq_int_zless nat_le_iff)
  next
    case 3
    from erase_all_eff [OF ok] obtain c where "DoEraseScreen 2 s = Inr (s\<lparr>m_Buffer := c\<rparr>)"
      "same_frame ?b c" "back_lines c = back_lines ?b" and l:
      "screen_lines c = replicate (m_Height ?b) (blank_line s)" by blast
    then show ?thesis using 3
      by (intro goal [of c "\<lambda>i. replicate (m_Width ?b) (m_EraseChar s)" "\<lambda>i. False"])
        (auto simp: l erased_by_def Let_def)
  qed
qed

theorem DoEraseScreen_cells_witness:
  "\<exists>s'. DoEraseScreen 1 demo_screen = Inr s' \<and> cell s' 2 0 = m_EraseChar demo_screen
     \<and> cell s' 2 1 = cell demo_screen 2 1"
  using DoEraseScreen_cells [OF demo_ok, of 1]
  by (auto simp: erased_by_def pt_le_def pt_gt_def cursor_def)

text \<open>One row changes: what \<open>row_state\<close> says cell by cell.\<close>

lemma row_state_cells:
  assumes ok: "screen_ok s" and st: "row_state (m_Buffer s) (nat (m_PosY s)) r c"
  shows "screen_ok (s\<lparr>m_Buffer := c\<rparr>)" "same_place s (s\<lparr>m_Buffer := c\<rparr>)"
    "wraps c = wraps (m_Buffer s)"
    "y < m_Height (m_Buffer s) \<Longrightarrow>
      cell (s\<lparr>m_Buffer := c\<rparr>) x y = (if int y = m_PosY s then r ! x else cell s x y)"
proof -
  have y: "nat (m_PosY s) < m_Height (m_Buffer s)" using screen_okD [OF ok] by simp
  have c: "same_frame (m_Buffer s) c" "m_Height c = m_Height (m_Buffer s)"
    "m_Width c = m_Width (m_Buffer s)"
    using st by (simp_all add: row_state_def same_frame_def)
  show "screen_ok (s\<lparr>m_Buffer := c\<rparr>)" by (rule screen_ok_buffer [OF ok c(1)])
  show "same_place s (s\<lparr>m_Buffer := c\<rparr>)" "wraps c = wraps (m_Buffer s)"
    using c st by (simp_all add: same_place_def cursor_def row_state_def)
  assume "y < m_Height (m_Buffer s)"
  moreover have "row c y = rows c ! y" using calculation c by simp
  ultimately show "cell (s\<lparr>m_Buffer := c\<rparr>) x y = (if int y = m_PosY s then r ! x else cell s x y)"
    using st screen_okD [OF ok] by (auto simp: cell_def row_state_def nth_list_update)
qed

text \<open>
  Writing a character on a well-formed screen has no fault: the cell under the cursor gets
  the character with the current attributes, the next cell the multi-cell mark if the character
  is double width and there is a next cell in the line, the line is no longer wrapped, and the
  overflow flag is raised exactly when the line's last cell is taken.
\<close>

theorem PutCh_cells:
  assumes ok: "screen_ok s"
  shows "\<exists>s'. PutCh dw ch s = Inr s' \<and> screen_ok s' \<and> same_place s s'
    \<and> (\<forall>x < m_Width (m_Buffer s). \<forall>y < m_Height (m_Buffer s). cell s' x y =
        (if (int x, int y) = (m_PosX s, m_PosY s) then (m_EraseChar s)\<lparr>sp_l := ch\<rparr>
         else if dw ch \<and> (int x, int y) = (m_PosX s + 1, m_PosY s)
         then (m_EraseChar s)\<lparr>sp_l := MultiCellGlyph\<rparr>
         else cell s x y))
    \<and> (\<forall>y < m_Height (m_Buffer s). wrapped s' y = (wrapped s y \<and> int y \<noteq> m_PosY s))
    \<and> (m_LineOverflown s' \<longleftrightarrow> m_LineOverflown s
         \<or> m_PosX s + (if dw ch \<and> m_PosX s + 1 < Width s then 2 else 1) = Width s)"
proof -
  let ?b = "m_Buffer s" and ?y = "nat (m_PosY s)"
  note ok' = screen_okD [OF ok]
  from PutCh_eff [OF ok, of dw ch] obtain c where c:
    "PutCh dw ch s = Inr (s\<lparr>m_Buffer := c, m_LineOverflown := put_overflows (dw ch) s \<or> m_LineOverflown s\<rparr>)"
    "same_frame ?b c" "back_lines c = back_lines ?b"
    "rows c = (rows ?b)[?y := put_cells (nat (m_PosX s)) (dw ch) ((m_EraseChar s)\<lparr>sp_l := ch\<rparr>) (row ?b ?y)]"
    "wraps c = (wraps ?b)[?y := False]" by blast
  have h: "m_Height c = m_Height ?b" "m_Width c = m_Width ?b"
    using c(2) by (simp_all add: same_frame_def)
  have row: "row c y = (rows c) ! y" if "y < m_Height ?b" for y using that h by simp
  have cells: "put_cells (nat (m_PosX s)) (dw ch) ((m_EraseChar s)\<lparr>sp_l := ch\<rparr>) (row ?b ?y) ! x =
      (if int x = m_PosX s then (m_EraseChar s)\<lparr>sp_l := ch\<rparr>
       else if dw ch \<and> int x = m_PosX s + 1 then (m_EraseChar s)\<lparr>sp_l := MultiCellGlyph\<rparr>
       else row ?b ?y ! x)" if "x < m_Width ?b" for x
    using ok' that by (auto simp: put_cells_def Let_def nth_list_update)
  show ?thesis
  proof (intro exI conjI)
    let ?s = "s\<lparr>m_Buffer := c, m_LineOverflown := put_overflows (dw ch) s \<or> m_LineOverflown s\<rparr>"
    show "PutCh dw ch s = Inr ?s" by (rule c(1))
    show "screen_ok ?s" using screen_ok_buffer [OF ok c(2)] by simp
    show "same_place s ?s" using c h by (simp add: same_place_def cursor_def)
    show "\<forall>x < m_Width ?b. \<forall>y < m_Height ?b. cell ?s x y =
        (if (int x, int y) = (m_PosX s, m_PosY s) then (m_EraseChar s)\<lparr>sp_l := ch\<rparr>
         else if dw ch \<and> (int x, int y) = (m_PosX s + 1, m_PosY s)
         then (m_EraseChar s)\<lparr>sp_l := MultiCellGlyph\<rparr> else cell s x y)"
    proof (intro allI impI)
      fix x y assume "x < m_Width ?b" "y < m_Height ?b"
      then show "cell ?s x y = (if (int x, int y) = (m_PosX s, m_PosY s) then (m_EraseChar s)\<lparr>sp_l := ch\<rparr>
         else if dw ch \<and> (int x, int y) = (m_PosX s + 1, m_PosY s)
         then (m_EraseChar s)\<lparr>sp_l := MultiCellGlyph\<rparr> else cell s x y)"
        using row [of y] cells [of x] ok' c(4) by (cases "y = ?y") (auto simp: cell_def)
    qed
    show "\<forall>y < m_Height ?b. wrapped ?s y = (wrapped s y \<and> int y \<noteq> m_PosY s)"
      using c(5) ok' by (auto simp: wrapped_def nth_list_update)
    show "m_LineOverflown ?s \<longleftrightarrow> m_LineOverflown s
         \<or> m_PosX s + (if dw ch \<and> m_PosX s + 1 < Width s then 2 else 1) = Width s"
      using ok' by (auto simp: put_overflows_def)
  qed
qed

theorem PutCh_cells_witness:
  "\<exists>s'. PutCh (\<lambda>_. True) 0x4E2D demo_screen = Inr s' \<and> sp_l (cell s' 2 1) = MultiCellGlyph
     \<and> m_LineOverflown s' \<and> cell s' 0 1 = cell demo_screen 0 1"
  using PutCh_cells [OF demo_ok, of "\<lambda>_. True" "0x4E2D"] by auto

text \<open>
  Inserting cells at the cursor, up to the end of the line, shifts the rest of the line to
  the right, and deleting as many shifts it back: the pair has no fault and leaves every cell of
  the screen as it was, except the last \<open>n\<close> of the line, which are erased.
\<close>

theorem insert_delete_cells:
  assumes ok: "screen_ok s" and n: "0 \<le> n" "m_PosX s + n \<le> Width s"
  shows "\<exists>s1 s2. DoShiftRowRight n s = Inr s1 \<and> DoShiftRowLeft n s1 = Inr s2
    \<and> screen_ok s1 \<and> screen_ok s2 \<and> same_place s s1 \<and> same_place s s2
    \<and> (\<forall>x < m_Width (m_Buffer s). \<forall>y < m_Height (m_Buffer s).
        cell s1 x y = (if int y \<noteq> m_PosY s \<or> int x < m_PosX s then cell s x y
           else if int x < m_PosX s + n then m_EraseChar s else cell s (x - nat n) y)
        \<and> cell s2 x y = (if int y = m_PosY s \<and> Width s - n \<le> int x then m_EraseChar s
           else cell s x y))"
proof -
  let ?b = "m_Buffer s" and ?y = "nat (m_PosY s)" and ?X = "nat (m_PosX s)" and ?W = "m_Width (m_Buffer s)"
  note ok' = screen_okD [OF ok]
  from shift_right_eff [OF ok n] obtain c1 where c1: "DoShiftRowRight n s = Inr (s\<lparr>m_Buffer := c1\<rparr>)"
    "row_state ?b ?y (inserted_cells ?X (nat n) (m_EraseChar s) (row ?b ?y)) c1" by blast
  let ?s1 = "s\<lparr>m_Buffer := c1\<rparr>"
  note s1 = row_state_cells [OF ok c1(2)]
  have h1: "m_Width c1 = ?W" "m_Height c1 = m_Height ?b"
    using c1(2) by (simp_all add: row_state_def same_frame_def)
  have "m_PosX ?s1 + n \<le> Width ?s1" using n h1 by simp
  from shift_left_eff [OF s1(1) n(1) this] obtain c2 where
    c2: "DoShiftRowLeft n ?s1 = Inr (s\<lparr>m_Buffer := c2\<rparr>)"
    "row_state c1 ?y (deleted_cells ?X (nat n) (m_EraseChar s) (row c1 ?y)) c2" by auto
  have s2: "screen_ok (s\<lparr>m_Buffer := c2\<rparr>)" "same_place ?s1 (s\<lparr>m_Buffer := c2\<rparr>)"
    "y < m_Height c1 \<Longrightarrow> cell (s\<lparr>m_Buffer := c2\<rparr>) x y =
      (if int y = m_PosY s then deleted_cells ?X (nat n) (m_EraseChar s) (row c1 ?y) ! x
       else cell ?s1 x y)" for x y
    using row_state_cells [OF s1(1), where c = c2] c2(2) by simp_all
  have r1: "row c1 ?y = inserted_cells ?X (nat n) (m_EraseChar s) (row ?b ?y)"
    using row_state_row(1) [OF c1(2)] ok' by simp
  have len: "length (row ?b ?y) = ?W" "?X + nat n \<le> ?W" using ok' n by simp_all
  have "cell ?s1 x y = (if int y \<noteq> m_PosY s \<or> int x < m_PosX s then cell s x y
           else if int x < m_PosX s + n then m_EraseChar s else cell s (x - nat n) y)
      \<and> cell (s\<lparr>m_Buffer := c2\<rparr>) x y = (if int y = m_PosY s \<and> Width s - n \<le> int x then m_EraseChar s
           else cell s x y)"
    if xy: "x < ?W" "y < m_Height ?b" for x y
  proof (cases "y = ?y")
    case True
    then have y: "int y = m_PosY s" using ok' by simp
    show ?thesis
      using xy y True len n s1(4) [of y x] s2(3) [of y x] h1 ok'
      by (auto simp: r1 nth_inserted_cells nth_deleted_cells cell_def)
  next
    case False
    then have "int y \<noteq> m_PosY s" using ok' by auto
    then show ?thesis using xy s1(4) [of y x] s2(3) [of y x] h1 by simp
  qed
  moreover have "same_place s (s\<lparr>m_Buffer := c2\<rparr>)"
    using s1(2) s2(2) by (simp add: same_place_def cursor_def)
  ultimately show ?thesis using c1(1) c2(1) s1(1,2) s2(1) by blast
qed

theorem insert_delete_cells_witness:
  "\<exists>s1 s2. DoShiftRowRight 1 demo_screen = Inr s1 \<and> DoShiftRowLeft 1 s1 = Inr s2
     \<and> cell s1 2 1 = cell demo_screen 1 1 \<and> cell s2 1 1 = cell demo_screen 1 1"
  using insert_delete_cells [OF demo_ok, of 1] by auto

section \<open>The alternate screen\<close>

lemma CaptureScreen_ok:
  "screen_ok s \<Longrightarrow> CaptureScreen s = Inr \<lparr>saved_snapshot = \<lparr>snap_width = m_Width (m_Buffer s),
      snap_height = m_Height (m_Buffer s), snap_chars = m_OnScreenSpaces (m_Buffer s)\<rparr>,
      saved_pos_x = m_PosX s, saved_pos_y = m_PosY s\<rparr>"
  by (simp add: CaptureScreen_def MakeSnapshot_ok screen_okD)

text \<open>
  Entering the alternate screen from the primary one moves the cursor home and keeps the
  primary screen aside; whatever is done to the alternate screen meanwhile, as long as the size
  is the same on return, leaving it puts back every cell of the primary screen and its cursor.
  The wrap flags are not part of what is kept: they are those the alternate screen left.
\<close>

theorem SetAlternateScreen_roundtrip:
  assumes ok: "screen_ok s" and prim: "\<not> m_AlternateScreen s"
  shows "\<exists>s1. SetAlternateScreen True s = Inr s1 \<and> screen_ok s1 \<and> m_AlternateScreen s1
    \<and> cursor s1 = \<lparr>pt_x = 0, pt_y = 0\<rparr>
    \<and> (\<forall>s2. screen_ok s2 \<and> m_AlternateScreen s2 \<and> m_PrimaryScreenshot s2 = m_PrimaryScreenshot s1
         \<and> Width s2 = Width s \<and> Height s2 = Height s \<longrightarrow>
       (\<exists>s3. SetAlternateScreen False s2 = Inr s3 \<and> screen_ok s3 \<and> \<not> m_AlternateScreen s3
         \<and> cursor s3 = cursor s
         \<and> (\<forall>x y. y < m_Height (m_Buffer s) \<longrightarrow> cell s3 x y = cell s x y \<and> wrapped s3 y = wrapped s2 y)
         \<and> back_lines (m_Buffer s3) = back_lines (m_Buffer s2)))"
proof -
  let ?snap = "\<lparr>snap_width = m_Width (m_Buffer s), snap_height = m_Height (m_Buffer s),
    snap_chars = m_OnScreenSpaces (m_Buffer s)\<rparr>"
  let ?kept = "\<lparr>saved_snapshot = ?snap, saved_pos_x = m_PosX s, saved_pos_y = m_PosY s\<rparr>"
  note ok' = screen_okD [OF ok]
  have snap: "snapshot_ok ?snap" using ok'(1) by (simp add: snapshot_ok_def buf_ok_def mult.commute)
  from RevertToSnapshot_ok [OF ok'(1), of "saved_snapshot (m_AlternativeScreenshot s)"] ok
  obtain xs where "RevertToSnapshot (saved_snapshot (m_AlternativeScreenshot s)) (m_Buffer s)
      = Inr (m_Buffer s\<lparr>m_OnScreenSpaces := xs\<rparr>)" by (auto simp: screen_ok_def)
  then have run: "SetAlternateScreen True s = Inr ((GoTo 0 0 (s\<lparr>m_PrimaryScreenshot := ?kept,
      m_Buffer := m_Buffer s\<lparr>m_OnScreenSpaces := xs\<rparr>\<rparr>))\<lparr>m_AlternateScreen := True\<rparr>)"
    (is "_ = Inr ?s1")
    using prim by (simp add: SetAlternateScreen_def CaptureScreen_ok [OF ok] on_buffer_def)
  have ok1: "screen_ok ?s1" using SetAlternateScreen_ok [OF ok, of True] run by auto
  have return: "\<exists>s3. SetAlternateScreen False s2 = Inr s3 \<and> screen_ok s3 \<and> \<not> m_AlternateScreen s3
         \<and> cursor s3 = cursor s
         \<and> (\<forall>x y. y < m_Height (m_Buffer s) \<longrightarrow> cell s3 x y = cell s x y \<and> wrapped s3 y = wrapped s2 y)
         \<and> back_lines (m_Buffer s3) = back_lines (m_Buffer s2)"
    if ok2: "screen_ok s2" and alt: "m_AlternateScreen s2" and kept: "m_PrimaryScreenshot s2 = ?kept"
      and size: "Width s2 = Width s" "Height s2 = Height s" for s2
  proof -
    have size': "m_Width (m_Buffer s2) = m_Width (m_Buffer s)" "m_Height (m_Buffer s2) = m_Height (m_Buffer s)"
      using size by simp_all
    have "RevertToSnapshot ?snap (m_Buffer s2)
        = Inr (m_Buffer s2\<lparr>m_OnScreenSpaces := m_OnScreenSpaces (m_Buffer s)\<rparr>)"
      using RevertToSnapshot_same [OF screen_okD(1) [OF ok2] snap] size' by simp
    moreover obtain t0 where "CaptureScreen s2 = Inr t0" using CaptureScreen_ok [OF ok2] by blast
    ultimately obtain t where t: "SetAlternateScreen False s2 = Inr t" "t = ((GoTo (m_PosX s) (m_PosY s)
        (s2\<lparr>m_AlternativeScreenshot := t0, m_Buffer := m_Buffer s2\<lparr>m_OnScreenSpaces :=
          m_OnScreenSpaces (m_Buffer s)\<rparr>\<rparr>))\<lparr>m_AlternateScreen := False\<rparr>)"
      using alt kept by (simp add: SetAlternateScreen_def on_buffer_def)
    have "m_PosX t = m_PosX s" "m_PosY t = m_PosY s"
      using GoTo_pos [of "s2\<lparr>m_AlternativeScreenshot := t0, m_Buffer := m_Buffer s2\<lparr>m_OnScreenSpaces :=
          m_OnScreenSpaces (m_Buffer s)\<rparr>\<rparr>" "m_PosX s" "m_PosY s"] size' ok'
      unfolding t(2) by simp_all
    moreover have "row (m_Buffer t) y = row (m_Buffer s) y" for y
      using size' by (simp add: t(2) row_def)
    moreover have "wraps (m_Buffer t) = wraps (m_Buffer s2)" "\<not> m_AlternateScreen t"
      "back_lines (m_Buffer t) = back_lines (m_Buffer s2)"
      by (simp_all add: t(2) wraps_def back_lines_def)
    moreover have "screen_ok t" using SetAlternateScreen_ok [OF ok2, of False] t(1) by auto
    ultimately show ?thesis
      using t(1) by (intro exI [of _ t]) (simp add: cursor_def cell_def wrapped_def)
  qed
  have "cursor ?s1 = \<lparr>pt_x = 0, pt_y = 0\<rparr>" "m_PrimaryScreenshot ?s1 = ?kept"
    using ok' by (simp_all add: cursor_def GoTo_pos)
  with run ok1 return show ?thesis by (intro exI [of _ ?s1]) simp
qed

theorem SetAlternateScreen_roundtrip_witness:
  "\<exists>s1 s3. SetAlternateScreen True demo_screen = Inr s1 \<and> cursor s1 = \<lparr>pt_x = 0, pt_y = 0\<rparr>
     \<and> bindR (SetAlternateScreen True demo_screen) (SetAlternateScreen False) = Inr s3
     \<and> cell s3 0 0 = cell demo_screen 0 0 \<and> cursor s3 = \<lparr>pt_x = 1, pt_y = 1\<rparr>"
proof -
  obtain s1 where s1: "SetAlternateScreen True demo_screen = Inr s1" "screen_ok s1"
    "m_AlternateScreen s1" "Width s1 = Width demo_screen" "Height s1 = Height demo_screen"
    using SetAlternateScreen_roundtrip [OF demo_ok] SetAlternateScreen_ok [OF demo_ok, of True] by auto
  then show ?thesis
    using SetAlternateScreen_roundtrip [OF demo_ok] by (auto simp: cursor_def)
qed

section \<open>Resizing\<close>

text \<open>
  C40: resizing with the scrollback merged in, from any well-formed buffer whose scrollback has
  storage, has no fault and keeps the text: the new scrollback and the lines shown, joined at
  their wrap flags, are the logical lines of the old scrollback and screen; each fits the new
  width, a wrapped one fills it, the last ones are shown, as many as fit, padded with the erase
  character.
\<close>

theorem ResizeScreen_merged_keeps_text:
  assumes "buf_ok b" "back_readable b" and "0 < sx" "0 < sy" "sx * sy < 2 ^ 31"
  shows "\<exists>b' shown. ResizeScreen sx sy True b = Inr b' \<and> buf_ok b'
    \<and> m_Width b' = sx \<and> m_Height b' = sy
    \<and> join_lines (back_lines b' @ shown) = join_lines (trimmed (back_lines b @ screen_lines b))
    \<and> (\<forall>d \<in> set (back_lines b' @ shown). length (fst d) \<le> sx \<and> (snd d \<longrightarrow> length (fst d) = sx))
    \<and> (length shown = sy \<or> length shown < sy \<and> back_lines b' = [])
    \<and> rows b' = padded sx sy (m_BufferEraseChar b) shown
    \<and> take (length shown) (wraps b') = map snd shown"
proof -
  define ds where "ds = cut_lines sx (join_lines (trimmed (back_lines b @ screen_lines b)))"
  from Resize_merge [OF assms] obtain b' where b': "ResizeScreen sx sy True b = Inr b'" "buf_ok b'"
    "m_Width b' = sx" "m_Height b' = sy" "back_lines b' = take (length ds - sy) ds"
    "rows b' = padded sx sy (m_BufferEraseChar b) (drop (length ds - sy) ds)"
    "take (min sy (length ds)) (wraps b') = map snd (drop (length ds - sy) ds)"
    unfolding ds_def by blast
  have join: "join_lines ds = join_lines (trimmed (back_lines b @ screen_lines b))"
    unfolding ds_def by (rule join_cut [OF assms(3)])
  have fits: "\<forall>d \<in> set ds. length (fst d) \<le> sx \<and> (snd d \<longrightarrow> length (fst d) = sx)"
    unfolding ds_def using cut_lines_width [OF assms(3)] by blast
  have "length (drop (length ds - sy) ds) = min sy (length ds)" by simp
  with b' join fits show ?thesis
    by (intro exI [of _ b'] exI [of _ "drop (length ds - sy) ds"])
      (auto simp: min_def simp del: trimmed_def)
qed

text \<open>
  Resizing without the scrollback keeps the logical lines of the scrollback there, and shows
  the first lines of the old screen, as many as fit; the rest of the screen's text is lost.
\<close>

theorem ResizeScreen_split_keeps_text:
  assumes "buf_ok b" "back_readable b" and "0 < sx" "0 < sy" "sx * sy < 2 ^ 31"
  shows "\<exists>b' shown rest. ResizeScreen sx sy False b = Inr b' \<and> buf_ok b'
    \<and> m_Width b' = sx \<and> m_Height b' = sy
    \<and> join_lines (back_lines b') = join_lines (trimmed (back_lines b))
    \<and> join_lines (shown @ rest) = join_lines (trimmed (screen_lines b))
    \<and> (length shown = sy \<or> length shown < sy \<and> rest = [])
    \<and> rows b' = padded sx sy (m_BufferEraseChar b) shown
    \<and> take (length shown) (wraps b') = map snd shown"
proof -
  define ds where "ds = cut_lines sx (join_lines (trimmed (screen_lines b)))"
  from Resize_split [OF assms] obtain b' where b': "ResizeScreen sx sy False b = Inr b'" "buf_ok b'"
    "m_Width b' = sx" "m_Height b' = sy"
    "back_lines b' = cut_lines sx (join_lines (trimmed (back_lines b)))"
    "rows b' = padded sx sy (m_BufferEraseChar b) (take sy ds)"
    "take (min sy (length ds)) (wraps b') = map snd (take sy ds)"
    unfolding ds_def by blast
  have "join_lines (take sy ds @ drop sy ds) = join_lines (trimmed (screen_lines b))"
    unfolding append_take_drop_id ds_def by (rule join_cut [OF assms(3)])
  moreover have "join_lines (back_lines b') = join_lines (trimmed (back_lines b))"
    unfolding b'(5) by (rule join_cut [OF assms(3)])
  moreover have "length (take sy ds) = min sy (length ds)" by (simp add: min.commute)
  ultimately show ?thesis using b'
    by (intro exI [of _ b'] exI [of _ "take sy ds"] exI [of _ "drop sy ds"]) (auto simp: min_def)
qed

lemma demo_readable: "back_readable (m_Buffer demo_screen)"
  by (simp add: back_readable_def demo_screen_def Let_def Screen_init_def GoToDefaultPosition_def
      ScreenBuffer_init_def)

theorem ResizeScreen_merged_keeps_text_witness:
  "\<exists>b' shown. ResizeScreen 2 1 True (m_Buffer demo_screen) = Inr b' \<and> m_Width b' = 2
     \<and> length shown \<le> 1
     \<and> join_lines (back_lines b' @ shown) = join_lines (trimmed (back_lines (m_Buffer demo_screen)
         @ screen_lines (m_Buffer demo_screen)))"
  using ResizeScreen_merged_keeps_text [OF screen_okD(1) [OF demo_ok] demo_readable, of 2 1]
  by force

theorem ResizeScreen_split_keeps_text_witness:
  "\<exists>b' shown rest. ResizeScreen 2 1 False (m_Buffer demo_screen) = Inr b' \<and> m_Width b' = 2
     \<and> rows b' = padded 2 1 (m_BufferEraseChar (m_Buffer demo_screen)) shown
     \<and> join_lines (shown @ rest) = join_lines (trimmed (screen_lines (m_Buffer demo_screen)))"
  using ResizeScreen_split_keeps_text [OF screen_okD(1) [OF demo_ok] demo_readable, of 2 1]
  by force

section \<open>Where the code fails\<close>

text \<open>
  A blank screen of two lines with the cursor in the last one: made one line high, its
  scrollback holds a line and no storage, and the next resize throws.
\<close>

theorem Screen_ResizeScreen_throws:
  "bindR (Screen_ResizeScreen 3 1 (GoTo 0 1 (Screen_init 3 2))) (Screen_ResizeScreen 4 1)
    = Inl Throws_out_of_range"
  by code_simp

text \<open>
  With the cursor in the last cell of the screen, making room for a double-width character
  writes past the end of the screen's allocation.
\<close>

theorem DoShiftRowRight_past_end:
  assumes "screen_ok s" and "m_PosX s + 1 = Width s" and "m_PosY s + 1 = Height s"
    and "Width s < INT_MAX"
  shows "DoShiftRowRight 2 s = Inl Out_Of_Bounds"
proof -
  let ?b = "m_Buffer s" and ?y = "nat (m_PosY s)" and ?X = "nat (m_PosX s)"
  note ok = screen_okD [OF assms(1)]
  have ints: "in_int (m_PosX s)" "in_int (m_PosX s + 1)" "in_int (m_PosX s + 2)"
    using ok(2,3) assms(2,4) by (auto simp: in_int_def)
  let ?b1 = "put_row ?y ?X [m_EraseChar s] ?b"
  have line: "LineFromNo (m_PosY s) ?b = Inr (row_span ?b ?y)"
    using LineFromNo_row ok by simp
  have first: "ptr_set (row_span ?b ?y) (m_PosX s) (m_EraseChar s) ?b = Inr ?b1"
    using row_set(2) [of ?b ?y "m_PosX s"] ok by simp
  have len: "length (m_OnScreenSpaces ?b1) = m_Height ?b * m_Width ?b"
    using put_row_ok [of ?b ?y ?X "[m_EraseChar s]"] ok by (simp add: buf_ok_def)
  have "Suc ?y = m_Height ?b" using assms(3) ok by simp
  then have "m_Height ?b * m_Width ?b = ?y * m_Width ?b + m_Width ?b" by (metis add.commute mult_Suc)
  then have "int (?y * m_Width ?b) + (m_PosX s + 1) = int (m_Height ?b * m_Width ?b)"
    using assms(2) by linarith
  then have second: "ptr_set (row_span ?b ?y) (m_PosX s + 1) (m_EraseChar s) ?b1 = Inl Out_Of_Bounds"
    using len by (simp add: ptr_set_def mem_write_def)
  have "for_up 0 2 (\<lambda>i b. bindR (mk_int (m_PosX s + i)) (\<lambda>x.
      ptr_set (row_span ?b ?y) x (m_EraseChar s) b)) ?b = Inl Out_Of_Bounds"
    using first second ints by (simp add: for_up_step mk_int_def)
  then show ?thesis
    using line ints assms(2) ok by (simp add: DoShiftRowRight_def on_buffer_def mk_int_def)
qed

theorem DoShiftRowRight_past_end_witness:
  "DoShiftRowRight 2 (GoTo 2 1 demo_screen) = Inl Out_Of_Bounds"
  by (rule DoShiftRowRight_past_end) (use demo_ok in \<open>simp_all add: GoTo_pos\<close>)

end
