(* ===== verification/InterpreterTheorems.thy ===== *)
theory InterpreterTheorems
  imports InterpreterProps ScreenTheorems
begin

text \<open>
  The properties of the interpreter: runs of commands cannot go wrong, what is saved comes back,
  tab stops, margins and text land where they should, and what the code does outside of the
  limits of the safety theorem.
\<close>

section \<open>Runs\<close>

lemma lawful_cf_cases:
  assumes "cf_ok cf"
  obtains x where "cf = Rep_lawful_cf x"
  using assms Rep_lawful_cf_cases [of cf] by auto

lemma interp_core_init:
  assumes "screen_ok s" "Width s \<le> 1024" "Height s \<le> 2 ^ 30"
  shows "interp_core (SetScreenResizeAllowed False (InterpreterImpl_init s r))"
proof -
  let ?i = "\<lparr>m_Screen = s, m_Registry = r,
     m_HasOutput = True, m_HasBell = True, m_HasInputTranslator = False,
     m_Extent = \<lparr>ext_height = Height s, ext_width = Width s, ext_top = 0, ext_bottom = Height s\<rparr>,
     m_TabStops = ResetToDefaultTabStops, m_TranslateMap = None, m_CS = [0, 0, 0, 0],
     m_OriginLineMode = False, m_AllowScreenResize = True, m_AutoWrapMode = True,
     m_InsertMode = False, m_CursorShown = True, m_MouseReportingUTF8 = False,
     m_MouseReportingSGR = False, m_Rendition = Rendition_init,
     m_RequestedMouseEvents = RME_None, m_SavedState = None,
     m_Titles = \<lparr>t_icon = [], t_window = [], t_saved_icon = [], t_saved_window = []\<rparr>,
     m_Events = []\<rparr>"
  note u = UpdateCharacterAttributes_screen [of ?i] UpdateCharacterAttributes_shown [of ?i]
  have "0 < Height s" using screen_ints [OF assms(1)] by simp
  with u assms show ?thesis
    by (simp add: SetScreenResizeAllowed_def InterpreterImpl_init_def interp_core_def extent_ok_def
        sets_ok_def map_ok_def saved_ok_def ResetToDefaultTabStops_def)
qed

definition demo_terminal :: Interp where
  "demo_terminal = SetScreenResizeAllowed False (InterpreterImpl_init (Screen_init 20 4) Registry_init)"

lemma Screen_init_sel [simp]:
  "m_Width (m_Buffer (Screen_init w h)) = w" "m_Height (m_Buffer (Screen_init w h)) = h"
  by (simp_all add: Screen_init_def GoToDefaultPosition_def ScreenBuffer_init_def)

lemma demo_terminal_core: "interp_core demo_terminal"
  unfolding demo_terminal_def by (intro interp_core_init screen_ok_init) simp_all

lemma demo_terminal_registry: "m_Registry demo_terminal = Registry_init"
  by (simp add: demo_terminal_def SetScreenResizeAllowed_def InterpreterImpl_init_def)

lemma demo_terminal_ok: "n < 2 ^ 31 \<Longrightarrow> interp_ok cf n demo_terminal"
  using demo_terminal_core registry_ok_init [of cf]
  by (simp add: interp_ok_def reg_inv_def demo_terminal_registry, simp add: Registry_init_def)

lemma demo_terminal_sel [simp]:
  "m_Width (m_Buffer (m_Screen demo_terminal)) = 20" "m_Height (m_Buffer (m_Screen demo_terminal)) = 4"
  "CursorX demo_terminal = 0" "CursorY demo_terminal = 0"
  "m_OriginLineMode demo_terminal = False" "m_TabStops demo_terminal = ResetToDefaultTabStops"
  "ext_top (m_Extent demo_terminal) = 0" "ext_bottom (m_Extent demo_terminal) = 4"
  "m_TranslateMap demo_terminal = None" "m_InsertMode demo_terminal = False"
  "m_Titles demo_terminal = \<lparr>t_icon = [], t_window = [], t_saved_icon = [], t_saved_window = []\<rparr>"
  by (simp_all add: demo_terminal_def SetScreenResizeAllowed_def InterpreterImpl_init_def
      UpdateCharacterAttributes_screen UpdateCharacterAttributes_def on_screen_def Let_def
      screen_attributes set_erase_char_def SetEraseChar_def Screen_init_def GoToDefaultPosition_def
      ScreenBuffer_init_def GoTo_def)

lemma short_texts:
  assumes "cf_ok cf" "length t \<le> g_MaxGraphemeLen" shows "text_limits cf t"
  using assms translated_texts_length [OF assms(1)]
  by (fastforce simp: text_limits_def list_all_iff intro: short_text)

lemma run_commands_safe:
  assumes "cf_ok cf" "interp_ok cf n i" "list_all (safe_cmd cf) cs"
    and "sum_list (map cmd_cost cs) \<le> n"
  shows "\<exists>i'. Interpret cf cs i = Inr i' \<and> interp_ok cf (n - sum_list (map cmd_cost cs)) i'"
proof -
  obtain x where "cf = Rep_lawful_cf x" using assms(1) by (rule lawful_cf_cases)
  with ti.run_safe [of x n i cs] assms show ?thesis by (simp add: Interpret_def list_all_iff)
qed

text \<open>
  C23: a run of the interpreter cannot go wrong: from a state that keeps the invariant, with room
  in the registry for the text of the run, any list of commands with fitting payloads and within
  the limits ends with no fault (no index out of bounds, no overflow, no failed assertion, no
  loop that does not end) in a state that keeps the invariant, with the room left reduced by the
  text seen. Nothing is said of how long the composed sequences of Core Foundation may get: that those
  of the text fit into the buffers of 64 units is a limit of the command, as the code has no test for it.
\<close>

theorem Interpret_safe:
  assumes "cf_ok cf" "interp_ok cf n i" "list_all (safe_cmd cf) cs"
    and "sum_list (map cmd_cost cs) \<le> n"
  shows "\<exists>i'. Interpret cf cs i = Inr i' \<and> interp_ok cf (n - sum_list (map cmd_cost cs)) i'"
  using assms by (rule run_commands_safe)

text \<open>
  A letter with a combining accent at the right edge of the screen, more accents for it in a second
  text, then a scroll: the grapheme is composed, stored, extended and stored again.
\<close>

definition accents :: bytes where
  "accents = [CHR 0xCC, CHR 0x81, CHR 0xCC, CHR 0x88]"

lemma accents_compose:
  "cf_utf16 composing_cf (CHR ''e'' # accents) = Some [0x65, 0x301, 0x308]"
  "cf_grapheme composing_cf [0x65, 0x301, 0x308] = 3"
  by (simp_all add: composing_cf_def simple_cf_def accents_def of_char_def continues_def)

theorem Interpret_safe_witness:
  "\<exists>i'. Interpret composing_cf [mk_cmd T_text (P_UTF8Text (CHR ''e'' # accents)),
      mk_cmd T_move_cursor (P_CursorMovement \<lparr>cm_positioning = Relative, cm_x = Some (-1), cm_y = None\<rparr>),
      mk_cmd T_text (P_UTF8Text accents), mk_cmd T_line_feed P_None,
      mk_cmd T_insert_lines (P_unsigned 7)] demo_terminal = Inr i' \<and> interp_core i'
    \<and> cf_utf16 composing_cf (CHR ''e'' # accents) = Some [0x65, 0x301, 0x308]
    \<and> cf_grapheme composing_cf [0x65, 0x301, 0x308] = 3"
proof -
  let ?cs = "[mk_cmd T_text (P_UTF8Text (CHR ''e'' # accents)),
      mk_cmd T_move_cursor (P_CursorMovement \<lparr>cm_positioning = Relative, cm_x = Some (-1), cm_y = None\<rparr>),
      mk_cmd T_text (P_UTF8Text accents), mk_cmd T_line_feed P_None,
      mk_cmd T_insert_lines (P_unsigned 7)]"
  have "list_all (safe_cmd composing_cf) ?cs"
    using short_texts [OF composing_cf_ok]
    by (simp add: safe_cmd_def cmd_limits_def payload_fits_def accents_def small_def
        in_int_def g_MaxGraphemeLen_def)
  from Interpret_safe [OF composing_cf_ok demo_terminal_ok this, of 12] accents_compose show ?thesis
    by (auto simp: cmd_cost_def interp_ok_def accents_def)
qed

text \<open>
  After the screen was given another size behind the interpreter's back,
  \<open>NotifyScreenResized\<close> re-establishes the invariant, whatever the scrolling region was.
\<close>

theorem NotifyScreenResized_core:
  assumes "interp_core i" and "screen_ok s" "Width s \<le> 1024" "Height s \<le> 2 ^ 30"
    and "m_EraseChar s = m_EraseChar (m_Screen i)"
  shows "interp_core (NotifyScreenResized (i\<lparr>m_Screen := s\<rparr>))"
proof -
  have "0 < Height s" using screen_ints [OF assms(2)] by simp
  moreover have "extent_ok (m_Extent i) (Height (m_Screen i))" using assms(1) by (rule interp_coreD)
  ultimately show ?thesis
    using assms by (auto simp: NotifyScreenResized_def Let_def interp_core_def extent_ok_def min_def)
qed

lemma demo_erase: "m_EraseChar (m_Screen demo_terminal) = DefaultEraseChar"
  by (simp add: demo_terminal_def SetScreenResizeAllowed_def InterpreterImpl_init_def
      UpdateCharacterAttributes_def on_screen_def Let_def screen_attributes set_erase_char_def
      Rendition_init_def DefaultEraseChar_def Screen_init_def GoToDefaultPosition_def)

theorem NotifyScreenResized_core_witness:
  "interp_core (NotifyScreenResized (demo_terminal\<lparr>m_Screen := Screen_init 9 2\<rparr>))"
proof (rule NotifyScreenResized_core [OF demo_terminal_core])
  show "m_EraseChar (Screen_init 9 2) = m_EraseChar (m_Screen demo_terminal)"
    unfolding demo_erase by (simp add: Screen_init_def GoToDefaultPosition_def)
qed (simp_all add: screen_ok_init)

section \<open>Saved state\<close>

lemma rendition_attributes:
  assumes "rendition_shown r a" "rendition_shown r b"
  shows "a\<lparr>sp_l := 0\<rparr> = b\<lparr>sp_l := 0\<rparr>"
  using assms by (cases a; cases b) (simp add: rendition_shown_def)

text \<open>
  Restoring the saved state brings back the cursor, the rendition, the character sets and
  the translation in force when it was saved, whatever happened to them in between, as long as
  no other state was saved and the screen has the same size; the cells written next have the
  attributes of that moment.
\<close>

theorem SaveState_roundtrip:
  assumes i: "interp_core i" and j: "interp_core j"
    and saved: "m_SavedState j = m_SavedState (ProcessSaveState i)"
    and size: "Width (m_Screen j) = Width (m_Screen i)" "Height (m_Screen j) = Height (m_Screen i)"
  defines "k \<equiv> ProcessRestoreState j"
  shows "CursorX k = CursorX i \<and> CursorY k = CursorY i \<and> m_Rendition k = m_Rendition i
    \<and> m_CS k = m_CS i \<and> m_TranslateMap k = m_TranslateMap i \<and> interp_core k
    \<and> (m_EraseChar (m_Screen k))\<lparr>sp_l := 0\<rparr> = (m_EraseChar (m_Screen i))\<lparr>sp_l := 0\<rparr>"
proof -
  note s = screen_ints [OF interp_coreD(1) [OF i]]
  let ?j = "(on_screen (GoTo (CursorX i) (CursorY i)) j)
     \<lparr>m_CS := m_CS i, m_TranslateMap := m_TranslateMap i, m_Rendition := m_Rendition i\<rparr>"
  have k: "k = UpdateCharacterAttributes ?j"
    using saved by (simp add: k_def ProcessRestoreState_def ProcessSaveState_def)
  have core: "interp_core k" unfolding k_def using keeps_RestoreState [OF j] by (rule keeps_coreD)
  have "rendition_shown (m_Rendition i) (m_EraseChar (m_Screen k))"
    using UpdateCharacterAttributes_shown [of ?j] unfolding k by simp
  moreover have "rendition_shown (m_Rendition i) (m_EraseChar (m_Screen i))"
    using i by (simp add: interp_core_def)
  ultimately have "(m_EraseChar (m_Screen k))\<lparr>sp_l := 0\<rparr> = (m_EraseChar (m_Screen i))\<lparr>sp_l := 0\<rparr>"
    by (rule rendition_attributes)
  with core s size show ?thesis
    by (simp add: k UpdateCharacterAttributes_screen on_screen_def GoTo_pos)
qed

theorem SaveState_roundtrip_witness:
  "let i = on_screen (GoTo 3 2) (set_bold True demo_terminal);
       k = ProcessRestoreState (on_screen (GoTo 0 0) (set_bold False (ProcessSaveState i)))
   in CursorX k = 3 \<and> CursorY k = 2 \<and> r_bold (m_Rendition k)"
proof -
  let ?i = "on_screen (GoTo 3 2) (set_bold True demo_terminal)"
  let ?j = "on_screen (GoTo 0 0) (set_bold False (ProcessSaveState ?i))"
  have i: "interp_core ?i"
    using keeps_goto keeps_set(5) [OF demo_terminal_core] by (meson keeps_coreD(1))
  have j: "interp_core ?j"
    using keeps_goto keeps_set(5) keeps_SaveState [OF i] by (meson keeps_coreD(1))
  have sizes: "Width (m_Screen ?j) = Width (m_Screen ?i)" "Height (m_Screen ?j) = Height (m_Screen ?i)"
    and pos: "CursorX ?i = 3" "CursorY ?i = 2" "r_bold (m_Rendition ?i)"
    and saved: "m_SavedState ?j = m_SavedState (ProcessSaveState ?i)"
    by (simp_all add: on_screen_def set_bold_def ProcessSaveState_def SetBold_def set_erase_char_def
        SetEraseChar_def GoTo_pos)
  show ?thesis
    unfolding Let_def using SaveState_roundtrip [OF i j saved sizes] pos by simp
qed

section \<open>Titles\<close>

lemma change_title_stacks:
  "t_saved_icon (m_Titles (ProcessChangeTitle t i)) = t_saved_icon (m_Titles i)"
  "t_saved_window (m_Titles (ProcessChangeTitle t i)) = t_saved_window (m_Titles i)"
  by (simp_all add: ProcessChangeTitle_def change_icon_def change_window_def event_def split: TitleKind.split)

lemma change_titles_stacks:
  "t_saved_icon (m_Titles (foldl (\<lambda>i t. ProcessChangeTitle t i) i ts)) = t_saved_icon (m_Titles i)"
  "t_saved_window (m_Titles (foldl (\<lambda>i t. ProcessChangeTitle t i) i ts)) = t_saved_window (m_Titles i)"
  by (induction ts arbitrary: i) (simp_all add: change_title_stacks)

lemma restore_titles:
  "t_saved_icon (m_Titles i) = t # ts \<Longrightarrow>
    m_Titles (restore_icon i) = (m_Titles i)\<lparr>t_icon := t, t_saved_icon := ts\<rparr>"
  "t_saved_window (m_Titles i) = t # ts \<Longrightarrow>
    m_Titles (restore_window i) = (m_Titles i)\<lparr>t_window := t, t_saved_window := ts\<rparr>"
  by (simp_all add: restore_icon_def restore_window_def ProcessChangeTitle_def change_icon_def
      change_window_def event_def)

text \<open>
  The title stack: after both titles were pushed, any sequence of title changes followed by
  popping both brings the titles and the stacks back, and the callback has heard of the last
  change of each title that differs.
\<close>

theorem TitleManipulation_roundtrip:
  "m_Titles (ProcessTitleManipulation \<lparr>tm_target = TM_Both, tm_operation = TM_Restore\<rparr>
     (foldl (\<lambda>i t. ProcessChangeTitle t i)
       (ProcessTitleManipulation \<lparr>tm_target = TM_Both, tm_operation = TM_Save\<rparr> i) ts)) = m_Titles i"
proof -
  let ?i = "save_window (save_icon i)" and ?f = "foldl (\<lambda>i t. ProcessChangeTitle t i)"
  have "t_saved_icon (m_Titles (?f ?i ts)) = t_icon (m_Titles i) # t_saved_icon (m_Titles i)"
    "t_saved_window (m_Titles (?f ?i ts)) = t_window (m_Titles i) # t_saved_window (m_Titles i)"
    unfolding change_titles_stacks by (simp_all add: save_icon_def save_window_def)
  then show ?thesis
    by (simp add: ProcessTitleManipulation_def restore_titles)
qed

section \<open>Tab stops\<close>

lemma HT_forward_stops:
  assumes "0 \<le> x" "width \<le> int (length ts)" "x \<le> width - 1" "0 < n"
  shows "HT_forward ts width x (int n) = Inr
    (let stops = filter (\<lambda>t. ts ! nat t) [x + 1..width - 1] in
     if n \<le> length stops then stops ! (n - 1) else width - 1)"
  using assms
proof (induction "nat (width - 1 - x)" arbitrary: x n)
  case 0
  then have "x = width - 1" by simp
  with 0 show ?case by (subst HT_forward.simps) (auto simp: Let_def)
next
  case (Suc d)
  then have x: "x < width - 1" "d = nat (width - 1 - (x + 1))" "0 \<le> x + 1" "x + 1 \<le> width - 1" by auto
  have t: "tab_at ts (x + 1) = Inr (ts ! nat (x + 1))" using x Suc.prems by (simp add: tab_at_def)
  have cons: "[x + 1..width - 1] = (x + 1) # [x + 1 + 1..width - 1]" using x by (simp add: upto_rec1)
  show ?case
  proof (cases "ts ! nat (x + 1)")
    case False
    have "HT_forward ts width x (int n) = HT_forward ts width (x + 1) (int n)"
      using x t False Suc.prems by (subst HT_forward.simps) simp
    with Suc.hyps(1) [OF x(2,3) Suc.prems(2) x(4) Suc.prems(4)] False show ?thesis
      by (simp add: cons del: upto.simps)
  next
    case True
    have step: "HT_forward ts width x (int n) = HT_forward ts width (x + 1) (int (n - 1))"
      using x t True Suc.prems by (subst HT_forward.simps) (simp add: of_nat_diff)
    show ?thesis
    proof (cases "n = 1")
      case True
      with step \<open>ts ! nat (x + 1)\<close> show ?thesis
        by (subst (asm) (2) HT_forward.simps) (simp add: cons del: upto.simps)
    next
      case False
      with Suc.prems have "0 < n - 1" by simp
      from Suc.hyps(1) [OF x(2,3) Suc.prems(2) x(4) this] step True False Suc.prems show ?thesis
        by (auto simp: cons Let_def nth_Cons' simp del: upto.simps)
    qed
  qed
qed

lemma HT_backward_stops:
  assumes "0 \<le> x" "x \<le> int (length ts)" "0 < n"
  shows "HT_backward ts x (- int n) = Inr
    (let stops = filter (\<lambda>t. ts ! nat t) (rev [0..x - 1]) in
     if n \<le> length stops then stops ! (n - 1) else 0)"
  using assms
proof (induction "nat x" arbitrary: x n)
  case 0
  then show ?case by (subst HT_backward.simps) (auto simp: Let_def)
next
  case (Suc d)
  then have x: "0 < x" "d = nat (x - 1)" "0 \<le> x - 1" "x - 1 \<le> int (length ts)" by auto
  have t: "tab_at ts (x - 1) = Inr (ts ! nat (x - 1))" using x Suc.prems by (simp add: tab_at_def)
  have cons: "rev [0..x - 1] = (x - 1) # rev [0..x - 1 - 1]" using x by (simp add: upto_rec2)
  show ?case
  proof (cases "ts ! nat (x - 1)")
    case False
    have "HT_backward ts x (- int n) = HT_backward ts (x - 1) (- int n)"
      using x t False Suc.prems by (subst HT_backward.simps) simp
    with Suc.hyps(1) [OF x(2,3,4) Suc.prems(3)] False show ?thesis
      by (simp add: cons del: upto.simps)
  next
    case True
    have step: "HT_backward ts x (- int n) = HT_backward ts (x - 1) (- int (n - 1))"
      using x t True Suc.prems by (subst HT_backward.simps) (simp add: of_nat_diff)
    show ?thesis
    proof (cases "n = 1")
      case True
      with step \<open>ts ! nat (x - 1)\<close> show ?thesis
        by (subst (asm) (2) HT_backward.simps) (simp add: cons del: upto.simps)
    next
      case False
      with Suc.prems have "0 < n - 1" by simp
      from Suc.hyps(1) [OF x(2,3,4) this] step True False Suc.prems show ?thesis
        by (auto simp: cons Let_def nth_Cons' simp del: upto.simps)
    qed
  qed
qed

text \<open>
  A horizontal tab by \<open>n\<close> moves to the \<open>n\<close>-th tab stop to the right of the cursor, or to the
  last column when there are fewer, and by \<open>-n\<close> to the \<open>n\<close>-th to the left, or to the first
  column; the line stays the same and the loops over the stops end.
\<close>

theorem ProcessHT_stops:
  assumes i: "interp_core i" and n: "0 < n"
  defines "stop \<equiv> \<lambda>t. m_TabStops i ! nat t"
  defines "right \<equiv> filter stop [CursorX i + 1..Width (m_Screen i) - 1]"
  defines "left \<equiv> filter stop (rev [0..CursorX i - 1])"
  shows "\<exists>j k. ProcessHT (int n) i = Inr j \<and> ProcessHT (- int n) i = Inr k
    \<and> CursorX j = (if n \<le> length right then right ! (n - 1) else Width (m_Screen i) - 1)
    \<and> CursorX k = (if n \<le> length left then left ! (n - 1) else 0)
    \<and> CursorY j = CursorY i \<and> CursorY k = CursorY i"
proof -
  note s = screen_ints [OF interp_coreD(1) [OF i]]
  let ?R = "if n \<le> length right then right ! (n - 1) else Width (m_Screen i) - 1"
  let ?L = "if n \<le> length left then left ! (n - 1) else 0"
  have x: "0 \<le> CursorX i" "CursorX i \<le> Width (m_Screen i) - 1"
    "Width (m_Screen i) \<le> int (length (m_TabStops i))"
    using s interp_coreD(2,5) [OF i] by auto
  have fwd: "HT_forward (m_TabStops i) (Width (m_Screen i)) (CursorX i) (int n) = Inr ?R"
    using HT_forward_stops [OF x(1,3,2) n] by (simp add: Let_def right_def stop_def)
  have bwd: "HT_backward (m_TabStops i) (CursorX i) (- int n) = Inr ?L"
    using HT_backward_stops [OF x(1) _ n, of "m_TabStops i"] x by (simp add: Let_def left_def stop_def)
  have "set right \<subseteq> {CursorX i + 1..Width (m_Screen i) - 1}" "set left \<subseteq> {0..CursorX i - 1}"
    by (auto simp: right_def left_def)
  moreover have "n \<le> length right \<longrightarrow> right ! (n - 1) \<in> set right" "n \<le> length left \<longrightarrow> left ! (n - 1) \<in> set left"
    using n by simp_all
  ultimately have "?R \<in> {0..Width (m_Screen i) - 1}" "?L \<in> {0..Width (m_Screen i) - 1}"
    using x by (auto split del: if_split split: if_splits)
  then have "CursorX (on_screen (GoTo ?R (CursorY i)) i) = ?R" "CursorX (on_screen (GoTo ?L (CursorY i)) i) = ?L"
    "CursorY (on_screen (GoTo v (CursorY i)) i) = CursorY i" for v
    using s by (simp_all add: on_screen_def GoTo_pos split del: if_split)
  with fwd bwd n x show ?thesis
    by (simp add: ProcessHT_def Let_def split del: if_split)
qed

theorem ProcessHT_stops_witness:
  "\<exists>j. ProcessHT 2 demo_terminal = Inr j \<and> CursorX j = 16"
proof -
  have "filter (\<lambda>t. m_TabStops demo_terminal ! nat t) [1..19] = [8, 16]"
    by (simp add: ResetToDefaultTabStops_def upto_rec1 del: upto.simps)
  with ProcessHT_stops [OF demo_terminal_core, of 2] show ?thesis by auto
qed

section \<open>Margins\<close>

abbreviation shown_lines :: "Interp \<Rightarrow> (Space list \<times> bool) list" where
  "shown_lines i \<equiv> screen_lines (m_Buffer (m_Screen i))"

lemma LF_inside:
  assumes i: "interp_core i" and m: "CursorY i + 1 \<noteq> ext_bottom (m_Extent i)"
  shows "ProcessLF i = Inr (on_screen (GoTo (CursorX i) (CursorY i + 1)) i)"
proof -
  have "in_int (CursorY i + 1)"
    using screen_ints [OF interp_coreD(1) [OF i]] by (auto simp: in_int_def)
  with m show ?thesis
    by (simp add: ProcessLF_def mk_int_def with_screen_def DoCursorDown_def on_screen_def)
qed

lemma LF_scrolls:
  assumes i: "interp_core i" and m: "CursorY i + 1 = ext_bottom (m_Extent i)"
  shows "\<exists>c. ProcessLF i = Inr (i\<lparr>m_Screen := (m_Screen i)\<lparr>m_Buffer := c\<rparr>\<rparr>)
    \<and> screen_lines c = scrolled_up (nat (ext_top (m_Extent i))) (nat (ext_bottom (m_Extent i))) 1
        (blank_line (m_Screen i)) (shown_lines i)"
proof -
  let ?t = "word_of_int (ext_top (m_Extent i)) :: u32" and ?b = "word_of_int (ext_bottom (m_Extent i)) :: u32"
  note s = screen_ints [OF interp_coreD(1) [OF i]] and e = extent_ints [OF i]
  have y: "in_int (CursorY i + 1)" using s by (auto simp: in_int_def)
  have words: "sint ?t = ext_top (m_Extent i)" "sint ?b = ext_bottom (m_Extent i)"
    using e by simp_all
  have "scroll_bottom ?b (m_Screen i) = ext_bottom (m_Extent i)"
    using m s words by (simp add: scroll_bottom_def)
  moreover from this have "scroll_args ?t ?b 1 (m_Screen i)"
    using e words by (simp add: scroll_args_def in_int_def)
  from scroll_up_eff [OF interp_coreD(1) [OF i] this] obtain c where
    "DoScrollUp ?t ?b 1 (m_Screen i) = Inr ((m_Screen i)\<lparr>m_Buffer := c\<rparr>)"
    "screen_lines c = scrolled_up (nat (sint ?t)) (nat (scroll_bottom ?b (m_Screen i))) (nat (sint (1 :: u32)))
        (blank_line (m_Screen i)) (shown_lines i)" by blast
  ultimately show ?thesis
    using m y words by (intro exI [of _ c]) (simp add: ProcessLF_def mk_int_def with_screen_def)
qed

text \<open>
  A line feed on the last line of the scrolling region moves the lines of the region, and no
  others, up by one with a blank line coming in at the bottom and the cursor staying; anywhere
  else it moves the cursor down, not past the last line, and changes no line.
\<close>

theorem ProcessLF_margins:
  assumes i: "interp_core i"
  shows "\<exists>j. ProcessLF i = Inr j \<and> CursorX j = CursorX i
    \<and> CursorY j = (if CursorY i + 1 = ext_bottom (m_Extent i) then CursorY i
         else min (CursorY i + 1) (Height (m_Screen i) - 1))
    \<and> (\<forall>y < m_Height (m_Buffer (m_Screen i)). shown_lines j ! y =
        (if CursorY i + 1 = ext_bottom (m_Extent i) \<and> ext_top (m_Extent i) \<le> int y
            \<and> int y < ext_bottom (m_Extent i) then
           (if int y + 1 < ext_bottom (m_Extent i) then shown_lines i ! (y + 1) else blank_line (m_Screen i))
         else shown_lines i ! y))"
proof (cases "CursorY i + 1 = ext_bottom (m_Extent i)")
  case False
  note s = screen_ints [OF interp_coreD(1) [OF i]]
  show ?thesis
    using LF_inside [OF i False] False s by (auto simp: on_screen_def GoTo_pos)
next
  case True
  note s = screen_ints [OF interp_coreD(1) [OF i]] and e = extent_ints [OF i]
  from LF_scrolls [OF i True] obtain c where c:
    "ProcessLF i = Inr (i\<lparr>m_Screen := (m_Screen i)\<lparr>m_Buffer := c\<rparr>\<rparr>)"
    "screen_lines c = scrolled_up (nat (ext_top (m_Extent i))) (nat (ext_bottom (m_Extent i))) 1
        (blank_line (m_Screen i)) (shown_lines i)" by blast
  have "length (shown_lines i) = m_Height (m_Buffer (m_Screen i))"
    using screen_okD(1) [OF interp_coreD(1) [OF i]] by simp
  moreover have "nat (ext_top (m_Extent i)) \<le> nat (ext_bottom (m_Extent i))"
    "nat (ext_bottom (m_Extent i)) \<le> m_Height (m_Buffer (m_Screen i))"
    using e True s by auto
  ultimately show ?thesis
    using True c(1) e
    by (auto simp: c(2) nth_scrolled_up nat_le_iff zless_nat_eq_int_zless)
qed

theorem ProcessLF_margins_witness:
  "\<exists>j. ProcessLF (on_screen (GoTo 5 3) demo_terminal) = Inr j \<and> CursorY j = 3
    \<and> shown_lines j ! 0 = shown_lines demo_terminal ! 1"
proof -
  have "interp_core (on_screen (GoTo 5 3) demo_terminal)"
    using keeps_goto [OF demo_terminal_core] by (rule keeps_coreD)
  from ProcessLF_margins [OF this] show ?thesis
    by (auto simp: on_screen_def GoTo_pos)
qed

text \<open>
  A scrolling region is taken when its top is on the screen or just below and its bottom is
  more than one line further, however far below the screen; with a bottom below the screen, a
  line feed on the last line neither scrolls nor moves, so that output there overwrites itself.
\<close>

theorem SetScrollingRegion_below_screen:
  assumes i: "interp_core i" and top: "0 \<le> range_top r" "range_top r \<le> Height (m_Screen i)"
    and bottom: "range_top r + 1 < range_bottom r" "Height (m_Screen i) < range_bottom r"
    and int: "in_int (range_bottom r)" and origin: "\<not> m_OriginLineMode i"
    and last: "CursorY i + 1 = Height (m_Screen i)"
  shows "\<exists>j k. ProcessSetScrollingRegion (Some r) i = Inr j \<and> ext_bottom (m_Extent j) = range_bottom r
    \<and> ProcessLF j = Inr k \<and> CursorX k = CursorX i \<and> CursorY k = CursorY i
    \<and> shown_lines k = shown_lines i"
proof -
  let ?j = "i\<lparr>m_Extent := (m_Extent i)\<lparr>ext_top := range_top r, ext_bottom := range_bottom r\<rparr>\<rparr>"
  note s = screen_ints [OF interp_coreD(1) [OF i]]
  have j: "ProcessSetScrollingRegion (Some r) i = Inr ?j"
    using top bottom int origin by (auto simp: ProcessSetScrollingRegion_def mk_int_def in_int_def)
  have "interp_core ?j"
    using keeps_extent [OF i] top bottom int interp_coreD(4) [OF i]
    by (intro keeps_coreD(1) [of i]) (simp add: extent_ok_def in_int_def)
  moreover have "CursorY ?j + 1 \<noteq> ext_bottom (m_Extent ?j)" using bottom last by simp
  ultimately have "ProcessLF ?j = Inr (on_screen (GoTo (CursorX ?j) (CursorY ?j + 1)) ?j)"
    by (rule LF_inside)
  with j s last show ?thesis by (simp add: on_screen_def GoTo_pos)
qed

theorem SetScrollingRegion_below_screen_witness:
  "\<exists>j k. ProcessSetScrollingRegion (Some \<lparr>range_top = 0, range_bottom = 50\<rparr>)
      (on_screen (GoTo 0 3) demo_terminal) = Inr j \<and> ProcessLF j = Inr k \<and> CursorY k = 3"
proof -
  have "interp_core (on_screen (GoTo 0 3) demo_terminal)"
    using keeps_goto [OF demo_terminal_core] by (rule keeps_coreD)
  from SetScrollingRegion_below_screen [OF this, of "\<lparr>range_top = 0, range_bottom = 50\<rparr>"]
  show ?thesis by (auto simp: on_screen_def GoTo_pos in_int_def)
qed

section \<open>Counts read as negative\<close>

text \<open>
  \<open>CSI P\<close> with a count of 2147483648 or more, at the home position: the count is negative as
  \<open>int\<close>, no test catches it, and the shift reads before the start of the screen's allocation.
\<close>

theorem ProcessDeleteCharacters_negative:
  assumes i: "interp_core i" and home: "CursorX i = 0" "CursorY i = 0" and n: "sint n < 0"
  shows "ProcessDeleteCharacters n i = Inl Out_Of_Bounds"
proof -
  let ?s = "m_Screen i" and ?b = "m_Buffer (m_Screen i)"
  note s = screen_ints [OF interp_coreD(1) [OF i]] and ok = screen_okD [OF interp_coreD(1) [OF i]]
  have k: "capped_count n (Width ?s - CursorX i) = sint n"
    using n s home by (simp add: capped_count_def Let_def)
  have line: "LineFromNo (m_PosY ?s) ?b = Inr (row_span ?b 0)"
    using LineFromNo_row [OF ok(1), of "m_PosY ?s"] s home by simp
  have ints: "in_int (sint n)" "in_int 0" by (rule in_int_sint) (simp add: in_int_def)
  have "ptr_move (row_span ?b 0) (sint n) 0 ?b = Inl Out_Of_Bounds"
    using n by (simp add: ptr_move_def ptr_get_def mem_read_def)
  then have "for_up (sint n) (Width ?s) (\<lambda>x b. bindR (mk_int (x - sint n)) (\<lambda>d.
      ptr_move (row_span ?b 0) x d b)) ?b = Inl Out_Of_Bounds"
    using n s ints by (simp add: for_up_step mk_int_def)
  with line k ints ok home show ?thesis
    by (simp add: ProcessDeleteCharacters_def with_screen_def DoShiftRowLeft_def on_buffer_def mk_int_def)
qed

theorem ProcessDeleteCharacters_negative_witness:
  "ProcessDeleteCharacters 4294967295 demo_terminal = Inl Out_Of_Bounds"
  by (rule ProcessDeleteCharacters_negative [OF demo_terminal_core]) simp_all

section \<open>Plain text\<close>

definition printable :: "u16 \<Rightarrow> bool" where
  "printable c \<longleftrightarrow> 32 \<le> c \<and> c < 127"

lemma printable_plain: "printable c \<Longrightarrow> \<not> IsPotentiallyComposableCharacter c"
  by (auto simp: printable_def IsPotentiallyComposableCharacter_def word_le_nat_alt word_less_nat_alt)

lemma printable_fast: "list_all printable s \<Longrightarrow> s \<noteq> [] \<Longrightarrow> fast_path s"
  by (cases s rule: list.exhaust [case_product list.exhaust [of "tl s"]])
    (auto simp: fast_path_def printable_plain list_all_length)

lemma printable_char:
  assumes "printable c" shows "ucast c \<noteq> (0 :: u32)"
proof
  assume z: "ucast c = (0 :: u32)"
  have "c = 0"
  proof (rule bit_word_eqI)
    fix n assume "n < LENGTH(16)"
    then show "bit c n \<longleftrightarrow> bit (0 :: u16) n"
      using arg_cong [OF z, of "\<lambda>w. bit w n"] by (simp add: bit_ucast_iff)
  qed
  with assms show False by (simp add: printable_def word_le_nat_alt)
qed

lemma IsBase_unit: "IsBase (ucast (c :: u16))"
proof -
  have "\<not> bit (ucast c :: u32) 31" using bit_imp_le_length [of c 31] by (auto simp: bit_ucast_iff)
  moreover define m :: u32 where "m = push_bit 31 1"
  have "bit m n \<longleftrightarrow> n = 31" for n unfolding m_def bit_push_bit_iff by (auto simp: bit_1_iff)
  ultimately have "ucast c AND m = 0" by (intro bit_word_eqI) (auto simp: bit_and_iff)
  then show ?thesis by (simp add: IsBase_def m_def)
qed

text \<open>
  The buffer after letters were written to a line from a column on: the cells and the flag of that
  line, and nothing else, neither on the screen nor in the scrollback.
\<close>

definition typed_into :: "nat \<Rightarrow> nat \<Rightarrow> Space list \<Rightarrow> ScreenBuffer \<Rightarrow> ScreenBuffer \<Rightarrow> bool" where
  "typed_into y x cells b c \<longleftrightarrow> same_frame b c \<and> back_lines c = back_lines b
     \<and> rows c = (rows b)[y := overwrite x cells (row b y)] \<and> wraps c = (wraps b)[y := False]"

text \<open>One narrow character in the middle of a line, with nothing pending.\<close>

lemma put_narrow:
  assumes i: "interp_core i" and no: "\<not> m_LineOverflown (m_Screen i)"
    and narrow: "\<not> IsDoubleWidth cf (m_Registry i) ch"
  defines "s \<equiv> m_Screen i"
  shows "\<exists>c j. j = i\<lparr>m_Screen := s\<lparr>m_Buffer := c, m_PosX := min (m_PosX s + 1) (Width s - 1),
        m_LineOverflown := (m_PosX s + 1 = Width s)\<rparr>\<rparr>
    \<and> put_char cf (Width s) ch i = Inr j \<and> keeps_core i j
    \<and> typed_into (nat (m_PosY s)) (nat (m_PosX s)) [(m_EraseChar s)\<lparr>sp_l := ch\<rparr>] (m_Buffer s) c"
proof -
  let ?dw = "IsDoubleWidth cf (m_Registry i)" and ?b = "m_Buffer s"
  note ints = screen_ints [OF interp_coreD(1) [OF i], folded s_def]
  note ok = screen_okD(1,7,8) [OF interp_coreD(1) [OF i], folded s_def]
  from PutCh_eff [OF interp_coreD(1) [OF i], of ?dw ch] narrow obtain c where c:
    "PutCh ?dw ch s = Inr (s\<lparr>m_Buffer := c, m_LineOverflown := put_overflows False s \<or> m_LineOverflown s\<rparr>)"
    "same_frame ?b c" "back_lines c = back_lines ?b" "wraps c = (wraps ?b)[nat (m_PosY s) := False]"
    "rows c = (rows ?b)[nat (m_PosY s) := put_cells (nat (m_PosX s)) False
        ((m_EraseChar s)\<lparr>sp_l := ch\<rparr>) (row ?b (nat (m_PosY s)))]"
    by (auto simp: s_def)
  let ?i = "i\<lparr>m_Screen := s\<lparr>m_Buffer := c, m_LineOverflown := put_overflows False s \<or> m_LineOverflown s\<rparr>\<rparr>"
  let ?k = "if m_PosX s + 1 < Width s then on_screen (GoTo (m_PosX s + 1) (m_PosY s)) ?i else ?i"
  let ?j = "i\<lparr>m_Screen := s\<lparr>m_Buffer := c, m_PosX := min (m_PosX s + 1) (Width s - 1),
        m_LineOverflown := (m_PosX s + 1 = Width s)\<rparr>\<rparr>"
  have "\<not> m_InsertMode i" using i by (simp add: interp_core_def)
  moreover have "in_int (m_PosX s + 1)" using ints by (auto simp: in_int_def)
  ultimately have run: "put_char cf (Width s) ch i = Inr ?k"
    using no narrow c(1) by (simp add: put_char_def wrap_needed_def with_screen_def mk_int_def Let_def s_def)
  have size: "m_Width c = m_Width ?b" "m_Height c = m_Height ?b" using c(2) by (simp_all add: same_frame_def)
  have same: "?k = ?j"
  proof (cases "m_PosX s + 1 < Width s")
    case True
    with ints size show ?thesis by (simp add: on_screen_def GoTo_def Let_def)
  next
    case False
    then have "m_PosX s + 1 = Width s" using ints by simp
    moreover from this have "s\<lparr>m_PosX := Width s - 1\<rparr> = s" by (cases s) simp
    then have "s\<lparr>m_Buffer := c, m_PosX := Width s - 1, m_LineOverflown := True\<rparr>
        = s\<lparr>m_Buffer := c, m_LineOverflown := True\<rparr>" by (cases s) simp
    ultimately show ?thesis by (simp add: put_overflows_def)
  qed
  have "keeps_core i ?k"
    using safe_put_char [OF i, of cf "Width s" ch] run by (simp add: safe_step_def)
  moreover have "typed_into (nat (m_PosY s)) (nat (m_PosX s)) [(m_EraseChar s)\<lparr>sp_l := ch\<rparr>] ?b c"
    using c(2-5) ok by (simp add: typed_into_def put_cells_def overwrite_single)
  ultimately show ?thesis using run unfolding same by blast
qed

lemma typed_into_append:
  assumes b: "typed_into y x [z] b c" and c: "typed_into y (x + 1) zs c d"
    and y: "y < m_Height b" and x: "x + length zs < length (row b y)"
  shows "typed_into y x (z # zs) b d"
proof -
  have "row c y = overwrite x [z] (row b y)"
    using b y nth_rows [of y b] nth_rows [of y c] by (simp add: typed_into_def same_frame_def)
  moreover have "overwrite (x + 1) zs (overwrite x [z] (row b y)) = overwrite x (z # zs) (row b y)"
    using x by (auto simp: overwrite_def min_def add.commute [of "length zs"])
  ultimately show ?thesis
    using b c by (auto simp: typed_into_def intro: same_frame_trans)
qed

lemma text_loop_ascii:
  assumes "interp_core i" and "\<not> m_LineOverflown (m_Screen i)"
    and "list_all printable t" and "\<forall>c \<in> set t. cf_width cf (ucast c) \<noteq> 2" and "t \<noteq> []"
    and "CursorX i + int (length t) \<le> Width (m_Screen i)" and "length t \<le> fuel"
  shows "\<exists>c j. j = i\<lparr>m_Screen := (m_Screen i)\<lparr>m_Buffer := c,
        m_PosX := min (CursorX i + int (length t)) (Width (m_Screen i) - 1),
        m_LineOverflown := (CursorX i + int (length t) = Width (m_Screen i))\<rparr>\<rparr>
    \<and> text_loop cf (Width (m_Screen i)) fuel t i = Inr j \<and> keeps_core i j
    \<and> typed_into (nat (CursorY i)) (nat (CursorX i))
        (map (\<lambda>c. (m_EraseChar (m_Screen i))\<lparr>sp_l := ucast c\<rparr>) t) (m_Buffer (m_Screen i)) c"
  using assms
proof (induction t arbitrary: i fuel)
  case Nil
  then show ?case by simp
next
  case (Cons u t)
  let ?s = "m_Screen i" and ?y = "nat (CursorY i)" and ?X = "nat (CursorX i)"
  let ?q = "\<lambda>c :: u16. (m_EraseChar ?s)\<lparr>sp_l := ucast c\<rparr>"
  note s = screen_ints [OF interp_coreD(1) [OF Cons.prems(1)]]
  note ok = screen_okD(1,7,8) [OF interp_coreD(1) [OF Cons.prems(1)]]
  obtain f where f: "fuel = Suc f" "length t \<le> f" using Cons.prems(7) by (cases fuel) auto
  have fast: "fast_path (u # t)" using Cons.prems(3) by (intro printable_fast) auto
  have u: "ucast u \<noteq> (0 :: u32)" using Cons.prems(3) by (intro printable_char) simp
  have narrow: "\<not> IsDoubleWidth cf (m_Registry i) (ucast u)"
    using Cons.prems(4) by (simp add: IsDoubleWidth_def IsBase_unit)
  obtain c k where k: "k = i\<lparr>m_Screen := ?s\<lparr>m_Buffer := c, m_PosX := min (CursorX i + 1) (Width ?s - 1),
        m_LineOverflown := (CursorX i + 1 = Width ?s)\<rparr>\<rparr>"
    "put_char cf (Width ?s) (ucast u) i = Inr k" "keeps_core i k"
    "typed_into ?y ?X [?q u] (m_Buffer ?s) c"
    using put_narrow [OF Cons.prems(1,2) narrow] by blast
  have size: "m_Width c = m_Width (m_Buffer ?s)" "m_Height c = m_Height (m_Buffer ?s)"
    using k(4) by (simp_all add: typed_into_def same_frame_def)
  have step: "text_loop cf (Width ?s) fuel (u # t) i = text_loop cf (Width ?s) f t k"
    using f(1) fast u k(2) by (subst text_loop.simps) (simp add: Append_def assertR_def)
  show ?case
  proof (cases "t = []")
    case True
    then have "text_loop cf (Width ?s) f t k = Inr k" by (subst text_loop.simps) simp
    then show ?thesis
      using True step k by (intro exI [of _ c] exI [of _ k] conjI) (simp_all add: k(1))
  next
    case False
    then have room: "CursorX i + 1 < Width ?s" "0 \<le> CursorX i"
      using Cons.prems(6) s by (cases t; simp)+
    then have X: "CursorX k = CursorX i + 1" "nat (CursorX k) = ?X + 1" "CursorY k = CursorY i"
      "\<not> m_LineOverflown (m_Screen k)" "m_EraseChar (m_Screen k) = m_EraseChar ?s"
      "Width (m_Screen k) = Width ?s" "m_Buffer (m_Screen k) = c"
      using size by (auto simp: k(1))
    have fits: "CursorX k + int (length t) \<le> Width (m_Screen k)" using X Cons.prems(6) by simp
    from Cons.IH [OF keeps_coreD(1) [OF k(3)] X(4) _ _ False fits f(2)] Cons.prems(3,4)
    obtain d j where j: "j = k\<lparr>m_Screen := (m_Screen k)\<lparr>m_Buffer := d,
        m_PosX := min (CursorX k + int (length t)) (Width (m_Screen k) - 1),
        m_LineOverflown := (CursorX k + int (length t) = Width (m_Screen k))\<rparr>\<rparr>"
      "text_loop cf (Width (m_Screen k)) f t k = Inr j" "keeps_core k j"
      "typed_into (nat (CursorY k)) (nat (CursorX k))
        (map (\<lambda>c. (m_EraseChar (m_Screen k))\<lparr>sp_l := ucast c\<rparr>) t) (m_Buffer (m_Screen k)) d"
      by auto
    have "?X + length (map ?q t) < length (row (m_Buffer ?s) ?y)"
      using ok s Cons.prems(6) by simp
    moreover have "?y < m_Height (m_Buffer ?s)" using s by auto
    ultimately have "typed_into ?y ?X (?q u # map ?q t) (m_Buffer ?s) d"
      using typed_into_append [OF k(4)] j(4) X by simp
    moreover have "j = i\<lparr>m_Screen := ?s\<lparr>m_Buffer := d,
        m_PosX := min (CursorX i + int (length (u # t))) (Width ?s - 1),
        m_LineOverflown := (CursorX i + int (length (u # t)) = Width ?s)\<rparr>\<rparr>"
      using j(1) X(1,6) by (simp add: k(1) algebra_simps)
    ultimately show ?thesis
      using step j(2,3) X(6) keeps_core_trans [OF k(3) j(3)]
      by (intro exI [of _ d] exI [of _ j] conjI) simp_all
  qed
qed

lemma demo_not_overflown: "\<not> m_LineOverflown (m_Screen demo_terminal)"
  by (simp add: demo_terminal_def SetScreenResizeAllowed_def InterpreterImpl_init_def
      UpdateCharacterAttributes_def on_screen_def Let_def screen_attributes set_erase_char_def
      SetEraseChar_def Rendition_init_def Screen_init_def GoToDefaultPosition_def GoTo_def)

lemma unat_of_char: "unat (of_char c :: u16) = of_char c"
proof -
  have "(of_char c :: nat) mod 256 < 65536" by (rule less_trans [OF mod_less_divisor]) simp_all
  then have "(of_char c :: nat) < 65536" by (simp only: of_char_mod_256)
  then have "unat (word_of_nat (of_char c) :: u16) = of_char c" by (simp add: unat_of_nat)
  then show ?thesis by (simp add: of_nat_of_char)
qed

lemma ucast_of_char: "ucast (of_char c :: u16) = (of_char c :: u32)"
  using unat_of_char [of c] of_nat_of_char [of c, where ?'a = "32 word"]
  by (simp add: unsigned_def of_nat_nat [symmetric])

lemma append_to_current_ascii:
  assumes i: "interp_core i" and input: "list_all printable input" "input \<noteq> []"
  shows "append_to_current cf input i = Inr (input, i)"
proof -
  obtain c where c: "GetCh (m_Screen i) = Inr c" using GetCh_ok [OF interp_coreD(1) [OF i]] by blast
  have same: "i\<lparr>m_Registry := m_Registry i\<rparr> = i" by simp
  show ?thesis
    using c input printable_fast [OF input]
    by (simp add: append_to_current_def Append_def Let_def same)
qed

text \<open>
  C24: a run of printable ASCII that fits on the rest of the line appears there: the cells from
  the cursor on hold the letters with the attributes in force, the line no longer counts as continued
  on the next, and the cursor is behind the last letter or, at the right edge, on it with the wrap
  pending. No other cell and no other line's flag changes, nor the scrollback, the registry, or anything
  else of the interpreter and its screen.
\<close>

theorem ProcessText_ascii:
  assumes i: "interp_core i" "\<not> m_LineOverflown (m_Screen i)" "m_TranslateMap i = None"
    and t: "t \<noteq> []" "\<forall>c \<in> set t. 32 \<le> (of_char c :: nat) \<and> (of_char c :: nat) < 127"
    and fits: "CursorX i + int (length t) \<le> Width (m_Screen i)"
    and cf: "cf_utf16 cf t = Some (map of_char t)" "\<forall>c \<in> set t. cf_width cf (of_char c) \<noteq> 2"
  defines "s \<equiv> m_Screen i" and "y \<equiv> nat (CursorY i)" and "b \<equiv> m_Buffer (m_Screen i)"
  shows "\<exists>c. ProcessText cf t i = Inr (i\<lparr>m_Screen := s\<lparr>m_Buffer := c,
        m_PosX := min (CursorX i + int (length t)) (Width s - 1),
        m_LineOverflown := (CursorX i + int (length t) = Width s)\<rparr>\<rparr>)
    \<and> same_frame b c \<and> back_lines c = back_lines b
    \<and> rows c = (rows b)[y := overwrite (nat (CursorX i))
         (map (\<lambda>c. (m_EraseChar s)\<lparr>sp_l := of_char c\<rparr>) t) (row b y)]
    \<and> wraps c = (wraps b)[y := False]"
proof -
  let ?u = "map of_char t :: u16 list"
  have u: "list_all printable ?u" "?u \<noteq> []"
    using t by (auto simp: list_all_iff printable_def word_le_nat_alt word_less_nat_alt unat_of_char)
  have "\<forall>c \<in> set ?u. cf_width cf (ucast c) \<noteq> 2" using cf(2) by (auto simp: ucast_of_char)
  from text_loop_ascii [OF i(1,2) u(1) this u(2), of "length ?u"] fits obtain c j where
    "j = i\<lparr>m_Screen := s\<lparr>m_Buffer := c, m_PosX := min (CursorX i + int (length t)) (Width s - 1),
        m_LineOverflown := (CursorX i + int (length t) = Width s)\<rparr>\<rparr>"
    "text_loop cf (Width s) (length ?u) ?u i = Inr j"
    "typed_into y (nat (CursorX i)) (map (\<lambda>c. (m_EraseChar s)\<lparr>sp_l := ucast c\<rparr>) ?u) b c"
    by (auto simp: s_def y_def b_def)
  then show ?thesis
    using append_to_current_ascii [OF i(1) u, of cf] i(3) t(1) cf(1)
    by (intro exI [of _ c]) (simp add: ProcessText_def ConvertUTF8ToUTF16_def typed_into_def
        ucast_of_char o_def s_def)
qed

text \<open>Writing over the last line of a screen up to its right edge.\<close>

theorem ProcessText_ascii_witness:
  "\<exists>c. let i = on_screen (GoTo 14 3) demo_terminal; s = m_Screen i in
    ProcessText simple_cf ''ls -la'' i = Inr (i\<lparr>m_Screen := s\<lparr>m_Buffer := c, m_PosX := 19,
      m_LineOverflown := True\<rparr>\<rparr>) \<and> wraps c = (wraps (m_Buffer s))[3 := False]
    \<and> map sp_l (take 6 (drop 14 (rows c ! 3))) = map of_char ''ls -la''"
proof -
  let ?i = "on_screen (GoTo 14 3) demo_terminal"
  have core: "interp_core ?i" using keeps_goto [OF demo_terminal_core] by (rule keeps_coreD)
  have sel: "\<not> m_LineOverflown (m_Screen ?i)" "m_TranslateMap ?i = None" "CursorX ?i = 14"
    "CursorY ?i = 3" "Width (m_Screen ?i) = 20" "Height (m_Screen ?i) = 4"
    by (simp_all add: on_screen_def GoTo_def Let_def)
  have cf: "cf_utf16 simple_cf ''ls -la'' = Some (map of_char ''ls -la'')"
    "\<forall>c \<in> set ''ls -la''. cf_width simple_cf (of_char c) \<noteq> 2"
    by (simp_all add: simple_cf_def)
  let ?b = "m_Buffer (m_Screen ?i)"
  let ?cells = "map (\<lambda>c. (m_EraseChar (m_Screen ?i))\<lparr>sp_l := of_char c\<rparr>) ''ls -la''"
  from ProcessText_ascii [OF core sel(1,2), of "''ls -la''" simple_cf] sel cf
  obtain c where c: "ProcessText simple_cf ''ls -la'' ?i = Inr (?i\<lparr>m_Screen := (m_Screen ?i)\<lparr>m_Buffer := c,
      m_PosX := 19, m_LineOverflown := True\<rparr>\<rparr>)" "wraps c = (wraps ?b)[3 := False]"
    "rows c = (rows ?b)[3 := overwrite 14 ?cells (row ?b 3)]"
    by fastforce
  note ok = screen_okD(1,7,8) [OF interp_coreD(1) [OF core]]
  have "length (rows ?b) = 4" "length (row ?b 3) = 20" using ok sel by simp_all
  then have "map sp_l (take 6 (drop 14 (rows c ! 3))) = map of_char ''ls -la''"
    by (simp add: c(3) overwrite_def)
  with c(1,2) show ?thesis unfolding Let_def by blast
qed

end
