(* ===== verification/Terminal.thy ===== *)
theory Terminal
  imports ParserTheorems InterpreterTheorems
begin

text \<open>
  The terminal as the shell view runs it: the parser and the interpreter side by side, as in the
  callback that \<open>ShellState.mm\<close> gives to the task with \<open>SetOnChildOutput\<close>. Each read of the child's
  output goes through \<open>Parse\<close>; the commands, if there are any, go to \<open>Interpret\<close>. The callback
  posts the second half to the main queue, which runs its blocks in the order they were posted,
  so that the composition below is the order of effects on either component.
\<close>

type_synonym Terminal = "ParserImpl \<times> Interp"

definition OnChildOutput :: "CF \<Rightarrow> bytes \<Rightarrow> Terminal \<Rightarrow> Terminal res" where
  "OnChildOutput cf data t = (case t of (p, i) \<Rightarrow>
     bindR (Parse data p) (\<lambda>(cmds, p).
     if cmds = [] then Inr (p, i)
     else bindR (Interpret cf cmds i) (\<lambda>i. Inr (p, i))))"

text \<open>A session: the reads one after the other.\<close>

definition session :: "CF \<Rightarrow> bytes list \<Rightarrow> Terminal \<Rightarrow> Terminal res" where
  "session cf reads t = foldR (\<lambda>t data. OnChildOutput cf data t) t reads"

lemma Interpret_append:
  "Interpret cf (cs @ ds) i = bindR (Interpret cf cs i) (Interpret cf ds)"
  by (simp add: Interpret_def [abs_def] foldR_append)

lemma Interpret_Nil: "Interpret cf [] i = Inr i"
  by (simp add: Interpret_def)

lemma OnChildOutput_eq:
  "OnChildOutput cf data (p, i) =
     bindR (Parse data p) (\<lambda>(cmds, p). bindR (Interpret cf cmds i) (\<lambda>i. Inr (p, i)))"
  unfolding OnChildOutput_def prod.case
  by (intro arg_cong2 [where f = bindR] refl ext) (auto simp: Interpret_Nil)

text \<open>The session is the interpreter run over all the commands the parser hands out.\<close>

lemma session_commands:
  "Parse_chunks reads p = Inr (cs, p') \<Longrightarrow>
    session cf reads (p, i) = bindR (Interpret cf cs i) (\<lambda>i. Inr (p', i))"
proof (induction reads arbitrary: p i cs)
  case Nil
  then show ?case by (simp add: session_def Interpret_Nil)
next
  case (Cons r rs)
  from Cons.prems obtain ds p1 es where
    p1: "Parse r p = Inr (ds, p1)" "Parse_chunks rs p1 = Inr (es, p')" and cs: "cs = ds @ es"
    by (auto simp: bindR_eq_Inr)
  have "session cf (r # rs) (p, i) =
      bindR (Interpret cf ds i) (\<lambda>j. session cf rs (p1, j))"
    by (simp add: session_def OnChildOutput_eq p1(1) bindR_assoc)
  also have "\<dots> = bindR (Interpret cf ds i) (\<lambda>j. bindR (Interpret cf es j) (\<lambda>i. Inr (p', i)))"
    by (simp add: Cons.IH [OF p1(2)])
  finally show ?case by (simp add: cs Interpret_append bindR_assoc)
qed

lemma Parse_fits:
  assumes "parser_ok p" and "Parse bs p = Inr (cs, p')"
  shows "list_all payload_fits cs \<and> between_calls p'"
proof -
  from assms(2) obtain q where q: "foldR EatByte p bs = Inr q" "hand_out q = Inr (cs, p')"
    by (auto simp: Parse_hand_out bindR_eq_Inr)
  with EatBytes_result [OF assms(1), of bs] have "parser_ok q" by auto
  with hand_out_ok [of q] q(2) show ?thesis by auto
qed

lemma Parse_chunks_fits:
  "between_calls p \<Longrightarrow> Parse_chunks reads p = Inr (cs, p') \<Longrightarrow>
    list_all payload_fits cs \<and> between_calls p'"
proof (induction reads arbitrary: p cs)
  case (Cons r rs)
  from Cons.prems(2) obtain ds p1 es where
    "Parse r p = Inr (ds, p1)" "Parse_chunks rs p1 = Inr (es, p')" "cs = ds @ es"
    by (auto simp: bindR_eq_Inr)
  with Cons.IH [of p1 es] Parse_fits [of p r ds p1] Cons.prems(1) show ?case
    by (simp add: between_calls_def)
qed simp

lemma between_calls_init: "between_calls (ParserImpl_init log)"
  by (simp add: between_calls_def)
    (simp add: ParserImpl_init_def ScanUTF8ForValidSequenceLength_def)

text \<open>
  Where the parser stops: at the final byte of a sequence whose parameter it cannot negate, in one of
  the reads, all the reads before it having been taken.
\<close>

definition meets_overflow :: "bytes \<Rightarrow> ParserImpl \<Rightarrow> bool" where
  "meets_overflow bs p \<longleftrightarrow> (\<exists>xs b ys q. bs = xs @ b # ys \<and> foldR EatByte p xs = Inr q \<and> overflows q b)"

definition parser_stops :: "bytes list \<Rightarrow> ParserImpl \<Rightarrow> nat \<Rightarrow> bool" where
  "parser_stops reads p k \<longleftrightarrow> k < length reads \<and>
     (\<exists>cs q. Parse_chunks (take k reads) p = Inr (cs, q) \<and> Parse (reads ! k) q = Inl Signed_Overflow
       \<and> meets_overflow (reads ! k) q)"

lemma Parse_chunks_outcome:
  "between_calls p \<Longrightarrow> (\<exists>cs p'. Parse_chunks reads p = Inr (cs, p')) \<or>
    Parse_chunks reads p = Inl Signed_Overflow \<and> (\<exists>k. parser_stops reads p k)"
proof (induction reads arbitrary: p)
  case (Cons r rs)
  then have "parser_ok p" by (simp add: between_calls_def)
  from Parse_outcome [OF this, of r] show ?case
  proof (elim disjE exE conjE)
    fix cs q assume r: "Parse r p = Inr (cs, q)" and q: "between_calls q"
    from Cons.IH [OF q] show ?thesis
    proof (elim disjE exE conjE)
      fix ds p' assume "Parse_chunks rs q = Inr (ds, p')"
      with r show ?thesis by simp
    next
      fix k assume over: "Parse_chunks rs q = Inl Signed_Overflow" and "parser_stops rs q k"
      then have "parser_stops (r # rs) p (Suc k)" using r by (auto simp: parser_stops_def)
      with r over show ?thesis by auto
    qed
  next
    fix xs b ys q
    assume "Parse r p = Inl Signed_Overflow" "r = xs @ b # ys" "foldR EatByte p xs = Inr q" "overflows q b"
    moreover from this have "meets_overflow r p" unfolding meets_overflow_def by blast
    ultimately have "parser_stops (r # rs) p 0" "Parse_chunks (r # rs) p = Inl Signed_Overflow"
      by (simp_all add: parser_stops_def)
    then show ?thesis by blast
  qed
qed simp

lemma session_append:
  "session cf (rs @ ss) t = bindR (session cf rs t) (session cf ss)"
  by (simp add: session_def [abs_def] foldR_append)

text \<open>A session that the parser stops, with the interpreter run over what was handed out before.\<close>

lemma session_stops:
  assumes "parser_stops reads p k"
    and run: "\<And>cs q. Parse_chunks (take k reads) p = Inr (cs, q) \<Longrightarrow> \<exists>j. Interpret cf cs i = Inr j"
  shows "session cf reads (p, i) = Inl Signed_Overflow"
proof -
  from assms(1) obtain cs q where k: "k < length reads" and q: "Parse_chunks (take k reads) p = Inr (cs, q)"
    "Parse (reads ! k) q = Inl Signed_Overflow" by (auto simp: parser_stops_def)
  from run [OF q(1)] obtain j where "Interpret cf cs i = Inr j" by blast
  then have "session cf (take k reads) (p, i) = Inr (q, j)" by (simp add: session_commands [OF q(1)])
  moreover have "session cf (reads ! k # drop (Suc k) reads) (q, j) = Inl Signed_Overflow"
    using q(2) by (simp add: session_def OnChildOutput_eq)
  ultimately have "session cf (take k reads @ reads ! k # drop (Suc k) reads) (p, i) = Inl Signed_Overflow"
    by (simp add: session_append)
  then show ?thesis using id_take_nth_drop [OF k] by simp
qed

section \<open>Cursor reports\<close>

lemma GoTo_keeps_core:
  "interp_core i \<Longrightarrow> interp_core (on_screen (GoTo x y) i)"
  using keeps_on_screen [of i "GoTo x y"] keeps_GoTo interp_coreD(1) [of i]
  by (auto simp: keeps_core_def)

lemma Interpret_move_cursor:
  assumes i: "interp_core i" "\<not> m_OriginLineMode i"
    and x: "0 \<le> x" "x < Width (m_Screen i)" and y: "0 \<le> y" "y < Height (m_Screen i)"
  shows "Interpret cf (emitted [move_cursor Absolute (Some x) (Some y)]) i =
    Inr (on_screen (GoTo x y) i)"
  using i x y screen_ints [OF interp_coreD(1) [OF i(1)]]
  by (simp add: Interpret_def InterpretSingleCommand_def move_cursor_def ProcessMC_def mk_int_def
      in_int_def Let_def)

lemma Interpret_cursor_report:
  assumes i: "interp_core i" "\<not> m_OriginLineMode i"
  shows "Interpret cf [mk_cmd T_report (P_DeviceReport CursorPosition)] i =
    Inr (event (Ev_Output (CHR 27 # CHR ''['' # decimal_int (CursorY i + 1) @ CHR '';'' #
      decimal_int (CursorX i + 1) @ ''R'')) i)"
  using i screen_ints [OF interp_coreD(1) [OF i(1)]]
  by (simp add: Interpret_def InterpretSingleCommand_def ProcessReport_def mk_int_def in_int_def
      Response_def assertR_def interp_core_def)

lemma report_sequence:
  shows "SSCSISubmit (''6'' @ [CHR ''n'']) = Inr [Emit (mk_cmd T_report (P_DeviceReport CursorPosition))]"
    and "list_all CSI_ValidContents ''6''" "CSI_ValidTerminal CHR ''n''"
  by (simp_all add: SSCSISubmit_def CSI_handlers_def CSI_n_def from_chars_int_def from_chars_u32_def
      is_digit_def dec_val_def CSI_ValidContents_def CSI_ValidTerminal_def Let_def in_int_def)

text \<open>One complete control sequence through the parser and the interpreter.\<close>

lemma Parse_sequence:
  assumes p: "between_calls p" "m_SubState p = ES_Text" "m_Stock p = []"
    and s: "list_all CSI_ValidContents body" "CSI_ValidTerminal t" "SSCSISubmit (body @ [t]) = Inr es"
  shows "\<exists>q. Parse ([CHR 27, CHR ''[''] @ body @ [t]) p = Inr (emitted es, q)
    \<and> between_calls q \<and> m_SubState q = ES_Text \<and> m_Stock q = []"
proof -
  from CSI_sequence [OF p(2) s] obtain q where q:
    "foldR EatByte p ([CHR 27, CHR ''[''] @ body @ [t]) = Inr q" "m_SubState q = ES_Text" "m_Stock q = []"
    "m_Output q = emitted es"
    using p by (auto simp: between_calls_def pending_text_def)
  then have run: "Parse ([CHR 27, CHR ''[''] @ body @ [t]) p = Inr (emitted es, q\<lparr>m_Output := []\<rparr>)"
    by (simp add: Parse_hand_out hand_out_empty)
  moreover have "between_calls (q\<lparr>m_Output := []\<rparr>)"
    using Parse_fits [OF _ run] p(1) by (simp add: between_calls_def)
  ultimately show ?thesis using q(2,3) by auto
qed

lemma OnChildOutput_sequence:
  assumes "between_calls p" "m_SubState p = ES_Text" "m_Stock p = []"
    and "list_all CSI_ValidContents body" "CSI_ValidTerminal t" "SSCSISubmit (body @ [t]) = Inr es"
  shows "\<exists>q. OnChildOutput cf ([CHR 27, CHR ''[''] @ body @ [t]) (p, i) =
      bindR (Interpret cf (emitted es) i) (\<lambda>j. Inr (q, j))
    \<and> between_calls q \<and> m_SubState q = ES_Text \<and> m_Stock q = []"
  using Parse_sequence [OF assms] by (auto simp: OnChildOutput_eq)

section \<open>A character cut in two\<close>

lemma EatBytes_text:
  assumes "m_SubState p = ES_Text" "length (m_Stock p) + length bs \<le> UTF8CharsStockSize"
    and "list_all (\<lambda>b. \<not> byte_val b < 32 \<and> byte_val b \<noteq> 127) bs"
  shows "foldR EatByte p bs = Inr (p\<lparr>m_Stock := m_Stock p @ bs\<rparr>)"
  using assms
proof (induction bs arbitrary: p)
  case (Cons b bs)
  then have "EatByte p b = Inr (p\<lparr>m_Stock := m_Stock p @ [b]\<rparr>)"
    by (simp add: EatByte_def numeral_3_eq_3 SSTextConsume_def ConsumeNextUTF8TextChar_def)
  with Cons show ?case by simp
qed simp

text \<open>The first byte of a combining accent stays behind, and the second completes it.\<close>

lemma Parse_half_accent:
  "Parse (CHR ''e'' # [CHR 0xCC]) (ParserImpl_init log) =
    Inr ([text_cmd ''e''], (ParserImpl_init log)\<lparr>m_Stock := [CHR 0xCC]\<rparr>)"
proof -
  have "foldR EatByte (ParserImpl_init log) (CHR ''e'' # [CHR 0xCC]) =
      Inr ((ParserImpl_init log)\<lparr>m_Stock := CHR ''e'' # [CHR 0xCC]\<rparr>)"
    using EatBytes_text [of "ParserImpl_init log" "CHR ''e'' # [CHR 0xCC]"]
    by (simp add: ParserImpl_init_def UTF8CharsStockSize_def)
  moreover have "ScanUTF8ForValidSequenceLength (CHR ''e'' # [CHR 0xCC]) = 1" by code_simp
  ultimately show ?thesis
    by (simp add: Parse_hand_out hand_out_eq Let_def text_cmd_def ParserImpl_init_def)
qed

lemma Parse_rest_of_accent:
  assumes s: "list_all CSI_ValidContents body" "CSI_ValidTerminal t" "SSCSISubmit (body @ [t]) = Inr es"
  shows "\<exists>q. Parse (CHR 0x81 # [CHR 27, CHR ''[''] @ body @ [t])
      ((ParserImpl_init log)\<lparr>m_Stock := [CHR 0xCC]\<rparr>) =
    Inr ([text_cmd [CHR 0xCC, CHR 0x81]] @ emitted es, q)"
proof -
  let ?p = "(ParserImpl_init log)\<lparr>m_Stock := [CHR 0xCC]\<rparr>"
    and ?q = "(ParserImpl_init log)\<lparr>m_Stock := [CHR 0xCC, CHR 0x81]\<rparr>"
  have "EatByte ?p (CHR 0x81) = Inr ?q"
    using EatBytes_text [of ?p "[CHR 0x81]"] by (simp add: ParserImpl_init_def UTF8CharsStockSize_def)
  moreover obtain r where "foldR EatByte ?q ([CHR 27, CHR ''[''] @ body @ [t]) = Inr r"
    "m_Stock r = []" "m_Output r = m_Output ?q @ pending_text ?q @ emitted es"
    using CSI_sequence [OF _ s, of ?q] by (auto simp: ParserImpl_init_def)
  ultimately show ?thesis
    by (simp add: Parse_hand_out hand_out_empty pending_text_def ParserImpl_init_def)
qed

end
