(* ===== verification/OperationId.thy ===== *)
theory OperationId
  imports Decimal
begin

text \<open>
  Identities of execution records (\<open>Source/Operations/source/OperationId.cpp\<close>): a positive
  64-bit sequence number with the textual form \<open>op-<decimal>\<close>.
\<close>

type_synonym OperationId = u64

definition op_prefix :: bytes where "op_prefix = ''op-''"

definition ToString :: "OperationId \<Rightarrow> bytes" where
  "ToString i = op_prefix @ decimal (unat i)"

text \<open>The body of \<open>Parse\<close> reads \<open>*first\<close>, which is there because the text is longer than the prefix.\<close>

definition OperationId_Parse :: "bytes \<Rightarrow> OperationId option" where
  "OperationId_Parse serialized =
     (if take (length op_prefix) serialized \<noteq> op_prefix \<or> length serialized = length op_prefix then None
      else let text = drop (length op_prefix) serialized in
        if hd text = CHR ''0'' then None
        else case from_chars_u64 text 0 of (error, sequence, parsed_until) \<Rightarrow>
          if error \<noteq> errc_ok \<or> parsed_until \<noteq> [] \<or> sequence = 0 then None else Some sequence)"

text \<open>
  The parser accepts exactly what \<open>ToString\<close> prints for a positive number, and gives back that
  number.
\<close>

lemma digits_of_decimal [simp]:
  "takeWhile is_digit (decimal n) = decimal n" "dropWhile is_digit (decimal n) = []"
  using dec_digits [of n] by (simp_all add: takeWhile_eq_all_conv list_all_iff)

lemma Parse_ToString:
  assumes "i \<noteq> 0"
  shows "OperationId_Parse (ToString i) = Some i"
proof -
  have "0 < unat i" using assms by (simp add: word_unat_eq_iff)
  then have "hd (decimal (unat i)) \<noteq> CHR ''0''" by (rule decimal_first)
  moreover have "unat i < 2 ^ 64" using unsigned_less [of i] by simp
  ultimately show ?thesis
    using assms by (simp add: OperationId_Parse_def ToString_def op_prefix_def from_chars_u64_def dec_val_dec)
qed

lemma ToString_Parse:
  assumes "OperationId_Parse s = Some i"
  shows "ToString i = s \<and> i \<noteq> 0"
proof -
  let ?t = "drop (length op_prefix) s"
  have p: "take (length op_prefix) s = op_prefix" "?t \<noteq> []" "hd ?t \<noteq> CHR ''0''"
    using assms by (auto simp: OperationId_Parse_def Let_def split: if_splits)
  have r: "from_chars_u64 ?t 0 = (errc_ok, i, [])" "i \<noteq> 0"
    using assms p by (auto simp: OperationId_Parse_def Let_def split: if_splits prod.splits)
  then have "dropWhile is_digit ?t = []" by (simp add: from_chars_u64_def Let_def split: if_splits)
  then have all: "list_all is_digit ?t" by (simp add: dropWhile_eq_Nil_conv list_all_iff)
  then have "takeWhile is_digit ?t = ?t" by (simp add: takeWhile_eq_all_conv list_all_iff)
  with r have i: "i = word_of_nat (dec_val ?t)" "dec_val ?t < 2 ^ 64"
    by (simp_all add: from_chars_u64_def Let_def split: if_splits)
  have "decimal (unat i) = ?t"
    using i decimal_dec_val [OF p(2) all p(3)] by (simp add: unat_of_nat)
  then have "ToString i = take (length op_prefix) s @ ?t" by (simp add: ToString_def p(1))
  then show ?thesis using r(2) by simp
qed

text \<open>
  The textual form of an operation identity is canonical: \<open>Parse\<close> accepts a text exactly when it
  is the one \<open>ToString\<close> prints for a positive identity, which is the result.
\<close>

theorem OperationId_roundtrip:
  "OperationId_Parse s = Some i \<longleftrightarrow> i \<noteq> 0 \<and> s = ToString i"
  using Parse_ToString [of i] ToString_Parse [of s i] by blast

lemma ToString_inj: "ToString i = ToString j \<longleftrightarrow> i = j"
proof
  assume "ToString i = ToString j"
  then have "dec_val (decimal (unat i)) = dec_val (decimal (unat j))" by (simp add: ToString_def)
  then show "i = j" by (simp add: dec_val_dec word_unat_eq_iff)
qed simp

end
