(* ===== verification/JsonValue.thy ===== *)
theory JsonValue
  imports Decimal
begin

text \<open>
  JSON documents as the codecs of \<open>Source/Operations\<close> see them through rapidjson: the value a
  parsed document holds, the tests on the type of a value, and the loop that matches the members of
  an object against the names that are expected. The parser and the writer themselves are a vendored
  library and a parameter: a record of two functions, with the one law the codecs rely on, that the
  text written for a value with plain strings and 64-bit numbers parses to that value.
\<close>

text \<open>A number is a \<open>JNum\<close> when it fits \<open>int64_t\<close> or \<open>uint64_t\<close>, and a \<open>JReal\<close> otherwise.\<close>

datatype json =
    JNull
  | JBool bool
  | JNum int
  | JReal bytes
  | JString bytes
  | JArray "json list"
  | JObject "(bytes \<times> json) list"

datatype parse_flags = Parse_Default | Parse_ValidateEncoding | Parse_ValidateEncoding_Iterative

record Json =
  json_parse :: "parse_flags \<Rightarrow> bytes \<Rightarrow> json option"
  json_print :: "json \<Rightarrow> bytes"

definition plain_char :: "byte \<Rightarrow> bool" where
  "plain_char c \<longleftrightarrow> 32 \<le> byte_val c \<and> byte_val c < 127 \<and> c \<noteq> CHR 0x22 \<and> c \<noteq> CHR 0x5C"

fun writable :: "json \<Rightarrow> bool" where
  "writable JNull = True"
| "writable (JBool _) = True"
| "writable (JNum n) = (- (2 ^ 63) \<le> n \<and> n < 2 ^ 64)"
| "writable (JReal _) = False"
| "writable (JString s) = list_all plain_char s"
| "writable (JArray vs) = list_all writable vs"
| "writable (JObject ms) = list_all (\<lambda>(k, v). list_all plain_char k \<and> writable v) ms"

definition json_ok :: "Json \<Rightarrow> bool" where
  "json_ok J \<longleftrightarrow> (\<forall>flags v. writable v \<longrightarrow> json_parse J flags (json_print J v) = Some v)"

lemma json_okD: "json_ok J \<Longrightarrow> writable v \<Longrightarrow> json_parse J flags (json_print J v) = Some v"
  by (simp add: json_ok_def)

section \<open>Types of values\<close>

definition IsUint :: "json \<Rightarrow> bool" where
  "IsUint v = (case v of JNum n \<Rightarrow> 0 \<le> n \<and> n < 2 ^ 32 | _ \<Rightarrow> False)"

definition IsUint64 :: "json \<Rightarrow> bool" where
  "IsUint64 v = (case v of JNum n \<Rightarrow> 0 \<le> n \<and> n < 2 ^ 64 | _ \<Rightarrow> False)"

definition IsInt :: "json \<Rightarrow> bool" where
  "IsInt v = (case v of JNum n \<Rightarrow> in_int n | _ \<Rightarrow> False)"

definition IsInt64 :: "json \<Rightarrow> bool" where
  "IsInt64 v = (case v of JNum n \<Rightarrow> - (2 ^ 63) \<le> n \<and> n < 2 ^ 63 | _ \<Rightarrow> False)"

definition IsNumber :: "json \<Rightarrow> bool" where
  "IsNumber v = (case v of JNum _ \<Rightarrow> True | JReal _ \<Rightarrow> True | _ \<Rightarrow> False)"

text \<open>\<open>GetUint\<close>, \<open>GetInt64\<close> and their kin, which the code calls behind the test above.\<close>

definition GetNumber :: "json \<Rightarrow> int" where
  "GetNumber v = (case v of JNum n \<Rightarrow> n | _ \<Rightarrow> 0)"

lemma json_types [simp]:
  "IsUint (JNum n) \<longleftrightarrow> 0 \<le> n \<and> n < 2 ^ 32" "IsUint64 (JNum n) \<longleftrightarrow> 0 \<le> n \<and> n < 2 ^ 64"
  "IsInt (JNum n) \<longleftrightarrow> in_int n" "IsInt64 (JNum n) \<longleftrightarrow> - (2 ^ 63) \<le> n \<and> n < 2 ^ 63"
  "IsNumber (JNum n)" "GetNumber (JNum n) = n"
  by (simp_all add: IsUint_def IsUint64_def IsInt_def IsInt64_def IsNumber_def GetNumber_def)

text \<open>\<open>GetString\<close> and \<open>GetArray\<close> behind the tests \<open>IsString\<close> and \<open>IsArray\<close>.\<close>

definition json_string :: "'e \<Rightarrow> json \<Rightarrow> 'e + bytes" where
  "json_string failure v = (case v of JString s \<Rightarrow> Inr s | _ \<Rightarrow> Inl failure)"

definition json_array :: "'e \<Rightarrow> json \<Rightarrow> 'e + json list" where
  "json_array failure v = (case v of JArray vs \<Rightarrow> Inr vs | _ \<Rightarrow> Inl failure)"

lemma json_string_Inr [simp]: "json_string e v = Inr s \<longleftrightarrow> v = JString s"
  by (cases v) (simp_all add: json_string_def)

lemma json_array_Inr [simp]: "json_array e v = Inr vs \<longleftrightarrow> v = JArray vs"
  by (cases v) (simp_all add: json_array_def)

lemma json_string_array [simp]: "json_string e (JString s) = Inr s" "json_array e (JArray vs) = Inr vs"
  by simp_all

section \<open>Members of an object\<close>

text \<open>The loop over the members: each goes to the slot of its name, which must be known and free.\<close>

fun index_of :: "bytes \<Rightarrow> bytes list \<Rightarrow> nat option" where
  "index_of name [] = None"
| "index_of name (n # ns) = (if name = n then Some 0 else map_option Suc (index_of name ns))"

fun fill_members ::
  "'e \<Rightarrow> 'e \<Rightarrow> bytes list \<Rightarrow> (bytes \<times> json) list \<Rightarrow> json option list \<Rightarrow> 'e + json option list" where
  "fill_members unexpected duplicate names [] result = Inr result"
| "fill_members unexpected duplicate names ((name, v) # ms) result =
     (case index_of name names of
        None \<Rightarrow> Inl unexpected
      | Some i \<Rightarrow> if result ! i \<noteq> None then Inl duplicate
          else fill_members unexpected duplicate names ms (result[i := Some v]))"

definition collect_members :: "'e \<Rightarrow> 'e \<Rightarrow> 'e \<Rightarrow> bytes list \<Rightarrow> (bytes \<times> json) list \<Rightarrow> 'e + json list" where
  "collect_members unexpected duplicate missing names ms =
     bindR (fill_members unexpected duplicate names ms (replicate (length names) None)) (\<lambda>result.
     if None \<in> set result then Inl missing else Inr (map the result))"

lemma index_of_nth: "distinct names \<Longrightarrow> i < length names \<Longrightarrow> index_of (names ! i) names = Some i"
proof (induction names arbitrary: i)
  case (Cons n ns)
  then show ?case by (cases i) auto
qed simp

lemma fill_members_zip:
  assumes "distinct names" "length vs = length names" "k \<le> length names"
  shows "fill_members u d names (drop k (zip names vs)) (map Some (take k vs) @ replicate (length names - k) None)
    = Inr (map Some vs)"
  using assms(3)
proof (induction "length names - k" arbitrary: k)
  case 0
  then show ?case using assms(2) by simp
next
  case (Suc m)
  then have k: "k < length names" by simp
  then have "drop k (zip names vs) = (names ! k, vs ! k) # drop (Suc k) (zip names vs)"
    using assms(2) by (subst Cons_nth_drop_Suc [symmetric]) auto
  moreover have "(map Some (take k vs) @ replicate (length names - k) None)[k := Some (vs ! k)]
      = map Some (take (Suc k) vs) @ replicate (length names - Suc k) None"
  proof -
    have "replicate (length names - k) None = None # replicate (length names - Suc k) (None :: json option)"
      using k by (metis Suc_diff_Suc replicate_Suc)
    moreover have "length (map Some (take k vs)) = k" using k assms(2) by simp
    ultimately show ?thesis
      using k assms(2) by (simp add: list_update_append take_Suc_conv_app_nth)
  qed
  moreover have "(map Some (take k vs) @ replicate (length names - k) None) ! k = None"
    using k assms(2) by (simp add: nth_append)
  ultimately show ?case
    using Suc k assms(1) by (simp add: index_of_nth)
qed

lemma collect_members_zip:
  assumes "distinct names" "length vs = length names"
  shows "collect_members u d m names (zip names vs) = Inr vs"
  using fill_members_zip [OF assms, of 0 u d] by (simp add: collect_members_def comp_def)

lemma collect_members_length:
  "collect_members u d m names ms = Inr vs \<Longrightarrow> length vs = length names"
proof -
  have "fill_members u d names ms r = Inr r' \<Longrightarrow> length r' = length r" for r r'
    by (induction u d names ms r rule: fill_members.induct) (auto split: option.splits if_splits)
  then show "collect_members u d m names ms = Inr vs \<Longrightarrow> length vs = length names"
    by (fastforce simp: collect_members_def bindR_eq_Inr split: if_splits)
qed

section \<open>Tables of tokens\<close>

text \<open>The loop over an array of pairs of a token and a value.\<close>

definition lookup_token :: "'e \<Rightarrow> 'e \<Rightarrow> (bytes \<times> 'a) list \<Rightarrow> json \<Rightarrow> 'e + 'a" where
  "lookup_token not_string unknown tokens v = (case v of
      JString s \<Rightarrow> (case map_of tokens s of None \<Rightarrow> Inl unknown | Some x \<Rightarrow> Inr x)
    | _ \<Rightarrow> Inl not_string)"

section \<open>Loops that build a list\<close>

fun mapR :: "('a \<Rightarrow> 'e + 'b) \<Rightarrow> 'a list \<Rightarrow> 'e + 'b list" where
  "mapR f [] = Inr []"
| "mapR f (x # xs) = bindR (f x) (\<lambda>y. bindR (mapR f xs) (\<lambda>ys. Inr (y # ys)))"

lemma mapR_all_Inr: "(\<And>x. x \<in> set xs \<Longrightarrow> f x = Inr (g x)) \<Longrightarrow> mapR f xs = Inr (map g xs)"
  by (induction xs) auto

lemma mapR_Inr: "mapR f xs = Inr ys \<longleftrightarrow> list_all2 (\<lambda>x y. f x = Inr y) xs ys"
  by (induction xs arbitrary: ys) (auto simp: bindR_eq_Inr list_all2_Cons1)

section \<open>Time points\<close>

text \<open>
  \<open>std::chrono::system_clock\<close> of libc++ counts microseconds in an \<open>int64_t\<close>. The conversions to and
  from nanoseconds use 128-bit integers, where the products cannot overflow. A remainder is zero
  with the truncated division of C++ exactly when it is with \<open>mod\<close>, and then the quotients agree.
\<close>

definition Period_num :: int where "Period_num = 1"
definition Period_den :: int where "Period_den = 1000000"

definition in_int64 :: "int \<Rightarrow> bool" where
  "in_int64 v \<longleftrightarrow> - (2 ^ 63) \<le> v \<and> v < 2 ^ 63"

definition epoch_nanoseconds :: "'e \<Rightarrow> 'e \<Rightarrow> int \<Rightarrow> 'e + int" where
  "epoch_nanoseconds not_representable out_of_range ticks =
     (let numerator = ticks * Period_num * 1000000000; denominator = Period_den in
      if numerator mod denominator \<noteq> 0 then Inl not_representable
      else let value = numerator div denominator in
        if \<not> in_int64 value then Inl out_of_range else Inr value)"

definition time_point :: "'e \<Rightarrow> 'e \<Rightarrow> int \<Rightarrow> 'e + int" where
  "time_point not_representable out_of_range nanoseconds =
     (let numerator = nanoseconds * Period_den; denominator = Period_num * 1000000000 in
      if numerator mod denominator \<noteq> 0 then Inl not_representable
      else let ticks = numerator div denominator in
        if \<not> in_int64 ticks then Inl out_of_range else Inr ticks)"

lemma epoch_nanoseconds_Inr: "epoch_nanoseconds e f t = Inr ns \<longleftrightarrow> ns = 1000 * t \<and> in_int64 ns"
  by (auto simp: epoch_nanoseconds_def Period_num_def Period_den_def Let_def)

lemma time_point_Inr: "time_point e f ns = Inr t \<longleftrightarrow> ns = 1000 * t \<and> in_int64 t"
  by (auto simp: time_point_def Period_num_def Period_den_def Let_def)

end
