(* ===== verification/OperationPlan.thy ===== *)
theory OperationPlan
  imports Prelude
begin

text \<open>
  Plans of file operations (\<open>Source/Operations/source/OperationPlan.h\<close> and \<open>.cpp\<close>): immutable
  values that \<open>OperationPlan::Create\<close> makes out of an unchecked input. An enumeration has one
  value more than the source names, for the bit patterns outside of it that the source tests for.
\<close>

datatype OperationPlanType =
    Type_Copy | Type_Move | Type_Rename | Type_Trash | Type_PermanentDelete | Type_Invalid

datatype OperationPlanDestinationKind = Kind_Directory | Kind_ExactItem | Kind_Invalid

datatype OperationPlanConflictDecision =
    Decision_Ask | Decision_Replace | Decision_Skip | Decision_KeepBoth | Decision_RenameNew
  | Decision_RenameExisting | Decision_MergeFolders | Decision_Invalid

datatype OperationPlanConflictScope =
    Scope_ThisItem | Scope_AllItems | Scope_SameExtension | Scope_SameFolder | Scope_Invalid

datatype OperationPlanValidationError =
    InvalidPlanId | InvalidType | EmptySources | InvalidSourceProviderId | InvalidSourcePath
  | DuplicateSource | MissingDestination | UnexpectedDestination | InvalidDestinationProviderId
  | InvalidDestinationPath | InvalidDestinationKind | ExactDestinationRequiresSingleSource
  | RenameRequiresSingleSource | RenameRequiresExactDestination | RenameRequiresSameProvider
  | MissingConflictPolicy | UnexpectedConflictPolicy | MissingCreatedAt | InvalidConflictDecision
  | InvalidConflictScope

text \<open>The input and the plan. A time point is its number of clock ticks since the epoch.\<close>

record OperationPlanSource =
  ProviderId :: bytes
  AbsolutePath :: bytes

record OperationPlanDestination =
  DestProviderId :: bytes
  DestAbsolutePath :: bytes
  Kind :: OperationPlanDestinationKind

record OperationPlanConflictPolicy =
  Decision :: OperationPlanConflictDecision
  Scope :: OperationPlanConflictScope

record OperationPlanInput =
  in_plan_id :: bytes
  in_type :: OperationPlanType
  in_sources :: "OperationPlanSource list"
  in_destination :: "OperationPlanDestination option"
  in_conflict_policy :: "OperationPlanConflictPolicy option"
  in_created_at :: "int option"

datatype OperationPlanSourceEffect = Effect_Unchanged | Effect_Relocated | Effect_Deleted

datatype OperationPlanDestinationEffect = Effect_None | Effect_CreateOrUpdate

datatype OperationPlanDataLossRisk = Risk_None | Risk_Recoverable | Risk_Irreversible

record OperationPlanIntrinsicEffects =
  eff_Source :: OperationPlanSourceEffect
  eff_Destination :: OperationPlanDestinationEffect
  eff_DataLossRisk :: OperationPlanDataLossRisk

record OperationPlan =
  plan_Id :: bytes
  plan_Type :: OperationPlanType
  plan_Sources :: "OperationPlanSource list"
  plan_Destination :: "OperationPlanDestination option"
  plan_ConflictPolicy :: "OperationPlanConflictPolicy option"
  plan_CreatedAt :: int
  plan_IntrinsicEffects :: OperationPlanIntrinsicEffects

section \<open>Creation\<close>

definition IsValidType :: "OperationPlanType \<Rightarrow> bool" where
  "IsValidType t \<longleftrightarrow> t \<in> {Type_Copy, Type_Move, Type_Rename, Type_Trash, Type_PermanentDelete}"

definition IsValidKind :: "OperationPlanDestinationKind \<Rightarrow> bool" where
  "IsValidKind k \<longleftrightarrow> k \<in> {Kind_Directory, Kind_ExactItem}"

definition IsValidDecision :: "OperationPlanConflictDecision \<Rightarrow> bool" where
  "IsValidDecision d \<longleftrightarrow> d \<in> {Decision_Ask, Decision_Replace, Decision_Skip, Decision_KeepBoth,
     Decision_RenameNew, Decision_RenameExisting, Decision_MergeFolders}"

definition IsValidScope :: "OperationPlanConflictScope \<Rightarrow> bool" where
  "IsValidScope s \<longleftrightarrow> s \<in> {Scope_ThisItem, Scope_AllItems, Scope_SameExtension, Scope_SameFolder}"

definition IsValidAbsolutePath :: "bytes \<Rightarrow> bool" where
  "IsValidAbsolutePath path \<longleftrightarrow> path \<noteq> [] \<and> hd path = CHR ''/'' \<and> CHR 0x00 \<notin> set path"

definition IsValidIdentity :: "bytes \<Rightarrow> bool" where
  "IsValidIdentity identity \<longleftrightarrow> identity \<noteq> [] \<and> CHR 0x00 \<notin> set identity"

text \<open>A guard of the form \<open>if( condition ) return std::unexpected(error)\<close>.\<close>

definition reject_if :: "bool \<Rightarrow> 'e \<Rightarrow> 'e + unit" where
  "reject_if condition error = (if condition then Inl error else Inr ())"

text \<open>The loop over the sources, with the set of the identities seen.\<close>

fun check_sources ::
  "(bytes \<times> bytes) list \<Rightarrow> OperationPlanSource list \<Rightarrow> OperationPlanValidationError + unit" where
  "check_sources identities [] = Inr ()"
| "check_sources identities (source # sources) =
     (if \<not> IsValidIdentity (ProviderId source) then Inl InvalidSourceProviderId
      else if \<not> IsValidAbsolutePath (AbsolutePath source) then Inl InvalidSourcePath
      else if (ProviderId source, AbsolutePath source) \<in> set identities then Inl DuplicateSource
      else check_sources ((ProviderId source, AbsolutePath source) # identities) sources)"

definition check_policy ::
  "OperationPlanConflictPolicy option \<Rightarrow> OperationPlanValidationError + unit" where
  "check_policy policy = (case policy of None \<Rightarrow> Inr ()
     | Some p \<Rightarrow> if \<not> IsValidDecision (Decision p) then Inl InvalidConflictDecision
         else if \<not> IsValidScope (Scope p) then Inl InvalidConflictScope else Inr ())"

definition check_destination ::
  "OperationPlanDestination option \<Rightarrow> OperationPlanValidationError + unit" where
  "check_destination destination = (case destination of None \<Rightarrow> Inr ()
     | Some d \<Rightarrow> if \<not> IsValidIdentity (DestProviderId d) then Inl InvalidDestinationProviderId
         else if \<not> IsValidAbsolutePath (DestAbsolutePath d) then Inl InvalidDestinationPath
         else if \<not> IsValidKind (Kind d) then Inl InvalidDestinationKind
         else if Kind d = Kind_ExactItem \<and>
           (DestAbsolutePath d = ''/'' \<or> last (DestAbsolutePath d) = CHR ''/'')
         then Inl InvalidDestinationPath else Inr ())"

text \<open>The switch over the type.\<close>

definition check_shape :: "OperationPlanInput \<Rightarrow> OperationPlanValidationError + unit" where
  "check_shape input = (case in_type input of
      Type_Rename \<Rightarrow>
        if in_conflict_policy input = None then Inl MissingConflictPolicy
        else if length (in_sources input) \<noteq> 1 then Inl RenameRequiresSingleSource
        else (case in_destination input of None \<Rightarrow> Inl MissingDestination
          | Some d \<Rightarrow> if Kind d \<noteq> Kind_ExactItem then Inl RenameRequiresExactDestination
              else if DestProviderId d \<noteq> ProviderId (hd (in_sources input))
              then Inl RenameRequiresSameProvider else Inr ())
    | Type_Trash \<Rightarrow>
        if in_conflict_policy input \<noteq> None then Inl UnexpectedConflictPolicy
        else if in_destination input \<noteq> None then Inl UnexpectedDestination else Inr ()
    | Type_PermanentDelete \<Rightarrow>
        if in_conflict_policy input \<noteq> None then Inl UnexpectedConflictPolicy
        else if in_destination input \<noteq> None then Inl UnexpectedDestination else Inr ()
    | Type_Invalid \<Rightarrow> Inr ()
    | _ \<Rightarrow>
        if in_conflict_policy input = None then Inl MissingConflictPolicy
        else (case in_destination input of None \<Rightarrow> Inl MissingDestination
          | Some d \<Rightarrow> if Kind d = Kind_ExactItem \<and> length (in_sources input) \<noteq> 1
              then Inl ExactDestinationRequiresSingleSource else Inr ()))"

text \<open>\<open>std::unreachable\<close> for the value that \<open>Create\<close> has rejected.\<close>

definition DeriveIntrinsicEffects :: "OperationPlanType \<Rightarrow> OperationPlanIntrinsicEffects" where
  "DeriveIntrinsicEffects t = (case t of
      Type_Move \<Rightarrow> \<lparr>eff_Source = Effect_Relocated, eff_Destination = Effect_CreateOrUpdate,
        eff_DataLossRisk = Risk_None\<rparr>
    | Type_Rename \<Rightarrow> \<lparr>eff_Source = Effect_Relocated, eff_Destination = Effect_CreateOrUpdate,
        eff_DataLossRisk = Risk_None\<rparr>
    | Type_Trash \<Rightarrow> \<lparr>eff_Source = Effect_Relocated, eff_Destination = Effect_None,
        eff_DataLossRisk = Risk_Recoverable\<rparr>
    | Type_PermanentDelete \<Rightarrow> \<lparr>eff_Source = Effect_Deleted, eff_Destination = Effect_None,
        eff_DataLossRisk = Risk_Irreversible\<rparr>
    | _ \<Rightarrow> \<lparr>eff_Source = Effect_Unchanged, eff_Destination = Effect_CreateOrUpdate,
        eff_DataLossRisk = Risk_None\<rparr>)"

definition plan_of :: "OperationPlanInput \<Rightarrow> int \<Rightarrow> OperationPlan" where
  "plan_of input created_at =
     \<lparr>plan_Id = in_plan_id input, plan_Type = in_type input, plan_Sources = in_sources input,
      plan_Destination = in_destination input, plan_ConflictPolicy = in_conflict_policy input,
      plan_CreatedAt = created_at, plan_IntrinsicEffects = DeriveIntrinsicEffects (in_type input)\<rparr>"

definition OperationPlan_Create :: "OperationPlanInput \<Rightarrow> OperationPlanValidationError + OperationPlan" where
  "OperationPlan_Create input =
     bindR (reject_if (\<not> IsValidIdentity (in_plan_id input)) InvalidPlanId) (\<lambda>_.
     bindR (reject_if (\<not> IsValidType (in_type input)) InvalidType) (\<lambda>_.
     case in_created_at input of None \<Rightarrow> Inl MissingCreatedAt
     | Some created_at \<Rightarrow>
         bindR (reject_if (in_sources input = []) EmptySources) (\<lambda>_.
         bindR (check_policy (in_conflict_policy input)) (\<lambda>_.
         bindR (check_sources [] (in_sources input)) (\<lambda>_.
         bindR (check_destination (in_destination input)) (\<lambda>_.
         bindR (check_shape input) (\<lambda>_. Inr (plan_of input created_at))))))))"

section \<open>The plans there are\<close>

text \<open>What \<open>Create\<close> accepts, stated without the order of its checks.\<close>

definition source_ok :: "OperationPlanSource \<Rightarrow> bool" where
  "source_ok s \<longleftrightarrow> IsValidIdentity (ProviderId s) \<and> IsValidAbsolutePath (AbsolutePath s)"

definition identity_of :: "OperationPlanSource \<Rightarrow> bytes \<times> bytes" where
  "identity_of s = (ProviderId s, AbsolutePath s)"

definition policy_ok :: "OperationPlanConflictPolicy \<Rightarrow> bool" where
  "policy_ok p \<longleftrightarrow> IsValidDecision (Decision p) \<and> IsValidScope (Scope p)"

definition destination_ok :: "OperationPlanDestination \<Rightarrow> bool" where
  "destination_ok d \<longleftrightarrow> IsValidIdentity (DestProviderId d) \<and> IsValidAbsolutePath (DestAbsolutePath d)
     \<and> (Kind d = Kind_Directory \<or> Kind d = Kind_ExactItem \<and> last (DestAbsolutePath d) \<noteq> CHR ''/'')"

definition shape_ok :: "OperationPlanInput \<Rightarrow> bool" where
  "shape_ok input \<longleftrightarrow> (case (in_type input, in_conflict_policy input, in_destination input) of
      (Type_Copy, Some _, Some d) \<Rightarrow> Kind d = Kind_ExactItem \<longrightarrow> length (in_sources input) = 1
    | (Type_Move, Some _, Some d) \<Rightarrow> Kind d = Kind_ExactItem \<longrightarrow> length (in_sources input) = 1
    | (Type_Rename, Some _, Some d) \<Rightarrow> Kind d = Kind_ExactItem \<and>
        map ProviderId (in_sources input) = [DestProviderId d]
    | (Type_Trash, None, None) \<Rightarrow> True
    | (Type_PermanentDelete, None, None) \<Rightarrow> True
    | _ \<Rightarrow> False)"

definition input_ok :: "OperationPlanInput \<Rightarrow> bool" where
  "input_ok input \<longleftrightarrow> IsValidIdentity (in_plan_id input) \<and> in_created_at input \<noteq> None
     \<and> in_sources input \<noteq> [] \<and> list_all source_ok (in_sources input)
     \<and> distinct (map identity_of (in_sources input))
     \<and> pred_option policy_ok (in_conflict_policy input)
     \<and> pred_option destination_ok (in_destination input) \<and> shape_ok input"

lemma reject_if_Inr [simp]: "reject_if c e = Inr u \<longleftrightarrow> \<not> c"
  by (simp add: reject_if_def)

lemma check_sources_Inr:
  "check_sources seen ss = Inr u \<longleftrightarrow>
     list_all source_ok ss \<and> distinct (map identity_of ss) \<and> set (map identity_of ss) \<inter> set seen = {}"
  by (induction seen ss rule: check_sources.induct) (auto simp: source_ok_def identity_of_def)

lemma check_policy_Inr: "check_policy p = Inr u \<longleftrightarrow> pred_option policy_ok p"
  by (cases p) (simp_all add: check_policy_def policy_ok_def)

lemma check_destination_Inr: "check_destination d = Inr u \<longleftrightarrow> pred_option destination_ok d"
  by (cases d) (auto simp: check_destination_def destination_ok_def IsValidKind_def)

lemma check_shape_Inr:
  "IsValidType (in_type input) \<and> check_shape input = Inr u \<longleftrightarrow> shape_ok input"
  by (cases "in_sources input" rule: list.exhaust [case_product list.exhaust [of "tl (in_sources input)"]];
      cases "in_type input"; cases "in_conflict_policy input"; cases "in_destination input")
    (auto simp: check_shape_def shape_ok_def IsValidType_def)

lemma Create_Inr:
  "OperationPlan_Create input = Inr p \<longleftrightarrow>
     input_ok input \<and> p = plan_of input (the (in_created_at input))"
  unfolding OperationPlan_Create_def bindR_eq_Inr input_ok_def check_shape_Inr [symmetric, of input "()"]
  by (cases "in_created_at input")
    (auto simp: bindR_eq_Inr check_sources_Inr check_policy_Inr check_destination_Inr)

text \<open>
  The invariant of the class: a plan is the result of \<open>Create\<close> on its own parts. There is no other
  way to get one, since the constructor is private.
\<close>

definition input_of :: "OperationPlan \<Rightarrow> OperationPlanInput" where
  "input_of p = \<lparr>in_plan_id = plan_Id p, in_type = plan_Type p, in_sources = plan_Sources p,
     in_destination = plan_Destination p, in_conflict_policy = plan_ConflictPolicy p,
     in_created_at = Some (plan_CreatedAt p)\<rparr>"

definition plan_ok :: "OperationPlan \<Rightarrow> bool" where
  "plan_ok p \<longleftrightarrow> input_ok (input_of p) \<and> plan_IntrinsicEffects p = DeriveIntrinsicEffects (plan_Type p)"

lemma plan_of_input_of: "plan_ok p \<Longrightarrow> plan_of (input_of p) (plan_CreatedAt p) = p"
  by (cases p) (simp add: plan_ok_def plan_of_def input_of_def)

lemma input_of_plan_of:
  "in_created_at input = Some t \<Longrightarrow> input_of (plan_of input t) = input"
  by (cases input) (simp add: plan_of_def input_of_def)

lemma Create_input_of: "plan_ok p \<Longrightarrow> OperationPlan_Create (input_of p) = Inr p"
  using plan_of_input_of [of p] by (simp add: Create_Inr plan_ok_def) (simp add: input_of_def)

lemma Create_plan_ok:
  assumes "OperationPlan_Create input = Inr p"
  shows "plan_ok p \<and> input_of p = input"
proof -
  from assms have ok: "input_ok input" "p = plan_of input (the (in_created_at input))"
    by (simp_all add: Create_Inr)
  moreover from ok(1) obtain t where "in_created_at input = Some t" by (auto simp: input_ok_def)
  ultimately show ?thesis by (simp add: plan_ok_def input_of_plan_of) (simp add: plan_of_def)
qed

text \<open>
  \<open>Create\<close> accepts exactly the well-formed inputs: identities that are not empty and hold no
  NUL, absolute paths, at least one source and no source twice, and per type the destination and the
  conflict policy it needs, a rename having one source and an exact destination at the same
  provider. The plan holds the parts of the input unchanged, with the effects of its type.
\<close>

theorem Create_iff:
  "OperationPlan_Create input = Inr p \<longleftrightarrow> input_ok input \<and> plan_ok p \<and> input_of p = input"
proof
  assume "OperationPlan_Create input = Inr p"
  with Create_plan_ok [OF this] Create_Inr [of input p] show "input_ok input \<and> plan_ok p \<and> input_of p = input"
    by blast
next
  assume "input_ok input \<and> plan_ok p \<and> input_of p = input"
  then show "OperationPlan_Create input = Inr p" using Create_input_of [of p] by simp
qed

text \<open>Consequences of the invariant, per type.\<close>

lemma plan_type_cases:
  assumes "plan_ok p"
  shows "plan_Type p \<noteq> Type_Invalid" "plan_Sources p \<noteq> []" "IsValidIdentity (plan_Id p)"
    "plan_Destination p = None \<longleftrightarrow> plan_Type p = Type_Trash \<or> plan_Type p = Type_PermanentDelete"
    "plan_ConflictPolicy p = None \<longleftrightarrow> plan_Destination p = None"
  using assms
  by (auto simp: plan_ok_def input_ok_def input_of_def shape_ok_def
      split: OperationPlanType.splits option.splits)

end
