(* ===== verification/Base64.thy ===== *)
theory Base64
  imports JsonValue OperationPlan
begin

unbundle bit_operations_syntax

text \<open>
  The canonical base64 of \<open>Source/Operations/source/OperationPlanCodec.cpp\<close>: how opaque bytes are
  carried in JSON strings. The limits are those of the class \<open>OperationPlanCodec\<close>.
\<close>

datatype OperationPlanCodecErrorCode =
    MalformedJSON | RootNotObject | UnexpectedMember | MissingMember | DuplicateMember
  | InvalidMemberType | UnsupportedSchemaVersion | InvalidEnumToken | InvalidBase64
  | ResourceLimitExceeded | TimestampOutOfRange | TimestampNotRepresentable | PlanValidationFailed

record OperationPlanCodecError =
  codec_code :: OperationPlanCodecErrorCode
  codec_plan_validation_error :: "OperationPlanValidationError option"

definition OperationPlanCodecFailure :: "OperationPlanCodecErrorCode \<Rightarrow> OperationPlanCodecError" where
  "OperationPlanCodecFailure code = \<lparr>codec_code = code, codec_plan_validation_error = None\<rparr>"

definition MaxSources :: nat where "MaxSources = 100000"
definition MaxOpaqueFieldBytes :: nat where "MaxOpaqueFieldBytes = 1 * 1024 * 1024"
definition MaxDecodedOpaqueBytes :: nat where "MaxDecodedOpaqueBytes = 64 * 1024 * 1024"
definition MaxJSONBytes :: nat where "MaxJSONBytes = 96 * 1024 * 1024"

definition Base64Alphabet :: bytes where
  "Base64Alphabet = ''ABCDEFGHIJKLMNOPQRSTUVWXYZabcdefghijklmnopqrstuvwxyz0123456789+/''"

text \<open>One round of the loop, on one to three bytes.\<close>

definition sextets :: "nat \<Rightarrow> nat \<Rightarrow> nat \<Rightarrow> nat list" where
  "sextets first second third =
     [drop_bit 2 first, push_bit 4 (first AND 3) OR drop_bit 4 second,
      push_bit 2 (second AND 15) OR drop_bit 6 third, third AND 63]"

fun encode_groups :: "bytes \<Rightarrow> bytes" where
  "encode_groups [] = []"
| "encode_groups [a] =
     map ((!) Base64Alphabet) (take 2 (sextets (byte_val a) 0 0)) @ ''==''"
| "encode_groups [a, b] =
     map ((!) Base64Alphabet) (take 3 (sextets (byte_val a) (byte_val b) 0)) @ ''=''"
| "encode_groups (a # b # c # rest) =
     map ((!) Base64Alphabet) (sextets (byte_val a) (byte_val b) (byte_val c)) @ encode_groups rest"

definition OperationPlanCodecEncodeBase64 :: "bytes \<Rightarrow> OperationPlanCodecError + bytes" where
  "OperationPlanCodecEncodeBase64 bs =
     (if length bs > MaxOpaqueFieldBytes then Inl (OperationPlanCodecFailure ResourceLimitExceeded)
      else if length bs > (2 ^ 64 - 1 - 2) div 4 * 3 then Inl (OperationPlanCodecFailure ResourceLimitExceeded)
      else Inr (encode_groups bs))"

definition Base64Value :: "byte \<Rightarrow> int" where
  "Base64Value c =
     (let v = int (byte_val c) in
      if 65 \<le> v \<and> v \<le> 90 then v - 65
      else if 97 \<le> v \<and> v \<le> 122 then v - 97 + 26
      else if 48 \<le> v \<and> v \<le> 57 then v - 48 + 52
      else if c = CHR ''+'' then 62
      else if c = CHR ''/'' then 63
      else -1)"

definition group_refused :: "bool \<Rightarrow> char \<Rightarrow> char \<Rightarrow> int \<Rightarrow> int \<Rightarrow> int \<Rightarrow> int \<Rightarrow> bool" where
  "group_refused final_group third_character fourth_character first second third fourth \<longleftrightarrow>
     first < 0 \<or> second < 0 \<or> third < 0 \<or> fourth < 0
     \<or> (\<not> final_group \<and> (third_character = CHR ''='' \<or> fourth_character = CHR ''=''))
     \<or> (third_character = CHR ''='' \<and> fourth_character \<noteq> CHR ''='')
     \<or> (third_character = CHR ''='' \<and> second AND 15 \<noteq> 0)
     \<or> (fourth_character = CHR ''='' \<and> third_character \<noteq> CHR ''='' \<and> third AND 3 \<noteq> 0)"

definition char_of_int :: "int \<Rightarrow> char" where
  "char_of_int v = char_of (nat (v mod 256))"

fun decode_groups :: "bytes \<Rightarrow> bytes option" where
  "decode_groups (w # x # y # z # rest) =
     (let first = Base64Value w; second = Base64Value x;
          third = (if y = CHR ''='' then 0 else Base64Value y);
          fourth = (if z = CHR ''='' then 0 else Base64Value z) in
      if group_refused (rest = []) y z first second third fourth then None
      else map_option (\<lambda>ds.
        [char_of_int (push_bit 2 first OR drop_bit 4 second)] @
        (if y \<noteq> CHR ''='' then [char_of_int (push_bit 4 (second AND 15) OR drop_bit 2 third)] else []) @
        (if z \<noteq> CHR ''='' then [char_of_int (push_bit 6 (third AND 3) OR fourth)] else []) @ ds)
        (decode_groups rest))"
| "decode_groups _ = Some []"

definition padding_of :: "bytes \<Rightarrow> nat" where
  "padding_of encoded =
     (if encoded \<noteq> [] \<and> last encoded = CHR ''='' then
        (if length encoded \<ge> 2 \<and> encoded ! (length encoded - 2) = CHR ''='' then 2 else 1)
      else 0)"

text \<open>
  The reference to the running total is threaded. \<open>MaxDecodedOpaqueBytes - total\<close> cannot wrap, since
  the total never exceeds the limit.
\<close>

definition OperationPlanCodecDecodeBase64 ::
  "json \<Rightarrow> nat \<Rightarrow> OperationPlanCodecError + (bytes \<times> nat)" where
  "OperationPlanCodecDecodeBase64 v so_far = (case v of JString encoded \<Rightarrow>
       (if length encoded mod 4 \<noteq> 0 then Inl (OperationPlanCodecFailure InvalidBase64)
        else let decoded_size = length encoded div 4 * 3 - padding_of encoded in
          if decoded_size > MaxOpaqueFieldBytes \<or> decoded_size > MaxDecodedOpaqueBytes - so_far
          then Inl (OperationPlanCodecFailure ResourceLimitExceeded)
          else (case decode_groups encoded of None \<Rightarrow> Inl (OperationPlanCodecFailure InvalidBase64)
            | Some decoded \<Rightarrow> Inr (decoded, so_far + length decoded)))
     | _ \<Rightarrow> Inl (OperationPlanCodecFailure InvalidMemberType))"

section \<open>Groups as numbers\<close>

lemma add_or:
  fixes a b :: "'a :: semiring_bit_operations"
  assumes "take_bit n b = b"
  shows "push_bit n a OR b = push_bit n a + b"
proof (rule disjunctive_add_eq_or [symmetric])
  show "push_bit n a AND b = 0"
    by (rule bit_eqI, subst assms [symmetric]) (auto simp: bit_simps)
qed

lemma and_masks:
  "(a :: nat) AND 3 = a mod 4" "a AND 15 = a mod 16" "a AND 63 = a mod 64"
  "(i :: int) AND 3 = i mod 4" "i AND 15 = i mod 16"
  using take_bit_eq_mask [of 2 a] take_bit_eq_mask [of 4 a] take_bit_eq_mask [of 6 a]
    take_bit_eq_mask [of 2 i] take_bit_eq_mask [of 4 i]
  by (simp_all add: mask_eq_exp_minus_1 take_bit_eq_mod)

lemma sextets_arith:
  assumes "a < 256" "b < 256" "c < 256"
  shows "sextets a b c = [a div 4, a mod 4 * 16 + b div 16, b mod 16 * 4 + c div 64, c mod 64]"
proof -
  have "take_bit 4 (drop_bit 4 b) = drop_bit 4 b" "take_bit 2 (drop_bit 6 c) = drop_bit 6 c"
    using assms by (simp_all add: take_bit_eq_mod drop_bit_eq_div less_mult_imp_div_less)
  then show ?thesis
    by (simp add: sextets_def add_or and_masks) (simp add: push_bit_eq_mult drop_bit_eq_div)
qed

lemma bytes_arith:
  fixes s t u v :: int
  assumes "0 \<le> t" "t < 64" "0 \<le> u" "u < 64" "0 \<le> v" "v < 64"
  shows "push_bit 2 s OR drop_bit 4 t = s * 4 + t div 16"
    "push_bit 4 s OR drop_bit 2 u = s * 16 + u div 4" "push_bit 6 s OR v = s * 64 + v"
proof -
  have "take_bit 2 (drop_bit 4 t) = drop_bit 4 t" "take_bit 4 (drop_bit 2 u) = drop_bit 2 u"
    "take_bit 6 v = v"
    using assms by (auto simp: take_bit_eq_mod drop_bit_eq_div)
  then show "push_bit 2 s OR drop_bit 4 t = s * 4 + t div 16"
    "push_bit 4 s OR drop_bit 2 u = s * 16 + u div 4" "push_bit 6 s OR v = s * 64 + v"
    by (simp_all add: add_or and_masks) (simp_all add: push_bit_eq_mult drop_bit_eq_div)
qed

section \<open>The alphabet\<close>

lemma alphabet_letters:
  "list_all (\<lambda>n. Base64Alphabet ! (n - 65) = char_of n) [65..<91]"
  "list_all (\<lambda>n. Base64Alphabet ! (n - 71) = char_of n) [97..<123]"
  "list_all (\<lambda>n. Base64Alphabet ! (n + 4) = char_of n) [48..<58]"
  by (simp_all add: Base64Alphabet_def upt_rec [of _ "numeral _"] char_of_def bit_0)

lemma alphabet_nth:
  "i < 26 \<Longrightarrow> Base64Alphabet ! i = char_of (65 + i)"
  "26 \<le> i \<Longrightarrow> i < 52 \<Longrightarrow> Base64Alphabet ! i = char_of (71 + i)"
  "52 \<le> i \<Longrightarrow> i < 62 \<Longrightarrow> Base64Alphabet ! i = char_of (i - 4)"
  "Base64Alphabet ! 62 = CHR ''+''" "Base64Alphabet ! 63 = CHR ''/''"
proof -
  show "i < 26 \<Longrightarrow> Base64Alphabet ! i = char_of (65 + i)"
    using alphabet_letters(1) [unfolded list_all_iff set_upt, THEN bspec, of "65 + i"] by simp
  show "26 \<le> i \<Longrightarrow> i < 52 \<Longrightarrow> Base64Alphabet ! i = char_of (71 + i)"
    using alphabet_letters(2) [unfolded list_all_iff set_upt, THEN bspec, of "71 + i"] by simp
  show "52 \<le> i \<Longrightarrow> i < 62 \<Longrightarrow> Base64Alphabet ! i = char_of (i - 4)"
    using alphabet_letters(3) [unfolded list_all_iff set_upt, THEN bspec, of "i - 4"]
    by (auto simp: le_diff_conv less_diff_conv2)
qed (simp_all add: Base64Alphabet_def)

lemma alphabet_value:
  assumes "i < 64"
  shows "Base64Value (Base64Alphabet ! i) = int i"
proof -
  consider "i < 26" | "26 \<le> i" "i < 52" | "52 \<le> i" "i < 62" | "i = 62" | "i = 63"
    using assms by linarith
  then show ?thesis
    by cases (simp_all add: alphabet_nth Base64Value_def)
qed

lemma value_alphabet:
  assumes "0 \<le> Base64Value c"
  shows "Base64Value c < 64" "Base64Alphabet ! nat (Base64Value c) = c"
proof -
  let ?n = "byte_val c"
  consider "65 \<le> ?n" "?n \<le> 90" | "97 \<le> ?n" "?n \<le> 122" | "48 \<le> ?n" "?n \<le> 57"
    | "c = CHR ''+''" | "c = CHR ''/''"
    using assms by (fastforce simp: Base64Value_def Let_def split: if_splits)
  then have "Base64Value c < 64 \<and> Base64Alphabet ! nat (Base64Value c) = c"
    by cases (auto simp: Base64Value_def nat_diff_distrib nat_add_distrib alphabet_nth)
  then show "Base64Value c < 64" "Base64Alphabet ! nat (Base64Value c) = c" by simp_all
qed

lemma no_padding: "0 \<le> Base64Value c \<Longrightarrow> c \<noteq> CHR ''=''"
  by (auto simp: Base64Value_def)

lemma alphabet_no_padding [simp]: "i < 64 \<Longrightarrow> Base64Alphabet ! i \<noteq> CHR ''=''"
  by (rule no_padding) (simp add: alphabet_value)

section \<open>Round trips\<close>

lemma byte_less [simp]: "byte_val c < 256"
proof -
  have "byte_val c mod 256 < 256" by (rule mod_less_divisor) simp
  then show ?thesis by (simp only: of_char_mod_256)
qed

lemma char_of_int_byte: "v = int (byte_val c) \<Longrightarrow> char_of_int v = c"
  by (simp add: char_of_int_def)

lemma sextet_less:
  assumes "a < 256" "b < 256"
  shows "a div 4 < (64 :: nat)" "a mod 4 * 16 + b div 16 < (64 :: nat)" "a mod 16 * 4 + b div 64 < (64 :: nat)"
proof -
  have "a mod 4 < 4" "b div 16 < 16" "a mod 16 < 16" "b div 64 < 4" "a div 4 < 64"
    using assms by (auto simp: less_mult_imp_div_less)
  then show "a div 4 < 64" "a mod 4 * 16 + b div 16 < 64" "a mod 16 * 4 + b div 64 < 64" by linarith+
qed

text \<open>The three bytes of a group from its four sextets, and back.\<close>

lemma group_bytes:
  fixes a b c :: nat
  assumes "a < 256" "b < 256" "c < 256"
  shows "a div 4 * 4 + (a mod 4 * 16 + b div 16) div 16 = a"
    "(a mod 4 * 16 + b div 16) mod 16 * 16 + (b mod 16 * 4 + c div 64) div 4 = b"
    "(b mod 16 * 4 + c div 64) mod 4 * 64 + c mod 64 = c"
    "(a mod 4 * 16) mod 16 = 0" "(b mod 16 * 4) mod 4 = 0"
proof -
  have b: "b div 16 < 16" and c: "c div 64 < 4" using assms by (auto simp: less_mult_imp_div_less)
  have "(a mod 4 * 16 + b div 16) div 16 = a mod 4" "(a mod 4 * 16 + b div 16) mod 16 = b div 16"
    using b by (simp_all add: div_add1_eq mod_add_eq [symmetric])
  moreover have "(b mod 16 * 4 + c div 64) div 4 = b mod 16" "(b mod 16 * 4 + c div 64) mod 4 = c div 64"
    using c by (simp_all add: div_add1_eq)
  ultimately show "a div 4 * 4 + (a mod 4 * 16 + b div 16) div 16 = a"
    "(a mod 4 * 16 + b div 16) mod 16 * 16 + (b mod 16 * 4 + c div 64) div 4 = b"
    "(b mod 16 * 4 + c div 64) mod 4 * 64 + c mod 64 = c"
    "(a mod 4 * 16) mod 16 = 0" "(b mod 16 * 4) mod 4 = 0"
    by (simp_all add: div_mult_mod_eq)
qed

text \<open>The bytes the decoder builds, from sextets that are natural numbers.\<close>

lemma byte_of_sextets:
  assumes "t < 64"
  shows "push_bit 2 (int s) OR drop_bit 4 (int t) = int (s * 4 + t div 16)"
    "push_bit 4 (int s) OR drop_bit 2 (int t) = int (s * 16 + t div 4)"
    "push_bit 6 (int s) OR int t = int (s * 64 + t)"
    "int s AND 15 = int (s mod 16)" "int s AND 3 = int (s mod 4)"
  using assms bytes_arith [of "int t" "int t" "int t" "int s"]
  by (simp_all add: and_masks zdiv_int zmod_int)

lemmas group_simps = sextets_arith alphabet_value byte_of_sextets group_refused_def Let_def

lemma decode_encode_groups: "decode_groups (encode_groups bs) = Some bs"
proof (induction bs rule: encode_groups.induct)
  case (2 a)
  show ?case
    using sextet_less [of "byte_val a" 0] group_bytes [of "byte_val a" 0 0]
    by (simp add: group_simps char_of_int_byte del: of_nat_add of_nat_mult)
next
  case (3 a b)
  show ?case
    using sextet_less [of "byte_val a" "byte_val b"] sextet_less [of "byte_val b" 0]
      group_bytes [of "byte_val a" "byte_val b" 0]
    by (simp add: group_simps char_of_int_byte del: of_nat_add of_nat_mult)
next
  case (4 a b c rest)
  then show ?case
    using sextet_less [of "byte_val a" "byte_val b"] sextet_less [of "byte_val b" "byte_val c"]
      group_bytes [of "byte_val a" "byte_val b" "byte_val c"]
    by (simp add: group_simps char_of_int_byte del: of_nat_add of_nat_mult)
qed simp

lemma sextets_group:
  fixes p q r t :: nat
  assumes "p < 64" "q < 64" "r < 64" "t < 64"
  shows "sextets (p * 4 + q div 16) (q mod 16 * 16 + r div 4) (r mod 4 * 64 + t) = [p, q, r, t]"
    and "p * 4 + q div 16 < 256" "q mod 16 * 16 + r div 4 < 256" "r mod 4 * 64 + t < 256"
proof -
  have d: "q div 16 < 4" "r div 4 < 16" "q mod 16 < 16" "r mod 4 < 4"
    using assms by (auto simp: less_mult_imp_div_less)
  then show less: "p * 4 + q div 16 < 256" "q mod 16 * 16 + r div 4 < 256" "r mod 4 * 64 + t < 256"
    using assms by linarith+
  have "(p * 4 + q div 16) div 4 = p" "(p * 4 + q div 16) mod 4 = q div 16"
    "(q mod 16 * 16 + r div 4) div 16 = q mod 16" "(q mod 16 * 16 + r div 4) mod 16 = r div 4"
    "(r mod 4 * 64 + t) div 64 = r mod 4" "(r mod 4 * 64 + t) mod 64 = t"
    using d assms by (simp_all add: div_add1_eq)
  then show "sextets (p * 4 + q div 16) (q mod 16 * 16 + r div 4) (r mod 4 * 64 + t) = [p, q, r, t]"
    by (simp add: sextets_arith [OF less] div_mult_mod_eq)
qed

lemma alphabet_char:
  assumes "0 \<le> Base64Value c"
  obtains p where "p < 64" "Base64Value c = int p" "Base64Alphabet ! p = c" "c \<noteq> CHR ''=''"
  using value_alphabet [OF assms] no_padding [OF assms] that [of "nat (Base64Value c)"] assms by simp

lemma char_of_int_of_nat: "n < 256 \<Longrightarrow> byte_val (char_of_int (int n)) = n"
  by (simp add: char_of_int_def zmod_int [symmetric])

lemma encode_decode_groups:
  "decode_groups s = Some bs \<Longrightarrow> length s mod 4 = 0 \<Longrightarrow> encode_groups bs = s"
proof (induction s arbitrary: bs rule: decode_groups.induct)
  case (1 w x y z rest)
  let ?third = "if y = CHR ''='' then 0 else Base64Value y"
  let ?fourth = "if z = CHR ''='' then 0 else Base64Value z"
  have ok: "\<not> group_refused (rest = []) y z (Base64Value w) (Base64Value x) ?third ?fourth"
    using "1.prems"(1) by (auto simp: Let_def split: if_splits)
  then have nonneg: "0 \<le> Base64Value w" "0 \<le> Base64Value x"
    "y \<noteq> CHR ''='' \<Longrightarrow> 0 \<le> Base64Value y" "z \<noteq> CHR ''='' \<Longrightarrow> 0 \<le> Base64Value z"
    by (auto simp: group_refused_def not_less)
  obtain p where p: "p < 64" "Base64Value w = int p" "Base64Alphabet ! p = w"
    using nonneg(1) by (rule alphabet_char)
  obtain q where q: "q < 64" "Base64Value x = int q" "Base64Alphabet ! q = x"
    using nonneg(2) by (rule alphabet_char)
  consider (one) "y = CHR ''=''" "z = CHR ''=''" "rest = []" "q mod 16 = 0"
    | (two) r where "z = CHR ''=''" "rest = []" "y \<noteq> CHR ''=''" "r < 64" "Base64Value y = int r"
        "Base64Alphabet ! r = y" "r mod 4 = 0"
    | (three) r t where "y \<noteq> CHR ''=''" "z \<noteq> CHR ''=''" "r < 64" "Base64Value y = int r"
        "Base64Alphabet ! r = y" "t < 64" "Base64Value z = int t" "Base64Alphabet ! t = z"
  proof (cases "y = CHR ''=''"; cases "z = CHR ''=''")
    assume "y = CHR ''=''" "z = CHR ''=''"
    with ok q have "rest = []" "q mod 16 = 0"
      by (auto simp: group_refused_def byte_of_sextets)
    with \<open>y = _\<close> \<open>z = _\<close> show ?thesis by (rule one)
  next
    assume y: "y \<noteq> CHR ''=''" and z: "z = CHR ''=''"
    obtain r where r: "r < 64" "Base64Value y = int r" "Base64Alphabet ! r = y"
      using nonneg(3) [OF y] by (rule alphabet_char)
    with ok y z have "rest = []" "r mod 4 = 0"
      by (auto simp: group_refused_def byte_of_sextets)
    with y z r show ?thesis by (intro two) auto
  next
    assume y: "y \<noteq> CHR ''=''" and z: "z \<noteq> CHR ''=''"
    obtain r where "r < 64" "Base64Value y = int r" "Base64Alphabet ! r = y"
      using nonneg(3) [OF y] by (rule alphabet_char)
    moreover obtain t where "t < 64" "Base64Value z = int t" "Base64Alphabet ! t = z"
      using nonneg(4) [OF z] by (rule alphabet_char)
    ultimately show ?thesis using y z by (intro three) auto
  next
    assume "y = CHR ''=''" "z \<noteq> CHR ''=''"
    with ok show ?thesis by (simp add: group_refused_def)
  qed
  then show ?case
  proof cases
    case one
    with ok "1.prems"(1) p q sextets_group [of p q 0 0] show ?thesis
      by (auto simp: Let_def byte_of_sextets char_of_int_of_nat simp del: of_nat_add of_nat_mult)
  next
    case two
    with ok "1.prems"(1) p q sextets_group [of p q r 0] show ?thesis
      by (auto simp: Let_def byte_of_sextets char_of_int_of_nat simp del: of_nat_add of_nat_mult)
  next
    case three
    from three ok "1.prems"(1) obtain ds where ds: "decode_groups rest = Some ds"
      by (auto simp: Let_def split: if_splits)
    with "1.IH" ok "1.prems"(2) three have "encode_groups ds = rest" by (simp add: Let_def)
    with three ok "1.prems"(1) ds p q sextets_group [of p q r t] show ?thesis
      by (auto simp: Let_def byte_of_sextets char_of_int_of_nat simp del: of_nat_add of_nat_mult)
  qed
next
  case "2_1"
  then show ?case by simp
qed auto

lemma encode_length: "length (encode_groups bs) mod 4 = 0"
  by (induction bs rule: encode_groups.induct) (simp_all add: sextets_def)

lemma encode_plain: "list_all plain_char (encode_groups bs)"
proof -
  have plain: "plain_char (Base64Alphabet ! i)" if "i < 64" for i
  proof -
    have "list_all plain_char Base64Alphabet" "length Base64Alphabet = 64"
      by (simp_all add: Base64Alphabet_def plain_char_def)
    with that show ?thesis by (simp add: list_all_length)
  qed
  show ?thesis
  proof (induction bs rule: encode_groups.induct)
    case (2 a)
    show ?case using sextet_less [of "byte_val a" 0] plain by (simp add: sextets_arith plain_char_def)
  next
    case (3 a b)
    show ?case
      using sextet_less [of "byte_val a" "byte_val b"] sextet_less [of "byte_val b" 0] plain
      by (simp add: sextets_arith plain_char_def)
  next
    case (4 a b c rest)
    then show ?case
      using sextet_less [of "byte_val a" "byte_val b"] sextet_less [of "byte_val b" "byte_val c"] plain
      by (simp add: sextets_arith)
  qed simp
qed

text \<open>The size the decoder computes before decoding is that of the result.\<close>

lemma padding_of_Cons:
  assumes "rest \<noteq> []" "length rest mod 4 = 0"
  shows "padding_of (w # x # y # z # rest) = padding_of rest"
proof -
  have "4 \<le> length rest" using assms by (cases "length rest < 4") auto
  then show ?thesis
    by (auto simp: padding_of_def nth_Cons' Suc_diff_le numeral_eq_Suc)
qed

lemma decoded_size:
  "decode_groups s = Some bs \<Longrightarrow> length s mod 4 = 0 \<Longrightarrow>
    length s div 4 * 3 - padding_of s = length bs \<and> padding_of s \<le> length s div 4 * 3"
proof (induction s arbitrary: bs rule: decode_groups.induct)
  case (1 w x y z rest)
  have mod: "length rest mod 4 = 0" using "1.prems"(2) by simp
  show ?case
  proof (cases "rest = []")
    case True
    with "1.prems"(1) show ?thesis
      by (auto simp: Let_def padding_of_def group_refused_def split: if_splits)
  next
    case False
    with "1.prems"(1) obtain ds where ds: "decode_groups rest = Some ds" "length bs = 3 + length ds"
      by (auto simp: Let_def group_refused_def split: if_splits)
    with "1.IH" "1.prems"(1) mod have
      "length rest div 4 * 3 - padding_of rest = length ds \<and> padding_of rest \<le> length rest div 4 * 3"
      by (auto simp: Let_def split: if_splits)
    moreover have "padding_of (w # x # y # z # rest) = padding_of rest"
      using False mod by (rule padding_of_Cons)
    moreover have "(4 + length rest) div 4 = Suc (length rest div 4)" by simp
    ultimately show ?thesis using ds(2) by (simp add: Nat.diff_add_assoc)
  qed
qed (auto simp: padding_of_def)

lemma decode_base64_iff:
  "OperationPlanCodecDecodeBase64 (JString s) so_far = Inr (bs, so_far') \<longleftrightarrow>
     OperationPlanCodecEncodeBase64 bs = Inr s \<and> length bs \<le> MaxDecodedOpaqueBytes - so_far
       \<and> so_far' = so_far + length bs"
proof
  assume d: "OperationPlanCodecDecodeBase64 (JString s) so_far = Inr (bs, so_far')"
  then have g: "decode_groups s = Some bs" "length s mod 4 = 0" "so_far' = so_far + length bs"
    by (auto simp: OperationPlanCodecDecodeBase64_def Let_def split: if_splits option.splits)
  with d decoded_size [OF g(1,2)] encode_decode_groups [OF g(1,2)]
  show "OperationPlanCodecEncodeBase64 bs = Inr s \<and> length bs \<le> MaxDecodedOpaqueBytes - so_far
       \<and> so_far' = so_far + length bs"
    by (auto simp: OperationPlanCodecDecodeBase64_def OperationPlanCodecEncodeBase64_def Let_def
        MaxOpaqueFieldBytes_def split: if_splits)
next
  assume "OperationPlanCodecEncodeBase64 bs = Inr s \<and> length bs \<le> MaxDecodedOpaqueBytes - so_far
       \<and> so_far' = so_far + length bs"
  then show "OperationPlanCodecDecodeBase64 (JString s) so_far = Inr (bs, so_far')"
    using decoded_size [OF decode_encode_groups [of bs]] encode_length [of bs]
    by (auto simp: OperationPlanCodecDecodeBase64_def OperationPlanCodecEncodeBase64_def Let_def
        decode_encode_groups split: if_splits)
qed

text \<open>
  The base64 of the plan codec is canonical: the decoder accepts a string exactly when it is the
  encoding of some bytes that fit the limits on one field and on the whole plan, and gives back
  these bytes. No two strings decode to the same bytes.
\<close>

theorem Base64_canonical:
  "OperationPlanCodecDecodeBase64 (JString s) so_far = Inr (bs, so_far') \<longleftrightarrow>
     OperationPlanCodecEncodeBase64 bs = Inr s \<and> length bs \<le> MaxDecodedOpaqueBytes - so_far
       \<and> so_far' = so_far + length bs"
  by (rule decode_base64_iff)

end
