(* ===== verification/JsonText.thy ===== *)
theory JsonText
  imports JsonValue
begin

text \<open>
  A writer of documents in a notation close to JSON and a parser for what it writes: an instance of
  the record \<open>Json\<close> that satisfies \<open>json_ok\<close>, so that the theorems about the codecs can be applied.
  It stands for rapidjson in the examples only: strings are written without escapes, as the law
  asks for plain strings alone, and a space ends a number where JSON has a comma or a bracket.
\<close>

section \<open>Writing\<close>

definition quoted :: "bytes \<Rightarrow> bytes" where
  "quoted s = CHR 0x22 # s @ [CHR 0x22]"

fun write_json :: "json \<Rightarrow> bytes" where
  "write_json JNull = ''n''"
| "write_json (JBool b) = (if b then ''t'' else ''f'')"
| "write_json (JNum n) = decimal_int n @ '' ''"
| "write_json (JReal s) = CHR ''r'' # quoted s"
| "write_json (JString s) = quoted s"
| "write_json (JArray vs) = CHR ''['' # concat (map write_json vs) @ '']''"
| "write_json (JObject ms) = CHR ''{'' # concat (map (\<lambda>(k, v). quoted k @ write_json v) ms) @ ''}''"

section \<open>Parsing\<close>

definition parse_string :: "bytes \<Rightarrow> (bytes \<times> bytes) option" where
  "parse_string s = (case dropWhile (\<lambda>c. c \<noteq> CHR 0x22) s of
      [] \<Rightarrow> None
    | _ # t \<Rightarrow> Some (takeWhile (\<lambda>c. c \<noteq> CHR 0x22) s, t))"

definition parse_number :: "bytes \<Rightarrow> (int \<times> bytes) option" where
  "parse_number s =
     (let neg = (s \<noteq> [] \<and> hd s = CHR ''-''); t = (if neg then tl s else s); ds = takeWhile is_digit t in
      if ds = [] then None
      else Some (if neg then - int (dec_val ds) else int (dec_val ds), drop 1 (dropWhile is_digit t)))"

text \<open>Fuel bounds the number of calls; the length of the text is enough.\<close>

fun parse_value :: "nat \<Rightarrow> bytes \<Rightarrow> (json \<times> bytes) option"
and parse_items :: "nat \<Rightarrow> bytes \<Rightarrow> (json list \<times> bytes) option"
and parse_members :: "nat \<Rightarrow> bytes \<Rightarrow> ((bytes \<times> json) list \<times> bytes) option" where
  "parse_value 0 s = None"
| "parse_value (Suc n) [] = None"
| "parse_value (Suc n) (c # s) =
     (if c = CHR ''n'' then Some (JNull, s)
      else if c = CHR ''t'' then Some (JBool True, s)
      else if c = CHR ''f'' then Some (JBool False, s)
      else if c = CHR 0x22 then map_option (map_prod JString id) (parse_string s)
      else if c = CHR ''['' then map_option (map_prod JArray id) (parse_items n s)
      else if c = CHR ''{'' then map_option (map_prod JObject id) (parse_members n s)
      else map_option (map_prod JNum id) (parse_number (c # s)))"
| "parse_items 0 s = None"
| "parse_items (Suc n) [] = None"
| "parse_items (Suc n) (c # s) =
     (if c = CHR '']'' then Some ([], s)
      else Option.bind (parse_value n (c # s)) (\<lambda>(v, t).
        map_option (map_prod (Cons v) id) (parse_items n t)))"
| "parse_members 0 s = None"
| "parse_members (Suc n) [] = None"
| "parse_members (Suc n) (c # s) =
     (if c = CHR ''}'' then Some ([], s)
      else Option.bind (parse_string s) (\<lambda>(k, t).
        Option.bind (parse_value n t) (\<lambda>(v, u).
        map_option (map_prod (Cons (k, v)) id) (parse_members n u))))"

definition parse_json :: "bytes \<Rightarrow> json option" where
  "parse_json s = (case parse_value (length s + 1) s of Some (v, []) \<Rightarrow> Some v | _ \<Rightarrow> None)"

definition sample_json :: Json where
  "sample_json = \<lparr>json_parse = (\<lambda>_. parse_json), json_print = write_json\<rparr>"

section \<open>The law\<close>

lemma parse_string_quoted:
  "list_all plain_char s \<Longrightarrow> parse_string (s @ CHR 0x22 # rest) = Some (s, rest)"
proof -
  assume "list_all plain_char s"
  then have all: "\<forall>c \<in> set s. c \<noteq> CHR 0x22" by (auto simp: list_all_iff plain_char_def)
  have "takeWhile (\<lambda>c. c \<noteq> CHR 0x22) (s @ CHR 0x22 # rest) = s"
    "dropWhile (\<lambda>c. c \<noteq> CHR 0x22) (s @ CHR 0x22 # rest) = CHR 0x22 # rest"
    using all by (simp_all add: takeWhile_append2 dropWhile_append2)
  then show ?thesis by (simp add: parse_string_def)
qed

lemma decimal_spaced:
  "takeWhile is_digit (decimal n @ CHR '' '' # rest) = decimal n"
  "dropWhile is_digit (decimal n @ CHR '' '' # rest) = CHR '' '' # rest"
proof -
  have "\<forall>c \<in> set (decimal n). is_digit c" using dec_digits by (simp add: list_all_iff)
  moreover have "\<not> is_digit (CHR '' '')" by (simp add: is_digit_def)
  ultimately show "takeWhile is_digit (decimal n @ CHR '' '' # rest) = decimal n"
    "dropWhile is_digit (decimal n @ CHR '' '' # rest) = CHR '' '' # rest"
    by (simp_all add: takeWhile_append2 dropWhile_append2)
qed

lemma decimal_hd_digit: "is_digit (hd (decimal n))"
  using dec_digits [of n] by (cases "decimal n") auto

lemma parse_number_decimal: "parse_number (decimal_int n @ CHR '' '' # rest) = Some (n, rest)"
proof -
  have "hd (decimal m @ CHR '' '' # rest) \<noteq> CHR ''-''" for m
    using decimal_hd_digit [of m] by (auto simp: is_digit_def)
  then show ?thesis
    by (simp add: parse_number_def decimal_int_def decimal_spaced dec_val_dec Let_def)
qed

text \<open>The first character of a number is a digit or a minus sign, and no other value starts so.\<close>

lemma decimal_int_Cons:
  obtains c s where "decimal_int n = c # s"
    "c \<noteq> CHR ''n''" "c \<noteq> CHR ''t''" "c \<noteq> CHR ''f''" "c \<noteq> CHR 0x22" "c \<noteq> CHR ''[''" "c \<noteq> CHR ''{''"
    "c \<noteq> CHR '']''"
proof (cases "n < 0")
  case True
  then show thesis by (intro that [of "CHR ''-''"]) (auto simp: decimal_int_def)
next
  case False
  define c where "c = hd (decimal (nat n))"
  have "is_digit c" by (simp add: c_def decimal_hd_digit)
  then have "c \<noteq> CHR ''n''" "c \<noteq> CHR ''t''" "c \<noteq> CHR ''f''" "c \<noteq> CHR 0x22" "c \<noteq> CHR ''[''" "c \<noteq> CHR ''{''"
    "c \<noteq> CHR '']''"
    by (auto simp: is_digit_def)
  moreover have "decimal_int n = c # tl (decimal (nat n))" using False by (simp add: decimal_int_def c_def)
  ultimately show thesis by (intro that) auto
qed

lemma write_json_Cons: "writable v \<Longrightarrow> \<exists>c s. write_json v = c # s \<and> c \<noteq> CHR '']''"
proof (cases v)
  case (JNum n)
  then show ?thesis by (cases n rule: decimal_int_Cons) auto
qed (auto simp: quoted_def)

lemma parse_number_value:
  "0 < n \<Longrightarrow> parse_value n (write_json (JNum i) @ rest) = Some (JNum i, rest)"
  using parse_number_decimal [of i rest]
  by (cases n; cases i rule: decimal_int_Cons) simp_all

lemma parse_write_items:
  assumes "\<And>v m r. v \<in> set vs \<Longrightarrow> length (write_json v) < m \<Longrightarrow> parse_value m (write_json v @ r) = Some (v, r)"
    "list_all writable vs" "length (concat (map write_json vs)) + 1 < n"
  shows "parse_items n (concat (map write_json vs) @ CHR '']'' # rest) = Some (vs, rest)"
  using assms
proof (induction vs arbitrary: n)
  case Nil
  then show ?case by (cases n) simp_all
next
  case (Cons v vs)
  from Cons.prems(3) obtain m where n: "n = Suc m" by (cases n) auto
  obtain c s where cs: "write_json v = c # s" "c \<noteq> CHR '']''" using Cons.prems(2) write_json_Cons by fastforce
  have "parse_value m (write_json v @ concat (map write_json vs) @ CHR '']'' # rest)
      = Some (v, concat (map write_json vs) @ CHR '']'' # rest)"
    using Cons.prems n by (intro Cons.prems(1)) auto
  moreover have "parse_items m (concat (map write_json vs) @ CHR '']'' # rest) = Some (vs, rest)"
    using Cons.prems n cs by (intro Cons.IH) auto
  ultimately show ?case using cs n by simp
qed

lemma parse_write_members:
  assumes "\<And>k v m r. (k, v) \<in> set ms \<Longrightarrow> length (write_json v) < m \<Longrightarrow> parse_value m (write_json v @ r) = Some (v, r)"
    "list_all (\<lambda>(k, v). list_all plain_char k \<and> writable v) ms"
    "length (concat (map (\<lambda>(k, v). quoted k @ write_json v) ms)) + 1 < n"
  shows "parse_members n (concat (map (\<lambda>(k, v). quoted k @ write_json v) ms) @ CHR ''}'' # rest) = Some (ms, rest)"
  using assms
proof (induction ms arbitrary: n)
  case Nil
  then show ?case by (cases n) simp_all
next
  case (Cons a ms)
  obtain k v where a: "a = (k, v)" by (cases a)
  from Cons.prems(3) obtain m where n: "n = Suc m" by (cases n) auto
  let ?t = "concat (map (\<lambda>(k, v). quoted k @ write_json v) ms) @ CHR ''}'' # rest"
  have "parse_value m (write_json v @ ?t) = Some (v, ?t)"
    using Cons.prems n a by (intro Cons.prems(1) [of k]) auto
  moreover have "parse_members m ?t = Some (ms, rest)"
    using Cons.prems n a by (intro Cons.IH) (auto simp: quoted_def)
  ultimately show ?case using Cons.prems(2) a n by (simp add: quoted_def parse_string_quoted)
qed

lemma parse_write:
  "writable v \<Longrightarrow> length (write_json v) < n \<Longrightarrow> parse_value n (write_json v @ rest) = Some (v, rest)"
proof (induction v arbitrary: n rest)
  case (JNum i)
  then show ?case using parse_number_value by simp
next
  case (JString s)
  then show ?case by (cases n) (simp_all add: quoted_def parse_string_quoted)
next
  case (JArray vs)
  then obtain m where n: "n = Suc m" by (cases n) auto
  have "parse_items m (concat (map write_json vs) @ CHR '']'' # rest) = Some (vs, rest)"
    using JArray n by (intro parse_write_items) (auto simp: list_all_iff)
  with n show ?case by simp
next
  case (JObject ms)
  then obtain m where n: "n = Suc m" by (cases n) auto
  have "parse_members m (concat (map (\<lambda>(k, v). quoted k @ write_json v) ms) @ CHR ''}'' # rest) = Some (ms, rest)"
  proof (rule parse_write_members)
    fix k v j r
    assume "(k, v) \<in> set ms" "length (write_json v) < j"
    then show "parse_value j (write_json v @ r) = Some (v, r)"
      using JObject.IH [of "(k, v)" v j r] JObject.prems by (fastforce simp: list_all_iff)
  qed (use JObject.prems n in auto)
  with n show ?case by simp
next
  case JNull
  then show ?case by (cases n) simp_all
next
  case (JBool b)
  then show ?case by (cases n) simp_all
next
  case (JReal s)
  then show ?case by simp
qed

lemma sample_json_ok: "json_ok sample_json"
  using parse_write [where rest = "[]"] by (auto simp: json_ok_def sample_json_def parse_json_def)

end
