(* ===== verification/PlanCodec.thy ===== *)
theory PlanCodec
  imports Base64 JsonText
begin

text \<open>
  \<open>OperationPlanCodec\<close> (\<open>Source/Operations/source/OperationPlanCodec.cpp\<close>): plans as versioned JSON.
  The encoder checks the limits and prints one object; the decoder reads its members, decodes their
  parts in the order of the code and makes a plan of them with \<open>OperationPlan::Create\<close>.
\<close>

definition PlanSchemaVersion :: int where "PlanSchemaVersion = 1"

definition OperationPlanCodecValidationFailure :: "OperationPlanValidationError \<Rightarrow> OperationPlanCodecError" where
  "OperationPlanCodecValidationFailure e =
     \<lparr>codec_code = PlanValidationFailed, codec_plan_validation_error = Some e\<rparr>"

definition OperationPlanCodecMembers :: "json \<Rightarrow> bytes list \<Rightarrow> OperationPlanCodecError + json list" where
  "OperationPlanCodecMembers v names = (case v of
      JObject ms \<Rightarrow> collect_members (OperationPlanCodecFailure UnexpectedMember)
        (OperationPlanCodecFailure DuplicateMember) (OperationPlanCodecFailure MissingMember) names ms
    | _ \<Rightarrow> Inl (OperationPlanCodecFailure InvalidMemberType))"

section \<open>Tokens\<close>

definition OperationPlanCodecTypeToken :: "OperationPlanType \<Rightarrow> bytes option" where
  "OperationPlanCodecTypeToken t = (case t of
      Type_Copy \<Rightarrow> Some ''copy'' | Type_Move \<Rightarrow> Some ''move'' | Type_Rename \<Rightarrow> Some ''rename''
    | Type_Trash \<Rightarrow> Some ''trash'' | Type_PermanentDelete \<Rightarrow> Some ''permanent_delete''
    | Type_Invalid \<Rightarrow> None)"

definition OperationPlanCodecDestinationKindToken :: "OperationPlanDestinationKind \<Rightarrow> bytes option" where
  "OperationPlanCodecDestinationKindToken k = (case k of
      Kind_Directory \<Rightarrow> Some ''directory'' | Kind_ExactItem \<Rightarrow> Some ''exact_item'' | Kind_Invalid \<Rightarrow> None)"

definition OperationPlanCodecDecisionToken :: "OperationPlanConflictDecision \<Rightarrow> bytes option" where
  "OperationPlanCodecDecisionToken d = (case d of
      Decision_Ask \<Rightarrow> Some ''ask'' | Decision_Replace \<Rightarrow> Some ''replace'' | Decision_Skip \<Rightarrow> Some ''skip''
    | Decision_KeepBoth \<Rightarrow> Some ''keep_both'' | Decision_RenameNew \<Rightarrow> Some ''rename_new''
    | Decision_RenameExisting \<Rightarrow> Some ''rename_existing''
    | Decision_MergeFolders \<Rightarrow> Some ''merge_folders'' | Decision_Invalid \<Rightarrow> None)"

definition OperationPlanCodecScopeToken :: "OperationPlanConflictScope \<Rightarrow> bytes option" where
  "OperationPlanCodecScopeToken s = (case s of
      Scope_ThisItem \<Rightarrow> Some ''this_item'' | Scope_AllItems \<Rightarrow> Some ''all_items''
    | Scope_SameExtension \<Rightarrow> Some ''same_extension'' | Scope_SameFolder \<Rightarrow> Some ''same_folder''
    | Scope_Invalid \<Rightarrow> None)"

definition OperationPlanCodecParseEnum :: "json \<Rightarrow> (bytes \<times> 'a) list \<Rightarrow> OperationPlanCodecError + 'a" where
  "OperationPlanCodecParseEnum v tokens = lookup_token (OperationPlanCodecFailure InvalidMemberType)
     (OperationPlanCodecFailure InvalidEnumToken) tokens v"

definition OperationPlanCodecParseType :: "json \<Rightarrow> OperationPlanCodecError + OperationPlanType" where
  "OperationPlanCodecParseType v = OperationPlanCodecParseEnum v
     [(''copy'', Type_Copy), (''move'', Type_Move), (''rename'', Type_Rename), (''trash'', Type_Trash),
      (''permanent_delete'', Type_PermanentDelete)]"

definition OperationPlanCodecParseDestinationKind ::
  "json \<Rightarrow> OperationPlanCodecError + OperationPlanDestinationKind" where
  "OperationPlanCodecParseDestinationKind v = OperationPlanCodecParseEnum v
     [(''directory'', Kind_Directory), (''exact_item'', Kind_ExactItem)]"

definition OperationPlanCodecParseDecision ::
  "json \<Rightarrow> OperationPlanCodecError + OperationPlanConflictDecision" where
  "OperationPlanCodecParseDecision v = OperationPlanCodecParseEnum v
     [(''ask'', Decision_Ask), (''replace'', Decision_Replace), (''skip'', Decision_Skip),
      (''keep_both'', Decision_KeepBoth), (''rename_new'', Decision_RenameNew),
      (''rename_existing'', Decision_RenameExisting), (''merge_folders'', Decision_MergeFolders)]"

definition OperationPlanCodecParseScope ::
  "json \<Rightarrow> OperationPlanCodecError + OperationPlanConflictScope" where
  "OperationPlanCodecParseScope v = OperationPlanCodecParseEnum v
     [(''this_item'', Scope_ThisItem), (''all_items'', Scope_AllItems),
      (''same_extension'', Scope_SameExtension), (''same_folder'', Scope_SameFolder)]"

definition OperationPlanCodecEpochNanoseconds :: "int \<Rightarrow> OperationPlanCodecError + int" where
  "OperationPlanCodecEpochNanoseconds = epoch_nanoseconds
     (OperationPlanCodecFailure TimestampNotRepresentable) (OperationPlanCodecFailure TimestampOutOfRange)"

definition OperationPlanCodecTimePoint :: "int \<Rightarrow> OperationPlanCodecError + int" where
  "OperationPlanCodecTimePoint = time_point
     (OperationPlanCodecFailure TimestampNotRepresentable) (OperationPlanCodecFailure TimestampOutOfRange)"

section \<open>Encoding\<close>

text \<open>\<open>MaxDecodedOpaqueBytes - total\<close> cannot wrap: the total stays within the limit.\<close>

definition OperationPlanCodecAddOpaqueBytes :: "nat \<Rightarrow> nat \<Rightarrow> nat option" where
  "OperationPlanCodecAddOpaqueBytes n so_far =
     (if n > MaxOpaqueFieldBytes \<or> n > MaxDecodedOpaqueBytes - so_far then None
      else Some (so_far + n))"

fun add_all_opaque :: "nat list \<Rightarrow> nat \<Rightarrow> nat option" where
  "add_all_opaque [] so_far = Some so_far"
| "add_all_opaque (n # ns) so_far = (case OperationPlanCodecAddOpaqueBytes n so_far of
     None \<Rightarrow> None | Some so_far \<Rightarrow> add_all_opaque ns so_far)"

text \<open>The sizes that are added up, in the order of the code.\<close>

definition opaque_sizes :: "OperationPlan \<Rightarrow> nat list" where
  "opaque_sizes p = length (plan_Id p)
     # concat (map (\<lambda>s. [length (ProviderId s), length (AbsolutePath s)]) (plan_Sources p))
     @ (case plan_Destination p of None \<Rightarrow> []
        | Some d \<Rightarrow> [length (DestProviderId d), length (DestAbsolutePath d)])"

definition token_or_fail :: "bytes option \<Rightarrow> OperationPlanCodecError + bytes" where
  "token_or_fail t = (case t of None \<Rightarrow> Inl (OperationPlanCodecFailure InvalidEnumToken) | Some s \<Rightarrow> Inr s)"

definition encode_source :: "OperationPlanSource \<Rightarrow> OperationPlanCodecError + json" where
  "encode_source s =
     bindR (OperationPlanCodecEncodeBase64 (ProviderId s)) (\<lambda>provider.
     bindR (OperationPlanCodecEncodeBase64 (AbsolutePath s)) (\<lambda>path.
     Inr (JObject [(''provider_id_base64'', JString provider), (''absolute_path_base64'', JString path)])))"

definition encode_destination :: "OperationPlanDestination option \<Rightarrow> OperationPlanCodecError + json" where
  "encode_destination destination = (case destination of None \<Rightarrow> Inr JNull
     | Some d \<Rightarrow>
         bindR (OperationPlanCodecEncodeBase64 (DestProviderId d)) (\<lambda>provider.
         bindR (OperationPlanCodecEncodeBase64 (DestAbsolutePath d)) (\<lambda>path.
         bindR (token_or_fail (OperationPlanCodecDestinationKindToken (Kind d))) (\<lambda>kind.
         Inr (JObject [(''provider_id_base64'', JString provider), (''absolute_path_base64'', JString path),
           (''kind'', JString kind)])))))"

definition encode_policy :: "OperationPlanConflictPolicy option \<Rightarrow> OperationPlanCodecError + json" where
  "encode_policy policy = (case policy of None \<Rightarrow> Inr JNull
     | Some p \<Rightarrow>
         bindR (token_or_fail (OperationPlanCodecDecisionToken (Decision p))) (\<lambda>decision.
         bindR (token_or_fail (OperationPlanCodecScopeToken (Scope p))) (\<lambda>scope.
         Inr (JObject [(''decision'', JString decision), (''scope'', JString scope)]))))"

definition encode_plan :: "OperationPlan \<Rightarrow> OperationPlanCodecError + json" where
  "encode_plan p =
     bindR (reject_if (length (plan_Sources p) > MaxSources) (OperationPlanCodecFailure ResourceLimitExceeded)) (\<lambda>_.
     bindR (reject_if (add_all_opaque (opaque_sizes p) 0 = None) (OperationPlanCodecFailure ResourceLimitExceeded)) (\<lambda>_.
     bindR (OperationPlanCodecEncodeBase64 (plan_Id p)) (\<lambda>plan_id.
     bindR (token_or_fail (OperationPlanCodecTypeToken (plan_Type p))) (\<lambda>type.
     bindR (OperationPlanCodecEpochNanoseconds (plan_CreatedAt p)) (\<lambda>timestamp.
     bindR (mapR encode_source (plan_Sources p)) (\<lambda>sources.
     bindR (encode_destination (plan_Destination p)) (\<lambda>destination.
     bindR (encode_policy (plan_ConflictPolicy p)) (\<lambda>policy.
     Inr (JObject [(''version'', JNum PlanSchemaVersion), (''plan_id_base64'', JString plan_id),
       (''type'', JString type), (''sources'', JArray sources), (''destination'', destination),
       (''conflict_policy'', policy), (''created_at_epoch_nanoseconds'', JNum timestamp)])))))))))"

definition OperationPlanCodec_Encode :: "Json \<Rightarrow> OperationPlan \<Rightarrow> OperationPlanCodecError + bytes" where
  "OperationPlanCodec_Encode J p = bindR (encode_plan p) (\<lambda>v.
     let buffer = json_print J v in
     if length buffer > MaxJSONBytes then Inl (OperationPlanCodecFailure ResourceLimitExceeded)
     else Inr buffer)"

section \<open>Decoding\<close>

definition decode_source :: "json \<Rightarrow> nat \<Rightarrow> OperationPlanCodecError + (OperationPlanSource \<times> nat)" where
  "decode_source v so_far =
     bindR (OperationPlanCodecMembers v [''provider_id_base64'', ''absolute_path_base64'']) (\<lambda>source.
     bindR (OperationPlanCodecDecodeBase64 (source ! 0) so_far) (\<lambda>(provider, so_far).
     bindR (OperationPlanCodecDecodeBase64 (source ! 1) so_far) (\<lambda>(path, so_far).
     Inr (\<lparr>ProviderId = provider, AbsolutePath = path\<rparr>, so_far))))"

fun decode_sources ::
  "json list \<Rightarrow> nat \<Rightarrow> OperationPlanCodecError + (OperationPlanSource list \<times> nat)" where
  "decode_sources [] so_far = Inr ([], so_far)"
| "decode_sources (v # vs) so_far =
     bindR (decode_source v so_far) (\<lambda>(s, so_far).
     bindR (decode_sources vs so_far) (\<lambda>(ss, so_far). Inr (s # ss, so_far)))"

definition decode_destination ::
  "json \<Rightarrow> nat \<Rightarrow> OperationPlanCodecError + (OperationPlanDestination option \<times> nat)" where
  "decode_destination v so_far =
     (if v = JNull then Inr (None, so_far)
      else bindR (OperationPlanCodecMembers v [''provider_id_base64'', ''absolute_path_base64'', ''kind'']) (\<lambda>ms.
        bindR (OperationPlanCodecDecodeBase64 (ms ! 0) so_far) (\<lambda>(provider, so_far).
        bindR (OperationPlanCodecDecodeBase64 (ms ! 1) so_far) (\<lambda>(path, so_far).
        bindR (OperationPlanCodecParseDestinationKind (ms ! 2)) (\<lambda>kind.
        Inr (Some \<lparr>DestProviderId = provider, DestAbsolutePath = path, Kind = kind\<rparr>, so_far))))))"

definition decode_policy :: "json \<Rightarrow> OperationPlanCodecError + OperationPlanConflictPolicy option" where
  "decode_policy v =
     (if v = JNull then Inr None
      else bindR (OperationPlanCodecMembers v [''decision'', ''scope'']) (\<lambda>policy.
        bindR (OperationPlanCodecParseDecision (policy ! 0)) (\<lambda>decision.
        bindR (OperationPlanCodecParseScope (policy ! 1)) (\<lambda>scope.
        Inr (Some \<lparr>Decision = decision, Scope = scope\<rparr>)))))"

definition decode_created_at :: "json \<Rightarrow> OperationPlanCodecError + int" where
  "decode_created_at v =
     (if \<not> IsInt64 v then Inl (OperationPlanCodecFailure
        (if IsNumber v then TimestampOutOfRange else InvalidMemberType))
      else OperationPlanCodecTimePoint (GetNumber v))"

definition root_names :: "bytes list" where
  "root_names = [''version'', ''plan_id_base64'', ''type'', ''sources'', ''destination'',
     ''conflict_policy'', ''created_at_epoch_nanoseconds'']"

definition decode_array :: "json \<Rightarrow> OperationPlanCodecError + json list" where
  "decode_array v = (case v of
      JArray vs \<Rightarrow> if length vs > MaxSources then Inl (OperationPlanCodecFailure ResourceLimitExceeded) else Inr vs
    | _ \<Rightarrow> Inl (OperationPlanCodecFailure InvalidMemberType))"

definition decode_plan :: "json \<Rightarrow> OperationPlanCodecError + OperationPlan" where
  "decode_plan document =
     bindR (OperationPlanCodecMembers document root_names) (\<lambda>root.
     if \<not> IsUint (root ! 0) then Inl (OperationPlanCodecFailure InvalidMemberType)
     else if GetNumber (root ! 0) \<noteq> PlanSchemaVersion
     then Inl (OperationPlanCodecFailure UnsupportedSchemaVersion)
     else
       bindR (OperationPlanCodecDecodeBase64 (root ! 1) 0) (\<lambda>(plan_id, so_far).
       bindR (OperationPlanCodecParseType (root ! 2)) (\<lambda>type.
       bindR (decode_array (root ! 3)) (\<lambda>vs.
       bindR (decode_sources vs so_far) (\<lambda>(sources, so_far).
       bindR (decode_destination (root ! 4) so_far) (\<lambda>(destination, so_far).
       bindR (decode_policy (root ! 5)) (\<lambda>policy.
       bindR (decode_created_at (root ! 6)) (\<lambda>created_at.
       case OperationPlan_Create \<lparr>in_plan_id = plan_id, in_type = type, in_sources = sources,
           in_destination = destination, in_conflict_policy = policy, in_created_at = Some created_at\<rparr> of
         Inl e \<Rightarrow> Inl (OperationPlanCodecValidationFailure e)
       | Inr plan \<Rightarrow> Inr plan))))))))"

definition OperationPlanCodec_Decode :: "Json \<Rightarrow> bytes \<Rightarrow> OperationPlanCodecError + OperationPlan" where
  "OperationPlanCodec_Decode J text =
     (if length text > MaxJSONBytes then Inl (OperationPlanCodecFailure ResourceLimitExceeded)
      else case json_parse J Parse_ValidateEncoding_Iterative text of
        None \<Rightarrow> Inl (OperationPlanCodecFailure MalformedJSON)
      | Some (JObject ms) \<Rightarrow> decode_plan (JObject ms)
      | Some _ \<Rightarrow> Inl (OperationPlanCodecFailure RootNotObject))"

section \<open>What the encoder produces\<close>

lemma AddOpaqueBytes_Some:
  "OperationPlanCodecAddOpaqueBytes n t = Some t' \<longleftrightarrow>
     n \<le> MaxOpaqueFieldBytes \<and> n \<le> MaxDecodedOpaqueBytes - t \<and> t' = t + n"
  by (auto simp: OperationPlanCodecAddOpaqueBytes_def)

text \<open>A list of fields within the limits, from a running total on.\<close>

fun fields_fit :: "nat list \<Rightarrow> nat \<Rightarrow> bool" where
  "fields_fit [] t = True"
| "fields_fit (n # ns) t \<longleftrightarrow> n \<le> MaxOpaqueFieldBytes \<and> n \<le> MaxDecodedOpaqueBytes - t \<and> fields_fit ns (t + n)"

lemma add_all_opaque_fit:
  "add_all_opaque ns t \<noteq> None \<longleftrightarrow> fields_fit ns t"
proof (induction ns arbitrary: t)
  case (Cons n ns)
  show ?case
    using Cons.IH [of "t + n"]
    by (cases "OperationPlanCodecAddOpaqueBytes n t")
      (auto simp: AddOpaqueBytes_Some OperationPlanCodecAddOpaqueBytes_def split: if_splits)
qed simp

lemma fields_fit_append: "fields_fit (ms @ ns) t \<longleftrightarrow> fields_fit ms t \<and> fields_fit ns (t + sum_list ms)"
  by (induction ms arbitrary: t) (auto simp: add.assoc)

lemma fields_fit_mem: "fields_fit ns t \<Longrightarrow> n \<in> set ns \<Longrightarrow> n \<le> MaxOpaqueFieldBytes"
  by (induction ns arbitrary: t) auto

text \<open>\<open>EncodeBase64\<close> of a field within the limit, and the way back.\<close>

lemma encode_base64: "length bs \<le> MaxOpaqueFieldBytes \<Longrightarrow> OperationPlanCodecEncodeBase64 bs = Inr (encode_groups bs)"
  by (simp add: OperationPlanCodecEncodeBase64_def MaxOpaqueFieldBytes_def)

lemma encode_base64_Inr:
  "OperationPlanCodecEncodeBase64 bs = Inr s \<longleftrightarrow> length bs \<le> MaxOpaqueFieldBytes \<and> s = encode_groups bs"
  by (auto simp: OperationPlanCodecEncodeBase64_def MaxOpaqueFieldBytes_def split: if_splits)

lemma decode_field:
  "length bs \<le> MaxOpaqueFieldBytes \<Longrightarrow> length bs \<le> MaxDecodedOpaqueBytes - t \<Longrightarrow>
    OperationPlanCodecDecodeBase64 (JString (encode_groups bs)) t = Inr (bs, t + length bs)"
  by (simp add: decode_base64_iff encode_base64)

text \<open>Tokens and their tables.\<close>

lemma token_Inr [simp]: "token_or_fail t = Inr s \<longleftrightarrow> t = Some s"
  by (cases t) (simp_all add: token_or_fail_def)

lemmas parse_enum_defs = OperationPlanCodecParseEnum_def lookup_token_def

lemma type_token: "OperationPlanCodecTypeToken t = Some s \<longleftrightarrow> OperationPlanCodecParseType (JString s) = Inr t"
  by (cases t) (auto simp: OperationPlanCodecTypeToken_def OperationPlanCodecParseType_def parse_enum_defs
      split: if_splits)

lemma kind_token:
  "OperationPlanCodecDestinationKindToken k = Some s \<longleftrightarrow> OperationPlanCodecParseDestinationKind (JString s) = Inr k"
  by (cases k) (auto simp: OperationPlanCodecDestinationKindToken_def
      OperationPlanCodecParseDestinationKind_def parse_enum_defs split: if_splits)

lemma decision_token:
  "OperationPlanCodecDecisionToken d = Some s \<longleftrightarrow> OperationPlanCodecParseDecision (JString s) = Inr d"
  by (cases d) (auto simp: OperationPlanCodecDecisionToken_def OperationPlanCodecParseDecision_def
      parse_enum_defs split: if_splits)

lemma scope_token:
  "OperationPlanCodecScopeToken c = Some s \<longleftrightarrow> OperationPlanCodecParseScope (JString s) = Inr c"
  by (cases c) (auto simp: OperationPlanCodecScopeToken_def OperationPlanCodecParseScope_def
      parse_enum_defs split: if_splits)

lemma type_token_plain: "OperationPlanCodecTypeToken t = Some s \<Longrightarrow> list_all plain_char s"
  by (cases t) (auto simp: OperationPlanCodecTypeToken_def plain_char_def)

lemma kind_token_plain: "OperationPlanCodecDestinationKindToken k = Some s \<Longrightarrow> list_all plain_char s"
  by (cases k) (auto simp: OperationPlanCodecDestinationKindToken_def plain_char_def)

lemma decision_token_plain: "OperationPlanCodecDecisionToken d = Some s \<Longrightarrow> list_all plain_char s"
  by (cases d) (auto simp: OperationPlanCodecDecisionToken_def plain_char_def)

lemma scope_token_plain: "OperationPlanCodecScopeToken c = Some s \<Longrightarrow> list_all plain_char s"
  by (cases c) (auto simp: OperationPlanCodecScopeToken_def plain_char_def)

lemmas tokens_plain = type_token_plain kind_token_plain decision_token_plain scope_token_plain

text \<open>The values the encoder builds can be written and read back.\<close>

lemma string_writable [simp]: "writable (JString (encode_groups bs))"
  by (simp add: encode_plain)

lemma encode_source_writable: "encode_source s = Inr v \<Longrightarrow> writable v"
  by (auto simp: encode_source_def bindR_eq_Inr encode_base64_Inr encode_plain plain_char_def)

lemma encode_destination_writable: "encode_destination d = Inr v \<Longrightarrow> writable v"
  by (cases d) (auto simp: encode_destination_def bindR_eq_Inr encode_base64_Inr encode_plain
      tokens_plain plain_char_def)

lemma encode_policy_writable: "encode_policy d = Inr v \<Longrightarrow> writable v"
  by (cases d) (auto simp: encode_policy_def bindR_eq_Inr tokens_plain plain_char_def)

lemma epoch_in_int64: "OperationPlanCodecEpochNanoseconds t = Inr ns \<Longrightarrow> in_int64 ns"
  by (auto simp: OperationPlanCodecEpochNanoseconds_def epoch_nanoseconds_Inr)

lemma encode_plan_writable: "encode_plan p = Inr v \<Longrightarrow> writable v"
proof -
  assume "encode_plan p = Inr v"
  then obtain t ss d c ns where parts: "OperationPlanCodecTypeToken (plan_Type p) = Some t"
    "mapR encode_source (plan_Sources p) = Inr ss" "encode_destination (plan_Destination p) = Inr d"
    "encode_policy (plan_ConflictPolicy p) = Inr c"
    "OperationPlanCodecEpochNanoseconds (plan_CreatedAt p) = Inr ns"
    and v: "v = JObject [(''version'', JNum PlanSchemaVersion),
       (''plan_id_base64'', JString (encode_groups (plan_Id p))), (''type'', JString t),
       (''sources'', JArray ss), (''destination'', d), (''conflict_policy'', c),
       (''created_at_epoch_nanoseconds'', JNum ns)]"
    by (auto simp: encode_plan_def bindR_eq_Inr encode_base64_Inr)
  have "list_all writable ss"
    using parts(2) unfolding mapR_Inr list_all2_conv_all_nth list_all_length
    by (metis encode_source_writable)
  with parts show ?thesis
    using epoch_in_int64 [OF parts(5)] tokens_plain(1) [OF parts(1)] encode_policy_writable [OF parts(4)]
      encode_destination_writable [OF parts(3)]
    by (simp add: v plain_char_def encode_plain PlanSchemaVersion_def in_int64_def)
qed

section \<open>Decoding what was encoded\<close>

lemma Members_zip:
  "distinct names \<Longrightarrow> length vs = length names \<Longrightarrow>
    OperationPlanCodecMembers (JObject (zip names vs)) names = Inr vs"
  by (simp add: OperationPlanCodecMembers_def collect_members_zip)

lemma decode_encode_source:
  assumes "encode_source s = Inr v" "fields_fit [length (ProviderId s), length (AbsolutePath s)] t"
  shows "decode_source v t = Inr (s, t + length (ProviderId s) + length (AbsolutePath s))"
  using assms Members_zip [of "[''provider_id_base64'', ''absolute_path_base64'']"
      "[JString (encode_groups (ProviderId s)), JString (encode_groups (AbsolutePath s))]"]
  by (cases s) (auto simp: encode_source_def bindR_eq_Inr encode_base64_Inr decode_source_def decode_field)

definition source_sizes :: "OperationPlanSource list \<Rightarrow> nat list" where
  "source_sizes ss = concat (map (\<lambda>s. [length (ProviderId s), length (AbsolutePath s)]) ss)"

lemma decode_encode_sources:
  "mapR encode_source ss = Inr vs \<Longrightarrow> fields_fit (source_sizes ss) t \<Longrightarrow>
    decode_sources vs t = Inr (ss, t + sum_list (source_sizes ss))"
proof (induction ss arbitrary: vs t)
  case (Cons s ss)
  from Cons.prems(1) obtain v vs' where v: "encode_source s = Inr v" "mapR encode_source ss = Inr vs'"
    "vs = v # vs'" by (auto simp: bindR_eq_Inr)
  let ?t = "t + length (ProviderId s) + length (AbsolutePath s)"
  have "decode_source v t = Inr (s, ?t)"
    using v(1) Cons.prems(2) by (intro decode_encode_source) (simp_all add: source_sizes_def)
  moreover have "decode_sources vs' ?t = Inr (ss, ?t + sum_list (source_sizes ss))"
    using Cons.prems(2) by (intro Cons.IH v(2)) (simp add: source_sizes_def)
  ultimately show ?case by (simp add: v(3) source_sizes_def)
qed (simp add: source_sizes_def)

definition destination_sizes :: "OperationPlanDestination option \<Rightarrow> nat list" where
  "destination_sizes d = (case d of None \<Rightarrow> []
     | Some d \<Rightarrow> [length (DestProviderId d), length (DestAbsolutePath d)])"

lemma decode_encode_destination:
  assumes "encode_destination d = Inr v" "fields_fit (destination_sizes d) t"
  shows "decode_destination v t = Inr (d, t + sum_list (destination_sizes d))"
proof (cases d)
  case None
  with assms show ?thesis by (simp add: encode_destination_def decode_destination_def destination_sizes_def)
next
  case (Some e)
  with assms(1) obtain k where k: "OperationPlanCodecDestinationKindToken (Kind e) = Some k" and
    v: "v = JObject (zip [''provider_id_base64'', ''absolute_path_base64'', ''kind'']
      [JString (encode_groups (DestProviderId e)), JString (encode_groups (DestAbsolutePath e)), JString k])"
    by (auto simp: encode_destination_def bindR_eq_Inr encode_base64_Inr)
  have "OperationPlanCodecMembers v [''provider_id_base64'', ''absolute_path_base64'', ''kind''] =
      Inr [JString (encode_groups (DestProviderId e)), JString (encode_groups (DestAbsolutePath e)), JString k]"
    unfolding v by (rule Members_zip) simp_all
  moreover have "OperationPlanCodecParseDestinationKind (JString k) = Inr (Kind e)"
    using k by (simp add: kind_token)
  moreover have "v \<noteq> JNull" by (simp add: v)
  ultimately show ?thesis
    using assms(2) Some by (cases e) (simp add: decode_destination_def destination_sizes_def decode_field)
qed

lemma decode_encode_policy:
  assumes "encode_policy c = Inr v"
  shows "decode_policy v = Inr c"
proof (cases c)
  case None
  with assms show ?thesis by (simp add: encode_policy_def decode_policy_def)
next
  case (Some p)
  with assms obtain d s where ds: "OperationPlanCodecDecisionToken (Decision p) = Some d"
    "OperationPlanCodecScopeToken (Scope p) = Some s" and
    v: "v = JObject (zip [''decision'', ''scope''] [JString d, JString s])"
    by (auto simp: encode_policy_def bindR_eq_Inr)
  have "OperationPlanCodecMembers v [''decision'', ''scope''] = Inr [JString d, JString s]"
    unfolding v by (rule Members_zip) simp_all
  moreover have "v \<noteq> JNull" by (simp add: v)
  ultimately show ?thesis
    using Some ds by (cases p) (simp add: decode_policy_def decision_token scope_token)
qed

lemma decode_encode_plan:
  assumes ok: "plan_ok p" and int: "in_int64 (plan_CreatedAt p)" and e: "encode_plan p = Inr v"
  shows "decode_plan v = Inr p"
proof -
  from e obtain t ss d c ns where limits: "length (plan_Sources p) \<le> MaxSources"
      "add_all_opaque (opaque_sizes p) 0 \<noteq> None"
    and parts: "OperationPlanCodecTypeToken (plan_Type p) = Some t"
    "mapR encode_source (plan_Sources p) = Inr ss" "encode_destination (plan_Destination p) = Inr d"
    "encode_policy (plan_ConflictPolicy p) = Inr c"
    "OperationPlanCodecEpochNanoseconds (plan_CreatedAt p) = Inr ns"
    and v: "v = JObject (zip root_names [JNum PlanSchemaVersion, JString (encode_groups (plan_Id p)),
       JString t, JArray ss, d, c, JNum ns])"
    by (auto simp: encode_plan_def bindR_eq_Inr encode_base64_Inr root_names_def)
  have root: "OperationPlanCodecMembers v root_names =
      Inr [JNum PlanSchemaVersion, JString (encode_groups (plan_Id p)), JString t, JArray ss, d, c, JNum ns]"
    unfolding v by (rule Members_zip) (simp_all add: root_names_def)
  have "opaque_sizes p = length (plan_Id p) # source_sizes (plan_Sources p) @ destination_sizes (plan_Destination p)"
    by (simp add: opaque_sizes_def source_sizes_def destination_sizes_def)
  with limits(2) have fit: "fields_fit [length (plan_Id p)] 0" "fields_fit (source_sizes (plan_Sources p)) (length (plan_Id p))"
    "fields_fit (destination_sizes (plan_Destination p)) (length (plan_Id p) + sum_list (source_sizes (plan_Sources p)))"
    unfolding add_all_opaque_fit by (simp_all add: fields_fit_append)
  have ns: "in_int64 ns" using parts(5) by (rule epoch_in_int64)
  then have time: "decode_created_at (JNum ns) = Inr (plan_CreatedAt p)"
    using parts(5) int
    by (simp add: decode_created_at_def OperationPlanCodecTimePoint_def time_point_Inr
        OperationPlanCodecEpochNanoseconds_def epoch_nanoseconds_Inr in_int64_def)
  have n: "length ss \<le> MaxSources"
    using parts(2) limits(1) by (simp add: mapR_Inr list_all2_lengthD [symmetric])
  have create: "OperationPlan_Create \<lparr>in_plan_id = plan_Id p, in_type = plan_Type p, in_sources = plan_Sources p,
           in_destination = plan_Destination p, in_conflict_policy = plan_ConflictPolicy p,
           in_created_at = Some (plan_CreatedAt p)\<rparr> = Inr p"
    using Create_input_of [OF ok] by (simp add: input_of_def)
  show ?thesis
    using fit n time create parts(1) decode_encode_sources [OF parts(2) fit(2)]
      decode_encode_destination [OF parts(3) fit(3)] decode_encode_policy [OF parts(4)]
    by (simp add: decode_plan_def root PlanSchemaVersion_def decode_field type_token decode_array_def)
qed

lemma Decode_Encode:
  assumes "json_ok J" and "plan_ok p" "in_int64 (plan_CreatedAt p)"
    and "OperationPlanCodec_Encode J p = Inr text"
  shows "OperationPlanCodec_Decode J text = Inr p"
proof -
  from assms(4) obtain v where v: "encode_plan p = Inr v" "text = json_print J v" "length text \<le> MaxJSONBytes"
    by (auto simp: OperationPlanCodec_Encode_def bindR_eq_Inr Let_def split: if_splits)
  have "json_parse J Parse_ValidateEncoding_Iterative text = Some v"
    unfolding v(2) by (rule json_okD [OF assms(1) encode_plan_writable [OF v(1)]])
  moreover from v(1) obtain ms where "v = JObject ms" by (auto simp: encode_plan_def bindR_eq_Inr)
  ultimately show ?thesis
    using v(3) decode_encode_plan [OF assms(2,3) v(1)] by (simp add: OperationPlanCodec_Decode_def)
qed

section \<open>What the decoder accepts\<close>

lemma decode_base64_Inr:
  assumes "OperationPlanCodecDecodeBase64 v t = Inr (bs, t')"
  shows "fields_fit [length bs] t \<and> t' = t + length bs"
  using assms decode_base64_iff [of _ t bs t']
  by (cases v) (auto simp: OperationPlanCodecDecodeBase64_def encode_base64_Inr)

lemma decode_source_Inr:
  assumes "decode_source v t = Inr (s, t')"
  shows "fields_fit [length (ProviderId s), length (AbsolutePath s)] t"
    "t' = t + length (ProviderId s) + length (AbsolutePath s)"
  using assms by (auto simp: decode_source_def bindR_eq_Inr dest!: decode_base64_Inr)

lemma decode_sources_Inr:
  "decode_sources vs t = Inr (ss, t') \<Longrightarrow>
    fields_fit (source_sizes ss) t \<and> t' = t + sum_list (source_sizes ss) \<and> length ss = length vs"
proof (induction vs arbitrary: t ss)
  case (Cons v vs)
  from Cons.prems obtain s t1 ss1 where s: "decode_source v t = Inr (s, t1)"
    "decode_sources vs t1 = Inr (ss1, t')" "ss = s # ss1" by (auto simp: bindR_eq_Inr)
  with Cons.IH [OF s(2)] decode_source_Inr [OF s(1)] show ?case by (simp add: source_sizes_def)
qed (simp add: source_sizes_def)

lemma decode_destination_Inr:
  assumes "decode_destination v t = Inr (d, t')"
  shows "fields_fit (destination_sizes d) t" "t' = t + sum_list (destination_sizes d)"
  using assms
  by (auto simp: decode_destination_def bindR_eq_Inr destination_sizes_def split: if_splits
      dest!: decode_base64_Inr)

lemma mapR_total: "(\<And>x. x \<in> set xs \<Longrightarrow> \<exists>y. f x = Inr y) \<Longrightarrow> \<exists>ys. mapR f xs = Inr ys"
  by (induction xs) fastforce+

lemma relabel_Inr: "(case m of Inl e \<Rightarrow> Inl (f e) | Inr x \<Rightarrow> Inr x) = Inr y \<longleftrightarrow> m = Inr y"
  by (cases m) auto

text \<open>A plan that was decoded is a plan, and within the limits of the encoder.\<close>

lemma decode_plan_ok:
  assumes "decode_plan v = Inr p"
  shows "plan_ok p \<and> in_int64 (plan_CreatedAt p) \<and> (\<exists>v'. encode_plan p = Inr v')"
proof -
  from assms obtain root id t1 type vs ss t2 d t3 c ns where
    root: "OperationPlanCodecMembers v root_names = Inr root"
    and id: "OperationPlanCodecDecodeBase64 (root ! 1) 0 = Inr (id, t1)"
    and vs: "decode_array (root ! 3) = Inr vs" and ss: "decode_sources vs t1 = Inr (ss, t2)"
    and d: "decode_destination (root ! 4) t2 = Inr (d, t3)"
    and time: "decode_created_at (root ! 6) = Inr ns"
    and create: "OperationPlan_Create \<lparr>in_plan_id = id, in_type = type, in_sources = ss,
      in_destination = d, in_conflict_policy = c, in_created_at = Some ns\<rparr> = Inr p"
    by (auto simp: decode_plan_def bindR_eq_Inr relabel_Inr split: if_splits)
  have p: "plan_ok p" "plan_Id p = id" "plan_Sources p = ss" "plan_Destination p = d" "plan_CreatedAt p = ns"
    using Create_plan_ok [OF create] by (auto simp: input_of_def)
  from time obtain n where n: "in_int64 n" "OperationPlanCodecTimePoint n = Inr ns"
    by (auto simp: decode_created_at_def IsInt64_def GetNumber_def in_int64_def split: if_splits json.splits)
  then have ns: "in_int64 ns" "OperationPlanCodecEpochNanoseconds ns = Inr n"
    by (simp_all add: OperationPlanCodecTimePoint_def time_point_Inr
        OperationPlanCodecEpochNanoseconds_def epoch_nanoseconds_Inr)
  have sizes: "fields_fit (length (plan_Id p) # source_sizes (plan_Sources p) @ destination_sizes (plan_Destination p)) 0"
    using decode_base64_Inr [OF id] decode_sources_Inr [OF ss] decode_destination_Inr [OF d] p
    by (simp add: fields_fit_append)
  then have "add_all_opaque (opaque_sizes p) 0 \<noteq> None"
    unfolding add_all_opaque_fit by (simp add: opaque_sizes_def source_sizes_def destination_sizes_def)
  moreover have "length (plan_Sources p) \<le> MaxSources"
    using decode_sources_Inr [OF ss] vs p by (auto simp: decode_array_def split: json.splits if_splits)
  moreover have "\<exists>vs. mapR encode_source (plan_Sources p) = Inr vs"
  proof (rule mapR_total)
    fix s assume "s \<in> set (plan_Sources p)"
    then have "length (ProviderId s) \<in> set (source_sizes (plan_Sources p))"
      "length (AbsolutePath s) \<in> set (source_sizes (plan_Sources p))"
      by (auto simp: source_sizes_def)
    then show "\<exists>v. encode_source s = Inr v"
      using fields_fit_mem [OF sizes] by (simp add: encode_source_def encode_base64)
  qed
  moreover have "\<exists>s. OperationPlanCodecTypeToken (plan_Type p) = Some s"
    using plan_type_cases(1) [OF p(1)] by (cases "plan_Type p") (auto simp: OperationPlanCodecTypeToken_def)
  moreover have "\<exists>v. encode_destination (plan_Destination p) = Inr v"
  proof (cases "plan_Destination p")
    case (Some e)
    then have "destination_ok e" using p(1) by (simp add: plan_ok_def input_ok_def input_of_def)
    then obtain k where "OperationPlanCodecDestinationKindToken (Kind e) = Some k"
      by (auto simp: destination_ok_def OperationPlanCodecDestinationKindToken_def)
    moreover have "length (DestProviderId e) \<le> MaxOpaqueFieldBytes" "length (DestAbsolutePath e) \<le> MaxOpaqueFieldBytes"
      using Some fields_fit_mem [OF sizes] by (auto simp: destination_sizes_def)
    ultimately show ?thesis using Some by (simp add: encode_destination_def encode_base64 token_or_fail_def)
  qed (simp add: encode_destination_def)
  moreover have "\<exists>v. encode_policy (plan_ConflictPolicy p) = Inr v"
  proof (cases "plan_ConflictPolicy p")
    case (Some q)
    then have "policy_ok q" using p(1) by (simp add: plan_ok_def input_ok_def input_of_def)
    then show ?thesis using Some
      by (auto simp: policy_ok_def encode_policy_def IsValidDecision_def IsValidScope_def token_or_fail_def
          OperationPlanCodecDecisionToken_def OperationPlanCodecScopeToken_def)
  qed (simp add: encode_policy_def)
  moreover have "length (plan_Id p) \<le> MaxOpaqueFieldBytes" using sizes by simp
  ultimately show ?thesis
    using p ns by (auto simp: encode_plan_def encode_base64 token_or_fail_def reject_if_def)
qed

lemma Decode_ok:
  "OperationPlanCodec_Decode J text = Inr p \<Longrightarrow>
    plan_ok p \<and> in_int64 (plan_CreatedAt p) \<and> (\<exists>v. encode_plan p = Inr v)"
  by (auto simp: OperationPlanCodec_Decode_def split: if_splits option.splits json.splits dest!: decode_plan_ok)

text \<open>
  C32: decoding an encoded plan gives the plan back, for every plan whose encoding is not refused for
  its size, including paths and identities of arbitrary bytes.
\<close>

theorem PlanCodec_roundtrip:
  assumes "json_ok J" and "plan_ok p" "in_int64 (plan_CreatedAt p)"
    and "OperationPlanCodec_Encode J p = Inr text"
  shows "OperationPlanCodec_Decode J text = Inr p"
  using assms by (rule Decode_Encode)

text \<open>A plan to trash one item, and its encoding.\<close>

definition sample_plan :: OperationPlan where
  "sample_plan = plan_of
     \<lparr>in_plan_id = ''p'', in_type = Type_Trash, in_sources = [\<lparr>ProviderId = ''n'', AbsolutePath = ''/a''\<rparr>],
      in_destination = None, in_conflict_policy = None, in_created_at = Some 5\<rparr> 5"

definition sample_encoded :: json where
  "sample_encoded = JObject
     [(''version'', JNum 1), (''plan_id_base64'', JString ''cA==''), (''type'', JString ''trash''),
      (''sources'', JArray [JObject [(''provider_id_base64'', JString ''bg==''),
         (''absolute_path_base64'', JString ''L2E='')]]),
      (''destination'', JNull), (''conflict_policy'', JNull), (''created_at_epoch_nanoseconds'', JNum 5000)]"

lemma sample_plan_ok: "plan_ok sample_plan" "in_int64 (plan_CreatedAt sample_plan)"
  by (simp_all add: sample_plan_def plan_ok_def plan_of_def input_of_def input_ok_def IsValidIdentity_def
      source_ok_def IsValidAbsolutePath_def shape_ok_def in_int64_def)

lemma sample_base64:
  "OperationPlanCodecEncodeBase64 ''p'' = Inr ''cA==''" "OperationPlanCodecEncodeBase64 ''n'' = Inr ''bg==''"
  "OperationPlanCodecEncodeBase64 ''/a'' = Inr ''L2E=''"
  by (simp_all add: OperationPlanCodecEncodeBase64_def MaxOpaqueFieldBytes_def sextets_arith Base64Alphabet_def)

lemma encode_sample_plan: "encode_plan sample_plan = Inr sample_encoded"
  by (simp add: encode_plan_def sample_plan_def plan_of_def sample_encoded_def reject_if_def MaxSources_def
      opaque_sizes_def OperationPlanCodecAddOpaqueBytes_def MaxOpaqueFieldBytes_def MaxDecodedOpaqueBytes_def
      sample_base64 token_or_fail_def OperationPlanCodecTypeToken_def OperationPlanCodecEpochNanoseconds_def
      epoch_nanoseconds_def Period_num_def Period_den_def in_int64_def encode_source_def
      encode_destination_def encode_policy_def PlanSchemaVersion_def)

lemma Encode_sample_plan: "OperationPlanCodec_Encode sample_json sample_plan = Inr (write_json sample_encoded)"
proof -
  have "length (write_json sample_encoded) \<le> MaxJSONBytes"
    by (simp add: sample_encoded_def quoted_def decimal_int_def decimal.simps MaxJSONBytes_def)
  then show ?thesis
    by (simp add: OperationPlanCodec_Encode_def encode_sample_plan sample_json_def Let_def)
qed

theorem PlanCodec_roundtrip_witness:
  "OperationPlanCodec_Decode sample_json (write_json sample_encoded) = Inr sample_plan"
  by (rule PlanCodec_roundtrip [OF sample_json_ok sample_plan_ok Encode_sample_plan])

end
