(* ===== verification/Journal.thy ===== *)
theory Journal
  imports OperationId PlanCodec
begin

text \<open>
  The vocabulary of the operation journal (\<open>Source/Operations/source/OperationJournal.h\<close> and
  \<open>.cpp\<close>): states, item results and entries, the rules that say which results and which lifecycles
  are valid, the legal transitions, and the tokens of the persisted form. As with plans, an
  enumeration has one value more than the source names, for the other bit patterns.
\<close>

datatype OperationJournalState =
    State_Admitted | State_Running | State_Interrupted | State_Completed | State_Failed
  | State_Cancelled | State_Invalid

datatype OperationJournalItemStatus =
    Status_Succeeded | Status_Failed | Status_Cancelled | Status_Skipped | Status_Invalid

datatype OperationJournalItemError =
    Item_None | Item_SourceChanged | Item_DestinationChanged | Item_PermissionDenied | Item_Read
  | Item_Write | Item_Metadata | Item_Commit | Item_Cleanup | Item_Cancelled | Item_Unknown
  | Item_Invalid

datatype OperationJournalRecoveryAction =
    Recovery_None | Recovery_Retry | Recovery_InspectDestination | Recovery_RemoveTemporaryItem
  | Recovery_RestoreSource | Recovery_InspectSource | Recovery_Invalid

datatype OperationJournalFilesystemSyncStatus =
    Sync_NotAttempted | Sync_Confirmed | Sync_Failed | Sync_Invalid

datatype OperationJournalPublicationState =
    Publication_NotPublished | Publication_Published | Publication_Unknown | Publication_Invalid

datatype OperationJournalRemovalState =
    Removal_NotRemoved | Removal_Removed | Removal_Unknown | Removal_Invalid

text \<open>An \<open>int\<close> of the code is kept as its bit pattern and read with \<open>sint\<close>.\<close>

type_synonym i32 = "32 word"

record OperationJournalItemResult =
  item_index :: nat
  item_status :: OperationJournalItemStatus
  item_error :: OperationJournalItemError
  system_error :: i32
  prior_error :: OperationJournalItemError
  prior_system_error :: i32
  bytes_done :: u64
  destination_publication :: OperationJournalPublicationState
  source_removal :: OperationJournalRemovalState
  filesystem_sync_status :: OperationJournalFilesystemSyncStatus
  filesystem_sync_system_error :: i32
  recovery_action :: OperationJournalRecoveryAction

record OperationJournalEntry =
  operation_id :: OperationId
  entry_plan :: OperationPlan
  entry_state :: OperationJournalState
  updated_at :: int
  item_results :: "OperationJournalItemResult list"

datatype OperationJournalErrorCode =
    JE_InvalidParentPath | JE_ParentOpenFailed | JE_LockOpenFailed | JE_JournalAlreadyOpen
  | JE_JournalOpenFailed | JE_JournalReadFailed | JE_JournalTooLarge | JE_MalformedJournal
  | JE_UnsupportedSchemaVersion | JE_CorruptJournal | JE_DuplicateOperationId | JE_DuplicatePlanId
  | JE_PlanCodecFailed | JE_PlanAlreadyAdmitted | JE_PlanNotFound | JE_InvalidTransition
  | JE_InvalidAdmissionReceipt | JE_AdmissionReceiptAlreadyConsumed | JE_InvalidRunReceipt
  | JE_RunReceiptAlreadyConsumed | JE_InvalidItemResult | JE_ResourceLimitExceeded
  | JE_TemporaryCreateFailed | JE_WriteFailed | JE_FileSyncFailed | JE_CloseFailed | JE_RenameFailed
  | JE_DurabilityUncertain | JE_JournalUnusable

record OperationJournalError =
  journal_code :: OperationJournalErrorCode
  journal_system_error :: int
  journal_plan_codec_error :: "OperationPlanCodecError option"

definition OperationJournalFailure :: "OperationJournalErrorCode \<Rightarrow> OperationJournalError" where
  "OperationJournalFailure code =
     \<lparr>journal_code = code, journal_system_error = 0, journal_plan_codec_error = None\<rparr>"

definition OperationJournalSystemFailure :: "OperationJournalErrorCode \<Rightarrow> int \<Rightarrow> OperationJournalError" where
  "OperationJournalSystemFailure code errno =
     \<lparr>journal_code = code, journal_system_error = errno, journal_plan_codec_error = None\<rparr>"

definition OperationJournalCodecFailure :: "OperationPlanCodecError \<Rightarrow> OperationJournalError" where
  "OperationJournalCodecFailure e =
     \<lparr>journal_code = JE_PlanCodecFailed, journal_system_error = 0, journal_plan_codec_error = Some e\<rparr>"

definition JournalSchemaVersion :: int where "JournalSchemaVersion = 4"
definition MaxEntries :: nat where "MaxEntries = 10000"
definition MaxItemResults :: nat where "MaxItemResults = 100000"
definition MaxJournalBytes :: nat where "MaxJournalBytes = 128 * 1024 * 1024"

text \<open>The assertion that the text parses back holds for the identities there are, the positive ones.\<close>

definition OperationJournalOperationIdSequence :: "OperationId \<Rightarrow> u64" where
  "OperationJournalOperationIdSequence i =
     (case from_chars_u64 (drop (length op_prefix) (ToString i)) 0 of (ec, sequence, parsed_until) \<Rightarrow>
        if ec = errc_ok \<and> parsed_until = [] \<and> sequence \<noteq> 0 then sequence else 0)"

section \<open>Valid results\<close>

definition OperationJournalPublishesDestination :: "OperationPlanType \<Rightarrow> bool" where
  "OperationJournalPublishesDestination t \<longleftrightarrow> t = Type_Copy \<or> t = Type_Move \<or> t = Type_Rename"

definition OperationJournalRemovesSource :: "OperationPlanType \<Rightarrow> bool" where
  "OperationJournalRemovesSource t \<longleftrightarrow> t = Type_Trash \<or> t = Type_PermanentDelete"

text \<open>
  The tests of \<open>OperationJournalValidItemResult\<close>, in its order: the two axes, the entry_state of the
  synchronisation, the prior item_error, and the switch over the item_status.
\<close>

definition valid_axes :: "bool \<Rightarrow> bool \<Rightarrow> OperationJournalItemResult \<Rightarrow> bool" where
  "valid_axes publishes removes r \<longleftrightarrow>
     (publishes \<or> destination_publication r = Publication_NotPublished) \<and>
     (removes \<or> source_removal r = Removal_NotRemoved) \<and>
     destination_publication r \<noteq> Publication_Invalid \<and> source_removal r \<noteq> Removal_Invalid"

definition valid_sync :: "bool \<Rightarrow> bool \<Rightarrow> OperationJournalItemResult \<Rightarrow> bool" where
  "valid_sync publishes removes r \<longleftrightarrow>
     (let active_axis_positive = (publishes \<and> destination_publication r = Publication_Published \<or>
            removes \<and> source_removal r = Removal_Removed) in
      if \<not> active_axis_positive then
        filesystem_sync_status r = Sync_NotAttempted \<and> filesystem_sync_system_error r = 0
      else if filesystem_sync_status r = Sync_Confirmed then filesystem_sync_system_error r = 0
      else if filesystem_sync_status r = Sync_Failed then filesystem_sync_system_error r \<noteq> 0
      else False)"

definition valid_prior :: "OperationJournalItemResult \<Rightarrow> bool" where
  "valid_prior r \<longleftrightarrow>
     (if item_error r = Item_Cleanup then
        destination_publication r = Publication_NotPublished \<and> source_removal r = Removal_NotRemoved \<and>
        prior_error r \<noteq> Item_None \<and> prior_error r \<noteq> Item_Cleanup \<and>
        (if prior_error r = Item_Cancelled then prior_system_error r = 0 else prior_system_error r \<noteq> 0)
      else prior_error r = Item_None \<and> prior_system_error r = 0)"

definition untouched :: "OperationJournalItemResult \<Rightarrow> bool" where
  "untouched r \<longleftrightarrow> destination_publication r = Publication_NotPublished \<and> source_removal r = Removal_NotRemoved"

definition valid_failed :: "OperationJournalItemResult \<Rightarrow> bool" where
  "valid_failed r \<longleftrightarrow>
     item_error r \<noteq> Item_None \<and> item_error r \<noteq> Item_Cancelled \<and>
     (item_error r = Item_Cleanup \<or> system_error r \<noteq> 0) \<and>
     (destination_publication r = Publication_Unknown \<longrightarrow>
        item_error r = Item_Commit \<and> recovery_action r = Recovery_InspectDestination) \<and>
     (source_removal r = Removal_Unknown \<longrightarrow>
        item_error r = Item_Commit \<and> recovery_action r = Recovery_InspectSource) \<and>
     (case recovery_action r of
        Recovery_None \<Rightarrow> destination_publication r \<noteq> Publication_Unknown \<and> source_removal r \<noteq> Removal_Unknown
      | Recovery_Retry \<Rightarrow> untouched r
      | Recovery_RemoveTemporaryItem \<Rightarrow> untouched r
      | Recovery_InspectDestination \<Rightarrow> destination_publication r \<noteq> Publication_NotPublished
      | Recovery_InspectSource \<Rightarrow> source_removal r \<noteq> Removal_NotRemoved
      | Recovery_RestoreSource \<Rightarrow> destination_publication r = Publication_Published
      | Recovery_Invalid \<Rightarrow> False)"

definition valid_status :: "bool \<Rightarrow> bool \<Rightarrow> OperationJournalItemResult \<Rightarrow> bool" where
  "valid_status publishes removes r \<longleftrightarrow> (case item_status r of
      Status_Succeeded \<Rightarrow>
        item_error r = Item_None \<and> system_error r = 0 \<and>
        destination_publication r = (if publishes then Publication_Published else Publication_NotPublished) \<and>
        source_removal r = (if removes then Removal_Removed else Removal_NotRemoved) \<and>
        (\<not> publishes \<and> \<not> removes \<or> filesystem_sync_status r = Sync_Confirmed) \<and>
        recovery_action r = Recovery_None
    | Status_Skipped \<Rightarrow>
        item_error r = Item_None \<and> system_error r = 0 \<and> bytes_done r = 0 \<and> untouched r \<and>
        recovery_action r = Recovery_None
    | Status_Cancelled \<Rightarrow>
        item_error r = Item_Cancelled \<and> system_error r = 0 \<and> untouched r \<and> recovery_action r = Recovery_None
    | Status_Failed \<Rightarrow> valid_failed r
    | Status_Invalid \<Rightarrow> False)"

definition OperationJournalValidItemResult :: "OperationPlan \<Rightarrow> OperationJournalItemResult \<Rightarrow> bool" where
  "OperationJournalValidItemResult p r \<longleftrightarrow>
     (if item_index r \<ge> length (plan_Sources p) \<or> sint (system_error r) < 0 \<or>
         sint (prior_system_error r) < 0 \<or> sint (filesystem_sync_system_error r) < 0 then False
      else let publishes = OperationJournalPublishesDestination (plan_Type p);
               removes = OperationJournalRemovesSource (plan_Type p) in
        valid_axes publishes removes r \<and> valid_sync publishes removes r \<and> valid_prior r \<and>
        valid_status publishes removes r)"

text \<open>The loop keeps the index of the previous result.\<close>

fun ordered_results :: "OperationPlan \<Rightarrow> nat option \<Rightarrow> OperationJournalItemResult list \<Rightarrow> bool" where
  "ordered_results p previous [] = True"
| "ordered_results p previous (r # rs) =
     (if \<not> OperationJournalValidItemResult p r \<or>
         (case previous of None \<Rightarrow> False | Some i \<Rightarrow> i \<ge> item_index r) then False
      else ordered_results p (Some (item_index r)) rs)"

definition OperationJournalValidOrderedItemResults ::
  "OperationPlan \<Rightarrow> OperationJournalItemResult list \<Rightarrow> bool" where
  "OperationJournalValidOrderedItemResults p rs = ordered_results p None rs"

definition has_status :: "OperationJournalEntry \<Rightarrow> OperationJournalItemStatus \<Rightarrow> bool" where
  "has_status e s = list_ex (\<lambda>r. item_status r = s) (item_results e)"

definition OperationJournalValidEntryLifecycle :: "OperationJournalEntry \<Rightarrow> bool" where
  "OperationJournalValidEntryLifecycle e \<longleftrightarrow>
     (if \<not> OperationJournalValidOrderedItemResults (entry_plan e) (item_results e) then False
      else let complete = (length (item_results e) = length (plan_Sources (entry_plan e))) in
        case entry_state e of
          State_Admitted \<Rightarrow> item_results e = []
        | State_Running \<Rightarrow> True
        | State_Interrupted \<Rightarrow> True
        | State_Completed \<Rightarrow> complete \<and> \<not> has_status e Status_Failed \<and> \<not> has_status e Status_Cancelled
        | State_Failed \<Rightarrow> item_results e = [] \<or>
            has_status e Status_Failed \<and> \<not> has_status e Status_Cancelled
        | State_Cancelled \<Rightarrow> item_results e = [] \<or>
            has_status e Status_Cancelled \<and> \<not> has_status e Status_Failed
        | State_Invalid \<Rightarrow> False)"

definition OperationJournalLegalTransition :: "OperationJournalState \<Rightarrow> OperationJournalState \<Rightarrow> bool" where
  "OperationJournalLegalTransition from to \<longleftrightarrow> (case from of
      State_Admitted \<Rightarrow> to = State_Failed \<or> to = State_Cancelled
    | State_Running \<Rightarrow> to = State_Completed \<or> to = State_Failed \<or> to = State_Cancelled
    | State_Interrupted \<Rightarrow> to = State_Failed \<or> to = State_Cancelled
    | _ \<Rightarrow> False)"

section \<open>What valid entries look like\<close>

lemma ordered_results_iff:
  "ordered_results p previous rs \<longleftrightarrow>
     list_all (OperationJournalValidItemResult p) rs \<and> sorted_wrt (<) (map item_index rs) \<and>
     (\<forall>i r. previous = Some i \<longrightarrow> r \<in> set rs \<longrightarrow> i < item_index r)"
proof (induction rs arbitrary: previous)
  case (Cons r rs)
  then show ?case by (cases previous) (auto dest: less_trans simp: not_le)
qed simp

lemma ValidOrderedItemResults_iff:
  "OperationJournalValidOrderedItemResults p rs \<longleftrightarrow>
     list_all (OperationJournalValidItemResult p) rs \<and> sorted_wrt (<) (map item_index rs)"
  by (simp add: OperationJournalValidOrderedItemResults_def ordered_results_iff)

lemma ValidItemResult_index: "OperationJournalValidItemResult p r \<Longrightarrow> item_index r < length (plan_Sources p)"
  by (auto simp: OperationJournalValidItemResult_def split: if_splits)

lemma ValidItemResult_status:
  "OperationJournalValidItemResult p r \<Longrightarrow> item_status r \<noteq> Status_Invalid"
  by (auto simp: OperationJournalValidItemResult_def valid_status_def Let_def split: if_splits)

lemma Lifecycle_results:
  "OperationJournalValidEntryLifecycle e \<Longrightarrow>
     list_all (OperationJournalValidItemResult (entry_plan e)) (item_results e) \<and>
     sorted_wrt (<) (map item_index (item_results e))"
  by (simp add: OperationJournalValidEntryLifecycle_def ValidOrderedItemResults_iff split: if_splits)

text \<open>Indices that increase below a bound, as many as the bound, are all of them.\<close>

lemma strict_all_below:
  assumes "sorted_wrt (<) (ns :: nat list)" "\<forall>n \<in> set ns. n < length ns"
  shows "ns = [0..<length ns]"
proof (rule sorted_distinct_set_unique)
  show "sorted ns" "distinct ns" using assms(1) by (simp_all add: strict_sorted_iff)
  moreover have "set ns \<subseteq> {0..<length ns}" using assms(2) by auto
  ultimately show "set ns = set [0..<length ns]"
    using distinct_card [of ns] by (simp add: card_subset_eq)
qed simp_all

text \<open>
  An entry may be completed exactly when it holds one valid result for every source of its plan,
  in the order of the sources, and every one of them succeeded or was skipped.
\<close>

theorem Completed_evidence:
  "OperationJournalValidEntryLifecycle e \<and> entry_state e = State_Completed \<longleftrightarrow>
     entry_state e = State_Completed \<and>
     map item_index (item_results e) = [0..<length (plan_Sources (entry_plan e))] \<and>
     list_all (\<lambda>r. OperationJournalValidItemResult (entry_plan e) r \<and>
       (item_status r = Status_Succeeded \<or> item_status r = Status_Skipped)) (item_results e)"
    (is "?L \<longleftrightarrow> ?R")
proof
  assume L: ?L
  then have e: "list_all (OperationJournalValidItemResult (entry_plan e)) (item_results e)"
    "sorted_wrt (<) (map item_index (item_results e))"
    "length (item_results e) = length (plan_Sources (entry_plan e))"
    "\<not> has_status e Status_Failed" "\<not> has_status e Status_Cancelled"
    by (auto simp: OperationJournalValidEntryLifecycle_def ValidOrderedItemResults_iff split: if_splits)
  then have "map item_index (item_results e) = [0..<length (plan_Sources (entry_plan e))]"
    using strict_all_below [of "map item_index (item_results e)"] ValidItemResult_index
    by (auto simp: list_all_iff)
  moreover have "item_status r = Status_Succeeded \<or> item_status r = Status_Skipped" if "r \<in> set (item_results e)" for r
    using e that ValidItemResult_status
    by (cases "item_status r") (auto simp: has_status_def list_all_iff list_ex_iff)
  ultimately show ?R using L e(1) by (simp add: list_all_iff)
next
  assume R: ?R
  then have i: "map item_index (item_results e) = [0..<length (plan_Sources (entry_plan e))]" by blast
  then have "length (item_results e) = length (plan_Sources (entry_plan e))"
    using length_map [of item_index "item_results e"] by simp
  then show ?L
    using R i by (auto simp: OperationJournalValidEntryLifecycle_def ValidOrderedItemResults_iff has_status_def
        list_all_iff list_ex_iff sorted_wrt_upt)
qed

text \<open>The sequence number read back from the text of an identity is the identity.\<close>

lemma OperationIdSequence_eq [simp]:
  "OperationJournalOperationIdSequence i = i"
proof (cases "i = 0")
  case True
  then show ?thesis
    by (simp add: OperationJournalOperationIdSequence_def from_chars_u64_def Let_def ToString_def
        decimal.simps is_digit_def dec_val_single)
next
  case False
  moreover have "unat i < 2 ^ 64" using unsigned_less [of i] by simp
  ultimately show ?thesis
    by (simp add: OperationJournalOperationIdSequence_def ToString_def from_chars_u64_def dec_val_dec Let_def)
qed

text \<open>Terminal states allow no transition.\<close>

definition terminal :: "OperationJournalState \<Rightarrow> bool" where
  "terminal s \<longleftrightarrow> s = State_Completed \<or> s = State_Failed \<or> s = State_Cancelled"

lemma LegalTransition_terminal: "OperationJournalLegalTransition from to \<Longrightarrow> \<not> terminal from \<and> terminal to"
  by (cases "from") (auto simp: OperationJournalLegalTransition_def terminal_def)

end
