(* ===== verification/JournalCodec.thy ===== *)
theory JournalCodec
  imports Journal
begin

text \<open>
  The persisted form of the journal (\<open>OperationJournalEncode\<close> and \<open>OperationJournalDecode\<close> of
  \<open>OperationJournal.cpp\<close>): one JSON document with the entries and the high-water mark of the
  operation identities. The decoder also reads the three older versions of the schema.
\<close>

definition OperationJournalMembers :: "json \<Rightarrow> bytes list \<Rightarrow> OperationJournalError + json list" where
  "OperationJournalMembers v names = (case v of
      JObject ms \<Rightarrow> collect_members (OperationJournalFailure JE_CorruptJournal)
        (OperationJournalFailure JE_CorruptJournal) (OperationJournalFailure JE_CorruptJournal) names ms
    | _ \<Rightarrow> Inl (OperationJournalFailure JE_CorruptJournal))"

section \<open>Tokens\<close>

definition OperationJournalStateToken :: "OperationJournalState \<Rightarrow> bytes option" where
  "OperationJournalStateToken s = (case s of
      State_Admitted \<Rightarrow> Some ''admitted'' | State_Running \<Rightarrow> Some ''running''
    | State_Interrupted \<Rightarrow> Some ''interrupted'' | State_Completed \<Rightarrow> Some ''completed''
    | State_Failed \<Rightarrow> Some ''failed'' | State_Cancelled \<Rightarrow> Some ''cancelled'' | State_Invalid \<Rightarrow> None)"

definition OperationJournalItemStatusToken :: "OperationJournalItemStatus \<Rightarrow> bytes option" where
  "OperationJournalItemStatusToken s = (case s of
      Status_Succeeded \<Rightarrow> Some ''succeeded'' | Status_Failed \<Rightarrow> Some ''failed''
    | Status_Cancelled \<Rightarrow> Some ''cancelled'' | Status_Skipped \<Rightarrow> Some ''skipped''
    | Status_Invalid \<Rightarrow> None)"

definition OperationJournalItemErrorToken :: "OperationJournalItemError \<Rightarrow> bytes option" where
  "OperationJournalItemErrorToken e = (case e of
      Item_None \<Rightarrow> Some ''none'' | Item_SourceChanged \<Rightarrow> Some ''source_changed''
    | Item_DestinationChanged \<Rightarrow> Some ''destination_changed''
    | Item_PermissionDenied \<Rightarrow> Some ''permission_denied'' | Item_Read \<Rightarrow> Some ''read''
    | Item_Write \<Rightarrow> Some ''write'' | Item_Metadata \<Rightarrow> Some ''metadata'' | Item_Commit \<Rightarrow> Some ''commit''
    | Item_Cleanup \<Rightarrow> Some ''cleanup'' | Item_Cancelled \<Rightarrow> Some ''cancelled''
    | Item_Unknown \<Rightarrow> Some ''unknown'' | Item_Invalid \<Rightarrow> None)"

definition OperationJournalRecoveryActionToken :: "OperationJournalRecoveryAction \<Rightarrow> bytes option" where
  "OperationJournalRecoveryActionToken a = (case a of
      Recovery_None \<Rightarrow> Some ''none'' | Recovery_Retry \<Rightarrow> Some ''retry''
    | Recovery_InspectDestination \<Rightarrow> Some ''inspect_destination''
    | Recovery_RemoveTemporaryItem \<Rightarrow> Some ''remove_temporary_item''
    | Recovery_RestoreSource \<Rightarrow> Some ''restore_source''
    | Recovery_InspectSource \<Rightarrow> Some ''inspect_source'' | Recovery_Invalid \<Rightarrow> None)"

definition OperationJournalFilesystemSyncStatusToken ::
  "OperationJournalFilesystemSyncStatus \<Rightarrow> bytes option" where
  "OperationJournalFilesystemSyncStatusToken s = (case s of
      Sync_NotAttempted \<Rightarrow> Some ''not_attempted'' | Sync_Confirmed \<Rightarrow> Some ''confirmed''
    | Sync_Failed \<Rightarrow> Some ''failed'' | Sync_Invalid \<Rightarrow> None)"

definition OperationJournalPublicationStateToken :: "OperationJournalPublicationState \<Rightarrow> bytes option" where
  "OperationJournalPublicationStateToken s = (case s of
      Publication_NotPublished \<Rightarrow> Some ''not_published'' | Publication_Published \<Rightarrow> Some ''published''
    | Publication_Unknown \<Rightarrow> Some ''unknown'' | Publication_Invalid \<Rightarrow> None)"

definition OperationJournalRemovalStateToken :: "OperationJournalRemovalState \<Rightarrow> bytes option" where
  "OperationJournalRemovalStateToken s = (case s of
      Removal_NotRemoved \<Rightarrow> Some ''not_removed'' | Removal_Removed \<Rightarrow> Some ''removed''
    | Removal_Unknown \<Rightarrow> Some ''unknown'' | Removal_Invalid \<Rightarrow> None)"

definition OperationJournalParseToken :: "json \<Rightarrow> (bytes \<times> 'a) list \<Rightarrow> OperationJournalError + 'a" where
  "OperationJournalParseToken v tokens = lookup_token (OperationJournalFailure JE_CorruptJournal)
     (OperationJournalFailure JE_CorruptJournal) tokens v"

definition OperationJournalParseState :: "json \<Rightarrow> OperationJournalError + OperationJournalState" where
  "OperationJournalParseState v = OperationJournalParseToken v
     [(''admitted'', State_Admitted), (''running'', State_Running), (''interrupted'', State_Interrupted),
      (''completed'', State_Completed), (''failed'', State_Failed), (''cancelled'', State_Cancelled)]"

definition OperationJournalParseItemStatus :: "json \<Rightarrow> OperationJournalError + OperationJournalItemStatus" where
  "OperationJournalParseItemStatus v = OperationJournalParseToken v
     [(''succeeded'', Status_Succeeded), (''failed'', Status_Failed), (''cancelled'', Status_Cancelled),
      (''skipped'', Status_Skipped)]"

definition OperationJournalParseItemError :: "json \<Rightarrow> OperationJournalError + OperationJournalItemError" where
  "OperationJournalParseItemError v = OperationJournalParseToken v
     [(''none'', Item_None), (''source_changed'', Item_SourceChanged),
      (''destination_changed'', Item_DestinationChanged), (''permission_denied'', Item_PermissionDenied),
      (''read'', Item_Read), (''write'', Item_Write), (''metadata'', Item_Metadata),
      (''commit'', Item_Commit), (''cleanup'', Item_Cleanup), (''cancelled'', Item_Cancelled),
      (''unknown'', Item_Unknown)]"

definition OperationJournalParseRecoveryAction ::
  "json \<Rightarrow> OperationJournalError + OperationJournalRecoveryAction" where
  "OperationJournalParseRecoveryAction v = OperationJournalParseToken v
     [(''none'', Recovery_None), (''retry'', Recovery_Retry),
      (''inspect_destination'', Recovery_InspectDestination),
      (''remove_temporary_item'', Recovery_RemoveTemporaryItem),
      (''restore_source'', Recovery_RestoreSource), (''inspect_source'', Recovery_InspectSource)]"

definition OperationJournalParseFilesystemSyncStatus ::
  "json \<Rightarrow> OperationJournalError + OperationJournalFilesystemSyncStatus" where
  "OperationJournalParseFilesystemSyncStatus v = OperationJournalParseToken v
     [(''not_attempted'', Sync_NotAttempted), (''confirmed'', Sync_Confirmed), (''failed'', Sync_Failed)]"

definition OperationJournalParsePublicationState ::
  "json \<Rightarrow> OperationJournalError + OperationJournalPublicationState" where
  "OperationJournalParsePublicationState v = OperationJournalParseToken v
     [(''not_published'', Publication_NotPublished), (''published'', Publication_Published),
      (''unknown'', Publication_Unknown)]"

definition OperationJournalParseRemovalState :: "json \<Rightarrow> OperationJournalError + OperationJournalRemovalState" where
  "OperationJournalParseRemovalState v = OperationJournalParseToken v
     [(''not_removed'', Removal_NotRemoved), (''removed'', Removal_Removed), (''unknown'', Removal_Unknown)]"

definition OperationJournalEpochNanoseconds :: "int \<Rightarrow> OperationJournalError + int" where
  "OperationJournalEpochNanoseconds = epoch_nanoseconds
     (OperationJournalFailure JE_CorruptJournal) (OperationJournalFailure JE_ResourceLimitExceeded)"

definition OperationJournalTimePoint :: "int \<Rightarrow> OperationJournalError + int" where
  "OperationJournalTimePoint = time_point
     (OperationJournalFailure JE_CorruptJournal) (OperationJournalFailure JE_CorruptJournal)"

section \<open>Encoding\<close>

text \<open>The names of the members of an item result, in the order they are written and read.\<close>

definition item_names :: "bytes list" where
  "item_names = [''item_index'', ''status'', ''error'', ''system_error'', ''prior_error'',
     ''prior_system_error'', ''bytes'', ''destination_publication'', ''source_removal'',
     ''filesystem_sync_status'', ''filesystem_sync_system_error'', ''recovery_action'']"

definition encode_item :: "OperationPlan \<Rightarrow> OperationJournalItemResult \<Rightarrow> OperationJournalError + json" where
  "encode_item p r =
     (case (OperationJournalItemStatusToken (item_status r), OperationJournalItemErrorToken (item_error r),
         OperationJournalItemErrorToken (prior_error r),
         OperationJournalPublicationStateToken (destination_publication r),
         OperationJournalRemovalStateToken (source_removal r),
         OperationJournalFilesystemSyncStatusToken (filesystem_sync_status r),
         OperationJournalRecoveryActionToken (recovery_action r)) of
        (Some status, Some error, Some prior, Some publication, Some removal, Some sync, Some recovery) \<Rightarrow>
          if \<not> OperationJournalValidItemResult p r
          then Inl (OperationJournalFailure JE_InvalidItemResult)
          else Inr (JObject (zip item_names [JNum (int (item_index r)), JString status, JString error,
            JNum (sint (system_error r)), JString prior, JNum (sint (prior_system_error r)),
            JNum (uint (bytes_done r)), JString publication, JString removal, JString sync,
            JNum (sint (filesystem_sync_system_error r)), JString recovery]))
      | _ \<Rightarrow> Inl (OperationJournalFailure JE_InvalidItemResult))"

definition encoded_plan :: "Json \<Rightarrow> OperationPlan \<Rightarrow> OperationJournalError + json" where
  "encoded_plan J p = (case OperationPlanCodec_Encode J p of
      Inl e \<Rightarrow> Inl (OperationJournalCodecFailure e)
    | Inr text \<Rightarrow> (case json_parse J Parse_Default text of
          Some (JObject ms) \<Rightarrow> Inr (JObject ms)
        | _ \<Rightarrow> Inl (OperationJournalFailure JE_CorruptJournal)))"

definition entry_names :: "bytes list" where
  "entry_names = [''operation_id'', ''plan'', ''state'', ''updated_at_epoch_nanoseconds'', ''item_results'']"

definition encode_entry :: "Json \<Rightarrow> OperationJournalEntry \<Rightarrow> OperationJournalError + json" where
  "encode_entry J e =
     bindR (reject_if (\<not> OperationJournalValidEntryLifecycle e) (OperationJournalFailure JE_InvalidTransition)) (\<lambda>_.
     bindR (encoded_plan J (entry_plan e)) (\<lambda>plan_document.
     bindR (OperationJournalEpochNanoseconds (updated_at e)) (\<lambda>updated_at.
     case OperationJournalStateToken (entry_state e) of
       None \<Rightarrow> Inl (OperationJournalFailure JE_CorruptJournal)
     | Some state \<Rightarrow>
         bindR (mapR (encode_item (entry_plan e)) (item_results e)) (\<lambda>items.
         Inr (JObject (zip entry_names [JString (ToString (operation_id e)), plan_document, JString state,
           JNum updated_at, JArray items]))))))"

text \<open>\<open>MaxItemResults - total\<close> cannot wrap: the total stays within the limit.\<close>

fun encode_entries :: "Json \<Rightarrow> nat \<Rightarrow> OperationJournalEntry list \<Rightarrow> OperationJournalError + json list" where
  "encode_entries J so_far [] = Inr []"
| "encode_entries J so_far (e # es) =
     (if length (item_results e) > MaxItemResults - so_far
      then Inl (OperationJournalFailure JE_ResourceLimitExceeded)
      else bindR (encode_entry J e) (\<lambda>v.
        bindR (encode_entries J (so_far + length (item_results e)) es) (\<lambda>vs. Inr (v # vs))))"

definition journal_names :: "bytes list" where
  "journal_names = [''version'', ''next_operation_sequence'', ''entries'']"

definition journal_document :: "u64 \<Rightarrow> json list \<Rightarrow> json" where
  "journal_document next_operation_sequence vs = JObject (zip journal_names
     [JNum JournalSchemaVersion, JNum (uint next_operation_sequence), JArray vs])"

definition OperationJournalEncode ::
  "Json \<Rightarrow> OperationJournalEntry list \<Rightarrow> u64 \<Rightarrow> OperationJournalError + bytes" where
  "OperationJournalEncode J entries next_operation_sequence =
     (if length entries > MaxEntries \<or> next_operation_sequence = 0
      then Inl (OperationJournalFailure JE_ResourceLimitExceeded)
      else bindR (encode_entries J 0 entries) (\<lambda>vs.
        let buffer = json_print J (journal_document next_operation_sequence vs) in
        if length buffer > MaxJournalBytes then Inl (OperationJournalFailure JE_ResourceLimitExceeded)
        else Inr buffer))"

section \<open>Decoding\<close>

record OperationJournalDecoded =
  decoded_entries :: "OperationJournalEntry list"
  decoded_next_operation_sequence :: u64
  decoded_requires_migration :: bool

text \<open>
  The members of an item, without the removal state; before version 4 there is none and the source
  counts as not removed.
\<close>

definition item_members ::
  "int \<Rightarrow> json \<Rightarrow> OperationJournalError + (json list \<times> OperationJournalRemovalState)" where
  "item_members version v =
     (if version = JournalSchemaVersion then
        bindR (OperationJournalMembers v item_names) (\<lambda>ms.
        case OperationJournalParseRemovalState (ms ! 8) of
          Inl _ \<Rightarrow> Inl (OperationJournalFailure JE_CorruptJournal)
        | Inr removal \<Rightarrow> Inr (take 8 ms @ drop 9 ms, removal))
      else bindR (OperationJournalMembers v (take 8 item_names @ drop 9 item_names)) (\<lambda>ms.
        Inr (ms, Removal_NotRemoved)))"

definition decode_item :: "int \<Rightarrow> json \<Rightarrow> OperationJournalError + OperationJournalItemResult" where
  "decode_item version v =
     bindR (item_members version v) (\<lambda>(ms, removal).
     if \<not> IsUint64 (ms ! 0) \<or> \<not> IsInt (ms ! 3) \<or> \<not> IsInt (ms ! 5) \<or> \<not> IsUint64 (ms ! 6) \<or> \<not> IsInt (ms ! 9)
     then Inl (OperationJournalFailure JE_CorruptJournal)
     else case (OperationJournalParseItemStatus (ms ! 1), OperationJournalParseItemError (ms ! 2),
         OperationJournalParseItemError (ms ! 4), OperationJournalParsePublicationState (ms ! 7),
         OperationJournalParseFilesystemSyncStatus (ms ! 8), OperationJournalParseRecoveryAction (ms ! 10)) of
       (Inr status, Inr error, Inr prior, Inr publication, Inr sync, Inr recovery) \<Rightarrow>
         Inr \<lparr>item_index = nat (GetNumber (ms ! 0)), item_status = status, item_error = error,
           system_error = word_of_int (GetNumber (ms ! 3)), prior_error = prior,
           prior_system_error = word_of_int (GetNumber (ms ! 5)),
           bytes_done = word_of_int (GetNumber (ms ! 6)), destination_publication = publication,
           source_removal = removal, filesystem_sync_status = sync,
           filesystem_sync_system_error = word_of_int (GetNumber (ms ! 9)), recovery_action = recovery\<rparr>
     | _ \<Rightarrow> Inl (OperationJournalFailure JE_CorruptJournal))"

fun decode_items ::
  "int \<Rightarrow> OperationPlan \<Rightarrow> OperationJournalItemResult list \<Rightarrow> json list \<Rightarrow>
   OperationJournalError + OperationJournalItemResult list" where
  "decode_items version p results [] = Inr results"
| "decode_items version p results (v # vs) =
     bindR (decode_item version v) (\<lambda>r.
     if \<not> OperationJournalValidItemResult p r \<or>
        results \<noteq> [] \<and> item_index (last results) \<ge> item_index r
     then Inl (OperationJournalFailure JE_CorruptJournal)
     else decode_items version p (results @ [r]) vs)"

text \<open>The identity and the other four members; version 1 numbers the entries.\<close>

definition entry_members ::
  "int \<Rightarrow> nat \<Rightarrow> json \<Rightarrow> OperationJournalError + (OperationId \<times> json list)" where
  "entry_members version count v =
     bindR (if version = 1
       then bindR (OperationJournalMembers v (tl entry_names)) (\<lambda>ms.
         Inr (OperationId_Parse (''op-'' @ decimal (count + 1)), ms))
       else bindR (OperationJournalMembers v entry_names) (\<lambda>ms.
         bindR (json_string (OperationJournalFailure JE_CorruptJournal) (hd ms)) (\<lambda>s.
         Inr (OperationId_Parse s, tl ms)))) (\<lambda>(operation_id, ms).
     case operation_id of None \<Rightarrow> Inl (OperationJournalFailure JE_CorruptJournal)
     | Some i \<Rightarrow> Inr (i, ms))"

definition decoded_plan :: "Json \<Rightarrow> json \<Rightarrow> OperationJournalError + OperationPlan" where
  "decoded_plan J v = (case OperationPlanCodec_Decode J (json_print J v) of
      Inl e \<Rightarrow> Inl (OperationJournalCodecFailure e)
    | Inr p \<Rightarrow> Inr p)"

definition decode_entry ::
  "Json \<Rightarrow> int \<Rightarrow> OperationJournalEntry list \<Rightarrow> nat \<Rightarrow> json \<Rightarrow> OperationJournalError + OperationJournalEntry" where
  "decode_entry J version entries so_far v =
     bindR (entry_members version (length entries) v) (\<lambda>(i, ms).
     bindR (decoded_plan J (ms ! 0)) (\<lambda>p.
     if list_ex (\<lambda>e. plan_Id (entry_plan e) = plan_Id p) entries
     then Inl (OperationJournalFailure JE_DuplicatePlanId)
     else if list_ex (\<lambda>e. operation_id e = i) entries
     then Inl (OperationJournalFailure JE_DuplicateOperationId)
     else bindR (OperationJournalParseState (ms ! 1)) (\<lambda>state.
       bindR (json_array (OperationJournalFailure JE_CorruptJournal) (ms ! 3)) (\<lambda>item_values.
       if \<not> IsInt64 (ms ! 2) then Inl (OperationJournalFailure JE_CorruptJournal)
       else bindR (OperationJournalTimePoint (GetNumber (ms ! 2))) (\<lambda>updated_at.
         if length item_values > MaxItemResults - so_far
         then Inl (OperationJournalFailure JE_ResourceLimitExceeded)
         else bindR (decode_items version p [] item_values) (\<lambda>item_results.
           let e = \<lparr>operation_id = i, entry_plan = p, entry_state = state, updated_at = updated_at,
                    item_results = item_results\<rparr> in
           if \<not> OperationJournalValidEntryLifecycle e then Inl (OperationJournalFailure JE_CorruptJournal)
           else Inr e))))))"

fun decode_entries ::
  "Json \<Rightarrow> int \<Rightarrow> OperationJournalEntry list \<Rightarrow> nat \<Rightarrow> json list \<Rightarrow>
   OperationJournalError + OperationJournalEntry list" where
  "decode_entries J version entries so_far [] = Inr entries"
| "decode_entries J version entries so_far (v # vs) =
     bindR (decode_entry J version entries so_far v) (\<lambda>e.
     decode_entries J version (entries @ [e]) (so_far + length (item_results e)) vs)"

text \<open>The version, the high-water mark (1 before version 4) and the value of the entries.\<close>

definition decode_root :: "(bytes \<times> json) list \<Rightarrow> OperationJournalError + (int \<times> u64 \<times> json)" where
  "decode_root ms = (case map_of ms ''version'' of
      None \<Rightarrow> Inl (OperationJournalFailure JE_CorruptJournal)
    | Some v \<Rightarrow>
        if \<not> IsUint v then Inl (OperationJournalFailure JE_CorruptJournal)
        else let version = GetNumber v in
          if version \<notin> {1, 2, 3, JournalSchemaVersion}
          then Inl (OperationJournalFailure JE_UnsupportedSchemaVersion)
          else if version = JournalSchemaVersion then
            bindR (OperationJournalMembers (JObject ms) journal_names) (\<lambda>root.
            if \<not> IsUint64 (root ! 1) \<or> GetNumber (root ! 1) = 0
            then Inl (OperationJournalFailure JE_CorruptJournal)
            else Inr (version, word_of_int (GetNumber (root ! 1)), root ! 2))
          else bindR (OperationJournalMembers (JObject ms) [''version'', ''entries'']) (\<lambda>root.
            Inr (version, 1, root ! 1)))"

definition maximum_operation_sequence :: "OperationJournalEntry list \<Rightarrow> u64" where
  "maximum_operation_sequence entries =
     fold (\<lambda>e m. max m (OperationJournalOperationIdSequence (operation_id e))) entries 0"

definition decode_document :: "Json \<Rightarrow> (bytes \<times> json) list \<Rightarrow> OperationJournalError + OperationJournalDecoded" where
  "decode_document J ms =
     bindR (decode_root ms) (\<lambda>(version, next_operation_sequence, entries_value).
     bindR (json_array (OperationJournalFailure JE_CorruptJournal) entries_value) (\<lambda>vs.
     if length vs > MaxEntries then Inl (OperationJournalFailure JE_ResourceLimitExceeded)
     else bindR (decode_entries J version [] 0 vs) (\<lambda>entries.
       let maximum = maximum_operation_sequence entries in
       if maximum = - 1 then Inl (OperationJournalFailure JE_ResourceLimitExceeded)
       else if version = JournalSchemaVersion then
         (if next_operation_sequence < maximum + 1 then Inl (OperationJournalFailure JE_CorruptJournal)
          else Inr \<lparr>decoded_entries = entries, decoded_next_operation_sequence = next_operation_sequence,
            decoded_requires_migration = False\<rparr>)
       else Inr \<lparr>decoded_entries = entries, decoded_next_operation_sequence = maximum + 1,
         decoded_requires_migration = True\<rparr>)))"

definition OperationJournalDecode :: "Json \<Rightarrow> bytes \<Rightarrow> OperationJournalError + OperationJournalDecoded" where
  "OperationJournalDecode J text =
     (if length text > MaxJournalBytes then Inl (OperationJournalFailure JE_JournalTooLarge)
      else case json_parse J Parse_ValidateEncoding text of
        Some (JObject ms) \<Rightarrow> decode_document J ms
      | _ \<Rightarrow> Inl (OperationJournalFailure JE_MalformedJournal))"

section \<open>Tokens and parsers\<close>

lemmas token_defs = OperationJournalParseToken_def lookup_token_def

text \<open>Every token is plain and parses to its value.\<close>

lemma pred_optionD: "pred_option P x \<Longrightarrow> x = Some t \<Longrightarrow> P t"
  by simp

lemma state_tokens:
  "pred_option (\<lambda>t. OperationJournalParseState (JString t) = Inr x \<and> list_all plain_char t)
     (OperationJournalStateToken x)"
  by (cases x) (simp_all add: OperationJournalStateToken_def OperationJournalParseState_def token_defs plain_char_def)

lemma item_status_tokens:
  "pred_option (\<lambda>t. OperationJournalParseItemStatus (JString t) = Inr x \<and> list_all plain_char t)
     (OperationJournalItemStatusToken x)"
  by (cases x) (simp_all add: OperationJournalItemStatusToken_def OperationJournalParseItemStatus_def token_defs plain_char_def)

lemma item_error_tokens:
  "pred_option (\<lambda>t. OperationJournalParseItemError (JString t) = Inr x \<and> list_all plain_char t)
     (OperationJournalItemErrorToken x)"
  by (cases x) (simp_all add: OperationJournalItemErrorToken_def OperationJournalParseItemError_def token_defs plain_char_def)

lemma recovery_tokens:
  "pred_option (\<lambda>t. OperationJournalParseRecoveryAction (JString t) = Inr x \<and> list_all plain_char t)
     (OperationJournalRecoveryActionToken x)"
  by (cases x) (simp_all add: OperationJournalRecoveryActionToken_def OperationJournalParseRecoveryAction_def token_defs plain_char_def)

lemma sync_tokens:
  "pred_option (\<lambda>t. OperationJournalParseFilesystemSyncStatus (JString t) = Inr x \<and> list_all plain_char t)
     (OperationJournalFilesystemSyncStatusToken x)"
  by (cases x) (simp_all add: OperationJournalFilesystemSyncStatusToken_def OperationJournalParseFilesystemSyncStatus_def token_defs plain_char_def)

lemma publication_tokens:
  "pred_option (\<lambda>t. OperationJournalParsePublicationState (JString t) = Inr x \<and> list_all plain_char t)
     (OperationJournalPublicationStateToken x)"
  by (cases x) (simp_all add: OperationJournalPublicationStateToken_def OperationJournalParsePublicationState_def token_defs plain_char_def)

lemma removal_tokens:
  "pred_option (\<lambda>t. OperationJournalParseRemovalState (JString t) = Inr x \<and> list_all plain_char t)
     (OperationJournalRemovalStateToken x)"
  by (cases x) (simp_all add: OperationJournalRemovalStateToken_def OperationJournalParseRemovalState_def token_defs plain_char_def)

lemmas journal_tokens = state_tokens [THEN pred_optionD] item_status_tokens [THEN pred_optionD]
  item_error_tokens [THEN pred_optionD] recovery_tokens [THEN pred_optionD] sync_tokens [THEN pred_optionD]
  publication_tokens [THEN pred_optionD] removal_tokens [THEN pred_optionD]

lemma journal_members_zip:
  assumes "distinct names" "length vs = length names"
  shows "OperationJournalMembers (JObject (zip names vs)) names = Inr vs"
  using collect_members_zip [OF assms] by (simp add: OperationJournalMembers_def)

lemma writable_zip:
  "length ks = length vs \<Longrightarrow>
    writable (JObject (zip ks vs)) \<longleftrightarrow> list_all (list_all plain_char) ks \<and> list_all writable vs"
  by (induction ks vs rule: list_induct2) auto

lemma names_plain:
  "list_all (list_all plain_char) item_names" "list_all (list_all plain_char) entry_names"
  "list_all (list_all plain_char) journal_names"
  by (simp_all add: item_names_def entry_names_def journal_names_def plain_char_def)

lemma names_distinct: "distinct item_names" "distinct entry_names" "distinct journal_names"
  by (simp_all add: item_names_def entry_names_def journal_names_def)

lemma names_length: "length item_names = 12" "length entry_names = 5" "length journal_names = 3"
  by (simp_all add: item_names_def entry_names_def journal_names_def)

lemma sint_32: "- (2 ^ 63) \<le> sint (w :: i32)" "sint w < 2 ^ 64" "in_int (sint w)"
  using sint_greater_eq [of w] sint_lt [of w] by (simp_all add: in_int_def)

section \<open>Reading back what was written\<close>

lemma encode_item_Inr:
  assumes "encode_item p r = Inr v"
  obtains status error prior publication removal sync recovery where
    "OperationJournalItemStatusToken (item_status r) = Some status"
    "OperationJournalItemErrorToken (item_error r) = Some error"
    "OperationJournalItemErrorToken (prior_error r) = Some prior"
    "OperationJournalPublicationStateToken (destination_publication r) = Some publication"
    "OperationJournalRemovalStateToken (source_removal r) = Some removal"
    "OperationJournalFilesystemSyncStatusToken (filesystem_sync_status r) = Some sync"
    "OperationJournalRecoveryActionToken (recovery_action r) = Some recovery"
    "OperationJournalValidItemResult p r"
    "v = JObject (zip item_names [JNum (int (item_index r)), JString status, JString error,
            JNum (sint (system_error r)), JString prior, JNum (sint (prior_system_error r)),
            JNum (uint (bytes_done r)), JString publication, JString removal, JString sync,
            JNum (sint (filesystem_sync_system_error r)), JString recovery])"
  using assms by (auto simp: encode_item_def split: option.splits if_splits intro: that)

lemma decode_encode_item:
  assumes e: "encode_item p r = Inr v" and i: "item_index r < 2 ^ 64"
  shows "decode_item JournalSchemaVersion v = Inr r \<and> writable v \<and> OperationJournalValidItemResult p r"
proof -
  from e obtain status error prior publication removal sync recovery where
    t: "OperationJournalItemStatusToken (item_status r) = Some status"
    "OperationJournalItemErrorToken (item_error r) = Some error"
    "OperationJournalItemErrorToken (prior_error r) = Some prior"
    "OperationJournalPublicationStateToken (destination_publication r) = Some publication"
    "OperationJournalRemovalStateToken (source_removal r) = Some removal"
    "OperationJournalFilesystemSyncStatusToken (filesystem_sync_status r) = Some sync"
    "OperationJournalRecoveryActionToken (recovery_action r) = Some recovery"
    "OperationJournalValidItemResult p r" and
    v: "v = JObject (zip item_names [JNum (int (item_index r)), JString status, JString error,
            JNum (sint (system_error r)), JString prior, JNum (sint (prior_system_error r)),
            JNum (uint (bytes_done r)), JString publication, JString removal, JString sync,
            JNum (sint (filesystem_sync_system_error r)), JString recovery])"
    (is "_ = JObject (zip _ ?vs)")
    by (rule encode_item_Inr)
  have "OperationJournalMembers v item_names = Inr ?vs"
    unfolding v by (rule journal_members_zip) (simp_all add: names_distinct names_length)
  then have "item_members JournalSchemaVersion v = Inr (take 8 ?vs @ drop 9 ?vs, source_removal r)"
    using journal_tokens(7) [OF t(5)] by (simp add: item_members_def)
  moreover have "int (item_index r) < 2 ^ 64" using i by (metis of_nat_less_iff of_nat_numeral of_nat_power)
  moreover have "uint (bytes_done r) < 2 ^ 64" using unsigned_less [of "bytes_done r"] by simp
  moreover have "- (2 ^ 63) \<le> uint (bytes_done r)" by (rule order_trans [OF _ uint_ge_0]) simp
  ultimately have "decode_item JournalSchemaVersion v = Inr r"
    using journal_tokens(2) [OF t(1)] journal_tokens(3) [OF t(2)] journal_tokens(3) [OF t(3)]
      journal_tokens(6) [OF t(4)] journal_tokens(5) [OF t(6)] journal_tokens(4) [OF t(7)] sint_32
    by (cases r) (simp add: decode_item_def)
  moreover have "writable v"
    unfolding v
    by (subst writable_zip)
      (use journal_tokens(2) [OF t(1)] journal_tokens(3) [OF t(2)] journal_tokens(3) [OF t(3)]
        journal_tokens(6) [OF t(4)] journal_tokens(7) [OF t(5)] journal_tokens(5) [OF t(6)]
        journal_tokens(4) [OF t(7)] sint_32 i \<open>uint (bytes_done r) < 2 ^ 64\<close>
        \<open>int (item_index r) < 2 ^ 64\<close> \<open>- (2 ^ 63) \<le> uint (bytes_done r)\<close> in \<open>simp_all add: names_length names_plain\<close>)
  ultimately show ?thesis using t(8) by simp
qed

lemma decode_encode_items:
  assumes "mapR (encode_item p) rs = Inr vs" "sorted_wrt (<) (map item_index (acc @ rs))"
    "\<forall>r \<in> set rs. item_index r < 2 ^ 64"
  shows "decode_items JournalSchemaVersion p acc vs = Inr (acc @ rs) \<and> list_all writable vs"
  using assms
proof (induction rs arbitrary: acc vs)
  case (Cons r rs)
  from Cons.prems(1) obtain v vs' where v: "encode_item p r = Inr v" "mapR (encode_item p) rs = Inr vs'"
    "vs = v # vs'" by (auto simp: bindR_eq_Inr)
  have "decode_items JournalSchemaVersion p (acc @ [r]) vs' = Inr ((acc @ [r]) @ rs) \<and> list_all writable vs'"
    using Cons.prems by (intro Cons.IH v(2)) simp_all
  moreover have "\<not> (acc \<noteq> [] \<and> item_index (last acc) \<ge> item_index r)"
    using Cons.prems(2) by (cases acc rule: rev_cases) (auto simp: sorted_wrt_append)
  moreover have "decode_item JournalSchemaVersion v = Inr r \<and> writable v \<and> OperationJournalValidItemResult p r"
    using Cons.prems(3) by (intro decode_encode_item v(1)) simp
  ultimately show ?case by (simp add: v(3))
qed simp

lemma encoded_plan_Inr:
  assumes J: "json_ok J" and p: "plan_ok p" "in_int64 (plan_CreatedAt p)" and e: "encoded_plan J p = Inr v"
  shows "decoded_plan J v = Inr p \<and> writable v \<and> length (plan_Sources p) \<le> MaxSources"
proof -
  from e obtain s where s: "OperationPlanCodec_Encode J p = Inr s"
    and v: "json_parse J Parse_Default s = Some v"
    by (auto simp: encoded_plan_def split: sum.splits option.splits json.splits)
  from s obtain w where w: "encode_plan p = Inr w" "s = json_print J w"
    by (auto simp: OperationPlanCodec_Encode_def bindR_eq_Inr Let_def split: if_splits)
  note ok = encode_plan_writable [OF w(1)]
  with v w(2) have "v = w" using json_okD [OF J ok] by simp
  with Decode_Encode [OF J p s] w ok show ?thesis
    by (auto simp: decoded_plan_def encode_plan_def bindR_eq_Inr)
qed

text \<open>
  The entries a journal may hold: plans made by \<open>Create\<close>, time points within the clock's range,
  positive identities below the high-water mark, no identity and no plan twice, valid lifecycles.
\<close>

definition entry_ok :: "OperationJournalEntry \<Rightarrow> bool" where
  "entry_ok e \<longleftrightarrow> plan_ok (entry_plan e) \<and> in_int64 (plan_CreatedAt (entry_plan e)) \<and> in_int64 (updated_at e)
     \<and> operation_id e \<noteq> 0 \<and> OperationJournalValidEntryLifecycle e"

definition ledger_ok :: "OperationJournalEntry list \<Rightarrow> u64 \<Rightarrow> bool" where
  "ledger_ok entries next_sequence \<longleftrightarrow> list_all entry_ok entries
     \<and> distinct (map operation_id entries) \<and> distinct (map (\<lambda>e. plan_Id (entry_plan e)) entries)
     \<and> list_all (\<lambda>e. operation_id e < next_sequence) entries \<and> next_sequence \<noteq> 0"

lemma ToString_plain: "list_all plain_char (ToString i)"
proof -
  have "is_digit c \<Longrightarrow> plain_char c" for c by (auto simp: is_digit_def plain_char_def)
  with dec_digits [of "unat i"] show ?thesis
    by (auto simp: ToString_def op_prefix_def list_all_iff plain_char_def)
qed

lemma decode_encode_entry:
  assumes J: "json_ok J" and e: "entry_ok e" "encode_entry J e = Inr v"
    and fresh: "\<forall>f \<in> set es. operation_id f \<noteq> operation_id e \<and> plan_Id (entry_plan f) \<noteq> plan_Id (entry_plan e)"
    and n: "length (item_results e) \<le> MaxItemResults - so_far"
  shows "decode_entry J JournalSchemaVersion es so_far v = Inr e \<and> writable v"
proof -
  from e(2) obtain pv ns state items where
    parts: "encoded_plan J (entry_plan e) = Inr pv" "OperationJournalEpochNanoseconds (updated_at e) = Inr ns"
    "OperationJournalStateToken (entry_state e) = Some state"
    "mapR (encode_item (entry_plan e)) (item_results e) = Inr items" and
    v: "v = JObject (zip entry_names [JString (ToString (operation_id e)), pv, JString state, JNum ns, JArray items])"
      (is "_ = JObject (zip _ ?vs)")
    by (auto simp: encode_entry_def bindR_eq_Inr split: option.splits)
  from e(1) have ok: "plan_ok (entry_plan e)" "in_int64 (plan_CreatedAt (entry_plan e))" "in_int64 (updated_at e)"
    "operation_id e \<noteq> 0" "OperationJournalValidEntryLifecycle e" by (simp_all add: entry_ok_def)
  note plan = encoded_plan_Inr [OF J ok(1,2) parts(1)]
  from Lifecycle_results [OF ok(5)] have "\<forall>r \<in> set (item_results e). item_index r < length (plan_Sources (entry_plan e))"
    using ValidItemResult_index by (auto simp: list_all_iff)
  then have "\<forall>r \<in> set (item_results e). item_index r < 2 ^ 64"
    using plan by (auto simp: MaxSources_def)
  with decode_encode_items [OF parts(4), of "[]"] Lifecycle_results [OF ok(5)]
  have items: "decode_items JournalSchemaVersion (entry_plan e) [] items = Inr (item_results e)" "list_all writable items"
    by simp_all
  have ns: "ns = 1000 * updated_at e" "in_int64 ns"
    using parts(2) by (auto simp: OperationJournalEpochNanoseconds_def epoch_nanoseconds_Inr)
  then have time: "OperationJournalTimePoint ns = Inr (updated_at e)" "IsInt64 (JNum ns)"
    using ok(3) by (simp_all add: OperationJournalTimePoint_def time_point_Inr, simp_all add: in_int64_def)
  have "OperationJournalMembers v entry_names = Inr ?vs"
    unfolding v by (rule journal_members_zip) (simp_all add: names_distinct names_length)
  then have "entry_members JournalSchemaVersion (length es) v = Inr (operation_id e, tl ?vs)"
    using Parse_ToString [OF ok(4)] by (simp add: entry_members_def JournalSchemaVersion_def)
  moreover have "length items = length (item_results e)"
    using parts(4) by (simp add: mapR_Inr list_all2_lengthD)
  moreover have "\<not> list_ex (\<lambda>f. plan_Id (entry_plan f) = plan_Id (entry_plan e)) es"
    "\<not> list_ex (\<lambda>f. operation_id f = operation_id e) es"
    using fresh by (auto simp: list_ex_iff)
  ultimately have "decode_entry J JournalSchemaVersion es so_far v = Inr e"
    using plan items time n ok(5) journal_tokens(1) [OF parts(3)]
    by (cases e) (simp add: decode_entry_def del: json_types(4))
  moreover have "writable v"
    unfolding v using plan items(2) ns(2) journal_tokens(1) [OF parts(3)]
    by (subst writable_zip) (simp_all add: names_length names_plain ToString_plain in_int64_def)
  ultimately show ?thesis ..
qed

lemma decode_encode_entries:
  assumes "json_ok J" "encode_entries J so_far es = Inr vs" "list_all entry_ok (acc @ es)"
    "distinct (map operation_id (acc @ es))" "distinct (map (\<lambda>e. plan_Id (entry_plan e)) (acc @ es))"
  shows "decode_entries J JournalSchemaVersion acc so_far vs = Inr (acc @ es) \<and> list_all writable vs"
  using assms(2-)
proof (induction es arbitrary: acc so_far vs)
  case (Cons e es)
  let ?n = "so_far + length (item_results e)"
  from Cons.prems(1) obtain v vs' where v: "encode_entry J e = Inr v" "encode_entries J ?n es = Inr vs'"
    "vs = v # vs'" "length (item_results e) \<le> MaxItemResults - so_far"
    by (auto simp: bindR_eq_Inr split: if_splits)
  have "decode_entries J JournalSchemaVersion (acc @ [e]) ?n vs' = Inr ((acc @ [e]) @ es) \<and> list_all writable vs'"
    using Cons.prems by (intro Cons.IH v(2)) simp_all
  moreover have "decode_entry J JournalSchemaVersion acc so_far v = Inr e \<and> writable v"
  proof (intro decode_encode_entry assms(1) v)
    show "\<forall>f \<in> set acc. operation_id f \<noteq> operation_id e \<and> plan_Id (entry_plan f) \<noteq> plan_Id (entry_plan e)"
      using Cons.prems(3,4) by (simp add: image_iff) metis
  qed (use Cons.prems(2) in simp)
  ultimately show ?case by (simp add: v(3))
qed simp

lemma maximum_less:
  "maximum_operation_sequence es < n \<longleftrightarrow> 0 < n \<and> list_all (\<lambda>e. operation_id e < n) es"
proof -
  have "fold (\<lambda>e m. max m (operation_id e)) es a < n \<longleftrightarrow> a < n \<and> list_all (\<lambda>e. operation_id e < n) es" for a
    by (induction es arbitrary: a) auto
  then show ?thesis by (simp add: maximum_operation_sequence_def)
qed

lemma Decode_Encode_journal:
  assumes J: "json_ok J" and ok: "ledger_ok entries next_sequence"
    and e: "OperationJournalEncode J entries next_sequence = Inr text"
  shows "OperationJournalDecode J text =
    Inr \<lparr>decoded_entries = entries, decoded_next_operation_sequence = next_sequence,
         decoded_requires_migration = False\<rparr>"
proof -
  from e obtain vs where vs: "encode_entries J 0 entries = Inr vs" "length entries \<le> MaxEntries"
    "next_sequence \<noteq> 0" "text = json_print J (journal_document next_sequence vs)" "length text \<le> MaxJournalBytes"
    by (auto simp: OperationJournalEncode_def bindR_eq_Inr Let_def split: if_splits)
  have d: "decode_entries J JournalSchemaVersion [] 0 vs = Inr entries" "list_all writable vs"
    using decode_encode_entries [OF J vs(1), of "[]"] ok by (simp_all add: ledger_ok_def)
  have range: "0 \<le> uint next_sequence" "uint next_sequence < 2 ^ 64" "- (2 ^ 63) \<le> uint next_sequence"
    using unsigned_less [of next_sequence] by (auto intro: order_trans [OF _ uint_ge_0])
  then have "writable (journal_document next_sequence vs)"
    unfolding journal_document_def using d(2)
    by (subst writable_zip) (simp_all add: names_length names_plain JournalSchemaVersion_def)
  then have parse: "json_parse J Parse_ValidateEncoding text = Some (journal_document next_sequence vs)"
    unfolding vs(4) by (rule json_okD [OF J])
  let ?ms = "zip journal_names [JNum JournalSchemaVersion, JNum (uint next_sequence), JArray vs]"
  have "OperationJournalMembers (JObject ?ms) journal_names =
      Inr [JNum JournalSchemaVersion, JNum (uint next_sequence), JArray vs]"
    by (rule journal_members_zip) (simp_all add: names_distinct names_length)
  moreover have "map_of ?ms ''version'' = Some (JNum JournalSchemaVersion)" by (simp add: journal_names_def)
  moreover have "uint next_sequence \<noteq> 0" using vs(3) by (simp add: uint_0_iff)
  ultimately have root: "decode_root ?ms = Inr (JournalSchemaVersion, next_sequence, JArray vs)"
    using range by (simp add: decode_root_def JournalSchemaVersion_def)
  have "maximum_operation_sequence entries < next_sequence"
    using ok vs(3) by (simp add: maximum_less ledger_ok_def word_neq_0_conv)
  then have m: "maximum_operation_sequence entries \<noteq> - 1" "\<not> next_sequence < maximum_operation_sequence entries + 1"
    using inc_le [of "maximum_operation_sequence entries" next_sequence] word_order.extremum_strict
    by auto
  have n: "length vs \<le> MaxEntries"
  proof -
    have "encode_entries J t es = Inr us \<Longrightarrow> length us = length es" for t es us
      by (induction J t es arbitrary: us rule: encode_entries.induct) (auto simp: bindR_eq_Inr split: if_splits)
    with vs(1,2) show ?thesis by auto
  qed
  show ?thesis
    using root d(1) m n parse vs(5)
    by (simp add: OperationJournalDecode_def journal_document_def decode_document_def)
qed

section \<open>What the decoder accepts\<close>

lemma entry_members_id:
  "entry_members version n v = Inr (i, ms) \<Longrightarrow> i \<noteq> 0"
  by (auto simp: entry_members_def bindR_eq_Inr split: option.splits if_splits dest: ToString_Parse)

lemma decode_entry_ok:
  assumes "decode_entry J version es so_far v = Inr e"
  shows "entry_ok e" "\<forall>f \<in> set es. operation_id f \<noteq> operation_id e \<and> plan_Id (entry_plan f) \<noteq> plan_Id (entry_plan e)"
proof -
  from assms obtain i ms p where
    i: "entry_members version (length es) v = Inr (i, ms)" and p: "decoded_plan J (ms ! 0) = Inr p"
    and fresh: "\<not> list_ex (\<lambda>e. plan_Id (entry_plan e) = plan_Id p) es" "\<not> list_ex (\<lambda>e. operation_id e = i) es"
    by (auto simp: decode_entry_def bindR_eq_Inr split: if_splits)
  with assms obtain st t rs where t: "OperationJournalTimePoint (GetNumber (ms ! 2)) = Inr t"
    and e: "e = \<lparr>operation_id = i, entry_plan = p, entry_state = st, updated_at = t, item_results = rs\<rparr>"
      "OperationJournalValidEntryLifecycle e"
    by (auto simp: decode_entry_def bindR_eq_Inr Let_def split: if_splits)
  from p have "plan_ok p \<and> in_int64 (plan_CreatedAt p)"
    using Decode_ok by (auto simp: decoded_plan_def split: sum.splits)
  then show "entry_ok e"
    using entry_members_id [OF i] t e
    by (auto simp: entry_ok_def OperationJournalTimePoint_def time_point_Inr)
  show "\<forall>f \<in> set es. operation_id f \<noteq> operation_id e \<and> plan_Id (entry_plan f) \<noteq> plan_Id (entry_plan e)"
    using fresh e(1) by (auto simp: list_ex_iff)
qed

lemma decode_entries_ok:
  assumes "decode_entries J version acc so_far vs = Inr es" "list_all entry_ok acc"
    "distinct (map operation_id acc)" "distinct (map (\<lambda>e. plan_Id (entry_plan e)) acc)"
  shows "list_all entry_ok es \<and> distinct (map operation_id es) \<and> distinct (map (\<lambda>e. plan_Id (entry_plan e)) es)"
  using assms
proof (induction vs arbitrary: acc so_far)
  case (Cons v vs)
  from Cons.prems(1) obtain e where e: "decode_entry J version acc so_far v = Inr e"
    "decode_entries J version (acc @ [e]) (so_far + length (item_results e)) vs = Inr es"
    by (auto simp: bindR_eq_Inr)
  note ok = decode_entry_ok [OF e(1)]
  show ?case
    by (rule Cons.IH [OF e(2)]) (use Cons.prems ok in \<open>auto simp: image_iff\<close>)
qed simp

lemma succ_le_word: "(m :: u64) \<noteq> - 1 \<Longrightarrow> m + 1 \<le> n \<longleftrightarrow> m < n"
proof -
  assume "m \<noteq> - 1"
  then have "1 + m \<noteq> 0" by (metis add_eq_0_iff)
  then have "unat (m + 1) = Suc (unat m)" using unatSuc [of m] by (simp add: add.commute)
  then show ?thesis by (simp add: word_le_nat_alt word_less_nat_alt Suc_le_eq)
qed

lemma less_succ_word: "(m :: u64) \<noteq> - 1 \<Longrightarrow> m < m + 1"
  using succ_le_word [of m "m + 1"] by simp

lemma decoded_ledger:
  assumes "OperationJournalDecode J text = Inr d"
  shows "ledger_ok (decoded_entries d) (decoded_next_operation_sequence d)"
proof -
  from assms obtain ms where "decode_document J ms = Inr d"
    by (auto simp: OperationJournalDecode_def split: option.splits json.splits if_splits)
  then obtain version vs es where es: "decode_entries J version [] 0 vs = Inr es"
    and d: "decoded_entries d = es" "maximum_operation_sequence es < decoded_next_operation_sequence d"
    by (auto simp: decode_document_def bindR_eq_Inr Let_def succ_le_word not_less less_succ_word
        split: if_splits)
  then show ?thesis
    using decode_entries_ok [OF es] by (auto simp: ledger_ok_def maximum_less)
qed

text \<open>
  C21: whatever bytes the journal's file holds, entries are only taken from it when they form a
  ledger: every plan is one that \<open>Create\<close> accepts, every lifecycle is valid, no operation identity
  and no plan occurs twice, and the high-water mark is above every identity.
\<close>

theorem Decode_ledger:
  assumes "OperationJournalDecode J text = Inr d"
  shows "ledger_ok (decoded_entries d) (decoded_next_operation_sequence d)"
  using assms by (rule decoded_ledger)

text \<open>Version 1 has no identities; the entries are numbered.\<close>

lemma decode_entries_v1:
  assumes "decode_entries J 1 acc so_far vs = Inr es" "length acc + length vs < 2 ^ 64"
    "map operation_id acc = map (\<lambda>k. word_of_nat (k + 1)) [0..<length acc]"
  shows "map operation_id es = map (\<lambda>k. word_of_nat (k + 1)) [0..<length es] \<and> length es = length acc + length vs"
  using assms
proof (induction vs arbitrary: acc so_far)
  case (Cons v vs)
  let ?n = "length acc"
  from Cons.prems(1) obtain e where e: "decode_entry J 1 acc so_far v = Inr e"
    "decode_entries J 1 (acc @ [e]) (so_far + length (item_results e)) vs = Inr es"
    by (auto simp: bindR_eq_Inr)
  have n: "unat (word_of_nat (?n + 1) :: u64) = ?n + 1" using Cons.prems(2) by (subst unat_of_nat) (simp del: of_nat_add of_nat_Suc)
  then have "''op-'' @ decimal (?n + 1) = ToString (word_of_nat (?n + 1))"
    by (simp add: ToString_def op_prefix_def)
  moreover have "(word_of_nat (?n + 1) :: u64) \<noteq> 0" using n by (metis add_is_0 one_neq_zero unat_0)
  ultimately have "OperationId_Parse (''op-'' @ decimal (?n + 1)) = Some (word_of_nat (?n + 1))"
    using Parse_ToString by metis
  with e(1) have "operation_id e = word_of_nat (?n + 1)"
    by (auto simp: decode_entry_def entry_members_def bindR_eq_Inr Let_def split: if_splits)
  then have "map operation_id es = map (\<lambda>k. word_of_nat (k + 1)) [0..<length es] \<and>
      length es = length (acc @ [e]) + length vs"
    using Cons.prems by (intro Cons.IH [OF e(2)]) simp_all
  then show ?case by simp
qed simp

section \<open>Properties\<close>

text \<open>
  C14: what the journal writes it reads back: decoding the encoding of a ledger gives the same
  entries, in the same order, and the same high-water mark, with no migration due.
\<close>

theorem JournalCodec_roundtrip:
  assumes "json_ok J" and "ledger_ok entries next_sequence"
    and "OperationJournalEncode J entries next_sequence = Inr text"
  shows "OperationJournalDecode J text =
    Inr \<lparr>decoded_entries = entries, decoded_next_operation_sequence = next_sequence,
         decoded_requires_migration = False\<rparr>"
  using assms by (rule Decode_Encode_journal)

text \<open>A completed entry: the plan to trash one item, with the evidence that it is gone.\<close>

definition sample_result :: OperationJournalItemResult where
  "sample_result = \<lparr>item_index = 0, item_status = Status_Succeeded, item_error = Item_None, system_error = 0,
     prior_error = Item_None, prior_system_error = 0, bytes_done = 12,
     destination_publication = Publication_NotPublished, source_removal = Removal_Removed,
     filesystem_sync_status = Sync_Confirmed, filesystem_sync_system_error = 0,
     recovery_action = Recovery_None\<rparr>"

definition sample_entry :: OperationJournalEntry where
  "sample_entry = \<lparr>operation_id = 1, entry_plan = sample_plan, entry_state = State_Completed, updated_at = 7,
     item_results = [sample_result]\<rparr>"

definition sample_item_value :: json where
  "sample_item_value = JObject (zip item_names [JNum 0, JString ''succeeded'', JString ''none'', JNum 0,
     JString ''none'', JNum 0, JNum 12, JString ''not_published'', JString ''removed'',
     JString ''confirmed'', JNum 0, JString ''none''])"

definition sample_document :: json where
  "sample_document = journal_document 2 [JObject (zip entry_names [JString ''op-1'', sample_encoded,
     JString ''completed'', JNum 7000, JArray [sample_item_value]])]"

lemma sample_plan_sel: "plan_Type sample_plan = Type_Trash" "length (plan_Sources sample_plan) = 1"
  by (simp_all add: sample_plan_def plan_of_def)

lemma sample_result_valid: "OperationJournalValidItemResult sample_plan sample_result"
  by (simp add: OperationJournalValidItemResult_def sample_plan_sel sample_result_def
      OperationJournalPublishesDestination_def OperationJournalRemovesSource_def valid_axes_def valid_sync_def
      valid_prior_def valid_status_def)

lemma sample_lifecycle: "OperationJournalValidEntryLifecycle sample_entry"
  using sample_result_valid
  by (simp add: OperationJournalValidEntryLifecycle_def OperationJournalValidOrderedItemResults_def
      sample_entry_def sample_plan_sel has_status_def) (simp add: sample_result_def)

lemma sample_ledger: "ledger_ok [sample_entry] 2"
  using sample_plan_ok sample_lifecycle
  by (simp add: ledger_ok_def entry_ok_def) (simp add: sample_entry_def in_int64_def)

lemma sample_encoded_plan: "encoded_plan sample_json sample_plan = Inr sample_encoded"
  using json_okD [OF sample_json_ok encode_plan_writable [OF encode_sample_plan], of Parse_Default]
  by (simp add: encoded_plan_def Encode_sample_plan) (simp add: sample_encoded_def sample_json_def)

lemma sample_id: "ToString 1 = ''op-1''"
  by (simp add: ToString_def op_prefix_def decimal.simps char_of_def bit_0)

lemma encode_sample_item: "encode_item sample_plan sample_result = Inr sample_item_value"
  using sample_result_valid
  by (simp add: encode_item_def) (simp add: sample_result_def sample_item_value_def OperationJournalItemStatusToken_def
      OperationJournalItemErrorToken_def OperationJournalPublicationStateToken_def
      OperationJournalRemovalStateToken_def OperationJournalFilesystemSyncStatusToken_def
      OperationJournalRecoveryActionToken_def)

lemma encode_sample_entry:
  "encode_entry sample_json sample_entry = Inr (JObject (zip entry_names [JString ''op-1'', sample_encoded,
     JString ''completed'', JNum 7000, JArray [sample_item_value]]))"
  using sample_lifecycle encode_sample_item
  by (simp add: encode_entry_def reject_if_def)
    (simp add: sample_entry_def sample_encoded_plan OperationJournalEpochNanoseconds_def epoch_nanoseconds_def
      Period_num_def Period_den_def in_int64_def OperationJournalStateToken_def sample_id)

lemma Encode_sample:
  "OperationJournalEncode sample_json [sample_entry] 2 = Inr (write_json sample_document)"
proof -
  have "length (write_json sample_document) \<le> MaxJournalBytes"
    by (simp add: sample_document_def journal_document_def sample_item_value_def sample_encoded_def item_names_def
        entry_names_def journal_names_def quoted_def decimal_int_def decimal.simps MaxJournalBytes_def
        JournalSchemaVersion_def)
  then show ?thesis
    by (simp add: OperationJournalEncode_def MaxEntries_def encode_sample_entry)
      (simp add: sample_entry_def sample_document_def sample_json_def MaxItemResults_def)
qed

theorem JournalCodec_roundtrip_witness:
  "OperationJournalDecode sample_json (write_json sample_document) =
    Inr \<lparr>decoded_entries = [sample_entry], decoded_next_operation_sequence = 2,
         decoded_requires_migration = False\<rparr>"
  by (rule JournalCodec_roundtrip [OF sample_json_ok sample_ledger Encode_sample])

lemma Decode_sample:
  "OperationJournalDecode sample_json (write_json sample_document) =
    Inr \<lparr>decoded_entries = [sample_entry], decoded_next_operation_sequence = 2,
         decoded_requires_migration = False\<rparr>"
  by (rule Decode_Encode_journal [OF sample_json_ok sample_ledger Encode_sample])

theorem Decode_ledger_witness: "ledger_ok [sample_entry] 2"
  using Decode_ledger [OF Decode_sample] by simp

lemma maximum_numbered:
  assumes ids: "map operation_id es = map (\<lambda>k. word_of_nat (k + 1)) [0..<length es]" and n: "length es \<le> MaxEntries"
  shows "unat (maximum_operation_sequence es) = length es"
proof -
  let ?n = "length es"
  have small: "unat (word_of_nat k :: u64) = k" if "k \<le> ?n + 1" for k
    using that n by (subst unat_of_nat) (simp add: MaxEntries_def)
  have nth: "unat (operation_id (es ! k)) = k + 1" if "k < ?n" for k
  proof -
    have "operation_id (es ! k) = map operation_id es ! k" using that by simp
    also have "\<dots> = word_of_nat (k + 1)" unfolding ids using that by simp
    finally show ?thesis using small [of "k + 1"] that by simp
  qed
  have "maximum_operation_sequence es < word_of_nat (?n + 1)"
    unfolding maximum_less using nth small [of "?n + 1"]
    by (auto simp: list_all_length word_less_nat_alt simp del: of_nat_add of_nat_Suc)
  then have "unat (maximum_operation_sequence es) \<le> ?n"
    using small [of "?n + 1"] by (simp add: word_less_nat_alt del: of_nat_add of_nat_Suc)
  moreover have "?n \<le> unat (maximum_operation_sequence es)"
  proof (cases "?n = 0")
    case False
    then have "\<not> list_all (\<lambda>e. operation_id e < word_of_nat ?n) es"
      using nth [of "?n - 1"] small [of ?n]
      by (auto simp: list_all_length word_less_nat_alt intro!: exI [of _ "?n - 1"])
    then have "\<not> maximum_operation_sequence es < word_of_nat ?n" by (simp add: maximum_less)
    then show ?thesis using small [of ?n] by (simp add: word_less_nat_alt)
  qed simp
  ultimately show ?thesis by simp
qed

text \<open>
  A journal of version 1, which has no operation identities, is migrated by numbering its entries
  from 1 in the order of the file; the next identity to be given out is one more.
\<close>

theorem migration_numbers_entries:
  assumes "json_parse J Parse_ValidateEncoding text = Some (JObject ms)" "map_of ms ''version'' = Some (JNum 1)"
    and "OperationJournalDecode J text = Inr d"
  shows "map (\<lambda>e. unat (operation_id e)) (decoded_entries d) = [1..<length (decoded_entries d) + 1]
    \<and> unat (decoded_next_operation_sequence d) = length (decoded_entries d) + 1 \<and> decoded_requires_migration d"
proof -
  have root: "decode_root ms = Inr (version, n, v) \<Longrightarrow> version = 1" for version n v
    using assms(2) by (auto simp: decode_root_def bindR_eq_Inr JournalSchemaVersion_def)
  have "decode_document J ms = Inr d"
    using assms(1,3) by (simp add: OperationJournalDecode_def split: if_splits)
  then obtain vs es where "\<not> MaxEntries < length vs" and vs: "decode_entries J 1 [] 0 vs = Inr es"
    and m: "maximum_operation_sequence es \<noteq> - 1"
    and d: "d = \<lparr>decoded_entries = es, decoded_next_operation_sequence = maximum_operation_sequence es + 1,
        decoded_requires_migration = True\<rparr>"
    by (auto simp: decode_document_def bindR_eq_Inr Let_def JournalSchemaVersion_def dest!: root split: if_splits)
  then have n: "length vs \<le> MaxEntries" by simp
  have ids: "map operation_id es = map (\<lambda>k. word_of_nat (k + 1)) [0..<length es]" "length es = length vs"
    using decode_entries_v1 [OF vs] n by (simp_all add: MaxEntries_def)
  then have "unat (maximum_operation_sequence es) = length es" using maximum_numbered n by simp
  moreover from this have "unat (maximum_operation_sequence es + 1) = length es + 1"
    using n ids(2) by (simp add: unat_word_ariths MaxEntries_def)
  moreover have "map (\<lambda>e. unat (operation_id e)) es = [1..<length es + 1]"
  proof (rule nth_equalityI)
    fix k
    assume k: "k < length (map (\<lambda>e. unat (operation_id e)) es)"
    then have "operation_id (es ! k) = map operation_id es ! k" by simp
    also have "\<dots> = word_of_nat (k + 1)" unfolding ids(1) using k by simp
    finally have "unat (operation_id (es ! k)) = k + 1"
      using k ids(2) n by (simp add: unat_of_nat MaxEntries_def del: of_nat_add of_nat_Suc)
    then show "map (\<lambda>e. unat (operation_id e)) es ! k = [1..<length es + 1] ! k" using k by (simp del: upt_Suc)
  qed (simp del: upt_Suc)
  ultimately show ?thesis by (simp add: d)
qed

text \<open>A journal of version 1 with one running entry.\<close>

definition sample_v1 :: "(bytes \<times> json) list" where
  "sample_v1 = [(''version'', JNum 1), (''entries'', JArray [JObject (zip (tl entry_names)
     [sample_encoded, JString ''running'', JNum 7000, JArray []])])]"

definition sample_migrated :: OperationJournalDecoded where
  "sample_migrated = \<lparr>decoded_entries = [\<lparr>operation_id = 1, entry_plan = sample_plan, entry_state = State_Running,
      updated_at = 7, item_results = []\<rparr>], decoded_next_operation_sequence = 2,
      decoded_requires_migration = True\<rparr>"

lemma decoded_sample_plan: "decoded_plan sample_json sample_encoded = Inr sample_plan"
  using encoded_plan_Inr [OF sample_json_ok sample_plan_ok sample_encoded_plan] by blast

lemma decode_sample_v1: "decode_document sample_json sample_v1 = Inr sample_migrated"
proof -
  have "decode_root sample_v1 = Inr (1, 1, snd (sample_v1 ! 1))"
    by (simp add: sample_v1_def decode_root_def JournalSchemaVersion_def OperationJournalMembers_def
        collect_members_def)
  moreover have "OperationId_Parse (''op-'' @ decimal 1) = Some 1"
    using Parse_ToString [of 1] by (simp add: ToString_def op_prefix_def)
  ultimately show ?thesis
    by (simp add: sample_v1_def decode_document_def MaxEntries_def decode_entry_def entry_members_def entry_names_def
        OperationJournalMembers_def collect_members_def decoded_sample_plan OperationJournalParseState_def token_defs
        OperationJournalTimePoint_def time_point_def Period_num_def Period_den_def in_int64_def
        OperationJournalValidEntryLifecycle_def ValidOrderedItemResults_iff maximum_operation_sequence_def
        JournalSchemaVersion_def sample_migrated_def)
qed

theorem migration_numbers_entries_witness:
  "map (\<lambda>e. unat (operation_id e)) (decoded_entries sample_migrated) = [1..<1 + 1]"
proof -
  have w: "writable (JObject sample_v1)"
    using encode_plan_writable [OF encode_sample_plan] names_plain
    by (simp add: sample_v1_def entry_names_def) (simp add: plain_char_def)
  have "length (write_json (JObject sample_v1)) \<le> MaxJournalBytes"
    by (simp add: sample_v1_def sample_encoded_def entry_names_def quoted_def decimal_int_def decimal.simps
        MaxJournalBytes_def)
  then have "OperationJournalDecode sample_json (write_json (JObject sample_v1)) = Inr sample_migrated"
    using json_okD [OF sample_json_ok w, of Parse_ValidateEncoding] decode_sample_v1
    by (simp add: OperationJournalDecode_def) (simp add: sample_json_def)
  moreover have "json_parse sample_json Parse_ValidateEncoding (write_json (JObject sample_v1)) = Some (JObject sample_v1)"
    using json_okD [OF sample_json_ok w, of Parse_ValidateEncoding] by (simp add: sample_json_def)
  ultimately show ?thesis
    using migration_numbers_entries [of sample_json "write_json (JObject sample_v1)" sample_v1 sample_migrated]
    by (simp add: sample_v1_def) (simp add: sample_migrated_def)
qed

end
