(* ===== verification/JournalStore.thy ===== *)
theory JournalStore
  imports JournalCodec
begin

text \<open>
  The journal's file (\<open>OperationJournalRead\<close>, \<open>OperationJournalPersist\<close> and the opening of the
  directory in \<open>OperationJournal.cpp\<close>). The system calls are a parameter, the record \<open>Syscalls\<close> of
  \<open>OperationJournalTesting.h\<close>: each takes its arguments and the state of the world and returns an
  error number on the left, or its result, with the new state. A call that throws inside one of the
  \<open>try\<close> blocks is one that fails with \<open>EIO\<close>, which is what the handlers make of it. Loops that retry
  after an interruption may run forever, so they are partial functions.
\<close>

unbundle bit_operations_syntax

section \<open>System calls\<close>

definition EPERM :: int where "EPERM = 1"
definition ENOENT :: int where "ENOENT = 2"
definition EINTR :: int where "EINTR = 4"
definition EIO :: int where "EIO = 5"
definition EEXIST :: int where "EEXIST = 17"

text \<open>The four combinations of flags that the code opens files with.\<close>

datatype open_flags = Open_Directory | Open_Read | Open_CreateExclusive | Open_Lock

record stat =
  st_mode :: nat
  st_nlink :: nat
  st_uid :: nat
  st_size :: int
  st_dev :: u64
  st_ino :: u64

definition S_ISREG :: "nat \<Rightarrow> bool" where "S_ISREG mode \<longleftrightarrow> mode AND 61440 = 32768"
definition S_ISDIR :: "nat \<Rightarrow> bool" where "S_ISDIR mode \<longleftrightarrow> mode AND 61440 = 16384"

record 'w Syscalls =
  sys_open :: "bytes \<Rightarrow> open_flags \<Rightarrow> 'w \<Rightarrow> (int + int) \<times> 'w"
  sys_open_at :: "int \<Rightarrow> bytes \<Rightarrow> open_flags \<Rightarrow> 'w \<Rightarrow> (int + int) \<times> 'w"
  sys_read :: "int \<Rightarrow> nat \<Rightarrow> 'w \<Rightarrow> (int + bytes) \<times> 'w"
  sys_write :: "int \<Rightarrow> bytes \<Rightarrow> 'w \<Rightarrow> (int + nat) \<times> 'w"
  sys_fsync :: "int \<Rightarrow> 'w \<Rightarrow> (int + unit) \<times> 'w"
  sys_fstat :: "int \<Rightarrow> 'w \<Rightarrow> (int + stat) \<times> 'w"
  sys_flock :: "int \<Rightarrow> 'w \<Rightarrow> (int + unit) \<times> 'w"
  sys_rename_at :: "int \<Rightarrow> bytes \<Rightarrow> int \<Rightarrow> bytes \<Rightarrow> 'w \<Rightarrow> (int + unit) \<times> 'w"
  sys_close :: "int \<Rightarrow> 'w \<Rightarrow> (int + unit) \<times> 'w"
  sys_random_bytes :: "nat \<Rightarrow> 'w \<Rightarrow> bytes option \<times> 'w"
  sys_geteuid :: nat
  sys_clock :: "'w \<Rightarrow> int \<times> 'w"

definition journal_filename :: bytes where "journal_filename = ''operation-journal-v1.json''"

text \<open>The destructor of a descriptor: the result of \<open>close\<close> is not looked at.\<close>

definition CloseNoThrow :: "'w Syscalls \<Rightarrow> int \<Rightarrow> 'w \<Rightarrow> 'w" where
  "CloseNoThrow S fd w = snd (sys_close S fd w)"

section \<open>The parent directory\<close>

text \<open>The components behind the leading slash; \<open>fuel\<close> is not needed, as each round drops one.\<close>

function components :: "bytes \<Rightarrow> bytes list" where
  "components rest = (let component = takeWhile (\<lambda>c. c \<noteq> CHR ''/'') rest;
       after = dropWhile (\<lambda>c. c \<noteq> CHR ''/'') rest in
     if rest = [] then [] else if after = [] then [component] else component # components (tl after))"
  by pat_completeness auto

termination
proof (relation "measure length", goal_cases)
  case (2 rest component after)
  then have "length after \<le> length rest" "0 < length rest" by (simp_all add: length_dropWhile_le)
  then have "length after - 1 < length rest" by arith
  with 2 show ?case by simp
qed simp

definition OperationJournalValidParentPath :: "bytes \<Rightarrow> bool" where
  "OperationJournalValidParentPath path \<longleftrightarrow>
     (if path = [] \<or> hd path \<noteq> CHR ''/'' \<or> length path > 1 \<and> last path = CHR ''/'' then False
      else list_all (\<lambda>c. c \<noteq> [] \<and> c \<noteq> ''.'' \<and> c \<noteq> ''..'') (components (tl path)))"

text \<open>Each directory is opened in the one before, which is then closed.\<close>

fun open_components ::
  "'w Syscalls \<Rightarrow> int \<Rightarrow> bytes list \<Rightarrow> 'w \<Rightarrow> (OperationJournalError + int) \<times> 'w" where
  "open_components S directory [] w = (Inr directory, w)"
| "open_components S directory (name # names) w =
     (case sys_open_at S directory name Open_Directory w of
        (Inl errno, w) \<Rightarrow>
          (Inl (OperationJournalSystemFailure JE_ParentOpenFailed errno), CloseNoThrow S directory w)
      | (Inr opened, w) \<Rightarrow> open_components S opened names (CloseNoThrow S directory w))"

definition OperationJournalOpenParent ::
  "'w Syscalls \<Rightarrow> bytes \<Rightarrow> 'w \<Rightarrow> (OperationJournalError + int) \<times> 'w" where
  "OperationJournalOpenParent S path w =
     (if \<not> OperationJournalValidParentPath path then (Inl (OperationJournalFailure JE_InvalidParentPath), w)
      else case sys_open S ''/'' Open_Directory w of
        (Inl errno, w) \<Rightarrow> (Inl (OperationJournalSystemFailure JE_ParentOpenFailed errno), w)
      | (Inr root, w) \<Rightarrow> open_components S root (components (tl path)) w)"

section \<open>Reading\<close>

definition read_buffer :: nat where "read_buffer = 16 * 1024"

partial_function (option) read_loop ::
  "'w Syscalls \<Rightarrow> int \<Rightarrow> bytes \<Rightarrow> 'w \<Rightarrow> ((OperationJournalError + bytes) \<times> 'w) option" where
  "read_loop S fd contents w =
     (case sys_read S fd read_buffer w of
        (Inl errno, w) \<Rightarrow>
          if errno = EINTR then read_loop S fd contents w
          else Some (Inl (OperationJournalSystemFailure JE_JournalReadFailed errno), w)
      | (Inr chunk, w) \<Rightarrow>
          if chunk = [] then Some (Inr contents, w)
          else if length chunk > MaxJournalBytes - length contents
          then Some (Inl (OperationJournalFailure JE_JournalTooLarge), w)
          else read_loop S fd (contents @ chunk) w)"

definition private_file :: "'w Syscalls \<Rightarrow> stat \<Rightarrow> bool" where
  "private_file S st \<longleftrightarrow> S_ISREG (st_mode st) \<and> st_nlink st = 1 \<and> st_uid st = sys_geteuid S
     \<and> st_mode st AND 63 = 0"

definition OperationJournalRead ::
  "'w Syscalls \<Rightarrow> int \<Rightarrow> 'w \<Rightarrow> ((OperationJournalError + bytes option) \<times> 'w) option" where
  "OperationJournalRead S parent_fd w =
     (case sys_open_at S parent_fd journal_filename Open_Read w of
        (Inl errno, w) \<Rightarrow> Some (if errno = ENOENT then Inr None
          else Inl (OperationJournalSystemFailure JE_JournalOpenFailed errno), w)
      | (Inr fd, w) \<Rightarrow> (case sys_fstat S fd w of
          (Inl errno, w) \<Rightarrow>
            Some (Inl (OperationJournalSystemFailure JE_JournalReadFailed errno), CloseNoThrow S fd w)
        | (Inr st, w) \<Rightarrow>
            if \<not> private_file S st \<or> st_size st < 0
            then Some (Inl (OperationJournalSystemFailure JE_JournalReadFailed EPERM), CloseNoThrow S fd w)
            else if nat (st_size st) > MaxJournalBytes
            then Some (Inl (OperationJournalFailure JE_JournalTooLarge), CloseNoThrow S fd w)
            else Option.bind (read_loop S fd [] w) (\<lambda>(r, w). case r of
              Inl e \<Rightarrow> Some (Inl e, CloseNoThrow S fd w)
            | Inr contents \<Rightarrow> (case sys_close S fd w of
                (Inl errno, w) \<Rightarrow> Some (Inl (OperationJournalSystemFailure JE_JournalReadFailed errno), w)
              | (Inr _, w) \<Rightarrow> Some (Inr (Some contents), w)))))"

section \<open>Writing\<close>

definition hexadecimal :: bytes where "hexadecimal = ''0123456789abcdef''"

definition temporary_prefix :: bytes where "temporary_prefix = ''.operation-journal-v1.json.tmp.''"

definition temporary_name :: "bytes \<Rightarrow> bytes" where
  "temporary_name random = temporary_prefix @
     concat (map (\<lambda>b. [hexadecimal ! drop_bit 4 (byte_val b), hexadecimal ! (byte_val b AND 15)]) random)"

text \<open>The loop over the attempts, with the number of those that are left.\<close>

fun create_temporary ::
  "'w Syscalls \<Rightarrow> int \<Rightarrow> nat \<Rightarrow> 'w \<Rightarrow> (OperationJournalError + (bytes \<times> int)) \<times> 'w" where
  "create_temporary S parent_fd 0 w = (Inl (OperationJournalSystemFailure JE_TemporaryCreateFailed EEXIST), w)"
| "create_temporary S parent_fd (Suc attempts) w =
     (case sys_random_bytes S 16 w of
        (None, w) \<Rightarrow> (Inl (OperationJournalSystemFailure JE_TemporaryCreateFailed EIO), w)
      | (Some random, w) \<Rightarrow>
          (case sys_open_at S parent_fd (temporary_name random) Open_CreateExclusive w of
             (Inr fd, w) \<Rightarrow> (Inr (temporary_name random, fd), w)
           | (Inl errno, w) \<Rightarrow>
               if errno \<noteq> EEXIST
               then (Inl (OperationJournalSystemFailure JE_TemporaryCreateFailed errno), w)
               else create_temporary S parent_fd attempts w))"

partial_function (option) write_loop ::
  "'w Syscalls \<Rightarrow> int \<Rightarrow> bytes \<Rightarrow> 'w \<Rightarrow> ((OperationJournalError + unit) \<times> 'w) option" where
  "write_loop S fd rest w =
     (if rest = [] then Some (Inr (), w)
      else case sys_write S fd rest w of
        (Inl errno, w) \<Rightarrow>
          if errno = EINTR then write_loop S fd rest w
          else Some (Inl (OperationJournalSystemFailure JE_WriteFailed errno), w)
      | (Inr count, w) \<Rightarrow>
          if count = 0 then Some (Inl (OperationJournalSystemFailure JE_WriteFailed EIO), w)
          else write_loop S fd (drop count rest) w)"

partial_function (option) fsync_loop ::
  "'w Syscalls \<Rightarrow> OperationJournalErrorCode \<Rightarrow> int \<Rightarrow> 'w \<Rightarrow> ((OperationJournalError + unit) \<times> 'w) option" where
  "fsync_loop S code fd w =
     (case sys_fsync S fd w of
        (Inl errno, w) \<Rightarrow>
          if errno = EINTR then fsync_loop S code fd w
          else Some (Inl (OperationJournalSystemFailure code errno), w)
      | (Inr _, w) \<Rightarrow> Some (Inr (), w))"

text \<open>
  Up to the closing of the temporary file, and from the renaming on. \<open>write_temporary\<close> closes the
  file on every path; \<open>rename_committed\<close> is set exactly when the second part starts.
\<close>

definition write_temporary ::
  "'w Syscalls \<Rightarrow> int \<Rightarrow> bytes \<Rightarrow> 'w \<Rightarrow> ((OperationJournalError + bytes) \<times> 'w) option" where
  "write_temporary S parent_fd encoded w =
     (case create_temporary S parent_fd 8 w of
        (Inl e, w) \<Rightarrow> Some (Inl e, w)
      | (Inr (temporary, fd), w) \<Rightarrow>
          Option.bind (write_loop S fd encoded w) (\<lambda>(r, w). case r of
            Inl e \<Rightarrow> Some (Inl e, CloseNoThrow S fd w)
          | Inr _ \<Rightarrow> Option.bind (fsync_loop S JE_FileSyncFailed fd w) (\<lambda>(r, w). case r of
              Inl e \<Rightarrow> Some (Inl e, CloseNoThrow S fd w)
            | Inr _ \<Rightarrow> (case sys_close S fd w of
                (Inl errno, w) \<Rightarrow> Some (Inl (OperationJournalSystemFailure JE_CloseFailed errno), w)
              | (Inr _, w) \<Rightarrow> Some (Inr temporary, w)))))"

definition rename_temporary ::
  "'w Syscalls \<Rightarrow> int \<Rightarrow> bytes \<Rightarrow> 'w \<Rightarrow> ((OperationJournalError + unit) \<times> 'w) option" where
  "rename_temporary S parent_fd temporary w =
     (case sys_rename_at S parent_fd temporary parent_fd journal_filename w of
        (Inl errno, w) \<Rightarrow> Some (Inl (OperationJournalSystemFailure JE_DurabilityUncertain errno), w)
      | (Inr _, w) \<Rightarrow> fsync_loop S JE_DurabilityUncertain parent_fd w)"

definition OperationJournalPersist ::
  "Json \<Rightarrow> 'w Syscalls \<Rightarrow> int \<Rightarrow> OperationJournalEntry list \<Rightarrow> u64 \<Rightarrow> 'w \<Rightarrow>
   ((OperationJournalError + unit) \<times> bool \<times> 'w) option" where
  "OperationJournalPersist J S parent_fd entries next_operation_sequence w =
     (case OperationJournalEncode J entries next_operation_sequence of
        Inl e \<Rightarrow> Some (Inl e, False, w)
      | Inr encoded \<Rightarrow> Option.bind (write_temporary S parent_fd encoded w) (\<lambda>(r, w). case r of
          Inl e \<Rightarrow> Some (Inl e, False, w)
        | Inr temporary \<Rightarrow> Option.bind (rename_temporary S parent_fd temporary w) (\<lambda>(r, w).
            Some (r, True, w))))"

section \<open>What is relied on\<close>

text \<open>
  The part of the file system that matters, as a function of the state of the world: the journal's
  file as a reader finds it, what may be found after a crash at this moment, the temporary files with
  their contents and whether they are synchronised, the descriptors open on temporary files, and what
  is left to read behind the descriptors open on the journal. \<open>interrupts\<close> bounds the number of
  calls that will still fail with \<open>EINTR\<close>. \<open>posix_ok\<close> is what POSIX documents of the calls on the
  directory \<open>dir\<close>, which no other process writes to while the lock is held.
\<close>

record disk =
  disk_journal :: "bytes option"
  disk_crash :: "bytes option set"
  disk_temps :: "bytes \<Rightarrow> (bytes \<times> bool) option"
  disk_writers :: "int \<Rightarrow> bytes option"
  disk_readers :: "int \<Rightarrow> bytes option"

definition put_temp :: "bytes \<Rightarrow> bytes \<times> bool \<Rightarrow> disk \<Rightarrow> disk" where
  "put_temp name x d = d\<lparr>disk_temps := (disk_temps d)(name \<mapsto> x)\<rparr>"

definition close_fd :: "int \<Rightarrow> disk \<Rightarrow> disk" where
  "close_fd fd d = d\<lparr>disk_writers := (disk_writers d)(fd := None), disk_readers := (disk_readers d)(fd := None)\<rparr>"

definition open_writer :: "int \<Rightarrow> bytes \<Rightarrow> disk \<Rightarrow> disk" where
  "open_writer fd name d = put_temp name ([], False) d\<lparr>disk_writers := (disk_writers d)(fd \<mapsto> name)\<rparr>"

definition renamed :: "bytes \<Rightarrow> bytes \<Rightarrow> disk \<Rightarrow> disk \<Rightarrow> bool" where
  "renamed name c d d' \<longleftrightarrow> (\<exists>C \<subseteq> insert (Some c) (disk_crash d).
     d' = d\<lparr>disk_journal := Some c, disk_crash := C, disk_temps := (disk_temps d)(name := None)\<rparr>)"

definition random_law :: "'w Syscalls \<Rightarrow> int \<Rightarrow> ('w \<Rightarrow> disk) \<Rightarrow> ('w \<Rightarrow> nat) \<Rightarrow> bool" where
  "random_law S dir view interrupts \<longleftrightarrow> (\<forall>n w r w'. sys_random_bytes S n w = (r, w') \<longrightarrow>
     interrupts w' \<le> interrupts w \<and> view w' = view w)"

definition create_law :: "'w Syscalls \<Rightarrow> int \<Rightarrow> ('w \<Rightarrow> disk) \<Rightarrow> ('w \<Rightarrow> nat) \<Rightarrow> bool" where
  "create_law S dir view interrupts \<longleftrightarrow>
     (\<forall>name w r w'. sys_open_at S dir name Open_CreateExclusive w = (r, w') \<longrightarrow>
        interrupts w' \<le> interrupts w \<and> (case r of Inl _ \<Rightarrow> view w' = view w
          | Inr fd \<Rightarrow> fd \<noteq> dir \<and> view w' = open_writer fd name (view w)))"

definition write_law :: "'w Syscalls \<Rightarrow> int \<Rightarrow> ('w \<Rightarrow> disk) \<Rightarrow> ('w \<Rightarrow> nat) \<Rightarrow> bool" where
  "write_law S dir view interrupts \<longleftrightarrow>
     (\<forall>fd bs w name c s r w'. disk_writers (view w) fd = Some name \<longrightarrow>
        disk_temps (view w) name = Some (c, s) \<longrightarrow> sys_write S fd bs w = (r, w') \<longrightarrow>
        interrupts w' \<le> interrupts w \<and> (case r of
            Inr n \<Rightarrow> n \<le> length bs \<and> view w' = put_temp name (c @ take n bs, False) (view w)
          | Inl e \<Rightarrow> if e = EINTR then view w' = view w \<and> interrupts w' < interrupts w
              else \<exists>c'. view w' = put_temp name (c', False) (view w)))"

definition fsync_law :: "'w Syscalls \<Rightarrow> int \<Rightarrow> ('w \<Rightarrow> disk) \<Rightarrow> ('w \<Rightarrow> nat) \<Rightarrow> bool" where
  "fsync_law S dir view interrupts \<longleftrightarrow>
     (\<forall>fd w name c s r w'. fd \<noteq> dir \<longrightarrow> disk_writers (view w) fd = Some name \<longrightarrow>
        disk_temps (view w) name = Some (c, s) \<longrightarrow> sys_fsync S fd w = (r, w') \<longrightarrow>
        interrupts w' \<le> interrupts w \<and> (case r of
            Inr _ \<Rightarrow> view w' = put_temp name (c, True) (view w)
          | Inl e \<Rightarrow> view w' = view w \<and> (e = EINTR \<longrightarrow> interrupts w' < interrupts w)))"

definition fsync_directory_law :: "'w Syscalls \<Rightarrow> int \<Rightarrow> ('w \<Rightarrow> disk) \<Rightarrow> ('w \<Rightarrow> nat) \<Rightarrow> bool" where
  "fsync_directory_law S dir view interrupts \<longleftrightarrow> (\<forall>w r w'. sys_fsync S dir w = (r, w') \<longrightarrow>
     interrupts w' \<le> interrupts w \<and> (case r of
          Inr _ \<Rightarrow> view w' = (view w)\<lparr>disk_crash := {disk_journal (view w)}\<rparr>
        | Inl e \<Rightarrow> (\<exists>C \<subseteq> disk_crash (view w). view w' = (view w)\<lparr>disk_crash := C\<rparr>)
            \<and> (e = EINTR \<longrightarrow> interrupts w' < interrupts w)))"

definition close_law :: "'w Syscalls \<Rightarrow> int \<Rightarrow> ('w \<Rightarrow> disk) \<Rightarrow> ('w \<Rightarrow> nat) \<Rightarrow> bool" where
  "close_law S dir view interrupts \<longleftrightarrow> (\<forall>fd w r w'. sys_close S fd w = (r, w') \<longrightarrow>
     interrupts w' \<le> interrupts w \<and> view w' = close_fd fd (view w))"

text \<open>A failed renaming may have taken place: network file systems report so.\<close>

definition rename_law :: "'w Syscalls \<Rightarrow> int \<Rightarrow> ('w \<Rightarrow> disk) \<Rightarrow> ('w \<Rightarrow> nat) \<Rightarrow> bool" where
  "rename_law S dir view interrupts \<longleftrightarrow> (\<forall>name w c r w'. disk_temps (view w) name = Some (c, True) \<longrightarrow>
     sys_rename_at S dir name dir journal_filename w = (r, w') \<longrightarrow>
     interrupts w' \<le> interrupts w \<and> (case r of
         Inr _ \<Rightarrow> renamed name c (view w) (view w')
       | Inl _ \<Rightarrow> view w' = view w \<or> renamed name c (view w) (view w')))"

definition open_law :: "'w Syscalls \<Rightarrow> int \<Rightarrow> ('w \<Rightarrow> disk) \<Rightarrow> ('w \<Rightarrow> nat) \<Rightarrow> bool" where
  "open_law S dir view interrupts \<longleftrightarrow>
     (\<forall>w r w'. sys_open_at S dir journal_filename Open_Read w = (r, w') \<longrightarrow> interrupts w' \<le> interrupts w \<and>
        (case r of Inl e \<Rightarrow> view w' = view w \<and> (e = ENOENT \<longrightarrow> disk_journal (view w) = None)
         | Inr fd \<Rightarrow> \<exists>c. disk_journal (view w) = Some c \<and>
             view w' = (view w)\<lparr>disk_readers := (disk_readers (view w))(fd \<mapsto> c)\<rparr>)) \<and>
     (\<forall>fd w r w'. sys_fstat S fd w = (r, w') \<longrightarrow> interrupts w' \<le> interrupts w \<and> view w' = view w)"

definition read_law :: "'w Syscalls \<Rightarrow> int \<Rightarrow> ('w \<Rightarrow> disk) \<Rightarrow> ('w \<Rightarrow> nat) \<Rightarrow> bool" where
  "read_law S dir view interrupts \<longleftrightarrow>
     (\<forall>fd n w rest r w'. 0 < n \<longrightarrow> disk_readers (view w) fd = Some rest \<longrightarrow> sys_read S fd n w = (r, w') \<longrightarrow>
        interrupts w' \<le> interrupts w \<and> (case r of
            Inr chunk \<Rightarrow> (\<exists>rest'. rest = chunk @ rest' \<and> (chunk = [] \<longrightarrow> rest = []) \<and>
              view w' = (view w)\<lparr>disk_readers := (disk_readers (view w))(fd \<mapsto> rest')\<rparr>)
          | Inl e \<Rightarrow> view w' = view w \<and> (e = EINTR \<longrightarrow> interrupts w' < interrupts w)))"

definition posix_ok :: "'w Syscalls \<Rightarrow> int \<Rightarrow> ('w \<Rightarrow> disk) \<Rightarrow> ('w \<Rightarrow> nat) \<Rightarrow> bool" where
  "posix_ok S dir view interrupts \<longleftrightarrow>
     random_law S dir view interrupts \<and> create_law S dir view interrupts \<and> write_law S dir view interrupts
     \<and> fsync_law S dir view interrupts \<and> fsync_directory_law S dir view interrupts
     \<and> close_law S dir view interrupts \<and> rename_law S dir view interrupts \<and> open_law S dir view interrupts
     \<and> read_law S dir view interrupts"

lemma put_temp_sel [simp]:
  "disk_journal (put_temp name x d) = disk_journal d" "disk_crash (put_temp name x d) = disk_crash d"
  "disk_temps (put_temp name x d) = (disk_temps d)(name \<mapsto> x)" "disk_writers (put_temp name x d) = disk_writers d"
  "disk_readers (put_temp name x d) = disk_readers d" "put_temp name y (put_temp name x d) = put_temp name y d"
  by (simp_all add: put_temp_def)

lemma close_fd_sel [simp]:
  "disk_journal (close_fd fd d) = disk_journal d" "disk_crash (close_fd fd d) = disk_crash d"
  "disk_temps (close_fd fd d) = disk_temps d"
  by (simp_all add: close_fd_def)

lemma open_writer_sel [simp]:
  "disk_journal (open_writer fd name d) = disk_journal d" "disk_crash (open_writer fd name d) = disk_crash d"
  "disk_temps (open_writer fd name d) name = Some ([], False)" "disk_writers (open_writer fd name d) fd = Some name"
  by (simp_all add: open_writer_def)

section \<open>Writing is atomic\<close>

lemma write_loop_spec:
  assumes S: "write_law S dir view interrupts"
    and w: "disk_writers (view w) fd = Some name" "disk_temps (view w) name = Some (c, s)"
  shows "\<exists>r w' x. write_loop S fd rest w = Some (r, w') \<and> interrupts w' \<le> interrupts w
    \<and> view w' = put_temp name x (view w) \<and> (r = Inr () \<longrightarrow> fst x = c @ rest)"
  using w
proof (induction "interrupts w + length rest" arbitrary: w rest c s rule: less_induct)
  case less
  show ?case
  proof (cases "rest = []")
    case True
    have "view w = put_temp name (c, s) (view w)"
      using less.prems(2) by (simp add: put_temp_def fun_upd_idem)
    with True show ?thesis by (intro exI [of _ "Inr ()"] exI [of _ w] exI [of _ "(c, s)"]) (simp add: write_loop.simps)
  next
    case False
    obtain r w' where r: "sys_write S fd rest w = (r, w')" by (cases "sys_write S fd rest w")
    from S less.prems r have i: "interrupts w' \<le> interrupts w" and
      v: "case r of Inr n \<Rightarrow> n \<le> length rest \<and> view w' = put_temp name (c @ take n rest, False) (view w)
          | Inl e \<Rightarrow> if e = EINTR then view w' = view w \<and> interrupts w' < interrupts w
              else \<exists>c'. view w' = put_temp name (c', False) (view w)"
      by (simp_all add: write_law_def)
    show ?thesis
    proof (cases r)
      case (Inl e)
      show ?thesis
      proof (cases "e = EINTR")
        case True
        then have eq: "write_loop S fd rest w = write_loop S fd rest w'"
          using False r Inl by (subst write_loop.simps) simp
        have vw: "view w' = view w" "interrupts w' < interrupts w" using v Inl True by simp_all
        with less.hyps [of w' rest c s] less.prems show ?thesis unfolding eq by fastforce
      next
        case other: False
        with False r Inl v i show ?thesis by (subst write_loop.simps) auto
      qed
    next
      case (Inr n)
      show ?thesis
      proof (cases "n = 0")
        case True
        with False r Inr v i show ?thesis by (subst write_loop.simps) auto
      next
        case pos: False
        then have eq: "write_loop S fd rest w = write_loop S fd (drop n rest) w'"
          using False r Inr by (subst write_loop.simps) simp
        have vw: "view w' = put_temp name (c @ take n rest, False) (view w)" "n \<le> length rest" using v Inr by simp_all
        then have "interrupts w' + length (drop n rest) < interrupts w + length rest"
          using i pos False by (cases rest) auto
        from less.hyps [OF this, of "c @ take n rest" False] less.prems vw i show ?thesis
          unfolding eq by fastforce
      qed
    qed
  qed
qed

lemma fsync_file:
  assumes S: "fsync_law S dir view interrupts" "fd \<noteq> dir"
    and w: "disk_writers (view w) fd = Some name" "disk_temps (view w) name = Some (c, s)"
  shows "\<exists>r w'. fsync_loop S code fd w = Some (r, w') \<and> interrupts w' \<le> interrupts w
    \<and> view w' = (if r = Inr () then put_temp name (c, True) (view w) else view w)"
  using w
proof (induction "interrupts w" arbitrary: w rule: less_induct)
  case less
  obtain r w' where r: "sys_fsync S fd w = (r, w')" by (cases "sys_fsync S fd w")
  from S less.prems r have i: "interrupts w' \<le> interrupts w" and
    v: "case r of Inr _ \<Rightarrow> view w' = put_temp name (c, True) (view w)
          | Inl e \<Rightarrow> view w' = view w \<and> (e = EINTR \<longrightarrow> interrupts w' < interrupts w)"
    by (simp_all add: fsync_law_def)
  show ?case
  proof (cases "r = Inl EINTR")
    case True
    then have "fsync_loop S code fd w = fsync_loop S code fd w'" using r by (subst fsync_loop.simps) simp
    with less.hyps [of w'] less.prems v True show ?thesis by fastforce
  next
    case False
    with r v i show ?thesis by (cases r) (subst fsync_loop.simps, fastforce)+
  qed
qed

lemma fsync_dir:
  assumes S: "fsync_directory_law S dir view interrupts"
  shows "\<exists>r w' C. fsync_loop S code dir w = Some (r, w') \<and> interrupts w' \<le> interrupts w
    \<and> view w' = (view w)\<lparr>disk_crash := C\<rparr>
    \<and> (if r = Inr () then C = {disk_journal (view w)} else C \<subseteq> disk_crash (view w))"
proof (induction "interrupts w" arbitrary: w rule: less_induct)
  case less
  obtain r w' where r: "sys_fsync S dir w = (r, w')" by (cases "sys_fsync S dir w")
  from S r have i: "interrupts w' \<le> interrupts w" and
    v: "case r of Inr _ \<Rightarrow> view w' = (view w)\<lparr>disk_crash := {disk_journal (view w)}\<rparr>
        | Inl e \<Rightarrow> (\<exists>C \<subseteq> disk_crash (view w). view w' = (view w)\<lparr>disk_crash := C\<rparr>)
            \<and> (e = EINTR \<longrightarrow> interrupts w' < interrupts w)"
    by (simp_all add: fsync_directory_law_def)
  show ?case
  proof (cases "r = Inl EINTR")
    case True
    then have "fsync_loop S code dir w = fsync_loop S code dir w'" using r by (subst fsync_loop.simps) simp
    with less.hyps [of w'] v True show ?thesis by fastforce
  next
    case False
    with r v i show ?thesis by (cases r) (subst fsync_loop.simps, fastforce)+
  qed
qed

lemma create_spec:
  assumes S: "random_law S dir view interrupts" "create_law S dir view interrupts"
  shows "case create_temporary S dir n w of (r, w') \<Rightarrow> interrupts w' \<le> interrupts w \<and> (case r of
      Inl _ \<Rightarrow> view w' = view w
    | Inr (name, fd) \<Rightarrow> fd \<noteq> dir \<and> view w' = open_writer fd name (view w))"
proof (induction n arbitrary: w)
  case (Suc n)
  obtain random w1 where r: "sys_random_bytes S 16 w = (random, w1)" by (cases "sys_random_bytes S 16 w")
  with S(1) have w1: "interrupts w1 \<le> interrupts w" "view w1 = view w" by (simp_all add: random_law_def)
  show ?case
  proof (cases random)
    case None
    with r w1 show ?thesis by simp
  next
    case (Some bs)
    obtain o1 w2 where o: "sys_open_at S dir (temporary_name bs) Open_CreateExclusive w1 = (o1, w2)"
      by (cases "sys_open_at S dir (temporary_name bs) Open_CreateExclusive w1")
    with S(2) have w2: "interrupts w2 \<le> interrupts w1" "case o1 of Inl _ \<Rightarrow> view w2 = view w1
        | Inr fd \<Rightarrow> fd \<noteq> dir \<and> view w2 = open_writer fd (temporary_name bs) (view w1)"
      by (simp_all add: create_law_def)
    show ?thesis
      using r w1 w2 o Some Suc.IH [of w2] by (cases o1) (auto split: sum.splits)
  qed
qed simp

lemma CloseNoThrow_view:
  "close_law S dir view interrupts \<Longrightarrow>
     interrupts (CloseNoThrow S fd w) \<le> interrupts w \<and> view (CloseNoThrow S fd w) = close_fd fd (view w)"
  by (cases "sys_close S fd w") (simp add: CloseNoThrow_def close_law_def)

text \<open>Neither the journal nor what a crash may leave of it changes before the renaming.\<close>

definition untouched_journal :: "('w \<Rightarrow> disk) \<Rightarrow> 'w \<Rightarrow> 'w \<Rightarrow> bool" where
  "untouched_journal view w w' \<longleftrightarrow>
     disk_journal (view w') = disk_journal (view w) \<and> disk_crash (view w') = disk_crash (view w)"

lemma write_temporary_spec:
  assumes S: "posix_ok S dir view interrupts"
  shows "\<exists>r w'. write_temporary S dir encoded w = Some (r, w') \<and> interrupts w' \<le> interrupts w
    \<and> untouched_journal view w w' \<and> (\<forall>name. r = Inr name \<longrightarrow> disk_temps (view w') name = Some (encoded, True))"
proof -
  note laws = S [unfolded posix_ok_def]
  note closing = CloseNoThrow_view [OF laws [THEN conjunct2, THEN conjunct2, THEN conjunct2, THEN conjunct2,
        THEN conjunct2, THEN conjunct1]]
  obtain r w1 where c: "create_temporary S dir 8 w = (r, w1)" by (cases "create_temporary S dir 8 w")
  from create_spec [of S dir view interrupts, where n = 8 and w = w] laws c have w1: "interrupts w1 \<le> interrupts w"
    "case r of Inl _ \<Rightarrow> view w1 = view w
     | Inr (name, fd) \<Rightarrow> fd \<noteq> dir \<and> view w1 = open_writer fd name (view w)" by simp_all
  show ?thesis
  proof (cases r)
    case (Inl e)
    with c w1 show ?thesis by (simp add: write_temporary_def untouched_journal_def)
  next
    case (Inr a)
    obtain name fd where r: "r = Inr (name, fd)" using Inr by (cases a) simp
    with w1 have fd: "fd \<noteq> dir" "disk_writers (view w1) fd = Some name" "disk_temps (view w1) name = Some ([], False)"
      "untouched_journal view w w1" by (simp_all add: untouched_journal_def)
    obtain s w2 x where w2: "write_loop S fd encoded w1 = Some (s, w2)" "interrupts w2 \<le> interrupts w1"
      "view w2 = put_temp name x (view w1)" "s = Inr () \<Longrightarrow> fst x = encoded"
      using write_loop_spec [of S dir view interrupts w1 fd name "[]" False encoded] laws fd by auto
    show ?thesis
    proof (cases "s = Inr ()")
      case False
      then obtain e where "s = Inl e" by (cases s) auto
      with c r w1(1) w2 fd(4) closing [of fd w2] show ?thesis
        by (simp add: write_temporary_def untouched_journal_def)
    next
      case True
      with w2 fd obtain s2 w3 where w3: "fsync_loop S JE_FileSyncFailed fd w2 = Some (s2, w3)"
        "interrupts w3 \<le> interrupts w2"
        "view w3 = (if s2 = Inr () then put_temp name (encoded, True) (view w2) else view w2)"
        using fsync_file [of S dir view interrupts fd w2 name encoded "snd x" JE_FileSyncFailed] laws
        by (cases x) auto
      obtain s3 w4 where w4: "sys_close S fd w3 = (s3, w4)" by (cases "sys_close S fd w3")
      then have "interrupts w4 \<le> interrupts w3 \<and> view w4 = close_fd fd (view w3)"
        using laws by (simp add: close_law_def)
      with True c r w1(1) w2 w3 w4 fd(4) closing [of fd w3] show ?thesis
        by (cases s2; cases s3) (simp_all add: write_temporary_def untouched_journal_def)
    qed
  qed
qed

lemma rename_spec:
  assumes S: "posix_ok S dir view interrupts" and t: "disk_temps (view w) name = Some (c, True)"
  shows "\<exists>r w'. rename_temporary S dir name w = Some (r, w') \<and> interrupts w' \<le> interrupts w
    \<and> disk_journal (view w') \<in> {disk_journal (view w), Some c}
    \<and> disk_crash (view w') \<subseteq> insert (Some c) (disk_crash (view w))
    \<and> (r = Inr () \<longrightarrow> disk_journal (view w') = Some c \<and> disk_crash (view w') = {Some c})"
proof -
  note laws = S [unfolded posix_ok_def]
  obtain r w1 where r: "sys_rename_at S dir name dir journal_filename w = (r, w1)"
    by (cases "sys_rename_at S dir name dir journal_filename w")
  with laws t have w1: "interrupts w1 \<le> interrupts w" "case r of
         Inr _ \<Rightarrow> renamed name c (view w) (view w1)
       | Inl _ \<Rightarrow> view w1 = view w \<or> renamed name c (view w) (view w1)"
    by (simp_all add: rename_law_def)
  show ?thesis
  proof (cases r)
    case (Inl e)
    with r w1 show ?thesis by (auto simp: rename_temporary_def renamed_def)
  next
    case (Inr u)
    obtain s w2 C where "fsync_loop S JE_DurabilityUncertain dir w1 = Some (s, w2)" "interrupts w2 \<le> interrupts w1"
      "view w2 = (view w1)\<lparr>disk_crash := C\<rparr>"
      "if s = Inr () then C = {disk_journal (view w1)} else C \<subseteq> disk_crash (view w1)"
      using fsync_dir [of S dir view interrupts JE_DurabilityUncertain w1] laws by auto
    with Inr r w1 show ?thesis
      by (auto simp: rename_temporary_def renamed_def split: if_splits)
  qed
qed

lemma Persist_spec:
  assumes S: "posix_ok S dir view interrupts"
  shows "\<exists>r committed w'. OperationJournalPersist J S dir entries n w = Some (r, committed, w')
    \<and> interrupts w' \<le> interrupts w
    \<and> (r = Inr () \<longrightarrow> committed) \<and> (\<not> committed \<longrightarrow> untouched_journal view w w')
    \<and> (committed \<longrightarrow> (\<exists>encoded. OperationJournalEncode J entries n = Inr encoded
         \<and> disk_journal (view w') \<in> {disk_journal (view w), Some encoded}
         \<and> disk_crash (view w') \<subseteq> insert (Some encoded) (disk_crash (view w))
         \<and> (r = Inr () \<longrightarrow> disk_journal (view w') = Some encoded \<and> disk_crash (view w') = {Some encoded})))"
proof (cases "OperationJournalEncode J entries n")
  case (Inl e)
  then show ?thesis by (auto simp: OperationJournalPersist_def untouched_journal_def)
next
  case (Inr encoded)
  obtain r w1 where w1: "write_temporary S dir encoded w = Some (r, w1)" "interrupts w1 \<le> interrupts w"
    "untouched_journal view w w1" "\<And>name. r = Inr name \<Longrightarrow> disk_temps (view w1) name = Some (encoded, True)"
    using write_temporary_spec [OF S, of encoded w] by auto
  show ?thesis
  proof (cases r)
    case (Inl e)
    with Inr w1 \<open>OperationJournalEncode J entries n = Inr encoded\<close> show ?thesis
      by (intro exI [of _ "Inl e"] exI [of _ False] exI [of _ w1]) (simp add: OperationJournalPersist_def)
  next
    case (Inr name)
    from rename_spec [OF S w1(4) [OF Inr]] obtain s w2 where
      "rename_temporary S dir name w1 = Some (s, w2)" "interrupts w2 \<le> interrupts w1"
      "disk_journal (view w2) \<in> {disk_journal (view w1), Some encoded}"
      "disk_crash (view w2) \<subseteq> insert (Some encoded) (disk_crash (view w1))"
      "s = Inr () \<longrightarrow> disk_journal (view w2) = Some encoded \<and> disk_crash (view w2) = {Some encoded}"
      by auto
    with \<open>OperationJournalEncode J entries n = Inr encoded\<close> Inr w1 show ?thesis
      by (auto simp: OperationJournalPersist_def untouched_journal_def)
  qed
qed

section \<open>Reading back\<close>

lemma read_loop_spec:
  assumes S: "read_law S dir view interrupts" and w: "disk_readers (view w) fd = Some rest"
  shows "\<exists>r w'. read_loop S fd contents w = Some (r, w') \<and> interrupts w' \<le> interrupts w
    \<and> untouched_journal view w w' \<and> (\<forall>c. r = Inr c \<longrightarrow> c = contents @ rest)"
  using w
proof (induction "interrupts w + length rest" arbitrary: w rest contents rule: less_induct)
  case less
  obtain r w' where r: "sys_read S fd read_buffer w = (r, w')" by (cases "sys_read S fd read_buffer w")
  have "0 < read_buffer" by (simp add: read_buffer_def)
  with S less.prems r have i: "interrupts w' \<le> interrupts w" and
    v: "case r of Inr chunk \<Rightarrow> (\<exists>rest'. rest = chunk @ rest' \<and> (chunk = [] \<longrightarrow> rest = []) \<and>
              view w' = (view w)\<lparr>disk_readers := (disk_readers (view w))(fd \<mapsto> rest')\<rparr>)
          | Inl e \<Rightarrow> view w' = view w \<and> (e = EINTR \<longrightarrow> interrupts w' < interrupts w)"
    by (simp_all add: read_law_def)
  show ?case
  proof (cases r)
    case (Inl e)
    show ?thesis
    proof (cases "e = EINTR")
      case True
      then have eq: "read_loop S fd contents w = read_loop S fd contents w'"
        using r Inl by (subst read_loop.simps) simp
      have "view w' = view w" "interrupts w' < interrupts w" using v Inl True by simp_all
      with less.hyps [of w' rest contents] less.prems show ?thesis
        unfolding eq by (fastforce simp: untouched_journal_def)
    next
      case False
      with r Inl v i show ?thesis by (subst read_loop.simps) (simp add: untouched_journal_def)
    qed
  next
    case (Inr chunk)
    with v obtain rest' where v': "rest = chunk @ rest'" "chunk = [] \<longrightarrow> rest = []"
      "view w' = (view w)\<lparr>disk_readers := (disk_readers (view w))(fd \<mapsto> rest')\<rparr>" by auto
    then have u: "untouched_journal view w w'" "disk_readers (view w') fd = Some rest'"
      by (simp_all add: untouched_journal_def)
    consider "chunk = []" | "chunk \<noteq> []" "length chunk > MaxJournalBytes - length contents"
      | "chunk \<noteq> []" "\<not> length chunk > MaxJournalBytes - length contents" by blast
    then show ?thesis
    proof cases
      case 1
      with r Inr i u v' show ?thesis by (subst read_loop.simps) simp
    next
      case 2
      with r Inr i u show ?thesis by (subst read_loop.simps) simp
    next
      case 3
      then have eq: "read_loop S fd contents w = read_loop S fd (contents @ chunk) w'"
        using r Inr by (subst read_loop.simps) simp
      have "interrupts w' + length rest' < interrupts w + length rest" using i v'(1) 3(1) by (cases chunk) simp_all
      from less.hyps [OF this u(2), of "contents @ chunk"] i u(1) v'(1) show ?thesis
        unfolding eq by (fastforce simp: untouched_journal_def)
    qed
  qed
qed

lemma Read_spec:
  assumes S: "posix_ok S dir view interrupts"
  shows "\<exists>r w'. OperationJournalRead S dir w = Some (r, w') \<and> interrupts w' \<le> interrupts w
    \<and> untouched_journal view w w' \<and> (\<forall>c. r = Inr c \<longrightarrow> c = disk_journal (view w))"
proof -
  note laws = S [unfolded posix_ok_def]
  have closing: "interrupts (CloseNoThrow S fd w) \<le> interrupts w \<and> untouched_journal view w (CloseNoThrow S fd w)"
    for fd w using CloseNoThrow_view [of S dir view interrupts fd w] laws by (simp add: untouched_journal_def)
  have trans: "untouched_journal view a b \<Longrightarrow> untouched_journal view b c \<Longrightarrow> untouched_journal view a c" for a b c
    by (simp add: untouched_journal_def)
  obtain r w1 where r: "sys_open_at S dir journal_filename Open_Read w = (r, w1)"
    by (cases "sys_open_at S dir journal_filename Open_Read w")
  with laws have w1: "interrupts w1 \<le> interrupts w" "case r of
        Inl e \<Rightarrow> view w1 = view w \<and> (e = ENOENT \<longrightarrow> disk_journal (view w) = None)
      | Inr fd \<Rightarrow> \<exists>c. disk_journal (view w) = Some c \<and>
          view w1 = (view w)\<lparr>disk_readers := (disk_readers (view w))(fd \<mapsto> c)\<rparr>"
    by (simp_all add: open_law_def)
  show ?thesis
  proof (cases r)
    case (Inl e)
    with r w1 show ?thesis by (simp add: OperationJournalRead_def untouched_journal_def)
  next
    case (Inr fd)
    with w1 obtain c where c: "disk_journal (view w) = Some c" "disk_readers (view w1) fd = Some c"
      "untouched_journal view w w1" by (auto simp: untouched_journal_def)
    obtain s w2 where s: "sys_fstat S fd w1 = (s, w2)" by (cases "sys_fstat S fd w1")
    with laws have w2: "interrupts w2 \<le> interrupts w1" "view w2 = view w1" by (auto simp: open_law_def)
    then have u2: "untouched_journal view w w2" "disk_readers (view w2) fd = Some c"
      using c by (simp_all add: untouched_journal_def)
    have fail: "\<exists>r w'. Some (Inl e, CloseNoThrow S fd w2) = Some (r, w') \<and> interrupts w' \<le> interrupts w
        \<and> untouched_journal view w w' \<and> (\<forall>c. r = Inr c \<longrightarrow> c = disk_journal (view w))" for e
      using closing [of fd w2] trans [OF u2(1)] w1(1) w2(1) by auto
    show ?thesis
    proof (cases "\<exists>st. s = Inr st \<and> private_file S st \<and> \<not> st_size st < 0 \<and> \<not> nat (st_size st) > MaxJournalBytes")
      case False
      then show ?thesis
        using r Inr s fail by (cases s) (auto simp: OperationJournalRead_def)
    next
      case True
      then obtain st where st: "s = Inr st" "private_file S st" "\<not> st_size st < 0"
        "\<not> nat (st_size st) > MaxJournalBytes" by auto
      have "read_law S dir view interrupts" using laws by blast
      from read_loop_spec [OF this u2(2), of "[]"] obtain t w3 where
        w3: "read_loop S fd [] w2 = Some (t, w3)" "interrupts w3 \<le> interrupts w2" "untouched_journal view w2 w3"
        "\<And>d. t = Inr d \<Longrightarrow> d = c" by auto
      have eq: "OperationJournalRead S dir w = (case t of
            Inl e \<Rightarrow> Some (Inl e, CloseNoThrow S fd w3)
          | Inr contents \<Rightarrow> (case sys_close S fd w3 of
                (Inl errno, w) \<Rightarrow> Some (Inl (OperationJournalSystemFailure JE_JournalReadFailed errno), w)
              | (Inr _, w) \<Rightarrow> Some (Inr (Some contents), w)))"
        using r Inr s st w3(1) by (simp add: OperationJournalRead_def)
      note u3 = trans [OF u2(1) w3(3)]
      show ?thesis
      proof (cases t)
        case (Inl e)
        then show ?thesis
          unfolding eq using closing [of fd w3] trans [OF u3] w1(1) w2(1) w3(2) by auto
      next
        case (Inr d)
        obtain v w4 where w4: "sys_close S fd w3 = (v, w4)" by (cases "sys_close S fd w3")
        then have "interrupts w4 \<le> interrupts w3" "untouched_journal view w3 w4"
          using laws by (simp_all add: close_law_def untouched_journal_def)
        then show ?thesis
          unfolding eq using Inr w4 trans [OF u3] w1(1) w2(1) w3(2) w3(4) [OF Inr] c(1) by (cases v) auto
      qed
    qed
  qed
qed

end
