(* ===== verification/JournalDisk.thy ===== *)
theory JournalDisk
  imports JournalStore
begin

text \<open>
  Properties of the journal's file: which parent paths are accepted, and that publishing a snapshot is
  atomic. A directory in memory satisfies what \<open>posix_ok\<close> asks of the system.
\<close>

section \<open>Parent paths\<close>

definition plain_component :: "bytes \<Rightarrow> bool" where
  "plain_component c \<longleftrightarrow> c \<noteq> [] \<and> c \<noteq> ''.'' \<and> c \<noteq> ''..'' \<and> CHR ''/'' \<notin> set c"

definition path_of_components :: "bytes list \<Rightarrow> bytes" where
  "path_of_components cs = concat (map (\<lambda>c. CHR ''/'' # c) cs)"

declare components.simps [simp del]

lemma components_Nil [simp]: "components [] = []"
  by (subst components.simps) simp

lemma components_last: "c \<noteq> [] \<Longrightarrow> CHR ''/'' \<notin> set c \<Longrightarrow> components c = [c]"
proof -
  assume c: "c \<noteq> []" "CHR ''/'' \<notin> set c"
  then have "takeWhile (\<lambda>x. x \<noteq> CHR ''/'') c = c" "dropWhile (\<lambda>x. x \<noteq> CHR ''/'') c = []"
    by (auto simp: takeWhile_eq_all_conv dropWhile_eq_Nil_conv)
  with c show ?thesis by (subst components.simps) (simp add: Let_def)
qed

lemma components_Cons: "CHR ''/'' \<notin> set c \<Longrightarrow> components (c @ CHR ''/'' # rest) = c # components rest"
proof -
  assume c: "CHR ''/'' \<notin> set c"
  then have all: "\<forall>x \<in> set c. x \<noteq> CHR ''/''" by auto
  then have "takeWhile (\<lambda>x. x \<noteq> CHR ''/'') (c @ CHR ''/'' # rest) = c"
    "dropWhile (\<lambda>x. x \<noteq> CHR ''/'') (c @ CHR ''/'' # rest) = CHR ''/'' # rest"
    by (simp_all add: takeWhile_append2 dropWhile_append2)
  then show ?thesis by (subst components.simps) (simp add: Let_def)
qed

lemma components_path:
  "cs \<noteq> [] \<Longrightarrow> list_all plain_component cs \<Longrightarrow> components (tl (path_of_components cs)) = cs"
proof (induction cs)
  case (Cons c cs)
  show ?case
  proof (cases cs)
    case Nil
    with Cons.prems show ?thesis by (simp add: path_of_components_def plain_component_def components_last)
  next
    case (Cons d ds)
    then have "path_of_components cs = CHR ''/'' # tl (path_of_components cs)" by (simp add: path_of_components_def)
    moreover have "tl (path_of_components (c # cs)) = c @ path_of_components cs" by (simp add: path_of_components_def)
    ultimately have "tl (path_of_components (c # cs)) = c @ CHR ''/'' # tl (path_of_components cs)" by simp
    then show ?thesis
      using Cons Cons.IH Cons.prems by (simp add: components_Cons plain_component_def)
  qed
qed simp

text \<open>The other way round: the components make up the path, as it does not end in a slash.\<close>

lemma path_components:
  assumes "rest \<noteq> []" "last rest \<noteq> CHR ''/''"
  shows "path_of_components (components rest) = CHR ''/'' # rest \<and> list_all (\<lambda>c. CHR ''/'' \<notin> set c) (components rest)
    \<and> components rest \<noteq> []"
  using assms
proof (induction "length rest" arbitrary: rest rule: less_induct)
  case less
  show ?case
  proof (cases "CHR ''/'' \<in> set rest")
    case False
    with less.prems show ?thesis by (simp add: components_last path_of_components_def)
  next
    case True
    then obtain c rest' where c: "rest = c @ CHR ''/'' # rest'" "CHR ''/'' \<notin> set c" by (metis split_list_first)
    with less.prems have "rest' \<noteq> []" "last rest' \<noteq> CHR ''/''" by (auto split: if_splits)
    with less.hyps [of rest'] c show ?thesis by (simp add: components_Cons path_of_components_def)
  qed
qed

lemma path_of_components_last:
  "cs \<noteq> [] \<Longrightarrow> list_all plain_component cs \<Longrightarrow> last (path_of_components cs) \<noteq> CHR ''/'' \<and> length (path_of_components cs) > 1"
proof (induction cs rule: rev_induct)
  case (snoc c cs)
  then have c: "c \<noteq> []" "CHR ''/'' \<notin> set c" by (simp_all add: plain_component_def)
  then have "last c \<noteq> CHR ''/''" by (metis last_in_set)
  with c(1) show ?case by (cases c) (auto simp: path_of_components_def)
qed simp

text \<open>
  The journal is only opened at a normalised absolute path: the root, or components that are not
  empty, not \<open>.\<close> and not \<open>..\<close>, each behind one slash, with nothing behind the last.
\<close>

theorem ValidParentPath_normal:
  "OperationJournalValidParentPath path \<longleftrightarrow>
     path = ''/'' \<or> (\<exists>cs. cs \<noteq> [] \<and> list_all plain_component cs \<and> path = path_of_components cs)"
proof
  assume valid: "OperationJournalValidParentPath path"
  then obtain rest where path: "path = CHR ''/'' # rest"
    by (cases path) (auto simp: OperationJournalValidParentPath_def split: if_splits)
  show "path = ''/'' \<or> (\<exists>cs. cs \<noteq> [] \<and> list_all plain_component cs \<and> path = path_of_components cs)"
  proof (cases "rest = []")
    case False
    with valid path have "last rest \<noteq> CHR ''/''"
      and ok: "list_all (\<lambda>c. c \<noteq> [] \<and> c \<noteq> ''.'' \<and> c \<noteq> ''..'') (components rest)"
      by (auto simp: OperationJournalValidParentPath_def split: if_splits)
    with path_components [OF False] have cs: "path = path_of_components (components rest)" "components rest \<noteq> []"
      and "list_all (\<lambda>c. CHR ''/'' \<notin> set c) (components rest)" by (simp_all add: path)
    with ok have "list_all plain_component (components rest)" by (simp add: list_all_iff plain_component_def)
    with cs show ?thesis by blast
  qed (simp add: path)
next
  assume "path = ''/'' \<or> (\<exists>cs. cs \<noteq> [] \<and> list_all plain_component cs \<and> path = path_of_components cs)"
  then show "OperationJournalValidParentPath path"
  proof
    assume "\<exists>cs. cs \<noteq> [] \<and> list_all plain_component cs \<and> path = path_of_components cs"
    then obtain cs where cs: "cs \<noteq> []" "list_all plain_component cs" "path = path_of_components cs" by blast
    have "hd path = CHR ''/''" using cs(1,3) by (cases cs) (simp_all add: path_of_components_def)
    moreover have "path \<noteq> []" using cs(1,3) by (cases cs) (simp_all add: path_of_components_def)
    moreover have "list_all (\<lambda>c. c \<noteq> [] \<and> c \<noteq> ''.'' \<and> c \<noteq> ''..'') (components (tl path))"
      using components_path [OF cs(1,2)] cs(2,3) by (simp add: list_all_iff plain_component_def)
    ultimately show ?thesis
      using path_of_components_last [OF cs(1,2)] cs(3) by (simp add: OperationJournalValidParentPath_def)
  qed (simp add: OperationJournalValidParentPath_def)
qed

section \<open>Atomicity\<close>

text \<open>
  C17: publishing a snapshot always returns, and is atomic: on success the journal's file holds the
  encoded snapshot and nothing else can be found after a crash; a failure that is not marked as
  committed leaves the file and what a crash may leave as they were; and after a failure that is
  marked, both are the old contents or the new, never anything in between.
\<close>

theorem Persist_atomic:
  assumes "posix_ok S dir view interrupts"
  shows "\<exists>r committed w'. OperationJournalPersist J S dir entries n w = Some (r, committed, w')
    \<and> (r = Inr () \<longrightarrow> committed) \<and> (\<not> committed \<longrightarrow> untouched_journal view w w')
    \<and> (committed \<longrightarrow> (\<exists>encoded. OperationJournalEncode J entries n = Inr encoded
         \<and> disk_journal (view w') \<in> {disk_journal (view w), Some encoded}
         \<and> disk_crash (view w') \<subseteq> insert (Some encoded) (disk_crash (view w))
         \<and> (r = Inr () \<longrightarrow> disk_journal (view w') = Some encoded \<and> disk_crash (view w') = {Some encoded})))"
  using Persist_spec [OF assms, of J entries n w] by (elim ex_forward conjE) (intro conjI; assumption)

section \<open>A directory in memory\<close>

text \<open>
  The state of the world is the disk itself; the temporary file gets descriptor 5, the journal 6,
  directories 3 and the lock 7. Every call succeeds where it makes sense.
\<close>

definition mem_open_at :: "int \<Rightarrow> bytes \<Rightarrow> open_flags \<Rightarrow> disk \<Rightarrow> (int + int) \<times> disk" where
  "mem_open_at dir name flags d = (case flags of
      Open_CreateExclusive \<Rightarrow> if disk_temps d name \<noteq> None then (Inl EEXIST, d) else (Inr 5, open_writer 5 name d)
    | Open_Read \<Rightarrow> (case disk_journal d of None \<Rightarrow> (Inl ENOENT, d)
        | Some c \<Rightarrow> (Inr 6, d\<lparr>disk_readers := (disk_readers d)(6 \<mapsto> c)\<rparr>))
    | Open_Directory \<Rightarrow> (Inr 3, d)
    | Open_Lock \<Rightarrow> (Inr 7, d))"

definition mem_read :: "int \<Rightarrow> nat \<Rightarrow> disk \<Rightarrow> (int + bytes) \<times> disk" where
  "mem_read fd n d = (case disk_readers d fd of None \<Rightarrow> (Inl EIO, d)
     | Some rest \<Rightarrow> (Inr (take n rest), d\<lparr>disk_readers := (disk_readers d)(fd \<mapsto> drop n rest)\<rparr>))"

definition mem_write :: "int \<Rightarrow> bytes \<Rightarrow> disk \<Rightarrow> (int + nat) \<times> disk" where
  "mem_write fd bs d = (case disk_writers d fd of None \<Rightarrow> (Inl EIO, d)
     | Some name \<Rightarrow> (case disk_temps d name of None \<Rightarrow> (Inl EIO, d)
       | Some (c, s) \<Rightarrow> (Inr (length bs), put_temp name (c @ bs, False) d)))"

definition mem_fsync :: "int \<Rightarrow> disk \<Rightarrow> (int + unit) \<times> disk" where
  "mem_fsync fd d = (if fd = 3 then (Inr (), d\<lparr>disk_crash := {disk_journal d}\<rparr>)
     else case disk_writers d fd of None \<Rightarrow> (Inl EIO, d)
     | Some name \<Rightarrow> (case disk_temps d name of None \<Rightarrow> (Inl EIO, d)
       | Some (c, s) \<Rightarrow> (Inr (), put_temp name (c, True) d)))"

definition mem_rename :: "int \<Rightarrow> bytes \<Rightarrow> int \<Rightarrow> bytes \<Rightarrow> disk \<Rightarrow> (int + unit) \<times> disk" where
  "mem_rename dir name dir' name' d = (case disk_temps d name of None \<Rightarrow> (Inl ENOENT, d)
     | Some (c, s) \<Rightarrow> (Inr (), d\<lparr>disk_journal := Some c, disk_crash := insert (Some c) (disk_crash d),
         disk_temps := (disk_temps d)(name := None)\<rparr>))"

definition mem_stat :: "int \<Rightarrow> stat" where
  "mem_stat fd = \<lparr>st_mode = (if fd = 3 then 16384 + 448 else 32768 + 384), st_nlink = 1, st_uid = 501,
     st_size = 0, st_dev = 1, st_ino = 2\<rparr>"

definition mem_syscalls :: "disk Syscalls" where
  "mem_syscalls = \<lparr>sys_open = (\<lambda>_ _ d. (Inr 3, d)), sys_open_at = mem_open_at, sys_read = mem_read,
     sys_write = mem_write, sys_fsync = mem_fsync, sys_fstat = (\<lambda>fd d. (Inr (mem_stat fd), d)),
     sys_flock = (\<lambda>_ d. (Inr (), d)), sys_rename_at = mem_rename,
     sys_close = (\<lambda>fd d. (Inr (), close_fd fd d)), sys_random_bytes = (\<lambda>n d. (Some (replicate n CHR 0x00), d)),
     sys_geteuid = 501, sys_clock = (\<lambda>d. (9, d))\<rparr>"

lemma mem_posix: "posix_ok mem_syscalls 3 id (\<lambda>_. 0)"
  unfolding posix_ok_def
proof (intro conjI)
  show "random_law mem_syscalls 3 id (\<lambda>_. 0)" by (auto simp: random_law_def mem_syscalls_def)
  show "create_law mem_syscalls 3 id (\<lambda>_. 0)"
    by (auto simp: create_law_def mem_syscalls_def mem_open_at_def split: if_splits)
  show "write_law mem_syscalls 3 id (\<lambda>_. 0)" by (auto simp: write_law_def mem_syscalls_def mem_write_def)
  show "fsync_law mem_syscalls 3 id (\<lambda>_. 0)" by (auto simp: fsync_law_def mem_syscalls_def mem_fsync_def)
  show "fsync_directory_law mem_syscalls 3 id (\<lambda>_. 0)"
    by (auto simp: fsync_directory_law_def mem_syscalls_def mem_fsync_def)
  show "close_law mem_syscalls 3 id (\<lambda>_. 0)" by (auto simp: close_law_def mem_syscalls_def)
  show "rename_law mem_syscalls 3 id (\<lambda>_. 0)"
    by (auto simp: rename_law_def mem_syscalls_def mem_rename_def renamed_def)
  show "open_law mem_syscalls 3 id (\<lambda>_. 0)"
    by (auto simp: open_law_def mem_syscalls_def mem_open_at_def ENOENT_def split: option.splits)
  show "read_law mem_syscalls 3 id (\<lambda>_. 0)"
    by (auto simp: read_law_def mem_syscalls_def mem_read_def intro!: exI [of _ "drop _ _"])
qed

text \<open>An empty directory.\<close>

definition mem_empty :: disk where
  "mem_empty = \<lparr>disk_journal = None, disk_crash = {None}, disk_temps = (\<lambda>_. None),
     disk_writers = (\<lambda>_. None), disk_readers = (\<lambda>_. None)\<rparr>"

theorem Persist_atomic_witness:
  "\<exists>r committed w'. OperationJournalPersist sample_json mem_syscalls 3 [sample_entry] 2 mem_empty = Some (r, committed, w')
    \<and> (committed \<longrightarrow> disk_journal w' \<in> {None, Some (write_json sample_document)})
    \<and> (r = Inr () \<longrightarrow> disk_crash w' = {Some (write_json sample_document)})"
  using Persist_atomic [OF mem_posix, of sample_json "[sample_entry]" 2 mem_empty]
  by (auto simp: Encode_sample mem_empty_def)

end
