(* ===== verification/OperationJournal.thy ===== *)
theory OperationJournal
  imports JournalDisk
begin

text \<open>
  The class \<open>OperationJournal\<close> of \<open>OperationJournal.cpp\<close>: the state behind its handle, reservations
  and receipts, and one definition per operation. Every operation holds the mutex from start to end,
  so it is one step on the state \<open>Impl\<close> and the world. A weak pointer to the state is the number of
  the instance it was made from, or \<open>None\<close> when it was reset or the instance is gone; it locks to this
  journal exactly when the numbers are equal. A receipt passed by reference is returned with the
  flag that the operation sets.
\<close>

section \<open>State\<close>

record Impl =
  j_instance :: nat
  j_entries :: "OperationJournalEntry list"
  j_next_operation_sequence :: u64
  j_next_reservation_nonce :: u64
  j_reservations :: "u64 \<Rightarrow> u64 option"
  j_parent_fd :: int
  j_lock_fd :: int
  j_parent_device :: u64
  j_parent_inode :: u64
  j_usable :: bool

record AdmissionReservation =
  res_OperationId :: OperationId
  res_Nonce :: u64
  res_Impl :: "nat option"
  res_Consumed :: bool

record OperationJournalAdmissionReceipt =
  adm_JournalInstance :: "nat option"
  adm_OperationId :: OperationId
  adm_Plan :: OperationPlan
  adm_Consumed :: bool

record OperationJournalRunReceipt =
  run_JournalInstance :: "nat option"
  run_OperationId :: OperationId
  run_Plan :: OperationPlan
  run_Consumed :: bool

section \<open>Opening\<close>

definition interrupt :: "int \<Rightarrow> OperationJournalEntry \<Rightarrow> OperationJournalEntry" where
  "interrupt now e =
     (if entry_state e = State_Admitted \<or> entry_state e = State_Running
      then e\<lparr>entry_state := State_Interrupted, updated_at := now\<rparr> else e)"

definition unfinished :: "OperationJournalEntry \<Rightarrow> bool" where
  "unfinished e \<longleftrightarrow> entry_state e = State_Admitted \<or> entry_state e = State_Running"

text \<open>The descriptors of a state that is given up: the lock is closed first.\<close>

definition abandon :: "'w Syscalls \<Rightarrow> int \<Rightarrow> int \<Rightarrow> 'w \<Rightarrow> 'w" where
  "abandon S lock_fd parent_fd w = CloseNoThrow S parent_fd (CloseNoThrow S lock_fd w)"

definition owned_directory :: "'w Syscalls \<Rightarrow> stat \<Rightarrow> bool" where
  "owned_directory S st \<longleftrightarrow> S_ISDIR (st_mode st) \<and> st_uid st = sys_geteuid S \<and> st_mode st AND 18 = 0"

definition lock_filename :: bytes where "lock_filename = ''operation-journal-v1.lock''"

text \<open>The lock file is opened in the parent, checked and locked; every failure closes what is open.\<close>

definition open_lock :: "'w Syscalls \<Rightarrow> int \<Rightarrow> 'w \<Rightarrow> (OperationJournalError + int) \<times> 'w" where
  "open_lock S parent_fd w =
     (case sys_open_at S parent_fd lock_filename Open_Lock w of
        (Inl errno, w) \<Rightarrow>
          (Inl (OperationJournalSystemFailure JE_LockOpenFailed errno), CloseNoThrow S parent_fd w)
      | (Inr lock_fd, w) \<Rightarrow> (case sys_fstat S lock_fd w of
          (Inl errno, w) \<Rightarrow>
            (Inl (OperationJournalSystemFailure JE_LockOpenFailed errno), abandon S lock_fd parent_fd w)
        | (Inr st, w) \<Rightarrow>
            if \<not> private_file S st
            then (Inl (OperationJournalSystemFailure JE_LockOpenFailed EPERM), abandon S lock_fd parent_fd w)
            else (case sys_flock S lock_fd w of
              (Inl errno, w) \<Rightarrow>
                (Inl (OperationJournalSystemFailure JE_JournalAlreadyOpen errno), abandon S lock_fd parent_fd w)
            | (Inr _, w) \<Rightarrow> (Inr lock_fd, w))))"

text \<open>The persisted journal, or a new one; the result says whether a migration is due.\<close>

definition load_journal ::
  "Json \<Rightarrow> 'w Syscalls \<Rightarrow> int \<Rightarrow> 'w \<Rightarrow> ((OperationJournalError + OperationJournalDecoded) \<times> 'w) option" where
  "load_journal J S parent_fd w =
     Option.bind (OperationJournalRead S parent_fd w) (\<lambda>(persisted, w). case persisted of
       Inl e \<Rightarrow> Some (Inl e, w)
     | Inr (Some text) \<Rightarrow> Some (OperationJournalDecode J text, w)
     | Inr None \<Rightarrow> Option.bind (OperationJournalPersist J S parent_fd [] 1 w) (\<lambda>(created, _, w). case created of
         Inl e \<Rightarrow> Some (Inl e, w)
       | Inr _ \<Rightarrow> Some (Inr \<lparr>decoded_entries = [], decoded_next_operation_sequence = 1,
           decoded_requires_migration = False\<rparr>, w)))"

text \<open>Entries that were admitted or running are interrupted, which is stored before the handle is made.\<close>

definition settle_journal ::
  "Json \<Rightarrow> 'w Syscalls \<Rightarrow> int \<Rightarrow> OperationJournalDecoded \<Rightarrow> 'w \<Rightarrow>
   ((OperationJournalError + OperationJournalEntry list) \<times> 'w) option" where
  "settle_journal J S parent_fd d w = (case sys_clock S w of (now, w) \<Rightarrow>
     if decoded_requires_migration d \<or> list_ex unfinished (decoded_entries d) then
       let interrupted = map (interrupt now) (decoded_entries d) in
       Option.bind (OperationJournalPersist J S parent_fd interrupted (decoded_next_operation_sequence d) w)
         (\<lambda>(stored, _, w). case stored of Inl e \<Rightarrow> Some (Inl e, w) | Inr _ \<Rightarrow> Some (Inr interrupted, w))
     else Some (Inr (decoded_entries d), w))"

definition OperationJournal_Open ::
  "Json \<Rightarrow> 'w Syscalls \<Rightarrow> nat \<Rightarrow> bytes \<Rightarrow> 'w \<Rightarrow> ((OperationJournalError + Impl) \<times> 'w) option" where
  "OperationJournal_Open J S inst path w =
     (case OperationJournalOpenParent S path w of
        (Inl e, w) \<Rightarrow> Some (Inl e, w)
      | (Inr parent_fd, w) \<Rightarrow> (case sys_fstat S parent_fd w of
          (Inl errno, w) \<Rightarrow>
            Some (Inl (OperationJournalSystemFailure JE_ParentOpenFailed errno), CloseNoThrow S parent_fd w)
        | (Inr st, w) \<Rightarrow>
            if \<not> owned_directory S st
            then Some (Inl (OperationJournalSystemFailure JE_ParentOpenFailed EPERM), CloseNoThrow S parent_fd w)
            else (case open_lock S parent_fd w of
              (Inl e, w) \<Rightarrow> Some (Inl e, w)
            | (Inr lock_fd, w) \<Rightarrow>
                Option.bind (load_journal J S parent_fd w) (\<lambda>(loaded, w). case loaded of
                  Inl e \<Rightarrow> Some (Inl e, abandon S lock_fd parent_fd w)
                | Inr d \<Rightarrow> Option.bind (settle_journal J S parent_fd d w) (\<lambda>(settled, w). case settled of
                    Inl e \<Rightarrow> Some (Inl e, abandon S lock_fd parent_fd w)
                  | Inr entries \<Rightarrow> Some (Inr \<lparr>j_instance = inst, j_entries = entries,
                      j_next_operation_sequence = decoded_next_operation_sequence d,
                      j_next_reservation_nonce = 1, j_reservations = (\<lambda>_. None), j_parent_fd = parent_fd,
                      j_lock_fd = lock_fd, j_parent_device = st_dev st, j_parent_inode = st_ino st,
                      j_usable = True\<rparr>, w))))))"

section \<open>Reservations\<close>

definition ReserveOperationId :: "Impl \<Rightarrow> (OperationJournalError + AdmissionReservation) \<times> Impl" where
  "ReserveOperationId j =
     (if \<not> j_usable j then (Inl (OperationJournalFailure JE_JournalUnusable), j)
      else if j_next_operation_sequence j = 0 \<or> j_next_operation_sequence j = - 1 \<or> j_next_reservation_nonce j = 0
      then (Inl (OperationJournalFailure JE_ResourceLimitExceeded), j)
      else let sequence = j_next_operation_sequence j; nonce = j_next_reservation_nonce j;
               j = j\<lparr>j_next_operation_sequence := sequence + 1, j_next_reservation_nonce := nonce + 1\<rparr> in
        if j_reservations j sequence \<noteq> None then (Inl (OperationJournalFailure JE_JournalUnusable), j)
        else (Inr \<lparr>res_OperationId = sequence, res_Nonce = nonce, res_Impl = Some (j_instance j),
                res_Consumed = False\<rparr>,
              j\<lparr>j_reservations := (j_reservations j)(sequence \<mapsto> nonce)\<rparr>))"

definition Release :: "AdmissionReservation \<Rightarrow> Impl \<Rightarrow> AdmissionReservation \<times> Impl" where
  "Release r j =
     (if res_Consumed r then (r, j)
      else let sequence = OperationJournalOperationIdSequence (res_OperationId r);
               j = (if res_Impl r = Some (j_instance j) \<and> j_reservations j sequence = Some (res_Nonce r)
                    then j\<lparr>j_reservations := (j_reservations j)(sequence := None)\<rparr> else j) in
        (r\<lparr>res_Consumed := True, res_Impl := None\<rparr>, j))"

section \<open>Publishing a candidate\<close>

text \<open>
  What all operations that change the journal end with: the candidate is persisted, and becomes the
  state when that succeeded. A failure past the renaming makes the journal unusable.
\<close>

definition publish ::
  "(OperationJournalEntry list \<Rightarrow> u64 \<Rightarrow> 'w \<Rightarrow> ((OperationJournalError + unit) \<times> bool \<times> 'w) option) \<Rightarrow>
   OperationJournalEntry list \<Rightarrow> u64 \<Rightarrow> Impl \<Rightarrow> 'w \<Rightarrow>
   ((OperationJournalError + unit) \<times> bool \<times> Impl \<times> 'w) option" where
  "publish persist candidate next_operation_sequence j w =
     Option.bind (persist candidate next_operation_sequence w) (\<lambda>(stored, rename_committed, w). Some (case stored of
       Inl e \<Rightarrow> (Inl e, rename_committed, if rename_committed then j\<lparr>j_usable := False\<rparr> else j, w)
     | Inr _ \<Rightarrow> (Inr (), rename_committed, j\<lparr>j_entries := candidate\<rparr>, w)))"

definition admitted_entry :: "OperationId \<Rightarrow> OperationPlan \<Rightarrow> int \<Rightarrow> OperationJournalEntry" where
  "admitted_entry i p now =
     \<lparr>operation_id = i, entry_plan = p, entry_state = State_Admitted, updated_at = now, item_results = []\<rparr>"

definition has_operation :: "OperationJournalEntry list \<Rightarrow> OperationId \<Rightarrow> bool" where
  "has_operation entries i \<longleftrightarrow> list_ex (\<lambda>e. operation_id e = i) entries"

definition has_plan :: "OperationJournalEntry list \<Rightarrow> OperationPlan \<Rightarrow> bool" where
  "has_plan entries p \<longleftrightarrow> list_ex (\<lambda>e. plan_Id (entry_plan e) = plan_Id p) entries"

section \<open>Admission\<close>

definition AdmitLocked ::
  "Json \<Rightarrow> 'w Syscalls \<Rightarrow> AdmissionReservation \<Rightarrow> OperationPlan \<Rightarrow> Impl \<Rightarrow> 'w \<Rightarrow>
   ((OperationJournalError + OperationJournalAdmissionReceipt) \<times> AdmissionReservation \<times> Impl \<times> 'w) option" where
  "AdmitLocked J S r p j w =
     (if \<not> j_usable j then Some (Inl (OperationJournalFailure JE_JournalUnusable), r, j, w)
      else if res_Consumed r \<or> res_Impl r \<noteq> Some (j_instance j) \<or>
         j_reservations j (res_OperationId r) \<noteq> Some (res_Nonce r)
      then Some (Inl (OperationJournalFailure JE_InvalidAdmissionReceipt), r, j, w)
      else if length (j_entries j) \<ge> MaxEntries
      then Some (Inl (OperationJournalFailure JE_ResourceLimitExceeded), r, j, w)
      else if has_operation (j_entries j) (res_OperationId r)
      then Some (Inl (OperationJournalFailure JE_DuplicateOperationId), r, j, w)
      else if has_plan (j_entries j) p
      then Some (Inl (OperationJournalFailure JE_PlanAlreadyAdmitted), r, j, w)
      else case sys_clock S w of (now, w) \<Rightarrow>
        Option.bind (publish (OperationJournalPersist J S (j_parent_fd j))
            (j_entries j @ [admitted_entry (res_OperationId r) p now]) (j_next_operation_sequence j) j w)
          (\<lambda>(stored, _, j, w). Some (case stored of
             Inl e \<Rightarrow> (Inl e, r, j, w)
           | Inr _ \<Rightarrow>
               (Inr \<lparr>adm_JournalInstance = Some (j_instance j), adm_OperationId = res_OperationId r,
                  adm_Plan = p, adm_Consumed = False\<rparr>,
                r\<lparr>res_Consumed := True, res_Impl := None\<rparr>,
                j\<lparr>j_reservations := (j_reservations j)(res_OperationId r := None)\<rparr>, w))))"

text \<open>
  The overload without a reservation: the reservation is a local object, which is released when the
  function returns.
\<close>

definition Admit ::
  "Json \<Rightarrow> 'w Syscalls \<Rightarrow> OperationPlan \<Rightarrow> Impl \<Rightarrow> 'w \<Rightarrow>
   ((OperationJournalError + OperationJournalAdmissionReceipt) \<times> Impl \<times> 'w) option" where
  "Admit J S p j w = (case ReserveOperationId j of
      (Inl e, j) \<Rightarrow> Some (Inl e, j, w)
    | (Inr r, j) \<Rightarrow> Option.bind (AdmitLocked J S r p j w) (\<lambda>(result, r, j, w).
        Some (result, snd (Release r j), w)))"

definition AdmitWithOperationIdForTesting ::
  "Json \<Rightarrow> 'w Syscalls \<Rightarrow> OperationId \<Rightarrow> OperationPlan \<Rightarrow> Impl \<Rightarrow> 'w \<Rightarrow>
   ((OperationJournalError + OperationJournalAdmissionReceipt) \<times> Impl \<times> 'w) option" where
  "AdmitWithOperationIdForTesting J S i p j w =
     (if \<not> j_usable j then Some (Inl (OperationJournalFailure JE_JournalUnusable), j, w)
      else if length (j_entries j) \<ge> MaxEntries
      then Some (Inl (OperationJournalFailure JE_ResourceLimitExceeded), j, w)
      else if has_operation (j_entries j) i
      then Some (Inl (OperationJournalFailure JE_DuplicateOperationId), j, w)
      else if has_plan (j_entries j) p
      then Some (Inl (OperationJournalFailure JE_PlanAlreadyAdmitted), j, w)
      else if i = - 1 then Some (Inl (OperationJournalFailure JE_ResourceLimitExceeded), j, w)
      else let durable_next_sequence = max (j_next_operation_sequence j) (i + 1) in
        case sys_clock S w of (now, w) \<Rightarrow>
        Option.bind (publish (OperationJournalPersist J S (j_parent_fd j))
            (j_entries j @ [admitted_entry i p now]) durable_next_sequence j w)
          (\<lambda>(stored, _, j, w). Some (case stored of
             Inl e \<Rightarrow> (Inl e, j, w)
           | Inr _ \<Rightarrow>
               (Inr \<lparr>adm_JournalInstance = Some (j_instance j), adm_OperationId = i, adm_Plan = p,
                  adm_Consumed = False\<rparr>,
                j\<lparr>j_next_operation_sequence := durable_next_sequence\<rparr>, w))))"

section \<open>Lifecycle\<close>

text \<open>\<open>std::ranges::find_if\<close>, with the index of the element in place of an iterator.\<close>

fun find_if :: "('a \<Rightarrow> bool) \<Rightarrow> 'a list \<Rightarrow> nat option" where
  "find_if P [] = None"
| "find_if P (x # xs) = (if P x then Some 0 else map_option Suc (find_if P xs))"

text \<open>The entry a receipt is for, when it is in the state that the receipt has authority over.\<close>

definition entry_for ::
  "OperationJournalState \<Rightarrow> OperationId \<Rightarrow> OperationPlan \<Rightarrow> OperationJournalEntry list \<Rightarrow> nat option" where
  "entry_for s i p entries =
     (case find_if (\<lambda>e. operation_id e = i \<and> plan_Id (entry_plan e) = plan_Id p) entries of
        None \<Rightarrow> None
      | Some k \<Rightarrow> if entry_state (entries ! k) \<noteq> s \<or> operation_id (entries ! k) \<noteq> i \<or> entry_plan (entries ! k) \<noteq> p
          then None else Some k)"

definition ValidateAdmissionReceiptForOrchestration ::
  "OperationJournalAdmissionReceipt \<Rightarrow> Impl \<Rightarrow> OperationJournalError + unit" where
  "ValidateAdmissionReceiptForOrchestration r j =
     (if \<not> j_usable j then Inl (OperationJournalFailure JE_JournalUnusable)
      else if adm_Consumed r then Inl (OperationJournalFailure JE_AdmissionReceiptAlreadyConsumed)
      else if adm_JournalInstance r \<noteq> Some (j_instance j) \<or>
         entry_for State_Admitted (adm_OperationId r) (adm_Plan r) (j_entries j) = None
      then Inl (OperationJournalFailure JE_InvalidAdmissionReceipt) else Inr ())"

definition TransitionToRunning ::
  "Json \<Rightarrow> 'w Syscalls \<Rightarrow> OperationJournalAdmissionReceipt \<Rightarrow> Impl \<Rightarrow> 'w \<Rightarrow>
   ((OperationJournalError + OperationJournalRunReceipt) \<times> OperationJournalAdmissionReceipt \<times> Impl \<times> 'w) option" where
  "TransitionToRunning J S r j w =
     (if \<not> j_usable j then Some (Inl (OperationJournalFailure JE_JournalUnusable), r, j, w)
      else if adm_Consumed r
      then Some (Inl (OperationJournalFailure JE_AdmissionReceiptAlreadyConsumed), r, j, w)
      else if adm_JournalInstance r \<noteq> Some (j_instance j)
      then Some (Inl (OperationJournalFailure JE_InvalidAdmissionReceipt), r, j, w)
      else case entry_for State_Admitted (adm_OperationId r) (adm_Plan r) (j_entries j) of
        None \<Rightarrow> Some (Inl (OperationJournalFailure JE_InvalidAdmissionReceipt), r, j, w)
      | Some k \<Rightarrow> (case sys_clock S w of (now, w) \<Rightarrow>
          Option.bind (publish (OperationJournalPersist J S (j_parent_fd j))
              ((j_entries j)[k := (j_entries j ! k)\<lparr>entry_state := State_Running, updated_at := now\<rparr>])
              (j_next_operation_sequence j) j w)
            (\<lambda>(stored, rename_committed, j, w). Some (case stored of
               Inl e \<Rightarrow> (Inl e, if rename_committed then r\<lparr>adm_Consumed := True\<rparr> else r, j, w)
             | Inr _ \<Rightarrow>
                 (Inr \<lparr>run_JournalInstance = Some (j_instance j), run_OperationId = adm_OperationId r,
                    run_Plan = adm_Plan r, run_Consumed = False\<rparr>,
                  r\<lparr>adm_Consumed := True\<rparr>, j, w)))))"

definition FinalizeAdmission ::
  "Json \<Rightarrow> 'w Syscalls \<Rightarrow> OperationJournalAdmissionReceipt \<Rightarrow> OperationJournalState \<Rightarrow> Impl \<Rightarrow> 'w \<Rightarrow>
   ((OperationJournalError + unit) \<times> OperationJournalAdmissionReceipt \<times> Impl \<times> 'w) option" where
  "FinalizeAdmission J S r terminal_state j w =
     (if \<not> j_usable j then Some (Inl (OperationJournalFailure JE_JournalUnusable), r, j, w)
      else if adm_Consumed r
      then Some (Inl (OperationJournalFailure JE_AdmissionReceiptAlreadyConsumed), r, j, w)
      else if adm_JournalInstance r \<noteq> Some (j_instance j)
      then Some (Inl (OperationJournalFailure JE_InvalidAdmissionReceipt), r, j, w)
      else if \<not> OperationJournalLegalTransition State_Admitted terminal_state
      then Some (Inl (OperationJournalFailure JE_InvalidTransition), r, j, w)
      else case entry_for State_Admitted (adm_OperationId r) (adm_Plan r) (j_entries j) of
        None \<Rightarrow> Some (Inl (OperationJournalFailure JE_InvalidAdmissionReceipt), r, j, w)
      | Some k \<Rightarrow> (case sys_clock S w of (now, w) \<Rightarrow>
          let e = (j_entries j ! k)\<lparr>entry_state := terminal_state, updated_at := now\<rparr> in
          if \<not> OperationJournalValidEntryLifecycle e
          then Some (Inl (OperationJournalFailure JE_InvalidTransition), r, j, w)
          else Option.bind (publish (OperationJournalPersist J S (j_parent_fd j)) ((j_entries j)[k := e])
              (j_next_operation_sequence j) j w)
            (\<lambda>(stored, rename_committed, j, w). Some (case stored of
               Inl e \<Rightarrow> (Inl e, if rename_committed then r\<lparr>adm_Consumed := True\<rparr> else r, j, w)
             | Inr _ \<Rightarrow> (Inr (), r\<lparr>adm_Consumed := True\<rparr>, j, w)))))"

definition total_results :: "OperationJournalEntry list \<Rightarrow> nat" where
  "total_results entries = sum_list (map (\<lambda>e. length (item_results e)) entries)"

text \<open>\<open>MaxItemResults - total_results\<close> is computed on \<open>size_t\<close>; a journal holds at most the maximum.\<close>

definition Finalize ::
  "Json \<Rightarrow> 'w Syscalls \<Rightarrow> OperationJournalRunReceipt \<Rightarrow> OperationJournalItemResult list \<Rightarrow>
   OperationJournalState \<Rightarrow> Impl \<Rightarrow> 'w \<Rightarrow>
   ((OperationJournalError + unit) \<times> OperationJournalRunReceipt \<times> Impl \<times> 'w) option" where
  "Finalize J S r results terminal_state j w =
     (if \<not> j_usable j then Some (Inl (OperationJournalFailure JE_JournalUnusable), r, j, w)
      else if run_Consumed r
      then Some (Inl (OperationJournalFailure JE_RunReceiptAlreadyConsumed), r, j, w)
      else if run_JournalInstance r \<noteq> Some (j_instance j)
      then Some (Inl (OperationJournalFailure JE_InvalidRunReceipt), r, j, w)
      else if \<not> OperationJournalLegalTransition State_Running terminal_state
      then Some (Inl (OperationJournalFailure JE_InvalidTransition), r, j, w)
      else case entry_for State_Running (run_OperationId r) (run_Plan r) (j_entries j) of
        None \<Rightarrow> Some (Inl (OperationJournalFailure JE_InvalidRunReceipt), r, j, w)
      | Some k \<Rightarrow>
          if item_results (j_entries j ! k) \<noteq> []
          then Some (Inl (OperationJournalFailure JE_InvalidTransition), r, j, w)
          else if \<not> OperationJournalValidOrderedItemResults (entry_plan (j_entries j ! k)) results
          then Some (Inl (OperationJournalFailure JE_InvalidItemResult), r, j, w)
          else if length results > MaxItemResults - total_results (j_entries j)
          then Some (Inl (OperationJournalFailure JE_ResourceLimitExceeded), r, j, w)
          else (case sys_clock S w of (now, w) \<Rightarrow>
            let e = (j_entries j ! k)\<lparr>item_results := results, entry_state := terminal_state, updated_at := now\<rparr> in
            if \<not> OperationJournalValidEntryLifecycle e
            then Some (Inl (OperationJournalFailure JE_InvalidTransition), r, j, w)
            else Option.bind (publish (OperationJournalPersist J S (j_parent_fd j)) ((j_entries j)[k := e])
                (j_next_operation_sequence j) j w)
              (\<lambda>(stored, rename_committed, j, w). Some (case stored of
                 Inl e \<Rightarrow> (Inl e, if rename_committed then r\<lparr>run_Consumed := True\<rparr> else r, j, w)
               | Inr _ \<Rightarrow> (Inr (), r\<lparr>run_Consumed := True\<rparr>, j, w)))))"

definition Finalize_one ::
  "Json \<Rightarrow> 'w Syscalls \<Rightarrow> OperationJournalRunReceipt \<Rightarrow> OperationJournalItemResult \<Rightarrow>
   OperationJournalState \<Rightarrow> Impl \<Rightarrow> 'w \<Rightarrow>
   ((OperationJournalError + unit) \<times> OperationJournalRunReceipt \<times> Impl \<times> 'w) option" where
  "Finalize_one J S r result terminal_state = Finalize J S r [result] terminal_state"

text \<open>The operations that address an entry by the identity of its plan.\<close>

definition Transition ::
  "Json \<Rightarrow> 'w Syscalls \<Rightarrow> bytes \<Rightarrow> OperationJournalState \<Rightarrow> Impl \<Rightarrow> 'w \<Rightarrow>
   ((OperationJournalError + unit) \<times> Impl \<times> 'w) option" where
  "Transition J S plan_id s j w =
     (if \<not> j_usable j then Some (Inl (OperationJournalFailure JE_JournalUnusable), j, w)
      else case find_if (\<lambda>e. plan_Id (entry_plan e) = plan_id) (j_entries j) of
        None \<Rightarrow> Some (Inl (OperationJournalFailure JE_PlanNotFound), j, w)
      | Some k \<Rightarrow>
          if \<not> OperationJournalLegalTransition (entry_state (j_entries j ! k)) s
          then Some (Inl (OperationJournalFailure JE_InvalidTransition), j, w)
          else (case sys_clock S w of (now, w) \<Rightarrow>
            let e = (j_entries j ! k)\<lparr>entry_state := s, updated_at := now\<rparr> in
            if \<not> OperationJournalValidEntryLifecycle e
            then Some (Inl (OperationJournalFailure JE_InvalidTransition), j, w)
            else Option.bind (publish (OperationJournalPersist J S (j_parent_fd j)) ((j_entries j)[k := e])
                (j_next_operation_sequence j) j w)
              (\<lambda>(stored, _, j, w). Some (stored, j, w))))"

text \<open>\<open>lower_bound\<close> on the results, which are ordered.\<close>

definition insert_result ::
  "OperationJournalItemResult \<Rightarrow> OperationJournalItemResult list \<Rightarrow> OperationJournalItemResult list" where
  "insert_result r rs = takeWhile (\<lambda>x. item_index x < item_index r) rs @ r #
     dropWhile (\<lambda>x. item_index x < item_index r) rs"

definition RecordItemResult ::
  "Json \<Rightarrow> 'w Syscalls \<Rightarrow> bytes \<Rightarrow> OperationJournalItemResult \<Rightarrow> Impl \<Rightarrow> 'w \<Rightarrow>
   ((OperationJournalError + unit) \<times> Impl \<times> 'w) option" where
  "RecordItemResult J S plan_id result j w =
     (if \<not> j_usable j then Some (Inl (OperationJournalFailure JE_JournalUnusable), j, w)
      else case find_if (\<lambda>e. plan_Id (entry_plan e) = plan_id) (j_entries j) of
        None \<Rightarrow> Some (Inl (OperationJournalFailure JE_PlanNotFound), j, w)
      | Some k \<Rightarrow> let e = j_entries j ! k in
          if entry_state e \<noteq> State_Running
          then Some (Inl (OperationJournalFailure JE_InvalidTransition), j, w)
          else if \<not> OperationJournalValidItemResult (entry_plan e) result \<or>
            list_ex (\<lambda>x. item_index x = item_index result) (item_results e)
          then Some (Inl (OperationJournalFailure JE_InvalidItemResult), j, w)
          else if total_results (j_entries j) \<ge> MaxItemResults
          then Some (Inl (OperationJournalFailure JE_ResourceLimitExceeded), j, w)
          else (case sys_clock S w of (now, w) \<Rightarrow>
            Option.bind (publish (OperationJournalPersist J S (j_parent_fd j))
                ((j_entries j)[k := e\<lparr>item_results := insert_result result (item_results e), updated_at := now\<rparr>])
                (j_next_operation_sequence j) j w)
              (\<lambda>(stored, _, j, w). Some (stored, j, w))))"

definition Snapshot :: "Impl \<Rightarrow> OperationJournalEntry list" where
  "Snapshot j = j_entries j"

definition StorageIdentityForCustody :: "Impl \<Rightarrow> u64 \<times> u64" where
  "StorageIdentityForCustody j = (j_parent_device j, j_parent_inode j)"

definition EBADF :: int where "EBADF = 9"

definition InspectPersistedReadOnly ::
  "Json \<Rightarrow> 'w Syscalls \<Rightarrow> int \<Rightarrow> 'w \<Rightarrow> ((OperationJournalError + OperationJournalEntry list) \<times> 'w) option" where
  "InspectPersistedReadOnly J S parent_fd w =
     (if parent_fd < 0 then Some (Inl (OperationJournalSystemFailure JE_ParentOpenFailed EBADF), w)
      else case sys_fstat S parent_fd w of
        (Inl errno, w) \<Rightarrow> Some (Inl (OperationJournalSystemFailure JE_ParentOpenFailed errno), w)
      | (Inr st, w) \<Rightarrow>
          if \<not> owned_directory S st
          then Some (Inl (OperationJournalSystemFailure JE_ParentOpenFailed EPERM), w)
          else Option.bind (OperationJournalRead S parent_fd w) (\<lambda>(persisted, w). Some (case persisted of
            Inl e \<Rightarrow> (Inl e, w)
          | Inr None \<Rightarrow> (Inl (OperationJournalSystemFailure JE_JournalOpenFailed ENOENT), w)
          | Inr (Some text) \<Rightarrow> (case OperationJournalDecode J text of
              Inl e \<Rightarrow> (Inl e, w) | Inr d \<Rightarrow> (Inr (decoded_entries d), w)))))"

end
