(* ===== verification/JournalLedger.thy ===== *)
theory JournalLedger
  imports OperationJournal
begin

text \<open>
  The ledger and its store. A ledger only grows: an entry keeps its identity and its plan, its state
  only moves forward, its evidence is not lost, and a terminal entry never changes (\<open>extends\<close>). The store is seen through
  the interface \<open>ledger_store\<close>: which ledgers the file, or what a crash leaves of it, can hold. It is
  interpreted by the snapshots of \<open>JournalStore\<close>.
\<close>

section \<open>Growing ledgers\<close>

definition rank :: "OperationJournalState \<Rightarrow> nat" where
  "rank s = (case s of State_Admitted \<Rightarrow> 0 | State_Running \<Rightarrow> 1 | State_Interrupted \<Rightarrow> 2 | _ \<Rightarrow> 3)"

definition entry_le :: "OperationJournalEntry \<Rightarrow> OperationJournalEntry \<Rightarrow> bool" where
  "entry_le e e' \<longleftrightarrow> operation_id e' = operation_id e \<and> entry_plan e' = entry_plan e
     \<and> rank (entry_state e) \<le> rank (entry_state e') \<and> (terminal (entry_state e) \<longrightarrow> e' = e)
     \<and> set (item_results e) \<subseteq> set (item_results e')"

definition extends :: "OperationJournalEntry list \<Rightarrow> OperationJournalEntry list \<Rightarrow> bool" where
  "extends es es' \<longleftrightarrow> length es \<le> length es' \<and> (\<forall>k < length es. entry_le (es ! k) (es' ! k))"

lemma entry_le_refl [simp]: "entry_le e e"
  by (simp add: entry_le_def)

lemma entry_le_trans: "entry_le a b \<Longrightarrow> entry_le b c \<Longrightarrow> entry_le a c"
  by (auto simp: entry_le_def)

lemma extends_refl [simp]: "extends es es"
  by (simp add: extends_def)

lemma extends_trans: "extends a b \<Longrightarrow> extends b c \<Longrightarrow> extends a c"
  unfolding extends_def by (metis entry_le_trans less_le_trans order_trans)

lemma extends_append: "extends es (es @ new)"
  by (simp add: extends_def nth_append)

lemma extends_update: "entry_le (es ! k) e \<Longrightarrow> extends es (es[k := e])"
  by (cases "k < length es") (auto simp: extends_def nth_list_update)

lemma LegalTransition_rank: "OperationJournalLegalTransition s t \<Longrightarrow> rank s < rank t"
  by (cases s) (auto simp: OperationJournalLegalTransition_def rank_def)

lemma entry_le_transition:
  "OperationJournalLegalTransition (entry_state e) s \<Longrightarrow> entry_le e (e\<lparr>entry_state := s, updated_at := t\<rparr>)"
  "OperationJournalLegalTransition (entry_state e) s \<Longrightarrow> item_results e = [] \<Longrightarrow>
     entry_le e (e\<lparr>item_results := rs, entry_state := s, updated_at := t\<rparr>)"
  using LegalTransition_rank [of "entry_state e" s] LegalTransition_terminal [of "entry_state e" s]
  by (simp_all add: entry_le_def)

lemma entry_le_running:
  "entry_state e = State_Admitted \<Longrightarrow> entry_le e (e\<lparr>entry_state := State_Running, updated_at := t\<rparr>)"
  "entry_state e = State_Running \<Longrightarrow> set (item_results e) \<subseteq> set rs \<Longrightarrow>
     entry_le e (e\<lparr>item_results := rs, updated_at := t\<rparr>)"
  by (simp_all add: entry_le_def rank_def terminal_def)

lemma entry_le_interrupt: "entry_le e (interrupt t e)"
  by (auto simp: entry_le_def interrupt_def rank_def terminal_def)

lemma ledger_append:
  assumes "ledger_ok es n" "entry_ok e" "\<not> has_operation es (operation_id e)" "\<not> has_plan es (entry_plan e)"
    "operation_id e < m" "n \<le> m"
  shows "ledger_ok (es @ [e]) m"
proof -
  have "m \<noteq> 0" using assms(5) by (metis word_not_simps(1))
  with assms show ?thesis
    by (auto simp: ledger_ok_def has_operation_def has_plan_def list_all_iff list_ex_iff
        dest: order_less_le_trans)
qed

lemma ledger_update:
  assumes "ledger_ok es n" "k < length es" "entry_ok e" "operation_id e = operation_id (es ! k)"
    "entry_plan e = entry_plan (es ! k)"
  shows "ledger_ok (es[k := e]) n"
proof -
  have "map operation_id (es[k := e]) = map operation_id es"
    "map (\<lambda>e. plan_Id (entry_plan e)) (es[k := e]) = map (\<lambda>e. plan_Id (entry_plan e)) es"
    using assms(2,4,5) by (simp_all add: map_update list_update_same_conv)
  moreover have "list_all entry_ok (es[k := e])"
    using assms(1,3) by (auto simp: ledger_ok_def list_all_iff dest: set_update_subset_insert [THEN subsetD])
  moreover have "list_all (\<lambda>e. operation_id e < n) (es[k := e])"
    using assms(1,2,4) by (auto simp: ledger_ok_def list_all_iff dest: set_update_subset_insert [THEN subsetD])
  ultimately show ?thesis using assms(1) by (simp add: ledger_ok_def)
qed

lemma ledger_mono: "ledger_ok es n \<Longrightarrow> n \<le> m \<Longrightarrow> ledger_ok es m"
  by (auto simp: ledger_ok_def list_all_iff dest: order_less_le_trans)

section \<open>The interface of the store\<close>

text \<open>
  \<open>saves E w X\<close>: what the journal's file holds, and anything a crash may leave of it, is one of the
  ledgers of \<open>X\<close> with its high-water mark.
\<close>

locale ledger_store =
  fixes persist :: "'env \<Rightarrow> OperationJournalEntry list \<Rightarrow> u64 \<Rightarrow> 'w \<Rightarrow>
      ((OperationJournalError + unit) \<times> bool \<times> 'w) option"
    and env_ok :: "'env \<Rightarrow> bool"
    and saves :: "'env \<Rightarrow> 'w \<Rightarrow> (OperationJournalEntry list \<times> u64) set \<Rightarrow> bool"
  assumes returns: "env_ok E \<Longrightarrow> \<exists>r c w'. persist E es n w = Some (r, c, w')"
    and stored: "env_ok E \<Longrightarrow> ledger_ok es n \<Longrightarrow> persist E es n w = Some (Inr u, c, w') \<Longrightarrow> saves E w' {(es, n)}"
    and kept: "env_ok E \<Longrightarrow> persist E es n w = Some (Inl e, False, w') \<Longrightarrow> saves E w X \<Longrightarrow> saves E w' X"
    and either: "env_ok E \<Longrightarrow> ledger_ok es n \<Longrightarrow> persist E es n w = Some (Inl e, True, w') \<Longrightarrow> saves E w X \<Longrightarrow>
      saves E w' (insert (es, n) X)"
begin

definition consistent :: "'env \<Rightarrow> Impl \<Rightarrow> 'w \<Rightarrow> bool" where
  "consistent E j w \<longleftrightarrow> (\<exists>X. saves E w X
     \<and> (\<forall>(es, n) \<in> X. ledger_ok es n \<and> extends (j_entries j) es)
     \<and> (j_usable j \<longrightarrow> (\<exists>n \<le> j_next_operation_sequence j. X = {(j_entries j, n)})))"

text \<open>A journal in use is the one in the file, up to identities that were only reserved.\<close>

lemma consistent_usable:
  "consistent E j w \<Longrightarrow> j_usable j \<Longrightarrow>
     \<exists>n \<le> j_next_operation_sequence j. ledger_ok (j_entries j) n \<and> saves E w {(j_entries j, n)}"
  by (auto simp: consistent_def)

lemma consistentI:
  "saves E w {(j_entries j, n)} \<Longrightarrow> ledger_ok (j_entries j) n \<Longrightarrow> n \<le> j_next_operation_sequence j \<Longrightarrow>
     consistent E j w"
  by (auto simp: consistent_def intro!: exI [of _ "{(j_entries j, n)}"])

lemma consistent_more:
  "consistent E j w \<Longrightarrow> j_entries j' = j_entries j \<Longrightarrow> j_usable j' = j_usable j \<Longrightarrow>
     j_next_operation_sequence j \<le> j_next_operation_sequence j' \<Longrightarrow> consistent E j' w"
  unfolding consistent_def by (elim ex_forward) auto

lemma publish_consistent:
  assumes E: "env_ok E" and j: "j_usable j" "consistent E j w"
    and cand: "ledger_ok cand m" "extends (j_entries j) cand"
  shows "\<exists>r c j' w'. publish (persist E) cand m j w = Some (r, c, j', w') \<and> (case r of
      Inr _ \<Rightarrow> j' = j\<lparr>j_entries := cand\<rparr> \<and> saves E w' {(cand, m)}
    | Inl _ \<Rightarrow> (if c then j' = j\<lparr>j_usable := False\<rparr> else j' = j) \<and> consistent E j' w')"
proof -
  from j obtain n where n: "n \<le> j_next_operation_sequence j" "ledger_ok (j_entries j) n"
    "saves E w {(j_entries j, n)}" using consistent_usable by blast
  from returns [OF E] obtain r c w' where p: "persist E cand m w = Some (r, c, w')" by blast
  show ?thesis
  proof (cases r)
    case (Inr u)
    with p stored [OF E cand(1), of w u c w'] show ?thesis by (simp add: publish_def)
  next
    case (Inl e)
    show ?thesis
    proof (cases c)
      case False
      with p Inl have "saves E w' {(j_entries j, n)}" using kept [OF E _ n(3)] by simp
      with n have "consistent E j w'" by (intro consistentI)
      with p Inl False show ?thesis by (auto simp: publish_def)
    next
      case True
      with p Inl have "saves E w' (insert (cand, m) {(j_entries j, n)})" using either [OF E cand(1) _ n(3)] by simp
      with n cand have "consistent E (j\<lparr>j_usable := False\<rparr>) w'"
        by (auto simp: consistent_def intro!: exI [of _ "insert (cand, m) {(j_entries j, n)}"])
      with p Inl True show ?thesis by (auto simp: publish_def)
    qed
  qed
qed

end

section \<open>The store of the program\<close>

text \<open>The environment of a journal: the parameters, the directory and the view of it.\<close>

record 'w JournalEnv =
  env_json :: Json
  env_syscalls :: "'w Syscalls"
  env_directory :: int
  env_view :: "'w \<Rightarrow> disk"
  env_interrupts :: "'w \<Rightarrow> nat"

definition clock_law :: "'w Syscalls \<Rightarrow> ('w \<Rightarrow> disk) \<Rightarrow> bool" where
  "clock_law S view \<longleftrightarrow> (\<forall>w t w'. sys_clock S w = (t, w') \<longrightarrow> in_int64 t \<and> view w' = view w)"

definition journal_env_ok :: "'w JournalEnv \<Rightarrow> bool" where
  "journal_env_ok E \<longleftrightarrow> json_ok (env_json E)
     \<and> posix_ok (env_syscalls E) (env_directory E) (env_view E) (env_interrupts E)
     \<and> clock_law (env_syscalls E) (env_view E)"

definition persist_in :: "'w JournalEnv \<Rightarrow> OperationJournalEntry list \<Rightarrow> u64 \<Rightarrow> 'w \<Rightarrow>
    ((OperationJournalError + unit) \<times> bool \<times> 'w) option" where
  "persist_in E = OperationJournalPersist (env_json E) (env_syscalls E) (env_directory E)"

definition decodes_to :: "Json \<Rightarrow> bytes option \<Rightarrow> OperationJournalEntry list \<times> u64 \<Rightarrow> bool" where
  "decodes_to J c x \<longleftrightarrow> (\<exists>text d. c = Some text \<and> OperationJournalDecode J text = Inr d
     \<and> x = (decoded_entries d, decoded_next_operation_sequence d))"

definition journal_saves :: "'w JournalEnv \<Rightarrow> 'w \<Rightarrow> (OperationJournalEntry list \<times> u64) set \<Rightarrow> bool" where
  "journal_saves E w X \<longleftrightarrow> (\<forall>c \<in> insert (disk_journal (env_view E w)) (disk_crash (env_view E w)).
     \<exists>x \<in> X. decodes_to (env_json E) c x)"

lemma decodes_to_encoded:
  "json_ok J \<Longrightarrow> ledger_ok es n \<Longrightarrow> OperationJournalEncode J es n = Inr encoded \<Longrightarrow>
     decodes_to J (Some encoded) (es, n)"
  using Decode_Encode_journal [of J es n encoded] by (simp add: decodes_to_def)

interpretation store: ledger_store persist_in journal_env_ok journal_saves
proof
  fix E :: "'w JournalEnv" and es n w
  assume E: "journal_env_ok E"
  then have "posix_ok (env_syscalls E) (env_directory E) (env_view E) (env_interrupts E)"
    by (simp add: journal_env_ok_def)
  from Persist_spec [OF this, of "env_json E" es n w] show "\<exists>r c w'. persist_in E es n w = Some (r, c, w')"
    unfolding persist_in_def by (elim exE conjE) (intro exI)
next
  fix E :: "'w JournalEnv" and es n w u c w'
  assume E: "journal_env_ok E" and ok: "ledger_ok es n" and p: "persist_in E es n w = Some (Inr u, c, w')"
  from E obtain encoded where e: "OperationJournalEncode (env_json E) es n = Inr encoded"
    "disk_journal (env_view E w') = Some encoded" "disk_crash (env_view E w') = {Some encoded}"
    using Persist_spec [of "env_syscalls E" "env_directory E" "env_view E" "env_interrupts E" "env_json E" es n w] p
    by (auto simp: persist_in_def journal_env_ok_def)
  with E ok decodes_to_encoded show "journal_saves E w' {(es, n)}"
    by (auto simp: journal_saves_def journal_env_ok_def)
next
  fix E :: "'w JournalEnv" and es n w e w' X
  assume E: "journal_env_ok E" and p: "persist_in E es n w = Some (Inl e, False, w')" and X: "journal_saves E w X"
  then have "untouched_journal (env_view E) w w'"
    using Persist_spec [of "env_syscalls E" "env_directory E" "env_view E" "env_interrupts E" "env_json E" es n w]
    by (auto simp: persist_in_def journal_env_ok_def)
  with X show "journal_saves E w' X" by (simp add: journal_saves_def untouched_journal_def)
next
  fix E :: "'w JournalEnv" and es n w e w' X
  assume E: "journal_env_ok E" and ok: "ledger_ok es n" and p: "persist_in E es n w = Some (Inl e, True, w')"
    and X: "journal_saves E w X"
  from E p obtain encoded where e: "OperationJournalEncode (env_json E) es n = Inr encoded"
    "disk_journal (env_view E w') \<in> {disk_journal (env_view E w), Some encoded}"
    "disk_crash (env_view E w') \<subseteq> insert (Some encoded) (disk_crash (env_view E w))"
    using Persist_spec [of "env_syscalls E" "env_directory E" "env_view E" "env_interrupts E" "env_json E" es n w]
    by (auto simp: persist_in_def journal_env_ok_def)
  have "decodes_to (env_json E) (Some encoded) (es, n)"
    using E ok e(1) decodes_to_encoded by (simp add: journal_env_ok_def)
  moreover have "\<exists>x \<in> X. decodes_to (env_json E) c x"
    if "c \<in> insert (disk_journal (env_view E w)) (disk_crash (env_view E w))" for c
    using X that unfolding journal_saves_def by blast
  moreover have "c = Some encoded \<or> c \<in> insert (disk_journal (env_view E w)) (disk_crash (env_view E w))"
    if "c \<in> insert (disk_journal (env_view E w')) (disk_crash (env_view E w'))" for c
    using e(2,3) that by auto
  ultimately show "journal_saves E w' (insert (es, n) X)"
    unfolding journal_saves_def by (metis insertCI)
qed

end
