(* ===== verification/JournalOps.thy ===== *)
theory JournalOps
  imports JournalLedger
begin

text \<open>
  The invariant of the journal, and the specification of every operation: on a system that keeps its
  promises it returns, keeps the invariant, extends the ledger and changes nothing in it when it fails.
\<close>

section \<open>The invariant\<close>

text \<open>
  Plans are only made by \<open>OperationPlan::Create\<close>, so they are well-formed; the time of their creation
  has passed through 64 bits.
\<close>

definition plan_object :: "OperationPlan \<Rightarrow> bool" where
  "plan_object p \<longleftrightarrow> plan_ok p \<and> in_int64 (plan_CreatedAt p)"

definition reservations_ok :: "(u64 \<Rightarrow> u64 option) \<Rightarrow> u64 \<Rightarrow> bool" where
  "reservations_ok reservations m \<longleftrightarrow> (\<forall>i n. reservations i = Some n \<longrightarrow> i \<noteq> 0 \<and> i < m)"

definition journal_inv :: "'w JournalEnv \<Rightarrow> Impl \<Rightarrow> 'w \<Rightarrow> bool" where
  "journal_inv E j w \<longleftrightarrow> j_parent_fd j = env_directory E
     \<and> ledger_ok (j_entries j) (j_next_operation_sequence j)
     \<and> reservations_ok (j_reservations j) (j_next_operation_sequence j) \<and> store.consistent E j w"

text \<open>What may change from one state of a journal to a later one.\<close>

definition advanced :: "'w JournalEnv \<Rightarrow> Impl \<Rightarrow> Impl \<Rightarrow> 'w \<Rightarrow> bool" where
  "advanced E j j' w' \<longleftrightarrow> journal_inv E j' w' \<and> extends (j_entries j) (j_entries j')
     \<and> j_next_operation_sequence j \<le> j_next_operation_sequence j' \<and> j_instance j' = j_instance j
     \<and> (j_usable j' \<longrightarrow> j_usable j)"

lemma advanced_refl: "journal_inv E j w \<Longrightarrow> advanced E j j w"
  by (simp add: advanced_def)

lemma advanced_trans: "advanced E a b v \<Longrightarrow> advanced E b c w \<Longrightarrow> advanced E a c w"
  by (auto simp: advanced_def intro: extends_trans)

lemma reservations_mono: "reservations_ok R m \<Longrightarrow> m \<le> n \<Longrightarrow> reservations_ok R n"
  by (auto simp: reservations_ok_def dest: order_less_le_trans)

lemma reservations_update:
  "reservations_ok R m \<Longrightarrow> x \<noteq> None \<longrightarrow> i \<noteq> 0 \<and> i < m \<Longrightarrow> reservations_ok (R(i := x)) m"
  by (simp add: reservations_ok_def)

lemma clock_consistent:
  assumes "journal_env_ok E" "sys_clock (env_syscalls E) w = (t, w')"
  shows "in_int64 t" "store.consistent E j w' = store.consistent E j w"
proof -
  have "in_int64 t \<and> env_view E w' = env_view E w"
    using assms by (simp add: journal_env_ok_def clock_law_def)
  then show "in_int64 t" "store.consistent E j w' = store.consistent E j w"
    by (simp_all add: store.consistent_def journal_saves_def)
qed

lemma commit:
  assumes E: "journal_env_ok E" and j: "journal_inv E j w" "j_usable j"
    and cand: "ledger_ok cand m" "extends (j_entries j) cand"
    and clock: "sys_clock (env_syscalls E) w = (t, w1)"
  shows "\<exists>r c j' w'. publish (OperationJournalPersist (env_json E) (env_syscalls E) (j_parent_fd j)) cand m j w1
      = Some (r, c, j', w') \<and> (case r of
        Inr _ \<Rightarrow> j' = j\<lparr>j_entries := cand\<rparr> \<and> journal_saves E w' {(cand, m)}
      | Inl _ \<Rightarrow> j' = (if c then j\<lparr>j_usable := False\<rparr> else j) \<and> advanced E j j' w')"
proof -
  have "store.consistent E j w1" using j(1) clock_consistent [OF E clock] by (simp add: journal_inv_def)
  from store.publish_consistent [OF E j(2) this cand] obtain r c j' w'
    where p: "publish (persist_in E) cand m j w1 = Some (r, c, j', w')" and r: "case r of
      Inr _ \<Rightarrow> j' = j\<lparr>j_entries := cand\<rparr> \<and> journal_saves E w' {(cand, m)}
    | Inl _ \<Rightarrow> (if c then j' = j\<lparr>j_usable := False\<rparr> else j' = j) \<and> store.consistent E j' w'" by blast
  have "persist_in E = OperationJournalPersist (env_json E) (env_syscalls E) (j_parent_fd j)"
    using j(1) by (simp add: persist_in_def journal_inv_def)
  with p r j show ?thesis
    by (cases r) (auto simp: advanced_def journal_inv_def split: if_splits)
qed

lemma committed:
  assumes "journal_inv E j w" "j_usable j" "ledger_ok cand m" "extends (j_entries j) cand"
    "journal_saves E w' {(cand, m)}" "j_next_operation_sequence j \<le> m"
    "reservations_ok R m"
  shows "advanced E j (j\<lparr>j_entries := cand, j_next_operation_sequence := m, j_reservations := R\<rparr>) w'"
  using assms by (auto simp: advanced_def journal_inv_def intro!: store.consistentI)

text \<open>The candidates that change one entry.\<close>

lemma changed_entry:
  assumes "journal_inv E j w" "k < length (j_entries j)" "entry_ok e" "entry_le (j_entries j ! k) e"
  shows "ledger_ok ((j_entries j)[k := e]) (j_next_operation_sequence j)"
    "extends (j_entries j) ((j_entries j)[k := e])"
proof -
  from assms(1) have "ledger_ok (j_entries j) (j_next_operation_sequence j)" by (simp add: journal_inv_def)
  then show "ledger_ok ((j_entries j)[k := e]) (j_next_operation_sequence j)"
    using assms(2-4) by (intro ledger_update) (simp_all add: entry_le_def)
  show "extends (j_entries j) ((j_entries j)[k := e])" using assms(4) by (rule extends_update)
qed

lemma entry_of:
  "journal_inv E j w \<Longrightarrow> k < length (j_entries j) \<Longrightarrow> entry_ok (j_entries j ! k)"
  by (simp add: journal_inv_def ledger_ok_def list_all_length)

text \<open>The shape of an operation that changes one entry.\<close>

lemma commit_entry:
  assumes E: "journal_env_ok E" and j: "journal_inv E j w" "j_usable j"
    and clock: "sys_clock (env_syscalls E) w = (t, w1)"
    and e: "k < length (j_entries j)" "entry_ok e" "entry_le (j_entries j ! k) e"
  shows "\<exists>r c j' w'. publish (OperationJournalPersist (env_json E) (env_syscalls E) (j_parent_fd j))
      ((j_entries j)[k := e]) (j_next_operation_sequence j) j w1 = Some (r, c, j', w')
    \<and> advanced E j j' w'
    \<and> j_entries j' = (case r of Inl _ \<Rightarrow> j_entries j | Inr _ \<Rightarrow> (j_entries j)[k := e])
    \<and> (j_usable j' \<longleftrightarrow> (case r of Inl _ \<Rightarrow> \<not> c | Inr _ \<Rightarrow> True)) \<and> j_instance j' = j_instance j"
proof -
  note cand = changed_entry [OF j(1) e]
  from commit [OF E j cand clock] obtain r c j' w' where
    p: "publish (OperationJournalPersist (env_json E) (env_syscalls E) (j_parent_fd j)) ((j_entries j)[k := e])
      (j_next_operation_sequence j) j w1 = Some (r, c, j', w')" and r: "case r of
        Inr _ \<Rightarrow> j' = j\<lparr>j_entries := (j_entries j)[k := e]\<rparr>
          \<and> journal_saves E w' {((j_entries j)[k := e], j_next_operation_sequence j)}
      | Inl _ \<Rightarrow> j' = (if c then j\<lparr>j_usable := False\<rparr> else j) \<and> advanced E j j' w'" by blast
  show ?thesis
  proof (cases r)
    case (Inl x)
    with p r j show ?thesis by (auto split: if_splits)
  next
    case (Inr x)
    with r have saves: "journal_saves E w' {((j_entries j)[k := e], j_next_operation_sequence j)}"
      and j': "j' = j\<lparr>j_entries := (j_entries j)[k := e]\<rparr>" by simp_all
    have "reservations_ok (j_reservations j) (j_next_operation_sequence j)"
      using j(1) by (simp add: journal_inv_def)
    from committed [OF j cand saves order_refl this] p Inr j(2) j' show ?thesis by simp
  qed
qed

section \<open>Looking entries up\<close>

lemma find_if_Some: "find_if P xs = Some k \<Longrightarrow> k < length xs \<and> P (xs ! k)"
  by (induction xs arbitrary: k) (auto split: if_splits)

lemma find_if_None: "find_if P xs = None \<longleftrightarrow> (\<forall>x \<in> set xs. \<not> P x)"
  by (induction xs) auto

lemma entry_for_Some:
  assumes "entry_for s i p entries = Some k"
  shows "k < length entries" "entry_state (entries ! k) = s" "operation_id (entries ! k) = i"
    "entry_plan (entries ! k) = p"
  using assms find_if_Some by (auto simp: entry_for_def split: option.splits if_splits)

lemma entry_for_None:
  assumes "ledger_ok entries n" "e \<in> set entries" "operation_id e = i" "entry_state e \<noteq> s"
  shows "entry_for s i p entries = None"
proof (rule ccontr)
  assume "entry_for s i p entries \<noteq> None"
  then obtain k where k: "entry_for s i p entries = Some k" by auto
  from assms(2) obtain l where l: "l < length entries" "e = entries ! l" by (auto simp: in_set_conv_nth)
  have "distinct (map operation_id entries)" using assms(1) by (simp add: ledger_ok_def)
  then have "k = l"
    using entry_for_Some(1,3) [OF k] l assms(3)
    by (metis length_map nth_eq_iff_index_eq nth_map)
  with entry_for_Some(2) [OF k] l assms(4) show False by simp
qed

section \<open>The operations\<close>

lemma ReserveOperationId_spec:
  assumes "journal_inv E j w" "ReserveOperationId j = (r, j')"
  shows "advanced E j j' w" "j_entries j' = j_entries j"
    "r = Inr res \<Longrightarrow> res_OperationId res = j_next_operation_sequence j
       \<and> j_next_operation_sequence j < j_next_operation_sequence j'
       \<and> j_reservations j' (res_OperationId res) = Some (res_Nonce res)"
proof -
  have "j_next_operation_sequence j \<noteq> - 1 \<Longrightarrow> j_next_operation_sequence j < j_next_operation_sequence j + 1"
    by (rule less_succ_word)
  with assms have more: "j_next_operation_sequence j \<le> j_next_operation_sequence j'"
    and sel: "j_entries j' = j_entries j" "j_usable j' = j_usable j" "j_parent_fd j' = j_parent_fd j"
      "j_instance j' = j_instance j"
    by (auto simp: ReserveOperationId_def Let_def split: if_splits)
  show "r = Inr res \<Longrightarrow> res_OperationId res = j_next_operation_sequence j
       \<and> j_next_operation_sequence j < j_next_operation_sequence j'
       \<and> j_reservations j' (res_OperationId res) = Some (res_Nonce res)"
    using assms(2) less_succ_word [of "j_next_operation_sequence j"]
    by (auto simp: ReserveOperationId_def Let_def split: if_splits)
  have old: "reservations_ok (j_reservations j) (j_next_operation_sequence j')"
    using assms(1) more by (auto simp: journal_inv_def intro: reservations_mono)
  have "reservations_ok (j_reservations j') (j_next_operation_sequence j')"
    using assms(2) old less_succ_word [of "j_next_operation_sequence j"]
    by (auto simp: ReserveOperationId_def Let_def intro!: reservations_update split: if_splits)
  moreover have "ledger_ok (j_entries j') (j_next_operation_sequence j')"
    using assms(1) more sel(1) by (auto simp: journal_inv_def intro: ledger_mono)
  moreover have "store.consistent E j' w"
    using assms(1) more sel by (auto simp: journal_inv_def intro: store.consistent_more)
  ultimately show "advanced E j j' w" "j_entries j' = j_entries j"
    using assms(1) sel more by (auto simp: advanced_def journal_inv_def)
qed

lemma Release_spec:
  assumes "journal_inv E j w" "Release r j = (r', j')"
  shows "advanced E j j' w" "j_entries j' = j_entries j"
proof -
  have "\<exists>R. j' = j\<lparr>j_reservations := R\<rparr> \<and> (\<forall>i n. R i = Some n \<longrightarrow> j_reservations j i = Some n)"
    using assms(2) by (auto simp: Release_def Let_def split: if_splits intro: exI [of _ "j_reservations j"])
  then obtain R where R: "j' = j\<lparr>j_reservations := R\<rparr>" "\<And>i n. R i = Some n \<Longrightarrow> j_reservations j i = Some n"
    by blast
  have "store.consistent E j' w"
    using assms(1) R(1) by (auto simp: journal_inv_def intro: store.consistent_more)
  with assms(1) R show "advanced E j j' w" "j_entries j' = j_entries j"
    by (auto simp: advanced_def journal_inv_def reservations_ok_def)
qed

lemma admitted_ok:
  "plan_object p \<Longrightarrow> in_int64 t \<Longrightarrow> i \<noteq> 0 \<Longrightarrow> entry_ok (admitted_entry i p t)"
  by (simp add: plan_object_def entry_ok_def admitted_entry_def OperationJournalValidEntryLifecycle_def
      OperationJournalValidOrderedItemResults_def)

lemma AdmitLocked_spec:
  assumes E: "journal_env_ok E" and j: "journal_inv E j w" and p: "plan_object p"
  shows "\<exists>x r' j' w'. AdmitLocked (env_json E) (env_syscalls E) r p j w = Some (x, r', j', w')
    \<and> advanced E j j' w' \<and> (case x of
        Inl _ \<Rightarrow> j_entries j' = j_entries j \<and> r' = r
      | Inr a \<Rightarrow> (\<exists>t. j_entries j' = j_entries j @ [admitted_entry (res_OperationId r) p t])
          \<and> a = \<lparr>adm_JournalInstance = Some (j_instance j), adm_OperationId = res_OperationId r,
                 adm_Plan = p, adm_Consumed = False\<rparr>)"
proof (cases "j_usable j \<and> \<not> res_Consumed r \<and> res_Impl r = Some (j_instance j)
    \<and> j_reservations j (res_OperationId r) = Some (res_Nonce r) \<and> length (j_entries j) < MaxEntries
    \<and> \<not> has_operation (j_entries j) (res_OperationId r) \<and> \<not> has_plan (j_entries j) p")
  case False
  with j show ?thesis by (auto simp: AdmitLocked_def intro: advanced_refl)
next
  case True
  obtain t w1 where clock: "sys_clock (env_syscalls E) w = (t, w1)" by (cases "sys_clock (env_syscalls E) w")
  let ?e = "admitted_entry (res_OperationId r) p t" and ?n = "j_next_operation_sequence j"
  have i: "res_OperationId r \<noteq> 0" "res_OperationId r < ?n"
    using j True by (auto simp: journal_inv_def reservations_ok_def)
  have "ledger_ok (j_entries j) ?n" using j by (simp add: journal_inv_def)
  moreover have "entry_ok ?e" using admitted_ok [OF p clock_consistent(1) [OF E clock] i(1)] .
  ultimately have cand: "ledger_ok (j_entries j @ [?e]) ?n" "extends (j_entries j) (j_entries j @ [?e])"
    using True i(2) by (simp_all add: extends_append ledger_append admitted_entry_def)
  from True have usable: "j_usable j" by simp
  from commit [OF E j usable cand clock] obtain s c j' w' where
    s: "publish (OperationJournalPersist (env_json E) (env_syscalls E) (j_parent_fd j)) (j_entries j @ [?e]) ?n j w1
      = Some (s, c, j', w')" and post: "case s of
        Inr _ \<Rightarrow> j' = j\<lparr>j_entries := j_entries j @ [?e]\<rparr> \<and> journal_saves E w' {(j_entries j @ [?e], ?n)}
      | Inl _ \<Rightarrow> j' = (if c then j\<lparr>j_usable := False\<rparr> else j) \<and> advanced E j j' w'" by blast
  show ?thesis
  proof (cases s)
    case (Inl x)
    with True clock s post show ?thesis by (auto simp: AdmitLocked_def split: if_splits)
  next
    case (Inr x)
    let ?R = "(j_reservations j)(res_OperationId r := None)"
    have "reservations_ok ?R ?n" using j by (simp add: journal_inv_def reservations_update)
    moreover have "journal_saves E w' {(j_entries j @ [?e], ?n)}" using Inr post by simp
    ultimately have "advanced E j (j\<lparr>j_entries := j_entries j @ [?e], j_reservations := ?R\<rparr>) w'"
      using committed [OF j usable cand, of w' ?R] by simp
    with Inr True clock s post show ?thesis by (auto simp: AdmitLocked_def)
  qed
qed

lemma Admit_spec:
  assumes E: "journal_env_ok E" and j: "journal_inv E j w" and p: "plan_object p"
  shows "\<exists>x j' w'. Admit (env_json E) (env_syscalls E) p j w = Some (x, j', w') \<and> advanced E j j' w'
    \<and> (case x of Inl _ \<Rightarrow> j_entries j' = j_entries j
      | Inr a \<Rightarrow> (\<exists>t. j_entries j' = j_entries j @ [admitted_entry (j_next_operation_sequence j) p t])
          \<and> a = \<lparr>adm_JournalInstance = Some (j_instance j), adm_OperationId = j_next_operation_sequence j,
                 adm_Plan = p, adm_Consumed = False\<rparr>)"
proof -
  obtain r j1 where r: "ReserveOperationId j = (r, j1)" by (cases "ReserveOperationId j")
  note res = ReserveOperationId_spec [OF j r]
  show ?thesis
  proof (cases r)
    case (Inl e)
    with r res(1,2) show ?thesis by (simp add: Admit_def)
  next
    case (Inr a)
    have "journal_inv E j1 w" using res(1) by (simp add: advanced_def)
    from AdmitLocked_spec [OF E this p, of a] obtain x r' j2 w2 where
      x: "AdmitLocked (env_json E) (env_syscalls E) a p j1 w = Some (x, r', j2, w2)" "advanced E j1 j2 w2" and
      post: "case x of Inl _ \<Rightarrow> j_entries j2 = j_entries j1 \<and> r' = a
        | Inr b \<Rightarrow> (\<exists>t. j_entries j2 = j_entries j1 @ [admitted_entry (res_OperationId a) p t])
          \<and> b = \<lparr>adm_JournalInstance = Some (j_instance j1), adm_OperationId = res_OperationId a,
                 adm_Plan = p, adm_Consumed = False\<rparr>" by blast
    obtain r3 j3 where j3: "Release r' j2 = (r3, j3)" by (cases "Release r' j2")
    have "journal_inv E j2 w2" using x(2) by (simp add: advanced_def)
    note rel = Release_spec [OF this j3]
    have "advanced E j j3 w2" using res(1) x(2) rel(1) by (blast intro: advanced_trans)
    moreover have "Admit (env_json E) (env_syscalls E) p j w = Some (x, j3, w2)"
      using r Inr x(1) j3 by (simp add: Admit_def)
    moreover have "j_instance j1 = j_instance j" using res(1) by (simp add: advanced_def)
    ultimately show ?thesis using post rel(2) res(2) res(3) [OF Inr] by (auto split: sum.splits)
  qed
qed

text \<open>The testing overload takes any positive identity, and raises the high-water mark past it.\<close>

lemma AdmitWithOperationId_spec:
  assumes E: "journal_env_ok E" and j: "journal_inv E j w" and p: "plan_object p" and i: "i \<noteq> 0"
  shows "\<exists>x j' w'. AdmitWithOperationIdForTesting (env_json E) (env_syscalls E) i p j w = Some (x, j', w')
    \<and> advanced E j j' w' \<and> (case x of Inl _ \<Rightarrow> j_entries j' = j_entries j
      | Inr _ \<Rightarrow> \<exists>t. j_entries j' = j_entries j @ [admitted_entry i p t])"
proof (cases "j_usable j \<and> length (j_entries j) < MaxEntries \<and> \<not> has_operation (j_entries j) i
    \<and> \<not> has_plan (j_entries j) p \<and> i \<noteq> - 1")
  case False
  with j show ?thesis by (auto simp: AdmitWithOperationIdForTesting_def intro: advanced_refl)
next
  case True
  obtain t w1 where clock: "sys_clock (env_syscalls E) w = (t, w1)" by (cases "sys_clock (env_syscalls E) w")
  let ?e = "admitted_entry i p t" and ?n = "max (j_next_operation_sequence j) (i + 1)"
  have "i < i + 1" using True by (intro less_succ_word) simp
  then have n: "i < ?n" "j_next_operation_sequence j \<le> ?n" by (simp_all add: less_max_iff_disj)
  have "ledger_ok (j_entries j) (j_next_operation_sequence j)" using j by (simp add: journal_inv_def)
  moreover have "entry_ok ?e" using admitted_ok [OF p clock_consistent(1) [OF E clock] i] .
  ultimately have cand: "ledger_ok (j_entries j @ [?e]) ?n" "extends (j_entries j) (j_entries j @ [?e])"
    using True n by (simp_all add: extends_append ledger_append admitted_entry_def)
  from True have usable: "j_usable j" by simp
  from commit [OF E j usable cand clock] obtain s c j' w' where
    s: "publish (OperationJournalPersist (env_json E) (env_syscalls E) (j_parent_fd j)) (j_entries j @ [?e]) ?n j w1
      = Some (s, c, j', w')" and post: "case s of
        Inr _ \<Rightarrow> j' = j\<lparr>j_entries := j_entries j @ [?e]\<rparr> \<and> journal_saves E w' {(j_entries j @ [?e], ?n)}
      | Inl _ \<Rightarrow> j' = (if c then j\<lparr>j_usable := False\<rparr> else j) \<and> advanced E j j' w'" by blast
  show ?thesis
  proof (cases s)
    case (Inl x)
    with True clock s post show ?thesis by (auto simp: AdmitWithOperationIdForTesting_def Let_def split: if_splits)
  next
    case (Inr x)
    have "reservations_ok (j_reservations j) ?n"
      using j n(2) by (auto simp: journal_inv_def intro: reservations_mono)
    moreover have "journal_saves E w' {(j_entries j @ [?e], ?n)}" using Inr post by simp
    ultimately have "advanced E j (j\<lparr>j_entries := j_entries j @ [?e], j_next_operation_sequence := ?n\<rparr>) w'"
      using committed [OF j usable cand _ n(2), of w' "j_reservations j"] by simp
    with Inr True clock s post show ?thesis by (auto simp: AdmitWithOperationIdForTesting_def Let_def)
  qed
qed

lemma TransitionToRunning_spec:
  assumes E: "journal_env_ok E" and j: "journal_inv E j w"
  shows "\<exists>x r' j' w'. TransitionToRunning (env_json E) (env_syscalls E) r j w = Some (x, r', j', w')
    \<and> advanced E j j' w' \<and> (case x of
        Inl _ \<Rightarrow> j_entries j' = j_entries j \<and> adm_Consumed r' = (adm_Consumed r \<or> (j_usable j \<and> \<not> j_usable j'))
      | Inr a \<Rightarrow> (\<exists>k t. entry_for State_Admitted (adm_OperationId r) (adm_Plan r) (j_entries j) = Some k
            \<and> j_entries j' = (j_entries j)[k := (j_entries j ! k)\<lparr>entry_state := State_Running, updated_at := t\<rparr>])
          \<and> adm_Consumed r' \<and> a = \<lparr>run_JournalInstance = Some (j_instance j),
               run_OperationId = adm_OperationId r, run_Plan = adm_Plan r, run_Consumed = False\<rparr>)"
proof (cases "\<exists>k. j_usable j \<and> \<not> adm_Consumed r \<and> adm_JournalInstance r = Some (j_instance j)
    \<and> entry_for State_Admitted (adm_OperationId r) (adm_Plan r) (j_entries j) = Some k")
  case False
  with j show ?thesis
    by (auto simp: TransitionToRunning_def intro: advanced_refl split: option.splits)
next
  case True
  then obtain k where k: "j_usable j" "\<not> adm_Consumed r" "adm_JournalInstance r = Some (j_instance j)"
    "entry_for State_Admitted (adm_OperationId r) (adm_Plan r) (j_entries j) = Some k" by blast
  note found = entry_for_Some [OF k(4)]
  obtain t w1 where clock: "sys_clock (env_syscalls E) w = (t, w1)" by (cases "sys_clock (env_syscalls E) w")
  let ?e = "(j_entries j ! k)\<lparr>entry_state := State_Running, updated_at := t\<rparr>"
  have "entry_ok ?e"
    using entry_of [OF j found(1)] found(2) clock_consistent(1) [OF E clock]
    by (auto simp: entry_ok_def OperationJournalValidEntryLifecycle_def split: if_splits)
  from commit_entry [OF E j k(1) clock found(1) this entry_le_running(1) [OF found(2)]]
  obtain s c j' w' where s: "publish (OperationJournalPersist (env_json E) (env_syscalls E) (j_parent_fd j))
      ((j_entries j)[k := ?e]) (j_next_operation_sequence j) j w1 = Some (s, c, j', w')" "advanced E j j' w'"
    and post: "j_entries j' = (case s of Inl _ \<Rightarrow> j_entries j | Inr _ \<Rightarrow> (j_entries j)[k := ?e])"
      "j_usable j' \<longleftrightarrow> (case s of Inl _ \<Rightarrow> \<not> c | Inr _ \<Rightarrow> True)" "j_instance j' = j_instance j" by blast
  with k clock show ?thesis by (cases s) (auto simp: TransitionToRunning_def)
qed

lemma FinalizeAdmission_spec:
  assumes E: "journal_env_ok E" and j: "journal_inv E j w"
  shows "\<exists>x r' j' w'. FinalizeAdmission (env_json E) (env_syscalls E) r to j w = Some (x, r', j', w')
    \<and> advanced E j j' w' \<and> (case x of
        Inl _ \<Rightarrow> j_entries j' = j_entries j \<and> adm_Consumed r' = (adm_Consumed r \<or> (j_usable j \<and> \<not> j_usable j'))
      | Inr _ \<Rightarrow> adm_Consumed r'
          \<and> (\<exists>k t. entry_for State_Admitted (adm_OperationId r) (adm_Plan r) (j_entries j) = Some k
            \<and> j_entries j' = (j_entries j)[k := (j_entries j ! k)\<lparr>entry_state := to, updated_at := t\<rparr>]))"
proof (cases "\<exists>k. j_usable j \<and> \<not> adm_Consumed r \<and> adm_JournalInstance r = Some (j_instance j)
    \<and> OperationJournalLegalTransition State_Admitted to
    \<and> entry_for State_Admitted (adm_OperationId r) (adm_Plan r) (j_entries j) = Some k")
  case False
  with j show ?thesis
    by (auto simp: FinalizeAdmission_def intro: advanced_refl split: option.splits)
next
  case True
  then obtain k where k: "j_usable j" "\<not> adm_Consumed r" "adm_JournalInstance r = Some (j_instance j)"
    "OperationJournalLegalTransition State_Admitted to"
    "entry_for State_Admitted (adm_OperationId r) (adm_Plan r) (j_entries j) = Some k" by blast
  note found = entry_for_Some [OF k(5)]
  obtain t w1 where clock: "sys_clock (env_syscalls E) w = (t, w1)" by (cases "sys_clock (env_syscalls E) w")
  let ?e = "(j_entries j ! k)\<lparr>entry_state := to, updated_at := t\<rparr>"
  have "OperationJournalValidEntryLifecycle ?e"
    using entry_of [OF j found(1)] found(2) k(4)
    by (auto simp: entry_ok_def OperationJournalValidEntryLifecycle_def OperationJournalLegalTransition_def
        split: if_splits)
  moreover from this have "entry_ok ?e"
    using entry_of [OF j found(1)] clock_consistent(1) [OF E clock] by (simp add: entry_ok_def)
  moreover have "entry_le (j_entries j ! k) ?e" using k(4) found(2) by (intro entry_le_transition) simp
  ultimately obtain s c j' w' where s: "publish (OperationJournalPersist (env_json E) (env_syscalls E) (j_parent_fd j))
      ((j_entries j)[k := ?e]) (j_next_operation_sequence j) j w1 = Some (s, c, j', w')" "advanced E j j' w'"
    and post: "j_entries j' = (case s of Inl _ \<Rightarrow> j_entries j | Inr _ \<Rightarrow> (j_entries j)[k := ?e])"
      "j_usable j' \<longleftrightarrow> (case s of Inl _ \<Rightarrow> \<not> c | Inr _ \<Rightarrow> True)" "j_instance j' = j_instance j"
    using commit_entry [OF E j k(1) clock found(1)] by blast
  with k clock \<open>OperationJournalValidEntryLifecycle ?e\<close> show ?thesis
    by (cases s) (auto simp: FinalizeAdmission_def Let_def)
qed

lemma Finalize_spec:
  assumes E: "journal_env_ok E" and j: "journal_inv E j w"
  shows "\<exists>x r' j' w'. Finalize (env_json E) (env_syscalls E) r rs to j w = Some (x, r', j', w')
    \<and> advanced E j j' w' \<and> (case x of
        Inl _ \<Rightarrow> j_entries j' = j_entries j \<and> run_Consumed r' = (run_Consumed r \<or> (j_usable j \<and> \<not> j_usable j'))
      | Inr _ \<Rightarrow> run_Consumed r' \<and> j_usable j'
          \<and> (\<exists>k t. entry_for State_Running (run_OperationId r) (run_Plan r) (j_entries j) = Some k
            \<and> OperationJournalLegalTransition State_Running to \<and> item_results (j_entries j ! k) = []
            \<and> j_entries j' = (j_entries j)
                [k := (j_entries j ! k)\<lparr>item_results := rs, entry_state := to, updated_at := t\<rparr>]))"
proof -
  obtain t w1 where clock: "sys_clock (env_syscalls E) w = (t, w1)" by (cases "sys_clock (env_syscalls E) w")
  define e where "e = (\<lambda>k. (j_entries j ! k)\<lparr>item_results := rs, entry_state := to, updated_at := t\<rparr>)"
  show ?thesis
  proof (cases "\<exists>k. j_usable j \<and> \<not> run_Consumed r \<and> run_JournalInstance r = Some (j_instance j)
      \<and> OperationJournalLegalTransition State_Running to
      \<and> entry_for State_Running (run_OperationId r) (run_Plan r) (j_entries j) = Some k
      \<and> item_results (j_entries j ! k) = [] \<and> OperationJournalValidOrderedItemResults (entry_plan (j_entries j ! k)) rs
      \<and> length rs \<le> MaxItemResults - total_results (j_entries j) \<and> OperationJournalValidEntryLifecycle (e k)")
    case False
    then have "\<exists>c w'. Finalize (env_json E) (env_syscalls E) r rs to j w = Some (Inl c, r, j, w') \<and> w' \<in> {w, w1}"
      using clock by (auto simp: Finalize_def Let_def e_def split: option.splits)
    moreover have "advanced E j j w1"
      using j clock_consistent [OF E clock] by (simp add: advanced_def journal_inv_def)
    ultimately show ?thesis using j advanced_refl by auto
  next
    case True
    then obtain k where k: "j_usable j" "\<not> run_Consumed r" "run_JournalInstance r = Some (j_instance j)"
      "OperationJournalLegalTransition State_Running to"
      "entry_for State_Running (run_OperationId r) (run_Plan r) (j_entries j) = Some k"
      "item_results (j_entries j ! k) = []" "OperationJournalValidOrderedItemResults (entry_plan (j_entries j ! k)) rs"
      "length rs \<le> MaxItemResults - total_results (j_entries j)" "OperationJournalValidEntryLifecycle (e k)" by blast
    note found = entry_for_Some [OF k(5)]
    have "entry_ok (e k)"
      using entry_of [OF j found(1)] clock_consistent(1) [OF E clock] k(9) by (simp add: entry_ok_def e_def)
    moreover have "entry_le (j_entries j ! k) (e k)"
      unfolding e_def using k(4,6) found(2) by (intro entry_le_transition) simp_all
    ultimately obtain s c j' w' where s: "publish (OperationJournalPersist (env_json E) (env_syscalls E) (j_parent_fd j))
        ((j_entries j)[k := e k]) (j_next_operation_sequence j) j w1 = Some (s, c, j', w')" "advanced E j j' w'"
      and post: "j_entries j' = (case s of Inl _ \<Rightarrow> j_entries j | Inr _ \<Rightarrow> (j_entries j)[k := e k])"
        "j_usable j' \<longleftrightarrow> (case s of Inl _ \<Rightarrow> \<not> c | Inr _ \<Rightarrow> True)" "j_instance j' = j_instance j"
      using commit_entry [OF E j k(1) clock found(1)] by blast
    with k clock have "Finalize (env_json E) (env_syscalls E) r rs to j w = Some (case s of
        Inl x \<Rightarrow> (Inl x, if c then r\<lparr>run_Consumed := True\<rparr> else r, j', w')
      | Inr _ \<Rightarrow> (Inr (), r\<lparr>run_Consumed := True\<rparr>, j', w'))"
      by (simp add: Finalize_def Let_def e_def split: sum.splits)
    with s(2) post k show ?thesis by (cases s) (auto simp: e_def)
  qed
qed

text \<open>The operations that address an entry by its plan.\<close>

lemma Transition_spec:
  assumes E: "journal_env_ok E" and j: "journal_inv E j w"
  shows "\<exists>x j' w'. Transition (env_json E) (env_syscalls E) plan_id to j w = Some (x, j', w')
    \<and> advanced E j j' w' \<and> (case x of Inl _ \<Rightarrow> j_entries j' = j_entries j
      | Inr _ \<Rightarrow> (\<exists>k t. k < length (j_entries j) \<and> plan_Id (entry_plan (j_entries j ! k)) = plan_id
            \<and> OperationJournalLegalTransition (entry_state (j_entries j ! k)) to
            \<and> j_entries j' = (j_entries j)[k := (j_entries j ! k)\<lparr>entry_state := to, updated_at := t\<rparr>]))"
proof -
  obtain t w1 where clock: "sys_clock (env_syscalls E) w = (t, w1)" by (cases "sys_clock (env_syscalls E) w")
  define e where "e = (\<lambda>k. (j_entries j ! k)\<lparr>entry_state := to, updated_at := t\<rparr>)"
  show ?thesis
  proof (cases "\<exists>k. j_usable j \<and> find_if (\<lambda>e. plan_Id (entry_plan e) = plan_id) (j_entries j) = Some k
      \<and> OperationJournalLegalTransition (entry_state (j_entries j ! k)) to \<and> OperationJournalValidEntryLifecycle (e k)")
    case False
    then have "\<exists>c w'. Transition (env_json E) (env_syscalls E) plan_id to j w = Some (Inl c, j, w') \<and> w' \<in> {w, w1}"
      using clock by (auto simp: Transition_def Let_def e_def split: option.splits)
    moreover have "advanced E j j w1"
      using j clock_consistent [OF E clock] by (simp add: advanced_def journal_inv_def)
    ultimately show ?thesis using j advanced_refl by auto
  next
    case True
    then obtain k where k: "j_usable j" "find_if (\<lambda>e. plan_Id (entry_plan e) = plan_id) (j_entries j) = Some k"
      "OperationJournalLegalTransition (entry_state (j_entries j ! k)) to" "OperationJournalValidEntryLifecycle (e k)"
      by blast
    from find_if_Some [OF k(2)] have found: "k < length (j_entries j)"
      "plan_Id (entry_plan (j_entries j ! k)) = plan_id" by simp_all
    have "entry_ok (e k)"
      using entry_of [OF j found(1)] clock_consistent(1) [OF E clock] k(4) by (simp add: entry_ok_def e_def)
    moreover have "entry_le (j_entries j ! k) (e k)" unfolding e_def using k(3) by (rule entry_le_transition)
    ultimately obtain s c j' w' where s: "publish (OperationJournalPersist (env_json E) (env_syscalls E) (j_parent_fd j))
        ((j_entries j)[k := e k]) (j_next_operation_sequence j) j w1 = Some (s, c, j', w')" "advanced E j j' w'"
      and post: "j_entries j' = (case s of Inl _ \<Rightarrow> j_entries j | Inr _ \<Rightarrow> (j_entries j)[k := e k])"
      using commit_entry [OF E j k(1) clock found(1)] by blast
    with k clock have "Transition (env_json E) (env_syscalls E) plan_id to j w = Some (s, j', w')"
      by (simp add: Transition_def Let_def e_def)
    with s(2) post k(3) found show ?thesis by (cases s) (auto simp: e_def)
  qed
qed

lemma insert_result_set: "set (insert_result r rs) = insert r (set rs)"
  by (metis append_Cons insert_result_def list.set(2) set_append takeWhile_dropWhile_id Un_insert_right)

lemma insert_result_sorted:
  assumes "sorted_wrt (<) (map item_index rs)" "\<forall>x \<in> set rs. item_index x \<noteq> item_index r"
  shows "sorted_wrt (<) (map item_index (insert_result r rs))"
  using assms
proof (induction rs)
  case (Cons x rs)
  show ?case
  proof (cases "item_index x < item_index r")
    case True
    then have "insert_result r (x # rs) = x # insert_result r rs" by (simp add: insert_result_def)
    with Cons True show ?thesis by (auto simp: insert_result_set)
  next
    case False
    with Cons.prems have "item_index r < item_index x" by simp
    moreover from False have "insert_result r (x # rs) = r # x # rs" by (simp add: insert_result_def)
    ultimately show ?thesis using Cons.prems by (auto dest: less_trans)
  qed
qed (simp add: insert_result_def)

lemma insert_result_ordered:
  assumes "OperationJournalValidOrderedItemResults p rs" "OperationJournalValidItemResult p r"
    "\<not> list_ex (\<lambda>x. item_index x = item_index r) rs"
  shows "OperationJournalValidOrderedItemResults p (insert_result r rs)"
  using assms insert_result_sorted [of rs r]
  by (auto simp: ValidOrderedItemResults_iff list_all_iff list_ex_iff insert_result_set)

lemma RecordItemResult_spec:
  assumes E: "journal_env_ok E" and j: "journal_inv E j w"
  shows "\<exists>x j' w'. RecordItemResult (env_json E) (env_syscalls E) plan_id r j w = Some (x, j', w')
    \<and> advanced E j j' w' \<and> (case x of Inl _ \<Rightarrow> j_entries j' = j_entries j
      | Inr _ \<Rightarrow> (\<exists>k t. k < length (j_entries j) \<and> plan_Id (entry_plan (j_entries j ! k)) = plan_id
            \<and> entry_state (j_entries j ! k) = State_Running
            \<and> j_entries j' = (j_entries j)[k := (j_entries j ! k)\<lparr>item_results :=
                insert_result r (item_results (j_entries j ! k)), updated_at := t\<rparr>]))"
proof (cases "\<exists>k. j_usable j \<and> find_if (\<lambda>e. plan_Id (entry_plan e) = plan_id) (j_entries j) = Some k
    \<and> entry_state (j_entries j ! k) = State_Running
    \<and> OperationJournalValidItemResult (entry_plan (j_entries j ! k)) r
    \<and> \<not> list_ex (\<lambda>x. item_index x = item_index r) (item_results (j_entries j ! k))
    \<and> total_results (j_entries j) < MaxItemResults")
  case False
  with j show ?thesis
    by (auto simp: RecordItemResult_def Let_def not_less intro: advanced_refl split: option.splits)
next
  case True
  then obtain k where k: "j_usable j" "find_if (\<lambda>e. plan_Id (entry_plan e) = plan_id) (j_entries j) = Some k"
    "entry_state (j_entries j ! k) = State_Running"
    "OperationJournalValidItemResult (entry_plan (j_entries j ! k)) r"
    "\<not> list_ex (\<lambda>x. item_index x = item_index r) (item_results (j_entries j ! k))"
    "total_results (j_entries j) < MaxItemResults" by blast
  from find_if_Some [OF k(2)] have found: "k < length (j_entries j)"
    "plan_Id (entry_plan (j_entries j ! k)) = plan_id" by simp_all
  obtain t w1 where clock: "sys_clock (env_syscalls E) w = (t, w1)" by (cases "sys_clock (env_syscalls E) w")
  let ?e = "(j_entries j ! k)\<lparr>item_results := insert_result r (item_results (j_entries j ! k)), updated_at := t\<rparr>"
  have "OperationJournalValidOrderedItemResults (entry_plan (j_entries j ! k)) (item_results ?e)"
    using entry_of [OF j found(1)] insert_result_ordered [OF _ k(4,5)]
    by (auto simp: entry_ok_def OperationJournalValidEntryLifecycle_def split: if_splits)
  then have "entry_ok ?e"
    using entry_of [OF j found(1)] k(3) clock_consistent(1) [OF E clock]
    by (simp add: entry_ok_def OperationJournalValidEntryLifecycle_def Let_def)
  moreover have "entry_le (j_entries j ! k) ?e"
    using k(3) by (intro entry_le_running) (auto simp: insert_result_set)
  ultimately obtain s c j' w' where s: "publish (OperationJournalPersist (env_json E) (env_syscalls E) (j_parent_fd j))
      ((j_entries j)[k := ?e]) (j_next_operation_sequence j) j w1 = Some (s, c, j', w')" "advanced E j j' w'"
    and post: "j_entries j' = (case s of Inl _ \<Rightarrow> j_entries j | Inr _ \<Rightarrow> (j_entries j)[k := ?e])"
    using commit_entry [OF E j k(1) clock found(1)] by blast
  with k clock have "RecordItemResult (env_json E) (env_syscalls E) plan_id r j w = Some (s, j', w')"
    by (simp add: RecordItemResult_def Let_def)
  with s(2) post k(3) found show ?thesis by (cases s) auto
qed

end
