(* ===== verification/JournalRuns.thy ===== *)
theory JournalRuns
  imports JournalOps
begin

text \<open>
  Runs of a journal: a request names an operation with its arguments, \<open>serve\<close> performs it, and a run is
  a sequence of requests in any order, between which the rest of the system may do anything that does
  not touch the journal's directory. Receipts and reservations in a request are arbitrary, so forged
  and stale ones are included. A run begins with \<open>OperationJournal::Open\<close>.
\<close>

section \<open>Requests\<close>

datatype JournalRequest =
    Reserve_Id
  | Release_Id AdmissionReservation
  | Admit_Reserved AdmissionReservation OperationPlan
  | Admit_Plan OperationPlan
  | Admit_With OperationId OperationPlan
  | Run_Admitted OperationJournalAdmissionReceipt
  | Finalize_Admitted OperationJournalAdmissionReceipt OperationJournalState
  | Finalize_Run OperationJournalRunReceipt "OperationJournalItemResult list" OperationJournalState
  | Transition_Plan bytes OperationJournalState
  | Record_Result bytes OperationJournalItemResult

definition failure :: "OperationJournalError + 'a \<Rightarrow> OperationJournalError option" where
  "failure r = (case r of Inl e \<Rightarrow> Some e | Inr _ \<Rightarrow> None)"

lemma failure_simps [simp]: "failure (Inl e) = Some e" "failure (Inr x) = None"
  by (simp_all add: failure_def)

definition serve ::
  "Json \<Rightarrow> 'w Syscalls \<Rightarrow> JournalRequest \<Rightarrow> Impl \<Rightarrow> 'w \<Rightarrow> (OperationJournalError option \<times> Impl \<times> 'w) option" where
  "serve J S q j w = (case q of
      Reserve_Id \<Rightarrow> (case ReserveOperationId j of (r, j) \<Rightarrow> Some (failure r, j, w))
    | Release_Id r \<Rightarrow> Some (None, snd (Release r j), w)
    | Admit_Reserved r p \<Rightarrow> map_option (\<lambda>(x, _, j, w). (failure x, j, w)) (AdmitLocked J S r p j w)
    | Admit_Plan p \<Rightarrow> map_option (\<lambda>(x, j, w). (failure x, j, w)) (Admit J S p j w)
    | Admit_With i p \<Rightarrow> map_option (\<lambda>(x, j, w). (failure x, j, w)) (AdmitWithOperationIdForTesting J S i p j w)
    | Run_Admitted r \<Rightarrow> map_option (\<lambda>(x, _, j, w). (failure x, j, w)) (TransitionToRunning J S r j w)
    | Finalize_Admitted r s \<Rightarrow> map_option (\<lambda>(x, _, j, w). (failure x, j, w)) (FinalizeAdmission J S r s j w)
    | Finalize_Run r rs s \<Rightarrow> map_option (\<lambda>(x, _, j, w). (failure x, j, w)) (Finalize J S r rs s j w)
    | Transition_Plan i s \<Rightarrow> map_option (\<lambda>(x, j, w). (failure x, j, w)) (Transition J S i s j w)
    | Record_Result i r \<Rightarrow> map_option (\<lambda>(x, j, w). (failure x, j, w)) (RecordItemResult J S i r j w))"

text \<open>Plans and identities are objects that were made by their factories.\<close>

definition request_ok :: "JournalRequest \<Rightarrow> bool" where
  "request_ok q = (case q of Admit_Reserved _ p \<Rightarrow> plan_object p | Admit_Plan p \<Rightarrow> plan_object p
     | Admit_With i p \<Rightarrow> i \<noteq> 0 \<and> plan_object p | _ \<Rightarrow> True)"

text \<open>The specifications of the operations have one shape, with a receipt or without.\<close>

lemma served4:
  assumes "\<exists>x r j' w'. f = Some (x, r, j', w') \<and> advanced E j j' w'
      \<and> (case x of Inl e \<Rightarrow> A x r j' w' e | Inr y \<Rightarrow> B x r j' w' y)"
    and "\<And>x r j' w' e. A x r j' w' e \<Longrightarrow> j_entries j' = j_entries j"
    and "g = map_option (\<lambda>(x, _, j, w). (failure x, j, w)) f"
  shows "\<exists>e j' w'. g = Some (e, j', w') \<and> advanced E j j' w' \<and> (e \<noteq> None \<longrightarrow> j_entries j' = j_entries j)"
proof -
  from assms(1) obtain x r j' w' where "f = Some (x, r, j', w')" "advanced E j j' w'"
    "case x of Inl e \<Rightarrow> A x r j' w' e | Inr y \<Rightarrow> B x r j' w' y" by blast
  with assms(2,3) show ?thesis by (cases x) auto
qed

lemma served3:
  assumes "\<exists>x j' w'. f = Some (x, j', w') \<and> advanced E j j' w'
      \<and> (case x of Inl e \<Rightarrow> A x j' w' e | Inr y \<Rightarrow> B x j' w' y)"
    and "\<And>x j' w' e. A x j' w' e \<Longrightarrow> j_entries j' = j_entries j"
    and "g = map_option (\<lambda>(x, j, w). (failure x, j, w)) f"
  shows "\<exists>e j' w'. g = Some (e, j', w') \<and> advanced E j j' w' \<and> (e \<noteq> None \<longrightarrow> j_entries j' = j_entries j)"
proof -
  from assms(1) obtain x j' w' where "f = Some (x, j', w')" "advanced E j j' w'"
    "case x of Inl e \<Rightarrow> A x j' w' e | Inr y \<Rightarrow> B x j' w' y" by blast
  with assms(2,3) show ?thesis by (cases x) auto
qed

lemma serve_spec:
  assumes E: "journal_env_ok E" and j: "journal_inv E j w" and q: "request_ok q"
  shows "\<exists>e j' w'. serve (env_json E) (env_syscalls E) q j w = Some (e, j', w') \<and> advanced E j j' w'
    \<and> (e \<noteq> None \<longrightarrow> j_entries j' = j_entries j)"
proof (cases q)
  case Reserve_Id
  obtain r j' where "ReserveOperationId j = (r, j')" by (cases "ReserveOperationId j")
  with Reserve_Id ReserveOperationId_spec [OF j this] show ?thesis by (simp add: serve_def)
next
  case (Release_Id r)
  obtain r' j' where "Release r j = (r', j')" by (cases "Release r j")
  with Release_Id Release_spec [OF j this] show ?thesis by (simp add: serve_def)
next
  case (Admit_Reserved r p)
  with q have "plan_object p" by (simp add: request_ok_def)
  from AdmitLocked_spec [OF E j this, of r] show ?thesis
    unfolding Admit_Reserved by (rule served4) (simp_all add: serve_def)
next
  case (Admit_Plan p)
  with q have "plan_object p" by (simp add: request_ok_def)
  from Admit_spec [OF E j this] show ?thesis
    unfolding Admit_Plan by (rule served3) (simp_all add: serve_def)
next
  case (Admit_With i p)
  with q have "plan_object p" "i \<noteq> 0" by (simp_all add: request_ok_def)
  from AdmitWithOperationId_spec [OF E j this] show ?thesis
    unfolding Admit_With by (rule served3) (simp_all add: serve_def)
next
  case (Run_Admitted r)
  from TransitionToRunning_spec [OF E j, of r] show ?thesis
    unfolding Run_Admitted by (rule served4) (simp_all add: serve_def)
next
  case (Finalize_Admitted r s)
  from FinalizeAdmission_spec [OF E j, of r s] show ?thesis
    unfolding Finalize_Admitted by (rule served4) (simp_all add: serve_def)
next
  case (Finalize_Run r rs s)
  from Finalize_spec [OF E j, of r rs s] show ?thesis
    unfolding Finalize_Run by (rule served4) (simp_all add: serve_def)
next
  case (Transition_Plan i s)
  from Transition_spec [OF E j, of i s] show ?thesis
    unfolding Transition_Plan by (rule served3) (simp_all add: serve_def)
next
  case (Record_Result i r)
  from RecordItemResult_spec [OF E j, of i r] show ?thesis
    unfolding Record_Result by (rule served3) (simp_all add: serve_def)
qed

section \<open>Steps\<close>

inductive journal_step :: "'w JournalEnv \<Rightarrow> Impl \<times> 'w \<Rightarrow> Impl \<times> 'w \<Rightarrow> bool" for E where
  Served: "request_ok q \<Longrightarrow> serve (env_json E) (env_syscalls E) q j w = Some (e, j', w') \<Longrightarrow>
    journal_step E (j, w) (j', w')"
| Elsewhere: "env_view E w' = env_view E w \<Longrightarrow> journal_step E (j, w) (j, w')"

inductive_cases journal_stepE: "journal_step E (j, w) (j', w')"

lemma step_advanced:
  assumes E: "journal_env_ok E" and j: "journal_inv E j w" and "journal_step E (j, w) (j', w')"
  shows "advanced E j j' w'"
  using assms(3)
proof (elim journal_stepE)
  fix q e assume "request_ok q" "serve (env_json E) (env_syscalls E) q j w = Some (e, j', w')"
  with serve_spec [OF E j] show ?thesis by fastforce
next
  assume "j' = j" "env_view E w' = env_view E w"
  with j show ?thesis
    by (simp add: advanced_def journal_inv_def store.consistent_def journal_saves_def)
qed

lemma run_advanced:
  assumes E: "journal_env_ok E" and "(journal_step E)\<^sup>*\<^sup>* (j, w) (j', w')" and j: "journal_inv E j w"
  shows "advanced E j j' w'"
  using assms(2)
proof (induction rule: rtranclp_induct2)
  case refl
  show ?case using j by (rule advanced_refl)
next
  case (step a v b x)
  from step.IH have "journal_inv E a v" by (simp add: advanced_def)
  from step_advanced [OF E this step.hyps(2)] step.IH show ?case by (blast intro: advanced_trans)
qed

section \<open>Opening\<close>

text \<open>
  The system around \<open>Open\<close>: opening directories and the lock file and taking the lock leave the
  journal alone, and the path leads to a directory that keeps \<open>posix_ok\<close>.
\<close>

definition quiet :: "'w JournalEnv \<Rightarrow> ('w \<Rightarrow> ('a \<times> 'w)) \<Rightarrow> bool" where
  "quiet E call \<longleftrightarrow> (\<forall>w r w'. call w = (r, w') \<longrightarrow> env_view E w' = env_view E w)"

definition open_env_ok :: "'w JournalEnv \<Rightarrow> bytes \<Rightarrow> bool" where
  "open_env_ok E path \<longleftrightarrow> json_ok (env_json E) \<and> clock_law (env_syscalls E) (env_view E)
     \<and> (\<forall>name flags. quiet E (sys_open (env_syscalls E) name flags))
     \<and> (\<forall>fd name. quiet E (sys_open_at (env_syscalls E) fd name Open_Directory)
          \<and> quiet E (sys_open_at (env_syscalls E) fd name Open_Lock))
     \<and> (\<forall>fd. quiet E (sys_flock (env_syscalls E) fd) \<and> quiet E (sys_fstat (env_syscalls E) fd))
     \<and> (\<forall>fd w r w'. sys_close (env_syscalls E) fd w = (r, w') \<longrightarrow> env_view E w' = close_fd fd (env_view E w))
     \<and> (\<forall>w fd w'. OperationJournalOpenParent (env_syscalls E) path w = (Inr fd, w') \<longrightarrow>
          posix_ok (env_syscalls E) fd (env_view E) (env_interrupts E))"

text \<open>The environment of the journal that was opened at the descriptor.\<close>

definition opened_env :: "'w JournalEnv \<Rightarrow> int \<Rightarrow> 'w JournalEnv" where
  "opened_env E fd = E\<lparr>env_directory := fd\<rparr>"

lemma opened_env_sel [simp]:
  "env_json (opened_env E fd) = env_json E" "env_syscalls (opened_env E fd) = env_syscalls E"
  "env_directory (opened_env E fd) = fd" "env_view (opened_env E fd) = env_view E"
  "env_interrupts (opened_env E fd) = env_interrupts E"
  by (simp_all add: opened_env_def)

definition same_files :: "'w JournalEnv \<Rightarrow> 'w \<Rightarrow> 'w \<Rightarrow> bool" where
  "same_files E w w' \<longleftrightarrow> disk_journal (env_view E w') = disk_journal (env_view E w)
     \<and> disk_crash (env_view E w') = disk_crash (env_view E w)"

lemma same_files_trans: "same_files E a b \<Longrightarrow> same_files E b c \<Longrightarrow> same_files E a c"
  by (simp add: same_files_def)

lemma close_same: "open_env_ok E path \<Longrightarrow> same_files E w (CloseNoThrow (env_syscalls E) fd w)"
  by (cases "sys_close (env_syscalls E) fd w") (auto simp: open_env_ok_def same_files_def CloseNoThrow_def)

text \<open>The calls of \<open>Open\<close> one by one.\<close>

lemma open_calls:
  assumes "open_env_ok E path"
  shows "sys_open (env_syscalls E) name flags w = (o1, w') \<Longrightarrow> same_files E w w'"
    "sys_open_at (env_syscalls E) fd name Open_Directory w = (o2, w') \<Longrightarrow> same_files E w w'"
    "sys_open_at (env_syscalls E) fd name Open_Lock w = (o2, w') \<Longrightarrow> same_files E w w'"
    "sys_flock (env_syscalls E) fd w = (o3, w') \<Longrightarrow> same_files E w w'"
    "sys_fstat (env_syscalls E) fd w = (o4, w') \<Longrightarrow> same_files E w w'"
  using assms by (simp_all add: open_env_ok_def quiet_def same_files_def)

lemma open_components_same:
  assumes E: "open_env_ok E path" and "open_components (env_syscalls E) fd names w = (r, w')"
  shows "same_files E w w'"
  using assms(2)
proof (induction names arbitrary: fd w)
  case Nil
  then show ?case by (simp add: same_files_def)
next
  case (Cons name names)
  obtain x w1 where o: "sys_open_at (env_syscalls E) fd name Open_Directory w = (x, w1)"
    by (cases "sys_open_at (env_syscalls E) fd name Open_Directory w")
  then have "same_files E w w1" by (rule open_calls [OF E])
  moreover have "same_files E w1 (CloseNoThrow (env_syscalls E) fd w1)" using E by (rule close_same)
  ultimately show ?case using Cons o by (auto split: sum.splits intro: same_files_trans)
qed

lemma OpenParent_same:
  assumes E: "open_env_ok E path" and "OperationJournalOpenParent (env_syscalls E) path w = (r, w')"
  shows "same_files E w w'"
proof -
  obtain x w1 where o: "sys_open (env_syscalls E) ''/'' Open_Directory w = (x, w1)"
    by (cases "sys_open (env_syscalls E) ''/'' Open_Directory w")
  then have "same_files E w w1" by (rule open_calls [OF E])
  with assms(2) o open_components_same [OF E] show ?thesis
    by (auto simp: OperationJournalOpenParent_def same_files_def split: if_splits sum.splits)
qed

lemma open_lock_same:
  assumes E: "open_env_ok E path" and "open_lock (env_syscalls E) fd w = (r, w')"
  shows "same_files E w w'"
proof -
  obtain x w1 where o: "sys_open_at (env_syscalls E) fd lock_filename Open_Lock w = (x, w1)"
    by (cases "sys_open_at (env_syscalls E) fd lock_filename Open_Lock w")
  then have w1: "same_files E w w1" by (rule open_calls [OF E])
  note close = close_same [OF E]
  show ?thesis
  proof (cases x)
    case (Inl e)
    with assms(2) o w1 close [of w1 fd] show ?thesis by (auto simp: open_lock_def intro: same_files_trans)
  next
    case (Inr lock)
    obtain st w2 where s: "sys_fstat (env_syscalls E) lock w1 = (st, w2)"
      by (cases "sys_fstat (env_syscalls E) lock w1")
    obtain l w3 where l: "sys_flock (env_syscalls E) lock w2 = (l, w3)"
      by (cases "sys_flock (env_syscalls E) lock w2")
    have "same_files E w1 w2" "same_files E w2 w3" using open_calls(5) [OF E s] open_calls(4) [OF E l] by simp_all
    with w1 have "same_files E w w2" "same_files E w w3" by (blast intro: same_files_trans)+
    moreover have "same_files E v (abandon (env_syscalls E) lock fd v)" for v
      unfolding abandon_def by (rule same_files_trans [OF close close])
    ultimately show ?thesis using assms(2) o s l Inr
      by (auto simp: open_lock_def split: if_splits sum.splits intro: same_files_trans)
  qed
qed

end
