(* ===== verification/JournalOpen.thy ===== *)
theory JournalOpen
  imports JournalRuns
begin

text \<open>
  What \<open>OperationJournal::Open\<close> does, whatever the journal's file holds: it returns, and the state it
  makes is the ledger of the file with every unfinished entry interrupted. A journal opened on a disk
  on which nothing is pending satisfies the invariant of \<open>JournalOps\<close>.
\<close>

section \<open>Interrupted entries\<close>

lemma interrupt_sel [simp]:
  "operation_id (interrupt t e) = operation_id e" "entry_plan (interrupt t e) = entry_plan e"
  "item_results (interrupt t e) = item_results e" "\<not> unfinished (interrupt t e)"
  by (auto simp: interrupt_def unfinished_def)

lemma interrupt_finished: "\<not> unfinished e \<Longrightarrow> interrupt t e = e"
  by (simp add: interrupt_def unfinished_def)

lemma entry_ok_interrupt: "entry_ok e \<Longrightarrow> in_int64 t \<Longrightarrow> entry_ok (interrupt t e)"
  by (auto simp: entry_ok_def interrupt_def OperationJournalValidEntryLifecycle_def Let_def split: if_splits)

lemma ledger_interrupt: "ledger_ok es n \<Longrightarrow> in_int64 t \<Longrightarrow> ledger_ok (map (interrupt t) es) n"
  by (auto simp: ledger_ok_def list_all_iff comp_def intro: entry_ok_interrupt)

lemma extends_interrupt: "extends es (map (interrupt t) es)"
  by (simp add: extends_def entry_le_interrupt)

lemma interrupt_all_finished: "\<not> list_ex unfinished es \<Longrightarrow> map (interrupt t) es = es"
  by (rule map_idI) (auto simp: list_ex_iff intro: interrupt_finished)

section \<open>Loading and settling\<close>

lemma load_spec:
  assumes S: "posix_ok S fd view interrupts"
  shows "\<exists>r w'. load_journal J S fd w = Some (r, w') \<and> (\<forall>d. r = Inr d \<longrightarrow> (case disk_journal (view w) of
      Some contents \<Rightarrow> OperationJournalDecode J contents = Inr d \<and> untouched_journal view w w'
    | None \<Rightarrow> d = \<lparr>decoded_entries = [], decoded_next_operation_sequence = 1, decoded_requires_migration = False\<rparr>
        \<and> (\<exists>encoded. OperationJournalEncode J [] 1 = Inr encoded \<and> disk_journal (view w') = Some encoded
             \<and> disk_crash (view w') = {Some encoded})))"
proof -
  obtain r w1 where r: "OperationJournalRead S fd w = Some (r, w1)" "untouched_journal view w w1"
    "\<And>c. r = Inr c \<Longrightarrow> c = disk_journal (view w)" using Read_spec [OF S, of w] by blast
  show ?thesis
  proof (cases r)
    case (Inl e)
    with r show ?thesis by (simp add: load_journal_def)
  next
    case (Inr found)
    show ?thesis
    proof (cases found)
      case (Some contents)
      with r Inr have "disk_journal (view w) = Some contents" by simp
      with r(1,2) Inr Some show ?thesis by (simp add: load_journal_def)
    next
      case None
      with r Inr have none: "disk_journal (view w) = None" by simp
      obtain s committed w2 where s: "OperationJournalPersist J S fd [] 1 w1 = Some (s, committed, w2)" "s = Inr () \<longrightarrow> committed"
        "committed \<longrightarrow> (\<exists>encoded. OperationJournalEncode J [] 1 = Inr encoded
           \<and> (s = Inr () \<longrightarrow> disk_journal (view w2) = Some encoded \<and> disk_crash (view w2) = {Some encoded}))"
        using Persist_spec [OF S, of J "[]" 1 w1] by blast
      with r(1) Inr None none show ?thesis by (cases s) (auto simp: load_journal_def)
    qed
  qed
qed

lemma settle_spec:
  assumes E: "journal_env_ok E" and d: "ledger_ok (decoded_entries d) (decoded_next_operation_sequence d)"
  shows "\<exists>r w'. settle_journal (env_json E) (env_syscalls E) (env_directory E) d w = Some (r, w') \<and> (\<forall>es. r = Inr es \<longrightarrow>
      (\<exists>t. in_int64 t \<and> es = map (interrupt t) (decoded_entries d))
      \<and> (if decoded_requires_migration d \<or> list_ex unfinished (decoded_entries d)
         then journal_saves E w' {(es, decoded_next_operation_sequence d)} else env_view E w' = env_view E w))"
proof -
  obtain t w1 where clock: "sys_clock (env_syscalls E) w = (t, w1)" by (cases "sys_clock (env_syscalls E) w")
  then have t: "in_int64 t" "env_view E w1 = env_view E w" using E by (simp_all add: journal_env_ok_def clock_law_def)
  show ?thesis
  proof (cases "decoded_requires_migration d \<or> list_ex unfinished (decoded_entries d)")
    case False
    with clock t show ?thesis by (auto simp: settle_journal_def interrupt_all_finished intro!: exI [of _ t])
  next
    case True
    let ?es = "map (interrupt t) (decoded_entries d)" and ?n = "decoded_next_operation_sequence d"
    obtain r c w2 where p: "persist_in E ?es ?n w1 = Some (r, c, w2)" using store.returns [OF E] by blast
    with True clock have eq: "settle_journal (env_json E) (env_syscalls E) (env_directory E) d w =
        Some (map_sum id (\<lambda>_. ?es) r, w2)"
      by (cases r) (simp_all add: settle_journal_def persist_in_def Let_def)
    show ?thesis
    proof (cases r)
      case (Inr u)
      with store.stored [OF E ledger_interrupt [OF d t(1)]] p have "journal_saves E w2 {(?es, ?n)}" by simp
      with eq Inr True t(1) show ?thesis by (intro exI conjI) auto
    qed (use eq in simp)
  qed
qed

section \<open>Opening\<close>

text \<open>What a journal was opened on: the entries and high-water mark of its file, and if they were stored again.\<close>

definition loaded_from :: "Json \<Rightarrow> bytes option \<Rightarrow> OperationJournalDecoded \<Rightarrow> bool" where
  "loaded_from J c d \<longleftrightarrow> (case c of
      None \<Rightarrow> d = \<lparr>decoded_entries = [], decoded_next_operation_sequence = 1, decoded_requires_migration = False\<rparr>
    | Some contents \<Rightarrow> OperationJournalDecode J contents = Inr d)"

lemma loaded_ledger: "loaded_from J c d \<Longrightarrow> ledger_ok (decoded_entries d) (decoded_next_operation_sequence d)"
  by (auto simp: loaded_from_def decoded_ledger split: option.splits) (simp add: ledger_ok_def)

text \<open>Nothing but the present contents can be found after a crash.\<close>

definition settled :: "disk \<Rightarrow> bool" where
  "settled d \<longleftrightarrow> disk_crash d \<subseteq> {disk_journal d}"

text \<open>The outcome of \<open>Open\<close>: what was loaded, the time of the interruption, and how it was stored.\<close>

definition opened_as ::
  "'w JournalEnv \<Rightarrow> 'w \<Rightarrow> OperationJournalDecoded \<Rightarrow> int \<Rightarrow> Impl \<Rightarrow> 'w \<Rightarrow> bool" where
  "opened_as E w d t j w' \<longleftrightarrow> loaded_from (env_json E) (disk_journal (env_view E w)) d \<and> in_int64 t
     \<and> j_entries j = map (interrupt t) (decoded_entries d)
     \<and> j_next_operation_sequence j = decoded_next_operation_sequence d
     \<and> (if disk_journal (env_view E w) = None \<or> decoded_requires_migration d \<or> list_ex unfinished (decoded_entries d)
        then journal_saves (opened_env E (j_parent_fd j)) w' {(j_entries j, j_next_operation_sequence j)}
        else same_files E w w')"

lemma open_env_posix:
  "open_env_ok E path \<Longrightarrow> OperationJournalOpenParent (env_syscalls E) path w = (Inr fd, w') \<Longrightarrow>
     posix_ok (env_syscalls E) fd (env_view E) (env_interrupts E)"
  unfolding open_env_ok_def by blast

lemma Open_spec:
  assumes E: "open_env_ok E path"
  shows "\<exists>r w'. OperationJournal_Open (env_json E) (env_syscalls E) inst path w = Some (r, w') \<and> (\<forall>j. r = Inr j \<longrightarrow>
    journal_env_ok (opened_env E (j_parent_fd j)) \<and> j_usable j \<and> j_reservations j = (\<lambda>_. None) \<and> j_instance j = inst
    \<and> (\<exists>d t. opened_as E w d t j w'))"
proof -
  let ?S = "env_syscalls E" and ?J = "env_json E"
  obtain r1 w1 where p: "OperationJournalOpenParent ?S path w = (r1, w1)" by (cases "OperationJournalOpenParent ?S path w")
  show ?thesis
  proof (cases r1)
    case (Inl e)
    with p show ?thesis by (simp add: OperationJournal_Open_def)
  next
    case (Inr fd)
    let ?E = "opened_env E fd"
    from open_env_posix [OF E] p Inr have S: "posix_ok ?S fd (env_view E) (env_interrupts E)" by simp
    then have env: "journal_env_ok ?E" using E by (simp add: journal_env_ok_def open_env_ok_def)
    obtain r2 w2 where s: "sys_fstat ?S fd w1 = (r2, w2)" by (cases "sys_fstat ?S fd w1")
    obtain r3 w3 where l: "open_lock ?S fd w2 = (r3, w3)" by (cases "open_lock ?S fd w2")
    have same: "same_files E w w3"
      using OpenParent_same [OF E p] open_calls(5) [OF E s] open_lock_same [OF E l] by (blast intro: same_files_trans)
    then have w3: "disk_journal (env_view E w3) = disk_journal (env_view E w)" by (simp add: same_files_def)
    from load_spec [OF S, of ?J w3] obtain r4 w4 where load: "load_journal ?J ?S fd w3 = Some (r4, w4)" and
      post: "\<forall>d. r4 = Inr d \<longrightarrow> (case disk_journal (env_view E w3) of
          Some contents \<Rightarrow> OperationJournalDecode ?J contents = Inr d \<and> untouched_journal (env_view E) w3 w4
        | None \<Rightarrow> d = \<lparr>decoded_entries = [], decoded_next_operation_sequence = 1, decoded_requires_migration = False\<rparr>
        \<and> (\<exists>encoded. OperationJournalEncode ?J [] 1 = Inr encoded \<and> disk_journal (env_view E w4) = Some encoded
             \<and> disk_crash (env_view E w4) = {Some encoded}))" by blast
    show ?thesis
    proof (cases "\<exists>st lock d. r2 = Inr st \<and> owned_directory ?S st \<and> r3 = Inr lock \<and> r4 = Inr d")
      case False
      with p Inr s l load show ?thesis
        by (auto simp: OperationJournal_Open_def split: sum.splits)
    next
      case True
      then obtain st lock d where ok: "r2 = Inr st" "owned_directory ?S st" "r3 = Inr lock" "r4 = Inr d" by blast
      with post w3 have d: "loaded_from ?J (disk_journal (env_view E w)) d"
        by (auto simp: loaded_from_def split: option.splits)
      from settle_spec [OF env, unfolded opened_env_sel, OF loaded_ledger [OF d], of w4] obtain r5 w5 where
        settle: "settle_journal ?J ?S fd d w4 = Some (r5, w5)" and es: "\<forall>es. r5 = Inr es \<longrightarrow>
          (\<exists>t. in_int64 t \<and> es = map (interrupt t) (decoded_entries d))
          \<and> (if decoded_requires_migration d \<or> list_ex unfinished (decoded_entries d)
             then journal_saves ?E w5 {(es, decoded_next_operation_sequence d)} else env_view E w5 = env_view E w4)"
        by blast
      have "(if disk_journal (env_view E w) = None \<or> decoded_requires_migration d \<or> list_ex unfinished (decoded_entries d)
            then journal_saves ?E w5 {(entries, decoded_next_operation_sequence d)} else same_files E w w5)"
        if "r5 = Inr entries" for entries
      proof (cases "disk_journal (env_view E w)")
        case None
        with post ok w3 obtain encoded where d: "decoded_entries d = []" "decoded_next_operation_sequence d = 1"
            "\<not> decoded_requires_migration d" and e: "OperationJournalEncode ?J [] 1 = Inr encoded"
            "disk_journal (env_view E w4) = Some encoded" "disk_crash (env_view E w4) = {Some encoded}"
          by auto
        have "decodes_to ?J (Some encoded) ([], 1)"
          using decodes_to_encoded [OF _ _ e(1)] E by (simp add: open_env_ok_def ledger_ok_def)
        moreover have "entries = []" "env_view E w5 = env_view E w4" using es that d by auto
        ultimately show ?thesis using None d e by (simp add: journal_saves_def)
      next
        case (Some contents)
        with post ok w3 have "same_files E w3 w4" by (simp add: untouched_journal_def same_files_def)
        with same have "same_files E w w4" by (rule same_files_trans)
        with Some es that show ?thesis by (auto simp: same_files_def)
      qed
      then have outcome: "\<exists>d t. opened_as E w d t j w5"
        if "r5 = Inr (j_entries j)" "j_next_operation_sequence j = decoded_next_operation_sequence d"
          "j_parent_fd j = fd" for j
        using that es d unfolding opened_as_def by metis
      show ?thesis
        using p Inr s l load ok settle env outcome by (cases r5) (auto simp: OperationJournal_Open_def)
    qed
  qed
qed

text \<open>On a disk that is settled, the journal is consistent with it from the start.\<close>

lemma opened_inv:
  assumes E: "open_env_ok E path" and w: "settled (env_view E w)"
    and op: "OperationJournal_Open (env_json E) (env_syscalls E) inst path w = Some (Inr j, w')"
  shows "journal_env_ok (opened_env E (j_parent_fd j))" "journal_inv (opened_env E (j_parent_fd j)) j w'"
proof -
  let ?E = "opened_env E (j_parent_fd j)"
  from Open_spec [OF E, of inst w] op obtain d t where env: "journal_env_ok ?E"
    and j: "j_reservations j = (\<lambda>_. None)" and d: "opened_as E w d t j w'" by auto
  from d have l: "loaded_from (env_json E) (disk_journal (env_view E w)) d" and t: "in_int64 t"
    and es: "j_entries j = map (interrupt t) (decoded_entries d)"
      "j_next_operation_sequence j = decoded_next_operation_sequence d"
    by (simp_all add: opened_as_def)
  note ledger = ledger_interrupt [OF loaded_ledger [OF l] t, folded es]
  have "journal_saves ?E w' {(j_entries j, j_next_operation_sequence j)}"
  proof (cases "disk_journal (env_view E w) = None \<or> decoded_requires_migration d \<or> list_ex unfinished (decoded_entries d)")
    case True
    with d show ?thesis by (auto simp: opened_as_def)
  next
    case False
    then obtain contents where c: "disk_journal (env_view E w) = Some contents" by auto
    from False d have same: "same_files E w w'" by (simp add: opened_as_def)
    have "decodes_to (env_json E) (Some contents) (j_entries j, j_next_operation_sequence j)"
      using l c False es by (simp add: decodes_to_def loaded_from_def interrupt_all_finished)
    moreover have "insert (disk_journal (env_view E w')) (disk_crash (env_view E w')) \<subseteq> {Some contents}"
      using same w c by (auto simp: same_files_def settled_def)
    ultimately show ?thesis by (auto simp: journal_saves_def)
  qed
  then show "journal_env_ok ?E" "journal_inv ?E j w'"
    using env ledger j es(2) store.consistentI [of ?E w' j "j_next_operation_sequence j"]
    by (simp_all add: journal_inv_def reservations_ok_def)
qed

end
