(* ===== verification/JournalSample.thy ===== *)
theory JournalSample
  imports JournalOpen
begin

text \<open>
  A journal in the directory in memory, from its creation over the admission and the run of one plan to
  its end. The instances of the properties of the journal are taken from this run.
\<close>

section \<open>Storing and loading in memory\<close>

definition mem_env :: "disk JournalEnv" where
  "mem_env = \<lparr>env_json = sample_json, env_syscalls = mem_syscalls, env_directory = 3, env_view = id,
     env_interrupts = (\<lambda>_. 0)\<rparr>"

lemma mem_env_sel [simp]:
  "env_json mem_env = sample_json" "env_syscalls mem_env = mem_syscalls" "env_directory mem_env = 3"
  "env_view mem_env = id" "env_interrupts mem_env = (\<lambda>_. 0)"
  by (simp_all add: mem_env_def)

definition mem_disk :: "bytes \<Rightarrow> disk" where
  "mem_disk c = mem_empty\<lparr>disk_journal := Some c, disk_crash := {Some c}\<rparr>"

definition mem_clean :: "disk \<Rightarrow> bool" where
  "mem_clean d \<longleftrightarrow> disk_temps d = (\<lambda>_. None) \<and> disk_writers d = (\<lambda>_. None) \<and> disk_readers d = (\<lambda>_. None)"

lemma mem_clean_disks [simp]: "mem_clean mem_empty" "mem_clean (mem_disk c)"
  by (simp_all add: mem_clean_def mem_disk_def mem_empty_def)

lemma mem_calls [simp]:
  "sys_open mem_syscalls path flags d = (Inr 3, d)" "sys_open_at mem_syscalls = mem_open_at"
  "sys_read mem_syscalls = mem_read" "sys_write mem_syscalls = mem_write" "sys_fsync mem_syscalls = mem_fsync"
  "sys_fstat mem_syscalls fd d = (Inr (mem_stat fd), d)" "sys_flock mem_syscalls fd d = (Inr (), d)"
  "sys_rename_at mem_syscalls = mem_rename" "sys_close mem_syscalls fd d = (Inr (), close_fd fd d)"
  "sys_random_bytes mem_syscalls n d = (Some (replicate n CHR 0x00), d)" "sys_geteuid mem_syscalls = 501"
  "sys_clock mem_syscalls d = (9, d)"
  by (simp_all add: mem_syscalls_def)

lemma mem_write_temporary:
  assumes "mem_clean d" "encoded \<noteq> []"
  shows "write_temporary mem_syscalls 3 encoded d = Some (Inr (temporary_name (replicate 16 CHR 0x00)),
    d\<lparr>disk_temps := [temporary_name (replicate 16 CHR 0x00) \<mapsto> (encoded, True)]\<rparr>)"
proof -
  let ?t = "temporary_name (replicate 16 CHR 0x00)"
  let ?d = "open_writer 5 ?t d"
  have create: "create_temporary mem_syscalls 3 8 d = (Inr (?t, 5), ?d)"
    using assms(1) by (simp add: numeral_eq_Suc mem_open_at_def mem_clean_def)
  have d: "disk_writers ?d 5 = Some ?t" "disk_temps ?d ?t = Some ([], False)" by simp_all
  have "write_loop mem_syscalls 5 encoded ?d = Some (Inr (), put_temp ?t (encoded, False) ?d)"
    using assms(2) d
    by (subst write_loop.simps) (simp add: mem_write_def, subst write_loop.simps, simp)
  moreover have "fsync_loop mem_syscalls JE_FileSyncFailed 5 (put_temp ?t (encoded, False) ?d) =
      Some (Inr (), put_temp ?t (encoded, True) ?d)"
    using d by (subst fsync_loop.simps) (simp add: mem_fsync_def)
  ultimately have "write_temporary mem_syscalls 3 encoded d =
      Some (Inr ?t, close_fd 5 (put_temp ?t (encoded, True) ?d))"
    using create by (simp add: write_temporary_def)
  moreover have "close_fd 5 (put_temp ?t (encoded, True) ?d) = d\<lparr>disk_temps := [?t \<mapsto> (encoded, True)]\<rparr>"
    using assms(1) by (simp add: close_fd_def put_temp_def open_writer_def mem_clean_def fun_upd_idem)
  ultimately show ?thesis by simp
qed

lemma mem_persist:
  assumes "mem_clean d" "OperationJournalEncode sample_json es n = Inr encoded" "encoded \<noteq> []"
  shows "OperationJournalPersist sample_json mem_syscalls 3 es n d =
    Some (Inr (), True, d\<lparr>disk_journal := Some encoded, disk_crash := {Some encoded}\<rparr>)"
proof -
  let ?t = "temporary_name (replicate 16 CHR 0x00)"
  let ?d = "d\<lparr>disk_journal := Some encoded, disk_crash := insert (Some encoded) (disk_crash d)\<rparr>"
  have "mem_rename 3 ?t 3 journal_filename (d\<lparr>disk_temps := [?t \<mapsto> (encoded, True)]\<rparr>) = (Inr (), ?d)"
    using assms(1) by (simp add: mem_rename_def mem_clean_def)
  moreover have "fsync_loop mem_syscalls JE_DurabilityUncertain 3 ?d = Some (Inr (), ?d\<lparr>disk_crash := {Some encoded}\<rparr>)"
    by (subst fsync_loop.simps) (simp add: mem_fsync_def)
  ultimately have "rename_temporary mem_syscalls 3 ?t (d\<lparr>disk_temps := [?t \<mapsto> (encoded, True)]\<rparr>) =
      Some (Inr (), d\<lparr>disk_journal := Some encoded, disk_crash := {Some encoded}\<rparr>)"
    by (simp add: rename_temporary_def)
  with assms(2) mem_write_temporary [OF assms(1,3)] show ?thesis by (simp add: OperationJournalPersist_def)
qed

lemma mem_read_loop:
  "disk_readers d 6 = Some rest \<Longrightarrow> length contents + length rest \<le> MaxJournalBytes \<Longrightarrow>
     read_loop mem_syscalls 6 contents d =
       Some (Inr (contents @ rest), d\<lparr>disk_readers := (disk_readers d)(6 \<mapsto> [])\<rparr>)"
proof (induction "length rest" arbitrary: rest contents d rule: less_induct)
  case less
  show ?case
  proof (cases "rest = []")
    case True
    with less.prems show ?thesis
      by (subst read_loop.simps) (simp add: mem_read_def fun_upd_idem)
  next
    case False
    let ?n = read_buffer and ?d = "d\<lparr>disk_readers := (disk_readers d)(6 \<mapsto> drop read_buffer rest)\<rparr>"
    have n: "0 < ?n" by (simp add: read_buffer_def)
    have fits: "\<not> MaxJournalBytes - length contents < length rest" using less.prems by arith
    have short: "length (drop ?n rest) < length rest" using False n by simp
    have "read_loop mem_syscalls 6 (contents @ take ?n rest) ?d =
        Some (Inr (contents @ take ?n rest @ drop ?n rest), ?d\<lparr>disk_readers := (disk_readers ?d)(6 \<mapsto> [])\<rparr>)"
      using less.hyps [OF short, of ?d "contents @ take ?n rest"] less.prems by simp
    moreover have "read_loop mem_syscalls 6 contents d = read_loop mem_syscalls 6 (contents @ take ?n rest) ?d"
      using less.prems False n fits by (subst read_loop.simps) (simp add: mem_read_def)
    ultimately show ?thesis by simp
  qed
qed

lemma mem_Read:
  assumes "mem_clean d"
  shows "disk_journal d = None \<Longrightarrow> OperationJournalRead mem_syscalls 3 d = Some (Inr None, d)"
    "disk_journal d = Some c \<Longrightarrow> length c \<le> MaxJournalBytes \<Longrightarrow>
       OperationJournalRead mem_syscalls 3 d = Some (Inr (Some c), d)"
proof -
  assume "disk_journal d = None"
  then show "OperationJournalRead mem_syscalls 3 d = Some (Inr None, d)"
    by (simp add: OperationJournalRead_def mem_open_at_def)
next
  assume c: "disk_journal d = Some c" "length c \<le> MaxJournalBytes"
  let ?d = "d\<lparr>disk_readers := (disk_readers d)(6 \<mapsto> c)\<rparr>"
  have "private_file mem_syscalls (mem_stat 6)" "st_size (mem_stat 6) = 0"
    by (simp_all add: private_file_def S_ISREG_def mem_stat_def)
  moreover have "read_loop mem_syscalls 6 [] ?d = Some (Inr c, d\<lparr>disk_readers := (disk_readers d)(6 \<mapsto> [])\<rparr>)"
    using mem_read_loop [of ?d c "[]"] c(2) by simp
  moreover have "close_fd 6 (d\<lparr>disk_readers := (disk_readers d)(6 \<mapsto> [])\<rparr>) = d"
    using assms by (simp add: close_fd_def mem_clean_def fun_upd_idem)
  ultimately show "OperationJournalRead mem_syscalls 3 d = Some (Inr (Some c), d)"
    using c(1) by (simp add: OperationJournalRead_def mem_open_at_def)
qed

section \<open>One operation from beginning to end\<close>

definition sample_started :: "OperationJournalState \<Rightarrow> OperationJournalEntry" where
  "sample_started s = \<lparr>operation_id = 1, entry_plan = sample_plan, entry_state = s, updated_at = 9, item_results = []\<rparr>"

definition sample_finished :: OperationJournalEntry where
  "sample_finished = sample_entry\<lparr>updated_at := 9\<rparr>"

definition sample_saved :: "bytes \<Rightarrow> json list \<Rightarrow> bytes" where
  "sample_saved token items = write_json (journal_document 2 [JObject (zip entry_names
     [JString ''op-1'', sample_encoded, JString token, JNum 9000, JArray items])])"

definition sample_created :: bytes where
  "sample_created = write_json (journal_document 1 [])"

lemma Encode_created: "OperationJournalEncode sample_json [] 1 = Inr sample_created"
proof -
  have "length sample_created \<le> MaxJournalBytes"
    by (simp add: sample_created_def journal_document_def journal_names_def quoted_def decimal_int_def decimal.simps
        MaxJournalBytes_def JournalSchemaVersion_def)
  then show ?thesis by (simp add: OperationJournalEncode_def sample_created_def sample_json_def)
qed

lemma sample_saved_size:
  "length token \<le> 100 \<Longrightarrow> items \<in> {[], [sample_item_value]} \<Longrightarrow> length (sample_saved token items) \<le> MaxJournalBytes"
  by (auto simp: sample_saved_def journal_document_def sample_item_value_def sample_encoded_def item_names_def
      entry_names_def journal_names_def quoted_def decimal_int_def decimal.simps MaxJournalBytes_def
      JournalSchemaVersion_def)

lemma sample_started_lifecycle:
  "s \<in> {State_Admitted, State_Running, State_Interrupted} \<Longrightarrow> OperationJournalValidEntryLifecycle (sample_started s)"
  by (auto simp: OperationJournalValidEntryLifecycle_def OperationJournalValidOrderedItemResults_def
      sample_started_def)

lemma sample_finished_lifecycle: "OperationJournalValidEntryLifecycle sample_finished"
  using sample_result_valid
  by (simp add: OperationJournalValidEntryLifecycle_def OperationJournalValidOrderedItemResults_def
      sample_finished_def sample_entry_def sample_plan_sel has_status_def) (simp add: sample_result_def)

lemma Encode_started:
  assumes s: "s \<in> {State_Admitted, State_Running, State_Interrupted}" and t: "OperationJournalStateToken s = Some token"
  shows "OperationJournalEncode sample_json [sample_started s] 2 = Inr (sample_saved token [])"
proof -
  have "length (sample_saved token []) \<le> MaxJournalBytes"
    using s t by (intro sample_saved_size) (auto simp: OperationJournalStateToken_def)
  moreover have "encode_entry sample_json (sample_started s) = Inr (JObject (zip entry_names
      [JString ''op-1'', sample_encoded, JString token, JNum 9000, JArray []]))"
    using sample_started_lifecycle [OF s] t
    by (simp add: encode_entry_def reject_if_def)
      (simp add: sample_started_def sample_encoded_plan OperationJournalEpochNanoseconds_def epoch_nanoseconds_def
        Period_num_def Period_den_def in_int64_def sample_id)
  ultimately show ?thesis
    by (simp add: OperationJournalEncode_def MaxEntries_def)
      (simp add: sample_started_def sample_saved_def sample_json_def)
qed

lemma Encode_finished:
  "OperationJournalEncode sample_json [sample_finished] 2 = Inr (sample_saved ''completed'' [sample_item_value])"
proof -
  have "length (sample_saved ''completed'' [sample_item_value]) \<le> MaxJournalBytes"
    by (intro sample_saved_size) auto
  moreover have "encode_entry sample_json sample_finished = Inr (JObject (zip entry_names
      [JString ''op-1'', sample_encoded, JString ''completed'', JNum 9000, JArray [sample_item_value]]))"
    using sample_finished_lifecycle encode_sample_item
    by (simp add: encode_entry_def reject_if_def)
      (simp add: sample_finished_def sample_entry_def sample_encoded_plan OperationJournalEpochNanoseconds_def
        epoch_nanoseconds_def Period_num_def Period_den_def in_int64_def OperationJournalStateToken_def sample_id)
  ultimately show ?thesis
    by (simp add: OperationJournalEncode_def MaxEntries_def)
      (simp add: sample_finished_def sample_entry_def sample_saved_def sample_json_def MaxItemResults_def)
qed

text \<open>The states of the journal that are passed.\<close>

definition sample_state :: "OperationJournalEntry list \<Rightarrow> u64 \<Rightarrow> u64 \<Rightarrow> Impl" where
  "sample_state es n nonce = \<lparr>j_instance = 0, j_entries = es, j_next_operation_sequence = n,
     j_next_reservation_nonce = nonce, j_reservations = (\<lambda>_. None), j_parent_fd = 3, j_lock_fd = 7,
     j_parent_device = 1, j_parent_inode = 2, j_usable = True\<rparr>"

definition sample_admission :: OperationJournalAdmissionReceipt where
  "sample_admission = \<lparr>adm_JournalInstance = Some 0, adm_OperationId = 1, adm_Plan = sample_plan, adm_Consumed = False\<rparr>"

definition sample_run :: OperationJournalRunReceipt where
  "sample_run = \<lparr>run_JournalInstance = Some 0, run_OperationId = 1, run_Plan = sample_plan, run_Consumed = False\<rparr>"

lemma mem_Open:
  assumes "load_journal sample_json mem_syscalls 3 d = Some (Inr x, d1)"
    "settle_journal sample_json mem_syscalls 3 x d1 = Some (Inr es, d2)"
  shows "OperationJournal_Open sample_json mem_syscalls 0 ''/'' d =
    Some (Inr (sample_state es (decoded_next_operation_sequence x) 1), d2)"
proof -
  have "OperationJournalOpenParent mem_syscalls ''/'' d = (Inr 3, d)"
    by (simp add: OperationJournalOpenParent_def OperationJournalValidParentPath_def)
  moreover have "owned_directory mem_syscalls (mem_stat 3)"
    by (simp add: owned_directory_def S_ISDIR_def mem_stat_def)
  moreover have "private_file mem_syscalls (mem_stat 7)" by (simp add: private_file_def S_ISREG_def mem_stat_def)
  then have "open_lock mem_syscalls 3 d = (Inr 7, d)" by (simp add: open_lock_def mem_open_at_def)
  ultimately show ?thesis using assms
    by (simp add: OperationJournal_Open_def sample_state_def mem_stat_def)
qed

lemma written_not_empty: "write_json (journal_document n vs) \<noteq> []"
  by (simp add: journal_document_def)

lemma sample_Open:
  "OperationJournal_Open sample_json mem_syscalls 0 ''/'' mem_empty =
     Some (Inr (sample_state [] 1 1), mem_disk sample_created)"
proof -
  have "mem_empty\<lparr>disk_journal := Some sample_created, disk_crash := {Some sample_created}\<rparr> = mem_disk sample_created"
    by (simp add: mem_disk_def)
  with mem_persist [OF _ Encode_created] written_not_empty
  have "OperationJournalPersist sample_json mem_syscalls 3 [] 1 mem_empty = Some (Inr (), True, mem_disk sample_created)"
    by (simp add: sample_created_def)
  moreover have "disk_journal mem_empty = None" by (simp add: mem_empty_def)
  ultimately show ?thesis
    using mem_Open [of mem_empty] mem_Read(1) by (simp add: load_journal_def settle_journal_def)
qed

text \<open>Each operation replaces the contents of the file.\<close>

lemma mem_publish:
  assumes "OperationJournalEncode sample_json es n = Inr (write_json (journal_document m vs))"
  shows "publish (OperationJournalPersist sample_json mem_syscalls 3) es n j (mem_disk c) =
    Some (Inr (), True, j\<lparr>j_entries := es\<rparr>, mem_disk (write_json (journal_document m vs)))"
proof -
  have "mem_disk c\<lparr>disk_journal := Some d, disk_crash := {Some d}\<rparr> = mem_disk d" for d by (simp add: mem_disk_def)
  with mem_persist [OF _ assms written_not_empty, of "mem_disk c"] show ?thesis by (simp add: publish_def)
qed

lemmas sample_publish =
  mem_publish [OF Encode_started [unfolded sample_saved_def], folded sample_saved_def]
  mem_publish [OF Encode_finished [unfolded sample_saved_def], folded sample_saved_def]

lemma sample_Admit:
  "Admit sample_json mem_syscalls sample_plan (sample_state [] 1 1) (mem_disk sample_created) =
     Some (Inr sample_admission, sample_state [sample_started State_Admitted] 2 2,
       mem_disk (sample_saved ''admitted'' []))"
proof -
  have "admitted_entry 1 sample_plan 9 = sample_started State_Admitted"
    by (simp add: admitted_entry_def sample_started_def)
  then show ?thesis
    using sample_publish(1) [of State_Admitted "''admitted''"]
    by (simp add: Admit_def ReserveOperationId_def sample_state_def AdmitLocked_def Let_def has_operation_def
        has_plan_def MaxEntries_def OperationJournalStateToken_def Release_def sample_admission_def)
qed

lemma sample_TransitionToRunning:
  "TransitionToRunning sample_json mem_syscalls sample_admission (sample_state [sample_started State_Admitted] 2 2)
      (mem_disk (sample_saved ''admitted'' [])) =
     Some (Inr sample_run, sample_admission\<lparr>adm_Consumed := True\<rparr>, sample_state [sample_started State_Running] 2 2,
       mem_disk (sample_saved ''running'' []))"
  using sample_publish(1) [of State_Running "''running''"]
  by (simp add: TransitionToRunning_def sample_state_def sample_admission_def entry_for_def sample_started_def
      OperationJournalStateToken_def sample_run_def)

lemma sample_Finalize:
  "Finalize sample_json mem_syscalls sample_run [sample_result] State_Completed (sample_state [sample_started State_Running] 2 2)
      (mem_disk (sample_saved ''running'' [])) =
     Some (Inr (), sample_run\<lparr>run_Consumed := True\<rparr>, sample_state [sample_finished] 2 2,
       mem_disk (sample_saved ''completed'' [sample_item_value]))"
proof -
  let ?e = "(sample_started State_Running)\<lparr>item_results := [sample_result], entry_state := State_Completed, updated_at := 9\<rparr>"
  have e: "?e = sample_finished" by (simp add: sample_started_def sample_finished_def sample_entry_def)
  have "OperationJournalValidOrderedItemResults sample_plan [sample_result]"
    using sample_result_valid by (simp add: OperationJournalValidOrderedItemResults_def)
  then show ?thesis
    using sample_publish(2) sample_finished_lifecycle
    unfolding e [symmetric]
    by (simp add: Finalize_def sample_state_def sample_run_def entry_for_def sample_started_def total_results_def
        MaxItemResults_def OperationJournalLegalTransition_def Let_def)
qed

text \<open>A crash while the operation runs, and the next start.\<close>

lemma sample_started_ledger:
  "s \<in> {State_Admitted, State_Running, State_Interrupted} \<Longrightarrow> ledger_ok [sample_started s] 2"
  using sample_plan_ok sample_started_lifecycle [of s]
  by (simp add: ledger_ok_def entry_ok_def) (simp add: sample_started_def in_int64_def)

lemma sample_Reopen:
  "OperationJournal_Open sample_json mem_syscalls 0 ''/'' (mem_disk (sample_saved ''running'' [])) =
     Some (Inr (sample_state [sample_started State_Interrupted] 2 1), mem_disk (sample_saved ''interrupted'' []))"
proof -
  let ?d = "\<lparr>decoded_entries = [sample_started State_Running], decoded_next_operation_sequence = 2,
    decoded_requires_migration = False\<rparr>"
  let ?c = "sample_saved ''running'' []" and ?i = "sample_saved ''interrupted'' []"
  have "OperationJournalDecode sample_json ?c = Inr ?d"
    using Decode_Encode_journal [OF sample_json_ok sample_started_ledger Encode_started, of State_Running]
    by (simp add: OperationJournalStateToken_def)
  moreover have "length ?c \<le> MaxJournalBytes" by (intro sample_saved_size) auto
  moreover have "disk_journal (mem_disk ?c) = Some ?c" by (simp add: mem_disk_def)
  ultimately have load: "load_journal sample_json mem_syscalls 3 (mem_disk ?c) = Some (Inr ?d, mem_disk ?c)"
    using mem_Read(2) by (simp add: load_journal_def)
  have "interrupt 9 (sample_started State_Running) = sample_started State_Interrupted"
    by (simp add: interrupt_def sample_started_def)
  moreover have "mem_disk ?c\<lparr>disk_journal := Some ?i, disk_crash := {Some ?i}\<rparr> = mem_disk ?i"
    by (simp add: mem_disk_def)
  then have "OperationJournalPersist sample_json mem_syscalls 3 [sample_started State_Interrupted] 2 (mem_disk ?c) =
      Some (Inr (), True, mem_disk ?i)"
    using mem_persist [OF _ Encode_started, of "mem_disk ?c" State_Interrupted "''interrupted''"]
    by (simp add: OperationJournalStateToken_def sample_saved_def written_not_empty)
  moreover have "unfinished (sample_started State_Running)" by (simp add: unfinished_def sample_started_def)
  ultimately have "settle_journal sample_json mem_syscalls 3 ?d (mem_disk ?c) =
      Some (Inr [sample_started State_Interrupted], mem_disk ?i)"
    by (simp add: settle_journal_def Let_def)
  from mem_Open [OF load this] show ?thesis by simp
qed

lemma mem_open_env: "open_env_ok mem_env ''/''"
proof -
  have "clock_law mem_syscalls id" by (simp add: clock_law_def in_int64_def)
  moreover have "quiet mem_env (mem_open_at fd name Open_Directory)" "quiet mem_env (mem_open_at fd name Open_Lock)"
    for fd name by (simp_all add: quiet_def mem_open_at_def)
  moreover have "OperationJournalOpenParent mem_syscalls ''/'' w = (Inr 3, w)" for w
    by (simp add: OperationJournalOpenParent_def OperationJournalValidParentPath_def)
  ultimately show ?thesis
    using sample_json_ok mem_posix by (simp add: open_env_ok_def quiet_def)
qed

end
