(* ===== verification/JournalTheorems.thy ===== *)
theory JournalTheorems
  imports JournalSample
begin

text \<open>
  Properties of the journal as a whole: along every run of requests, with whatever receipts, and over a
  crash at any moment of it.
\<close>

section \<open>Runs of an opened journal\<close>

text \<open>A journal that was opened at \<open>path\<close> when nothing was pending on the disk, as after a start of the system.\<close>

definition opened :: "'w JournalEnv \<Rightarrow> bytes \<Rightarrow> Impl \<Rightarrow> 'w \<Rightarrow> bool" where
  "opened E path j w \<longleftrightarrow> (\<exists>inst w0. settled (env_view E w0)
     \<and> OperationJournal_Open (env_json E) (env_syscalls E) inst path w0 = Some (Inr j, w))"

lemma step_opened_env [simp]: "journal_step (opened_env E fd) = journal_step E"
proof -
  have "journal_step E' x y" if "journal_step E x y" "env_json E' = env_json E" "env_syscalls E' = env_syscalls E"
    "env_view E' = env_view E" for E E' :: "'a JournalEnv" and x y
    using that by (induction rule: journal_step.induct) (auto intro: journal_step.intros)
  then show ?thesis by (intro ext iffI) (metis opened_env_sel)+
qed

lemma opened_run:
  assumes "open_env_ok E path" "opened E path j0 w0" "(journal_step E)\<^sup>*\<^sup>* (j0, w0) (j, w)"
  shows "journal_env_ok (opened_env E (j_parent_fd j0)) \<and> journal_inv (opened_env E (j_parent_fd j0)) j w"
proof -
  let ?E = "opened_env E (j_parent_fd j0)"
  from assms(2) obtain inst v where "settled (env_view E v)"
    "OperationJournal_Open (env_json E) (env_syscalls E) inst path v = Some (Inr j0, w0)"
    by (auto simp: opened_def)
  note inv = opened_inv [OF assms(1) this]
  have "(journal_step ?E)\<^sup>*\<^sup>* (j0, w0) (j, w)" using assms(3) by simp
  from run_advanced [OF inv(1) this inv(2)] inv(1) show ?thesis by (simp add: advanced_def)
qed

lemma opened_later:
  assumes "open_env_ok E path" "opened E path j0 w0" "(journal_step E)\<^sup>*\<^sup>* (j0, w0) (j1, w1)"
    "(journal_step E)\<^sup>*\<^sup>* (j1, w1) (j2, w2)"
  shows "advanced (opened_env E (j_parent_fd j0)) j1 j2 w2"
proof -
  from opened_run [OF assms(1-3)] have inv: "journal_env_ok (opened_env E (j_parent_fd j0))"
    "journal_inv (opened_env E (j_parent_fd j0)) j1 w1" by simp_all
  have "(journal_step (opened_env E (j_parent_fd j0)))\<^sup>*\<^sup>* (j1, w1) (j2, w2)" using assms(4) by simp
  from run_advanced [OF inv(1) this inv(2)] show ?thesis .
qed

text \<open>The operations on a state that a run has reached.\<close>

lemma opened_TransitionToRunning:
  assumes "open_env_ok E path" "opened E path j0 w0" "(journal_step E)\<^sup>*\<^sup>* (j0, w0) (j, w)"
    "TransitionToRunning (env_json E) (env_syscalls E) r j w = Some (x, r', j', w')"
  shows "advanced (opened_env E (j_parent_fd j0)) j j' w'"
    "x = Inr a \<Longrightarrow> \<exists>k t. entry_for State_Admitted (adm_OperationId r) (adm_Plan r) (j_entries j) = Some k
       \<and> j_entries j' = (j_entries j)[k := (j_entries j ! k)\<lparr>entry_state := State_Running, updated_at := t\<rparr>]"
proof -
  from opened_run [OF assms(1-3)] have "journal_env_ok (opened_env E (j_parent_fd j0))"
    "journal_inv (opened_env E (j_parent_fd j0)) j w" by simp_all
  from TransitionToRunning_spec [OF this, of r] assms(4)
  show "advanced (opened_env E (j_parent_fd j0)) j j' w'"
    "x = Inr a \<Longrightarrow> \<exists>k t. entry_for State_Admitted (adm_OperationId r) (adm_Plan r) (j_entries j) = Some k
       \<and> j_entries j' = (j_entries j)[k := (j_entries j ! k)\<lparr>entry_state := State_Running, updated_at := t\<rparr>]"
    by auto
qed

lemma extends_entry:
  assumes "extends es es'" "k < length es"
  shows "k < length es'" "entry_le (es ! k) (es' ! k)"
  using assms by (auto simp: extends_def)

section \<open>The ledger\<close>

text \<open>
  C6: whatever is requested of an opened journal, its entries form a ledger at every moment: valid
  lifecycles, no identity and no plan twice, the high-water mark above all identities. And the ledger
  only grows: entries are never dropped or reordered, keep identity and plan, lose no evidence, and
  never change again once they are completed, failed or cancelled.
\<close>

theorem journal_append_only:
  assumes "open_env_ok E path" and "opened E path j0 w0"
    and "(journal_step E)\<^sup>*\<^sup>* (j0, w0) (j1, w1)" and "(journal_step E)\<^sup>*\<^sup>* (j1, w1) (j2, w2)"
  shows "ledger_ok (j_entries j2) (j_next_operation_sequence j2) \<and> extends (j_entries j1) (j_entries j2)"
  using opened_later [OF assms] by (simp add: advanced_def journal_inv_def)

text \<open>
  C15: every request returns, and a request that fails leaves the ledger as it was. The loops over
  interrupted system calls are included: the system interrupts finitely often.
\<close>

theorem journal_returns:
  assumes "open_env_ok E path" and "opened E path j0 w0" and "(journal_step E)\<^sup>*\<^sup>* (j0, w0) (j, w)"
    and "request_ok q"
  shows "\<exists>e j' w'. serve (env_json E) (env_syscalls E) q j w = Some (e, j', w')
    \<and> (e \<noteq> None \<longrightarrow> j_entries j' = j_entries j)"
proof -
  from opened_run [OF assms(1-3)] have "journal_env_ok (opened_env E (j_parent_fd j0))"
    "journal_inv (opened_env E (j_parent_fd j0)) j w" by simp_all
  from serve_spec [OF this assms(4)] show ?thesis by auto
qed

text \<open>
  C3: an operation is started at most once. After a receipt was turned into the authority to run, no
  receipt for the same operation, forged, stale or copied, starts it again or finalises its admission,
  whatever is requested in between.
\<close>

theorem run_once:
  assumes "open_env_ok E path" and "opened E path j0 w0" and "(journal_step E)\<^sup>*\<^sup>* (j0, w0) (j, w)"
    and "TransitionToRunning (env_json E) (env_syscalls E) r j w = Some (Inr a, r1, j1, w1)"
    and "(journal_step E)\<^sup>*\<^sup>* (j1, w1) (j2, w2)" and "adm_OperationId s = adm_OperationId r"
  shows "(\<exists>e s' j' w'. TransitionToRunning (env_json E) (env_syscalls E) s j2 w2 = Some (Inl e, s', j', w'))
    \<and> (\<exists>e s' j' w'. FinalizeAdmission (env_json E) (env_syscalls E) s to j2 w2 = Some (Inl e, s', j', w'))"
proof -
  let ?E = "opened_env E (j_parent_fd j0)"
  from opened_run [OF assms(1-3)] have E: "journal_env_ok ?E" by simp
  from opened_TransitionToRunning [OF assms(1-4)] obtain k t where j1: "journal_inv ?E j1 w1"
    and k: "entry_for State_Admitted (adm_OperationId r) (adm_Plan r) (j_entries j) = Some k"
    and es: "j_entries j1 = (j_entries j)[k := (j_entries j ! k)\<lparr>entry_state := State_Running, updated_at := t\<rparr>]"
    by (auto simp: advanced_def)
  from entry_for_Some [OF k] have run: "k < length (j_entries j1)" "entry_state (j_entries j1 ! k) = State_Running"
    "operation_id (j_entries j1 ! k) = adm_OperationId r" by (simp_all add: es)
  have "(journal_step ?E)\<^sup>*\<^sup>* (j1, w1) (j2, w2)" using assms(5) by simp
  from run_advanced [OF E this j1] have j2: "journal_inv ?E j2 w2" and ext: "extends (j_entries j1) (j_entries j2)"
    by (simp_all add: advanced_def)
  note later = extends_entry [OF ext run(1)]
  have "entry_state (j_entries j2 ! k) \<noteq> State_Admitted"
    using later(2) run(2) by (auto simp: entry_le_def rank_def)
  moreover have "operation_id (j_entries j2 ! k) = adm_OperationId s"
    using later(2) run(3) assms(6) by (simp add: entry_le_def)
  moreover have "ledger_ok (j_entries j2) (j_next_operation_sequence j2)" using j2 by (simp add: journal_inv_def)
  ultimately have none: "entry_for State_Admitted (adm_OperationId s) (adm_Plan s) (j_entries j2) = None"
    using later(1) by (intro entry_for_None) auto
  have "\<exists>e s' j' w'. TransitionToRunning (env_json E) (env_syscalls E) s j2 w2 = Some (Inl e, s', j', w')"
    using none by (simp add: TransitionToRunning_def)
  moreover have "\<exists>e s' j' w'. FinalizeAdmission (env_json E) (env_syscalls E) s to j2 w2 = Some (Inl e, s', j', w')"
    using none by (simp add: FinalizeAdmission_def)
  ultimately show ?thesis by blast
qed

section \<open>Evidence\<close>

text \<open>
  C11: when \<open>Finalize\<close> reports success, the evidence and the terminal state are in the ledger under the
  identity and the plan of the receipt, and they are durable: the journal's file, and whatever a crash
  from now on may leave of it, decodes to exactly this ledger.
\<close>

theorem Finalize_durable:
  assumes "open_env_ok E path" and "opened E path j0 w0" and "(journal_step E)\<^sup>*\<^sup>* (j0, w0) (j, w)"
    and "Finalize (env_json E) (env_syscalls E) r rs to j w = Some (Inr u, r', j', w')"
  shows "\<exists>k n. k < length (j_entries j') \<and> operation_id (j_entries j' ! k) = run_OperationId r
    \<and> entry_plan (j_entries j' ! k) = run_Plan r \<and> entry_state (j_entries j' ! k) = to \<and> terminal to
    \<and> item_results (j_entries j' ! k) = rs
    \<and> (\<forall>c \<in> insert (disk_journal (env_view E w')) (disk_crash (env_view E w')).
         decodes_to (env_json E) c (j_entries j', n))"
proof -
  let ?E = "opened_env E (j_parent_fd j0)"
  from opened_run [OF assms(1-3)] have E: "journal_env_ok ?E" and j: "journal_inv ?E j w" by simp_all
  have "advanced ?E j j' w' \<and> j_usable j'
      \<and> (\<exists>k t. entry_for State_Running (run_OperationId r) (run_Plan r) (j_entries j) = Some k
            \<and> OperationJournalLegalTransition State_Running to
            \<and> j_entries j' = (j_entries j)
                [k := (j_entries j ! k)\<lparr>item_results := rs, entry_state := to, updated_at := t\<rparr>])"
    using Finalize_spec [OF E j, of r rs to] by (simp add: assms(4)) blast
  then obtain k t where "advanced ?E j j' w'" and usable: "j_usable j'"
    and k: "entry_for State_Running (run_OperationId r) (run_Plan r) (j_entries j) = Some k"
    and to: "OperationJournalLegalTransition State_Running to"
    and es: "j_entries j' = (j_entries j)
      [k := (j_entries j ! k)\<lparr>item_results := rs, entry_state := to, updated_at := t\<rparr>]"
    by (elim conjE exE)
  then have j': "journal_inv ?E j' w'" unfolding advanced_def by (elim conjE)
  note found = entry_for_Some [OF k]
  have "store.consistent ?E j' w'" using j' by (simp add: journal_inv_def)
  from store.consistent_usable [OF this usable] obtain n where "journal_saves ?E w' {(j_entries j', n)}" by blast
  then have "\<forall>c \<in> insert (disk_journal (env_view E w')) (disk_crash (env_view E w')).
       decodes_to (env_json E) c (j_entries j', n)" by (simp add: journal_saves_def)
  with found es LegalTransition_terminal [OF to] show ?thesis
    by (intro exI [of _ k] exI [of _ n] conjI) simp_all
qed

section \<open>Crashes\<close>

lemma reopened_ledger:
  assumes "open_env_ok E path" and "opened E path j0 w0" and "(journal_step E)\<^sup>*\<^sup>* (j0, w0) (j, w)"
    and "disk_journal (env_view E v) \<in> insert (disk_journal (env_view E w)) (disk_crash (env_view E w))"
    and "OperationJournal_Open (env_json E) (env_syscalls E) inst path v = Some (Inr j1, v')"
  shows "extends (j_entries j) (j_entries j1) \<and> \<not> list_ex unfinished (j_entries j1)"
proof -
  let ?E = "opened_env E (j_parent_fd j0)"
  from opened_run [OF assms(1-3)] have "store.consistent ?E j w" by (simp add: journal_inv_def)
  then obtain X where "journal_saves ?E w X" "\<forall>(es, n) \<in> X. ledger_ok es n \<and> extends (j_entries j) es"
    by (auto simp: store.consistent_def)
  with assms(4) obtain es n where es: "decodes_to (env_json E) (disk_journal (env_view E v)) (es, n)"
    "extends (j_entries j) es" by (fastforce simp: journal_saves_def)
  from Open_spec [OF assms(1), of inst v] assms(5) obtain d t
    where d: "loaded_from (env_json E) (disk_journal (env_view E v)) d"
      "j_entries j1 = map (interrupt t) (decoded_entries d)" by (auto simp: opened_as_def)
  from es(1) d(1) have "es = decoded_entries d" by (auto simp: decodes_to_def loaded_from_def)
  with es(2) d(2) extends_interrupt show ?thesis
    by (auto simp: list_ex_iff intro: extends_trans)
qed

text \<open>
  C1: a crash loses nothing that was reported. Let the system stop after any request, also after one
  that failed half-way through the publication of its snapshot, and let the journal be opened again on
  whatever the disk then holds. The ledger it starts with extends the one before the crash, and no
  entry is left as admitted or running.
\<close>

theorem crash_recovery:
  assumes "open_env_ok E path" and "opened E path j0 w0" and "(journal_step E)\<^sup>*\<^sup>* (j0, w0) (j, w)"
    and "disk_journal (env_view E v) \<in> insert (disk_journal (env_view E w)) (disk_crash (env_view E w))"
    and "OperationJournal_Open (env_json E) (env_syscalls E) inst path v = Some (Inr j1, v')"
  shows "extends (j_entries j) (j_entries j1) \<and> \<not> list_ex unfinished (j_entries j1)"
  using assms by (rule reopened_ledger)

text \<open>
  C25: opening always returns, whatever the file and the disk hold, and a journal that was opened is
  exactly the file's: a missing file is created as the empty ledger, admitted and running entries are
  interrupted and nothing else is touched, and identities continue at the file's high-water mark.
\<close>

theorem Open_recovers:
  assumes "open_env_ok E path"
  shows "\<exists>r w'. OperationJournal_Open (env_json E) (env_syscalls E) inst path w = Some (r, w') \<and> (\<forall>j. r = Inr j \<longrightarrow>
    (\<exists>d t. loaded_from (env_json E) (disk_journal (env_view E w)) d
       \<and> j_entries j = map (interrupt t) (decoded_entries d)
       \<and> j_next_operation_sequence j = decoded_next_operation_sequence d
       \<and> ledger_ok (j_entries j) (j_next_operation_sequence j) \<and> j_usable j))"
proof -
  from Open_spec [OF assms, of inst w] obtain r w'
    where r: "OperationJournal_Open (env_json E) (env_syscalls E) inst path w = Some (r, w')"
      and j: "\<And>j. r = Inr j \<Longrightarrow> j_usable j \<and> (\<exists>d t. opened_as E w d t j w')" by blast
  have "\<exists>d t. loaded_from (env_json E) (disk_journal (env_view E w)) d \<and> j_entries j = map (interrupt t) (decoded_entries d)
       \<and> j_next_operation_sequence j = decoded_next_operation_sequence d
       \<and> ledger_ok (j_entries j) (j_next_operation_sequence j) \<and> j_usable j" if "r = Inr j" for j
  proof -
    from j [OF that] obtain d t where "j_usable j" "opened_as E w d t j w'" by blast
    then show ?thesis
      using ledger_interrupt [OF loaded_ledger, of "env_json E" "disk_journal (env_view E w)" d t]
      by (intro exI [of _ d] exI [of _ t]) (simp add: opened_as_def)
  qed
  with r show ?thesis by blast
qed

section \<open>Identities\<close>

text \<open>
  C27: an identity that was handed out is never handed out again: a later reservation, whatever was
  requested in between, is for a larger one, and no entry had it before.
\<close>

theorem identities_fresh:
  assumes "open_env_ok E path" and "opened E path j0 w0" and "(journal_step E)\<^sup>*\<^sup>* (j0, w0) (j, w)"
    and "ReserveOperationId j = (Inr a, j1)"
    and "(journal_step E)\<^sup>*\<^sup>* (j1, w) (j2, w2)" and "ReserveOperationId j2 = (Inr b, j3)"
  shows "res_OperationId a < res_OperationId b \<and> \<not> has_operation (j_entries j) (res_OperationId a)"
proof -
  let ?E = "opened_env E (j_parent_fd j0)"
  from opened_run [OF assms(1-3)] have E: "journal_env_ok ?E" and j: "journal_inv ?E j w" by simp_all
  note r1 = ReserveOperationId_spec [OF j assms(4)]
  have j1: "journal_inv ?E j1 w" using r1(1) by (simp add: advanced_def)
  have "(journal_step ?E)\<^sup>*\<^sup>* (j1, w) (j2, w2)" using assms(5) by simp
  from run_advanced [OF E this j1] have j2: "journal_inv ?E j2 w2"
    "j_next_operation_sequence j1 \<le> j_next_operation_sequence j2" by (simp_all add: advanced_def)
  have "res_OperationId b = j_next_operation_sequence j2"
    using ReserveOperationId_spec(3) [OF j2(1) assms(6)] by simp
  moreover have "list_all (\<lambda>e. operation_id e < j_next_operation_sequence j) (j_entries j)"
    using j by (simp add: journal_inv_def ledger_ok_def)
  ultimately show ?thesis
    using r1(3) [OF refl] j2(2) by (auto simp: has_operation_def list_all_iff list_ex_iff)
qed

section \<open>What opening does not do\<close>

text \<open>
  C34: when all entries of the file are ended, \<open>Open\<close> only reads. If an earlier process could not
  synchronise the directory after renaming its snapshot into place, what it renamed is what a reader
  finds, but the contents before may come back after a crash. Opening the journal, which is how the
  code asks callers to reconcile after such a failure, reports these entries and leaves the uncertainty
  as it was. The witness has a completed entry that is reported and may be found running after a crash.
\<close>

theorem Open_leaves_uncertainty:
  assumes "open_env_ok E path" and "disk_journal (env_view E w) = Some contents"
    and "OperationJournalDecode (env_json E) contents = Inr d" and "\<not> decoded_requires_migration d"
    and "\<not> list_ex unfinished (decoded_entries d)"
    and "OperationJournal_Open (env_json E) (env_syscalls E) inst path w = Some (Inr j, w')"
  shows "j_entries j = decoded_entries d \<and> disk_crash (env_view E w') = disk_crash (env_view E w)"
proof -
  from Open_spec [OF assms(1), of inst w] assms(6) obtain d' t where o: "opened_as E w d' t j w'" by auto
  with assms(2,3) have "d' = d" by (simp add: opened_as_def loaded_from_def)
  with o assms(2,4,5) show ?thesis by (simp add: opened_as_def same_files_def interrupt_all_finished)
qed

section \<open>Instances\<close>

text \<open>The run of \<open>JournalSample\<close>: created, admitted, running, finished.\<close>

lemma sample_opened: "opened mem_env ''/'' (sample_state [] 1 1) (mem_disk sample_created)"
proof -
  have "settled mem_empty" by (simp add: settled_def mem_empty_def)
  then show ?thesis using sample_Open by (auto simp: opened_def)
qed

lemma sample_plan_object: "plan_object sample_plan"
  using sample_plan_ok by (simp add: plan_object_def in_int64_def sample_plan_def plan_of_def)

lemma sample_steps:
  "journal_step mem_env (sample_state [] 1 1, mem_disk sample_created)
     (sample_state [sample_started State_Admitted] 2 2, mem_disk (sample_saved ''admitted'' []))"
  "journal_step mem_env (sample_state [sample_started State_Admitted] 2 2, mem_disk (sample_saved ''admitted'' []))
     (sample_state [sample_started State_Running] 2 2, mem_disk (sample_saved ''running'' []))"
  "journal_step mem_env (sample_state [sample_started State_Running] 2 2, mem_disk (sample_saved ''running'' []))
     (sample_state [sample_finished] 2 2, mem_disk (sample_saved ''completed'' [sample_item_value]))"
  using Served [of "Admit_Plan sample_plan" mem_env "sample_state [] 1 1" "mem_disk sample_created"]
    Served [of "Run_Admitted sample_admission" mem_env "sample_state [sample_started State_Admitted] 2 2"
      "mem_disk (sample_saved ''admitted'' [])"]
    Served [of "Finalize_Run sample_run [sample_result] State_Completed" mem_env
      "sample_state [sample_started State_Running] 2 2" "mem_disk (sample_saved ''running'' [])"]
    sample_plan_object
  by (simp_all add: request_ok_def serve_def sample_Admit sample_TransitionToRunning sample_Finalize)

lemma sample_runs:
  "(journal_step mem_env)\<^sup>*\<^sup>* (sample_state [] 1 1, mem_disk sample_created)
     (sample_state [sample_started State_Admitted] 2 2, mem_disk (sample_saved ''admitted'' []))"
  "(journal_step mem_env)\<^sup>*\<^sup>* (sample_state [] 1 1, mem_disk sample_created)
     (sample_state [sample_started State_Running] 2 2, mem_disk (sample_saved ''running'' []))"
  "(journal_step mem_env)\<^sup>*\<^sup>* (sample_state [sample_started State_Running] 2 2, mem_disk (sample_saved ''running'' []))
     (sample_state [sample_finished] 2 2, mem_disk (sample_saved ''completed'' [sample_item_value]))"
proof -
  show "(journal_step mem_env)\<^sup>*\<^sup>* (sample_state [] 1 1, mem_disk sample_created)
     (sample_state [sample_started State_Admitted] 2 2, mem_disk (sample_saved ''admitted'' []))"
    using sample_steps(1) by (rule r_into_rtranclp)
  then show "(journal_step mem_env)\<^sup>*\<^sup>* (sample_state [] 1 1, mem_disk sample_created)
     (sample_state [sample_started State_Running] 2 2, mem_disk (sample_saved ''running'' []))"
    using sample_steps(2) by (rule rtranclp.rtrancl_into_rtrancl)
  show "(journal_step mem_env)\<^sup>*\<^sup>* (sample_state [sample_started State_Running] 2 2, mem_disk (sample_saved ''running'' []))
     (sample_state [sample_finished] 2 2, mem_disk (sample_saved ''completed'' [sample_item_value]))"
    using sample_steps(3) by (rule r_into_rtranclp)
qed

theorem journal_append_only_witness:
  "ledger_ok [sample_finished] 2 \<and> extends [sample_started State_Running] [sample_finished]"
  using journal_append_only [OF mem_open_env sample_opened sample_runs(2,3)] by (simp add: sample_state_def)

theorem journal_returns_witness:
  "\<exists>e j' w'. serve sample_json mem_syscalls (Run_Admitted sample_admission)
      (sample_state [sample_started State_Running] 2 2) (mem_disk (sample_saved ''running'' [])) = Some (e, j', w')
    \<and> (e \<noteq> None \<longrightarrow> j_entries j' = [sample_started State_Running])"
  using journal_returns [OF mem_open_env sample_opened sample_runs(2), of "Run_Admitted sample_admission"]
  by (simp add: request_ok_def sample_state_def)

theorem run_once_witness:
  "\<exists>e s' j' w'. TransitionToRunning sample_json mem_syscalls sample_admission (sample_state [sample_finished] 2 2)
     (mem_disk (sample_saved ''completed'' [sample_item_value])) = Some (Inl e, s', j', w')"
  using run_once [OF mem_open_env sample_opened sample_runs(1), of sample_admission sample_run _ _ _ _ _ sample_admission]
    sample_TransitionToRunning sample_runs(3) by simp

theorem Finalize_durable_witness:
  "\<exists>n. decodes_to sample_json (disk_journal (mem_disk (sample_saved ''completed'' [sample_item_value])))
     ([sample_finished], n)"
  using Finalize_durable [OF mem_open_env sample_opened sample_runs(2), of sample_run "[sample_result]" State_Completed]
    sample_Finalize by (auto simp: sample_state_def)

theorem crash_recovery_witness:
  "extends [sample_started State_Running] [sample_started State_Interrupted]
    \<and> \<not> list_ex unfinished [sample_started State_Interrupted]"
  using crash_recovery [OF mem_open_env sample_opened sample_runs(2), of "mem_disk (sample_saved ''running'' [])" 0]
    sample_Reopen by (simp add: sample_state_def)

theorem Open_recovers_witness:
  "\<exists>j w'. OperationJournal_Open sample_json mem_syscalls 0 ''/'' (mem_disk (sample_saved ''running'' [])) = Some (Inr j, w')
    \<and> ledger_ok (j_entries j) (j_next_operation_sequence j)"
  using Open_recovers [OF mem_open_env, of 0 "mem_disk (sample_saved ''running'' [])"] sample_Reopen
  by auto

theorem identities_fresh_witness:
  "\<exists>a b j1 j3. ReserveOperationId (sample_state [] 1 1) = (Inr a, j1) \<and> ReserveOperationId j1 = (Inr b, j3)
    \<and> res_OperationId a < res_OperationId b"
proof -
  obtain a j1 where a: "ReserveOperationId (sample_state [] 1 1) = (Inr a, j1)"
    by (simp add: ReserveOperationId_def sample_state_def Let_def)
  then obtain b j3 where b: "ReserveOperationId j1 = (Inr b, j3)"
    by (auto simp: ReserveOperationId_def sample_state_def Let_def)
  have "(journal_step mem_env)\<^sup>*\<^sup>* (j1, mem_disk sample_created) (j1, mem_disk sample_created)" by simp
  from identities_fresh [OF mem_open_env sample_opened rtranclp.rtrancl_refl a this b] a b show ?thesis by blast
qed

text \<open>The operation has ended, and the renaming of its last snapshot is not yet durable.\<close>

definition mem_uncertain :: disk where
  "mem_uncertain = (mem_disk (sample_saved ''completed'' [sample_item_value]))
     \<lparr>disk_crash := {Some (sample_saved ''completed'' [sample_item_value]), Some (sample_saved ''running'' [])}\<rparr>"

lemma sample_finished_ledger: "ledger_ok [sample_finished] 2"
  using sample_plan_ok sample_finished_lifecycle
  by (simp add: ledger_ok_def entry_ok_def) (simp add: sample_finished_def sample_entry_def in_int64_def)

theorem Open_leaves_uncertainty_witness:
  "\<exists>j d. OperationJournal_Open sample_json mem_syscalls 0 ''/'' mem_uncertain = Some (Inr j, d)
    \<and> j_entries j = [sample_finished]
    \<and> Some (sample_saved ''running'' []) \<in> disk_crash d
    \<and> decodes_to sample_json (Some (sample_saved ''running'' [])) ([sample_started State_Running], 2)"
proof -
  let ?c = "sample_saved ''completed'' [sample_item_value]"
  let ?d = "\<lparr>decoded_entries = [sample_finished], decoded_next_operation_sequence = 2, decoded_requires_migration = False\<rparr>"
  have decode: "OperationJournalDecode sample_json ?c = Inr ?d"
    by (rule Decode_Encode_journal [OF sample_json_ok sample_finished_ledger Encode_finished])
  have ended: "\<not> list_ex unfinished [sample_finished]"
    by (simp add: unfinished_def sample_finished_def sample_entry_def)
  have clean: "mem_clean mem_uncertain" "disk_journal mem_uncertain = Some ?c" "length ?c \<le> MaxJournalBytes"
    by (simp_all add: mem_clean_def mem_uncertain_def mem_disk_def mem_empty_def, intro sample_saved_size, simp_all)
  from mem_Read(2) [OF clean] decode
  have "load_journal sample_json mem_syscalls 3 mem_uncertain = Some (Inr ?d, mem_uncertain)"
    by (simp add: load_journal_def)
  moreover have "settle_journal sample_json mem_syscalls 3 ?d mem_uncertain = Some (Inr [sample_finished], mem_uncertain)"
    using ended by (simp add: settle_journal_def)
  ultimately have op: "OperationJournal_Open sample_json mem_syscalls 0 ''/'' mem_uncertain =
      Some (Inr (sample_state [sample_finished] 2 1), mem_uncertain)" using mem_Open by fastforce
  have "decodes_to sample_json (Some (sample_saved ''running'' [])) ([sample_started State_Running], 2)"
    using decodes_to_encoded [OF sample_json_ok sample_started_ledger Encode_started, of State_Running]
    by (simp add: OperationJournalStateToken_def)
  with op Open_leaves_uncertainty [OF mem_open_env, of mem_uncertain ?c ?d 0] clean(2) decode ended show ?thesis
    by (simp add: mem_uncertain_def)
qed

end
