(* ===== verification/JournalMapper.thy ===== *)
theory JournalMapper
  imports Journal
begin

text \<open>
  What the executor of a copy or a deletion reports, as a result of the journal
  (\<open>ProviderConditionalCopyJournalMapper.cpp\<close>, with the provider's types of \<open>ProviderCapabilities.h\<close>), and
  which results may be tried again (\<open>OperationRetryPolicy.cpp\<close>). The journal accepts everything that the
  mapper makes.
\<close>

section \<open>The result of a provider\<close>

datatype ProviderConditionalCopyPublicationState =
    Provider_NotPublished | Provider_Published | Provider_Unknown | Provider_PublicationInvalid

datatype ProviderConditionalCopyCommitFailure =
    Commit_None | Commit_Aborted | Commit_Cancelled | Commit_SourceStale | Commit_DestinationParentStale
  | Commit_DestinationExists | Commit_MetadataFailed | Commit_FileSystemSyncFailed
  | Commit_ProviderFailure | Commit_Invalid

datatype ProviderConditionalCopyFilesystemSyncStatus =
    Provider_NotAttempted | Provider_Confirmed | Provider_Failed | Provider_SyncInvalid

record ProviderConditionalCopyCommitResult =
  commit_publication :: ProviderConditionalCopyPublicationState
  commit_failure :: ProviderConditionalCopyCommitFailure
  commit_system_error :: i32
  commit_sync_status :: ProviderConditionalCopyFilesystemSyncStatus
  commit_sync_system_error :: i32

record ProviderConditionalCopyJournalContext =
  context_item_index :: nat
  exact_source_bytes :: u64
  removes_source :: bool

datatype ProviderConditionalCopyJournalMappingError =
  Mapping_NonExecutionTerminal | Mapping_InconsistentResult

section \<open>Consistency\<close>

definition errno_ESTALE :: i32 where "errno_ESTALE = 70"
definition errno_EEXIST :: i32 where "errno_EEXIST = 17"

definition sync_consistent :: "ProviderConditionalCopyCommitResult \<Rightarrow> bool" where
  "sync_consistent c = (case commit_sync_status c of
      Provider_NotAttempted \<Rightarrow> commit_sync_system_error c = 0
    | Provider_Confirmed \<Rightarrow> commit_sync_system_error c = 0
    | Provider_Failed \<Rightarrow> commit_sync_system_error c \<noteq> 0
    | Provider_SyncInvalid \<Rightarrow> False)"

definition unpublished_consistent :: "ProviderConditionalCopyCommitResult \<Rightarrow> bool" where
  "unpublished_consistent c =
     (if commit_sync_status c \<noteq> Provider_NotAttempted then False
      else case commit_failure c of
        Commit_Aborted \<Rightarrow> commit_system_error c = 0
      | Commit_Cancelled \<Rightarrow> commit_system_error c = 0
      | Commit_SourceStale \<Rightarrow> commit_system_error c = errno_ESTALE
      | Commit_DestinationParentStale \<Rightarrow> commit_system_error c = errno_ESTALE
      | Commit_DestinationExists \<Rightarrow> commit_system_error c = errno_EEXIST
      | Commit_ProviderFailure \<Rightarrow> commit_system_error c \<noteq> 0
      | _ \<Rightarrow> False)"

definition published_consistent :: "ProviderConditionalCopyCommitResult \<Rightarrow> bool" where
  "published_consistent c = (case commit_failure c of
      Commit_None \<Rightarrow> commit_system_error c = 0 \<and> commit_sync_status c = Provider_Confirmed
    | Commit_MetadataFailed \<Rightarrow> commit_system_error c \<noteq> 0 \<and> commit_sync_status c \<noteq> Provider_NotAttempted
    | Commit_FileSystemSyncFailed \<Rightarrow> commit_system_error c \<noteq> 0 \<and> commit_sync_status c = Provider_Failed \<and>
        commit_sync_system_error c = commit_system_error c
    | Commit_ProviderFailure \<Rightarrow> commit_system_error c \<noteq> 0 \<and> commit_sync_status c \<noteq> Provider_NotAttempted
    | _ \<Rightarrow> False)"

definition ProviderConditionalCopyJournalResultIsConsistent :: "ProviderConditionalCopyCommitResult \<Rightarrow> bool" where
  "ProviderConditionalCopyJournalResultIsConsistent c =
     (if sint (commit_system_error c) < 0 \<or> sint (commit_sync_system_error c) < 0 then False
      else if \<not> sync_consistent c then False
      else case commit_publication c of
        Provider_NotPublished \<Rightarrow> unpublished_consistent c
      | Provider_Unknown \<Rightarrow> commit_failure c = Commit_ProviderFailure \<and> commit_system_error c \<noteq> 0 \<and>
          commit_sync_status c = Provider_NotAttempted
      | Provider_Published \<Rightarrow> published_consistent c
      | Provider_PublicationInvalid \<Rightarrow> False)"

section \<open>Mapping\<close>

definition ProviderConditionalCopyJournalPublication ::
  "ProviderConditionalCopyPublicationState \<Rightarrow>
   ProviderConditionalCopyJournalMappingError + OperationJournalPublicationState" where
  "ProviderConditionalCopyJournalPublication s = (case s of
      Provider_NotPublished \<Rightarrow> Inr Publication_NotPublished
    | Provider_Published \<Rightarrow> Inr Publication_Published
    | Provider_Unknown \<Rightarrow> Inr Publication_Unknown
    | Provider_PublicationInvalid \<Rightarrow> Inl Mapping_InconsistentResult)"

definition ProviderConditionalCopyJournalRemoval ::
  "ProviderConditionalCopyPublicationState \<Rightarrow>
   ProviderConditionalCopyJournalMappingError + OperationJournalRemovalState" where
  "ProviderConditionalCopyJournalRemoval s = (case s of
      Provider_NotPublished \<Rightarrow> Inr Removal_NotRemoved
    | Provider_Published \<Rightarrow> Inr Removal_Removed
    | Provider_Unknown \<Rightarrow> Inr Removal_Unknown
    | Provider_PublicationInvalid \<Rightarrow> Inl Mapping_InconsistentResult)"

definition ProviderConditionalCopyJournalFilesystemSync ::
  "ProviderConditionalCopyFilesystemSyncStatus \<Rightarrow>
   ProviderConditionalCopyJournalMappingError + OperationJournalFilesystemSyncStatus" where
  "ProviderConditionalCopyJournalFilesystemSync s = (case s of
      Provider_NotAttempted \<Rightarrow> Inr Sync_NotAttempted
    | Provider_Confirmed \<Rightarrow> Inr Sync_Confirmed
    | Provider_Failed \<Rightarrow> Inr Sync_Failed
    | Provider_SyncInvalid \<Rightarrow> Inl Mapping_InconsistentResult)"

text \<open>The switch over the failure: status, error and recovery, which start as Failed, Unknown and Retry.\<close>

definition inspect_action :: "bool \<Rightarrow> OperationJournalRecoveryAction" where
  "inspect_action removes = (if removes then Recovery_InspectSource else Recovery_InspectDestination)"

definition mapped_failure ::
  "ProviderConditionalCopyCommitResult \<Rightarrow> bool \<Rightarrow> ProviderConditionalCopyJournalMappingError +
   (OperationJournalItemStatus \<times> OperationJournalItemError \<times> OperationJournalRecoveryAction)" where
  "mapped_failure c removes = (case commit_failure c of
      Commit_None \<Rightarrow> Inr (Status_Succeeded, Item_None, Recovery_None)
    | Commit_Cancelled \<Rightarrow> Inr (Status_Cancelled, Item_Cancelled, Recovery_None)
    | Commit_SourceStale \<Rightarrow> Inr (Status_Failed, Item_SourceChanged, Recovery_Retry)
    | Commit_DestinationParentStale \<Rightarrow> Inr (Status_Failed, Item_DestinationChanged, Recovery_Retry)
    | Commit_DestinationExists \<Rightarrow> Inr (Status_Failed, Item_DestinationChanged, Recovery_Retry)
    | Commit_MetadataFailed \<Rightarrow> Inr (Status_Failed, Item_Metadata, inspect_action removes)
    | Commit_FileSystemSyncFailed \<Rightarrow> Inr (Status_Failed, Item_Commit, inspect_action removes)
    | Commit_ProviderFailure \<Rightarrow>
        (if commit_publication c = Provider_NotPublished then Inr (Status_Failed, Item_Unknown, Recovery_Retry)
         else Inr (Status_Failed, Item_Commit, inspect_action removes))
    | Commit_Aborted \<Rightarrow> Inl Mapping_NonExecutionTerminal
    | Commit_Invalid \<Rightarrow> Inr (Status_Failed, Item_Unknown, Recovery_Retry))"

definition MapProviderConditionalCopyCommitResultToJournalItemResult ::
  "ProviderConditionalCopyCommitResult \<Rightarrow> ProviderConditionalCopyJournalContext \<Rightarrow>
   ProviderConditionalCopyJournalMappingError + OperationJournalItemResult" where
  "MapProviderConditionalCopyCommitResultToJournalItemResult c ctx =
     (if \<not> ProviderConditionalCopyJournalResultIsConsistent c then Inl Mapping_InconsistentResult
      else if commit_failure c = Commit_Aborted then Inl Mapping_NonExecutionTerminal
      else case (ProviderConditionalCopyJournalPublication (commit_publication c),
          ProviderConditionalCopyJournalFilesystemSync (commit_sync_status c)) of
        (Inr publication, Inr filesystem_sync) \<Rightarrow>
          bindR (mapped_failure c (removes_source ctx)) (\<lambda>(status, error, recovery).
          case ProviderConditionalCopyJournalRemoval (commit_publication c) of
            Inl _ \<Rightarrow> Inl Mapping_InconsistentResult
          | Inr removal \<Rightarrow> Inr \<lparr>item_index = context_item_index ctx, item_status = status, item_error = error,
              system_error = commit_system_error c, prior_error = Item_None, prior_system_error = 0,
              bytes_done = (if commit_publication c = Provider_Published then exact_source_bytes ctx else 0),
              destination_publication = (if removes_source ctx then Publication_NotPublished else publication),
              source_removal = (if removes_source ctx then removal else Removal_NotRemoved),
              filesystem_sync_status = filesystem_sync,
              filesystem_sync_system_error = commit_sync_system_error c, recovery_action = recovery\<rparr>)
      | _ \<Rightarrow> Inl Mapping_InconsistentResult)"

section \<open>The mapper and the journal\<close>

lemmas consistency_defs = ProviderConditionalCopyJournalResultIsConsistent_def sync_consistent_def
  unpublished_consistent_def published_consistent_def
lemmas mapping_defs = MapProviderConditionalCopyCommitResultToJournalItemResult_def mapped_failure_def
  ProviderConditionalCopyJournalPublication_def ProviderConditionalCopyJournalRemoval_def
  ProviderConditionalCopyJournalFilesystemSync_def inspect_action_def

lemma axes_exclusive:
  "OperationJournalRemovesSource t \<Longrightarrow> \<not> OperationJournalPublishesDestination t"
  "OperationJournalPublishesDestination t \<Longrightarrow> \<not> OperationJournalRemovesSource t"
  by (auto simp: OperationJournalRemovesSource_def OperationJournalPublishesDestination_def)

lemma consistent_errors:
  "ProviderConditionalCopyJournalResultIsConsistent c \<Longrightarrow>
     0 \<le> sint (commit_system_error c) \<and> 0 \<le> sint (commit_sync_system_error c)"
  by (simp add: ProviderConditionalCopyJournalResultIsConsistent_def not_less split: if_splits)

text \<open>The combinations that are consistent: what was published, the failure, and the synchronisation.\<close>

lemma consistent_cases:
  assumes "ProviderConditionalCopyJournalResultIsConsistent c" "commit_failure c \<noteq> Commit_Aborted"
  obtains
    (unpublished) "commit_publication c = Provider_NotPublished" "commit_sync_status c = Provider_NotAttempted"
      "commit_failure c \<in> {Commit_Cancelled, Commit_SourceStale, Commit_DestinationParentStale,
         Commit_DestinationExists, Commit_ProviderFailure}"
      "commit_system_error c = 0 \<longleftrightarrow> commit_failure c = Commit_Cancelled"
  | (unknown) "commit_publication c = Provider_Unknown" "commit_sync_status c = Provider_NotAttempted"
      "commit_failure c = Commit_ProviderFailure" "commit_system_error c \<noteq> 0"
  | (succeeded) "commit_publication c = Provider_Published" "commit_sync_status c = Provider_Confirmed"
      "commit_failure c = Commit_None" "commit_system_error c = 0"
  | (failed) "commit_publication c = Provider_Published" "commit_sync_status c \<in> {Provider_Confirmed, Provider_Failed}"
      "commit_failure c \<in> {Commit_MetadataFailed, Commit_FileSystemSyncFailed, Commit_ProviderFailure}"
      "commit_system_error c \<noteq> 0"
  using assms
  by (cases "commit_publication c"; cases "commit_failure c"; cases "commit_sync_status c")
    (simp_all add: consistency_defs errno_ESTALE_def errno_EEXIST_def split: if_splits)

lemma consistent_sync:
  "ProviderConditionalCopyJournalResultIsConsistent c \<Longrightarrow>
     commit_sync_system_error c = 0 \<longleftrightarrow> commit_sync_status c \<noteq> Provider_Failed"
  by (auto simp: ProviderConditionalCopyJournalResultIsConsistent_def sync_consistent_def
      split: if_splits ProviderConditionalCopyFilesystemSyncStatus.splits)

lemma mapped_consistent:
  assumes c: "ProviderConditionalCopyJournalResultIsConsistent c" "commit_failure c \<noteq> Commit_Aborted"
    and i: "context_item_index ctx < length (plan_Sources p)"
    and axis: "if removes_source ctx then OperationJournalRemovesSource (plan_Type p)
      else OperationJournalPublishesDestination (plan_Type p)"
  shows "\<exists>r. MapProviderConditionalCopyCommitResultToJournalItemResult c ctx = Inr r
    \<and> OperationJournalValidItemResult p r \<and> item_index r = context_item_index ctx"
proof -
  note errors = consistent_errors [OF c(1)] consistent_sync [OF c(1)]
  have axes: "OperationJournalRemovesSource (plan_Type p) \<longleftrightarrow> removes_source ctx"
    "OperationJournalPublishesDestination (plan_Type p) \<longleftrightarrow> \<not> removes_source ctx"
    using axis axes_exclusive by (auto split: if_splits)
  note valid = OperationJournalValidItemResult_def valid_axes_def valid_sync_def valid_prior_def valid_status_def
    valid_failed_def untouched_def
  have "\<exists>r. MapProviderConditionalCopyCommitResultToJournalItemResult c ctx = Inr r"
    using c by (cases rule: consistent_cases) (use c in \<open>auto simp: mapping_defs\<close>)
  moreover have "OperationJournalValidItemResult p r \<and> item_index r = context_item_index ctx"
    if r: "MapProviderConditionalCopyCommitResultToJournalItemResult c ctx = Inr r" for r
  proof -
    from r c obtain publication sync removal where parts:
      "ProviderConditionalCopyJournalPublication (commit_publication c) = Inr publication"
      "ProviderConditionalCopyJournalFilesystemSync (commit_sync_status c) = Inr sync"
      "ProviderConditionalCopyJournalRemoval (commit_publication c) = Inr removal"
      "mapped_failure c (removes_source ctx) = Inr (item_status r, item_error r, recovery_action r)"
      and fields: "item_index r = context_item_index ctx" "system_error r = commit_system_error c"
        "prior_error r = Item_None" "prior_system_error r = 0" "filesystem_sync_status r = sync"
        "filesystem_sync_system_error r = commit_sync_system_error c"
        "destination_publication r = (if removes_source ctx then Publication_NotPublished else publication)"
        "source_removal r = (if removes_source ctx then removal else Removal_NotRemoved)"
      by (cases "ProviderConditionalCopyJournalRemoval (commit_publication c)")
        (auto simp: MapProviderConditionalCopyCommitResultToJournalItemResult_def bindR_eq_Inr split: sum.splits)
    note facts = fields parts [unfolded mapping_defs] errors axes i not_le
    from c have "OperationJournalValidItemResult p r"
    proof (cases rule: consistent_cases)
      case unpublished
      then show ?thesis using facts by (elim insertE) (simp_all add: valid)
    next
      case unknown
      then show ?thesis using facts by (cases "removes_source ctx") (simp_all add: valid)
    next
      case succeeded
      then show ?thesis using facts by (cases "removes_source ctx") (simp_all add: valid)
    next
      case failed
      then show ?thesis using facts by (cases "removes_source ctx"; elim insertE) (simp_all add: valid)
    qed
    with fields(1) show ?thesis by simp
  qed
  ultimately show ?thesis by blast
qed

text \<open>
  C29: the mapper accepts exactly the consistent results of executions, and the journal accepts
  whatever the mapper makes, for the item it is for: an item of a plan that publishes a destination, or
  of one that removes its sources when the context says so.
\<close>

theorem mapped_valid:
  assumes "context_item_index ctx < length (plan_Sources p)"
    and "if removes_source ctx then OperationJournalRemovesSource (plan_Type p)
      else OperationJournalPublishesDestination (plan_Type p)"
  shows "case MapProviderConditionalCopyCommitResultToJournalItemResult c ctx of
      Inr r \<Rightarrow> ProviderConditionalCopyJournalResultIsConsistent c \<and> commit_failure c \<noteq> Commit_Aborted
        \<and> OperationJournalValidItemResult p r \<and> item_index r = context_item_index ctx
    | Inl e \<Rightarrow> (if ProviderConditionalCopyJournalResultIsConsistent c
        then commit_failure c = Commit_Aborted \<and> e = Mapping_NonExecutionTerminal
        else e = Mapping_InconsistentResult)"
proof (cases "ProviderConditionalCopyJournalResultIsConsistent c \<and> commit_failure c \<noteq> Commit_Aborted")
  case True
  with mapped_consistent [OF _ _ assms] show ?thesis by fastforce
next
  case False
  then show ?thesis by (auto simp: MapProviderConditionalCopyCommitResultToJournalItemResult_def)
qed

end
