(* ===== verification/RetryPolicy.thy ===== *)
theory RetryPolicy
  imports JournalMapper JournalCodec
begin

text \<open>
  Which items of a finished operation may be attempted again (\<open>OperationRetryPolicy.cpp\<close>), and how the
  policy meets the results that the mapper makes.
\<close>

datatype OperationRetryRefusal =
  Refusal_None | Refusal_AlreadyDone | Refusal_DeliberatelySkipped | Refusal_NotRetryable | Refusal_NeedsInspection

record OperationRetryDecision =
  decision_item_index :: nat
  refusal :: OperationRetryRefusal

definition Retryable :: "OperationRetryDecision \<Rightarrow> bool" where
  "Retryable d \<longleftrightarrow> refusal d = Refusal_None"

definition CouldDifferOnASecondAttempt :: "OperationJournalItemError \<Rightarrow> bool" where
  "CouldDifferOnASecondAttempt e = (case e of
      Item_SourceChanged \<Rightarrow> True | Item_DestinationChanged \<Rightarrow> True | Item_Read \<Rightarrow> True | Item_Write \<Rightarrow> True
    | Item_Commit \<Rightarrow> True | Item_Metadata \<Rightarrow> True | Item_Cleanup \<Rightarrow> True | Item_Cancelled \<Rightarrow> True
    | Item_PermissionDenied \<Rightarrow> False | Item_Unknown \<Rightarrow> False | Item_None \<Rightarrow> False | Item_Invalid \<Rightarrow> False)"

text \<open>A status without a name falls through the switch.\<close>

definition DecideOperationItemRetry :: "OperationJournalItemResult \<Rightarrow> OperationRetryDecision" where
  "DecideOperationItemRetry r =
     (let refuse = (\<lambda>x. \<lparr>decision_item_index = item_index r, refusal = x\<rparr>);
          last = (if destination_publication r = Publication_Unknown then refuse Refusal_NeedsInspection
            else refuse Refusal_None) in
      case item_status r of
        Status_Succeeded \<Rightarrow> refuse Refusal_AlreadyDone
      | Status_Skipped \<Rightarrow> refuse Refusal_DeliberatelySkipped
      | Status_Cancelled \<Rightarrow> last
      | Status_Failed \<Rightarrow>
          if \<not> CouldDifferOnASecondAttempt (item_error r) then refuse Refusal_NotRetryable else last
      | Status_Invalid \<Rightarrow> last)"

definition DecideOperationRetry :: "OperationJournalItemResult list \<Rightarrow> OperationRetryDecision list" where
  "DecideOperationRetry rs = map DecideOperationItemRetry rs"

definition OperationHasRetryableItems :: "OperationJournalItemResult list \<Rightarrow> bool" where
  "OperationHasRetryableItems rs = list_ex (\<lambda>r. Retryable (DecideOperationItemRetry r)) rs"

section \<open>The rules\<close>

text \<open>Of the valid results, the retryable ones are the cancelled and those failures that could differ.\<close>

lemma Retryable_valid:
  assumes "OperationJournalValidItemResult p r"
  shows "Retryable (DecideOperationItemRetry r) \<longleftrightarrow> item_status r = Status_Cancelled \<or>
    item_status r = Status_Failed \<and> item_error r \<notin> {Item_PermissionDenied, Item_Unknown, Item_Invalid}
      \<and> destination_publication r \<noteq> Publication_Unknown"
  using assms
  by (cases "item_status r"; cases "item_error r")
    (simp_all add: Retryable_def DecideOperationItemRetry_def CouldDifferOnASecondAttempt_def
      OperationJournalValidItemResult_def valid_status_def valid_failed_def untouched_def Let_def split: if_splits)

lemma OperationHasRetryableItems_iff:
  "OperationHasRetryableItems rs \<longleftrightarrow> (\<exists>d \<in> set (DecideOperationRetry rs). Retryable d)"
  by (simp add: OperationHasRetryableItems_def DecideOperationRetry_def list_ex_iff)

text \<open>
  An operation that completed offers nothing to retry: no second attempt can undo what was done
  since, or override a decision to skip.
\<close>

theorem completed_not_retryable:
  assumes "OperationJournalValidEntryLifecycle e" and "entry_state e = State_Completed"
  shows "\<not> OperationHasRetryableItems (item_results e)"
proof -
  have "item_status r \<in> {Status_Succeeded, Status_Skipped}" if r: "r \<in> set (item_results e)" for r
    using Lifecycle_results [OF assms(1)] ValidItemResult_status [of "entry_plan e" r] assms r
    by (cases "item_status r")
      (auto simp: OperationJournalValidEntryLifecycle_def has_status_def list_all_iff list_ex_iff split: if_splits)
  then have "\<not> Retryable (DecideOperationItemRetry r)" if "r \<in> set (item_results e)" for r
    using that by (fastforce simp: Retryable_def DecideOperationItemRetry_def Let_def)
  then show ?thesis by (auto simp: OperationHasRetryableItems_def list_ex_iff)
qed

text \<open>
  C33: when the provider cannot say whether it carried an item out, the item needs inspection and must
  not be repeated blindly. The policy refuses it for a copy or a move. For a deletion it does not: the
  uncertainty is on the axis of the source, which the policy does not look at, so the item is offered
  for another attempt although its recovery action asks for inspection of the source.
\<close>

theorem unknown_outcome_retry:
  assumes "ProviderConditionalCopyJournalResultIsConsistent c" and "commit_publication c = Provider_Unknown"
  shows "\<exists>r. MapProviderConditionalCopyCommitResultToJournalItemResult c ctx = Inr r
    \<and> recovery_action r = (if removes_source ctx then Recovery_InspectSource else Recovery_InspectDestination)
    \<and> refusal (DecideOperationItemRetry r) = (if removes_source ctx then Refusal_None else Refusal_NeedsInspection)"
proof -
  have "commit_failure c \<noteq> Commit_Aborted"
    using assms by (auto simp: ProviderConditionalCopyJournalResultIsConsistent_def split: if_splits)
  with assms(1) show ?thesis
    by (cases rule: consistent_cases)
      (use assms in \<open>simp_all add: mapping_defs DecideOperationItemRetry_def CouldDifferOnASecondAttempt_def Let_def\<close>)
qed

section \<open>Instances\<close>

definition sample_unknown :: ProviderConditionalCopyCommitResult where
  "sample_unknown = \<lparr>commit_publication = Provider_Unknown, commit_failure = Commit_ProviderFailure,
     commit_system_error = 5, commit_sync_status = Provider_NotAttempted, commit_sync_system_error = 0\<rparr>"

definition sample_context :: ProviderConditionalCopyJournalContext where
  "sample_context = \<lparr>context_item_index = 0, exact_source_bytes = 12, removes_source = True\<rparr>"

lemma sample_unknown_consistent: "ProviderConditionalCopyJournalResultIsConsistent sample_unknown"
  by (simp add: consistency_defs sample_unknown_def)

theorem unknown_outcome_retry_witness:
  "\<exists>r. MapProviderConditionalCopyCommitResultToJournalItemResult sample_unknown sample_context = Inr r
    \<and> recovery_action r = Recovery_InspectSource \<and> refusal (DecideOperationItemRetry r) = Refusal_None"
  using unknown_outcome_retry [OF sample_unknown_consistent, of sample_context]
  by (simp add: sample_unknown_def sample_context_def)

theorem mapped_valid_witness:
  "\<exists>r. MapProviderConditionalCopyCommitResultToJournalItemResult sample_unknown sample_context = Inr r
    \<and> OperationJournalValidItemResult sample_plan r"
proof -
  have "context_item_index sample_context < length (plan_Sources sample_plan)"
    "if removes_source sample_context then OperationJournalRemovesSource (plan_Type sample_plan)
      else OperationJournalPublishesDestination (plan_Type sample_plan)"
    by (simp_all add: sample_context_def sample_plan_sel OperationJournalRemovesSource_def)
  from mapped_valid [OF this, of sample_unknown] sample_unknown_consistent show ?thesis
    by (auto simp: sample_unknown_def split: sum.splits)
qed

theorem completed_not_retryable_witness: "\<not> OperationHasRetryableItems [sample_result]"
  using completed_not_retryable [OF sample_lifecycle] by (simp add: sample_entry_def)

end
