(* ===== verification/OperationCenter.thy ===== *)
theory OperationCenter
  imports OperationJournal
begin

text \<open>
  The class \<open>OperationCenterModel\<close> (\<open>OperationCenterModel.cpp\<close>): the records that the Operation Center
  shows. Every operation holds the lock from start to end and is one step on the state; it returns
  whether the observers are called after the lock was released. As in the journal, a weak pointer to
  the state is the number of the instance. The capacity of the vector of records is part of the state,
  because \<open>Publish\<close> depends on it: a vector that is full grows to twice its capacity, and \<open>reserve\<close> to
  exactly what is asked for.
\<close>

section \<open>Records\<close>

datatype OperationRecordState =
    Record_Queued | Record_Running | Record_Paused | Record_Cancelling | Record_Finalizing
  | Record_Interrupted | Record_Cancelled | Record_Failed | Record_Completed
  | Record_CompletedWithWarnings | Record_Invalid

record OperationControlAvailability =
  can_pause :: bool
  can_resume :: bool
  can_cancel :: bool
  can_retry :: bool

record OperationRecord =
  record_operation_id :: OperationId
  record_plan_id :: bytes
  operation_type :: OperationPlanType
  record_state :: OperationRecordState
  revision :: u64
  created_at :: int
  started_at :: "int option"
  finished_at :: "int option"
  controls :: OperationControlAvailability

datatype OperationCenterModelErrorCode =
    CE_IdExhausted | CE_UnreservedOperationId | CE_UnstagedAdmission | CE_ReceiptPlanMismatch
  | CE_HydrationAlreadyInitialized | CE_InvalidHydratedRecord | CE_DuplicateOperationId
  | CE_ColdHistoryActive | CE_ColdHistoryConflict | CE_ColdHistoryRefreshFailed
  | CE_OperationNotFound | CE_StaleRevision | CE_InvalidTransition

record OperationCenterModelError =
  center_code :: OperationCenterModelErrorCode
  current_revision :: "u64 option"

definition CenterFailure :: "OperationCenterModelErrorCode \<Rightarrow> OperationCenterModelError" where
  "CenterFailure code = \<lparr>center_code = code, current_revision = None\<rparr>"

definition IsTerminal :: "OperationRecordState \<Rightarrow> bool" where
  "IsTerminal s = (case s of
      Record_Queued \<Rightarrow> False | Record_Running \<Rightarrow> False | Record_Paused \<Rightarrow> False | Record_Cancelling \<Rightarrow> False
    | Record_Finalizing \<Rightarrow> False | _ \<Rightarrow> True)"

definition IsAllowedTransition :: "OperationRecordState \<Rightarrow> OperationRecordState \<Rightarrow> bool" where
  "IsAllowedTransition current to = (case current of
      Record_Queued \<Rightarrow> to = Record_Running \<or> to = Record_Cancelling \<or> to = Record_Finalizing
    | Record_Running \<Rightarrow> to = Record_Paused \<or> to = Record_Cancelling \<or> to = Record_Finalizing
    | Record_Paused \<Rightarrow> to = Record_Running \<or> to = Record_Cancelling \<or> to = Record_Finalizing
    | Record_Cancelling \<Rightarrow> to = Record_Finalizing
    | Record_Finalizing \<Rightarrow> IsTerminal to
    | _ \<Rightarrow> False)"

definition ControlsFor :: "OperationRecordState \<Rightarrow> OperationControlAvailability" where
  "ControlsFor s = (case s of
      Record_Queued \<Rightarrow> \<lparr>can_pause = False, can_resume = False, can_cancel = True, can_retry = False\<rparr>
    | Record_Running \<Rightarrow> \<lparr>can_pause = True, can_resume = False, can_cancel = True, can_retry = False\<rparr>
    | Record_Paused \<Rightarrow> \<lparr>can_pause = False, can_resume = True, can_cancel = True, can_retry = False\<rparr>
    | Record_Failed \<Rightarrow> \<lparr>can_pause = False, can_resume = False, can_cancel = False, can_retry = True\<rparr>
    | Record_Interrupted \<Rightarrow> \<lparr>can_pause = False, can_resume = False, can_cancel = False, can_retry = True\<rparr>
    | _ \<Rightarrow> \<lparr>can_pause = False, can_resume = False, can_cancel = False, can_retry = False\<rparr>)"

section \<open>State\<close>

record CenterModel =
  c_instance :: nat
  c_next_sequence :: u64
  c_next_reservation_nonce :: u64
  c_reservations :: "(u64 \<times> u64) list"
  c_next_admission_draft_nonce :: u64
  c_admission_drafts :: "u64 set"
  c_records :: "OperationRecord list"
  c_capacity :: nat

definition OperationCenterModel_init :: "nat \<Rightarrow> CenterModel" where
  "OperationCenterModel_init inst = \<lparr>c_instance = inst, c_next_sequence = 1, c_next_reservation_nonce = 1,
     c_reservations = [], c_next_admission_draft_nonce = 1, c_admission_drafts = {}, c_records = [],
     c_capacity = 0\<rparr>"

definition vector_reserve :: "nat \<Rightarrow> CenterModel \<Rightarrow> CenterModel" where
  "vector_reserve n m = m\<lparr>c_capacity := max (c_capacity m) n\<rparr>"

definition vector_emplace_back :: "OperationRecord \<Rightarrow> CenterModel \<Rightarrow> CenterModel" where
  "vector_emplace_back r m = m\<lparr>c_records := c_records m @ [r],
     c_capacity := (if length (c_records m) = c_capacity m
       then max (2 * c_capacity m) (length (c_records m) + 1) else c_capacity m)\<rparr>"

record CenterReservation =
  cres_OperationId :: OperationId
  cres_Nonce :: u64
  cres_Impl :: "nat option"
  cres_Consumed :: bool

record AdmissionDraft =
  draft_Record :: OperationRecord
  draft_Nonce :: u64
  draft_Impl :: "nat option"
  draft_Consumed :: bool

definition queued_record :: "OperationId \<Rightarrow> OperationPlan \<Rightarrow> int \<Rightarrow> OperationRecord" where
  "queued_record i p t = \<lparr>record_operation_id = i, record_plan_id = plan_Id p, operation_type = plan_Type p,
     record_state = Record_Queued, revision = 1, created_at = t, started_at = None, finished_at = None,
     controls = ControlsFor Record_Queued\<rparr>"

section \<open>The isolated model\<close>

definition CenterModel_Reserve ::
  "CenterModel \<Rightarrow> (OperationCenterModelError + CenterReservation) \<times> CenterModel" where
  "CenterModel_Reserve m =
     (if c_next_sequence m = 0 \<or> c_next_sequence m = - 1 \<or> c_next_reservation_nonce m = 0
      then (Inl (CenterFailure CE_IdExhausted), m)
      else let sequence = c_next_sequence m; nonce = c_next_reservation_nonce m;
               reservations = (if map_of (c_reservations m) sequence = None
                 then (sequence, nonce) # c_reservations m else c_reservations m) in
        (Inr \<lparr>cres_OperationId = sequence, cres_Nonce = nonce, cres_Impl = Some (c_instance m), cres_Consumed = False\<rparr>,
         m\<lparr>c_next_sequence := sequence + 1, c_next_reservation_nonce := nonce + 1,
           c_reservations := reservations\<rparr>))"

definition erase_reservation :: "u64 \<Rightarrow> (u64 \<times> u64) list \<Rightarrow> (u64 \<times> u64) list" where
  "erase_reservation i = filter (\<lambda>(k, _). k \<noteq> i)"

definition CenterReservation_Release :: "CenterReservation \<Rightarrow> CenterModel \<Rightarrow> CenterReservation \<times> CenterModel" where
  "CenterReservation_Release r m =
     (if cres_Consumed r then (r, m)
      else (r\<lparr>cres_Consumed := True, cres_Impl := None\<rparr>,
        if cres_Impl r = Some (c_instance m) \<and> map_of (c_reservations m) (cres_OperationId r) = Some (cres_Nonce r)
        then m\<lparr>c_reservations := erase_reservation (cres_OperationId r) (c_reservations m)\<rparr> else m))"

definition CenterModel_Admit ::
  "CenterReservation \<Rightarrow> OperationPlan \<Rightarrow> int \<Rightarrow> CenterModel \<Rightarrow>
   (OperationCenterModelError + OperationRecord) \<times> CenterReservation \<times> bool \<times> CenterModel" where
  "CenterModel_Admit r p t m =
     (if cres_Consumed r \<or> cres_Impl r \<noteq> Some (c_instance m)
         \<or> map_of (c_reservations m) (cres_OperationId r) \<noteq> Some (cres_Nonce r)
      then (Inl (CenterFailure CE_UnreservedOperationId), r, False, m)
      else let record = queued_record (cres_OperationId r) p t; m = vector_emplace_back record m in
        (Inr record, r\<lparr>cres_Consumed := True, cres_Impl := None\<rparr>, True,
         m\<lparr>c_reservations := erase_reservation (cres_OperationId r) (c_reservations m)\<rparr>))"

section \<open>Admission\<close>

definition StageAdmission ::
  "OperationPlan \<Rightarrow> int \<Rightarrow> CenterModel \<Rightarrow> (OperationCenterModelError + AdmissionDraft) \<times> CenterModel" where
  "StageAdmission p t m =
     (if c_next_admission_draft_nonce m = 0 then (Inl (CenterFailure CE_IdExhausted), m)
      else let m = vector_reserve (length (c_records m) + card (c_admission_drafts m) + 1) m;
               nonce = c_next_admission_draft_nonce m;
               m' = m\<lparr>c_next_admission_draft_nonce := nonce + 1\<rparr> in
        if nonce \<in> c_admission_drafts m then (Inl (CenterFailure CE_UnstagedAdmission), m')
        else (Inr \<lparr>draft_Record = queued_record 1 p t, draft_Nonce = nonce, draft_Impl = Some (c_instance m),
                draft_Consumed = False\<rparr>,
              m'\<lparr>c_admission_drafts := insert nonce (c_admission_drafts m)\<rparr>))"

definition AdmissionDraft_Release :: "AdmissionDraft \<Rightarrow> CenterModel \<Rightarrow> AdmissionDraft \<times> CenterModel" where
  "AdmissionDraft_Release d m =
     (if draft_Consumed d then (d, m)
      else (d\<lparr>draft_Consumed := True, draft_Impl := None\<rparr>,
        if draft_Impl d = Some (c_instance m)
        then m\<lparr>c_admission_drafts := c_admission_drafts m - {draft_Nonce d}\<rparr> else m))"

definition CenterModel_Publish ::
  "AdmissionDraft \<Rightarrow> OperationJournalAdmissionReceipt \<Rightarrow> CenterModel \<Rightarrow>
   (OperationCenterModelError + unit) \<times> AdmissionDraft \<times> bool \<times> CenterModel" where
  "CenterModel_Publish d receipt m =
     (if draft_Consumed d \<or> draft_Impl d \<noteq> Some (c_instance m) \<or> draft_Nonce d \<notin> c_admission_drafts m
      then (Inl (CenterFailure CE_UnstagedAdmission), d, False, m)
      else if record_plan_id (draft_Record d) \<noteq> plan_Id (adm_Plan receipt)
      then (Inl (CenterFailure CE_ReceiptPlanMismatch), d, False, m)
      else if list_ex (\<lambda>r. record_operation_id r = adm_OperationId receipt) (c_records m)
      then (Inl (CenterFailure CE_DuplicateOperationId), d, False, m)
      else if length (c_records m) = c_capacity m
      then (Inl (CenterFailure CE_UnstagedAdmission), d, False, m)
      else let record = (draft_Record d)\<lparr>record_operation_id := adm_OperationId receipt\<rparr>;
               m = vector_emplace_back record m in
        (Inr (), d\<lparr>draft_Record := record, draft_Consumed := True, draft_Impl := None\<rparr>, True,
         m\<lparr>c_admission_drafts := c_admission_drafts m - {draft_Nonce d}\<rparr>))"

section \<open>Lifecycle\<close>

definition moved_record :: "OperationRecordState \<Rightarrow> int \<Rightarrow> OperationRecord \<Rightarrow> OperationRecord" where
  "moved_record s t r = r\<lparr>record_state := s, revision := revision r + 1, controls := ControlsFor s,
     started_at := (if s = Record_Running \<and> started_at r = None then Some t else started_at r),
     finished_at := (if IsTerminal s then Some t else finished_at r)\<rparr>"

definition CenterModel_Transition ::
  "OperationId \<Rightarrow> u64 \<Rightarrow> OperationRecordState \<Rightarrow> int \<Rightarrow> CenterModel \<Rightarrow>
   (OperationCenterModelError + OperationRecord) \<times> bool \<times> CenterModel" where
  "CenterModel_Transition i expected_revision s t m =
     (case find_if (\<lambda>r. record_operation_id r = i) (c_records m) of
        None \<Rightarrow> (Inl (CenterFailure CE_OperationNotFound), False, m)
      | Some k \<Rightarrow> let r = c_records m ! k in
          if revision r \<noteq> expected_revision
          then (Inl \<lparr>center_code = CE_StaleRevision, current_revision = Some (revision r)\<rparr>, False, m)
          else if \<not> IsAllowedTransition (record_state r) s
          then (Inl (CenterFailure CE_InvalidTransition), False, m)
          else (Inr (moved_record s t r), True, m\<lparr>c_records := (c_records m)[k := moved_record s t r]\<rparr>))"

definition CenterModel_Find :: "OperationId \<Rightarrow> CenterModel \<Rightarrow> OperationRecord option" where
  "CenterModel_Find i m = map_option (\<lambda>k. c_records m ! k) (find_if (\<lambda>r. record_operation_id r = i) (c_records m))"

definition CenterModel_Snapshot :: "CenterModel \<Rightarrow> OperationRecord list" where
  "CenterModel_Snapshot m = c_records m"

section \<open>History\<close>

definition hydratable :: "OperationRecord \<Rightarrow> bool" where
  "hydratable r \<longleftrightarrow> IsTerminal (record_state r) \<and> revision r = 1 \<and> finished_at r \<noteq> None \<and> started_at r = None"

definition with_controls :: "OperationRecord \<Rightarrow> OperationRecord" where
  "with_controls r = r\<lparr>controls := ControlsFor (record_state r)\<rparr>"

text \<open>The loop of \<open>Hydrate\<close>: the sequences that were seen, the largest, and the records so far.\<close>

fun hydrate_loop ::
  "u64 set \<Rightarrow> u64 \<Rightarrow> OperationRecord list \<Rightarrow> OperationRecord list \<Rightarrow>
   OperationCenterModelError + (u64 \<times> OperationRecord list)" where
  "hydrate_loop seen maximum done [] = Inr (maximum, done)"
| "hydrate_loop seen maximum done (r # rs) =
     (if \<not> hydratable r \<or> record_operation_id r \<in> seen then Inl (CenterFailure CE_InvalidHydratedRecord)
      else hydrate_loop (insert (record_operation_id r) seen) (max maximum (record_operation_id r))
        (done @ [with_controls r]) rs)"

text \<open>The records come as a vector with a capacity of its own, which the move takes over.\<close>

definition Hydrate ::
  "OperationRecord list \<Rightarrow> nat \<Rightarrow> CenterModel \<Rightarrow> (OperationCenterModelError + unit) \<times> bool \<times> CenterModel" where
  "Hydrate records capacity m =
     (if c_records m \<noteq> [] \<or> c_reservations m \<noteq> [] \<or> c_admission_drafts m \<noteq> {}
         \<or> c_next_sequence m \<noteq> 1 \<or> c_next_admission_draft_nonce m \<noteq> 1
      then (Inl (CenterFailure CE_HydrationAlreadyInitialized), False, m)
      else case hydrate_loop {} 0 [] records of
        Inl e \<Rightarrow> (Inl e, False, m)
      | Inr (maximum, records) \<Rightarrow>
          if maximum = - 1 then (Inl (CenterFailure CE_IdExhausted), False, m)
          else (Inr (), True, m\<lparr>c_next_sequence := maximum + 1, c_records := records, c_capacity := capacity\<rparr>))"

text \<open>The loop of \<open>RefreshColdHistory\<close> collects the records that are not there yet.\<close>

fun refresh_loop ::
  "OperationRecord list \<Rightarrow> u64 set \<Rightarrow> u64 \<Rightarrow> OperationRecord list \<Rightarrow> OperationRecord list \<Rightarrow>
   OperationCenterModelError + (u64 \<times> OperationRecord list)" where
  "refresh_loop current seen maximum additions [] = Inr (maximum, additions)"
| "refresh_loop current seen maximum additions (r # rs) =
     (if \<not> hydratable r \<or> record_operation_id r \<in> seen then Inl (CenterFailure CE_InvalidHydratedRecord)
      else let seen = insert (record_operation_id r) seen; maximum = max maximum (record_operation_id r) in
        case find_if (\<lambda>x. record_operation_id x = record_operation_id r) current of
          None \<Rightarrow> refresh_loop current seen maximum (additions @ [with_controls r]) rs
        | Some k \<Rightarrow>
            if record_plan_id (current ! k) \<noteq> record_plan_id r \<or> operation_type (current ! k) \<noteq> operation_type r
               \<or> record_state (current ! k) \<noteq> record_state r
            then Inl (CenterFailure CE_ColdHistoryConflict)
            else refresh_loop current seen maximum additions rs)"

definition RefreshColdHistory ::
  "OperationRecord list \<Rightarrow> CenterModel \<Rightarrow> (OperationCenterModelError + unit) \<times> bool \<times> CenterModel" where
  "RefreshColdHistory records m =
     (if c_reservations m \<noteq> [] \<or> c_admission_drafts m \<noteq> {}
         \<or> list_ex (\<lambda>r. \<not> IsTerminal (record_state r)) (c_records m)
      then (Inl (CenterFailure CE_ColdHistoryActive), False, m)
      else case refresh_loop (c_records m) {} 0 [] records of
        Inl e \<Rightarrow> (Inl e, False, m)
      | Inr (maximum, additions) \<Rightarrow>
          if maximum = - 1 then (Inl (CenterFailure CE_IdExhausted), False, m)
          else if additions = [] then (Inr (), False, m)
          else (Inr (), True, m\<lparr>c_records := c_records m @ additions,
            c_capacity := length (c_records m) + length additions,
            c_next_sequence := max (c_next_sequence m) (maximum + 1)\<rparr>))"

end
