(* ===== verification/Coordinator.thy ===== *)
theory Coordinator
  imports OperationCenter
begin

text \<open>
  The class \<open>OperationCenterCoordinator\<close> (\<open>OperationCenterCoordinator.cpp\<close>), which joins the journal
  with the model of the Operation Center and holds the running operations. Shared pointers to the
  private \<open>LiveResidency\<close> objects are indices into \<open>k_residency_objects\<close>, the objects made so far;
  pools and operations are the numbers of their objects, and what a pool answers when it is asked for its
  operations is an argument. A weak pointer to the coordinator is the number of its instance. The times
  that a transition reads from the clock are arguments too. Between two locks other threads may run: an
  operation that takes several locks has an argument for what happens in between.
\<close>

section \<open>Errors and results\<close>

datatype OperationCenterCoordinatorErrorCode =
    KE_ActiveJournalEntry | KE_DuplicateOperationId | KE_ModelHydrationFailed | KE_JournalReservationFailed
  | KE_ModelStagingFailed | KE_ResidencyStagingFailed | KE_JournalAdmissionFailed | KE_ModelPublicationFailed
  | KE_AdmissionFinalizationFailed | KE_JournalStorageMismatch | KE_ColdHistoryBusy | KE_ColdHistoryRefreshFailed

record OperationCenterCoordinatorError =
  coordinator_code :: OperationCenterCoordinatorErrorCode
  failed_operation_id :: "OperationId option"
  model_error :: "OperationCenterModelError option"
  journal_error :: "OperationJournalError option"

definition CoordinatorError :: "OperationCenterCoordinatorErrorCode \<Rightarrow> OperationCenterCoordinatorError" where
  "CoordinatorError code = \<lparr>coordinator_code = code, failed_operation_id = None, model_error = None, journal_error = None\<rparr>"

datatype OperationCenterCancelResultCode =
    Cancel_Accepted | Cancel_OperationNotFound | Cancel_StaleRevision | Cancel_Unavailable
  | Cancel_ResidencyUnavailable | Cancel_InProgress | Cancel_StopRejected

datatype OperationCenterPauseIntent = Intent_Pause | Intent_Resume

datatype OperationCenterPauseResultCode =
    Pause_Accepted | Pause_OperationNotFound | Pause_StaleRevision | Pause_ControlUnavailable
  | Pause_ResidencyUnavailable

type_synonym CancelResult = "OperationCenterCancelResultCode \<times> OperationRecord option"
type_synonym PauseResult = "OperationCenterPauseResultCode \<times> OperationRecord option"

section \<open>State\<close>

record LiveResidency =
  res_pool :: "nat option"
  res_operation :: "nat option"
  cancel_in_flight :: bool
  deferred_terminal :: "OperationJournalState option"

record LiveResidencyDraft =
  ld_Residency :: "nat option"
  ld_Coordinator :: "nat option"
  ld_Consumed :: bool

record Coordinator =
  k_instance :: nat
  k_Model :: CenterModel
  k_residency_objects :: "LiveResidency list"
  k_LiveResidencies :: "(OperationId \<times> nat) list"
  k_residency_capacity :: nat
  k_StagedLiveResidencies :: nat
  k_JournalStorageIdentity :: "u64 \<times> u64"

record AdmissionStaging =
  st_JournalReservation :: AdmissionReservation
  st_ModelDraft :: AdmissionDraft
  st_ResidencyDraft :: LiveResidencyDraft
  st_Plan :: OperationPlan

record CommittedAdmission =
  committed_operation_id :: OperationId
  journal_receipt :: OperationJournalAdmissionReceipt
  com_ResidencyDraft :: LiveResidencyDraft

definition fresh_residency :: LiveResidency where
  "fresh_residency = \<lparr>res_pool = None, res_operation = None, cancel_in_flight = False, deferred_terminal = None\<rparr>"

text \<open>An object of the heap, and changing it.\<close>

definition residency_at :: "Coordinator \<Rightarrow> nat \<Rightarrow> LiveResidency" where
  "residency_at k a = k_residency_objects k ! a"

definition set_residency :: "nat \<Rightarrow> (LiveResidency \<Rightarrow> LiveResidency) \<Rightarrow> Coordinator \<Rightarrow> Coordinator" where
  "set_residency a f k = k\<lparr>k_residency_objects := (k_residency_objects k)[a := f (k_residency_objects k ! a)]\<rparr>"

definition on_model :: "(CenterModel \<Rightarrow> CenterModel) \<Rightarrow> Coordinator \<Rightarrow> Coordinator" where
  "on_model f k = k\<lparr>k_Model := f (k_Model k)\<rparr>"

section \<open>History\<close>

definition OperationCenterStateFromJournal :: "OperationJournalState \<Rightarrow> OperationRecordState option" where
  "OperationCenterStateFromJournal s = (case s of
      State_Interrupted \<Rightarrow> Some Record_Interrupted | State_Completed \<Rightarrow> Some Record_Completed
    | State_Failed \<Rightarrow> Some Record_Failed | State_Cancelled \<Rightarrow> Some Record_Cancelled | _ \<Rightarrow> None)"

definition OperationCenterStateIsTerminal :: "OperationRecordState \<Rightarrow> bool" where
  "OperationCenterStateIsTerminal s = (case s of
      Record_Queued \<Rightarrow> False | Record_Running \<Rightarrow> False | Record_Paused \<Rightarrow> False | Record_Cancelling \<Rightarrow> False
    | Record_Finalizing \<Rightarrow> False | _ \<Rightarrow> True)"

definition no_controls :: OperationControlAvailability where
  "no_controls = \<lparr>can_pause = False, can_resume = False, can_cancel = False, can_retry = False\<rparr>"

definition history_record :: "OperationJournalEntry \<Rightarrow> OperationRecordState \<Rightarrow> OperationRecord" where
  "history_record e s = \<lparr>record_operation_id = operation_id e, record_plan_id = plan_Id (entry_plan e),
     operation_type = plan_Type (entry_plan e), record_state = s, revision = 1,
     created_at = plan_CreatedAt (entry_plan e), started_at = None, finished_at = Some (updated_at e),
     controls = no_controls\<rparr>"

fun history_records ::
  "bytes set \<Rightarrow> OperationRecord list \<Rightarrow> OperationJournalEntry list \<Rightarrow>
   OperationCenterCoordinatorError + OperationRecord list" where
  "history_records operation_ids records [] = Inr records"
| "history_records operation_ids records (e # es) =
     (case OperationCenterStateFromJournal (entry_state e) of
        None \<Rightarrow> Inl ((CoordinatorError KE_ActiveJournalEntry)\<lparr>failed_operation_id := Some (operation_id e)\<rparr>)
      | Some s \<Rightarrow>
          if ToString (operation_id e) \<in> operation_ids
          then Inl ((CoordinatorError KE_DuplicateOperationId)\<lparr>failed_operation_id := Some (operation_id e)\<rparr>)
          else history_records (insert (ToString (operation_id e)) operation_ids)
            (records @ [history_record e s]) es)"

text \<open>\<open>new OperationCenterCoordinator\<close> before hydration; the vector of records was reserved for the entries.\<close>

definition Coordinator_init :: "nat \<Rightarrow> Coordinator" where
  "Coordinator_init inst = \<lparr>k_instance = inst, k_Model = OperationCenterModel_init inst, k_residency_objects = [],
     k_LiveResidencies = [], k_residency_capacity = 0, k_StagedLiveResidencies = 0, k_JournalStorageIdentity = (0, 0)\<rparr>"

definition Coordinator_Create :: "nat \<Rightarrow> Impl \<Rightarrow> OperationCenterCoordinatorError + Coordinator" where
  "Coordinator_Create inst j =
     (case history_records {} [] (Snapshot j) of
        Inl e \<Rightarrow> Inl e
      | Inr records \<Rightarrow>
          let k = Coordinator_init inst in
          (case Hydrate records (length (Snapshot j)) (k_Model k) of
             (Inl e, _, _) \<Rightarrow> Inl ((CoordinatorError KE_ModelHydrationFailed)\<lparr>model_error := Some e\<rparr>)
           | (Inr _, _, m) \<Rightarrow> Inr (k\<lparr>k_Model := m, k_JournalStorageIdentity := StorageIdentityForCustody j\<rparr>)))"

definition Coordinator_RefreshColdHistory ::
  "Impl \<Rightarrow> Coordinator \<Rightarrow> (OperationCenterCoordinatorError + unit) \<times> Coordinator" where
  "Coordinator_RefreshColdHistory j k =
     (if StorageIdentityForCustody j \<noteq> k_JournalStorageIdentity k
      then (Inl (CoordinatorError KE_JournalStorageMismatch), k)
      else case history_records {} [] (Snapshot j) of
        Inl e \<Rightarrow> (Inl e, k)
      | Inr records \<Rightarrow>
          if k_StagedLiveResidencies k \<noteq> 0 \<or> k_LiveResidencies k \<noteq> []
          then (Inl (CoordinatorError KE_ColdHistoryBusy), k)
          else (case RefreshColdHistory records (k_Model k) of
            (Inl e, _, m) \<Rightarrow>
              (Inl ((CoordinatorError (if center_code e = CE_ColdHistoryActive
                  then KE_ColdHistoryBusy else KE_ColdHistoryRefreshFailed))\<lparr>model_error := Some e\<rparr>), k\<lparr>k_Model := m\<rparr>)
          | (Inr _, _, m) \<Rightarrow> (Inr (), k\<lparr>k_Model := m\<rparr>)))"

section \<open>Residency drafts\<close>

definition ReleaseLiveResidencyDraft :: "Coordinator \<Rightarrow> Coordinator" where
  "ReleaseLiveResidencyDraft k =
     (if k_StagedLiveResidencies k > 0 then k\<lparr>k_StagedLiveResidencies := k_StagedLiveResidencies k - 1\<rparr> else k)"

definition LiveResidencyDraft_Release :: "LiveResidencyDraft \<Rightarrow> Coordinator \<Rightarrow> LiveResidencyDraft \<times> Coordinator" where
  "LiveResidencyDraft_Release d k =
     (if ld_Consumed d then (d, k)
      else (d\<lparr>ld_Consumed := True, ld_Residency := None\<rparr>,
        if ld_Coordinator d = Some (k_instance k) then ReleaseLiveResidencyDraft k else k))"

text \<open>Moving a draft takes the residency and leaves a consumed draft behind.\<close>

definition moved_from :: "LiveResidencyDraft \<Rightarrow> LiveResidencyDraft" where
  "moved_from d = \<lparr>ld_Residency = None, ld_Coordinator = None, ld_Consumed = True\<rparr>"

section \<open>Admission\<close>

text \<open>What was made so far is destroyed when staging fails, in the order of C++.\<close>

definition Coordinator_StageAdmission ::
  "OperationPlan \<Rightarrow> Impl \<Rightarrow> Coordinator \<Rightarrow>
   (OperationCenterCoordinatorError + AdmissionStaging) \<times> Impl \<times> Coordinator" where
  "Coordinator_StageAdmission plan j k =
     (case StageAdmission plan (plan_CreatedAt plan) (k_Model k) of
        (Inl e, m) \<Rightarrow>
          (Inl ((CoordinatorError KE_ModelStagingFailed)\<lparr>model_error := Some e\<rparr>), j, k\<lparr>k_Model := m\<rparr>)
      | (Inr model_draft, m) \<Rightarrow>
          let k = k\<lparr>k_Model := m\<rparr>;
              k = k\<lparr>k_residency_capacity := max (k_residency_capacity k)
                (length (k_LiveResidencies k) + k_StagedLiveResidencies k + 1)\<rparr>;
              residency_draft = \<lparr>ld_Residency = Some (length (k_residency_objects k)),
                ld_Coordinator = Some (k_instance k), ld_Consumed = False\<rparr>;
              k = k\<lparr>k_residency_objects := k_residency_objects k @ [fresh_residency],
                k_StagedLiveResidencies := k_StagedLiveResidencies k + 1\<rparr> in
          case ReserveOperationId j of
            (Inl e, j) \<Rightarrow>
              (Inl ((CoordinatorError KE_JournalReservationFailed)\<lparr>journal_error := Some e\<rparr>), j,
               on_model (\<lambda>m. snd (AdmissionDraft_Release model_draft m))
                 (snd (LiveResidencyDraft_Release residency_draft k)))
          | (Inr journal_reservation, j) \<Rightarrow>
              (Inr \<lparr>st_JournalReservation = journal_reservation, st_ModelDraft = model_draft,
                 st_ResidencyDraft = residency_draft, st_Plan = plan\<rparr>, j, k))"

text \<open>The destructor of a staging token releases whatever was not consumed.\<close>

definition AdmissionStaging_destroy :: "AdmissionStaging \<Rightarrow> Impl \<Rightarrow> Coordinator \<Rightarrow> Impl \<times> Coordinator" where
  "AdmissionStaging_destroy s j k =
     (snd (Release (st_JournalReservation s) j),
      on_model (\<lambda>m. snd (AdmissionDraft_Release (st_ModelDraft s) m))
        (snd (LiveResidencyDraft_Release (st_ResidencyDraft s) k)))"

text \<open>
  The journal commits before the model publishes. \<open>others\<close> is what other threads do to journal and
  coordinator in between; they cannot hold \<open>m_ColdHistoryGate\<close>.
\<close>

definition CommitAdmission ::
  "Json \<Rightarrow> 'w Syscalls \<Rightarrow> (Coordinator \<times> Impl \<times> 'w \<Rightarrow> Coordinator \<times> Impl \<times> 'w) \<Rightarrow> AdmissionStaging \<Rightarrow>
   Coordinator \<times> Impl \<times> 'w \<Rightarrow>
   ((OperationCenterCoordinatorError + CommittedAdmission) \<times> AdmissionStaging \<times> Coordinator \<times> Impl \<times> 'w) option" where
  "CommitAdmission J S others s = (\<lambda>(k, j, w).
     Option.bind (AdmitLocked J S (st_JournalReservation s) (st_Plan s) j w) (\<lambda>(receipt, reservation, j, w).
       let s = s\<lparr>st_JournalReservation := reservation\<rparr> in
       case receipt of
         Inl e \<Rightarrow> Some (Inl ((CoordinatorError KE_JournalAdmissionFailed)\<lparr>journal_error := Some e\<rparr>), s, k, j, w)
       | Inr receipt \<Rightarrow> (case others (k, j, w) of (k, j, w) \<Rightarrow>
           let operation_id = adm_OperationId receipt in
           case CenterModel_Publish (st_ModelDraft s) receipt (k_Model k) of
             (Inr _, draft, _, m) \<Rightarrow>
               Some (Inr \<lparr>committed_operation_id = operation_id, journal_receipt = receipt,
                   com_ResidencyDraft = st_ResidencyDraft s\<rparr>,
                 s\<lparr>st_ModelDraft := draft, st_ResidencyDraft := moved_from (st_ResidencyDraft s)\<rparr>,
                 k\<lparr>k_Model := m\<rparr>, j, w)
           | (Inl published, draft, _, m) \<Rightarrow>
               Option.bind (FinalizeAdmission J S receipt State_Failed j w) (\<lambda>(finalization, _, j, w). Some
                 (Inl (case finalization of
                     Inl e \<Rightarrow> (CoordinatorError KE_AdmissionFinalizationFailed)\<lparr>
                       failed_operation_id := Some operation_id, model_error := Some published, journal_error := Some e\<rparr>
                   | Inr _ \<Rightarrow> (CoordinatorError KE_ModelPublicationFailed)\<lparr>
                       failed_operation_id := Some operation_id, model_error := Some published\<rparr>),
                  s\<lparr>st_ModelDraft := draft\<rparr>, k\<lparr>k_Model := m\<rparr>, j, w)))))"

section \<open>Live residencies\<close>

definition FindLiveResidency :: "OperationId \<Rightarrow> Coordinator \<Rightarrow> nat option" where
  "FindLiveResidency i k = map_option (\<lambda>n. snd (k_LiveResidencies k ! n))
     (find_if (\<lambda>(operation_id, _). operation_id = i) (k_LiveResidencies k))"

definition RetireLiveResidency :: "OperationId \<Rightarrow> nat option \<Rightarrow> Coordinator \<Rightarrow> Coordinator" where
  "RetireLiveResidency i residency k = k\<lparr>k_LiveResidencies := filter (\<lambda>(operation_id, a).
     \<not> (operation_id = i \<and> (residency = None \<or> residency = Some a))) (k_LiveResidencies k)\<rparr>"

text \<open>A \<open>std::logic_error\<close> is its message; the draft is passed by reference.\<close>

definition RegisterLiveResidency ::
  "LiveResidencyDraft \<Rightarrow> OperationId \<Rightarrow> nat option \<Rightarrow> nat option \<Rightarrow> Coordinator \<Rightarrow>
   (string + unit) \<times> LiveResidencyDraft \<times> Coordinator" where
  "RegisterLiveResidency d i pool operation k =
     (case ld_Residency d of
        None \<Rightarrow> (Inl ''invalid live residency handoff'', d, k)
      | Some a \<Rightarrow>
          if pool = None \<or> operation = None then (Inl ''invalid live residency handoff'', d, k)
          else if ld_Coordinator d \<noteq> Some (k_instance k) then (Inl ''foreign live residency handoff'', d, k)
          else if list_ex (\<lambda>(operation_id, _). operation_id = i) (k_LiveResidencies k)
          then (Inl ''duplicate live operation residency'', d, k)
          else if length (k_LiveResidencies k) = k_residency_capacity k
          then (Inl ''unprepared live operation residency'', d, k)
          else let k = set_residency a (\<lambda>r. r\<lparr>res_pool := pool, res_operation := operation\<rparr>) k in
            (Inr (), d\<lparr>ld_Residency := None, ld_Consumed := True\<rparr>,
             ReleaseLiveResidencyDraft (k\<lparr>k_LiveResidencies := k_LiveResidencies k @ [(i, a)]\<rparr>)))"

section \<open>Reductions\<close>

text \<open>Each finds the record and moves it while it holds \<open>m_ReductionLock\<close>, so it is one step.\<close>

definition transition ::
  "OperationId \<Rightarrow> u64 \<Rightarrow> OperationRecordState \<Rightarrow> int \<Rightarrow> Coordinator \<Rightarrow> Coordinator" where
  "transition i expected_revision s now =
     on_model (\<lambda>m. snd (snd (CenterModel_Transition i expected_revision s now m)))"

definition ReduceStarted :: "OperationId \<Rightarrow> int \<Rightarrow> Coordinator \<Rightarrow> Coordinator" where
  "ReduceStarted i now k = (case CenterModel_Find i (k_Model k) of
      None \<Rightarrow> k
    | Some r \<Rightarrow> if record_state r \<noteq> Record_Queued then k else transition i (revision r) Record_Running now k)"

definition ReducePaused :: "OperationId \<Rightarrow> bool \<Rightarrow> int \<Rightarrow> Coordinator \<Rightarrow> Coordinator" where
  "ReducePaused i paused now k = (case CenterModel_Find i (k_Model k) of
      None \<Rightarrow> k
    | Some r \<Rightarrow>
        if \<not> (if paused then can_pause (controls r) else can_resume (controls r)) then k
        else transition i (revision r) (if paused then Record_Paused else Record_Running) now k)"

definition ReduceCancelling :: "OperationId \<Rightarrow> int \<Rightarrow> Coordinator \<Rightarrow> Coordinator" where
  "ReduceCancelling i now k = (case CenterModel_Find i (k_Model k) of
      None \<Rightarrow> k
    | Some r \<Rightarrow> if \<not> can_cancel (controls r) then k else transition i (revision r) Record_Cancelling now k)"

text \<open>\<open>now\<close> and \<open>later\<close>: the times of the two transitions.\<close>

definition ApplyDurableTerminal ::
  "OperationId \<Rightarrow> OperationJournalState \<Rightarrow> int \<Rightarrow> int \<Rightarrow> Coordinator \<Rightarrow> Coordinator" where
  "ApplyDurableTerminal i s now later k = (case OperationCenterStateFromJournal s of
      None \<Rightarrow> k
    | Some terminal_state \<Rightarrow> (case CenterModel_Find i (k_Model k) of
        None \<Rightarrow> k
      | Some r \<Rightarrow>
          if OperationCenterStateIsTerminal (record_state r) then k
          else if record_state r \<noteq> Record_Finalizing then
            (case CenterModel_Transition i (revision r) Record_Finalizing now (k_Model k) of
               (Inl _, _, m) \<Rightarrow> k\<lparr>k_Model := m\<rparr>
             | (Inr r, _, m) \<Rightarrow> transition i (revision r) terminal_state later (k\<lparr>k_Model := m\<rparr>))
          else transition i (revision r) terminal_state later k))"

text \<open>With the gate: an outcome that comes while a cancellation is in flight waits for its end.\<close>

definition reduce_at_gate ::
  "nat \<Rightarrow> OperationId \<Rightarrow> OperationJournalState \<Rightarrow> int \<Rightarrow> int \<Rightarrow> Coordinator \<Rightarrow> Coordinator" where
  "reduce_at_gate a i s now later k =
     (if cancel_in_flight (residency_at k a)
      then set_residency a (\<lambda>r. r\<lparr>deferred_terminal := Some s\<rparr>) k
      else RetireLiveResidency i (Some a) (ApplyDurableTerminal i s now later k))"

text \<open>
  \<open>others\<close> runs while the thread waits for the gate of the residency. A call from inside \<open>Stop\<close>, on the
  thread that holds the gate, does not wait.
\<close>

definition ReduceDurableTerminal ::
  "(Coordinator \<Rightarrow> Coordinator) \<Rightarrow> OperationId \<Rightarrow> OperationJournalState \<Rightarrow> int \<Rightarrow> int \<Rightarrow> Coordinator \<Rightarrow> Coordinator" where
  "ReduceDurableTerminal others i s now later k = (case OperationCenterStateFromJournal s of
      None \<Rightarrow> k
    | Some _ \<Rightarrow> (case FindLiveResidency i k of
        Some a \<Rightarrow> reduce_at_gate a i s now later (others k)
      | None \<Rightarrow> ApplyDurableTerminal i s now later (others k)))"

definition ReduceDurableTerminalFromJournal ::
  "(Coordinator \<Rightarrow> Coordinator) \<Rightarrow> OperationId \<Rightarrow> Impl \<Rightarrow> int \<Rightarrow> int \<Rightarrow> Coordinator \<Rightarrow> Coordinator" where
  "ReduceDurableTerminalFromJournal others i j now later k =
     (case find_if (\<lambda>e. operation_id e = i) (Snapshot j) of
        None \<Rightarrow> k
      | Some n \<Rightarrow> ReduceDurableTerminal others i (entry_state (Snapshot j ! n)) now later k)"

section \<open>Cancelling\<close>

definition cancel_validation :: "u64 \<Rightarrow> OperationRecord \<Rightarrow> OperationCenterCancelResultCode" where
  "cancel_validation expected_revision r =
     (if revision r \<noteq> expected_revision then Cancel_StaleRevision
      else if \<not> can_cancel (controls r) then Cancel_Unavailable else Cancel_Accepted)"

definition is_resident :: "(nat \<Rightarrow> nat list) \<Rightarrow> LiveResidency \<Rightarrow> bool" where
  "is_resident pool_operations r = (case res_pool r of
      None \<Rightarrow> False | Some pool \<Rightarrow> list_ex (\<lambda>operation. Some operation = res_operation r) (pool_operations pool))"

text \<open>Before the gate: the record is checked and the residency found.\<close>

definition Cancel_find :: "OperationId \<Rightarrow> u64 \<Rightarrow> Coordinator \<Rightarrow> CancelResult + nat" where
  "Cancel_find i expected_revision k = (case CenterModel_Find i (k_Model k) of
      None \<Rightarrow> Inl (Cancel_OperationNotFound, None)
    | Some r \<Rightarrow>
        if cancel_validation expected_revision r \<noteq> Cancel_Accepted
        then Inl (cancel_validation expected_revision r, Some r)
        else (case FindLiveResidency i k of
          None \<Rightarrow> Inl (Cancel_ResidencyUnavailable, Some r)
        | Some a \<Rightarrow> Inr a))"

text \<open>With the gate: everything is checked again, and the cancellation is marked as in flight.\<close>

definition Cancel_begin ::
  "(nat \<Rightarrow> nat list) \<Rightarrow> OperationId \<Rightarrow> u64 \<Rightarrow> nat \<Rightarrow> Coordinator \<Rightarrow> (CancelResult + unit) \<times> Coordinator" where
  "Cancel_begin pool_operations i expected_revision a k = (case CenterModel_Find i (k_Model k) of
      None \<Rightarrow> (Inl (Cancel_OperationNotFound, None), k)
    | Some r \<Rightarrow>
        if cancel_validation expected_revision r \<noteq> Cancel_Accepted
        then (Inl (cancel_validation expected_revision r, Some r), k)
        else if cancel_in_flight (residency_at k a) then (Inl (Cancel_InProgress, Some r), k)
        else if \<not> is_resident pool_operations (residency_at k a)
        then (Inl (Cancel_ResidencyUnavailable, Some r), k)
        else (Inr (), set_residency a (\<lambda>r. r\<lparr>cancel_in_flight := True\<rparr>) k))"

text \<open>After \<open>Stop\<close> has returned; the gate is still held.\<close>

definition Cancel_end ::
  "OperationId \<Rightarrow> nat \<Rightarrow> bool \<Rightarrow> int \<Rightarrow> int \<Rightarrow> int \<Rightarrow> Coordinator \<Rightarrow> CancelResult \<times> Coordinator" where
  "Cancel_end i a accepted now later latest k =
     (let k = (if accepted then ReduceCancelling i now k else k);
          terminal_state = deferred_terminal (residency_at k a);
          k = set_residency a (\<lambda>r. r\<lparr>cancel_in_flight := False, deferred_terminal := None\<rparr>) k;
          k = (case terminal_state of
                 None \<Rightarrow> k
               | Some s \<Rightarrow> RetireLiveResidency i (Some a) (ApplyDurableTerminal i s later latest k)) in
      ((if accepted then Cancel_Accepted else Cancel_StopRejected, CenterModel_Find i (k_Model k)), k))"

text \<open>When \<open>Stop\<close> throws, only the mark is taken back.\<close>

definition Cancel_abort :: "nat \<Rightarrow> Coordinator \<Rightarrow> Coordinator" where
  "Cancel_abort a = set_residency a (\<lambda>r. r\<lparr>cancel_in_flight := False\<rparr>)"

text \<open>
  \<open>others\<close> runs while the thread waits for the gate, \<open>stop\<close> is \<open>Operation::Stop\<close> of the residency's
  operation with everything that happens until it returns; \<open>None\<close> is an exception.
\<close>

definition Cancel ::
  "(nat \<Rightarrow> nat list) \<Rightarrow> (Coordinator \<Rightarrow> Coordinator) \<Rightarrow> (Coordinator \<Rightarrow> bool option \<times> Coordinator) \<Rightarrow>
   int \<Rightarrow> int \<Rightarrow> int \<Rightarrow> OperationId \<Rightarrow> u64 \<Rightarrow> Coordinator \<Rightarrow> CancelResult \<times> Coordinator" where
  "Cancel pool_operations others stop now later latest i expected_revision k =
     (case Cancel_find i expected_revision k of
        Inl result \<Rightarrow> (result, k)
      | Inr a \<Rightarrow> (case Cancel_begin pool_operations i expected_revision a (others k) of
          (Inl result, k) \<Rightarrow> (result, k)
        | (Inr _, k) \<Rightarrow> (case stop k of
            (None, k) \<Rightarrow> ((Cancel_ResidencyUnavailable, None), Cancel_abort a k)
          | (Some accepted, k) \<Rightarrow> Cancel_end i a accepted now later latest k)))"

section \<open>Pausing\<close>

definition pause_validation :: "OperationCenterPauseIntent \<Rightarrow> u64 \<Rightarrow> OperationRecord \<Rightarrow> OperationCenterPauseResultCode" where
  "pause_validation intent expected_revision r =
     (if revision r \<noteq> expected_revision then Pause_StaleRevision
      else if \<not> (if intent = Intent_Pause then can_pause (controls r) else can_resume (controls r))
      then Pause_ControlUnavailable else Pause_Accepted)"

definition SetPaused_find :: "OperationCenterPauseIntent \<Rightarrow> OperationId \<Rightarrow> u64 \<Rightarrow> Coordinator \<Rightarrow> PauseResult + nat" where
  "SetPaused_find intent i expected_revision k = (case CenterModel_Find i (k_Model k) of
      None \<Rightarrow> Inl (Pause_OperationNotFound, None)
    | Some r \<Rightarrow>
        if pause_validation intent expected_revision r \<noteq> Pause_Accepted
        then Inl (pause_validation intent expected_revision r, Some r)
        else (case FindLiveResidency i k of
          None \<Rightarrow> Inl (Pause_ResidencyUnavailable, Some r)
        | Some a \<Rightarrow>
            if res_operation (residency_at k a) = None then Inl (Pause_ResidencyUnavailable, Some r) else Inr a))"

definition SetPaused_check ::
  "(nat \<Rightarrow> nat list) \<Rightarrow> OperationCenterPauseIntent \<Rightarrow> OperationId \<Rightarrow> u64 \<Rightarrow> nat \<Rightarrow> Coordinator \<Rightarrow> PauseResult option" where
  "SetPaused_check pool_operations intent i expected_revision a k = (case CenterModel_Find i (k_Model k) of
      None \<Rightarrow> Some (Pause_OperationNotFound, None)
    | Some r \<Rightarrow>
        if pause_validation intent expected_revision r \<noteq> Pause_Accepted
        then Some (pause_validation intent expected_revision r, Some r)
        else if \<not> is_resident pool_operations (residency_at k a) then Some (Pause_ResidencyUnavailable, Some r)
        else None)"

text \<open>\<open>engine\<close> is \<open>Operation::Pause\<close> or \<open>Operation::Resume\<close>; \<open>False\<close> is an exception.\<close>

definition SetPaused ::
  "(nat \<Rightarrow> nat list) \<Rightarrow> (Coordinator \<Rightarrow> Coordinator) \<Rightarrow> (OperationCenterPauseIntent \<Rightarrow> Coordinator \<Rightarrow> bool \<times> Coordinator) \<Rightarrow>
   int \<Rightarrow> OperationId \<Rightarrow> u64 \<Rightarrow> OperationCenterPauseIntent \<Rightarrow> Coordinator \<Rightarrow> PauseResult \<times> Coordinator" where
  "SetPaused pool_operations others engine now i expected_revision intent k =
     (case SetPaused_find intent i expected_revision k of
        Inl result \<Rightarrow> (result, k)
      | Inr a \<Rightarrow> let k = others k in
          (case SetPaused_check pool_operations intent i expected_revision a k of
             Some result \<Rightarrow> (result, k)
           | None \<Rightarrow> (case engine intent k of
               (False, k) \<Rightarrow> ((Pause_ResidencyUnavailable, None), k)
             | (True, k) \<Rightarrow> let k = ReducePaused i (intent = Intent_Pause) now k in
                 ((Pause_Accepted, CenterModel_Find i (k_Model k)), k))))"

section \<open>Submission\<close>

datatype CopyOperationOrchestratorErrorCode =
    XE_MissingJournal | XE_MissingPool | XE_MissingExecutionFactory | XE_MissingRunReceiptCustodian
  | XE_UnsupportedReviewedPlan | XE_Cancelled | XE_JournalAdmissionFailed | XE_InvalidJournalAdmissionReceipt
  | XE_ExecutionFactoryFailed | XE_InvalidExecutionProduct | XE_OperationConfigurationFailed
  | XE_AdmissionFinalizationFailed | XE_RunReceiptReservationFailed | XE_RunningTransitionFailed
  | XE_RunReceiptArmFailed | XE_PreEnqueuePreparationFailed | XE_RunningFinalizationFailed | XE_EnqueueRejected

datatype OperationCenterSubmissionErrorCode =
    SE_HookPreparationFailed | SE_AdmissionStagingFailed | SE_AdmissionCommitFailed | SE_OrchestratorRejected

record OperationCenterSubmissionError =
  submission_code :: OperationCenterSubmissionErrorCode
  coordinator_error :: "OperationCenterCoordinatorError option"
  orchestrator_error :: "CopyOperationOrchestratorErrorCode option"

definition orchestrator_failure :: "CopyOperationOrchestratorErrorCode \<Rightarrow> OperationCenterSubmissionError" where
  "orchestrator_failure e =
     \<lparr>submission_code = SE_OrchestratorRejected, coordinator_error = None, orchestrator_error = Some e\<rparr>"

record SubmissionBinding =
  sb_coordinator :: "nat option"
  sb_operation_id :: "OperationId option"
  sb_residency_draft :: "LiveResidencyDraft option"

definition Resolve :: "SubmissionBinding \<Rightarrow> Coordinator \<Rightarrow> OperationId option" where
  "Resolve b k = (if sb_coordinator b \<noteq> Some (k_instance k) then None else sb_operation_id b)"

text \<open>
  The three callbacks that hold the binding. The handoff returns the exception it throws; its lease keeps
  the gate of the residency until the pool has taken the operation, so nothing else happens at the gate
  in between.
\<close>

definition pre_enqueue_handoff ::
  "nat option \<Rightarrow> nat option \<Rightarrow> SubmissionBinding \<Rightarrow> Coordinator \<Rightarrow> (string + unit) \<times> SubmissionBinding \<times> Coordinator" where
  "pre_enqueue_handoff pool operation b k = (case Resolve b k of
      None \<Rightarrow> (Inl ''missing coordinator admission binding'', b, k)
    | Some i \<Rightarrow> (case sb_residency_draft b of
        None \<Rightarrow> (Inl ''missing coordinator live residency'', b, k)
      | Some d \<Rightarrow> let b = b\<lparr>sb_residency_draft := None\<rparr> in
          if ld_Residency d = None
          then (Inl ''missing coordinator live residency'', b, snd (LiveResidencyDraft_Release d k))
          else (case RegisterLiveResidency d i pool operation k of
            (result, d, k) \<Rightarrow> (result, b, snd (LiveResidencyDraft_Release d k)))))"

definition durable_terminal_hook ::
  "(Coordinator \<Rightarrow> Coordinator) \<Rightarrow> OperationJournalState \<Rightarrow> int \<Rightarrow> int \<Rightarrow> SubmissionBinding \<Rightarrow> Coordinator \<Rightarrow> Coordinator" where
  "durable_terminal_hook others s now later b k = (case Resolve b k of
      None \<Rightarrow> k | Some i \<Rightarrow> ReduceDurableTerminal others i s now later k)"

definition started_hook :: "int \<Rightarrow> SubmissionBinding \<Rightarrow> Coordinator \<Rightarrow> Coordinator" where
  "started_hook now b k = (case Resolve b k of None \<Rightarrow> k | Some i \<Rightarrow> ReduceStarted i now k)"

text \<open>The binding is destroyed with its last owner; a draft that is still in it is released then.\<close>

definition SubmissionBinding_destroy :: "SubmissionBinding \<Rightarrow> Coordinator \<Rightarrow> Coordinator" where
  "SubmissionBinding_destroy b k = (case sb_residency_draft b of
      None \<Rightarrow> k | Some d \<Rightarrow> snd (LiveResidencyDraft_Release d k))"

text \<open>
  The members of the orchestrator that are looked at, the reviewed plan with the number of items its
  report accepts, and \<open>CopyOperationOrchestrator::SubmitAdmitted\<close>, which runs with the hooks and with
  everything else that happens until it returns; it says whether something still owns the hooks.
\<close>

record 'w CopyOperationOrchestrator =
  orch_journal :: "nat option"
  orch_pool :: "nat option"
  orch_use_injected_factory :: bool
  orch_has_factory :: bool
  orch_has_custodian :: bool
  orch_SubmitAdmitted :: "OperationJournalAdmissionReceipt \<Rightarrow> SubmissionBinding \<Rightarrow> Coordinator \<times> Impl \<times> 'w \<Rightarrow>
    (CopyOperationOrchestratorErrorCode + nat) \<times> bool \<times> SubmissionBinding \<times> Coordinator \<times> Impl \<times> 'w"

record ReviewedVFSOperationPreflight =
  reviewed_plan :: OperationPlan
  reviewed_item_count :: nat

definition submission_guard ::
  "'w CopyOperationOrchestrator \<Rightarrow> ReviewedVFSOperationPreflight \<Rightarrow> Impl \<Rightarrow> CopyOperationOrchestratorErrorCode option" where
  "submission_guard X reviewed j =
     (if orch_journal X \<noteq> Some (j_instance j) then Some XE_InvalidJournalAdmissionReceipt
      else if orch_pool X = None then Some XE_MissingPool
      else if orch_use_injected_factory X \<and> \<not> orch_has_factory X then Some XE_MissingExecutionFactory
      else if \<not> orch_has_custodian X then Some XE_MissingRunReceiptCustodian
      else let plan = reviewed_plan reviewed in
        if plan_Type plan \<noteq> Type_Copy \<and> plan_Type plan \<noteq> Type_Move \<and> plan_Type plan \<noteq> Type_PermanentDelete
           \<or> reviewed_item_count reviewed \<noteq> length (plan_Sources plan)
        then Some XE_UnsupportedReviewedPlan else None)"

text \<open>The block under \<open>m_AdmissionLock\<close>: staged, committed, and the token destroyed.\<close>

definition submission_admit ::
  "Json \<Rightarrow> 'w Syscalls \<Rightarrow> (Coordinator \<times> Impl \<times> 'w \<Rightarrow> Coordinator \<times> Impl \<times> 'w) \<Rightarrow> OperationPlan \<Rightarrow>
   Coordinator \<times> Impl \<times> 'w \<Rightarrow>
   ((OperationCenterSubmissionError + CommittedAdmission) \<times> Coordinator \<times> Impl \<times> 'w) option" where
  "submission_admit J S others plan = (\<lambda>(k, j, w). case Coordinator_StageAdmission plan j k of
      (Inl e, j, k) \<Rightarrow> Some (Inl \<lparr>submission_code = SE_AdmissionStagingFailed, coordinator_error = Some e,
        orchestrator_error = None\<rparr>, k, j, w)
    | (Inr staging, j, k) \<Rightarrow>
        Option.bind (CommitAdmission J S others staging (k, j, w)) (\<lambda>(admission, staging, k, j, w).
          case AdmissionStaging_destroy staging j k of (j, k) \<Rightarrow> Some (case admission of
            Inl e \<Rightarrow> (Inl \<lparr>submission_code = SE_AdmissionCommitFailed, coordinator_error = Some e,
              orchestrator_error = None\<rparr>, k, j, w)
          | Inr committed \<Rightarrow> (Inr committed, k, j, w))))"

definition SubmitReviewedCopy ::
  "Json \<Rightarrow> 'w Syscalls \<Rightarrow> (Coordinator \<times> Impl \<times> 'w \<Rightarrow> Coordinator \<times> Impl \<times> 'w) \<Rightarrow> (Coordinator \<Rightarrow> Coordinator) \<Rightarrow>
   int \<Rightarrow> int \<Rightarrow> 'w CopyOperationOrchestrator \<Rightarrow> ReviewedVFSOperationPreflight \<Rightarrow> Coordinator \<times> Impl \<times> 'w \<Rightarrow>
   ((OperationCenterSubmissionError + nat) \<times> Coordinator \<times> Impl \<times> 'w) option" where
  "SubmitReviewedCopy J S others waiting now later X reviewed = (\<lambda>(k, j, w).
     case submission_guard X reviewed j of
       Some e \<Rightarrow> Some (Inl (orchestrator_failure e), k, j, w)
     | None \<Rightarrow> Option.bind (submission_admit J S others (reviewed_plan reviewed) (k, j, w)) (\<lambda>(admission, k, j, w).
         case admission of
           Inl e \<Rightarrow> Some (Inl e, k, j, w)
         | Inr committed \<Rightarrow>
             let i = committed_operation_id committed;
                 b = \<lparr>sb_coordinator = Some (k_instance k), sb_operation_id = Some i,
                   sb_residency_draft = Some (com_ResidencyDraft committed)\<rparr> in
             case orch_SubmitAdmitted X (journal_receipt committed) b (k, j, w) of
               (Inr operation, _, b, k, j, w) \<Rightarrow> Some (Inr operation, k, j, w)
             | (Inl e, owned, b, k, j, w) \<Rightarrow>
                 let k = RetireLiveResidency i None (ReduceDurableTerminalFromJournal waiting i j now later k) in
                 Some (Inl (orchestrator_failure e),
                   if owned then k else SubmissionBinding_destroy b k, j, w)))"

end
