(* ===== verification/CenterTheorems.thy ===== *)
theory CenterTheorems
  imports OperationCenter JournalSample
begin

text \<open>
  Properties of the Operation Center's model along any sequence of its operations: the records stay
  well-formed and distinct, terminal records stay as they are, a staged admission always finds room,
  and of several callers that hold the same revision only one succeeds.
\<close>

section \<open>Steps and the invariant\<close>

text \<open>Drafts are only made by \<open>StageAdmission\<close>, so they hold a queued record.\<close>

definition draft_object :: "AdmissionDraft \<Rightarrow> bool" where
  "draft_object d \<longleftrightarrow> record_state (draft_Record d) = Record_Queued \<and> finished_at (draft_Record d) = None
     \<and> controls (draft_Record d) = ControlsFor Record_Queued"

inductive center_step :: "CenterModel \<Rightarrow> CenterModel \<Rightarrow> bool" where
  Staged: "StageAdmission p t m = (r, m') \<Longrightarrow> center_step m m'"
| Withdrawn: "AdmissionDraft_Release d m = (d', m') \<Longrightarrow> center_step m m'"
| Published: "draft_object d \<Longrightarrow> CenterModel_Publish d receipt m = (r, d', fired, m') \<Longrightarrow> center_step m m'"
| Moved: "CenterModel_Transition i v s t m = (x, fired, m') \<Longrightarrow> center_step m m'"
| Hydrated: "length rs \<le> capacity \<Longrightarrow> Hydrate rs capacity m = (r, fired, m') \<Longrightarrow> center_step m m'"
| Refreshed: "RefreshColdHistory rs m = (r, fired, m') \<Longrightarrow> center_step m m'"

definition record_ok :: "OperationRecord \<Rightarrow> bool" where
  "record_ok r \<longleftrightarrow> controls r = ControlsFor (record_state r) \<and> (IsTerminal (record_state r) \<longleftrightarrow> finished_at r \<noteq> None)"

definition center_inv :: "CenterModel \<Rightarrow> bool" where
  "center_inv m \<longleftrightarrow> distinct (map record_operation_id (c_records m)) \<and> list_all record_ok (c_records m)
     \<and> finite (c_admission_drafts m) \<and> length (c_records m) + card (c_admission_drafts m) \<le> c_capacity m"

text \<open>How a record may change: it moves along the allowed transitions, one revision at a time.\<close>

definition record_step :: "OperationRecord \<Rightarrow> OperationRecord \<Rightarrow> bool" where
  "record_step r r' \<longleftrightarrow> r' = r \<or> IsAllowedTransition (record_state r) (record_state r') \<and> revision r' = revision r + 1
     \<and> record_operation_id r' = record_operation_id r \<and> record_plan_id r' = record_plan_id r
     \<and> operation_type r' = operation_type r \<and> created_at r' = created_at r
     \<and> (started_at r \<noteq> None \<longrightarrow> started_at r' = started_at r)"

definition records_step :: "OperationRecord list \<Rightarrow> OperationRecord list \<Rightarrow> bool" where
  "records_step rs rs' \<longleftrightarrow> length rs \<le> length rs' \<and> (\<forall>k < length rs. record_step (rs ! k) (rs' ! k))"

lemma record_step_refl [simp]: "record_step r r"
  by (simp add: record_step_def)

lemma records_step_update: "record_step (rs ! k) r \<Longrightarrow> records_step rs (rs[k := r])"
  by (cases "k < length rs") (auto simp: records_step_def nth_list_update)

lemma records_step_refl [simp]: "records_step rs rs"
  by (simp add: records_step_def record_step_def)

lemma records_step_append [simp]: "records_step rs (rs @ new)"
  by (simp add: records_step_def record_step_def nth_append)

lemma moved_record_ok:
  "IsAllowedTransition (record_state r) s \<Longrightarrow> record_ok r \<Longrightarrow> record_ok (moved_record s t r)"
  by (cases "record_state r") (auto simp: record_ok_def moved_record_def IsAllowedTransition_def IsTerminal_def)

lemma moved_record_step:
  "IsAllowedTransition (record_state r) s \<Longrightarrow> record_step r (moved_record s t r)"
  by (auto simp: record_step_def moved_record_def)

lemma hydrate_loop_ok:
  assumes "hydrate_loop seen maximum acc rs = Inr (n, rs')" "record_operation_id ` set acc \<subseteq> seen"
    "distinct (map record_operation_id acc)" "list_all record_ok acc"
  shows "distinct (map record_operation_id rs') \<and> list_all record_ok rs' \<and> length rs' = length acc + length rs"
  using assms
proof (induction rs arbitrary: seen maximum acc)
  case (Cons r rs)
  from Cons.prems(1) have r: "hydratable r" "record_operation_id r \<notin> seen"
    "hydrate_loop (insert (record_operation_id r) seen) (max maximum (record_operation_id r)) (acc @ [with_controls r]) rs
      = Inr (n, rs')" by (auto split: if_splits)
  from r(1) have "record_ok (with_controls r)" by (auto simp: hydratable_def record_ok_def with_controls_def)
  moreover have "record_operation_id (with_controls r) = record_operation_id r" by (simp add: with_controls_def)
  ultimately show ?case using Cons.IH [OF r(3)] Cons.prems(2-4) r(2) by auto
qed auto

lemma refresh_loop_ok:
  assumes "refresh_loop current seen maximum acc rs = Inr (n, rs')" "record_operation_id ` set acc \<subseteq> seen"
    "distinct (map record_operation_id (current @ acc))" "list_all record_ok acc"
  shows "distinct (map record_operation_id (current @ rs')) \<and> list_all record_ok rs'"
  using assms
proof (induction rs arbitrary: seen maximum acc)
  case (Cons r rs)
  from Cons.prems(1) have r: "hydratable r" "record_operation_id r \<notin> seen" by (auto split: if_splits)
  then have ok: "record_ok (with_controls r)" "record_operation_id (with_controls r) = record_operation_id r"
    by (auto simp: hydratable_def record_ok_def with_controls_def)
  show ?case
  proof (cases "find_if (\<lambda>x. record_operation_id x = record_operation_id r) current")
    case None
    then have "record_operation_id r \<notin> record_operation_id ` set current" by (auto simp: find_if_None)
    with Cons.IH [of "insert (record_operation_id r) seen" "max maximum (record_operation_id r)" "acc @ [with_controls r]"]
      Cons.prems r None ok show ?thesis by (auto simp: Let_def split: if_splits)
  next
    case (Some k)
    with Cons.IH [of "insert (record_operation_id r) seen" "max maximum (record_operation_id r)" acc] Cons.prems r
    show ?thesis by (auto simp: Let_def split: if_splits)
  qed
qed auto

text \<open>One lemma per operation.\<close>

lemma StageAdmission_inv:
  "center_inv m \<Longrightarrow> StageAdmission p t m = (r, m') \<Longrightarrow> center_inv m' \<and> c_records m' = c_records m"
  by (auto simp: center_inv_def StageAdmission_def vector_reserve_def Let_def card_insert_if split: if_splits)

lemma AdmissionDraft_Release_inv:
  assumes "center_inv m" "AdmissionDraft_Release d m = (d', m')"
  shows "center_inv m' \<and> c_records m' = c_records m"
proof -
  have "card (c_admission_drafts m - {draft_Nonce d}) \<le> card (c_admission_drafts m)" 
    using assms(1) by (simp add: center_inv_def card_mono)
  with assms show ?thesis
    by (auto simp: center_inv_def AdmissionDraft_Release_def split: if_splits)
qed

lemma CenterModel_Publish_inv:
  assumes m: "center_inv m" and d: "draft_object d" and p: "CenterModel_Publish d receipt m = (r, d', fired, m')"
  shows "center_inv m' \<and> records_step (c_records m) (c_records m')"
proof (cases r)
  case (Inl e)
  with m p show ?thesis by (auto simp: CenterModel_Publish_def Let_def split: if_splits)
next
  case (Inr u)
  let ?r = "(draft_Record d)\<lparr>record_operation_id := adm_OperationId receipt\<rparr>"
  from Inr p have ok: "draft_Nonce d \<in> c_admission_drafts m" "length (c_records m) \<noteq> c_capacity m"
      "\<not> list_ex (\<lambda>r. record_operation_id r = adm_OperationId receipt) (c_records m)"
    and m': "c_records m' = c_records m @ [?r]" "c_admission_drafts m' = c_admission_drafts m - {draft_Nonce d}"
      "c_capacity m' = c_capacity m"
    by (auto simp: CenterModel_Publish_def vector_emplace_back_def Let_def split: if_splits)
  have "record_ok ?r" using d by (simp add: draft_object_def record_ok_def IsTerminal_def)
  moreover have "0 < card (c_admission_drafts m)" using ok(1) m by (auto simp: center_inv_def card_gt_0_iff)
  moreover have "card (c_admission_drafts m') = card (c_admission_drafts m) - 1" using ok(1) m' by simp
  ultimately have "center_inv m'" using m ok(3) m' by (auto simp: center_inv_def list_ex_iff)
  with m' show ?thesis by simp
qed

lemma CenterModel_Transition_inv:
  assumes m: "center_inv m" and p: "CenterModel_Transition i v s t m = (x, fired, m')"
  shows "center_inv m' \<and> records_step (c_records m) (c_records m')"
proof (cases x)
  case (Inl e)
  with m p show ?thesis by (auto simp: CenterModel_Transition_def Let_def split: if_splits option.splits)
next
  case (Inr r)
  with p obtain k where k: "find_if (\<lambda>r. record_operation_id r = i) (c_records m) = Some k"
      "IsAllowedTransition (record_state (c_records m ! k)) s"
    and m': "m' = m\<lparr>c_records := (c_records m)[k := moved_record s t (c_records m ! k)]\<rparr>"
    by (auto simp: CenterModel_Transition_def Let_def split: if_splits option.splits)
  from find_if_Some [OF k(1)] have l: "k < length (c_records m)" by simp
  have "record_ok (moved_record s t (c_records m ! k))"
    using moved_record_ok [OF k(2)] m l by (simp add: center_inv_def list_all_length)
  then have "list_all record_ok (c_records m')"
    using m m' by (auto simp: center_inv_def list_all_iff dest: set_update_subset_insert [THEN subsetD])
  moreover have "map record_operation_id (c_records m') = map record_operation_id (c_records m)"
    using l m' by (simp add: map_update moved_record_def list_update_same_conv)
  moreover have "records_step (c_records m) (c_records m')"
    using moved_record_step [OF k(2)] m' by (simp add: records_step_update)
  ultimately show ?thesis using m m' by (simp add: center_inv_def)
qed

lemma Hydrate_inv:
  assumes "center_inv m" "length rs \<le> capacity" "Hydrate rs capacity m = (r, fired, m')"
  shows "center_inv m' \<and> records_step (c_records m) (c_records m')"
proof (cases r)
  case (Inl e)
  with assms show ?thesis by (auto simp: Hydrate_def split: if_splits sum.splits)
next
  case (Inr u)
  with assms(3) obtain n rs' where "hydrate_loop {} 0 [] rs = Inr (n, rs')" "c_records m = []"
    "c_admission_drafts m = {}" "m' = m\<lparr>c_next_sequence := n + 1, c_records := rs', c_capacity := capacity\<rparr>"
    by (auto simp: Hydrate_def split: if_splits sum.splits)
  with hydrate_loop_ok [of "{}" 0 "[]" rs n rs'] assms(2) show ?thesis
    by (simp add: center_inv_def records_step_def)
qed

lemma RefreshColdHistory_inv:
  assumes "center_inv m" "RefreshColdHistory rs m = (r, fired, m')"
  shows "center_inv m' \<and> records_step (c_records m) (c_records m')"
proof (cases "fired")
  case False
  with assms show ?thesis by (auto simp: RefreshColdHistory_def split: if_splits sum.splits)
next
  case True
  with assms(2) obtain n new where "refresh_loop (c_records m) {} 0 [] rs = Inr (n, new)" "c_admission_drafts m = {}"
    "m' = m\<lparr>c_records := c_records m @ new, c_capacity := length (c_records m) + length new,
       c_next_sequence := max (c_next_sequence m) (n + 1)\<rparr>"
    by (auto simp: RefreshColdHistory_def split: if_splits sum.splits)
  with refresh_loop_ok [of "c_records m" "{}" 0 "[]" rs n new] assms(1) show ?thesis
    by (simp add: center_inv_def)
qed

lemma center_step_inv:
  assumes "center_step m m'" "center_inv m"
  shows "center_inv m' \<and> records_step (c_records m) (c_records m')"
  using assms
proof (cases rule: center_step.cases)
  case (Staged p t r)
  from StageAdmission_inv [OF assms(2) Staged] show ?thesis by simp
next
  case (Withdrawn d d')
  from AdmissionDraft_Release_inv [OF assms(2) Withdrawn] show ?thesis by simp
next
  case (Published d receipt r d' fired)
  from CenterModel_Publish_inv [OF assms(2) Published] show ?thesis .
next
  case (Moved i v s t x fired)
  from CenterModel_Transition_inv [OF assms(2) Moved] show ?thesis .
next
  case (Hydrated rs capacity r fired)
  from Hydrate_inv [OF assms(2) Hydrated] show ?thesis .
next
  case (Refreshed rs r fired)
  from RefreshColdHistory_inv [OF assms(2) Refreshed] show ?thesis .
qed

section \<open>Runs\<close>

lemma center_init: "center_inv (OperationCenterModel_init inst)"
  by (simp add: center_inv_def OperationCenterModel_init_def)

lemma center_run_inv: "center_step\<^sup>*\<^sup>* m m' \<Longrightarrow> center_inv m \<Longrightarrow> center_inv m'"
  by (induction rule: rtranclp_induct) (auto dest: center_step_inv)

text \<open>What stays of a record over a whole run; a terminal record stays as it is.\<close>

definition record_kept :: "OperationRecord \<Rightarrow> OperationRecord \<Rightarrow> bool" where
  "record_kept r r' \<longleftrightarrow> record_operation_id r' = record_operation_id r \<and> record_plan_id r' = record_plan_id r
     \<and> operation_type r' = operation_type r \<and> created_at r' = created_at r
     \<and> (started_at r \<noteq> None \<longrightarrow> started_at r' = started_at r) \<and> (IsTerminal (record_state r) \<longrightarrow> r' = r)"

lemma record_step_kept: "record_step r r' \<Longrightarrow> record_kept r r'"
  by (cases "record_state r") (auto simp: record_step_def record_kept_def IsAllowedTransition_def IsTerminal_def)

lemma record_kept_trans: "record_kept a b \<Longrightarrow> record_kept b c \<Longrightarrow> record_kept a c"
  by (auto simp: record_kept_def)

lemma center_run_kept:
  assumes "center_step\<^sup>*\<^sup>* m m'" "center_inv m" "k < length (c_records m)"
  shows "k < length (c_records m') \<and> record_kept (c_records m ! k) (c_records m' ! k)"
  using assms(1)
proof (induction rule: rtranclp_induct)
  case base
  show ?case using assms(3) by (simp add: record_kept_def)
next
  case (step a b)
  have "center_inv a" using center_run_inv [OF step.hyps(1) assms(2)] .
  with center_step_inv [OF step.hyps(2)] have "records_step (c_records a) (c_records b)" by simp
  with step.IH show ?case
    by (auto simp: records_step_def dest!: record_step_kept intro: record_kept_trans)
qed

text \<open>
  C30: whatever is done with the model, no two records have the same identity, the controls of every
  record are those of its state, and exactly the terminal records have an end. Records are never
  dropped or reordered, keep identity, plan, creation and start, and never change once terminal.
\<close>

theorem center_runs:
  assumes "center_step\<^sup>*\<^sup>* (OperationCenterModel_init inst) m1" and "center_step\<^sup>*\<^sup>* m1 m2"
  shows "distinct (map record_operation_id (c_records m2)) \<and> list_all record_ok (c_records m2)
    \<and> length (c_records m1) \<le> length (c_records m2)
    \<and> (\<forall>k < length (c_records m1). record_kept (c_records m1 ! k) (c_records m2 ! k))"
proof -
  have m1: "center_inv m1" using center_run_inv [OF assms(1) center_init] .
  have "length (c_records m1) \<le> length (c_records m2)"
  proof (cases "c_records m1")
    case (Cons r rs)
    then have "length rs < length (c_records m1)" by simp
    from center_run_kept [OF assms(2) m1 this] Cons show ?thesis by simp
  qed simp
  then show ?thesis
    using center_run_inv [OF assms(2) m1] center_run_kept [OF assms(2) m1] by (simp add: center_inv_def)
qed

text \<open>
  A staged admission is never stranded. As long as its draft was not withdrawn, publishing it with
  the journal's receipt for the same plan succeeds and appends the record, however many other
  admissions were staged or published in between: there is always room, so that nothing needs to be
  allocated after the journal has committed.
\<close>

theorem staged_has_room:
  assumes "center_step\<^sup>*\<^sup>* (OperationCenterModel_init inst) m"
    and "draft_Nonce d \<in> c_admission_drafts m" and "draft_Impl d = Some (c_instance m)" and "\<not> draft_Consumed d"
    and "record_plan_id (draft_Record d) = plan_Id (adm_Plan receipt)"
    and "\<not> list_ex (\<lambda>r. record_operation_id r = adm_OperationId receipt) (c_records m)"
  shows "\<exists>d' m'. CenterModel_Publish d receipt m = (Inr (), d', True, m')
    \<and> c_records m' = c_records m @ [(draft_Record d)\<lparr>record_operation_id := adm_OperationId receipt\<rparr>]
    \<and> c_capacity m' = c_capacity m"
proof -
  have "center_inv m" using center_run_inv [OF assms(1) center_init] .
  moreover from this assms(2) have "0 < card (c_admission_drafts m)" by (auto simp: center_inv_def card_gt_0_iff)
  ultimately have "length (c_records m) \<noteq> c_capacity m" by (simp add: center_inv_def)
  with assms show ?thesis by (auto simp: CenterModel_Publish_def vector_emplace_back_def Let_def)
qed

section \<open>Revisions\<close>

lemma record_step_revision: "record_step r r' \<Longrightarrow> revision r' = revision r \<or> revision r' = revision r + 1"
  by (auto simp: record_step_def)

lemma steps_revision:
  assumes "(center_step ^^ n) m m'" "center_inv m" "k < length (c_records m)"
  shows "center_inv m' \<and> k < length (c_records m') \<and> record_operation_id (c_records m' ! k) = record_operation_id (c_records m ! k)
    \<and> (\<exists>j \<le> n. revision (c_records m' ! k) = revision (c_records m ! k) + of_nat j)"
  using assms(1)
proof (induction n arbitrary: m')
  case 0
  then show ?case using assms(2,3) by simp
next
  case (Suc n)
  from Suc.prems obtain a where a: "(center_step ^^ n) m a" "center_step a m'" by auto
  from Suc.IH [OF a(1)] obtain j where j: "center_inv a" "k < length (c_records a)" "j \<le> n"
    "record_operation_id (c_records a ! k) = record_operation_id (c_records m ! k)"
    "revision (c_records a ! k) = revision (c_records m ! k) + of_nat j" by blast
  from center_step_inv [OF a(2) j(1)] j(2) have next_step: "center_inv m'" "k < length (c_records m')"
    "record_step (c_records a ! k) (c_records m' ! k)" by (auto simp: records_step_def)
  have "record_operation_id (c_records m' ! k) = record_operation_id (c_records m ! k)"
    using record_step_kept [OF next_step(3)] j(4) by (simp add: record_kept_def)
  moreover from record_step_revision [OF next_step(3)] j(3,5)
  have "\<exists>j \<le> Suc n. revision (c_records m' ! k) = revision (c_records m ! k) + of_nat j"
    by (elim disjE) (intro exI [of _ j], simp, intro exI [of _ "Suc j"], simp)
  ultimately show ?case using next_step by blast
qed

lemma find_if_distinct:
  "distinct (map f xs) \<Longrightarrow> k < length xs \<Longrightarrow> find_if (\<lambda>x. f x = f (xs ! k)) xs = Some k"
proof -
  assume d: "distinct (map f xs)" "k < length xs"
  obtain l where l: "find_if (\<lambda>x. f x = f (xs ! k)) xs = Some l"
    using d(2) find_if_None [of "\<lambda>x. f x = f (xs ! k)" xs] nth_mem by (cases "find_if (\<lambda>x. f x = f (xs ! k)) xs") blast+
  from find_if_Some [OF l] d have "l = k" by (metis length_map nth_eq_iff_index_eq nth_map)
  with l show ?thesis by simp
qed

text \<open>
  Of several callers that saw the same revision of a record, at most one moves it. After a
  transition was accepted, another for the same record that expects the old revision is refused as
  stale, whatever happened in between, until \<open>2 ^ 64 - 1\<close> more steps could have let the counter come
  round; the answer names the revision the record has now.
\<close>

theorem one_transition_per_revision:
  assumes "center_step\<^sup>*\<^sup>* (OperationCenterModel_init inst) m"
    and "CenterModel_Transition i v s t m = (Inr r, fired, m1)"
    and "(center_step ^^ n) m1 m2" and "n < 2 ^ 64 - 1"
  shows "\<exists>current. current \<noteq> v \<and> CenterModel_Transition i v s' t' m2 =
    (Inl \<lparr>center_code = CE_StaleRevision, current_revision = Some current\<rparr>, False, m2)"
proof -
  have m: "center_inv m" using center_run_inv [OF assms(1) center_init] .
  from assms(2) obtain k where k: "find_if (\<lambda>r. record_operation_id r = i) (c_records m) = Some k"
      "revision (c_records m ! k) = v"
    and m1: "m1 = m\<lparr>c_records := (c_records m)[k := moved_record s t (c_records m ! k)]\<rparr>"
    by (auto simp: CenterModel_Transition_def Let_def split: if_splits option.splits)
  from find_if_Some [OF k(1)] have l: "k < length (c_records m)" "record_operation_id (c_records m ! k) = i" by simp_all
  have inv1: "center_inv m1" using CenterModel_Transition_inv [OF m assms(2)] by simp
  have r1: "k < length (c_records m1)" "record_operation_id (c_records m1 ! k) = i" "revision (c_records m1 ! k) = v + 1"
    using m1 l k(2) by (simp_all add: moved_record_def)
  from steps_revision [OF assms(3) inv1 r1(1)] obtain j where j: "center_inv m2" "k < length (c_records m2)" "j \<le> n"
    "record_operation_id (c_records m2 ! k) = i" "revision (c_records m2 ! k) = v + 1 + of_nat j"
    using r1 by auto
  have "revision (c_records m2 ! k) \<noteq> v"
  proof
    assume "revision (c_records m2 ! k) = v"
    with j(5) have "(of_nat (Suc j) :: u64) = 0" by (simp add: algebra_simps)
    then have "2 ^ 64 dvd Suc j" using word_of_nat_eq_0_iff [where 'a = 64, of "Suc j"] by simp
    with j(3) assms(4) show False by (auto dest!: dvd_imp_le)
  qed
  moreover have "find_if (\<lambda>r. record_operation_id r = i) (c_records m2) = Some k"
    using find_if_distinct [of record_operation_id "c_records m2" k] j by (simp add: center_inv_def)
  ultimately show ?thesis by (simp add: CenterModel_Transition_def)
qed

section \<open>Instances\<close>

text \<open>One admission that is staged, published with its receipt, and started.\<close>

definition sample_draft :: AdmissionDraft where
  "sample_draft = \<lparr>draft_Record = queued_record 1 sample_plan 9, draft_Nonce = 1, draft_Impl = Some 0,
     draft_Consumed = False\<rparr>"

definition sample_center :: "u64 set \<Rightarrow> OperationRecord list \<Rightarrow> CenterModel" where
  "sample_center drafts records = (OperationCenterModel_init 0)\<lparr>c_next_admission_draft_nonce := 2,
     c_admission_drafts := drafts, c_records := records, c_capacity := 1\<rparr>"

lemmas sample_center_defs = sample_center_def OperationCenterModel_init_def sample_draft_def queued_record_def

lemma sample_Stage:
  "StageAdmission sample_plan 9 (OperationCenterModel_init 0) = (Inr sample_draft, sample_center {1} [])"
  by (simp add: StageAdmission_def vector_reserve_def Let_def sample_center_defs)

lemma sample_Publish:
  "\<exists>d. CenterModel_Publish sample_draft sample_admission (sample_center {1} []) =
     (Inr (), d, True, sample_center {} [queued_record 1 sample_plan 9])"
  by (simp add: CenterModel_Publish_def vector_emplace_back_def Let_def sample_center_defs sample_admission_def)

lemma sample_Transition:
  "CenterModel_Transition 1 1 Record_Running 10 (sample_center {} [queued_record 1 sample_plan 9]) =
     (Inr (moved_record Record_Running 10 (queued_record 1 sample_plan 9)), True,
      sample_center {} [moved_record Record_Running 10 (queued_record 1 sample_plan 9)])"
  by (simp add: CenterModel_Transition_def Let_def sample_center_defs IsAllowedTransition_def)

lemma sample_center_steps:
  "center_step (OperationCenterModel_init 0) (sample_center {1} [])"
  "center_step (sample_center {1} []) (sample_center {} [queued_record 1 sample_plan 9])"
  "center_step (sample_center {} [queued_record 1 sample_plan 9])
     (sample_center {} [moved_record Record_Running 10 (queued_record 1 sample_plan 9)])"
proof -
  show "center_step (OperationCenterModel_init 0) (sample_center {1} [])" using sample_Stage by (rule Staged)
  have "draft_object sample_draft" by (simp add: draft_object_def sample_draft_def queued_record_def)
  with sample_Publish show "center_step (sample_center {1} []) (sample_center {} [queued_record 1 sample_plan 9])"
    using Published by blast
  show "center_step (sample_center {} [queued_record 1 sample_plan 9])
     (sample_center {} [moved_record Record_Running 10 (queued_record 1 sample_plan 9)])"
    using sample_Transition by (rule Moved)
qed

lemma sample_center_runs:
  "center_step\<^sup>*\<^sup>* (OperationCenterModel_init 0) (sample_center {1} [])"
  "center_step\<^sup>*\<^sup>* (OperationCenterModel_init 0) (sample_center {} [queued_record 1 sample_plan 9])"
  using sample_center_steps(1,2) by (blast intro: rtranclp.rtrancl_into_rtrancl)+

theorem center_runs_witness:
  "record_kept (queued_record 1 sample_plan 9) (moved_record Record_Running 10 (queued_record 1 sample_plan 9))"
  using center_runs [OF sample_center_runs(2) r_into_rtranclp [of center_step, OF sample_center_steps(3)]]
  by (simp add: sample_center_def)

theorem staged_has_room_witness:
  "\<exists>d m. CenterModel_Publish sample_draft sample_admission (sample_center {1} []) = (Inr (), d, True, m)
    \<and> c_capacity m = 1"
  using staged_has_room [OF sample_center_runs(1), of sample_draft sample_admission]
  by (auto simp: sample_center_defs sample_admission_def)

theorem one_transition_per_revision_witness:
  "\<exists>current. current \<noteq> 1 \<and> CenterModel_Transition 1 1 Record_Cancelling 11
      (sample_center {} [moved_record Record_Running 10 (queued_record 1 sample_plan 9)]) =
    (Inl \<lparr>center_code = CE_StaleRevision, current_revision = Some current\<rparr>, False,
      sample_center {} [moved_record Record_Running 10 (queued_record 1 sample_plan 9)])"
  using one_transition_per_revision [OF sample_center_runs(2) sample_Transition, of 0] by simp

end
