(* ===== verification/CoordinatorRuns.thy ===== *)
theory CoordinatorRuns
  imports Coordinator CenterTheorems JournalTheorems
begin

text \<open>
  Runs of a coordinator together with its journal: every operation as steps in the granularity of its
  locks, by any number of threads, and the invariant that links the records on the screen to the entries
  of the ledger.
\<close>

section \<open>Records and entries\<close>

text \<open>
  \<open>holds es i s\<close>: the ledger knows the operation \<open>i\<close> in a state that a record shows as \<open>s\<close>. What was
  interrupted may be settled later.
\<close>

definition shown_as :: "OperationJournalEntry \<Rightarrow> OperationRecordState \<Rightarrow> bool" where
  "shown_as e s \<longleftrightarrow> OperationCenterStateFromJournal (entry_state e) = Some s
     \<or> s = Record_Interrupted \<and> rank (entry_state e) = 3"

definition holds :: "OperationJournalEntry list \<Rightarrow> OperationId \<Rightarrow> OperationRecordState \<Rightarrow> bool" where
  "holds es i s \<longleftrightarrow> (\<exists>e \<in> set es. operation_id e = i \<and> shown_as e s)"

definition record_of :: "OperationRecord \<Rightarrow> OperationJournalEntry \<Rightarrow> bool" where
  "record_of r e \<longleftrightarrow> operation_id e = record_operation_id r \<and> plan_Id (entry_plan e) = record_plan_id r
     \<and> plan_Type (entry_plan e) = operation_type r"

definition linked :: "OperationJournalEntry list \<Rightarrow> OperationRecord list \<Rightarrow> bool" where
  "linked es rs \<longleftrightarrow> (\<forall>r \<in> set rs. \<exists>e \<in> set es. record_of r e \<and> (IsTerminal (record_state r) \<longrightarrow> shown_as e (record_state r)))"

lemma shown_as_later: "shown_as e s \<Longrightarrow> entry_le e e' \<Longrightarrow> rank (entry_state e') \<le> 3 \<Longrightarrow> shown_as e' s"
  by (cases "entry_state e"; cases "entry_state e'")
    (auto simp: shown_as_def entry_le_def rank_def terminal_def OperationCenterStateFromJournal_def)

lemma rank_le: "rank s \<le> 3"
  by (simp add: rank_def split: OperationJournalState.splits)

lemma extends_member:
  assumes "extends es es'" "e \<in> set es"
  shows "\<exists>e' \<in> set es'. entry_le e e'"
proof -
  from assms(2) obtain k where "k < length es" "e = es ! k" by (auto simp: in_set_conv_nth)
  with extends_entry [OF assms(1)] show ?thesis by (metis nth_mem)
qed

lemma holds_extends:
  assumes "extends es es'" "holds es i s"
  shows "holds es' i s"
proof -
  from assms(2) obtain e where e: "e \<in> set es" "operation_id e = i" "shown_as e s" by (auto simp: holds_def)
  from extends_member [OF assms(1) e(1)] obtain e' where "e' \<in> set es'" "entry_le e e'" by blast
  with e shown_as_later rank_le show ?thesis by (auto simp: holds_def entry_le_def)
qed

lemma linked_extends:
  assumes "extends es es'" "linked es rs"
  shows "linked es' rs"
  unfolding linked_def
proof
  fix r assume "r \<in> set rs"
  with assms(2) obtain e where e: "e \<in> set es" "record_of r e"
    "IsTerminal (record_state r) \<longrightarrow> shown_as e (record_state r)" by (auto simp: linked_def)
  from extends_member [OF assms(1) e(1)] obtain e' where "e' \<in> set es'" "entry_le e e'" by blast
  with e shown_as_later rank_le
  show "\<exists>e \<in> set es'. record_of r e \<and> (IsTerminal (record_state r) \<longrightarrow> shown_as e (record_state r))"
    by (intro bexI [of _ e']) (auto simp: record_of_def entry_le_def)
qed

lemma terminal_same [simp]: "OperationCenterStateIsTerminal = IsTerminal"
  by (intro ext) (simp add: OperationCenterStateIsTerminal_def IsTerminal_def split: OperationRecordState.splits)

section \<open>Moves of the records\<close>

text \<open>What the reductions do to the model: a few transitions, and into a terminal state only with \<open>P\<close>.\<close>

inductive moves :: "(OperationId \<Rightarrow> OperationRecordState \<Rightarrow> bool) \<Rightarrow> CenterModel \<Rightarrow> CenterModel \<Rightarrow> bool" for P where
  Same: "moves P m m"
| Move: "moves P m m1 \<Longrightarrow> (IsTerminal s \<Longrightarrow> P i s) \<Longrightarrow> CenterModel_Transition i v s t m1 = (x, fired, m2) \<Longrightarrow> moves P m m2"

lemma Transition_other:
  "CenterModel_Transition i v s t m = (x, fired, m') \<Longrightarrow> m' = m\<lparr>c_records := c_records m'\<rparr>"
  by (auto simp: CenterModel_Transition_def Let_def split: if_splits option.splits)

lemma Transition_records:
  assumes "CenterModel_Transition i v s t m = (x, fired, m')"
  shows "c_records m' = c_records m \<or> (\<exists>k < length (c_records m). record_operation_id (c_records m ! k) = i
    \<and> c_records m' = (c_records m)[k := moved_record s t (c_records m ! k)])"
  using assms find_if_Some [of "\<lambda>r. record_operation_id r = i" "c_records m"]
  by (auto simp: CenterModel_Transition_def Let_def split: if_splits option.splits)

lemma moved_record_sel [simp]:
  "record_operation_id (moved_record s t r) = record_operation_id r" "record_plan_id (moved_record s t r) = record_plan_id r"
  "operation_type (moved_record s t r) = operation_type r" "record_state (moved_record s t r) = s"
  by (simp_all add: moved_record_def)

lemma Transition_ids:
  "CenterModel_Transition i v s t m = (x, fired, m') \<Longrightarrow>
     map record_operation_id (c_records m') = map record_operation_id (c_records m)"
  by (drule Transition_records) (auto simp: map_update list_update_same_conv)

lemma same_operation:
  "distinct (map operation_id es) \<Longrightarrow> e \<in> set es \<Longrightarrow> e' \<in> set es \<Longrightarrow> operation_id e = operation_id e' \<Longrightarrow> e = e'"
  by (auto simp: distinct_map inj_on_def)

lemma Transition_linked:
  assumes "linked es (c_records m)" "distinct (map operation_id es)" "IsTerminal s \<Longrightarrow> holds es i s"
    "CenterModel_Transition i v s t m = (x, fired, m')"
  shows "linked es (c_records m')"
  using Transition_records [OF assms(4)]
proof (elim disjE exE conjE)
  fix k assume k: "k < length (c_records m)" "record_operation_id (c_records m ! k) = i"
    "c_records m' = (c_records m)[k := moved_record s t (c_records m ! k)]"
  from assms(1) k(1) obtain e where e: "e \<in> set es" "record_of (c_records m ! k) e"
    by (auto simp: linked_def dest: nth_mem)
  have "shown_as e s" if s: "IsTerminal s"
  proof -
    from assms(3) [OF s] obtain e' where "e' \<in> set es" "operation_id e' = i" "shown_as e' s" by (auto simp: holds_def)
    moreover from this e k(2) have "e' = e" by (intro same_operation [OF assms(2)]) (simp_all add: record_of_def)
    ultimately show ?thesis by simp
  qed
  with e have "\<exists>e \<in> set es. record_of (moved_record s t (c_records m ! k)) e \<and> (IsTerminal s \<longrightarrow> shown_as e s)"
    by (auto simp: record_of_def)
  with assms(1) k(3) show ?thesis
    by (auto simp: linked_def dest!: set_update_subset_insert [THEN subsetD])
qed (use assms(1) in simp)

lemma moves_keep:
  assumes "moves P m m'"
  shows "m' = m\<lparr>c_records := c_records m'\<rparr>" "map record_operation_id (c_records m') = map record_operation_id (c_records m)"
    "center_inv m \<Longrightarrow> center_inv m'"
    "linked es (c_records m) \<Longrightarrow> distinct (map operation_id es) \<Longrightarrow> (\<And>i s. P i s \<Longrightarrow> holds es i s) \<Longrightarrow> linked es (c_records m')"
  using assms
proof (induction rule: moves.induct)
  case (Move m m1 s i v t x fired m2)
  { case 1 show ?case using Move.IH(1) Transition_other [OF Move.hyps(3)] by (metis CenterModel.update_convs(7) CenterModel.surjective CenterModel.select_convs(7)) }
  { case 2 show ?case using Move.IH(2) Transition_ids [OF Move.hyps(3)] by simp }
  { case 3 show ?case using Move.IH(3) [OF 3] CenterModel_Transition_inv [OF _ Move.hyps(3)] by simp }
  { case 4 show ?case using Move.IH(4) [OF 4] Transition_linked [OF _ 4(2) _ Move.hyps(3)] 4(3) Move.hyps(2) by blast }
qed simp_all

text \<open>The reductions change nothing but the model, and only move records.\<close>

definition model_moves :: "(OperationId \<Rightarrow> OperationRecordState \<Rightarrow> bool) \<Rightarrow> Coordinator \<Rightarrow> Coordinator \<Rightarrow> bool" where
  "model_moves P k k' \<longleftrightarrow> (\<exists>m. moves P (k_Model k) m \<and> k' = k\<lparr>k_Model := m\<rparr>)"

lemma model_moves_refl [simp]: "model_moves P k k"
  unfolding model_moves_def by (rule exI [of _ "k_Model k"]) (simp add: moves.Same)

lemma moves_trans: "moves P b c \<Longrightarrow> moves P a b \<Longrightarrow> moves P a c"
  by (induction rule: moves.induct) (blast intro: moves.Move)+

lemma model_moves_trans:
  assumes "model_moves P a b" "model_moves P b c"
  shows "model_moves P a c"
proof -
  from assms obtain m n where "moves P (k_Model a) m" "b = a\<lparr>k_Model := m\<rparr>" "moves P (k_Model b) n" "c = b\<lparr>k_Model := n\<rparr>"
    by (auto simp: model_moves_def)
  then show ?thesis unfolding model_moves_def by (intro exI [of _ n]) (auto intro: moves_trans)
qed

lemma moved_model:
  assumes "CenterModel_Transition i v s t (k_Model k) = (x, fired, m)" "IsTerminal s \<Longrightarrow> P i s"
  shows "model_moves P k (k\<lparr>k_Model := m\<rparr>)"
proof -
  have "moves P (k_Model k) m" by (rule moves.Move [OF moves.Same _ assms(1)]) (rule assms(2))
  then show ?thesis by (auto simp: model_moves_def)
qed

lemma transition_moves: "(IsTerminal s \<Longrightarrow> P i s) \<Longrightarrow> model_moves P k (transition i v s t k)"
  by (cases "CenterModel_Transition i v s t (k_Model k)") (auto simp: transition_def on_model_def intro: moved_model)

lemma ReduceStarted_moves: "model_moves P k (ReduceStarted i t k)"
  by (auto simp: ReduceStarted_def IsTerminal_def intro: transition_moves split: option.splits)

lemma ReducePaused_moves: "model_moves P k (ReducePaused i paused t k)"
  by (auto simp: ReducePaused_def IsTerminal_def intro: transition_moves split: option.splits)

lemma ReduceCancelling_moves: "model_moves P k (ReduceCancelling i t k)"
  by (auto simp: ReduceCancelling_def IsTerminal_def intro: transition_moves split: option.splits)

lemma Apply_moves:
  assumes "\<And>x. OperationCenterStateFromJournal s = Some x \<Longrightarrow> P i x"
  shows "model_moves P k (ApplyDurableTerminal i s now later k)"
proof (cases "OperationCenterStateFromJournal s")
  case (Some x)
  with assms have last: "model_moves P k' (transition i v x later k')" for v k'
    by (intro transition_moves) simp
  have first: "model_moves P k (k\<lparr>k_Model := m\<rparr>)"
    if "CenterModel_Transition i v Record_Finalizing now (k_Model k) = (r, f, m)" for v r f m
    using that by (rule moved_model) (simp add: IsTerminal_def)
  show ?thesis using Some last first
    by (auto simp: ApplyDurableTerminal_def intro: model_moves_trans [OF first last] split: option.splits prod.splits sum.splits)
qed (simp add: ApplyDurableTerminal_def)

text \<open>A record that is not terminal becomes it.\<close>

lemma find_if_update: "find_if Q xs = Some n \<Longrightarrow> Q x \<Longrightarrow> find_if Q (xs[n := x]) = Some n"
  by (induction xs arbitrary: n) (auto split: if_splits)

lemma Find_after_Transition:
  assumes "CenterModel_Find i m = Some r" "IsAllowedTransition (record_state r) s"
  shows "\<exists>m'. CenterModel_Transition i (revision r) s t m = (Inr (moved_record s t r), True, m')
    \<and> CenterModel_Find i m' = Some (moved_record s t r)"
proof -
  from assms(1) obtain n where n: "find_if (\<lambda>r. record_operation_id r = i) (c_records m) = Some n" "r = c_records m ! n"
    by (auto simp: CenterModel_Find_def)
  from find_if_Some [OF n(1)] have l: "n < length (c_records m)" "record_operation_id (c_records m ! n) = i" by simp_all
  have "find_if (\<lambda>r. record_operation_id r = i) ((c_records m)[n := moved_record s t r]) = Some n"
    using find_if_update [OF n(1)] l(2) n(2) by simp
  with n l assms(2) show ?thesis by (simp add: CenterModel_Transition_def CenterModel_Find_def Let_def)
qed

lemma Apply_terminal:
  assumes "CenterModel_Find i (k_Model k) = Some r" "\<not> IsTerminal (record_state r)" "OperationCenterStateFromJournal s = Some x"
  shows "\<exists>r'. CenterModel_Find i (k_Model (ApplyDurableTerminal i s now later k)) = Some r' \<and> record_state r' = x"
proof -
  have x: "IsTerminal x"
    using assms(3) by (auto simp: OperationCenterStateFromJournal_def IsTerminal_def split: OperationJournalState.splits)
  have last: "\<exists>r'. CenterModel_Find i (k_Model (transition i (revision q) x later k')) = Some r' \<and> record_state r' = x"
    if "CenterModel_Find i (k_Model k') = Some q" "record_state q = Record_Finalizing" for q k'
    using Find_after_Transition [OF that(1), of x later] that(2) x
    by (auto simp: IsAllowedTransition_def transition_def on_model_def)
  show ?thesis
  proof (cases "record_state r = Record_Finalizing")
    case True
    with assms last [OF assms(1)] show ?thesis by (simp add: ApplyDurableTerminal_def)
  next
    case False
    with assms(2) have "IsAllowedTransition (record_state r) Record_Finalizing"
      by (cases "record_state r") (simp_all add: IsAllowedTransition_def IsTerminal_def)
    from Find_after_Transition [OF assms(1) this, of now] obtain m where
      m: "CenterModel_Transition i (revision r) Record_Finalizing now (k_Model k) =
          (Inr (moved_record Record_Finalizing now r), True, m)"
        "CenterModel_Find i m = Some (moved_record Record_Finalizing now r)" by blast
    with assms False last [of "k\<lparr>k_Model := m\<rparr>"] show ?thesis by (simp add: ApplyDurableTerminal_def)
  qed
qed

section \<open>Steps\<close>

text \<open>
  A state is the coordinator, the journal and the world, with two facts about the past that the code
  keeps in the ownership of its tokens: \<open>L\<close>, the residencies that were handed off and for which
  operation, and \<open>D\<close>, the residencies whose draft is still in somebody's hands.
\<close>

type_synonym 'w configuration = "Coordinator \<times> Impl \<times> 'w \<times> (OperationId \<times> nat) list \<times> nat set"

definition reported :: "OperationJournalEntry list \<Rightarrow> OperationId \<Rightarrow> OperationJournalState \<Rightarrow> bool" where
  "reported es i s \<longleftrightarrow> (\<exists>x. OperationCenterStateFromJournal s = Some x \<and> holds es i x)"

definition draft_of :: "LiveResidencyDraft \<Rightarrow> nat \<Rightarrow> Coordinator \<Rightarrow> bool" where
  "draft_of d a k \<longleftrightarrow> \<not> ld_Consumed d \<and> ld_Residency d = Some a \<and> ld_Coordinator d = Some (k_instance k)"

text \<open>
  Steps that do not need \<open>m_ColdHistoryGate\<close>. The orchestrator reports a terminal outcome only after the
  journal has it (\<open>Reduced\<close>, \<open>Reduced_at\<close>).
\<close>

inductive free_step :: "'w JournalEnv \<Rightarrow> 'w configuration \<Rightarrow> 'w configuration \<Rightarrow> bool" for E where
  Journal_step: "journal_step E (j, w) (j', w') \<Longrightarrow> free_step E (k, j, w, L, D) (k, j', w', L, D)"
| Draft_withdrawn: "AdmissionDraft_Release d (k_Model k) = (d', m) \<Longrightarrow> free_step E (k, j, w, L, D) (k\<lparr>k_Model := m\<rparr>, j, w, L, D)"
| Residency_released: "draft_of d a k \<Longrightarrow> a \<in> D \<Longrightarrow> LiveResidencyDraft_Release d k = (d', k') \<Longrightarrow>
    free_step E (k, j, w, L, D) (k', j, w, L, D - {a})"
| Handed_off: "draft_of d a k \<Longrightarrow> a \<in> D \<Longrightarrow> RegisterLiveResidency d i pool operation k = (Inr (), d', k') \<Longrightarrow>
    free_step E (k, j, w, L, D) (k', j, w, L @ [(i, a)], D - {a})"
| Started: "free_step E (k, j, w, L, D) (ReduceStarted i now k, j, w, L, D)"
| Paused: "free_step E (k, j, w, L, D) (ReducePaused i paused now k, j, w, L, D)"
| Reduced_at: "(i, a) \<in> set L \<Longrightarrow> reported (j_entries j) i s \<Longrightarrow>
    free_step E (k, j, w, L, D) (reduce_at_gate a i s now later k, j, w, L, D)"
| Reduced: "reported (j_entries j) i s \<Longrightarrow> free_step E (k, j, w, L, D) (ApplyDurableTerminal i s now later k, j, w, L, D)"
| Retired: "free_step E (k, j, w, L, D) (RetireLiveResidency i a k, j, w, L, D)"
| Cancel_began: "(i, a) \<in> set L \<Longrightarrow> Cancel_begin pool_operations i v a k = (r, k') \<Longrightarrow>
    free_step E (k, j, w, L, D) (k', j, w, L, D)"
| Cancel_aborted: "free_step E (k, j, w, L, D) (Cancel_abort a k, j, w, L, D)"
| Cancel_ended: "(i, a) \<in> set L \<Longrightarrow> Cancel_end i a accepted now later latest k = (r, k') \<Longrightarrow>
    free_step E (k, j, w, L, D) (k', j, w, L, D)"

text \<open>
  All steps. A receipt is proof that the journal has admitted its plan, and the draft it is published
  with was made for the same plan. The journal may be closed and opened again.
\<close>

inductive gate_step :: "'w JournalEnv \<Rightarrow> bytes \<Rightarrow> 'w configuration \<Rightarrow> 'w configuration \<Rightarrow> bool" for E path where
  Free: "free_step E c c' \<Longrightarrow> gate_step E path c c'"
| Staging: "Coordinator_StageAdmission p j k = (Inr s, j', k') \<Longrightarrow> ld_Residency (st_ResidencyDraft s) = Some a \<Longrightarrow>
    gate_step E path (k, j, w, L, D) (k', j', w, L, insert a D)"
| Staging_failed: "Coordinator_StageAdmission p j k = (Inl e, j', k') \<Longrightarrow>
    gate_step E path (k, j, w, L, D) (k', j', w, L, D)"
| Publishing: "\<exists>e \<in> set (j_entries j). operation_id e = adm_OperationId receipt \<and> entry_plan e = adm_Plan receipt \<Longrightarrow>
    draft_Record d = queued_record 1 (adm_Plan receipt) t \<Longrightarrow>
    CenterModel_Publish d receipt (k_Model k) = (r, d', fired, m) \<Longrightarrow>
    gate_step E path (k, j, w, L, D) (k\<lparr>k_Model := m\<rparr>, j, w, L, D)"
| Refreshing: "Coordinator_RefreshColdHistory j k = (r, k') \<Longrightarrow> gate_step E path (k, j, w, L, D) (k', j, w, L, D)"
| Reopening: "same_files E w v \<Longrightarrow> settled (env_view E v) \<Longrightarrow>
    OperationJournal_Open (env_json E) (env_syscalls E) inst path v = Some (Inr j', w') \<Longrightarrow>
    gate_step E path (k, j, w, L, D) (k, j', w', L, D)"

section \<open>The invariant\<close>

definition residencies_ok :: "Coordinator \<Rightarrow> (OperationId \<times> nat) list \<Rightarrow> nat set \<Rightarrow> bool" where
  "residencies_ok k L D \<longleftrightarrow> set (k_LiveResidencies k) \<subseteq> set L \<and> distinct (map fst (k_LiveResidencies k))
     \<and> distinct (map snd L) \<and> D \<inter> snd ` set L = {}
     \<and> (\<forall>a \<in> snd ` set L \<union> D. a < length (k_residency_objects k)) \<and> finite D \<and> k_StagedLiveResidencies k = card D
     \<and> length (k_LiveResidencies k) + card D \<le> k_residency_capacity k"

text \<open>An outcome that waits for the end of a cancellation is one that the journal has.\<close>

definition deferred_ok :: "OperationJournalEntry list \<Rightarrow> LiveResidency list \<Rightarrow> (OperationId \<times> nat) list \<Rightarrow> bool" where
  "deferred_ok es objects L \<longleftrightarrow> (\<forall>a < length objects. \<forall>s. deferred_terminal (objects ! a) = Some s \<longrightarrow>
     (\<exists>i. (i, a) \<in> set L \<and> reported es i s))"

definition coordinator_inv ::
  "OperationJournalEntry list \<Rightarrow> Coordinator \<Rightarrow> (OperationId \<times> nat) list \<Rightarrow> nat set \<Rightarrow> bool" where
  "coordinator_inv es k L D \<longleftrightarrow> center_inv (k_Model k) \<and> linked es (c_records (k_Model k)) \<and> residencies_ok k L D
     \<and> deferred_ok es (k_residency_objects k) L"

lemma coordinator_inv_extends:
  assumes "coordinator_inv es k L D" "extends es es'"
  shows "coordinator_inv es' k L D"
  using assms holds_extends [OF assms(2)] linked_extends [OF assms(2)]
  unfolding coordinator_inv_def deferred_ok_def reported_def by blast

lemma inv_moves:
  assumes "coordinator_inv es k L D" "distinct (map operation_id es)" "model_moves (holds es) k k'"
  shows "coordinator_inv es k' L D"
    "map record_operation_id (c_records (k_Model k')) = map record_operation_id (c_records (k_Model k))"
    "c_admission_drafts (k_Model k') = c_admission_drafts (k_Model k)"
proof -
  from assms(3) obtain m where m: "moves (holds es) (k_Model k) m" "k' = k\<lparr>k_Model := m\<rparr>" by (auto simp: model_moves_def)
  have same: "m = (k_Model k)\<lparr>c_records := c_records m\<rparr>" using moves_keep(1) [OF m(1)] .
  then have "c_admission_drafts m = c_admission_drafts (k_Model k)"
    by (metis CenterModel.select_convs(6) CenterModel.surjective CenterModel.update_convs(7))
  then show "c_admission_drafts (k_Model k') = c_admission_drafts (k_Model k)" using m(2) by simp
  show "map record_operation_id (c_records (k_Model k')) = map record_operation_id (c_records (k_Model k))"
    using moves_keep(2) [OF m(1)] m(2) by simp
  show "coordinator_inv es k' L D"
    using assms(1,2) moves_keep(3,4) [OF m(1)] m(2) by (simp add: coordinator_inv_def residencies_ok_def)
qed

text \<open>Changes to the residencies.\<close>

lemma inv_retire:
  assumes "coordinator_inv es k L D"
  shows "coordinator_inv es (RetireLiveResidency i a k) L D"
proof -
  obtain rs where "RetireLiveResidency i a k = k\<lparr>k_LiveResidencies := rs\<rparr>" "set rs \<subseteq> set (k_LiveResidencies k)"
    "length rs \<le> length (k_LiveResidencies k)" "distinct (map fst (k_LiveResidencies k)) \<longrightarrow> distinct (map fst rs)"
    using that by (simp add: RetireLiveResidency_def distinct_map_filter)
  with assms show ?thesis by (auto simp: coordinator_inv_def residencies_ok_def)
qed

lemma inv_set_residency:
  assumes "coordinator_inv es k L D" "\<And>s. deferred_terminal (f (residency_at k a)) = Some s \<Longrightarrow>
    deferred_terminal (residency_at k a) = Some s \<or> (\<exists>i. (i, a) \<in> set L \<and> reported es i s)"
  shows "coordinator_inv es (set_residency a f k) L D"
proof (cases "a < length (k_residency_objects k)")
  case True
  then have "deferred_ok es ((k_residency_objects k)[a := f (k_residency_objects k ! a)]) L"
    using assms by (fastforce simp: coordinator_inv_def deferred_ok_def residency_at_def nth_list_update)
  with assms(1) show ?thesis by (simp add: coordinator_inv_def residencies_ok_def set_residency_def)
next
  case False
  with assms(1) show ?thesis by (simp add: set_residency_def list_update_beyond)
qed

lemma set_residency_model [simp]: "k_Model (set_residency a f k) = k_Model k"
  "k_LiveResidencies (set_residency a f k) = k_LiveResidencies k" "k_residency_capacity (set_residency a f k) = k_residency_capacity k"
  "k_StagedLiveResidencies (set_residency a f k) = k_StagedLiveResidencies k" "k_instance (set_residency a f k) = k_instance k"
  "length (k_residency_objects (set_residency a f k)) = length (k_residency_objects k)"
  by (simp_all add: set_residency_def)

lemma retire_model [simp]: "k_Model (RetireLiveResidency i a k) = k_Model k"
  by (simp add: RetireLiveResidency_def)

lemma Apply_holds: "reported es i s \<Longrightarrow> model_moves (holds es) k (ApplyDurableTerminal i s now later k)"
  by (rule Apply_moves) (auto simp: reported_def)

section \<open>The invariant is kept\<close>

definition journal_reached :: "'w JournalEnv \<Rightarrow> bytes \<Rightarrow> Impl \<Rightarrow> 'w \<Rightarrow> bool" where
  "journal_reached E path j w \<longleftrightarrow> (\<exists>j0 w0. opened E path j0 w0 \<and> (journal_step E)\<^sup>*\<^sup>* (j0, w0) (j, w))"

definition configuration_ok :: "'w JournalEnv \<Rightarrow> bytes \<Rightarrow> 'w configuration \<Rightarrow> bool" where
  "configuration_ok E path = (\<lambda>(k, j, w, L, D). journal_reached E path j w \<and> coordinator_inv (j_entries j) k L D)"

lemma journal_reached_inv:
  assumes "open_env_ok E path" "journal_reached E path j w"
  shows "\<exists>fd. journal_env_ok (opened_env E fd) \<and> journal_inv (opened_env E fd) j w"
  using assms opened_run by (fastforce simp: journal_reached_def)

lemma journal_reached_ledger:
  assumes "open_env_ok E path" "journal_reached E path j w"
  shows "ledger_ok (j_entries j) (j_next_operation_sequence j)" "distinct (map operation_id (j_entries j))"
proof -
  from journal_reached_inv [OF assms] show l: "ledger_ok (j_entries j) (j_next_operation_sequence j)"
    by (auto simp: journal_inv_def)
  then show "distinct (map operation_id (j_entries j))" by (simp add: ledger_ok_def)
qed

lemma journal_reached_step:
  assumes E: "open_env_ok E path" and j: "journal_reached E path j w" and step: "journal_step E (j, w) (j', w')"
  shows "journal_reached E path j' w'" "extends (j_entries j) (j_entries j')"
proof -
  from j obtain j0 w0 where r: "opened E path j0 w0" "(journal_step E)\<^sup>*\<^sup>* (j0, w0) (j, w)"
    by (auto simp: journal_reached_def)
  then show "journal_reached E path j' w'"
    unfolding journal_reached_def using step by (blast intro: rtranclp.rtrancl_into_rtrancl)
  from opened_later [OF E r r_into_rtranclp [of "journal_step E", OF step]]
  show "extends (j_entries j) (j_entries j')" by (simp add: advanced_def)
qed

lemma ReduceStarted_inv [intro]:
  "coordinator_inv es k L D \<Longrightarrow> distinct (map operation_id es) \<Longrightarrow> coordinator_inv es (ReduceStarted i t k) L D"
  by (rule inv_moves(1) [OF _ _ ReduceStarted_moves])

lemma reduce_at_gate_inv:
  assumes k: "coordinator_inv es k L D" and es: "distinct (map operation_id es)" and a: "(i, a) \<in> set L" "reported es i s"
  shows "coordinator_inv es (reduce_at_gate a i s now later k) L D"
    "map record_operation_id (c_records (k_Model (reduce_at_gate a i s now later k))) =
      map record_operation_id (c_records (k_Model k))"
proof -
  note moves = inv_moves [OF k es Apply_holds [OF a(2)]]
  have "coordinator_inv es (set_residency a (\<lambda>r. r\<lparr>deferred_terminal := Some s\<rparr>) k) L D"
    using k by (rule inv_set_residency) (use a in auto)
  with moves show "coordinator_inv es (reduce_at_gate a i s now later k) L D"
    "map record_operation_id (c_records (k_Model (reduce_at_gate a i s now later k))) =
      map record_operation_id (c_records (k_Model k))"
    by (simp_all add: reduce_at_gate_def inv_retire)
qed

lemma Cancel_begin_inv:
  assumes "coordinator_inv es k L D" "Cancel_begin pool_operations i v a k = (r, k')"
  shows "coordinator_inv es k' L D" "k_Model k' = k_Model k"
  using assms inv_set_residency [OF assms(1), of "\<lambda>r. r\<lparr>cancel_in_flight := True\<rparr>" a]
  by (auto simp: Cancel_begin_def split: option.splits if_splits)

lemma owner_unique:
  assumes "coordinator_inv es k L D" "(i, a) \<in> set L" "(i', a) \<in> set L"
  shows "i' = i"
proof -
  have "inj_on snd (set L)" using assms(1) by (simp add: coordinator_inv_def residencies_ok_def distinct_map)
  from inj_onD [OF this _ assms(3,2)] show ?thesis by simp
qed

lemma Cancel_end_inv:
  assumes k: "coordinator_inv es k L D" and es: "distinct (map operation_id es)" and a: "(i, a) \<in> set L"
    and r: "Cancel_end i a accepted now later latest k = (r, k')"
  shows "coordinator_inv es k' L D" "map record_operation_id (c_records (k_Model k')) = map record_operation_id (c_records (k_Model k))"
proof -
  let ?k1 = "if accepted then ReduceCancelling i now k else k"
  let ?k2 = "set_residency a (\<lambda>r. r\<lparr>cancel_in_flight := False, deferred_terminal := None\<rparr>) ?k1"
  have "model_moves (holds es) k ?k1" by (simp add: ReduceCancelling_moves)
  note k1 = inv_moves [OF k es this]
  have k2: "coordinator_inv es ?k2 L D" using k1(1) by (rule inv_set_residency) simp
  show "coordinator_inv es k' L D" "map record_operation_id (c_records (k_Model k')) = map record_operation_id (c_records (k_Model k))"
  proof (atomize (full), cases "deferred_terminal (residency_at ?k1 a)")
    case None
    with r have "k' = ?k2" by (auto simp: Cancel_end_def Let_def)
    with k1(2) k2 show "coordinator_inv es k' L D \<and> map record_operation_id (c_records (k_Model k')) = map record_operation_id (c_records (k_Model k))"
      by simp
  next
    case (Some s)
    have "a < length (k_residency_objects ?k1)"
      using k1(1) a by (force simp: coordinator_inv_def residencies_ok_def)
    with k1(1) Some obtain i' where "(i', a) \<in> set L" "reported es i' s"
      by (auto simp: coordinator_inv_def deferred_ok_def residency_at_def)
    with owner_unique [OF k a] have "reported es i s" by blast
    note k3 = inv_moves [OF k2 es Apply_holds [OF this, of ?k2 later latest]]
    from r Some have "k' = RetireLiveResidency i (Some a) (ApplyDurableTerminal i s later latest ?k2)"
      by (auto simp: Cancel_end_def Let_def)
    with k3 k1(2) show "coordinator_inv es k' L D \<and> map record_operation_id (c_records (k_Model k')) = map record_operation_id (c_records (k_Model k))"
      by (simp add: inv_retire)
  qed
qed

lemma Residency_released_inv:
  assumes k: "coordinator_inv es k L D" and d: "draft_of d a k" "a \<in> D" and r: "LiveResidencyDraft_Release d k = (d', k')"
  shows "coordinator_inv es k' L (D - {a})" "k_Model k' = k_Model k"
proof -
  have D: "finite D" "k_StagedLiveResidencies k = card D" using k by (simp_all add: coordinator_inv_def residencies_ok_def)
  with d(2) have "0 < card D" by (auto simp: card_gt_0_iff)
  with d(1) D r have k': "k' = k\<lparr>k_StagedLiveResidencies := card D - 1\<rparr>"
    by (auto simp: LiveResidencyDraft_Release_def draft_of_def ReleaseLiveResidencyDraft_def)
  with k d(2) show "coordinator_inv es k' L (D - {a})" "k_Model k' = k_Model k"
    by (auto simp: coordinator_inv_def residencies_ok_def)
qed

lemma Handed_off_inv:
  assumes k: "coordinator_inv es k L D" and d: "draft_of d a k" "a \<in> D"
    and r: "RegisterLiveResidency d i pool operation k = (Inr u, d', k')"
  shows "coordinator_inv es k' (L @ [(i, a)]) (D - {a})" "k_Model k' = k_Model k"
proof -
  have D: "finite D" "k_StagedLiveResidencies k = card D" using k by (simp_all add: coordinator_inv_def residencies_ok_def)
  with d(2) have "0 < card D" by (auto simp: card_gt_0_iff)
  let ?f = "\<lambda>r. r\<lparr>res_pool := pool, res_operation := operation\<rparr>"
  have k1: "coordinator_inv es (set_residency a ?f k) L D"
    using k by (rule inv_set_residency) simp
  have "a \<notin> snd ` set L" using k d(2) by (auto simp: coordinator_inv_def residencies_ok_def)
  moreover from d(1) D r \<open>0 < card D\<close> have "k' = (set_residency a ?f k)\<lparr>k_LiveResidencies := k_LiveResidencies k @ [(i, a)],
      k_StagedLiveResidencies := card D - 1\<rparr>" "i \<notin> fst ` set (k_LiveResidencies k)"
    by (auto simp: list_ex_iff RegisterLiveResidency_def draft_of_def ReleaseLiveResidencyDraft_def Let_def set_residency_def split: if_splits)
  moreover have "deferred_ok es (k_residency_objects (set_residency a ?f k)) (L @ [(i, a)])"
    using k1 by (auto simp: coordinator_inv_def deferred_ok_def)
  ultimately show "coordinator_inv es k' (L @ [(i, a)]) (D - {a})" "k_Model k' = k_Model k"
    using k1 k d(2) \<open>0 < card D\<close> by (auto simp: coordinator_inv_def residencies_ok_def)
qed

lemma model_inv:
  "coordinator_inv es k L D \<Longrightarrow> center_inv m \<Longrightarrow> linked es (c_records m) \<Longrightarrow> coordinator_inv es (k\<lparr>k_Model := m\<rparr>) L D"
  by (simp add: coordinator_inv_def residencies_ok_def)

lemma free_step_inv:
  assumes E: "open_env_ok E path" and "free_step E (k, j, w, L, D) (k', j', w', L', D')"
    and ok: "configuration_ok E path (k, j, w, L, D)"
  shows "configuration_ok E path (k', j', w', L', D') \<and> extends (j_entries j) (j_entries j')
    \<and> map record_operation_id (c_records (k_Model k')) = map record_operation_id (c_records (k_Model k))"
proof -
  from ok have j: "journal_reached E path j w" and k: "coordinator_inv (j_entries j) k L D"
    by (simp_all add: configuration_ok_def)
  note es = journal_reached_ledger(2) [OF E j]
  have unchanged: ?thesis if "j' = j" "w' = w" "coordinator_inv (j_entries j) k' L' D'"
      "map record_operation_id (c_records (k_Model k')) = map record_operation_id (c_records (k_Model k))"
    using that j by (simp add: configuration_ok_def)
  from assms(2) show ?thesis
  proof (cases rule: free_step.cases)
    case Journal_step
    with journal_reached_step [OF E j] coordinator_inv_extends [OF k] show ?thesis by (auto simp: configuration_ok_def)
  next
    case (Draft_withdrawn d d' m)
    have "center_inv m \<and> c_records m = c_records (k_Model k)"
      using AdmissionDraft_Release_inv [OF _ Draft_withdrawn(6)] k by (simp add: coordinator_inv_def)
    with Draft_withdrawn k show ?thesis by (intro unchanged) (auto simp: coordinator_inv_def residencies_ok_def)
  next
    case (Residency_released d a d')
    with Residency_released_inv [OF k Residency_released(5-7)] show ?thesis by (intro unchanged) simp_all
  next
    case (Handed_off d a i pool operation d')
    with Handed_off_inv [OF k Handed_off(5-7)] show ?thesis by (intro unchanged) simp_all
  next
    case (Started i now)
    with inv_moves [OF k es ReduceStarted_moves] show ?thesis by (intro unchanged) simp_all
  next
    case (Paused i paused now)
    with inv_moves [OF k es ReducePaused_moves] show ?thesis by (intro unchanged) simp_all
  next
    case (Reduced_at i a s now later)
    with reduce_at_gate_inv [OF k es] show ?thesis by (intro unchanged) simp_all
  next
    case (Reduced i s now later)
    with inv_moves [OF k es Apply_holds] show ?thesis by (intro unchanged) simp_all
  next
    case (Retired i a)
    with inv_retire [OF k] show ?thesis by (intro unchanged) simp_all
  next
    case (Cancel_began i a pool_operations v r)
    with Cancel_begin_inv [OF k Cancel_began(6)] show ?thesis by (intro unchanged) simp_all
  next
    case (Cancel_aborted a)
    have "coordinator_inv (j_entries j) (Cancel_abort a k) L D"
      unfolding Cancel_abort_def using k by (rule inv_set_residency) simp
    with Cancel_aborted show ?thesis by (intro unchanged) (simp_all add: Cancel_abort_def)
  next
    case (Cancel_ended i a accepted now later latest r)
    with Cancel_end_inv [OF k es Cancel_ended(5,6)] show ?thesis by (intro unchanged) simp_all
  qed
qed

end
