(* ===== verification/CoordinatorSteps.thy ===== *)
theory CoordinatorSteps
  imports CoordinatorRuns
begin

text \<open>
  Properties of the coordinator: what it shows after a start, that a committed admission is always
  published, that what the records show is what the journal has, and that an outcome that meets a
  cancellation is not lost.
\<close>

section \<open>History\<close>

definition history_of :: "OperationJournalEntry \<Rightarrow> OperationRecord" where
  "history_of e = history_record e (the (OperationCenterStateFromJournal (entry_state e)))"

lemma history_records_Inr:
  "history_records ids acc es = Inr rs \<Longrightarrow>
     rs = acc @ map history_of es \<and> list_all (\<lambda>e. OperationCenterStateFromJournal (entry_state e) \<noteq> None) es
     \<and> distinct (map operation_id es)
     \<and> (\<forall>e \<in> set es. ToString (operation_id e) \<notin> ids)"
proof (induction es arbitrary: ids acc)
  case (Cons e es)
  from Cons.prems obtain s where s: "OperationCenterStateFromJournal (entry_state e) = Some s" "ToString (operation_id e) \<notin> ids"
    "history_records (insert (ToString (operation_id e)) ids) (acc @ [history_record e s]) es = Inr rs"
    by (auto split: option.splits if_splits)
  from Cons.IH [OF s(3)] s(1,2) show ?case by (auto simp: history_of_def)
qed simp

lemma first_distinct: "distinct (map f (x # xs)) \<Longrightarrow> y \<in> set xs \<Longrightarrow> f y \<noteq> f x"
  by (metis distinct.simps(2) imageI list.set_map list.simps(9))

lemma history_records_total:
  "list_all (\<lambda>e. OperationCenterStateFromJournal (entry_state e) \<noteq> None) es \<Longrightarrow> distinct (map operation_id es) \<Longrightarrow>
     \<forall>e \<in> set es. ToString (operation_id e) \<notin> ids \<Longrightarrow> history_records ids acc es = Inr (acc @ map history_of es)"
proof (induction es arbitrary: ids acc)
  case (Cons e es)
  then have "\<forall>x \<in> set es. ToString (operation_id x) \<notin> insert (ToString (operation_id e)) ids"
    using first_distinct [OF Cons.prems(2)] by (simp add: ToString_inj)
  with Cons show ?case by (auto simp: history_of_def)
qed simp

lemma from_journal_terminal: "OperationCenterStateFromJournal s = Some x \<Longrightarrow> IsTerminal x"
  by (auto simp: OperationCenterStateFromJournal_def IsTerminal_def split: OperationJournalState.splits)

lemma history_of_sel [simp]:
  "record_operation_id (history_of e) = operation_id e" "record_plan_id (history_of e) = plan_Id (entry_plan e)"
  "operation_type (history_of e) = plan_Type (entry_plan e)" "started_at (history_of e) = None"
  "revision (history_of e) = 1" "finished_at (history_of e) = Some (updated_at e)"
  "record_state (history_of e) = the (OperationCenterStateFromJournal (entry_state e))"
  by (simp_all add: history_of_def history_record_def)

lemma history_hydratable: "OperationCenterStateFromJournal (entry_state e) \<noteq> None \<Longrightarrow> hydratable (history_of e)"
  by (auto simp: hydratable_def from_journal_terminal)

lemma with_controls_sel [simp]:
  "record_operation_id (with_controls r) = record_operation_id r" "record_plan_id (with_controls r) = record_plan_id r"
  "operation_type (with_controls r) = operation_type r" "record_state (with_controls r) = record_state r"
  by (simp_all add: with_controls_def)

lemma history_linked:
  "e \<in> set es \<Longrightarrow> OperationCenterStateFromJournal (entry_state e) \<noteq> None \<Longrightarrow>
     \<exists>e \<in> set es. record_of (with_controls (history_of e')) e
       \<and> (IsTerminal (record_state (with_controls (history_of e'))) \<longrightarrow> shown_as e (record_state (with_controls (history_of e'))))"
  if "e' = e"
  using that by (auto simp: record_of_def shown_as_def)

lemma hydrate_loop_total:
  "list_all hydratable rs \<Longrightarrow> distinct (map record_operation_id rs) \<Longrightarrow> \<forall>r \<in> set rs. record_operation_id r \<notin> seen \<Longrightarrow>
     hydrate_loop seen n acc rs = Inr (fold max (map record_operation_id rs) n, acc @ map with_controls rs)"
proof (induction rs arbitrary: seen n acc)
  case (Cons r rs)
  then have "\<forall>x \<in> set rs. record_operation_id x \<notin> insert (record_operation_id r) seen"
    using first_distinct [OF Cons.prems(2)] by simp
  with Cons show ?case by (auto simp: max.commute)
qed simp

text \<open>After a refresh every record that was read is there, new or as it was.\<close>

definition same_record :: "OperationRecord \<Rightarrow> OperationRecord \<Rightarrow> bool" where
  "same_record x r \<longleftrightarrow> record_operation_id x = record_operation_id r \<and> record_plan_id x = record_plan_id r
     \<and> operation_type x = operation_type r \<and> record_state x = record_state r"

lemma refresh_loop_from:
  "refresh_loop current seen n acc rs = Inr (m, new) \<Longrightarrow> set new \<subseteq> set acc \<union> with_controls ` set rs
     \<and> set acc \<subseteq> set new \<and> (\<forall>r \<in> set rs. \<exists>x \<in> set current \<union> set new. same_record x r)"
proof (induction rs arbitrary: seen n acc)
  case (Cons r rs)
  show ?case
  proof (cases "find_if (\<lambda>x. record_operation_id x = record_operation_id r) current")
    case None
    with Cons.prems have "refresh_loop current (insert (record_operation_id r) seen) (max n (record_operation_id r))
        (acc @ [with_controls r]) rs = Inr (m, new)" by (auto simp: Let_def split: if_splits)
    from Cons.IH [OF this] show ?thesis by (auto simp: same_record_def intro!: bexI [of _ "with_controls r"])
  next
    case (Some k)
    with Cons.prems have "refresh_loop current (insert (record_operation_id r) seen) (max n (record_operation_id r)) acc rs
        = Inr (m, new)" "same_record (current ! k) r"
      using find_if_Some [OF Some] by (auto simp: same_record_def Let_def split: if_splits)
    from Cons.IH [OF this(1)] find_if_Some [OF Some] this(2) show ?thesis by (auto intro: bexI [of _ "current ! k"])
  qed
qed auto

lemma fold_max_less: "(\<And>x. x \<in> set xs \<Longrightarrow> x < b) \<Longrightarrow> n < b \<Longrightarrow> fold max xs (n :: u64) < b"
  by (induction xs arbitrary: n) auto

section \<open>Starting\<close>

lemma no_unfinished:
  assumes "ledger_ok es n" "\<not> list_ex unfinished es"
  shows "list_all (\<lambda>e. OperationCenterStateFromJournal (entry_state e) \<noteq> None) es"
proof -
  have "OperationCenterStateFromJournal (entry_state e) \<noteq> None" if "e \<in> set es" for e
  proof -
    have "OperationJournalValidEntryLifecycle e" "\<not> unfinished e"
      using assms that by (auto simp: ledger_ok_def list_all_iff list_ex_iff entry_ok_def)
    then show ?thesis
      by (cases "entry_state e") (auto simp: OperationCenterStateFromJournal_def unfinished_def
          OperationJournalValidEntryLifecycle_def split: if_splits)
  qed
  then show ?thesis by (simp add: list_all_iff)
qed

lemma Create_spec:
  assumes l: "ledger_ok (j_entries j) n" and u: "\<not> list_ex unfinished (j_entries j)"
  shows "\<exists>m. Coordinator_Create inst j = Inr ((Coordinator_init inst)\<lparr>k_Model := m,
        k_JournalStorageIdentity := StorageIdentityForCustody j\<rparr>)
    \<and> Hydrate (map history_of (j_entries j)) (length (j_entries j)) (OperationCenterModel_init inst) = (Inr (), True, m)
    \<and> c_records m = map (\<lambda>e. with_controls (history_of e)) (j_entries j)"
proof -
  note known = no_unfinished [OF assms]
  have d: "distinct (map operation_id (j_entries j))" "\<And>e. e \<in> set (j_entries j) \<Longrightarrow> operation_id e < n" "n \<noteq> 0"
    using l by (auto simp: ledger_ok_def list_all_iff)
  let ?rs = "map history_of (j_entries j)"
  have "history_records {} [] (Snapshot j) = Inr ?rs"
    using history_records_total [OF known d(1), of "{}" "[]"] by (simp add: Snapshot_def)
  moreover have "list_all hydratable ?rs" using known by (auto simp: list_all_iff intro: history_hydratable)
  then have loop: "hydrate_loop {} 0 [] ?rs = Inr (fold max (map record_operation_id ?rs) 0, map with_controls ?rs)"
    using hydrate_loop_total [of ?rs "{}" 0 "[]"] d(1) by (simp add: comp_def)
  have "fold max (map record_operation_id ?rs) 0 < n"
    by (rule fold_max_less) (use d in \<open>auto simp: word_neq_0_conv\<close>)
  then have "fold max (map record_operation_id ?rs) 0 \<noteq> - 1" by (metis not_less word_order.extremum)
  ultimately show ?thesis
    using loop by (auto simp: Coordinator_Create_def Hydrate_def OperationCenterModel_init_def Snapshot_def
        Coordinator_init_def Let_def)
qed

lemma created_inv:
  assumes "Coordinator_Create inst j = Inr k"
  shows "coordinator_inv (j_entries j) k [] {}"
proof -
  from assms obtain rs m f where rs: "history_records {} [] (Snapshot j) = Inr rs"
      "Hydrate rs (length (Snapshot j)) (OperationCenterModel_init inst) = (Inr (), f, m)"
    and k: "k = (Coordinator_init inst)\<lparr>k_Model := m, k_JournalStorageIdentity := StorageIdentityForCustody j\<rparr>"
    by (auto simp: Coordinator_Create_def Coordinator_init_def Let_def split: sum.splits prod.splits)
  note h = history_records_Inr [OF rs(1)]
  have "center_inv m" using Hydrate_inv [OF center_init _ rs(2)] h by simp
  moreover from rs(2) obtain x where "hydrate_loop {} 0 [] rs = Inr (x, c_records m)"
    by (auto simp: Hydrate_def split: if_splits sum.splits)
  moreover have "list_all hydratable rs" using h by (auto simp: list_all_iff intro: history_hydratable)
  ultimately have "center_inv m" "c_records m = map (\<lambda>e. with_controls (history_of e)) (j_entries j)"
    using hydrate_loop_total [of rs "{}" 0 "[]"] h by (simp_all add: comp_def Snapshot_def)
  moreover have "linked (j_entries j) (c_records m)"
    using h history_linked calculation(2) by (auto simp: linked_def list_all_iff Snapshot_def)
  ultimately show ?thesis using k by (simp add: coordinator_inv_def residencies_ok_def deferred_ok_def Coordinator_init_def)
qed

lemma gate_run_start:
  assumes "opened E path j0 w0" "Coordinator_Create inst j0 = Inr k0"
  shows "configuration_ok E path (k0, j0, w0, [], {})"
  using assms created_inv by (auto simp: configuration_ok_def journal_reached_def)

section \<open>All steps\<close>

lemma linked_append: "linked es (rs @ rs') \<longleftrightarrow> linked es rs \<and> linked es rs'"
  by (auto simp: linked_def)

lemma StageAdmission_drafts:
  "StageAdmission p t m = (Inr d, m') \<Longrightarrow> draft_Record d = queued_record 1 p t"
  by (auto simp: StageAdmission_def vector_reserve_def Let_def split: if_splits)

lemma journal_inv_objects:
  "coordinator_inv es k L D \<Longrightarrow> coordinator_inv es (k\<lparr>k_residency_objects := k_residency_objects k @ [fresh_residency]\<rparr>) L D"
  by (auto simp: coordinator_inv_def residencies_ok_def deferred_ok_def nth_append fresh_residency_def less_Suc_eq)

lemma Reserve_step: "ReserveOperationId j = (r, j') \<Longrightarrow> journal_step E (j, w) (j', w)"
  using Served [of Reserve_Id E j w "failure r" j' w] by (simp add: request_ok_def serve_def)

lemma Staging_inv:
  assumes k: "coordinator_inv es k L D" and s: "Coordinator_StageAdmission p j k = (Inr x, j', k')"
    and a: "ld_Residency (st_ResidencyDraft x) = Some a"
  shows "coordinator_inv es k' L (insert a D)" "journal_step E (j, w) (j', w)"
proof -
  from s obtain d m r where m: "StageAdmission p (plan_CreatedAt p) (k_Model k) = (Inr d, m)"
    and r: "ReserveOperationId j = (Inr r, j')"
    and k': "k' = k\<lparr>k_Model := m, k_residency_capacity := max (k_residency_capacity k)
          (length (k_LiveResidencies k) + k_StagedLiveResidencies k + 1),
        k_residency_objects := k_residency_objects k @ [fresh_residency],
        k_StagedLiveResidencies := k_StagedLiveResidencies k + 1\<rparr>"
      "x = \<lparr>st_JournalReservation = r, st_ModelDraft = d, st_ResidencyDraft = \<lparr>ld_Residency = Some (length (k_residency_objects k)),
        ld_Coordinator = Some (k_instance k), ld_Consumed = False\<rparr>, st_Plan = p\<rparr>"
    by (auto simp: Coordinator_StageAdmission_def Let_def split: prod.splits sum.splits)
  show "journal_step E (j, w) (j', w)" using r by (rule Reserve_step)
  have a: "a = length (k_residency_objects k)" using a k'(2) by simp
  have "center_inv m" "c_records m = c_records (k_Model k)"
    using StageAdmission_inv [OF _ m] k by (simp_all add: coordinator_inv_def)
  with model_inv [OF k] k have k1: "coordinator_inv es (k\<lparr>k_Model := m\<rparr>) L D" by (simp add: coordinator_inv_def)
  note k2 = journal_inv_objects [OF k1]
  have "a \<notin> D" "a \<notin> snd ` set L" using k a by (auto simp: coordinator_inv_def residencies_ok_def)
  then show "coordinator_inv es k' L (insert a D)"
    using k2 k k'(1) a by (auto simp: coordinator_inv_def residencies_ok_def)
qed

lemma Staging_failed_inv:
  assumes k: "coordinator_inv es k L D" and s: "Coordinator_StageAdmission p j k = (Inl e, j', k')"
  shows "coordinator_inv es k' L D" "journal_step E (j, w) (j', w)"
proof -
  obtain r m where m: "StageAdmission p (plan_CreatedAt p) (k_Model k) = (r, m)"
    by (cases "StageAdmission p (plan_CreatedAt p) (k_Model k)")
  have inv: "center_inv m" "c_records m = c_records (k_Model k)"
    using StageAdmission_inv [OF _ m] k by (simp_all add: coordinator_inv_def)
  with model_inv [OF k] k have k1: "coordinator_inv es (k\<lparr>k_Model := m\<rparr>) L D" by (simp add: coordinator_inv_def)
  show "coordinator_inv es k' L D" "journal_step E (j, w) (j', w)"
  proof (atomize (full), cases r)
    case (Inl x)
    with m s k1 show "coordinator_inv es k' L D \<and> journal_step E (j, w) (j', w)"
      by (auto simp: Coordinator_StageAdmission_def intro: Elsewhere)
  next
    case (Inr d)
    let ?m = "snd (AdmissionDraft_Release d m)"
    have "center_inv ?m \<and> c_records ?m = c_records m"
      using AdmissionDraft_Release_inv [OF inv(1), of d "fst (AdmissionDraft_Release d m)" ?m] by simp
    with model_inv [OF k] inv(2) k have "coordinator_inv es (k\<lparr>k_Model := ?m\<rparr>) L D" by (simp add: coordinator_inv_def)
    note k2 = journal_inv_objects [OF this]
    from m s Inr obtain x where "ReserveOperationId j = (Inl x, j')"
      "k' = k\<lparr>k_Model := ?m, k_residency_objects := k_residency_objects k @ [fresh_residency],
         k_residency_capacity := max (k_residency_capacity k) (length (k_LiveResidencies k) + k_StagedLiveResidencies k + 1)\<rparr>"
      by (auto simp: Coordinator_StageAdmission_def Let_def on_model_def LiveResidencyDraft_Release_def
          ReleaseLiveResidencyDraft_def split: prod.splits sum.splits)
    with k2 Reserve_step show "coordinator_inv es k' L D \<and> journal_step E (j, w) (j', w)"
      by (auto simp: coordinator_inv_def residencies_ok_def)
  qed
qed

lemma Publishing_inv:
  assumes k: "coordinator_inv es k L D"
    and e: "\<exists>e \<in> set es. operation_id e = adm_OperationId receipt \<and> entry_plan e = adm_Plan receipt"
    and d: "draft_Record d = queued_record 1 (adm_Plan receipt) t"
    and p: "CenterModel_Publish d receipt (k_Model k) = (r, d', fired, m)"
  shows "coordinator_inv es (k\<lparr>k_Model := m\<rparr>) L D"
proof -
  have "draft_object d" using d by (simp add: draft_object_def queued_record_def)
  from CenterModel_Publish_inv [OF _ this p] k have "center_inv m" by (simp add: coordinator_inv_def)
  moreover have "linked es (c_records m)"
  proof -
    from p have "c_records m = c_records (k_Model k) \<or> c_records m = c_records (k_Model k) @
        [(draft_Record d)\<lparr>record_operation_id := adm_OperationId receipt\<rparr>]"
      by (auto simp: CenterModel_Publish_def vector_emplace_back_def Let_def split: if_splits)
    moreover have "linked es [(draft_Record d)\<lparr>record_operation_id := adm_OperationId receipt\<rparr>]"
      using e d by (auto simp: linked_def record_of_def queued_record_def IsTerminal_def)
    ultimately show ?thesis using k by (auto simp: coordinator_inv_def linked_append)
  qed
  ultimately show ?thesis by (rule model_inv [OF k])
qed

lemma Refreshing_inv:
  assumes k: "coordinator_inv (j_entries j) k L D" and r: "Coordinator_RefreshColdHistory j k = (r, k')"
  shows "coordinator_inv (j_entries j) k' L D"
proof (cases "k' = k")
  case False
  with r obtain rs x f m where rs: "history_records {} [] (Snapshot j) = Inr rs"
      "RefreshColdHistory rs (k_Model k) = (x, f, m)" and k': "k' = k\<lparr>k_Model := m\<rparr>"
    by (auto simp: Coordinator_RefreshColdHistory_def split: if_splits sum.splits prod.splits)
  note h = history_records_Inr [OF rs(1)]
  have m: "center_inv m" using RefreshColdHistory_inv [OF _ rs(2)] k by (simp add: coordinator_inv_def)
  have "c_records m = c_records (k_Model k) \<or> (\<exists>n new. refresh_loop (c_records (k_Model k)) {} 0 [] rs = Inr (n, new)
      \<and> c_records m = c_records (k_Model k) @ new)"
    using rs(2) by (auto simp: RefreshColdHistory_def split: if_splits sum.splits)
  moreover have "set new \<subseteq> with_controls ` set rs" if "refresh_loop (c_records (k_Model k)) {} 0 [] rs = Inr (n, new)" for n new
    using refresh_loop_from [OF that] by simp
  ultimately have new: "set (c_records m) \<subseteq> set (c_records (k_Model k)) \<union> with_controls ` set rs" by auto
  have "linked (j_entries j) (c_records m)"
    unfolding linked_def
  proof
    fix q assume "q \<in> set (c_records m)"
    with new consider "q \<in> set (c_records (k_Model k))" | e where "e \<in> set (j_entries j)" "q = with_controls (history_of e)"
      using h by (auto simp: Snapshot_def)
    then show "\<exists>e \<in> set (j_entries j). record_of q e \<and> (IsTerminal (record_state q) \<longrightarrow> shown_as e (record_state q))"
    proof cases
      case 1
      with k show ?thesis by (simp add: coordinator_inv_def linked_def)
    next
      case 2
      with h history_linked [OF refl 2(1)] show ?thesis by (simp add: list_all_iff Snapshot_def)
    qed
  qed
  with m k' show ?thesis using model_inv [OF k] by simp
qed (use k in simp)

lemma gate_step_ok:
  assumes E: "open_env_ok E path" and "gate_step E path c c'" and "configuration_ok E path c"
  shows "configuration_ok E path c'"
  using assms(2,3)
proof (cases rule: gate_step.cases)
  case Free
  obtain k j w L D k' j' w' L' D' where "c = (k, j, w, L, D)" "c' = (k', j', w', L', D')" by (cases c, cases c')
  with free_step_inv [OF E, of k j w L D k' j' w' L' D'] Free assms(3) show ?thesis by simp
next
  case (Staging p j k s j' k' a w L D)
  with assms(3) have j: "journal_reached E path j w" and k: "coordinator_inv (j_entries j) k L D" by (simp_all add: configuration_ok_def)
  note s = Staging_inv [OF k Staging(3,4)]
  from journal_reached_step [OF E j s(2)] s(1) Staging show ?thesis
    by (auto simp: configuration_ok_def intro: coordinator_inv_extends)
next
  case (Staging_failed p j k e j' k' w L D)
  with assms(3) have j: "journal_reached E path j w" and k: "coordinator_inv (j_entries j) k L D" by (simp_all add: configuration_ok_def)
  note s = Staging_failed_inv [OF k Staging_failed(3)]
  from journal_reached_step [OF E j s(2)] s(1) Staging_failed show ?thesis
    by (auto simp: configuration_ok_def intro: coordinator_inv_extends)
next
  case (Publishing j receipt d t k r d' fired m w L D)
  with assms(3) Publishing_inv [OF _ Publishing(3-5)] show ?thesis by (simp add: configuration_ok_def)
next
  case (Refreshing j k r k' w L D)
  with assms(3) Refreshing_inv [OF _ Refreshing(3)] show ?thesis by (simp add: configuration_ok_def)
next
  case (Reopening w v inst j' w' k j L D)
  with assms(3) have j: "journal_reached E path j w" and k: "coordinator_inv (j_entries j) k L D" by (simp_all add: configuration_ok_def)
  from Reopening(4,5) have "opened E path j' w'" by (auto simp: opened_def)
  then have "journal_reached E path j' w'" by (auto simp: journal_reached_def)
  moreover from j obtain j0 w0 where r: "opened E path j0 w0" "(journal_step E)\<^sup>*\<^sup>* (j0, w0) (j, w)"
    by (auto simp: journal_reached_def)
  have "extends (j_entries j) (j_entries j')"
    using reopened_ledger [OF E r _ Reopening(5)] Reopening(3) by (simp add: same_files_def)
  ultimately show ?thesis using coordinator_inv_extends [OF k] Reopening by (simp add: configuration_ok_def)
qed

text \<open>What a run of an opened journal and the coordinator made for it can reach.\<close>

lemma gate_run:
  assumes "open_env_ok E path" "opened E path j0 w0" "Coordinator_Create inst j0 = Inr k0"
    "(gate_step E path)\<^sup>*\<^sup>* (k0, j0, w0, [], {}) (k, j, w, L, D)"
  shows "journal_reached E path j w" "coordinator_inv (j_entries j) k L D"
proof -
  have "configuration_ok E path c" if "(gate_step E path)\<^sup>*\<^sup>* (k0, j0, w0, [], {}) c" for c
    using that
  proof (induction rule: rtranclp_induct)
    case base
    show ?case using gate_run_start [OF assms(2,3)] .
  next
    case (step b c)
    from gate_step_ok [OF assms(1) step.hyps(2) step.IH] show ?case .
  qed
  from this [OF assms(4)] show "journal_reached E path j w" "coordinator_inv (j_entries j) k L D"
    by (simp_all add: configuration_ok_def)
qed

lemma free_run:
  assumes E: "open_env_ok E path" and "(free_step E)\<^sup>*\<^sup>* c c'" and "configuration_ok E path c"
  shows "configuration_ok E path c' \<and> extends (j_entries (fst (snd c))) (j_entries (fst (snd c')))
    \<and> map record_operation_id (c_records (k_Model (fst c'))) = map record_operation_id (c_records (k_Model (fst c)))"
  using assms(2)
proof (induction rule: rtranclp_induct)
  case base
  then show ?case using assms(3) by simp
next
  case (step a b)
  obtain k j w L D k' j' w' L' D' where ab: "a = (k, j, w, L, D)" "b = (k', j', w', L', D')" by (cases a, cases b)
  with free_step_inv [OF E, of k j w L D k' j' w' L' D'] step.hyps(2) step.IH show ?case
    by (auto intro: extends_trans)
qed

end
