(* ===== verification/CoordinatorSample.thy ===== *)
theory CoordinatorSample
  imports CoordinatorSteps
begin

text \<open>
  A run of the coordinator over the journal of \<open>JournalSample\<close>: one operation is staged, admitted,
  published, handed over, started and finished, and a cancellation begins just before its outcome is
  reported.
\<close>

definition sample_record :: OperationRecord where
  "sample_record = queued_record 1 sample_plan (plan_CreatedAt sample_plan)"

text \<open>The coordinator with its drafts, records, residencies and the number of staged ones.\<close>

definition sample_coordinator ::
  "u64 set \<Rightarrow> OperationRecord list \<Rightarrow> LiveResidency list \<Rightarrow> (OperationId \<times> nat) list \<Rightarrow> nat \<Rightarrow> Coordinator" where
  "sample_coordinator drafts records objects live staged = (Coordinator_init 0)\<lparr>k_Model := sample_center drafts records,
     k_residency_objects := objects, k_LiveResidencies := live, k_residency_capacity := 1, k_StagedLiveResidencies := staged,
     k_JournalStorageIdentity := StorageIdentityForCustody (sample_state [] 1 1)\<rparr>"

definition sample_residency :: "bool \<Rightarrow> LiveResidency" where
  "sample_residency in_flight =
     \<lparr>res_pool = Some 0, res_operation = Some 5, cancel_in_flight = in_flight, deferred_terminal = None\<rparr>"

definition sample_live_draft :: LiveResidencyDraft where
  "sample_live_draft = \<lparr>ld_Residency = Some 0, ld_Coordinator = Some 0, ld_Consumed = False\<rparr>"

definition sample_reservation :: AdmissionReservation where
  "sample_reservation = \<lparr>res_OperationId = 1, res_Nonce = 1, res_Impl = Some 0, res_Consumed = False\<rparr>"

definition sample_model_draft :: AdmissionDraft where
  "sample_model_draft = \<lparr>draft_Record = sample_record, draft_Nonce = 1, draft_Impl = Some 0, draft_Consumed = False\<rparr>"

definition sample_staging :: AdmissionStaging where
  "sample_staging = \<lparr>st_JournalReservation = sample_reservation, st_ModelDraft = sample_model_draft,
     st_ResidencyDraft = sample_live_draft, st_Plan = sample_plan\<rparr>"

definition sample_reserved :: Impl where
  "sample_reserved = (sample_state [] 2 2)\<lparr>j_reservations := [1 \<mapsto> 1]\<rparr>"

definition sample_fresh :: Coordinator where
  "sample_fresh = (Coordinator_init 0)\<lparr>k_JournalStorageIdentity := StorageIdentityForCustody (sample_state [] 1 1)\<rparr>"

lemmas sample_coordinator_defs = sample_coordinator_def sample_center_def OperationCenterModel_init_def
  Coordinator_init_def sample_live_draft_def sample_model_draft_def sample_record_def

lemma sample_Create: "Coordinator_Create 0 (sample_state [] 1 1) = Inr sample_fresh"
  by (simp add: Coordinator_Create_def Snapshot_def sample_state_def Hydrate_def Coordinator_init_def
      OperationCenterModel_init_def sample_fresh_def StorageIdentityForCustody_def Let_def)

lemma sample_Staged:
  "Coordinator_StageAdmission sample_plan (sample_state [] 1 1) sample_fresh =
     (Inr sample_staging, sample_reserved, sample_coordinator {1} [] [fresh_residency] [] 1)"
  by (simp add: Coordinator_StageAdmission_def StageAdmission_def vector_reserve_def Let_def sample_fresh_def
      ReserveOperationId_def sample_state_def sample_staging_def sample_reservation_def sample_reserved_def
      sample_coordinator_defs)

lemma sample_Admitted:
  "AdmitLocked sample_json mem_syscalls sample_reservation sample_plan sample_reserved (mem_disk sample_created) =
     Some (Inr sample_admission, sample_reservation\<lparr>res_Consumed := True, res_Impl := None\<rparr>,
       sample_state [sample_started State_Admitted] 2 2, mem_disk (sample_saved ''admitted'' []))"
proof -
  have "admitted_entry 1 sample_plan 9 = sample_started State_Admitted"
    by (simp add: admitted_entry_def sample_started_def)
  then show ?thesis
    using sample_publish(1) [of State_Admitted "''admitted''"]
    by (simp add: sample_reserved_def sample_reservation_def sample_state_def AdmitLocked_def Let_def has_operation_def
        has_plan_def MaxEntries_def OperationJournalStateToken_def sample_admission_def)
qed

lemma sample_Published:
  "\<exists>d. CenterModel_Publish sample_model_draft sample_admission (sample_center {1} []) =
     (Inr (), d, True, sample_center {} [sample_record])"
  by (simp add: CenterModel_Publish_def vector_emplace_back_def Let_def sample_admission_def sample_coordinator_defs
      queued_record_def)

lemma sample_Handed_off:
  "\<exists>d. RegisterLiveResidency sample_live_draft 1 (Some 0) (Some 5)
      (sample_coordinator {} [sample_record] [fresh_residency] [] 1) =
     (Inr (), d, sample_coordinator {} [sample_record] [sample_residency False] [(1, 0)] 0)"
  by (simp add: RegisterLiveResidency_def set_residency_def ReleaseLiveResidencyDraft_def Let_def sample_residency_def
      fresh_residency_def sample_coordinator_defs)

text \<open>The pool that has the operation, and the one that has let it go.\<close>

definition sample_pool :: "nat \<Rightarrow> nat list" where
  "sample_pool p = (if p = 0 then [5] else [])"

lemma sample_Cancel_find:
  "Cancel_find 1 1 (sample_coordinator {} [sample_record] [sample_residency False] [(1, 0)] 0) = Inr 0"
  by (simp add: Cancel_find_def CenterModel_Find_def cancel_validation_def FindLiveResidency_def ControlsFor_def
      sample_coordinator_defs queued_record_def)

lemma sample_Cancel_begin:
  "Cancel_begin sample_pool 1 1 0 (sample_coordinator {} [sample_record] [sample_residency False] [(1, 0)] 0) =
     (Inr (), sample_coordinator {} [sample_record] [sample_residency True] [(1, 0)] 0)"
  by (simp add: Cancel_begin_def CenterModel_Find_def cancel_validation_def ControlsFor_def residency_at_def
      is_resident_def set_residency_def sample_pool_def sample_residency_def sample_coordinator_defs queued_record_def)

text \<open>While the cancellation is in flight.\<close>

lemma sample_in_flight:
  "FindLiveResidency 1 (sample_coordinator {} [sample_record] [sample_residency True] [(1, 0)] 0) = Some 0"
  "cancel_in_flight (residency_at (sample_coordinator {} [sample_record] [sample_residency True] [(1, 0)] 0) 0)"
  "CenterModel_Find 1 (k_Model (sample_coordinator {} [sample_record] [sample_residency True] [(1, 0)] 0)) = Some sample_record"
  "\<not> IsTerminal (record_state sample_record)"
  "OperationCenterStateFromJournal State_Completed = Some Record_Completed"
  "\<not> is_resident (\<lambda>_. []) (residency_at (sample_coordinator {} [sample_record] [sample_residency True] [(1, 0)] 0) 0)"
  by (simp_all add: FindLiveResidency_def residency_at_def CenterModel_Find_def OperationCenterStateFromJournal_def
      IsTerminal_def is_resident_def sample_residency_def sample_coordinator_defs queued_record_def)

section \<open>The run\<close>

definition sample_staged_configuration :: "disk configuration" where
  "sample_staged_configuration = (sample_coordinator {1} [] [fresh_residency] [] 1, sample_reserved, mem_disk sample_created, [], {0})"

definition sample_published_configuration :: "disk configuration" where
  "sample_published_configuration = (sample_coordinator {} [sample_record] [fresh_residency] [] 1,
     sample_state [sample_started State_Admitted] 2 2, mem_disk (sample_saved ''admitted'' []), [], {0})"

definition sample_cancelling_configuration :: "disk configuration" where
  "sample_cancelling_configuration = (sample_coordinator {} [sample_record] [sample_residency True] [(1, 0)] 0,
     sample_state [sample_finished] 2 2, mem_disk (sample_saved ''completed'' [sample_item_value]), [(1, 0)], {})"

lemma sample_staged:
  "gate_step mem_env ''/'' (sample_fresh, sample_state [] 1 1, mem_disk sample_created, [], {}) sample_staged_configuration"
  unfolding sample_staged_configuration_def
  by (rule Staging [OF sample_Staged]) (simp add: sample_staging_def sample_live_draft_def)

lemma sample_published: "(gate_step mem_env ''/'')\<^sup>*\<^sup>* sample_staged_configuration sample_published_configuration"
proof -
  let ?k = "sample_coordinator {1} [] [fresh_residency] [] 1"
  let ?j = "sample_state [sample_started State_Admitted] 2 2" and ?w = "mem_disk (sample_saved ''admitted'' [])"
  have "journal_step mem_env (sample_reserved, mem_disk sample_created) (?j, ?w)"
    using sample_Admitted sample_plan_object
    by (intro Served [of "Admit_Reserved sample_reservation sample_plan" _ _ _ None]) (simp_all add: request_ok_def serve_def)
  then have admitted: "gate_step mem_env ''/'' sample_staged_configuration (?k, ?j, ?w, [], {0})"
    unfolding sample_staged_configuration_def by (intro Free Journal_step)
  obtain d where p: "CenterModel_Publish sample_model_draft sample_admission (k_Model ?k) =
      (Inr (), d, True, sample_center {} [sample_record])"
    using sample_Published by (auto simp: sample_coordinator_def)
  have "gate_step mem_env ''/'' (?k, ?j, ?w, [], {0}) (?k\<lparr>k_Model := sample_center {} [sample_record]\<rparr>, ?j, ?w, [], {0})"
    by (rule Publishing [OF _ _ p]) (simp_all add: sample_state_def sample_started_def sample_admission_def
        sample_model_draft_def sample_record_def)
  moreover have "?k\<lparr>k_Model := sample_center {} [sample_record]\<rparr> = sample_coordinator {} [sample_record] [fresh_residency] [] 1"
    by (simp add: sample_coordinator_def)
  ultimately show ?thesis using admitted
    by (simp add: sample_published_configuration_def converse_rtranclp_into_rtranclp)
qed

lemma sample_cancelling: "(gate_step mem_env ''/'')\<^sup>*\<^sup>* sample_published_configuration sample_cancelling_configuration"
proof -
  let ?k = "sample_coordinator {} [sample_record] [sample_residency False] [(1, 0)] 0"
  obtain d where h: "RegisterLiveResidency sample_live_draft 1 (Some 0) (Some 5)
      (sample_coordinator {} [sample_record] [fresh_residency] [] 1) = (Inr (), d, ?k)" using sample_Handed_off by blast
  have "draft_of sample_live_draft 0 (sample_coordinator {} [sample_record] [fresh_residency] [] 1)"
    by (simp add: draft_of_def sample_coordinator_defs)
  from Free [OF Handed_off [OF this _ h, where D = "{0}" and L = "[]"], of mem_env "''/''"]
  have handed: "gate_step mem_env ''/'' sample_published_configuration (?k, sample_state [sample_started State_Admitted] 2 2,
      mem_disk (sample_saved ''admitted'' []), [(1, 0)], {})"
    by (simp add: sample_published_configuration_def)
  have ran: "gate_step mem_env ''/'' (?k, sample_state [sample_started State_Admitted] 2 2,
      mem_disk (sample_saved ''admitted'' []), [(1, 0)], {}) (?k, sample_state [sample_started State_Running] 2 2,
      mem_disk (sample_saved ''running'' []), [(1, 0)], {})"
    using sample_steps(2) by (intro Free Journal_step)
  have finished: "gate_step mem_env ''/'' (?k, sample_state [sample_started State_Running] 2 2,
      mem_disk (sample_saved ''running'' []), [(1, 0)], {}) (?k, sample_state [sample_finished] 2 2,
      mem_disk (sample_saved ''completed'' [sample_item_value]), [(1, 0)], {})"
    using sample_steps(3) by (intro Free Journal_step)
  have "gate_step mem_env ''/'' (?k, sample_state [sample_finished] 2 2,
      mem_disk (sample_saved ''completed'' [sample_item_value]), [(1, 0)], {}) sample_cancelling_configuration"
    unfolding sample_cancelling_configuration_def by (rule Free, rule Cancel_began [OF _ sample_Cancel_begin]) simp
  with handed ran finished show ?thesis by (meson rtranclp.rtrancl_into_rtrancl rtranclp.rtrancl_refl)
qed

lemma sample_reached:
  "(gate_step mem_env ''/'')\<^sup>*\<^sup>* (sample_fresh, sample_state [] 1 1, mem_disk sample_created, [], {}) sample_staged_configuration"
  "(gate_step mem_env ''/'')\<^sup>*\<^sup>* (sample_fresh, sample_state [] 1 1, mem_disk sample_created, [], {}) sample_published_configuration"
  "(gate_step mem_env ''/'')\<^sup>*\<^sup>* (sample_fresh, sample_state [] 1 1, mem_disk sample_created, [], {}) sample_cancelling_configuration"
proof -
  show a: "(gate_step mem_env ''/'')\<^sup>*\<^sup>* (sample_fresh, sample_state [] 1 1, mem_disk sample_created, [], {}) sample_staged_configuration"
    using sample_staged by (rule r_into_rtranclp)
  show b: "(gate_step mem_env ''/'')\<^sup>*\<^sup>* (sample_fresh, sample_state [] 1 1, mem_disk sample_created, [], {}) sample_published_configuration"
    using a sample_published by (rule rtranclp_trans)
  show "(gate_step mem_env ''/'')\<^sup>*\<^sup>* (sample_fresh, sample_state [] 1 1, mem_disk sample_created, [], {}) sample_cancelling_configuration"
    using b sample_cancelling by (rule rtranclp_trans)
qed

end
