(* ===== verification/CoordinatorTheorems.thy ===== *)
theory CoordinatorTheorems
  imports CoordinatorSample
begin

text \<open>
  Properties of the coordinator: what it shows after a start, that a committed admission is always
  published, that what the records show is what the journal has, and that an outcome that meets a
  cancellation is not lost.
\<close>

section \<open>What is shown\<close>

text \<open>
  C19: a coordinator can be made for every journal that was opened, whatever was in its file, and shows
  exactly its entries: in their order, with identity, plan, type and times, each in the terminal state
  that the journal has, at revision 1.
\<close>

theorem Create_shows_ledger:
  assumes "open_env_ok E path"
    and "OperationJournal_Open (env_json E) (env_syscalls E) inst path w = Some (Inr j, w')"
  shows "\<exists>k. Coordinator_Create inst' j = Inr k \<and> k_JournalStorageIdentity k = StorageIdentityForCustody j
    \<and> map (\<lambda>r. (record_operation_id r, record_plan_id r, operation_type r, created_at r, finished_at r, Some (record_state r),
          revision r)) (c_records (k_Model k)) =
      map (\<lambda>e. (operation_id e, plan_Id (entry_plan e), plan_Type (entry_plan e), plan_CreatedAt (entry_plan e),
          Some (updated_at e), OperationCenterStateFromJournal (entry_state e), 1)) (j_entries j)"
proof -
  from Open_spec [OF assms(1), of inst w] assms(2) obtain d t where "opened_as E w d t j w'" by auto
  then have es: "j_entries j = map (interrupt t) (decoded_entries d)" and l: "ledger_ok (j_entries j) (j_next_operation_sequence j)"
    using ledger_interrupt [OF loaded_ledger, of "env_json E" "disk_journal (env_view E w)" d t] by (simp_all add: opened_as_def)
  have u: "\<not> list_ex unfinished (j_entries j)" by (auto simp: es list_ex_iff)
  from Create_spec [OF l u, of inst'] obtain m where
    m: "Coordinator_Create inst' j = Inr ((Coordinator_init inst')\<lparr>k_Model := m,
          k_JournalStorageIdentity := StorageIdentityForCustody j\<rparr>)"
      "c_records m = map (\<lambda>e. with_controls (history_of e)) (j_entries j)" by blast
  from no_unfinished [OF l u] show ?thesis
    by (auto simp: m list_all_iff with_controls_def history_of_def history_record_def)
qed

text \<open>
  C9: the Operation Center never shows an outcome that the journal does not have. In every state that
  any number of threads can reach, each record belongs to an entry with its identity, plan and type, and
  a record in a terminal state shows the state of that entry; only an operation shown as interrupted may
  have been settled since.
\<close>

theorem records_agree:
  assumes "open_env_ok E path" and "opened E path j0 w0" and "Coordinator_Create inst j0 = Inr k0"
    and "(gate_step E path)\<^sup>*\<^sup>* (k0, j0, w0, [], {}) (k, j, w, L, D)" and "r \<in> set (c_records (k_Model k))"
  shows "\<exists>e \<in> set (j_entries j). operation_id e = record_operation_id r \<and> plan_Id (entry_plan e) = record_plan_id r
    \<and> plan_Type (entry_plan e) = operation_type r
    \<and> (IsTerminal (record_state r) \<longrightarrow> OperationCenterStateFromJournal (entry_state e) = Some (record_state r)
         \<or> record_state r = Record_Interrupted \<and> terminal (entry_state e))"
proof -
  note run = gate_run [OF assms(1-4)]
  from run(2) assms(5) obtain e where e: "e \<in> set (j_entries j)" "record_of r e"
    "IsTerminal (record_state r) \<longrightarrow> shown_as e (record_state r)" by (auto simp: coordinator_inv_def linked_def)
  have "OperationJournalValidEntryLifecycle e"
    using journal_reached_ledger(1) [OF assms(1) run(1)] e(1) by (auto simp: ledger_ok_def list_all_iff entry_ok_def)
  then have "terminal (entry_state e)" if "rank (entry_state e) = 3"
    using that by (cases "entry_state e")
      (auto simp: rank_def terminal_def OperationJournalValidEntryLifecycle_def split: if_splits)
  with e show ?thesis by (intro bexI [of _ e]) (auto simp: record_of_def shown_as_def)
qed

text \<open>
  After a refresh of the history that succeeded, records and entries are the same operations in the
  same states, the records that were there are untouched, and nothing was running or staged.
\<close>

theorem refresh_completes:
  assumes "open_env_ok E path" and "opened E path j0 w0" and "Coordinator_Create inst j0 = Inr k0"
    and "(gate_step E path)\<^sup>*\<^sup>* (k0, j0, w0, [], {}) (k, j, w, L, D)"
    and "Coordinator_RefreshColdHistory j k = (Inr (), k')"
  shows "(\<forall>e \<in> set (j_entries j). \<exists>r \<in> set (c_records (k_Model k')). record_of r e
      \<and> OperationCenterStateFromJournal (entry_state e) = Some (record_state r))
    \<and> (\<forall>r \<in> set (c_records (k_Model k')). \<exists>e \<in> set (j_entries j). record_of r e
      \<and> OperationCenterStateFromJournal (entry_state e) = Some (record_state r))
    \<and> (\<exists>new. c_records (k_Model k') = c_records (k_Model k) @ new) \<and> k_LiveResidencies k = [] \<and> D = {}"
proof -
  note inv = gate_run(2) [OF assms(1-4)]
  from assms(5) obtain rs f m where rs: "history_records {} [] (Snapshot j) = Inr rs"
      "RefreshColdHistory rs (k_Model k) = (Inr (), f, m)" and k': "k' = k\<lparr>k_Model := m\<rparr>"
      and idle: "k_StagedLiveResidencies k = 0" "k_LiveResidencies k = []"
    by (auto simp: Coordinator_RefreshColdHistory_def split: if_splits sum.splits prod.splits)
  note h = history_records_Inr [OF rs(1)]
  from rs(2) obtain n new where new: "refresh_loop (c_records (k_Model k)) {} 0 [] rs = Inr (n, new)"
      "c_records m = c_records (k_Model k) @ new"
    by (auto simp: RefreshColdHistory_def split: if_splits sum.splits)
  have there: "\<exists>r \<in> set (c_records m). record_of r e \<and> OperationCenterStateFromJournal (entry_state e) = Some (record_state r)"
    if e: "e \<in> set (j_entries j)" for e
  proof -
    have "history_of e \<in> set rs" using h e by (simp add: Snapshot_def)
    with refresh_loop_from [OF new(1)] new(2) obtain x where "x \<in> set (c_records m)" "same_record x (history_of e)" by fastforce
    with h e show ?thesis
      by (intro bexI [of _ x]) (auto simp: same_record_def record_of_def list_all_iff Snapshot_def)
  qed
  have inv': "coordinator_inv (j_entries j) k' L D" using Refreshing_inv [OF inv assms(5)] .
  have "\<exists>e \<in> set (j_entries j). record_of r e \<and> OperationCenterStateFromJournal (entry_state e) = Some (record_state r)"
    if r: "r \<in> set (c_records m)" for r
  proof -
    from inv' r k' obtain e where e: "e \<in> set (j_entries j)" "record_of r e"
      by (auto simp: coordinator_inv_def linked_def)
    from there [OF e(1)] obtain x where x: "x \<in> set (c_records m)" "record_of x e"
      "OperationCenterStateFromJournal (entry_state e) = Some (record_state x)" by blast
    have "inj_on record_operation_id (set (c_records m))"
      using inv' k' by (simp add: coordinator_inv_def center_inv_def distinct_map)
    from inj_onD [OF this _ x(1) r] x(2) e(2) have "x = r" by (simp add: record_of_def)
    with x e show ?thesis by blast
  qed
  moreover have "D = {}" using inv idle by (auto simp: coordinator_inv_def residencies_ok_def)
  ultimately show ?thesis using there new(2) idle k' by simp
qed

section \<open>Admission\<close>

lemma linked_ids: "linked es rs \<Longrightarrow> record_operation_id ` set rs \<subseteq> operation_id ` set es"
proof (rule image_subsetI)
  fix r assume "linked es rs" "r \<in> set rs"
  then obtain e where "e \<in> set es" "record_operation_id r = operation_id e" by (auto simp: linked_def record_of_def)
  then show "record_operation_id r \<in> operation_id ` set es" by (rule rev_image_eqI)
qed

lemma ex_operation: "list_ex (\<lambda>r. record_operation_id r = i) rs \<longleftrightarrow> i \<in> record_operation_id ` set rs"
  by (induction rs) auto

lemma publish_has_room:
  assumes "center_inv m" "draft_Nonce d \<in> c_admission_drafts m" "draft_Impl d = Some (c_instance m)" "\<not> draft_Consumed d"
    "\<not> list_ex (\<lambda>r. record_operation_id r = adm_OperationId receipt) (c_records m)"
    "record_plan_id (draft_Record d) = i" "plan_Id (adm_Plan receipt) = i"
  shows "\<exists>d' m'. CenterModel_Publish d receipt m = (Inr (), d', True, m')
    \<and> c_records m' = c_records m @ [(draft_Record d)\<lparr>record_operation_id := adm_OperationId receipt\<rparr>]
    \<and> c_capacity m' = c_capacity m"
proof -
  have "0 < card (c_admission_drafts m)" using assms(1,2) by (auto simp: center_inv_def card_gt_0_iff)
  with assms(1) have "length (c_records m) \<noteq> c_capacity m" by (simp add: center_inv_def)
  with assms show ?thesis by (auto simp: CenterModel_Publish_def vector_emplace_back_def Let_def)
qed

lemma commit_outcome:
  assumes "open_env_ok E path" and run: "journal_reached E path j w" "coordinator_inv (j_entries j) k L D"
    and "plan_object (st_Plan s)" and "draft_Record (st_ModelDraft s) = queued_record 1 (st_Plan s) t"
    and "\<not> draft_Consumed (st_ModelDraft s)"
    and others: "\<And>j1 w1. \<exists>k' j' w' L' D'. others (k, j1, w1) = (k', j', w')
      \<and> (free_step E)\<^sup>*\<^sup>* (k, j1, w1, L, D) (k', j', w', L', D')
      \<and> draft_Impl (st_ModelDraft s) = Some (c_instance (k_Model k')) \<and> draft_Nonce (st_ModelDraft s) \<in> c_admission_drafts (k_Model k')"
  shows "\<exists>result s' k' j' w'. CommitAdmission (env_json E) (env_syscalls E) others s (k, j, w) = Some (result, s', k', j', w')
    \<and> (case result of
         Inl e \<Rightarrow> coordinator_code e = KE_JournalAdmissionFailed \<and> k' = k \<and> j_entries j' = j_entries j
           \<and> (\<exists>r. s' = s\<lparr>st_JournalReservation := r\<rparr>)
       | Inr c \<Rightarrow> (\<exists>before. map record_operation_id before = map record_operation_id (c_records (k_Model k))
             \<and> c_records (k_Model k') = before @ [queued_record (committed_operation_id c) (st_Plan s) t])
           \<and> (\<exists>e \<in> set (j_entries j'). operation_id e = committed_operation_id c \<and> entry_plan e = st_Plan s))"
proof -
  from journal_reached_inv [OF assms(1) run(1)] obtain fd where E: "journal_env_ok (opened_env E fd)"
    and j: "journal_inv (opened_env E fd) j w" by blast
  from AdmitLocked_spec [OF E j assms(4), of "st_JournalReservation s", simplified] obtain x r' j1 w1 where
    x: "AdmitLocked (env_json E) (env_syscalls E) (st_JournalReservation s) (st_Plan s) j w = Some (x, r', j1, w1)"
      "advanced (opened_env E fd) j j1 w1" and post: "case x of
        Inl _ \<Rightarrow> j_entries j1 = j_entries j \<and> r' = st_JournalReservation s
      | Inr a \<Rightarrow> (\<exists>t. j_entries j1 = j_entries j @ [admitted_entry (res_OperationId (st_JournalReservation s)) (st_Plan s) t])
          \<and> a = \<lparr>adm_JournalInstance = Some (j_instance j), adm_OperationId = res_OperationId (st_JournalReservation s),
                 adm_Plan = st_Plan s, adm_Consumed = False\<rparr>" by blast
  show ?thesis
  proof (cases x)
    case (Inl e)
    with x post show ?thesis
      by (simp add: CommitAdmission_def CoordinatorError_def) (intro exI [of _ "st_JournalReservation s"], simp)
  next
    case (Inr a)
    with post obtain t' where es: "j_entries j1 = j_entries j @ [admitted_entry (adm_OperationId a) (st_Plan s) t']"
      and a: "adm_Plan a = st_Plan s" by auto
    have "serve (env_json E) (env_syscalls E) (Admit_Reserved (st_JournalReservation s) (st_Plan s)) j w = Some (failure x, j1, w1)"
      using x(1) by (simp add: serve_def)
    then have step: "journal_step E (j, w) (j1, w1)"
      using assms(4) by (intro Served) (simp_all add: request_ok_def)
    note reached = journal_reached_step [OF assms(1) run(1) step]
    obtain k2 j2 w2 L2 D2 where o: "others (k, j1, w1) = (k2, j2, w2)" "(free_step E)\<^sup>*\<^sup>* (k, j1, w1, L, D) (k2, j2, w2, L2, D2)"
      "draft_Impl (st_ModelDraft s) = Some (c_instance (k_Model k2))" "draft_Nonce (st_ModelDraft s) \<in> c_admission_drafts (k_Model k2)"
      using others by blast
    have ok: "configuration_ok E path (k, j1, w1, L, D)"
      using reached coordinator_inv_extends [OF run(2)] by (simp add: configuration_ok_def)
    note later = free_run [OF assms(1) o(2) ok, simplified]
    have "distinct (map operation_id (j_entries j1))" using journal_reached_ledger(2) [OF assms(1) reached(1)] .
    then have "adm_OperationId a \<notin> operation_id ` set (j_entries j)" by (auto simp: es admitted_entry_def)
    moreover have "linked (j_entries j) (c_records (k_Model k))" using run(2) by (simp add: coordinator_inv_def)
    ultimately have "adm_OperationId a \<notin> record_operation_id ` set (c_records (k_Model k))" using linked_ids by blast
    then have fresh: "\<not> list_ex (\<lambda>r. record_operation_id r = adm_OperationId a) (c_records (k_Model k2))"
      using later unfolding ex_operation by (metis list.set_map)
    have "center_inv (k_Model k2)" using later by (simp add: configuration_ok_def coordinator_inv_def)
    from publish_has_room [OF this o(4,3) assms(6) fresh, of "plan_Id (st_Plan s)"] obtain d' m where
      p: "CenterModel_Publish (st_ModelDraft s) a (k_Model k2) = (Inr (), d', True, m)"
      "c_records m = c_records (k_Model k2) @ [queued_record (adm_OperationId a) (st_Plan s) t]"
      using a assms(5) by (auto simp: queued_record_def)
    have ext: "extends (j_entries j1) (j_entries j2)" using later by simp
    from extends_member [OF ext, of "admitted_entry (adm_OperationId a) (st_Plan s) t'"]
    have "\<exists>e \<in> set (j_entries j2). operation_id e = adm_OperationId a \<and> entry_plan e = st_Plan s"
      by (auto simp: es entry_le_def admitted_entry_def)
    with x Inr o(1) p later show ?thesis by (simp add: CommitAdmission_def Let_def)
  qed
qed

text \<open>
  An admission that the journal has committed is always published. Staged with
  \<open>StageAdmission\<close> and not withdrawn, it either fails in the journal, which leaves the coordinator and
  the ledger as they were, or ends as a queued record with the identity that the ledger now has for its
  plan, whatever other threads did between the two commits. The paths that finalise an admission because
  it could not be published are never taken.
\<close>

theorem admission_published:
  assumes "open_env_ok E path" and "opened E path j0 w0" and "Coordinator_Create inst j0 = Inr k0"
    and "(gate_step E path)\<^sup>*\<^sup>* (k0, j0, w0, [], {}) (k, j, w, L, D)"
    and "plan_object (st_Plan s)" and "draft_Record (st_ModelDraft s) = queued_record 1 (st_Plan s) t"
    and "\<not> draft_Consumed (st_ModelDraft s)"
    and others: "\<And>j1 w1. \<exists>k' j' w' L' D'. others (k, j1, w1) = (k', j', w')
      \<and> (free_step E)\<^sup>*\<^sup>* (k, j1, w1, L, D) (k', j', w', L', D')
      \<and> draft_Impl (st_ModelDraft s) = Some (c_instance (k_Model k')) \<and> draft_Nonce (st_ModelDraft s) \<in> c_admission_drafts (k_Model k')"
  shows "\<exists>result s' k' j' w'. CommitAdmission (env_json E) (env_syscalls E) others s (k, j, w) = Some (result, s', k', j', w')
    \<and> (case result of
         Inl e \<Rightarrow> coordinator_code e = KE_JournalAdmissionFailed \<and> k' = k \<and> j_entries j' = j_entries j
           \<and> (\<exists>r. s' = s\<lparr>st_JournalReservation := r\<rparr>)
       | Inr c \<Rightarrow> (\<exists>before. map record_operation_id before = map record_operation_id (c_records (k_Model k))
             \<and> c_records (k_Model k') = before @ [queued_record (committed_operation_id c) (st_Plan s) t])
           \<and> (\<exists>e \<in> set (j_entries j'). operation_id e = committed_operation_id c \<and> entry_plan e = st_Plan s))"
  using assms gate_run [OF assms(1-4)] by (intro commit_outcome)

text \<open>The destructor of a token that was not consumed gives back the draft, the residency and the reservation.\<close>

lemma StageAdmission_fresh:
  assumes "Coordinator_StageAdmission p j k = (Inr x, j', k')"
  shows "draft_Record (st_ModelDraft x) = queued_record 1 p (plan_CreatedAt p)" "st_Plan x = p"
    "\<not> draft_Consumed (st_ModelDraft x)" "draft_Impl (st_ModelDraft x) = Some (c_instance (k_Model k'))"
    "c_records (k_Model k') = c_records (k_Model k)" "k_LiveResidencies k' = k_LiveResidencies k" "j_entries j' = j_entries j"
    "c_admission_drafts (k_Model k') = insert (draft_Nonce (st_ModelDraft x)) (c_admission_drafts (k_Model k))"
    "draft_Nonce (st_ModelDraft x) \<notin> c_admission_drafts (k_Model k)"
    "st_ResidencyDraft x = \<lparr>ld_Residency = Some (length (k_residency_objects k)), ld_Coordinator = Some (k_instance k'), ld_Consumed = False\<rparr>"
    "k_StagedLiveResidencies k' = k_StagedLiveResidencies k + 1"
  using assms
  by (auto simp: Coordinator_StageAdmission_def StageAdmission_def vector_reserve_def ReserveOperationId_def Let_def
      split: prod.splits sum.splits if_splits)

text \<open>What a failed admission leaves as it was.\<close>

definition same_shown :: "Coordinator \<Rightarrow> Coordinator \<Rightarrow> bool" where
  "same_shown k k' \<longleftrightarrow> c_records (k_Model k') = c_records (k_Model k)
     \<and> c_admission_drafts (k_Model k') = c_admission_drafts (k_Model k)
     \<and> k_LiveResidencies k' = k_LiveResidencies k \<and> k_StagedLiveResidencies k' = k_StagedLiveResidencies k"

lemma staging_failed_same:
  "Coordinator_StageAdmission p j k = (Inl e, j', k') \<Longrightarrow> same_shown k k' \<and> j_entries j' = j_entries j"
  by (auto simp: Coordinator_StageAdmission_def StageAdmission_def vector_reserve_def ReserveOperationId_def Let_def
      on_model_def LiveResidencyDraft_Release_def ReleaseLiveResidencyDraft_def AdmissionDraft_Release_def same_shown_def
      split: prod.splits sum.splits if_splits)

lemma destroy_unconsumed:
  assumes "Coordinator_StageAdmission p j k = (Inr x, j1, k1)" "AdmissionStaging_destroy (x\<lparr>st_JournalReservation := r\<rparr>) j2 k1 = (j', k')"
  shows "same_shown k k' \<and> j_entries j' = j_entries j2"
proof -
  note f = StageAdmission_fresh [OF assms(1)]
  have "j_entries (snd (Release r j2)) = j_entries j2" by (simp add: Release_def Let_def)
  with f assms(2) show ?thesis
    by (auto simp: AdmissionStaging_destroy_def AdmissionDraft_Release_def on_model_def LiveResidencyDraft_Release_def
        ReleaseLiveResidencyDraft_def same_shown_def)
qed

lemma destroy_keeps:
  assumes "AdmissionStaging_destroy s j k = (j', k')"
  shows "j_entries j' = j_entries j" "c_records (k_Model k') = c_records (k_Model k)"
  using assms
  by (auto simp: AdmissionStaging_destroy_def Release_def AdmissionDraft_Release_def on_model_def
      LiveResidencyDraft_Release_def ReleaseLiveResidencyDraft_def Let_def)

lemma submission_staged:
  assumes "open_env_ok E path" and run: "journal_reached E path j w" "coordinator_inv (j_entries j) k L D"
    and stage: "Coordinator_StageAdmission p j k = (Inr s, j1, k1)" and "plan_object p"
    and others: "\<And>k j w L D. \<exists>k' j' w' L' D'. others (k, j, w) = (k', j', w') \<and> (free_step E)\<^sup>*\<^sup>* (k, j, w, L, D) (k', j', w', L', D')
      \<and> c_instance (k_Model k') = c_instance (k_Model k) \<and> c_admission_drafts (k_Model k) \<subseteq> c_admission_drafts (k_Model k')"
  shows "\<exists>result k' j' w'. submission_admit (env_json E) (env_syscalls E) others p (k, j, w) = Some (result, k', j', w')
    \<and> (case result of
         Inl _ \<Rightarrow> same_shown k k' \<and> j_entries j' = j_entries j
       | Inr c \<Rightarrow> (\<exists>before. map record_operation_id before = map record_operation_id (c_records (k_Model k))
             \<and> c_records (k_Model k') = before @ [queued_record (committed_operation_id c) p (plan_CreatedAt p)])
           \<and> (\<exists>e \<in> set (j_entries j'). operation_id e = committed_operation_id c \<and> entry_plan e = p))"
proof -
  note f = StageAdmission_fresh [OF stage]
  obtain a where a: "ld_Residency (st_ResidencyDraft s) = Some a" using f(10) by simp
  note inv = Staging_inv [OF run(2) stage a]
  note j1 = journal_reached_step [OF assms(1) run(1) inv(2)]
  have k1: "coordinator_inv (j_entries j1) k1 L (insert a D)" using inv(1) j1(2) by (rule coordinator_inv_extends)
  have alive: "\<exists>k' j' w' L' D'. others (k1, j2, w2) = (k', j', w')
    \<and> (free_step E)\<^sup>*\<^sup>* (k1, j2, w2, L, insert a D) (k', j', w', L', D')
    \<and> draft_Impl (st_ModelDraft s) = Some (c_instance (k_Model k')) \<and> draft_Nonce (st_ModelDraft s) \<in> c_admission_drafts (k_Model k')"
    for j2 w2
  proof -
    from others [of k1 j2 w2 L "insert a D"] obtain k' j' w' L' D' where o: "others (k1, j2, w2) = (k', j', w')"
      "(free_step E)\<^sup>*\<^sup>* (k1, j2, w2, L, insert a D) (k', j', w', L', D')" "c_instance (k_Model k') = c_instance (k_Model k1)"
      "c_admission_drafts (k_Model k1) \<subseteq> c_admission_drafts (k_Model k')" by blast
    have "draft_Nonce (st_ModelDraft s) \<in> c_admission_drafts (k_Model k')" using o(4) f(8) by auto
    with o f(4) show ?thesis
      by (intro exI [of _ k'] exI [of _ j'] exI [of _ w'] exI [of _ L'] exI [of _ D']) simp
  qed
  have plan: "plan_object (st_Plan s)" "draft_Record (st_ModelDraft s) = queued_record 1 (st_Plan s) (plan_CreatedAt p)"
    using f(1,2) assms(5) by simp_all
  from commit_outcome [OF assms(1) j1(1) k1 plan f(3) alive] obtain result s' k2 j2 w2 where
    c: "CommitAdmission (env_json E) (env_syscalls E) others s (k1, j1, w) = Some (result, s', k2, j2, w2)" and
    post: "case result of
       Inl e \<Rightarrow> coordinator_code e = KE_JournalAdmissionFailed \<and> k2 = k1 \<and> j_entries j2 = j_entries j1
         \<and> (\<exists>r. s' = s\<lparr>st_JournalReservation := r\<rparr>)
     | Inr c \<Rightarrow> (\<exists>before. map record_operation_id before = map record_operation_id (c_records (k_Model k1))
           \<and> c_records (k_Model k2) = before @ [queued_record (committed_operation_id c) (st_Plan s) (plan_CreatedAt p)])
         \<and> (\<exists>e \<in> set (j_entries j2). operation_id e = committed_operation_id c \<and> entry_plan e = st_Plan s)" by blast
  obtain j3 k3 where d: "AdmissionStaging_destroy s' j2 k2 = (j3, k3)" by (cases "AdmissionStaging_destroy s' j2 k2")
  have kept: "j_entries j3 = j_entries j2" "c_records (k_Model k3) = c_records (k_Model k2)"
    using destroy_keeps [OF d] by simp_all
  show ?thesis
  proof (cases result)
    case (Inl e)
    with post obtain v where same: "k2 = k1" "j_entries j2 = j_entries j1" "s' = s\<lparr>st_JournalReservation := v\<rparr>" by auto
    have "same_shown k k3 \<and> j_entries j3 = j_entries j2"
      using destroy_unconsumed [OF stage, of v j2 j3 k3] d same(1,3) by simp
    moreover have "submission_admit (env_json E) (env_syscalls E) others p (k, j, w) =
        Some (Inl \<lparr>submission_code = SE_AdmissionCommitFailed, coordinator_error = Some e, orchestrator_error = None\<rparr>, k3, j3, w2)"
      using stage c d Inl by (simp add: submission_admit_def)
    ultimately show ?thesis using same(2) f(7) by auto
  next
    case (Inr x)
    have "submission_admit (env_json E) (env_syscalls E) others p (k, j, w) = Some (Inr x, k3, j3, w2)"
      using stage c d Inr by (simp add: submission_admit_def)
    with post kept f(2,5) Inr show ?thesis by auto
  qed
qed

text \<open>
  C10: the admission of a submitted plan is all or nothing. The block returns; when it fails, at whatever
  point, the records, the drafts, the residencies, the number of staged ones and the ledger are as
  they were before; when it succeeds, the ledger has one entry for the plan and the Operation Center one
  queued record with its identity.
\<close>

theorem submission_all_or_nothing:
  assumes "open_env_ok E path" and "opened E path j0 w0" and "Coordinator_Create inst j0 = Inr k0"
    and "(gate_step E path)\<^sup>*\<^sup>* (k0, j0, w0, [], {}) (k, j, w, L, D)" and "plan_object p"
    and others: "\<And>k j w L D. \<exists>k' j' w' L' D'. others (k, j, w) = (k', j', w') \<and> (free_step E)\<^sup>*\<^sup>* (k, j, w, L, D) (k', j', w', L', D')
      \<and> c_instance (k_Model k') = c_instance (k_Model k) \<and> c_admission_drafts (k_Model k) \<subseteq> c_admission_drafts (k_Model k')"
  shows "\<exists>result k' j' w'. submission_admit (env_json E) (env_syscalls E) others p (k, j, w) = Some (result, k', j', w')
    \<and> (case result of
         Inl _ \<Rightarrow> same_shown k k' \<and> j_entries j' = j_entries j
       | Inr c \<Rightarrow> (\<exists>before. map record_operation_id before = map record_operation_id (c_records (k_Model k))
             \<and> c_records (k_Model k') = before @ [queued_record (committed_operation_id c) p (plan_CreatedAt p)])
           \<and> (\<exists>e \<in> set (j_entries j'). operation_id e = committed_operation_id c \<and> entry_plan e = p))"
proof -
  note run = gate_run [OF assms(1-4)]
  obtain r j1 k1 where r: "Coordinator_StageAdmission p j k = (r, j1, k1)" by (cases "Coordinator_StageAdmission p j k")
  show ?thesis
  proof (cases r)
    case (Inl e)
    with r staging_failed_same [of p j k e j1 k1] show ?thesis by (simp add: submission_admit_def)
  next
    case (Inr s)
    from submission_staged [OF assms(1) run r [unfolded Inr] assms(5) others] show ?thesis .
  qed
qed

section \<open>Running operations\<close>

lemma find_if_append: "\<forall>x \<in> set xs. \<not> P x \<Longrightarrow> P y \<Longrightarrow> find_if P (xs @ [y]) = Some (length xs)"
  by (induction xs) auto

text \<open>
  Handing an admitted operation over to the pool never fails for lack of room, and needs no
  allocation: as long as its draft was not released, the residency is registered in the memory that was
  reserved when it was staged.
\<close>

theorem handoff_has_room:
  assumes "open_env_ok E path" and "opened E path j0 w0" and "Coordinator_Create inst j0 = Inr k0"
    and "(gate_step E path)\<^sup>*\<^sup>* (k0, j0, w0, [], {}) (k, j, w, L, D)"
    and "draft_of d a k" and "a \<in> D" and "FindLiveResidency i k = None"
  shows "\<exists>d' k'. RegisterLiveResidency d i (Some pool) (Some operation) k = (Inr (), d', k')
    \<and> FindLiveResidency i k' = Some a \<and> res_operation (residency_at k' a) = Some operation
    \<and> k_residency_capacity k' = k_residency_capacity k"
proof -
  note inv = gate_run(2) [OF assms(1-4)]
  have "0 < card D" using inv assms(6) by (auto simp: coordinator_inv_def residencies_ok_def card_gt_0_iff)
  then have room: "length (k_LiveResidencies k) \<noteq> k_residency_capacity k" and a: "a < length (k_residency_objects k)"
    using inv assms(6) by (auto simp: coordinator_inv_def residencies_ok_def)
  have none: "\<forall>b \<in> set (k_LiveResidencies k). fst b \<noteq> i" using assms(7) by (auto simp: FindLiveResidency_def find_if_None)
  then have "\<not> list_ex (\<lambda>(operation_id, _). operation_id = i) (k_LiveResidencies k)" by (auto simp: list_ex_iff)
  moreover have "find_if (\<lambda>(operation_id, _). operation_id = i) (k_LiveResidencies k @ [(i, a)]) = Some (length (k_LiveResidencies k))"
    using none by (intro find_if_append) auto
  ultimately show ?thesis using assms(5) room a
    by (simp add: RegisterLiveResidency_def draft_of_def Let_def FindLiveResidency_def residency_at_def set_residency_def
        ReleaseLiveResidencyDraft_def)
qed

lemma FindLive_set [simp]: "FindLiveResidency i (set_residency a f k) = FindLiveResidency i k"
  by (simp add: FindLiveResidency_def)

lemma FindLive_model [simp]: "FindLiveResidency i (k\<lparr>k_Model := m\<rparr>) = FindLiveResidency i k"
  by (simp add: FindLiveResidency_def)

lemma FindLive_member:
  assumes "FindLiveResidency i k = Some a"
  shows "(i, a) \<in> set (k_LiveResidencies k)"
proof -
  from assms obtain n where n: "find_if (\<lambda>(operation_id, _). operation_id = i) (k_LiveResidencies k) = Some n"
    "a = snd (k_LiveResidencies k ! n)" by (auto simp: FindLiveResidency_def)
  with find_if_Some [OF n(1)] show ?thesis by (metis (mono_tags, lifting) case_prod_beta nth_mem prod.collapse)
qed

lemma ReduceCancelling_Find:
  assumes "CenterModel_Find i (k_Model k) = Some r" "\<not> IsTerminal (record_state r)"
  shows "\<exists>r'. CenterModel_Find i (k_Model (ReduceCancelling i now k)) = Some r' \<and> \<not> IsTerminal (record_state r')"
proof (cases "can_cancel (controls r) \<and> IsAllowedTransition (record_state r) Record_Cancelling")
  case True
  with Find_after_Transition [OF assms(1), of Record_Cancelling now] assms(1) show ?thesis
    by (auto simp: ReduceCancelling_def transition_def on_model_def IsTerminal_def)
next
  case False
  have "snd (snd (CenterModel_Transition i (revision r) Record_Cancelling now (k_Model k))) = k_Model k"
    if "\<not> IsAllowedTransition (record_state r) Record_Cancelling"
    using assms(1) that by (auto simp: CenterModel_Transition_def CenterModel_Find_def Let_def)
  with False assms show ?thesis by (auto simp: ReduceCancelling_def transition_def on_model_def)
qed

lemma retired:
  assumes "distinct (map fst (k_LiveResidencies k))" "FindLiveResidency i k = Some a"
  shows "FindLiveResidency i (RetireLiveResidency i (Some a) k) = None"
proof -
  note found = FindLive_member [OF assms(2)]
  have "b = a" if "(i, b) \<in> set (k_LiveResidencies k)" for b
    using eq_key_imp_eq_value [OF assms(1) found that] by simp
  then show ?thesis by (auto simp: FindLiveResidency_def RetireLiveResidency_def find_if_None)
qed

text \<open>
  C12: an outcome that arrives while the operation is being cancelled is not lost, and wins. When \<open>Stop\<close>,
  on its own thread, ends the operation and the orchestrator reports the durable outcome from inside, the
  outcome waits for the gate; when \<open>Cancel\<close> returns, the record is in the terminal state that
  the journal has, the answer shows it, and the operation is no longer resident. This holds whether or
  not \<open>Stop\<close> claims to have accepted, and whatever happened while \<open>Cancel\<close> waited.
\<close>

theorem cancel_keeps_outcome:
  assumes "open_env_ok E path" and "opened E path j0 w0" and "Coordinator_Create inst j0 = Inr k0"
    and "(gate_step E path)\<^sup>*\<^sup>* (k0, j0, w0, [], {}) (k2, j, w, L, D)"
    and "FindLiveResidency i k2 = Some a" and "cancel_in_flight (residency_at k2 a)"
    and "CenterModel_Find i (k_Model k2) = Some r" and "\<not> IsTerminal (record_state r)"
    and "OperationCenterStateFromJournal s = Some x"
    and "Cancel_find i v k = Inr a" and "Cancel_begin pool_operations i v a (others k) = (Inr (), k1)"
    and "stop k1 = (Some accepted, ReduceDurableTerminal id i s t1 t2 k2)"
  shows "\<exists>r' k'. Cancel pool_operations others stop now later latest i v k =
      ((if accepted then Cancel_Accepted else Cancel_StopRejected, Some r'), k')
    \<and> CenterModel_Find i (k_Model k') = Some r' \<and> record_state r' = x \<and> FindLiveResidency i k' = None"
proof -
  have inv: "coordinator_inv (j_entries j) k2 L D" by (rule gate_run(2) [OF assms(1-4)])
  let ?k3 = "set_residency a (\<lambda>r. r\<lparr>deferred_terminal := Some s\<rparr>) k2"
  have "(i, a) \<in> set L" using FindLive_member [OF assms(5)] inv by (auto simp: coordinator_inv_def residencies_ok_def)
  then have a: "a < length (k_residency_objects k2)" using inv by (force simp: coordinator_inv_def residencies_ok_def)
  have delivered: "ReduceDurableTerminal id i s t1 t2 k2 = ?k3"
    using assms(5,6,9) by (simp add: ReduceDurableTerminal_def reduce_at_gate_def)
  let ?k4 = "if accepted then ReduceCancelling i now ?k3 else ?k3"
  obtain r4 where r4: "CenterModel_Find i (k_Model ?k4) = Some r4" "\<not> IsTerminal (record_state r4)"
    using ReduceCancelling_Find [of i ?k3 r now] assms(7,8) by (cases accepted) auto
  have rest: "k_residency_objects ?k4 = k_residency_objects ?k3" "FindLiveResidency i ?k4 = Some a"
    "distinct (map fst (k_LiveResidencies ?k4))"
    using assms(5) inv ReduceCancelling_moves [of "\<lambda>_ _. True" ?k3 i now]
    by (auto simp: model_moves_def coordinator_inv_def residencies_ok_def)
  let ?k5 = "set_residency a (\<lambda>r. r\<lparr>cancel_in_flight := False, deferred_terminal := None\<rparr>) ?k4"
  let ?k6 = "ApplyDurableTerminal i s later latest ?k5"
  have "deferred_terminal (residency_at ?k4 a) = Some s" using a rest(1) by (simp add: residency_at_def set_residency_def)
  then have end_state: "Cancel_end i a accepted now later latest ?k3 =
      ((if accepted then Cancel_Accepted else Cancel_StopRejected, CenterModel_Find i (k_Model ?k6)),
       RetireLiveResidency i (Some a) ?k6)"
    by (simp only: Cancel_end_def Let_def option.case retire_model)
  obtain r' where r': "CenterModel_Find i (k_Model ?k6) = Some r'" "record_state r' = x"
    using Apply_terminal [of i ?k5 r4 s x later latest] r4 assms(9) by auto
  have "FindLiveResidency i ?k6 = Some a" "distinct (map fst (k_LiveResidencies ?k6))"
    using rest(2,3) Apply_moves [of s "\<lambda>_ _. True" i ?k5 later latest] by (auto simp: model_moves_def)
  then have "FindLiveResidency i (RetireLiveResidency i (Some a) ?k6) = None" by (intro retired)
  with r' end_state delivered assms(10-12) show ?thesis by (simp add: Cancel_def)
qed

text \<open>
  C35: the path of \<open>Cancel\<close> for a \<open>Stop\<close> that throws takes back the mark but not the outcome that came
  in the meantime. The record stays as if the operation were still running, its residency stays, and
  the history cannot be refreshed any more; and as the pool has let the operation go, no later \<open>Cancel\<close>
  reaches the point where the outcome would be applied.
\<close>

theorem throwing_stop_strands_outcome:
  assumes "open_env_ok E path" and "opened E path j0 w0" and "Coordinator_Create inst j0 = Inr k0"
    and "(gate_step E path)\<^sup>*\<^sup>* (k0, j0, w0, [], {}) (k2, j, w, L, D)"
    and "FindLiveResidency i k2 = Some a" and "cancel_in_flight (residency_at k2 a)"
    and "CenterModel_Find i (k_Model k2) = Some r" and "OperationCenterStateFromJournal s = Some x"
    and "Cancel_find i v k = Inr a" and "Cancel_begin pool_operations i v a (others k) = (Inr (), k1)"
    and "stop k1 = (None, ReduceDurableTerminal id i s t1 t2 k2)"
    and "\<not> is_resident pool_operations' (residency_at k2 a)"
  shows "\<exists>k'. Cancel pool_operations others stop now later latest i v k = ((Cancel_ResidencyUnavailable, None), k')
    \<and> CenterModel_Find i (k_Model k') = Some r \<and> FindLiveResidency i k' = Some a
    \<and> deferred_terminal (residency_at k' a) = Some s
    \<and> (\<forall>j. fst (Coordinator_RefreshColdHistory j k') \<noteq> Inr ())
    \<and> (\<forall>v. snd (Cancel pool_operations' id stop' now later latest i v k') = k')"
proof -
  have inv: "coordinator_inv (j_entries j) k2 L D" by (rule gate_run(2) [OF assms(1-4)])
  let ?k3 = "set_residency a (\<lambda>r. r\<lparr>deferred_terminal := Some s\<rparr>) k2"
  let ?k4 = "Cancel_abort a ?k3"
  have "(i, a) \<in> set L" using FindLive_member [OF assms(5)] inv by (auto simp: coordinator_inv_def residencies_ok_def)
  then have a: "a < length (k_residency_objects k2)" using inv by (force simp: coordinator_inv_def residencies_ok_def)
  have "ReduceDurableTerminal id i s t1 t2 k2 = ?k3"
    using assms(5,6,8) by (simp add: ReduceDurableTerminal_def reduce_at_gate_def)
  with assms(9-11) have "Cancel pool_operations others stop now later latest i v k = ((Cancel_ResidencyUnavailable, None), ?k4)"
    by (simp add: Cancel_def)
  moreover have sel: "CenterModel_Find i (k_Model ?k4) = Some r" "FindLiveResidency i ?k4 = Some a"
    "deferred_terminal (residency_at ?k4 a) = Some s" "\<not> is_resident pool_operations' (residency_at ?k4 a)"
    using a assms(5,7,12) by (simp_all add: Cancel_abort_def residency_at_def set_residency_def is_resident_def
        FindLiveResidency_def cong: option.case_cong)
  moreover have "fst (Coordinator_RefreshColdHistory j' ?k4) \<noteq> Inr ()" for j'
    using FindLive_member [OF sel(2)] by (auto simp: Coordinator_RefreshColdHistory_def split: sum.splits)
  moreover have "snd (Cancel pool_operations' id stop' now later latest i v ?k4) = ?k4" for v
    using sel(1,2,4) by (simp add: Cancel_def Cancel_find_def Cancel_begin_def)
  ultimately show ?thesis by blast
qed

section \<open>Instances\<close>

lemmas sample_run = mem_open_env sample_opened sample_Create

theorem Create_shows_ledger_witness:
  "\<exists>k. Coordinator_Create 0 (sample_state [] 1 1) = Inr k \<and> c_records (k_Model k) = []"
  using Create_shows_ledger [OF mem_open_env, of 0 mem_empty "sample_state [] 1 1"] sample_Open
  by (auto simp: sample_state_def)

theorem records_agree_witness:
  "\<exists>e \<in> {sample_finished}. operation_id e = 1 \<and> plan_Id (entry_plan e) = plan_Id sample_plan"
  using records_agree [OF sample_run sample_reached(3) [unfolded sample_cancelling_configuration_def], of sample_record]
  by (simp add: sample_coordinator_defs queued_record_def sample_state_def)

theorem refresh_completes_witness:
  "\<exists>k. Coordinator_RefreshColdHistory (sample_state [] 1 1) sample_fresh = (Inr (), k)
    \<and> (\<exists>new. c_records (k_Model k) = c_records (k_Model sample_fresh) @ new) \<and> k_LiveResidencies sample_fresh = []"
proof -
  have r: "Coordinator_RefreshColdHistory (sample_state [] 1 1) sample_fresh = (Inr (), sample_fresh)"
    by (simp add: Coordinator_RefreshColdHistory_def RefreshColdHistory_def sample_fresh_def Coordinator_init_def
        OperationCenterModel_init_def sample_state_def Snapshot_def StorageIdentityForCustody_def)
  from refresh_completes [OF sample_run rtranclp.rtrancl_refl r] r show ?thesis by auto
qed

theorem admission_published_witness:
  "\<exists>c s' k' j' w'. CommitAdmission sample_json mem_syscalls id sample_staging
      (sample_coordinator {1} [] [fresh_residency] [] 1, sample_reserved, mem_disk sample_created) = Some (Inr c, s', k', j', w')
    \<and> c_records (k_Model k') = [queued_record (committed_operation_id c) sample_plan (plan_CreatedAt sample_plan)]"
proof -
  let ?k = "sample_coordinator {1} [] [fresh_residency] [] 1"
  have "\<exists>k' j' w' L' D'. id (?k, j1, w1) = (k', j', w')
      \<and> (free_step mem_env)\<^sup>*\<^sup>* (?k, j1, w1, [], {0}) (k', j', w', L', D')
      \<and> draft_Impl (st_ModelDraft sample_staging) = Some (c_instance (k_Model k'))
      \<and> draft_Nonce (st_ModelDraft sample_staging) \<in> c_admission_drafts (k_Model k')" for j1 w1
    by (intro exI [of _ ?k] exI [of _ j1] exI [of _ w1] exI [of _ "[]"] exI [of _ "{0}"])
      (simp add: sample_staging_def sample_coordinator_defs)
  then have "\<exists>result s' k' j' w'. CommitAdmission sample_json mem_syscalls id sample_staging
      (?k, sample_reserved, mem_disk sample_created) = Some (result, s', k', j', w')
    \<and> (\<forall>c. result = Inr c \<longrightarrow> (\<exists>before. map record_operation_id before = map record_operation_id (c_records (k_Model ?k))
       \<and> c_records (k_Model k') = before @ [queued_record (committed_operation_id c) sample_plan (plan_CreatedAt sample_plan)]))"
    using admission_published [OF sample_run sample_reached(1) [unfolded sample_staged_configuration_def],
        of sample_staging "plan_CreatedAt sample_plan" id] sample_plan_object
    by (fastforce simp: sample_staging_def sample_model_draft_def sample_record_def split: sum.splits)
  moreover obtain c s' k' j' w' where "CommitAdmission sample_json mem_syscalls id sample_staging
      (?k, sample_reserved, mem_disk sample_created) = Some (Inr c, s', k', j', w')"
    using sample_Admitted sample_Published
    by (auto simp: CommitAdmission_def sample_staging_def sample_coordinator_def Let_def)
  ultimately show ?thesis by (auto simp: sample_coordinator_def sample_center_def)
qed

theorem submission_all_or_nothing_witness:
  "\<exists>result k' j' w'. submission_admit sample_json mem_syscalls id sample_plan
      (sample_fresh, sample_state [] 1 1, mem_disk sample_created) = Some (result, k', j', w')
    \<and> (isl result \<longrightarrow> same_shown sample_fresh k')"
proof -
  have "\<exists>k' j' w' L' D'. id (k, j, w) = (k', j', w') \<and> (free_step mem_env)\<^sup>*\<^sup>* (k, j, w, L, D) (k', j', w', L', D')
      \<and> c_instance (k_Model k') = c_instance (k_Model k) \<and> c_admission_drafts (k_Model k) \<subseteq> c_admission_drafts (k_Model k')"
    for k j w L D
    by (intro exI [of _ k] exI [of _ j] exI [of _ w] exI [of _ L] exI [of _ D]) simp
  from submission_all_or_nothing [OF sample_run rtranclp.rtrancl_refl sample_plan_object this, unfolded mem_env_sel]
  show ?thesis by (elim ex_forward) (auto simp: id_def split: sum.splits)
qed

theorem handoff_has_room_witness:
  "\<exists>d' k'. RegisterLiveResidency sample_live_draft 1 (Some 0) (Some 5)
      (sample_coordinator {} [sample_record] [fresh_residency] [] 1) = (Inr (), d', k') \<and> k_residency_capacity k' = 1"
  using handoff_has_room [OF sample_run sample_reached(2) [unfolded sample_published_configuration_def],
      of sample_live_draft 0 1 0 5]
  by (auto simp: draft_of_def FindLiveResidency_def sample_coordinator_defs)

theorem cancel_keeps_outcome_witness:
  "\<exists>r' k'. Cancel sample_pool id
      (\<lambda>k. (Some True, ReduceDurableTerminal id 1 State_Completed 10 11 k)) 12 13 14 1 1
      (sample_coordinator {} [sample_record] [sample_residency False] [(1, 0)] 0) = ((Cancel_Accepted, Some r'), k')
    \<and> record_state r' = Record_Completed"
proof -
  let ?stop = "\<lambda>k. (Some True, ReduceDurableTerminal id 1 State_Completed 10 11 k)"
  have began: "Cancel_begin sample_pool 1 1 0 (id (sample_coordinator {} [sample_record] [sample_residency False] [(1, 0)] 0)) =
      (Inr (), sample_coordinator {} [sample_record] [sample_residency True] [(1, 0)] 0)" using sample_Cancel_begin by simp
  from cancel_keeps_outcome [where others = id and stop = ?stop, OF sample_run sample_reached(3) [unfolded sample_cancelling_configuration_def]
      sample_in_flight(1-5) sample_Cancel_find began, of True 10 11 12 13 14]
  show ?thesis by auto
qed

theorem throwing_stop_strands_outcome_witness:
  "\<exists>k'. Cancel sample_pool id
      (\<lambda>k. (None, ReduceDurableTerminal id 1 State_Completed 10 11 k)) 12 13 14 1 1
      (sample_coordinator {} [sample_record] [sample_residency False] [(1, 0)] 0) = ((Cancel_ResidencyUnavailable, None), k')
    \<and> CenterModel_Find 1 (k_Model k') = Some sample_record"
proof -
  let ?stop = "\<lambda>k. (None, ReduceDurableTerminal id 1 State_Completed 10 11 k)"
  have began: "Cancel_begin sample_pool 1 1 0 (id (sample_coordinator {} [sample_record] [sample_residency False] [(1, 0)] 0)) =
      (Inr (), sample_coordinator {} [sample_record] [sample_residency True] [(1, 0)] 0)" using sample_Cancel_begin by simp
  from throwing_stop_strands_outcome [where others = id and stop = ?stop, OF sample_run sample_reached(3) [unfolded sample_cancelling_configuration_def]
      sample_in_flight(1-3,5) sample_Cancel_find began, of 10 11 "\<lambda>_. []" 12 13 14] sample_in_flight(6)
  show ?thesis by blast
qed

end
