(* ===== verification/PaneState.thy ===== *)
theory PaneState
  imports Prelude
begin

text \<open>
  What a file pane shows and what its loading lifecycle reports: \<open>PaneSnapshot.h\<close>,
  \<open>FileManagerError.h\<close> and the types of \<open>PaneLifecycleProducer.h\<close>.

  A shared pointer is the address of the object together with what the code reads of it: nothing of a
  host, the number of items of a listing, the items of the storage of a selection. These objects never
  change once they are made, and two objects are never alive at one address, so two pointers are equal
  exactly when these values are. Equality of panes in the code looks through the pointer of a
  selection at its items, which is \<open>same_pane\<close>.
\<close>

section \<open>Errors for the user\<close>

datatype FileManagerErrorCategory =
    PermissionError | PathNotFoundError | VolumeUnavailableError | NetworkError | ConflictError
  | ValidationError | ProviderUnsupportedError | InsufficientSpaceError | FileBusyError
  | ReadOnlyError | ChecksumMismatchError | OperationCancelledError | PartialFailureError
  | TimeoutError | AuthenticationError | RateLimitError | UnknownError

datatype FileManagerErrorSeverity =
    Severity_Info | Severity_Warning | Severity_RecoverableError | Severity_BlockingError
  | Severity_DestructiveRisk | Severity_FatalError

record FileManagerErrorCode =
  err_domain :: string
  err_value :: int

text \<open>Of an \<open>nc::Error\<close> only the domain and the code take part in comparisons.\<close>

record FileManagerError =
  err_code :: FileManagerErrorCode
  err_category :: FileManagerErrorCategory
  err_severity :: FileManagerErrorSeverity
  user_message_key :: string
  user_message :: string
  technical_message :: string
  err_affected_items :: "string list"
  err_operation_id :: "string option"
  err_provider_id :: "string option"
  err_recoverable :: bool
  err_retryable :: bool
  requires_user_action :: bool
  suggested_actions :: "string list"
  original_error :: FileManagerErrorCode
  err_timestamp :: int

section \<open>Panes\<close>

type_synonym PaneId = u64
type_synonym VFSHostPtr = "nat option"

record VFSListing =
  listing_address :: nat
  Count :: nat

type_synonym VFSListingPtr = "VFSListing option"

record VFSListingItem =
  item_Listing :: VFSListingPtr
  item_Index :: nat

definition no_item :: VFSListingItem where
  "no_item = \<lparr>item_Listing = None, item_Index = 4294967295\<rparr>"

datatype PaneLoadPhase = Phase_Empty | Phase_Loading | Phase_Loaded | Phase_Refreshing | Phase_Failed

datatype PaneSortKey =
    SortKey_Unknown | SortKey_Unsorted | SortKey_RawName | SortKey_Name | SortKey_Extension
  | SortKey_Size | SortKey_ModifiedTime | SortKey_CreatedTime | SortKey_AddedTime
  | SortKey_AccessedTime | SortKey_Invalid

datatype PaneSortDirection = Sort_None | Sort_Ascending | Sort_Descending | Sort_Invalid

datatype PaneTextCollation =
    Collation_Unknown | Collation_Natural | Collation_CaseInsensitive | Collation_CaseSensitive
  | Collation_Invalid

record PaneSortState =
  sort_key :: PaneSortKey
  sort_direction :: PaneSortDirection
  sort_collation :: PaneTextCollation
  separates_directories :: bool
  extensionless_directories :: bool

datatype PaneGroupingKey =
    GroupKey_Unknown | GroupKey_Name | GroupKey_Extension | GroupKey_Size | GroupKey_ModifiedTime
  | GroupKey_CreatedTime | GroupKey_AddedTime | GroupKey_AccessedTime | GroupKey_Invalid

record PaneGroupingState =
  grouping_enabled :: bool
  grouping_key :: PaneGroupingKey

datatype PaneViewMode = View_Unknown | View_Icons | View_Details | View_Gallery | View_Invalid

record PaneViewState =
  view_mode :: PaneViewMode
  layout_index :: "int option"

record PaneHistoryAvailability =
  can_go_back :: bool
  can_go_forward :: bool

record PaneSelectedItems =
  m_Items :: "(nat \<times> VFSListingItem list) option"

definition Values :: "PaneSelectedItems \<Rightarrow> VFSListingItem list" where
  "Values s = (case m_Items s of None \<Rightarrow> [] | Some (_, items) \<Rightarrow> items)"

definition StorageIdentity :: "PaneSelectedItems \<Rightarrow> (nat \<times> VFSListingItem list) option" where
  "StorageIdentity s = m_Items s"

definition selected_empty :: "PaneSelectedItems \<Rightarrow> bool" where
  "selected_empty s \<longleftrightarrow> m_Items s = None"

definition selected_size :: "PaneSelectedItems \<Rightarrow> nat" where
  "selected_size s = (case m_Items s of None \<Rightarrow> 0 | Some (_, items) \<Rightarrow> length items)"

text \<open>The constructor: an empty selection has no storage, others get storage of their own.\<close>

definition make_selection :: "nat \<Rightarrow> VFSListingItem list \<Rightarrow> PaneSelectedItems" where
  "make_selection address items = \<lparr>m_Items = (if items = [] then None else Some (address, items))\<rparr>"

definition same_selection :: "PaneSelectedItems \<Rightarrow> PaneSelectedItems \<Rightarrow> bool" where
  "same_selection s t \<longleftrightarrow> StorageIdentity s = StorageIdentity t \<or> Values s = Values t"

record PaneState =
  location_generation :: u64
  load_phase :: PaneLoadPhase
  is_uniform :: bool
  pane_path :: string
  display_title :: string
  pane_host :: VFSHostPtr
  listing :: VFSListingPtr
  focused_item :: VFSListingItem
  selected_items :: PaneSelectedItems
  sort_state :: PaneSortState
  grouping_state :: PaneGroupingState
  view_state :: PaneViewState
  history_availability :: PaneHistoryAvailability
  current_history_entry_id :: "u64 option"
  shows_hidden_files :: bool
  item_count :: int
  selected_count :: int
  selected_bytes :: int
  visible_error :: "FileManagerError option"

definition same_pane :: "PaneState \<Rightarrow> PaneState \<Rightarrow> bool" where
  "same_pane s t \<longleftrightarrow> same_selection (selected_items s) (selected_items t)
     \<and> s\<lparr>selected_items := selected_items t\<rparr> = t"

record PaneSnapshot =
  snap_pane_id :: PaneId
  snap_revision :: u64
  snap_listing_generation :: u64
  snap_state :: PaneState

section \<open>Lifecycle events\<close>

type_synonym PaneRequestId = u64

datatype PaneRequestKind = Navigation | Refresh

record PaneRequestLocation =
  location_host :: VFSHostPtr
  location_path :: string

record PaneRequestDescriptor =
  request_kind :: PaneRequestKind
  request_target :: "PaneRequestLocation option"
  initiated_by_user :: bool

datatype PaneCancellationReason =
  Cancel_User | Cancel_QueueStopped | Cancel_ProducerShutdown | Cancel_InternalAbort

datatype PaneRejectionReason = Reject_Busy | Reject_InvalidRequest | Reject_Unavailable

record PaneLifecycleRejected =
  rejection_reason :: PaneRejectionReason
  conflicting_request :: "PaneRequestId option"
  admission_error :: "FileManagerError option"

datatype PaneLifecycleFinishPayload =
    Finish_Committed u64 VFSListingPtr
  | Finish_Failed FileManagerError
  | Finish_Cancelled PaneCancellationReason

datatype PaneLifecycleEventPayload =
    Lifecycle_Started
  | Lifecycle_Committed (controller_generation: u64) (committed_listing: VFSListingPtr)
  | Lifecycle_Failed FileManagerError
  | Lifecycle_Cancelled PaneCancellationReason
  | Lifecycle_Superseded PaneRequestId
  | Lifecycle_Rejected PaneLifecycleRejected

definition IsPaneLifecycleAcceptedTerminal :: "PaneLifecycleEventPayload \<Rightarrow> bool" where
  "IsPaneLifecycleAcceptedTerminal payload = (case payload of
     Lifecycle_Committed _ _ \<Rightarrow> True
   | Lifecycle_Failed _ \<Rightarrow> True
   | Lifecycle_Cancelled _ \<Rightarrow> True
   | Lifecycle_Superseded _ \<Rightarrow> True
   | _ \<Rightarrow> False)"

record PaneLifecycleEvent =
  event_pane_id :: PaneId
  event_request_id :: PaneRequestId
  event_sequence :: u64
  event_descriptor :: PaneRequestDescriptor
  event_payload :: PaneLifecycleEventPayload

record PaneActiveRequest =
  active_id :: PaneRequestId
  active_descriptor :: PaneRequestDescriptor

section \<open>Selections and panes as values\<close>

lemma selected_size_Values: "selected_size s = length (Values s)"
  by (auto simp: selected_size_def Values_def split: option.splits)

lemma same_selection_iff: "same_selection s t \<longleftrightarrow> Values s = Values t"
  by (auto simp: same_selection_def StorageIdentity_def Values_def)

lemma same_pane_refl [simp]: "same_pane s s"
  by (simp add: same_pane_def same_selection_iff)

lemma same_pane_sym: "same_pane s t \<Longrightarrow> same_pane t s"
  by (cases s; cases t) (auto simp: same_pane_def same_selection_iff)

lemma same_pane_trans [trans]: "same_pane s t \<Longrightarrow> same_pane t u \<Longrightarrow> same_pane s u"
  by (cases s; cases t; cases u) (auto simp: same_pane_def same_selection_iff)

lemma same_pane_fields:
  assumes "same_pane s t"
  shows "load_phase s = load_phase t" "listing s = listing t" "visible_error s = visible_error t"
    "location_generation s = location_generation t"
  using assms by (auto simp: same_pane_def dest: arg_cong [where f = load_phase]
    arg_cong [where f = listing] arg_cong [where f = visible_error]
    arg_cong [where f = location_generation])

end
