(* ===== verification/PaneProducer.thy ===== *)
theory PaneProducer
  imports PaneState
begin

text \<open>
  \<open>PaneLifecycleProducer.cpp\<close>: the sequencer of the loading lifecycle of one pane.

  The class \<open>Impl\<close> is the record \<open>PaneLifecycleProducer\<close>. What a call changes before it drains the
  queue is its \<open>_body\<close>: a result, whether the call goes on to drain, and the object. Around the body,
  \<open>draining\<close> runs \<open>DrainNotifications\<close>, where \<open>fire\<close> is what the observers do with an event. An
  observer may call the producer again; a call made while the queue is drained only adds to it. The
  observers do not throw, as their contract says. Failed allocations are not modelled.
\<close>

section \<open>State\<close>

datatype PaneException = Logic_Error | Overflow_Error | Mutation_Exception

datatype FinishResult = Published | NoActiveRequest | StaleRequest | ProducerShutdown

record PaneLifecycleProducer =
  pr_PaneId :: PaneId
  maximum_request_id :: u64
  maximum_event_sequence :: u64
  m_NextRequestId :: u64
  m_NextEventSequence :: u64
  m_ActiveRequest :: "PaneActiveRequest option"
  m_RetainedFailure :: "PaneLifecycleEvent option"
  m_PendingNotifications :: "PaneLifecycleEvent list"
  m_ActiveNotification :: "PaneLifecycleEvent option"
  m_IsNotifying :: bool
  m_Shutdown :: bool
  m_IsExecutingFinishMutation :: bool
  m_MutationViolated :: bool
  m_DestructionRequestedDuringMutation :: bool

definition PaneLifecycleProducer_make :: "PaneId \<Rightarrow> u64 \<Rightarrow> u64 \<Rightarrow> PaneLifecycleProducer res" where
  "PaneLifecycleProducer_make pane max_id max_sequence =
    (if max_id = 0 \<or> max_sequence = 0 then Inl Throws_invalid_argument
     else Inr \<lparr>pr_PaneId = pane, maximum_request_id = max_id, maximum_event_sequence = max_sequence,
       m_NextRequestId = 1, m_NextEventSequence = 1, m_ActiveRequest = None, m_RetainedFailure = None,
       m_PendingNotifications = [], m_ActiveNotification = None, m_IsNotifying = False,
       m_Shutdown = False, m_IsExecutingFinishMutation = False, m_MutationViolated = False,
       m_DestructionRequestedDuringMutation = False\<rparr>)"

section \<open>Counters\<close>

text \<open>A counter is the next value to give out, and zero when the last one has been.\<close>

definition has_capacity :: "u64 \<Rightarrow> u64 \<Rightarrow> u64 \<Rightarrow> bool" where
  "has_capacity n maximum count \<longleftrightarrow> \<not> (n = 0 \<or> n > maximum \<or> count > maximum - n + 1)"

definition request_id_capacity :: "u64 \<Rightarrow> PaneLifecycleProducer \<Rightarrow> bool" where
  "request_id_capacity count p = has_capacity (m_NextRequestId p) (maximum_request_id p) count"

definition event_sequence_capacity :: "u64 \<Rightarrow> PaneLifecycleProducer \<Rightarrow> bool" where
  "event_sequence_capacity count p =
    has_capacity (m_NextEventSequence p) (maximum_event_sequence p) count"

definition AdvanceCounter :: "u64 \<Rightarrow> u64 \<Rightarrow> u64 \<Rightarrow> u64" where
  "AdvanceCounter n maximum count = (if count = maximum - n + 1 then 0 else n + count)"

definition PreviousEventSequence :: "PaneLifecycleProducer \<Rightarrow> u64" where
  "PreviousEventSequence p =
    (if m_NextEventSequence p = 0 then maximum_event_sequence p else m_NextEventSequence p - 1)"

definition PrepareEvent :: "PaneActiveRequest \<Rightarrow> u64 \<Rightarrow> PaneLifecycleEventPayload
    \<Rightarrow> PaneLifecycleProducer \<Rightarrow> PaneLifecycleEvent" where
  "PrepareEvent a sequence payload p = \<lparr>event_pane_id = pr_PaneId p, event_request_id = active_id a,
     event_sequence = sequence, event_descriptor = active_descriptor a, event_payload = payload\<rparr>"

definition CommitBatch :: "PaneLifecycleEvent list \<Rightarrow> PaneLifecycleProducer \<Rightarrow> PaneLifecycleProducer" where
  "CommitBatch batch p = p\<lparr>m_PendingNotifications := m_PendingNotifications p @ batch\<rparr>"

definition advance_ids :: "PaneLifecycleProducer \<Rightarrow> PaneLifecycleProducer" where
  "advance_ids p =
    p\<lparr>m_NextRequestId := AdvanceCounter (m_NextRequestId p) (maximum_request_id p) 1\<rparr>"

definition advance_events :: "u64 \<Rightarrow> PaneLifecycleProducer \<Rightarrow> PaneLifecycleProducer" where
  "advance_events count p = p\<lparr>m_NextEventSequence :=
     AdvanceCounter (m_NextEventSequence p) (maximum_event_sequence p) count\<rparr>"

section \<open>Calls\<close>

type_synonym 'a outcome = "(PaneException + 'a) \<times> bool"

text \<open>Every call but the destructor throws when it comes from inside the mutation of a \<open>Finish\<close>.\<close>

definition RejectFinishMutationReentry :: "PaneLifecycleProducer \<Rightarrow> PaneLifecycleProducer" where
  "RejectFinishMutationReentry p = p\<lparr>m_MutationViolated := True\<rparr>"

definition Start_body :: "PaneRequestDescriptor \<Rightarrow> PaneLifecycleProducer
    \<Rightarrow> PaneRequestId outcome \<times> PaneLifecycleProducer" where
  "Start_body descriptor p =
    (if m_IsExecutingFinishMutation p then ((Inl Logic_Error, False), RejectFinishMutationReentry p)
     else if m_Shutdown p then ((Inl Logic_Error, False), p)
     else if m_ActiveRequest p \<noteq> None then ((Inl Logic_Error, False), p)
     else if \<not> request_id_capacity 1 p then ((Inl Overflow_Error, False), p)
     else if \<not> event_sequence_capacity 2 p then ((Inl Overflow_Error, False), p)
     else let a = \<lparr>active_id = m_NextRequestId p, active_descriptor = descriptor\<rparr>;
              batch = [PrepareEvent a (m_NextEventSequence p) Lifecycle_Started p]
          in ((Inr (active_id a), True), CommitBatch batch (advance_events 1 (advance_ids
               (p\<lparr>m_ActiveRequest := Some a, m_RetainedFailure := None\<rparr>)))))"

definition Reject_body :: "PaneRequestDescriptor \<Rightarrow> PaneLifecycleRejected \<Rightarrow> PaneLifecycleProducer
    \<Rightarrow> PaneRequestId outcome \<times> PaneLifecycleProducer" where
  "Reject_body descriptor rejection p =
    (if m_IsExecutingFinishMutation p then ((Inl Logic_Error, False), RejectFinishMutationReentry p)
     else if m_Shutdown p then ((Inl Logic_Error, False), p)
     else if \<not> request_id_capacity 1 p then ((Inl Overflow_Error, False), p)
     else if \<not> event_sequence_capacity (if m_ActiveRequest p \<noteq> None then 2 else 1) p
     then ((Inl Overflow_Error, False), p)
     else let a = \<lparr>active_id = m_NextRequestId p, active_descriptor = descriptor\<rparr>;
              batch = [PrepareEvent a (m_NextEventSequence p) (Lifecycle_Rejected rejection) p]
          in ((Inr (active_id a), True), CommitBatch batch (advance_events 1 (advance_ids p))))"

definition SupersedeAndStart_body :: "PaneRequestDescriptor \<Rightarrow> PaneLifecycleProducer
    \<Rightarrow> PaneRequestId outcome \<times> PaneLifecycleProducer" where
  "SupersedeAndStart_body descriptor p =
    (if m_IsExecutingFinishMutation p then ((Inl Logic_Error, False), RejectFinishMutationReentry p)
     else if m_Shutdown p then ((Inl Logic_Error, False), p)
     else case m_ActiveRequest p of
       None \<Rightarrow> ((Inl Logic_Error, False), p)
     | Some previous \<Rightarrow>
         if \<not> request_id_capacity 1 p then ((Inl Overflow_Error, False), p)
         else if \<not> event_sequence_capacity 3 p then ((Inl Overflow_Error, False), p)
         else let a = \<lparr>active_id = m_NextRequestId p, active_descriptor = descriptor\<rparr>;
                  batch = [PrepareEvent previous (m_NextEventSequence p)
                             (Lifecycle_Superseded (active_id a)) p,
                           PrepareEvent a (m_NextEventSequence p + 1) Lifecycle_Started p]
              in ((Inr (active_id a), True), CommitBatch batch (advance_events 2 (advance_ids
                   (p\<lparr>m_ActiveRequest := Some a, m_RetainedFailure := None\<rparr>)))))"

definition Shutdown_body :: "PaneLifecycleProducer \<Rightarrow> unit outcome \<times> PaneLifecycleProducer" where
  "Shutdown_body p =
    (if m_IsExecutingFinishMutation p then ((Inl Logic_Error, False), RejectFinishMutationReentry p)
     else if m_Shutdown p then ((Inr (), False), p)
     else case m_ActiveRequest p of
       None \<Rightarrow> ((Inr (), False), p\<lparr>m_Shutdown := True\<rparr>)
     | Some cancelled \<Rightarrow>
         if \<not> event_sequence_capacity 1 p then ((Inl Overflow_Error, False), p)
         else let batch = [PrepareEvent cancelled (m_NextEventSequence p)
                             (Lifecycle_Cancelled Cancel_ProducerShutdown) p]
              in ((Inr (), True), CommitBatch batch (advance_events 1
                   (p\<lparr>m_Shutdown := True, m_ActiveRequest := None, m_RetainedFailure := None\<rparr>))))"

definition abandon_pending :: "PaneLifecycleProducer \<Rightarrow> PaneLifecycleProducer" where
  "abandon_pending p = p\<lparr>m_Shutdown := True, m_ActiveRequest := None, m_PendingNotifications := []\<rparr>"

definition shut_down_for_good :: "PaneLifecycleProducer \<Rightarrow> bool \<times> PaneLifecycleProducer" where
  "shut_down_for_good p = (case Shutdown_body p of
     ((Inl _, _), p) \<Rightarrow> (False, abandon_pending p)
   | ((Inr _, drains), p) \<Rightarrow> (drains, p))"

definition ShutdownForDestruction_body :: "PaneLifecycleProducer \<Rightarrow> bool \<times> PaneLifecycleProducer" where
  "ShutdownForDestruction_body p =
    (if m_IsExecutingFinishMutation p
     then (False, p\<lparr>m_MutationViolated := True, m_DestructionRequestedDuringMutation := True\<rparr>)
     else shut_down_for_good p)"

definition CompleteDeferredDestruction_body :: "PaneLifecycleProducer \<Rightarrow> bool \<times> PaneLifecycleProducer" where
  "CompleteDeferredDestruction_body p =
    shut_down_for_good (p\<lparr>m_DestructionRequestedDuringMutation := False\<rparr>)"

definition finish_payload :: "PaneLifecycleFinishPayload \<Rightarrow> PaneLifecycleEventPayload" where
  "finish_payload terminal = (case terminal of
     Finish_Committed generation l \<Rightarrow> Lifecycle_Committed generation l
   | Finish_Failed error \<Rightarrow> Lifecycle_Failed error
   | Finish_Cancelled reason \<Rightarrow> Lifecycle_Cancelled reason)"

definition Finish_publish :: "PaneLifecycleEvent \<Rightarrow> PaneLifecycleProducer \<Rightarrow> PaneLifecycleProducer" where
  "Finish_publish e p = CommitBatch [e] (advance_events 1 (p\<lparr>m_ActiveRequest := None,
     m_RetainedFailure := (case event_payload e of Lifecycle_Failed _ \<Rightarrow> Some e | _ \<Rightarrow> None)\<rparr>))"

definition Finish_abort :: "PaneException \<Rightarrow> PaneLifecycleProducer
    \<Rightarrow> FinishResult outcome \<times> PaneLifecycleProducer" where
  "Finish_abort exn p =
    (let p = p\<lparr>m_MutationViolated := False\<rparr>;
         (drains, p) = (if m_DestructionRequestedDuringMutation p
           then CompleteDeferredDestruction_body p else (False, p))
     in ((Inl exn, drains), p))"

text \<open>
  The mutation changes the model of the pane, which is the second part of the state here. It returns
  whether it threw. It may call the producer, so it gets and returns the object as well.
\<close>

type_synonym 'o mutation = "PaneLifecycleProducer \<times> 'o \<Rightarrow> bool \<times> PaneLifecycleProducer \<times> 'o"

definition Finish_body :: "PaneRequestId \<Rightarrow> PaneLifecycleFinishPayload \<Rightarrow> 'o mutation option
    \<Rightarrow> PaneLifecycleProducer \<times> 'o \<Rightarrow> FinishResult outcome \<times> PaneLifecycleProducer \<times> 'o" where
  "Finish_body i terminal mutation = (\<lambda>(p, obs).
    if m_IsExecutingFinishMutation p
    then ((Inl Logic_Error, False), RejectFinishMutationReentry p, obs)
    else if m_Shutdown p then ((Inr ProducerShutdown, False), p, obs)
    else case m_ActiveRequest p of
      None \<Rightarrow> ((Inr NoActiveRequest, False), p, obs)
    | Some completed \<Rightarrow>
        if active_id completed \<noteq> i then ((Inr StaleRequest, False), p, obs)
        else if \<not> event_sequence_capacity 1 p then ((Inl Overflow_Error, False), p, obs)
        else let e = PrepareEvent completed (m_NextEventSequence p) (finish_payload terminal) p in
          case mutation of
            None \<Rightarrow> ((Inr Published, True), Finish_publish e p, obs)
          | Some mutate \<Rightarrow>
              (case mutate (p\<lparr>m_MutationViolated := False, m_DestructionRequestedDuringMutation := False,
                  m_IsExecutingFinishMutation := True\<rparr>, obs) of
                (threw, p, obs) \<Rightarrow>
                  let p = p\<lparr>m_IsExecutingFinishMutation := False\<rparr> in
                  if threw then (case Finish_abort Mutation_Exception p of (r, p) \<Rightarrow> (r, p, obs))
                  else if m_MutationViolated p
                  then (case Finish_abort Logic_Error p of (r, p) \<Rightarrow> (r, p, obs))
                  else ((Inr Published, True), Finish_publish e p, obs)))"

section \<open>Notifications\<close>

text \<open>The loop over a queue, which both the producer and the store of the pane have.\<close>

partial_function (option) drain_loop ::
  "('w \<Rightarrow> ('e \<times> 'w) option) \<Rightarrow> ('e \<Rightarrow> 'w \<Rightarrow> 'w) \<Rightarrow> 'w \<Rightarrow> 'w option" where
  "drain_loop pop fire w = (case pop w of
     None \<Rightarrow> Some w
   | Some (e, w) \<Rightarrow> drain_loop pop fire (fire e w))"

definition pop_notification :: "PaneLifecycleProducer \<times> 'o
    \<Rightarrow> (PaneLifecycleEvent \<times> PaneLifecycleProducer \<times> 'o) option" where
  "pop_notification = (\<lambda>(p, obs). case m_PendingNotifications p of
     [] \<Rightarrow> None
   | e # es \<Rightarrow> Some (e, p\<lparr>m_ActiveNotification := Some e, m_PendingNotifications := es\<rparr>, obs))"

type_synonym 'o observers = "PaneLifecycleEvent \<Rightarrow> PaneLifecycleProducer \<times> 'o \<Rightarrow> PaneLifecycleProducer \<times> 'o"

definition DrainNotifications :: "'o observers \<Rightarrow> PaneLifecycleProducer \<times> 'o
    \<Rightarrow> (PaneLifecycleProducer \<times> 'o) option" where
  "DrainNotifications fire = (\<lambda>(p, obs).
    if m_IsNotifying p then Some (p, obs)
    else map_option (apfst (\<lambda>p. p\<lparr>m_ActiveNotification := None, m_IsNotifying := False\<rparr>))
      (drain_loop pop_notification fire (p\<lparr>m_IsNotifying := True\<rparr>, obs)))"

definition draining :: "'o observers \<Rightarrow> 'a outcome \<times> PaneLifecycleProducer \<times> 'o
    \<Rightarrow> ((PaneException + 'a) \<times> PaneLifecycleProducer \<times> 'o) option" where
  "draining fire = (\<lambda>((r, drains), w).
    if drains then map_option (Pair r) (DrainNotifications fire w) else Some (r, w))"

definition Start where
  "Start fire descriptor = (\<lambda>(p, obs). case Start_body descriptor p of
     (r, p) \<Rightarrow> draining fire (r, p, obs))"

definition Reject where
  "Reject fire descriptor rejection = (\<lambda>(p, obs). case Reject_body descriptor rejection p of
     (r, p) \<Rightarrow> draining fire (r, p, obs))"

definition SupersedeAndStart where
  "SupersedeAndStart fire descriptor = (\<lambda>(p, obs). case SupersedeAndStart_body descriptor p of
     (r, p) \<Rightarrow> draining fire (r, p, obs))"

definition Finish where
  "Finish fire i terminal mutation w = draining fire (Finish_body i terminal mutation w)"

definition Shutdown where
  "Shutdown fire = (\<lambda>(p, obs). case Shutdown_body p of (r, p) \<Rightarrow> draining fire (r, p, obs))"

definition ShutdownForDestruction where
  "ShutdownForDestruction fire = (\<lambda>(p, obs). case ShutdownForDestruction_body p of
     (drains, p) \<Rightarrow> map_option snd (draining fire ((Inr (), drains), p, obs)))"

section \<open>Observation\<close>

record Subscription =
  seed_request :: "PaneActiveRequest option"
  retained_failure :: "PaneLifecycleEvent option"
  checkpoint_sequence :: u64

definition request_of :: "PaneLifecycleEvent \<Rightarrow> PaneActiveRequest" where
  "request_of e = \<lparr>active_id = event_request_id e, active_descriptor = event_descriptor e\<rparr>"

text \<open>
  The loop over the pending events: \<open>None\<close> when it ends without a return, \<open>Some s\<close> when it returns
  with the seed \<open>s\<close>.
\<close>

fun pending_seed :: "PaneLifecycleEvent list \<Rightarrow> PaneActiveRequest option option" where
  "pending_seed [] = None"
| "pending_seed (e # es) = (case event_payload e of
     Lifecycle_Rejected _ \<Rightarrow> pending_seed es
   | Lifecycle_Started \<Rightarrow> Some None
   | payload \<Rightarrow> if IsPaneLifecycleAcceptedTerminal payload then Some (Some (request_of e))
       else pending_seed es)"

definition Subscribe :: "PaneLifecycleProducer \<Rightarrow> Subscription" where
  "Subscribe p = (case pending_seed (m_PendingNotifications p) of
     Some seed \<Rightarrow> \<lparr>seed_request = seed, retained_failure = None, checkpoint_sequence = 0\<rparr>
   | None \<Rightarrow> (case m_ActiveRequest p of
       Some a \<Rightarrow> \<lparr>seed_request = Some a, retained_failure = None, checkpoint_sequence = 0\<rparr>
     | None \<Rightarrow> (case m_RetainedFailure p of
         None \<Rightarrow> \<lparr>seed_request = None, retained_failure = None, checkpoint_sequence = 0\<rparr>
       | Some f \<Rightarrow> \<lparr>seed_request = Some (request_of f), retained_failure = Some f,
           checkpoint_sequence = (case m_ActiveNotification p of
             Some e \<Rightarrow> event_sequence e | None \<Rightarrow> PreviousEventSequence p)\<rparr>)))"

end
