(* ===== verification/PaneStream.thy ===== *)
theory PaneStream
  imports PaneProducer
begin

text \<open>
  The protocol of the lifecycle events, as an abstract machine over the stream of events, and the proof
  that every call of the producer adds_events the stream by events the machine accepts.

  A \<open>stream\<close> is what an observer knows after the events so far: the number of the next event, the
  next request identity, the request that is active, and the replacement announced by an event of
  supersession. \<open>stream_step\<close> accepts exactly: a start when nothing is active (the announced one,
  if one is announced), one end of the active request, a rejection.
\<close>

section \<open>The protocol\<close>

record stream =
  s_event :: nat
  s_request :: nat
  s_active :: "PaneActiveRequest option"
  s_expected :: "PaneRequestId option"

definition stream_init :: stream where
  "stream_init = \<lparr>s_event = 1, s_request = 1, s_active = None, s_expected = None\<rparr>"

definition stream_payload :: "PaneLifecycleEvent \<Rightarrow> stream \<Rightarrow> stream option" where
  "stream_payload e s = (case event_payload e of
     Lifecycle_Started \<Rightarrow>
       if s_active s = None \<and> (s_expected s = None \<or> s_expected s = Some (event_request_id e))
         \<and> unat (event_request_id e) = s_request s
       then Some (s\<lparr>s_request := s_request s + 1, s_active := Some (request_of e), s_expected := None\<rparr>)
       else None
   | Lifecycle_Rejected _ \<Rightarrow>
       if s_expected s = None \<and> unat (event_request_id e) = s_request s
       then Some (s\<lparr>s_request := s_request s + 1\<rparr>) else None
   | Lifecycle_Superseded replacement \<Rightarrow>
       if s_active s = Some (request_of e) \<and> s_expected s = None
         \<and> unat replacement = s_request s
       then Some (s\<lparr>s_active := None, s_expected := Some replacement\<rparr>) else None
   | _ \<Rightarrow>
       if s_active s = Some (request_of e) \<and> s_expected s = None
       then Some (s\<lparr>s_active := None\<rparr>) else None)"

definition stream_step :: "PaneId \<Rightarrow> PaneLifecycleEvent \<Rightarrow> stream \<Rightarrow> stream option" where
  "stream_step pane e s =
    (if event_pane_id e = pane \<and> unat (event_sequence e) = s_event s
     then stream_payload e (s\<lparr>s_event := s_event s + 1\<rparr>) else None)"

fun replay :: "PaneId \<Rightarrow> PaneLifecycleEvent list \<Rightarrow> stream \<Rightarrow> stream option" where
  "replay pane [] s = Some s"
| "replay pane (e # es) s = Option.bind (stream_step pane e s) (replay pane es)"

lemma replay_append:
  "replay pane (es @ fs) s = Option.bind (replay pane es s) (replay pane fs)"
  by (induction es arbitrary: s) (auto split: bind_splits)

text \<open>Identities and numbers are at least one, and an identity is given out before it is used.\<close>

definition stream_ok :: "stream \<Rightarrow> bool" where
  "stream_ok s \<longleftrightarrow> 0 < s_event s \<and> 0 < s_request s
     \<and> (case s_active s of None \<Rightarrow> True | Some a \<Rightarrow> active_id a \<noteq> 0 \<and> unat (active_id a) < s_request s)"

lemma stream_init_ok [simp]: "stream_ok stream_init"
  by (simp add: stream_ok_def stream_init_def)

lemma stream_step_event:
  "stream_step pane e s = Some t \<Longrightarrow> s_event t = s_event s + 1 \<and> s_event s = unat (event_sequence e)
     \<and> event_pane_id e = pane"
  by (auto simp: stream_step_def stream_payload_def split: if_splits PaneLifecycleEventPayload.splits)

lemma stream_step_ok: "stream_step pane e s = Some t \<Longrightarrow> stream_ok s \<Longrightarrow> stream_ok t"
  by (auto simp: stream_step_def stream_payload_def stream_ok_def request_of_def
    split: if_splits PaneLifecycleEventPayload.splits)

lemma unat_u64: "unat (w :: u64) < 2 ^ 64"
  using unsigned_less [of w] by simp

lemma stream_step_bound: "stream_step pane e s = Some t \<Longrightarrow> s_event t \<le> 2 ^ 64"
  using unat_u64 [of "event_sequence e"] by (auto dest!: stream_step_event)

section \<open>Counters\<close>

text \<open>A counter as a natural number: one more than the maximum when it is used up.\<close>

definition counter :: "u64 \<Rightarrow> u64 \<Rightarrow> nat" where
  "counter n maximum = (if n = 0 then unat maximum + 1 else unat n)"

definition counter_ok :: "u64 \<Rightarrow> u64 \<Rightarrow> bool" where
  "counter_ok n maximum \<longleftrightarrow> maximum \<noteq> 0 \<and> n \<le> maximum"

lemma has_capacity_iff:
  assumes "counter_ok n maximum" "count \<noteq> 0"
  shows "has_capacity n maximum count \<longleftrightarrow> counter n maximum + unat count \<le> unat maximum + 1"
proof (cases "n = 0")
  case True
  then show ?thesis using assms by (auto simp: has_capacity_def counter_def unat_gt_0)
next
  case False
  have le: "n \<le> maximum" using assms by (simp add: counter_ok_def)
  have "unat (maximum - n + 1) = unat maximum - unat n + 1"
  proof -
    have u: "unat (maximum - n) = unat maximum - unat n" using le by (rule unat_sub)
    have "unat n \<noteq> 0" using False by (simp add: unat_0_iff)
    then have "unat (maximum - n) + 1 < 2 ^ 64" using u unat_u64 [of maximum] le
      by (simp add: word_le_nat_alt)
    then show ?thesis using u by (simp add: unat_word_ariths)
  qed
  moreover have "unat n \<le> unat maximum" using le by (simp add: word_le_nat_alt)
  ultimately show ?thesis using False le
    by (auto simp: has_capacity_def counter_def word_less_nat_alt word_le_nat_alt)
qed

lemma AdvanceCounter_counter:
  assumes "counter_ok n maximum" "count \<noteq> 0" "has_capacity n maximum count"
  shows "counter (AdvanceCounter n maximum count) maximum = counter n maximum + unat count"
    "counter_ok (AdvanceCounter n maximum count) maximum"
proof -
  have le: "n \<le> maximum" and m: "maximum \<noteq> 0" using assms by (auto simp: counter_ok_def)
  have n: "n \<noteq> 0" "unat n + unat count \<le> unat maximum + 1" "unat n \<le> unat maximum"
    using assms has_capacity_iff [OF assms(1,2)] le
    by (auto simp: has_capacity_def counter_def word_le_nat_alt)
  have u: "unat (maximum - n) = unat maximum - unat n" using le by (rule unat_sub)
  have n0: "unat n \<noteq> 0" using n(1) by (simp add: unat_0_iff)
  have b: "unat (maximum - n) + 1 < 2 ^ 64" using u n0 unat_u64 [of maximum] n(3) by simp
  have u1: "unat (maximum - n + 1) = unat maximum - unat n + 1" using u b by (simp add: unat_word_ariths)
  have last_iff: "count = maximum - n + 1 \<longleftrightarrow> unat n + unat count = unat maximum + 1"
    using u1 n by (auto simp: word_unat_eq_iff)
  show "counter (AdvanceCounter n maximum count) maximum = counter n maximum + unat count"
    and "counter_ok (AdvanceCounter n maximum count) maximum"
  proof (atomize (full), cases "count = maximum - n + 1")
    case True
    then show "counter (AdvanceCounter n maximum count) maximum = counter n maximum + unat count
      \<and> counter_ok (AdvanceCounter n maximum count) maximum"
      using last_iff n m by (auto simp: AdvanceCounter_def counter_def counter_ok_def)
  next
    case False
    then have lt: "unat n + unat count \<le> unat maximum" using last_iff n by linarith
    then have s: "unat (n + count) = unat n + unat count"
      using unat_u64 [of maximum] by (simp add: unat_word_ariths)
    then have "n + count \<noteq> 0" using n0 by (metis add_is_0 unat_0)
    then show "counter (AdvanceCounter n maximum count) maximum = counter n maximum + unat count
      \<and> counter_ok (AdvanceCounter n maximum count) maximum"
      using False s lt n m by (auto simp: AdvanceCounter_def counter_def counter_ok_def word_le_nat_alt)
  qed
qed

end
