(* ===== verification/PaneCalls.thy ===== *)
theory PaneCalls
  imports PaneStream
begin

text \<open>
  The invariant of the producer, and what every call adds to the stream. \<open>producer_at s p\<close> says that
  the events still pending lead from \<open>s\<close>, where the observers are, to \<open>producer_now p\<close>, where the
  producer is. \<open>adds_events p p' batch\<close> is the contract that every call keeps: it adds a batch the
  protocol accepts, and keeps one number back for the end of an active request.
\<close>

section \<open>Invariant\<close>

definition producer_now :: "PaneLifecycleProducer \<Rightarrow> stream" where
  "producer_now p = \<lparr>s_event = counter (m_NextEventSequence p) (maximum_event_sequence p),
     s_request = counter (m_NextRequestId p) (maximum_request_id p),
     s_active = m_ActiveRequest p, s_expected = None\<rparr>"

definition retained_ok :: "PaneLifecycleProducer \<Rightarrow> bool" where
  "retained_ok p = (case m_RetainedFailure p of
     None \<Rightarrow> True
   | Some f \<Rightarrow> m_ActiveRequest p = None \<and> (\<exists>error. event_payload f = Lifecycle_Failed error)
       \<and> event_pane_id f = pr_PaneId p \<and> event_request_id f \<noteq> 0 \<and> event_sequence f \<noteq> 0)"

definition producer_ok :: "PaneLifecycleProducer \<Rightarrow> bool" where
  "producer_ok p \<longleftrightarrow> counter_ok (m_NextEventSequence p) (maximum_event_sequence p)
     \<and> counter_ok (m_NextRequestId p) (maximum_request_id p) \<and> stream_ok (producer_now p)
     \<and> (m_ActiveRequest p \<noteq> None \<longrightarrow> event_sequence_capacity 1 p \<and> \<not> m_Shutdown p)
     \<and> retained_ok p \<and> \<not> m_IsExecutingFinishMutation p"

definition producer_at :: "stream \<Rightarrow> PaneLifecycleProducer \<Rightarrow> bool" where
  "producer_at s p \<longleftrightarrow> producer_ok p \<and> stream_ok s
     \<and> replay (pr_PaneId p) (m_PendingNotifications p) s = Some (producer_now p)
     \<and> (\<forall>f. m_RetainedFailure p = Some f \<longrightarrow>
          f \<in> set (m_PendingNotifications p) \<or> unat (event_sequence f) < s_event s)"

definition idle_at :: "stream \<Rightarrow> PaneLifecycleProducer \<Rightarrow> bool" where
  "idle_at s p \<longleftrightarrow> producer_at s p \<and> m_PendingNotifications p = [] \<and> m_ActiveNotification p = None
     \<and> \<not> m_IsNotifying p"

definition notifying_at :: "stream \<Rightarrow> PaneLifecycleProducer \<Rightarrow> bool" where
  "notifying_at s p \<longleftrightarrow> producer_at s p \<and> m_IsNotifying p
     \<and> (\<exists>e. m_ActiveNotification p = Some e \<and> unat (event_sequence e) + 1 = s_event s)"

definition same_mode :: "PaneLifecycleProducer \<Rightarrow> PaneLifecycleProducer \<Rightarrow> bool" where
  "same_mode p q \<longleftrightarrow> pr_PaneId q = pr_PaneId p \<and> m_IsNotifying q = m_IsNotifying p
     \<and> m_ActiveNotification q = m_ActiveNotification p"

definition adds_events :: "PaneLifecycleProducer \<Rightarrow> PaneLifecycleProducer \<Rightarrow> PaneLifecycleEvent list \<Rightarrow> bool" where
  "adds_events p q batch \<longleftrightarrow> same_mode p q \<and> producer_ok q
     \<and> m_PendingNotifications q = m_PendingNotifications p @ batch
     \<and> replay (pr_PaneId p) batch (producer_now p) = Some (producer_now q)
     \<and> (\<forall>f. m_RetainedFailure q = Some f \<longrightarrow> m_RetainedFailure p = Some f \<or> f \<in> set batch)"

lemma adds_nothing: "producer_ok p \<Longrightarrow> adds_events p p []"
  by (simp add: adds_events_def same_mode_def)

lemma adds_at: "producer_at s p \<Longrightarrow> adds_events p q batch \<Longrightarrow> producer_at s q"
  by (auto simp: producer_at_def adds_events_def replay_append same_mode_def)

lemma adds_mode: "adds_events p q batch \<Longrightarrow> same_mode p q"
  by (simp add: adds_events_def)

lemma notifying_extends: "notifying_at s p \<Longrightarrow> adds_events p q batch \<Longrightarrow> notifying_at s q"
  using adds_at [of s p q batch] by (auto simp: notifying_at_def adds_events_def same_mode_def)

lemma idle_extends: "idle_at s p \<Longrightarrow> adds_events p q [] \<Longrightarrow> idle_at s q"
  using adds_at [of s p q "[]"] by (auto simp: idle_at_def adds_events_def same_mode_def)

section \<open>Calls\<close>

lemma counter_one [simp]: "counter_ok n m \<Longrightarrow> has_capacity n m 1 \<Longrightarrow>
    counter (AdvanceCounter n m 1) m = counter n m + 1 \<and> counter_ok (AdvanceCounter n m 1) m"
  using AdvanceCounter_counter [of n m 1] by simp

lemma counter_two: "counter_ok n m \<Longrightarrow> has_capacity n m 2 \<Longrightarrow>
    counter (AdvanceCounter n m 2) m = counter n m + 2 \<and> counter_ok (AdvanceCounter n m 2) m"
  using AdvanceCounter_counter [of n m 2] by simp

lemma has_capacity_less:
  "counter_ok n m \<Longrightarrow> has_capacity n m c \<Longrightarrow> d \<noteq> 0 \<Longrightarrow> d \<le> c \<Longrightarrow> has_capacity n m d"
  using has_capacity_iff [of n m c] has_capacity_iff [of n m d]
  by (cases "c = 0") (simp, simp add: word_le_nat_alt)

lemma has_capacity_advance:
  assumes "counter_ok n m" "has_capacity n m (c + d)" "c \<noteq> 0" "d \<noteq> 0" "unat (c + d) = unat c + unat d"
  shows "has_capacity (AdvanceCounter n m c) m d"
proof -
  have "c + d \<noteq> 0" using assms(3,5) by (metis add_is_0 unat_0 unat_0_iff)
  moreover have "c \<le> c + d" using assms(5) by (simp add: word_le_nat_alt)
  ultimately have "has_capacity n m c" using has_capacity_less assms(1-3) by blast
  from AdvanceCounter_counter [OF assms(1,3) this]
  show ?thesis using has_capacity_iff [OF assms(1) \<open>c + d \<noteq> 0\<close>] assms(2,4,5)
      has_capacity_iff [of "AdvanceCounter n m c" m d] by simp
qed

text \<open>The number about to be given out is the counter as long as there is room.\<close>

lemma counter_capacity: "has_capacity n m c \<Longrightarrow> counter n m = unat n \<and> n \<noteq> 0"
  by (simp add: has_capacity_def counter_def)

lemma producer_okD:
  assumes "producer_ok p"
  shows "counter_ok (m_NextEventSequence p) (maximum_event_sequence p)"
    "counter_ok (m_NextRequestId p) (maximum_request_id p)"
    "\<not> m_IsExecutingFinishMutation p" "retained_ok p"
    "m_ActiveRequest p = Some a \<Longrightarrow> event_sequence_capacity 1 p \<and> \<not> m_Shutdown p
       \<and> active_id a \<noteq> 0 \<and> unat (active_id a) < counter (m_NextRequestId p) (maximum_request_id p)"
  using assms by (auto simp: producer_ok_def stream_ok_def producer_now_def)

lemmas capacity_defs = request_id_capacity_def event_sequence_capacity_def

lemmas call_defs = CommitBatch_def advance_ids_def advance_events_def PrepareEvent_def Let_def

lemmas stream_defs = adds_events_def same_mode_def producer_ok_def producer_now_def retained_ok_def
  stream_step_def stream_payload_def stream_ok_def request_of_def

lemma Start_extends:
  assumes ok: "producer_ok p" and r: "Start_body d p = ((r, drains), q)"
  shows "\<exists>batch. adds_events p q batch \<and> (\<not> drains \<longrightarrow> batch = [])"
proof (cases "m_Shutdown p \<or> m_ActiveRequest p \<noteq> None \<or> \<not> request_id_capacity 1 p
    \<or> \<not> event_sequence_capacity 2 p")
  case True
  then show ?thesis using r adds_nothing [OF ok] producer_okD(3) [OF ok]
    by (auto simp: Start_body_def split: if_splits)
next
  case False
  note ok' = producer_okD [OF ok]
  have c: "has_capacity (m_NextRequestId p) (maximum_request_id p) 1"
    "has_capacity (m_NextEventSequence p) (maximum_event_sequence p) 2"
    using False by (auto simp: capacity_defs)
  have c1: "has_capacity (m_NextEventSequence p) (maximum_event_sequence p) 1"
    using has_capacity_less [OF ok'(1) c(2), of 1] by simp
  have c2: "has_capacity (AdvanceCounter (m_NextEventSequence p) (maximum_event_sequence p) 1)
      (maximum_event_sequence p) 1"
    using has_capacity_advance [OF ok'(1), of 1 1] c(2) by simp
  let ?a = "\<lparr>active_id = m_NextRequestId p, active_descriptor = d\<rparr>"
  let ?batch = "[PrepareEvent ?a (m_NextEventSequence p) Lifecycle_Started p]"
  have q: "q = CommitBatch ?batch (advance_events 1 (advance_ids
      (p\<lparr>m_ActiveRequest := Some ?a, m_RetainedFailure := None\<rparr>)))" and "drains"
    using r False ok'(3) by (auto simp: Start_body_def Let_def)
  have "adds_events p q ?batch"
    using ok' False c c1 c2 counter_one [OF ok'(1) c1] counter_one [OF ok'(2) c(1)]
      counter_capacity [OF c1] counter_capacity [OF c(1)]
    by (simp add: q call_defs stream_defs capacity_defs)
  with \<open>drains\<close> show ?thesis by blast
qed

lemma Reject_extends:
  assumes ok: "producer_ok p" and r: "Reject_body d rejection p = ((r, drains), q)"
  shows "\<exists>batch. adds_events p q batch \<and> (\<not> drains \<longrightarrow> batch = [])"
proof (cases "m_Shutdown p \<or> \<not> request_id_capacity 1 p
    \<or> \<not> event_sequence_capacity (if m_ActiveRequest p \<noteq> None then 2 else 1) p")
  case True
  then show ?thesis using r adds_nothing [OF ok] producer_okD(3) [OF ok]
    by (auto simp: Reject_body_def split: if_splits)
next
  case False
  note ok' = producer_okD [OF ok]
  let ?n = "m_NextEventSequence p" and ?m = "maximum_event_sequence p"
  have c: "has_capacity (m_NextRequestId p) (maximum_request_id p) 1"
    using False by (auto simp: capacity_defs)
  have c1: "has_capacity ?n ?m 1"
    using False has_capacity_less [OF ok'(1), of 2 1] by (auto simp: capacity_defs split: if_splits)
  have c2: "m_ActiveRequest p \<noteq> None \<Longrightarrow> has_capacity (AdvanceCounter ?n ?m 1) ?m 1"
    using has_capacity_advance [OF ok'(1), of 1 1] False by (auto simp: capacity_defs)
  let ?a = "\<lparr>active_id = m_NextRequestId p, active_descriptor = d\<rparr>"
  let ?batch = "[PrepareEvent ?a ?n (Lifecycle_Rejected rejection) p]"
  have q: "q = CommitBatch ?batch (advance_events 1 (advance_ids p))" and "drains"
    using r False ok'(3) by (auto simp: Reject_body_def Let_def)
  have "adds_events p q ?batch"
    using ok' c1 c2 counter_one [OF ok'(1) c1] counter_one [OF ok'(2) c]
      counter_capacity [OF c1] counter_capacity [OF c]
    by (auto simp: q call_defs stream_defs capacity_defs split: option.splits)
  with \<open>drains\<close> show ?thesis by blast
qed

lemma Supersede_extends:
  assumes ok: "producer_ok p" and r: "SupersedeAndStart_body d p = ((r, drains), q)"
  shows "\<exists>batch. adds_events p q batch \<and> (\<not> drains \<longrightarrow> batch = [])"
proof (cases "m_Shutdown p \<or> m_ActiveRequest p = None \<or> \<not> request_id_capacity 1 p
    \<or> \<not> event_sequence_capacity 3 p")
  case True
  then show ?thesis using r adds_nothing [OF ok] producer_okD(3) [OF ok]
    by (auto simp: SupersedeAndStart_body_def split: if_splits option.splits)
next
  case False
  then obtain previous where prev: "m_ActiveRequest p = Some previous" by auto
  note ok' = producer_okD [OF ok]
  let ?n = "m_NextEventSequence p" and ?m = "maximum_event_sequence p"
  have c: "has_capacity (m_NextRequestId p) (maximum_request_id p) 1" "has_capacity ?n ?m 3"
    using False by (auto simp: capacity_defs)
  have c2: "has_capacity ?n ?m 2" using has_capacity_less [OF ok'(1) c(2), of 2] by simp
  have c3: "has_capacity (AdvanceCounter ?n ?m 2) ?m 1"
    using has_capacity_advance [OF ok'(1), of 2 1] c(2) by simp
  have "counter ?n ?m + 2 \<le> unat ?m + 1" using has_capacity_iff [OF ok'(1), of 2] c2 by simp
  then have n1: "unat (?n + 1) = counter ?n ?m + 1"
    using counter_capacity [OF c2] unat_u64 [of ?m] by (simp add: unat_word_ariths)
  let ?a = "\<lparr>active_id = m_NextRequestId p, active_descriptor = d\<rparr>"
  let ?batch = "[PrepareEvent previous ?n (Lifecycle_Superseded (active_id ?a)) p,
    PrepareEvent ?a (?n + 1) Lifecycle_Started p]"
  have q: "q = CommitBatch ?batch (advance_events 2 (advance_ids
      (p\<lparr>m_ActiveRequest := Some ?a, m_RetainedFailure := None\<rparr>)))" and "drains"
    using r False prev ok'(3) by (auto simp: SupersedeAndStart_body_def Let_def)
  have "adds_events p q ?batch"
    using ok' prev False c3 counter_two [OF ok'(1) c2] counter_one [OF ok'(2) c(1)]
      counter_capacity [OF c2] counter_capacity [OF c(1)] n1
    by (simp add: q call_defs stream_defs capacity_defs)
  with \<open>drains\<close> show ?thesis by blast
qed

text \<open>The end of an active request, by \<open>Finish\<close> or by \<open>Shutdown\<close>: the number is there.\<close>

lemma ended_extends:
  assumes ok: "producer_ok p" and a: "m_ActiveRequest p = Some a"
    and payload: "payload = finish_payload terminal"
    and e: "e = PrepareEvent a (m_NextEventSequence p) payload p"
    and q: "q = CommitBatch [e] (advance_events 1 (p\<lparr>m_Shutdown := down, m_ActiveRequest := None,
      m_RetainedFailure := retained\<rparr>))"
    and retained: "retained = None \<or> retained = Some e \<and> (\<exists>error. payload = Lifecycle_Failed error)"
  shows "adds_events p q [e]"
proof -
  note ok' = producer_okD [OF ok]
  have c: "has_capacity (m_NextEventSequence p) (maximum_event_sequence p) 1"
    using ok'(5) [OF a] by (simp add: capacity_defs)
  show ?thesis
    using ok'(1-3) ok'(5) [OF a] a retained counter_one [OF ok'(1) c] counter_capacity [OF c] ok
    by (cases terminal)
      (auto simp: q e payload call_defs stream_defs capacity_defs finish_payload_def
        split: option.splits)
qed

lemma Shutdown_extends:
  assumes ok: "producer_ok p" and r: "Shutdown_body p = ((r, drains), q)"
  shows "r = Inr ()" "\<exists>batch. adds_events p q batch \<and> (\<not> drains \<longrightarrow> batch = [])" "m_Shutdown q"
proof -
  note ok' = producer_okD [OF ok]
  have "r = Inr () \<and> (\<exists>batch. adds_events p q batch \<and> (\<not> drains \<longrightarrow> batch = [])) \<and> m_Shutdown q"
  proof (cases "m_Shutdown p")
    case True
    then show ?thesis using r adds_nothing [OF ok] ok'(3)
      by (auto simp: Shutdown_body_def split: if_splits)
  next
    case run: False
    show ?thesis
    proof (cases "m_ActiveRequest p")
      case None
      then have "adds_events p q []" using r run ok'(3) ok
        by (auto simp: Shutdown_body_def stream_defs split: option.splits)
      then show ?thesis using r run None ok'(3)
        by (auto simp: Shutdown_body_def intro!: exI [of _ "[]"])
    next
      case (Some a)
      with r run ok'(3) ok'(5) [OF Some]
      have "r = Inr ()" "drains" and q: "q = CommitBatch [PrepareEvent a (m_NextEventSequence p)
          (Lifecycle_Cancelled Cancel_ProducerShutdown) p] (advance_events 1
          (p\<lparr>m_Shutdown := True, m_ActiveRequest := None, m_RetainedFailure := None\<rparr>))"
        by (auto simp: Shutdown_body_def Let_def)
      moreover have "m_Shutdown q" by (simp add: q call_defs)
      ultimately show ?thesis
        using ended_extends [OF ok Some, of _ "Finish_Cancelled Cancel_ProducerShutdown", OF _ refl q]
        by (auto simp: finish_payload_def)
    qed
  qed
  then show "r = Inr ()" "\<exists>batch. adds_events p q batch \<and> (\<not> drains \<longrightarrow> batch = [])" "m_Shutdown q"
    by auto
qed

text \<open>So the destructor never has to fall back on dropping what is pending.\<close>

lemma shut_down_extends:
  assumes ok: "producer_ok p" and r: "shut_down_for_good p = (drains, q)"
  shows "\<exists>batch. adds_events p q batch \<and> (\<not> drains \<longrightarrow> batch = [])"
proof -
  obtain x d q' where s: "Shutdown_body p = ((x, d), q')" by (cases "Shutdown_body p") auto
  from Shutdown_extends [OF ok s] r s show ?thesis by (auto simp: shut_down_for_good_def)
qed

section \<open>Calls from inside a mutation\<close>

text \<open>
  What a mutation may do to the producer: call it, and drop the last reference to it, in any order and
  any number. The queries need no rule, and a \<open>Finish\<close> there throws before it would look at what it
  is to mutate. While a mutation runs every such call sets the flag that says so.
\<close>

inductive mutation_call :: "PaneLifecycleProducer \<Rightarrow> PaneLifecycleProducer \<Rightarrow> bool" where
  start: "Start_body d p = (r, q) \<Longrightarrow> mutation_call p q"
| reject: "Reject_body d rejection p = (r, q) \<Longrightarrow> mutation_call p q"
| supersede: "SupersedeAndStart_body d p = (r, q) \<Longrightarrow> mutation_call p q"
| finish: "Finish_body i terminal mutation (p, ()) = (r, q, ()) \<Longrightarrow> mutation_call p q"
| shutdown: "Shutdown_body p = (r, q) \<Longrightarrow> mutation_call p q"
| destroy: "ShutdownForDestruction_body p = (r, q) \<Longrightarrow> mutation_call p q"

definition flagged :: "bool \<Rightarrow> bool \<Rightarrow> PaneLifecycleProducer \<Rightarrow> PaneLifecycleProducer" where
  "flagged v d p = p\<lparr>m_MutationViolated := v, m_DestructionRequestedDuringMutation := d\<rparr>"

lemma flagged_simps [simp]:
  "m_IsExecutingFinishMutation (flagged v d p) = m_IsExecutingFinishMutation p"
  "RejectFinishMutationReentry (flagged v d p) = flagged True d p"
  "(flagged v d p)\<lparr>m_MutationViolated := True, m_DestructionRequestedDuringMutation := True\<rparr> = flagged True True p"
  by (simp_all add: flagged_def RejectFinishMutationReentry_def)

lemma producer_ok_flagged [simp]: "producer_ok (flagged v d p) = producer_ok p"
  by (auto simp: flagged_def stream_defs capacity_defs split: option.splits)

lemma flagged_same: "flagged (m_MutationViolated p) (m_DestructionRequestedDuringMutation p) p = p"
  by (simp add: flagged_def)

lemma flagged_flagged [simp]: "flagged v d (flagged v' d' p) = flagged v d p"
  by (simp add: flagged_def)

lemma mutation_call_flagged:
  assumes "mutation_call p q" "m_IsExecutingFinishMutation p"
  shows "\<exists>d. q = flagged True d p"
proof -
  have reject: "RejectFinishMutationReentry p = flagged True (m_DestructionRequestedDuringMutation p) p"
    by (simp add: RejectFinishMutationReentry_def flagged_def)
  have destroy: "p\<lparr>m_MutationViolated := True, m_DestructionRequestedDuringMutation := True\<rparr>
      = flagged True True p" by (simp add: flagged_def)
  from assms show ?thesis
    by cases (auto simp: Start_body_def Reject_body_def SupersedeAndStart_body_def Finish_body_def
      Shutdown_body_def ShutdownForDestruction_body_def reject destroy)
qed

lemma mutation_calls_flagged:
  "mutation_call\<^sup>*\<^sup>* p q \<Longrightarrow> m_IsExecutingFinishMutation p \<Longrightarrow> \<exists>v d. q = flagged v d p"
proof (induction rule: rtranclp_induct)
  case base
  then show ?case using flagged_same [of p] by metis
next
  case (step q r)
  then obtain v d where q: "q = flagged v d p" by blast
  with mutation_call_flagged [OF step.hyps(2)] step.prems show ?case by auto
qed

text \<open>Once it has called the producer, the flag stays.\<close>

lemma mutation_called_flagged:
  "mutation_call\<^sup>+\<^sup>+ p q \<Longrightarrow> m_IsExecutingFinishMutation p \<Longrightarrow> \<exists>d. q = flagged True d p"
proof (induction rule: tranclp_induct)
  case (base q)
  then show ?case by (rule mutation_call_flagged)
next
  case (step q r)
  then obtain d where q: "q = flagged True d p" by blast
  with mutation_call_flagged [OF step.hyps(2)] step.prems show ?case by auto
qed

definition mutation_ok :: "'o mutation \<Rightarrow> bool" where
  "mutation_ok mutate \<longleftrightarrow> (\<forall>p obs threw q obs'. m_IsExecutingFinishMutation p \<longrightarrow>
     mutate (p, obs) = (threw, q, obs') \<longrightarrow> mutation_call\<^sup>*\<^sup>* p q)"

lemma Finish_extends:
  assumes ok: "producer_ok p" and mu: "\<forall>mutate. mutation = Some mutate \<longrightarrow> mutation_ok mutate"
    and r: "Finish_body i terminal mutation (p, obs) = ((r, drains), q, obs')"
  shows "\<exists>batch. adds_events p q batch \<and> (\<not> drains \<longrightarrow> batch = [])"
proof (cases "m_Shutdown p \<or> m_ActiveRequest p = None \<or> active_id (the (m_ActiveRequest p)) \<noteq> i")
  case True
  then show ?thesis using r adds_nothing [OF ok] producer_okD(3) [OF ok]
    by (auto simp: Finish_body_def split: if_splits option.splits)
next
  case False
  then obtain a where a: "m_ActiveRequest p = Some a" "active_id a = i" "\<not> m_Shutdown p" by auto
  note ok' = producer_okD [OF ok]
  define e where "e = PrepareEvent a (m_NextEventSequence p) (finish_payload terminal) p"
  have cap: "event_sequence_capacity 1 p" using ok'(5) [OF a(1)] by simp
  have publish: "adds_events p (Finish_publish e (flagged v d p)) [e]" for v d
  proof -
    let ?p = "flagged v d p"
    have p: "producer_ok ?p" "m_ActiveRequest ?p = Some a" using ok a by (simp_all, simp add: flagged_def)
    have e: "e = PrepareEvent a (m_NextEventSequence ?p) (finish_payload terminal) ?p"
      by (simp add: e_def PrepareEvent_def flagged_def)
    have q: "Finish_publish e ?p = CommitBatch [e] (advance_events 1 (?p\<lparr>m_Shutdown := False,
        m_ActiveRequest := None, m_RetainedFailure :=
          (case event_payload e of Lifecycle_Failed _ \<Rightarrow> Some e | _ \<Rightarrow> None)\<rparr>))"
      using a(3) by (cases p) (simp add: Finish_publish_def flagged_def)
    have "adds_events ?p (Finish_publish e ?p) [e]"
      by (rule ended_extends [OF p refl e q])
        (auto simp: e_def PrepareEvent_def split: PaneLifecycleEventPayload.splits)
    then show ?thesis by (simp add: adds_events_def same_mode_def producer_now_def flagged_def)
  qed
  have same: "flagged (m_MutationViolated p) (m_DestructionRequestedDuringMutation p) p = p"
    by (rule flagged_same)
  show ?thesis
  proof (cases mutation)
    case None
    then have "q = Finish_publish e p" "drains"
      using r a ok'(3) cap by (auto simp: Finish_body_def e_def Let_def)
    then show ?thesis
      using publish [of "m_MutationViolated p" "m_DestructionRequestedDuringMutation p"]
      by (auto simp: same)
  next
    case (Some mutate)
    let ?p = "p\<lparr>m_MutationViolated := False, m_DestructionRequestedDuringMutation := False,
      m_IsExecutingFinishMutation := True\<rparr>"
    obtain threw p' o' where m: "mutate (?p, obs) = (threw, p', o')" by (cases "mutate (?p, obs)") auto
    have "m_IsExecutingFinishMutation ?p" by simp
    then obtain v d where p': "p' = flagged v d ?p"
      using mu Some m mutation_calls_flagged unfolding mutation_ok_def by blast
    let ?q = "flagged v d p"
    have q': "p'\<lparr>m_IsExecutingFinishMutation := False\<rparr> = ?q"
      using ok'(3) by (simp add: p' flagged_def)
    have abort: "\<exists>batch. adds_events p q batch \<and> (\<not> drains \<longrightarrow> batch = [])"
      if "Finish_abort exn ?q = ((r, drains), q)" for exn
    proof (cases d)
      case True
      let ?s = "flagged False False p"
      have "producer_ok ?s" using ok by simp
      moreover have "shut_down_for_good ?s = (drains, q)"
        using that True by (auto simp: Finish_abort_def CompleteDeferredDestruction_body_def Let_def
          flagged_def split: prod.splits)
      ultimately obtain batch where "adds_events ?s q batch" "\<not> drains \<longrightarrow> batch = []"
        using shut_down_extends by blast
      then show ?thesis
        by (auto simp: adds_events_def same_mode_def producer_now_def flagged_def)
    next
      case False
      then have q: "q = flagged False False p"
        using that by (auto simp: Finish_abort_def Let_def flagged_def)
      have "producer_ok q" using ok by (simp add: q)
      then have "adds_events p q []" by (simp add: q adds_events_def same_mode_def producer_now_def flagged_def)
      then show ?thesis by blast
    qed
    have "Finish_body i terminal mutation (p, obs) =
        (if threw then (case Finish_abort Mutation_Exception ?q of (r, p) \<Rightarrow> (r, p, o'))
         else if v then (case Finish_abort Logic_Error ?q of (r, p) \<Rightarrow> (r, p, o'))
         else ((Inr Published, True), Finish_publish e ?q, o'))"
      using a ok'(3) cap Some m q' by (simp add: Finish_body_def e_def Let_def flagged_def)
    with r abort publish [of v d] show ?thesis
      by (auto split: if_splits prod.splits)
  qed
qed

end
