(* ===== verification/PaneReducer.thy ===== *)
theory PaneReducer
  imports PaneState
begin

text \<open>
  \<open>PaneLifecycleReducer.cpp\<close>: the reducer that lays the lifecycle of a pane over the projections of
  its model.

  The object is \<open>PaneLifecycleReducer\<close>, what it owns \<open>OwnedState\<close>. A candidate is prepared and
  published by one assignment, which is the update of \<open>m_Owned\<close> in \<open>Reducer_Commit\<close>.
\<close>

section \<open>Committed projections\<close>

definition IsValidSortState :: "PaneSortState \<Rightarrow> PaneLoadPhase \<Rightarrow> bool" where
  "IsValidSortState s phase =
    ((case sort_collation s of
        Collation_Unknown \<Rightarrow> phase \<noteq> Phase_Loaded
      | Collation_Invalid \<Rightarrow> False
      | _ \<Rightarrow> True)
     \<and> (case sort_key s of
        SortKey_Unknown \<Rightarrow> phase \<noteq> Phase_Loaded \<and> sort_direction s = Sort_None
      | SortKey_Unsorted \<Rightarrow> sort_direction s = Sort_None
      | SortKey_RawName \<Rightarrow> sort_direction s = Sort_Ascending
      | SortKey_Invalid \<Rightarrow> False
      | _ \<Rightarrow> sort_direction s = Sort_Ascending \<or> sort_direction s = Sort_Descending))"

definition GroupingKeyForSort :: "PaneSortKey \<Rightarrow> PaneGroupingKey" where
  "GroupingKeyForSort key = (case key of
     SortKey_Unsorted \<Rightarrow> GroupKey_Name
   | SortKey_RawName \<Rightarrow> GroupKey_Name
   | SortKey_Name \<Rightarrow> GroupKey_Name
   | SortKey_Extension \<Rightarrow> GroupKey_Extension
   | SortKey_Size \<Rightarrow> GroupKey_Size
   | SortKey_ModifiedTime \<Rightarrow> GroupKey_ModifiedTime
   | SortKey_CreatedTime \<Rightarrow> GroupKey_CreatedTime
   | SortKey_AddedTime \<Rightarrow> GroupKey_AddedTime
   | SortKey_AccessedTime \<Rightarrow> GroupKey_AccessedTime
   | SortKey_Unknown \<Rightarrow> GroupKey_Unknown
   | SortKey_Invalid \<Rightarrow> GroupKey_Unknown)"

definition IsValidGroupingState :: "PaneSortState \<Rightarrow> PaneGroupingState \<Rightarrow> bool" where
  "IsValidGroupingState s g =
    (if \<not> grouping_enabled g then grouping_key g = GroupKey_Unknown
     else GroupingKeyForSort (sort_key s) \<noteq> GroupKey_Unknown
       \<and> grouping_key g = GroupingKeyForSort (sort_key s))"

definition IsValidViewState :: "PaneViewState \<Rightarrow> PaneLoadPhase \<Rightarrow> bool" where
  "IsValidViewState v phase =
    ((case layout_index v of Some i \<Rightarrow> 0 \<le> i | None \<Rightarrow> True)
     \<and> (case view_mode v of
          View_Unknown \<Rightarrow> phase \<noteq> Phase_Loaded \<and> layout_index v = None
        | View_Invalid \<Rightarrow> False
        | _ \<Rightarrow> True))"

definition IsValidHistoryState :: "PaneState \<Rightarrow> bool" where
  "IsValidHistoryState s =
    (case current_history_entry_id s of
       Some i \<Rightarrow> i \<noteq> 0
     | None \<Rightarrow> \<not> (can_go_back (history_availability s) \<or> can_go_forward (history_availability s)))"

text \<open>
  The selected items one after the other, with the set of indexes seen so far. \<open>bool\<close> of an item is
  whether it has a listing.
\<close>

fun selection_valid :: "VFSListing \<Rightarrow> nat set \<Rightarrow> VFSListingItem list \<Rightarrow> bool" where
  "selection_valid l seen [] = True"
| "selection_valid l seen (item # items) =
    (item_Listing item = Some l \<and> item_Index item < Count l \<and> item_Index item \<notin> seen
     \<and> selection_valid l (insert (item_Index item) seen) items)"

definition IsCommittedProjection :: "PaneState \<Rightarrow> PaneState option \<Rightarrow> bool" where
  "IsCommittedProjection s trusted =
    (if visible_error s \<noteq> None \<or> \<not> IsValidSortState (sort_state s) (load_phase s)
       \<or> \<not> IsValidGroupingState (sort_state s) (grouping_state s)
       \<or> \<not> IsValidViewState (view_state s) (load_phase s) \<or> \<not> IsValidHistoryState s then False
     else if load_phase s = Phase_Empty
     then item_Listing (focused_item s) = None \<and> selected_empty (selected_items s)
       \<and> item_count s = 0 \<and> selected_count s = 0 \<and> selected_bytes s = 0
     else if load_phase s \<noteq> Phase_Loaded then False
     else case listing s of None \<Rightarrow> False | Some l \<Rightarrow>
       if item_Listing (focused_item s) \<noteq> None
         \<and> (item_Listing (focused_item s) \<noteq> Some l \<or> item_Index (focused_item s) \<ge> Count l)
       then False
       else if int (selected_size (selected_items s)) > INT_MAX \<or> item_count s < 0
         \<or> selected_count s < 0 \<or> selected_count s > item_count s
         \<or> selected_count s \<noteq> int (selected_size (selected_items s))
         \<or> selected_bytes s < 0 \<or> selected_count s = 0 \<and> selected_bytes s \<noteq> 0 then False
       else if selected_size (selected_items s) \<noteq> 0
         \<and> (case trusted of None \<Rightarrow> False | Some t \<Rightarrow> listing s = listing t
             \<and> StorageIdentity (selected_items s) = StorageIdentity (selected_items t)) then True
       else selection_valid l {} (Values (selected_items s)))"

section \<open>The reducer\<close>

datatype PaneLifecycleReducerStatus =
    Reducer_Applied | Reducer_NoVisibleChange | Reducer_WrongPane | Reducer_StaleSequence
  | Reducer_SequenceGap | Reducer_InvalidTransition | Reducer_InvalidCommittedProjection
  | Reducer_StaleCommittedProjection | Reducer_CommitProjectionMismatch

record PaneLifecycleReducerResult =
  status :: PaneLifecycleReducerStatus
  state_changed :: bool

record OwnedState =
  committed_state :: PaneState
  pane_state :: PaneState
  last_event_sequence :: "u64 option"
  active_request :: "PaneActiveRequest option"
  expected_replacement :: "PaneRequestId option"
  owned_error :: "FileManagerError option"
  navigation_failed :: bool
  commit_projection_failed :: bool

record PaneLifecycleReducer =
  r_PaneId :: PaneId
  m_Owned :: OwnedState

definition refuse :: "PaneLifecycleReducerStatus \<Rightarrow> PaneLifecycleReducerResult" where
  "refuse s = \<lparr>status = s, state_changed = False\<rparr>"

definition PaneLifecycleReducer_make :: "PaneId \<Rightarrow> PaneState \<Rightarrow> PaneLifecycleReducer res" where
  "PaneLifecycleReducer_make pane s =
    (if \<not> IsCommittedProjection s None then Inl Throws_invalid_argument
     else Inr \<lparr>r_PaneId = pane, m_Owned = \<lparr>committed_state = s, pane_state = s,
       last_event_sequence = None, active_request = None, expected_replacement = None,
       owned_error = None, navigation_failed = False, commit_projection_failed = False\<rparr>\<rparr>)"

definition ClearTerminalOverlay :: "OwnedState \<Rightarrow> OwnedState" where
  "ClearTerminalOverlay s =
    s\<lparr>owned_error := None, navigation_failed := False, commit_projection_failed := False\<rparr>"

definition composed_phase :: "OwnedState \<Rightarrow> PaneLoadPhase" where
  "composed_phase s =
    (case active_request s of
       Some a \<Rightarrow> if request_kind (active_descriptor a) = Navigation then Phase_Loading else Phase_Refreshing
     | None \<Rightarrow>
         if expected_replacement s \<noteq> None then load_phase (pane_state s)
         else if navigation_failed s \<or> commit_projection_failed s then Phase_Failed
         else load_phase (committed_state s))"

definition Recompose :: "OwnedState \<Rightarrow> OwnedState" where
  "Recompose s = s\<lparr>pane_state := (committed_state s)
     \<lparr>visible_error := owned_error s, load_phase := composed_phase s\<rparr>\<rparr>"

definition Reducer_Commit :: "OwnedState \<Rightarrow> PaneLifecycleReducerStatus \<Rightarrow> PaneLifecycleReducer
    \<Rightarrow> PaneLifecycleReducerResult \<times> PaneLifecycleReducer" where
  "Reducer_Commit n s r =
    (let changed = \<not> same_pane (pane_state n) (pane_state (m_Owned r)) in
     (\<lparr>status = (if \<not> changed \<and> s = Reducer_Applied then Reducer_NoVisibleChange else s),
       state_changed = changed\<rparr>, r\<lparr>m_Owned := n\<rparr>))"

definition SeedActive :: "PaneActiveRequest \<Rightarrow> PaneLifecycleReducer
    \<Rightarrow> PaneLifecycleReducerResult \<times> PaneLifecycleReducer" where
  "SeedActive a r =
    (if active_id a = 0 \<or> last_event_sequence (m_Owned r) \<noteq> None
       \<or> active_request (m_Owned r) \<noteq> None \<or> expected_replacement (m_Owned r) \<noteq> None
     then (refuse Reducer_InvalidTransition, r)
     else Reducer_Commit
       (Recompose (ClearTerminalOverlay ((m_Owned r)\<lparr>active_request := Some a\<rparr>))) Reducer_Applied r)"

definition SeedRetainedFailure :: "PaneActiveRequest \<Rightarrow> PaneLifecycleEvent \<Rightarrow> u64
    \<Rightarrow> PaneLifecycleReducer \<Rightarrow> PaneLifecycleReducerResult \<times> PaneLifecycleReducer" where
  "SeedRetainedFailure a failure checkpoint r =
    (case event_payload failure of
       Lifecycle_Failed error \<Rightarrow>
         if active_id a = 0 \<or> last_event_sequence (m_Owned r) \<noteq> None
           \<or> active_request (m_Owned r) \<noteq> None \<or> expected_replacement (m_Owned r) \<noteq> None
           \<or> event_pane_id failure \<noteq> r_PaneId r \<or> event_request_id failure \<noteq> active_id a
           \<or> event_descriptor failure \<noteq> active_descriptor a
           \<or> event_sequence failure = 0 \<or> checkpoint < event_sequence failure
         then (refuse Reducer_InvalidTransition, r)
         else Reducer_Commit (Recompose ((m_Owned r)\<lparr>last_event_sequence := Some checkpoint,
             owned_error := Some error,
             navigation_failed := request_kind (event_descriptor failure) = Navigation,
             commit_projection_failed := False\<rparr>)) Reducer_Applied r
     | _ \<Rightarrow> (refuse Reducer_InvalidTransition, r))"

definition UpdateCommittedProjection :: "PaneState \<Rightarrow> PaneLifecycleReducer
    \<Rightarrow> PaneLifecycleReducerResult \<times> PaneLifecycleReducer" where
  "UpdateCommittedProjection c r =
    (let own = m_Owned r in
     if \<not> IsCommittedProjection c (Some (committed_state own))
     then (refuse Reducer_InvalidCommittedProjection, r)
     else if location_generation c < location_generation (committed_state own)
     then (refuse Reducer_StaleCommittedProjection, r)
     else let is_new_location = location_generation c > location_generation (committed_state own);
              n = own\<lparr>committed_state := c\<rparr>;
              n = (if is_new_location \<and> active_request n = None \<and> expected_replacement n = None
                   then ClearTerminalOverlay n else n)
          in Reducer_Commit (Recompose n) Reducer_Applied r)"

datatype SequenceValidation = Sequence_Current | Sequence_Stale | Sequence_Gap

definition ValidateSequence :: "u64 \<Rightarrow> PaneLifecycleReducer \<Rightarrow> SequenceValidation" where
  "ValidateSequence sequence r =
    (if sequence = 0 then Sequence_Gap
     else case last_event_sequence (m_Owned r) of
       None \<Rightarrow> Sequence_Current
     | Some last_sequence \<Rightarrow>
         if sequence \<le> last_sequence then Sequence_Stale
         else if last_sequence = - 1 \<or> sequence \<noteq> last_sequence + 1 then Sequence_Gap
         else Sequence_Current)"

definition MatchesActive :: "PaneLifecycleEvent \<Rightarrow> PaneLifecycleReducer \<Rightarrow> bool" where
  "MatchesActive e r =
    (case active_request (m_Owned r) of
       None \<Rightarrow> False
     | Some a \<Rightarrow> active_id a = event_request_id e \<and> active_descriptor a = event_descriptor e)"

text \<open>The end of a request, common to the branches: the event is consumed and no request is left.\<close>

definition request_ended :: "u64 \<Rightarrow> OwnedState \<Rightarrow> OwnedState" where
  "request_ended sequence s = s\<lparr>last_event_sequence := Some sequence, active_request := None,
     expected_replacement := None\<rparr>"

definition Apply_started :: "PaneLifecycleEvent \<Rightarrow> PaneLifecycleReducer
    \<Rightarrow> PaneLifecycleReducerResult \<times> PaneLifecycleReducer" where
  "Apply_started e r =
    (if active_request (m_Owned r) \<noteq> None
       \<or> expected_replacement (m_Owned r) \<noteq> None
         \<and> expected_replacement (m_Owned r) \<noteq> Some (event_request_id e)
     then (refuse Reducer_InvalidTransition, r)
     else Reducer_Commit (Recompose (ClearTerminalOverlay ((m_Owned r)
       \<lparr>last_event_sequence := Some (event_sequence e),
        active_request := Some \<lparr>active_id = event_request_id e, active_descriptor = event_descriptor e\<rparr>,
        expected_replacement := None\<rparr>))) Reducer_Applied r)"

definition Apply_committed :: "PaneLifecycleEvent \<Rightarrow> u64 \<Rightarrow> VFSListingPtr \<Rightarrow> PaneState option
    \<Rightarrow> PaneLifecycleReducer \<Rightarrow> PaneLifecycleReducerResult \<times> PaneLifecycleReducer" where
  "Apply_committed e generation l projection r =
    (if \<not> MatchesActive e r \<or> expected_replacement (m_Owned r) \<noteq> None
     then (refuse Reducer_InvalidTransition, r)
     else let ended = ClearTerminalOverlay (request_ended (event_sequence e) (m_Owned r));
              mismatch = Reducer_Commit (Recompose (ended\<lparr>commit_projection_failed := True\<rparr>))
                Reducer_CommitProjectionMismatch r
          in case projection of
            None \<Rightarrow> mismatch
          | Some p \<Rightarrow>
              if IsCommittedProjection p (Some (committed_state (m_Owned r)))
                \<and> location_generation p = generation \<and> listing p = l
                \<and> location_generation p \<ge> location_generation (committed_state (m_Owned r))
              then Reducer_Commit (Recompose (ended\<lparr>committed_state := p\<rparr>)) Reducer_Applied r
              else mismatch)"

definition Apply_failed :: "PaneLifecycleEvent \<Rightarrow> FileManagerError \<Rightarrow> PaneLifecycleReducer
    \<Rightarrow> PaneLifecycleReducerResult \<times> PaneLifecycleReducer" where
  "Apply_failed e error r =
    (if \<not> MatchesActive e r \<or> expected_replacement (m_Owned r) \<noteq> None
     then (refuse Reducer_InvalidTransition, r)
     else Reducer_Commit (Recompose ((request_ended (event_sequence e) (m_Owned r))
       \<lparr>owned_error := Some error,
        navigation_failed := request_kind (event_descriptor e) = Navigation,
        commit_projection_failed := False\<rparr>)) Reducer_Applied r)"

definition Apply_cancelled :: "PaneLifecycleEvent \<Rightarrow> PaneLifecycleReducer
    \<Rightarrow> PaneLifecycleReducerResult \<times> PaneLifecycleReducer" where
  "Apply_cancelled e r =
    (if \<not> MatchesActive e r \<or> expected_replacement (m_Owned r) \<noteq> None
     then (refuse Reducer_InvalidTransition, r)
     else Reducer_Commit
       (Recompose (ClearTerminalOverlay (request_ended (event_sequence e) (m_Owned r)))) Reducer_Applied r)"

definition Apply_superseded :: "PaneLifecycleEvent \<Rightarrow> PaneRequestId \<Rightarrow> PaneLifecycleReducer
    \<Rightarrow> PaneLifecycleReducerResult \<times> PaneLifecycleReducer" where
  "Apply_superseded e replacement r =
    (if \<not> MatchesActive e r \<or> expected_replacement (m_Owned r) \<noteq> None \<or> replacement = 0
       \<or> replacement = event_request_id e
     then (refuse Reducer_InvalidTransition, r)
     else Reducer_Commit ((m_Owned r)\<lparr>last_event_sequence := Some (event_sequence e),
       active_request := None, expected_replacement := Some replacement\<rparr>) Reducer_NoVisibleChange r)"

definition Apply_rejected :: "PaneLifecycleEvent \<Rightarrow> PaneLifecycleReducer
    \<Rightarrow> PaneLifecycleReducerResult \<times> PaneLifecycleReducer" where
  "Apply_rejected e r =
    (if expected_replacement (m_Owned r) \<noteq> None then (refuse Reducer_InvalidTransition, r)
     else Reducer_Commit ((m_Owned r)\<lparr>last_event_sequence := Some (event_sequence e)\<rparr>)
       Reducer_NoVisibleChange r)"

definition Apply_payload :: "PaneLifecycleEvent \<Rightarrow> PaneState option \<Rightarrow> PaneLifecycleReducer
    \<Rightarrow> PaneLifecycleReducerResult \<times> PaneLifecycleReducer" where
  "Apply_payload e projection r = (case event_payload e of
     Lifecycle_Started \<Rightarrow> Apply_started e r
   | Lifecycle_Committed generation l \<Rightarrow> Apply_committed e generation l projection r
   | Lifecycle_Failed error \<Rightarrow> Apply_failed e error r
   | Lifecycle_Cancelled _ \<Rightarrow> Apply_cancelled e r
   | Lifecycle_Superseded replacement \<Rightarrow> Apply_superseded e replacement r
   | Lifecycle_Rejected _ \<Rightarrow> Apply_rejected e r)"

definition Apply :: "PaneLifecycleEvent \<Rightarrow> PaneState option \<Rightarrow> PaneLifecycleReducer
    \<Rightarrow> PaneLifecycleReducerResult \<times> PaneLifecycleReducer" where
  "Apply e projection r =
    (if event_pane_id e \<noteq> r_PaneId r then (refuse Reducer_WrongPane, r)
     else if event_request_id e = 0 then (refuse Reducer_InvalidTransition, r)
     else case ValidateSequence (event_sequence e) r of
       Sequence_Stale \<Rightarrow> (refuse Reducer_StaleSequence, r)
     | Sequence_Gap \<Rightarrow> (refuse Reducer_SequenceGap, r)
     | Sequence_Current \<Rightarrow> Apply_payload e projection r)"

end
