(* ===== verification/PaneReducerProps.thy ===== *)
theory PaneReducerProps
  imports PaneReducer PaneStream
begin

text \<open>
  The reducer by itself: its invariant, that a refused call changes nothing, and that it follows the
  protocol of \<open>PaneStream\<close>: a reducer that is where the stream is accepts the next event.
\<close>

section \<open>Projections\<close>

lemma selection_valid_Values:
  assumes "IsCommittedProjection t None" "selected_size (selected_items t) \<noteq> 0" "listing t = Some l"
  shows "selection_valid l {} (Values (selected_items t))"
  using assms by (auto simp: IsCommittedProjection_def selected_empty_def selected_size_def
    split: if_splits)

text \<open>The shortcut for a selection that shares its storage with a checked one decides the same.\<close>

lemma trusted_projection:
  assumes t: "IsCommittedProjection t None"
  shows "IsCommittedProjection c (Some t) = IsCommittedProjection c None"
proof (cases "selected_size (selected_items c) \<noteq> 0 \<and> listing c = listing t
    \<and> StorageIdentity (selected_items c) = StorageIdentity (selected_items t)")
  case True
  then have "Values (selected_items c) = Values (selected_items t)"
    "selected_size (selected_items t) \<noteq> 0"
    by (auto simp: StorageIdentity_def Values_def selected_size_def)
  note v = this
  show ?thesis
  proof (cases "listing c")
    case None
    then show ?thesis by (simp add: IsCommittedProjection_def)
  next
    case (Some l)
    then have "listing t = Some l" "selection_valid l {} (Values (selected_items c))"
      using True selection_valid_Values [OF t v(2)] v(1) by simp_all
    then show ?thesis unfolding IsCommittedProjection_def Some option.case by simp
  qed
next
  case False
  then have "\<not> (selected_size (selected_items c) \<noteq> 0 \<and> listing c = listing t
    \<and> StorageIdentity (selected_items c) = StorageIdentity (selected_items t))" .
  then show ?thesis unfolding IsCommittedProjection_def option.case
    by (simp only: if_False simp_thms)
qed

lemma committed_phase:
  "IsCommittedProjection c None \<Longrightarrow> load_phase c = Phase_Empty \<or> load_phase c = Phase_Loaded \<and> listing c \<noteq> None"
  by (auto simp: IsCommittedProjection_def split: if_splits option.splits)

section \<open>Invariant\<close>

definition overlay_clear :: "OwnedState \<Rightarrow> bool" where
  "overlay_clear s \<longleftrightarrow> owned_error s = None \<and> \<not> navigation_failed s \<and> \<not> commit_projection_failed s"

text \<open>
  What is shown is the committed projection with the error and the phase laid over it. While a
  replacement is announced the phase is the one of the request that it replaces.
\<close>

definition owned_ok :: "OwnedState \<Rightarrow> bool" where
  "owned_ok s \<longleftrightarrow> IsCommittedProjection (committed_state s) None
     \<and> pane_state s = (committed_state s)\<lparr>visible_error := owned_error s,
         load_phase := load_phase (pane_state s)\<rparr>
     \<and> load_phase (pane_state s) = composed_phase s
     \<and> (active_request s \<noteq> None \<longrightarrow> expected_replacement s = None \<and> overlay_clear s)
     \<and> (expected_replacement s \<noteq> None \<longrightarrow> overlay_clear s
         \<and> load_phase (pane_state s) \<in> {Phase_Loading, Phase_Refreshing})
     \<and> (navigation_failed s \<longrightarrow> owned_error s \<noteq> None \<and> \<not> commit_projection_failed s)
     \<and> (commit_projection_failed s \<longrightarrow> owned_error s = None)"

definition reducer_ok :: "PaneLifecycleReducer \<Rightarrow> bool" where
  "reducer_ok r \<longleftrightarrow> owned_ok (m_Owned r)"

datatype ReducerCall =
    Call_SeedActive PaneActiveRequest
  | Call_SeedRetainedFailure PaneActiveRequest PaneLifecycleEvent u64
  | Call_UpdateCommittedProjection PaneState
  | Call_Apply PaneLifecycleEvent "PaneState option"

fun reduce :: "ReducerCall \<Rightarrow> PaneLifecycleReducer \<Rightarrow> PaneLifecycleReducerResult \<times> PaneLifecycleReducer" where
  "reduce (Call_SeedActive a) r = SeedActive a r"
| "reduce (Call_SeedRetainedFailure a e checkpoint) r = SeedRetainedFailure a e checkpoint r"
| "reduce (Call_UpdateCommittedProjection c) r = UpdateCommittedProjection c r"
| "reduce (Call_Apply e projection) r = Apply e projection r"

definition overlay_ok :: "OwnedState \<Rightarrow> bool" where
  "overlay_ok s \<longleftrightarrow> IsCommittedProjection (committed_state s) None
     \<and> (active_request s \<noteq> None \<longrightarrow> expected_replacement s = None \<and> overlay_clear s)
     \<and> (expected_replacement s \<noteq> None \<longrightarrow> overlay_clear s
         \<and> load_phase (pane_state s) \<in> {Phase_Loading, Phase_Refreshing})
     \<and> (navigation_failed s \<longrightarrow> owned_error s \<noteq> None \<and> \<not> commit_projection_failed s)
     \<and> (commit_projection_failed s \<longrightarrow> owned_error s = None)"

lemma Recompose_simps [simp]:
  "committed_state (Recompose s) = committed_state s" "active_request (Recompose s) = active_request s"
  "expected_replacement (Recompose s) = expected_replacement s"
  "last_event_sequence (Recompose s) = last_event_sequence s"
  "owned_error (Recompose s) = owned_error s" "navigation_failed (Recompose s) = navigation_failed s"
  "commit_projection_failed (Recompose s) = commit_projection_failed s"
  "load_phase (pane_state (Recompose s)) = composed_phase s"
  by (simp_all add: Recompose_def)

lemma ClearTerminalOverlay_simps [simp]:
  "committed_state (ClearTerminalOverlay s) = committed_state s"
  "active_request (ClearTerminalOverlay s) = active_request s"
  "expected_replacement (ClearTerminalOverlay s) = expected_replacement s"
  "last_event_sequence (ClearTerminalOverlay s) = last_event_sequence s"
  "pane_state (ClearTerminalOverlay s) = pane_state s"
  "overlay_clear (ClearTerminalOverlay s)"
  by (simp_all add: ClearTerminalOverlay_def overlay_clear_def)

lemma request_ended_simps [simp]:
  "committed_state (request_ended n s) = committed_state s"
  "active_request (request_ended n s) = None" "expected_replacement (request_ended n s) = None"
  "last_event_sequence (request_ended n s) = Some n" "pane_state (request_ended n s) = pane_state s"
  by (simp_all add: request_ended_def)

lemma Reducer_Commit_simps [simp]:
  "m_Owned (snd (Reducer_Commit n x r)) = n" "r_PaneId (snd (Reducer_Commit n x r)) = r_PaneId r"
  "status (fst (Reducer_Commit n x r)) = x \<or> x = Reducer_Applied
     \<and> status (fst (Reducer_Commit n x r)) = Reducer_NoVisibleChange"
  "x \<noteq> Reducer_Applied \<Longrightarrow> status (fst (Reducer_Commit n x r)) = x"
  by (simp_all add: Reducer_Commit_def Let_def)

lemma Recompose_owned: "overlay_ok s \<Longrightarrow> owned_ok (Recompose s)"
  by (auto simp: owned_ok_def overlay_ok_def overlay_clear_def composed_phase_def Recompose_def
    split: option.splits)

lemma owned_overlay: "owned_ok s \<Longrightarrow> overlay_ok s"
  by (auto simp: owned_ok_def overlay_ok_def)

lemma reduce_pane: "r_PaneId (snd (reduce c r)) = r_PaneId r"
  by (cases c) (auto simp: SeedActive_def SeedRetainedFailure_def UpdateCommittedProjection_def Let_def
    Apply_def Apply_payload_def Apply_started_def Apply_committed_def Apply_failed_def
    Apply_cancelled_def Apply_superseded_def Apply_rejected_def
    split: PaneLifecycleEventPayload.splits SequenceValidation.splits option.splits)

lemmas apply_defs = Apply_def Apply_payload_def Apply_started_def Apply_committed_def Apply_failed_def
  Apply_cancelled_def Apply_superseded_def Apply_rejected_def

lemma owned_consumed: "owned_ok (s\<lparr>last_event_sequence := n\<rparr>) = owned_ok s"
  by (simp add: owned_ok_def overlay_clear_def composed_phase_def cong: option.case_cong)

lemma owned_superseded:
  "owned_ok s \<Longrightarrow> active_request s \<noteq> None \<Longrightarrow>
    owned_ok (s\<lparr>last_event_sequence := n, active_request := None, expected_replacement := Some i\<rparr>)"
  by (auto simp: owned_ok_def overlay_clear_def composed_phase_def split: if_splits)

lemma overlay_ended: "overlay_ok s \<Longrightarrow> overlay_ok (request_ended n s)"
  by (auto simp: overlay_ok_def request_ended_def overlay_clear_def)

lemma overlay_clear_ok:
  assumes "overlay_ok s" "active_request s = None \<or> expected_replacement s = None"
    "expected_replacement s \<noteq> None \<longrightarrow> load_phase (pane_state s) \<in> {Phase_Loading, Phase_Refreshing}"
  shows "overlay_ok (ClearTerminalOverlay s)"
  using assms by (auto simp: overlay_ok_def ClearTerminalOverlay_def overlay_clear_def)

lemma overlay_failed:
  "overlay_ok s \<Longrightarrow> active_request s = None \<Longrightarrow> expected_replacement s = None \<Longrightarrow>
    overlay_ok (s\<lparr>owned_error := Some error, navigation_failed := v, commit_projection_failed := False\<rparr>)"
  by (simp add: overlay_ok_def)

lemma MatchesActive_active: "MatchesActive e r \<Longrightarrow> active_request (m_Owned r) = Some (request_of e)"
  by (auto simp: MatchesActive_def request_of_def split: option.splits)

lemma Apply_payload_ok:
  assumes r: "reducer_ok r"
  shows "reducer_ok (snd (Apply_payload e projection r))"
proof -
  let ?s = "m_Owned r"
  have o: "owned_ok ?s" "overlay_ok ?s" using r by (simp_all add: reducer_ok_def owned_overlay)
  have started: "reducer_ok (snd (Apply_started e r))"
  proof (cases "active_request ?s = None")
    case True
    have "overlay_ok (ClearTerminalOverlay (?s\<lparr>last_event_sequence := Some n, active_request := Some a,
        expected_replacement := None\<rparr>))" for n a
      using o(2) by (simp add: overlay_ok_def ClearTerminalOverlay_def overlay_clear_def)
    then show ?thesis using r by (simp add: Apply_started_def reducer_ok_def Recompose_owned)
  next
    case False
    then show ?thesis using r by (simp add: Apply_started_def)
  qed
  note ended = overlay_ended [OF o(2)]
  have clear: "overlay_ok (ClearTerminalOverlay (request_ended n ?s))" for n
    using overlay_clear_ok [OF ended] by simp
  have committed: "reducer_ok (snd (Apply_committed e g l projection r))" for g l
  proof -
    have m: "overlay_ok ((ClearTerminalOverlay (request_ended n ?s))\<lparr>commit_projection_failed := True\<rparr>)" for n
      using clear [of n] by (simp add: overlay_ok_def overlay_clear_def ClearTerminalOverlay_def)
    have p: "overlay_ok ((ClearTerminalOverlay (request_ended n ?s))\<lparr>committed_state := c\<rparr>)"
      if "IsCommittedProjection c (Some (committed_state ?s))" for n c
      using clear [of n] that trusted_projection [of "committed_state ?s" c] o(2)
      by (simp add: overlay_ok_def overlay_clear_def ClearTerminalOverlay_def)
    show ?thesis
      using r m p by (auto simp: Apply_committed_def Let_def reducer_ok_def Recompose_owned split: option.splits)
  qed
  have failed: "reducer_ok (snd (Apply_failed e error r))" for error
    using r overlay_failed [OF ended]
    by (simp add: Apply_failed_def reducer_ok_def Recompose_owned)
  have cancelled: "reducer_ok (snd (Apply_cancelled e r))"
    using r clear by (simp add: Apply_cancelled_def reducer_ok_def Recompose_owned)
  have superseded: "reducer_ok (snd (Apply_superseded e i r))" for i
    using r owned_superseded [OF o(1)] MatchesActive_active [of e r]
    by (auto simp: Apply_superseded_def reducer_ok_def)
  have rejected: "reducer_ok (snd (Apply_rejected e r))"
    using r o(1) by (simp add: Apply_rejected_def reducer_ok_def owned_consumed)
  show ?thesis using started committed failed cancelled superseded rejected
    by (simp add: Apply_payload_def split: PaneLifecycleEventPayload.split)
qed

lemma reduce_ok:
  assumes r: "reducer_ok r"
  shows "reducer_ok (snd (reduce c r))"
proof -
  let ?s = "m_Owned r"
  have o: "overlay_ok ?s" using r by (simp add: reducer_ok_def owned_overlay)
  show ?thesis
  proof (cases c)
    case (Call_SeedActive a)
    have "overlay_ok (ClearTerminalOverlay (?s\<lparr>active_request := Some a\<rparr>))" if "expected_replacement ?s = None"
      using o that by (simp add: overlay_ok_def overlay_clear_def ClearTerminalOverlay_def)
    then show ?thesis using r Call_SeedActive
      by (auto simp: SeedActive_def reducer_ok_def intro!: Recompose_owned)
  next
    case (Call_SeedRetainedFailure a e n)
    have "overlay_ok (?s\<lparr>last_event_sequence := Some n, owned_error := Some error,
        navigation_failed := v, commit_projection_failed := False\<rparr>)"
      if "active_request ?s = None" "expected_replacement ?s = None" for error v
      using o that by (simp add: overlay_ok_def)
    then show ?thesis using r Call_SeedRetainedFailure
      by (auto simp: SeedRetainedFailure_def reducer_ok_def intro!: Recompose_owned
        split: PaneLifecycleEventPayload.splits)
  next
    case (Call_UpdateCommittedProjection p)
    have "overlay_ok (?s\<lparr>committed_state := p\<rparr>)" "overlay_ok (ClearTerminalOverlay (?s\<lparr>committed_state := p\<rparr>))"
      if "IsCommittedProjection p (Some (committed_state ?s))"
      using o that trusted_projection [of "committed_state ?s" p]
      by (auto simp: overlay_ok_def overlay_clear_def ClearTerminalOverlay_def)
    then show ?thesis using r Call_UpdateCommittedProjection
      by (auto simp: UpdateCommittedProjection_def Let_def reducer_ok_def intro!: Recompose_owned)
  next
    case (Call_Apply e p)
    then show ?thesis using r Apply_payload_ok [OF r]
      by (simp add: Apply_def split: SequenceValidation.splits)
  qed
qed

lemma make_ok: "PaneLifecycleReducer_make pane s = Inr r \<Longrightarrow> reducer_ok r"
proof -
  assume "PaneLifecycleReducer_make pane s = Inr r"
  then have "IsCommittedProjection s None" "r = \<lparr>r_PaneId = pane, m_Owned = \<lparr>committed_state = s,
      pane_state = s, last_event_sequence = None, active_request = None, expected_replacement = None,
      owned_error = None, navigation_failed = False, commit_projection_failed = False\<rparr>\<rparr>"
    by (auto simp: PaneLifecycleReducer_make_def split: if_splits)
  moreover from this(1) have "visible_error s = None" by (simp add: IsCommittedProjection_def split: if_splits)
  ultimately show ?thesis by (cases s) (simp add: reducer_ok_def owned_ok_def composed_phase_def)
qed

section \<open>Refused calls\<close>

definition refusals :: "PaneLifecycleReducerStatus set" where
  "refusals = {Reducer_WrongPane, Reducer_StaleSequence, Reducer_SequenceGap, Reducer_InvalidTransition,
     Reducer_InvalidCommittedProjection, Reducer_StaleCommittedProjection}"

lemma accepted_status [simp]:
  "Reducer_Applied \<notin> refusals" "Reducer_NoVisibleChange \<notin> refusals"
  "Reducer_CommitProjectionMismatch \<notin> refusals"
  by (simp_all add: refusals_def)

lemma Reducer_Commit_refused [simp]:
  "status (fst (Reducer_Commit n x r)) \<in> refusals \<longleftrightarrow> x \<in> refusals"
  by (auto simp: Reducer_Commit_def refusals_def Let_def)

lemma Apply_payload_refused:
  "status (fst (Apply_payload e projection r)) \<in> refusals \<Longrightarrow>
    Apply_payload e projection r = (refuse Reducer_InvalidTransition, r)"
  by (cases "event_payload e"; cases projection)
    (auto simp: Apply_payload_def Apply_started_def Apply_committed_def Apply_failed_def
      Apply_cancelled_def Apply_superseded_def Apply_rejected_def Let_def split: if_splits)

lemma reduce_refused:
  assumes "status (fst (reduce c r)) \<in> refusals"
  shows "snd (reduce c r) = r \<and> \<not> state_changed (fst (reduce c r))"
proof (cases c)
  case (Call_SeedActive a)
  then show ?thesis using assms by (auto simp: SeedActive_def refuse_def split: if_splits)
next
  case (Call_SeedRetainedFailure a e n)
  then show ?thesis using assms
    by (cases "event_payload e") (auto simp: SeedRetainedFailure_def refuse_def split: if_splits)
next
  case (Call_UpdateCommittedProjection p)
  then show ?thesis using assms
    by (auto simp: UpdateCommittedProjection_def refuse_def Let_def split: if_splits)
next
  case (Call_Apply e p)
  then show ?thesis using assms Apply_payload_refused [of e p r]
    by (auto simp: Apply_def refuse_def split: if_splits SequenceValidation.splits)
qed

section \<open>Following the stream\<close>

definition follows :: "stream \<Rightarrow> PaneLifecycleReducer \<Rightarrow> bool" where
  "follows s r \<longleftrightarrow> (\<forall>n. last_event_sequence (m_Owned r) = Some n \<longrightarrow> unat n + 1 = s_event s)
     \<and> active_request (m_Owned r) = s_active s
     \<and> (expected_replacement (m_Owned r) = None \<or> expected_replacement (m_Owned r) = s_expected s)"

lemma follows_current:
  assumes "follows s r" "unat sequence = s_event s" "stream_ok s"
  shows "ValidateSequence sequence r = Sequence_Current"
proof (cases "last_event_sequence (m_Owned r)")
  case None
  then show ?thesis using assms by (auto simp: ValidateSequence_def stream_ok_def)
next
  case (Some n)
  then have n: "unat n + 1 = unat sequence" using assms by (simp add: follows_def)
  then have u: "unat (n + 1) = unat sequence"
    using unat_u64 [of sequence] by (simp add: unat_word_ariths)
  then have e: "sequence = n + 1" by (simp add: word_unat_eq_iff)
  have "n < sequence" "sequence \<noteq> 0" using n by (auto simp: word_less_nat_alt)
  moreover from this(2) e have "n \<noteq> - 1" by auto
  ultimately show ?thesis using Some e by (auto simp: ValidateSequence_def)
qed

lemma follows_payload:
  assumes f: "follows s r" and s: "stream_ok s" "stream_payload e (s\<lparr>s_event := s_event s + 1\<rparr>) = Some t"
    and n: "unat (event_sequence e) = s_event s"
  shows "status (fst (Apply_payload e projection r)) \<notin> refusals
    \<and> follows t (snd (Apply_payload e projection r))"
  using assms
  by (cases "event_payload e"; cases projection)
    (auto simp: Apply_payload_def Apply_started_def Apply_committed_def
    Apply_failed_def Apply_cancelled_def Apply_superseded_def Apply_rejected_def
    stream_payload_def follows_def MatchesActive_def request_of_def stream_ok_def Let_def
    split: if_splits option.splits)

lemma stream_step_ids:
  assumes "stream_step pane e s = Some t" "stream_ok s"
  shows "event_request_id e \<noteq> 0"
  using assms by (auto simp: stream_step_def stream_payload_def stream_ok_def request_of_def
    split: if_splits PaneLifecycleEventPayload.splits)

text \<open>The next event of the stream is never refused, and the reducer is where the stream is after it.\<close>

lemma follows_step:
  assumes "follows s r" "stream_ok s" "stream_step (r_PaneId r) e s = Some t"
  shows "status (fst (Apply e projection r)) \<notin> refusals
    \<and> follows t (snd (Apply e projection r))"
proof -
  have n: "unat (event_sequence e) = s_event s" "event_pane_id e = r_PaneId r"
    and p: "stream_payload e (s\<lparr>s_event := s_event s + 1\<rparr>) = Some t"
    using assms(3) by (auto simp: stream_step_def split: if_splits)
  from follows_payload [OF assms(1,2) p n(1)] show ?thesis
    using follows_current [OF assms(1) n(1) assms(2)] stream_step_ids [OF assms(3,2)] n(2)
    by (simp add: Apply_def)
qed

lemma follows_update:
  "follows s r \<Longrightarrow> follows s (snd (UpdateCommittedProjection c r))"
  by (auto simp: UpdateCommittedProjection_def Let_def follows_def ClearTerminalOverlay_def)

end
