(* ===== verification/PaneStore.thy ===== *)
theory PaneStore
  imports PaneReducer PaneProducer
begin

text \<open>
  \<open>PaneStoreAdapter.cpp\<close>, the observable read model of a pane, and the part of
  \<open>PanelControllerPaneStoreAdapter.mm\<close> that connects it to the lifecycle of the controller.

  The state reader is part of the engine and not of the store: what it returns is an argument. As in
  the producer, \<open>_body\<close> is a call up to the draining of the queue of snapshots, where \<open>notify\<close> is what
  the observers do with a snapshot.
\<close>

section \<open>The store\<close>

record PaneStoreAdapter =
  m_Reducer :: PaneLifecycleReducer
  m_Snapshot :: PaneSnapshot
  a_PendingNotifications :: "PaneSnapshot list"
  a_ActiveNotification :: "PaneSnapshot option"
  a_IsNotifying :: bool
  m_RebuildScheduled :: bool

definition PaneStoreAdapter_make :: "PaneId \<Rightarrow> PaneState \<Rightarrow> PaneStoreAdapter res" where
  "PaneStoreAdapter_make pane initial_state = bindR (PaneLifecycleReducer_make pane initial_state) (\<lambda>r.
    Inr \<lparr>m_Reducer = r,
      m_Snapshot = \<lparr>snap_pane_id = pane, snap_revision = 0, snap_listing_generation = 0,
        snap_state = pane_state (m_Owned r)\<rparr>,
      a_PendingNotifications = [], a_ActiveNotification = None, a_IsNotifying = False,
      m_RebuildScheduled = False\<rparr>)"

definition Adapter_Commit :: "PaneLifecycleReducerResult \<times> PaneLifecycleReducer \<Rightarrow> PaneStoreAdapter
    \<Rightarrow> PaneLifecycleReducerResult outcome \<times> PaneStoreAdapter" where
  "Adapter_Commit = (\<lambda>(result, candidate) a.
    if \<not> state_changed result then ((Inr result, False), a\<lparr>m_Reducer := candidate\<rparr>)
    else if snap_revision (m_Snapshot a) = - 1 then ((Inl Overflow_Error, False), a)
    else let n = (m_Snapshot a)\<lparr>snap_state := pane_state (m_Owned candidate),
                   snap_revision := snap_revision (m_Snapshot a) + 1\<rparr>;
             listing_changed = listing (snap_state n) \<noteq> listing (snap_state (m_Snapshot a)) in
      if listing_changed \<and> snap_listing_generation n = - 1 then ((Inl Overflow_Error, False), a)
      else let n = (if listing_changed
                    then n\<lparr>snap_listing_generation := snap_listing_generation n + 1\<rparr> else n)
        in ((Inr result, True), a\<lparr>m_Reducer := candidate, m_Snapshot := n,
             a_PendingNotifications := a_PendingNotifications a @ [n]\<rparr>))"

definition ApplyLifecycleEvent_body :: "PaneLifecycleEvent \<Rightarrow> PaneState \<Rightarrow> PaneStoreAdapter
    \<Rightarrow> PaneLifecycleReducerResult outcome \<times> PaneStoreAdapter" where
  "ApplyLifecycleEvent_body e read a =
    (let projection = (case event_payload e of Lifecycle_Committed _ _ \<Rightarrow> Some read | _ \<Rightarrow> None)
     in Adapter_Commit (Apply e projection (m_Reducer a)) a)"

definition SeedActiveLifecycle_body :: "PaneActiveRequest \<Rightarrow> PaneStoreAdapter
    \<Rightarrow> PaneLifecycleReducerResult outcome \<times> PaneStoreAdapter" where
  "SeedActiveLifecycle_body request a = Adapter_Commit (SeedActive request (m_Reducer a)) a"

definition SeedRetainedLifecycleFailure_body :: "PaneActiveRequest \<Rightarrow> PaneLifecycleEvent \<Rightarrow> u64
    \<Rightarrow> PaneStoreAdapter \<Rightarrow> PaneLifecycleReducerResult outcome \<times> PaneStoreAdapter" where
  "SeedRetainedLifecycleFailure_body request failure checkpoint a =
    Adapter_Commit (SeedRetainedFailure request failure checkpoint (m_Reducer a)) a"

text \<open>\<open>ScheduleRebuild\<close> tells whether the work is handed to the scheduler.\<close>

definition ScheduleRebuild :: "PaneStoreAdapter \<Rightarrow> bool \<times> PaneStoreAdapter" where
  "ScheduleRebuild a = (\<not> m_RebuildScheduled a, a\<lparr>m_RebuildScheduled := True\<rparr>)"

definition RunScheduledRebuild_body :: "PaneState \<Rightarrow> PaneStoreAdapter
    \<Rightarrow> unit outcome \<times> PaneStoreAdapter" where
  "RunScheduledRebuild_body read a =
    (if \<not> m_RebuildScheduled a then ((Inr (), False), a)
     else let a = a\<lparr>m_RebuildScheduled := False\<rparr> in
       case Adapter_Commit (UpdateCommittedProjection read (m_Reducer a)) a of
         ((Inl exn, drains), a) \<Rightarrow> ((Inl exn, drains), a)
       | ((Inr _, drains), a) \<Rightarrow> ((Inr (), drains), a))"

definition pop_snapshot :: "PaneStoreAdapter \<times> 'o \<Rightarrow> (PaneSnapshot \<times> PaneStoreAdapter \<times> 'o) option" where
  "pop_snapshot = (\<lambda>(a, obs). case a_PendingNotifications a of
     [] \<Rightarrow> None
   | n # ns \<Rightarrow> Some (n, a\<lparr>a_ActiveNotification := Some n, a_PendingNotifications := ns\<rparr>, obs))"

definition Adapter_DrainNotifications ::
  "(PaneSnapshot \<Rightarrow> PaneStoreAdapter \<times> 'o \<Rightarrow> PaneStoreAdapter \<times> 'o) \<Rightarrow> PaneStoreAdapter \<times> 'o
    \<Rightarrow> (PaneStoreAdapter \<times> 'o) option" where
  "Adapter_DrainNotifications notify = (\<lambda>(a, obs).
    if a_IsNotifying a then Some (a, obs)
    else map_option (apfst (\<lambda>a. a\<lparr>a_ActiveNotification := None, a_IsNotifying := False\<rparr>))
      (drain_loop pop_snapshot notify (a\<lparr>a_IsNotifying := True\<rparr>, obs)))"

definition store_draining where
  "store_draining notify = (\<lambda>((r, drains), w).
    if drains then map_option (Pair r) (Adapter_DrainNotifications notify w) else Some (r, w))"

definition ApplyLifecycleEvent where
  "ApplyLifecycleEvent notify e read = (\<lambda>(a, obs). case ApplyLifecycleEvent_body e read a of
     (r, a) \<Rightarrow> store_draining notify (r, a, obs))"

definition SeedActiveLifecycle where
  "SeedActiveLifecycle notify request = (\<lambda>(a, obs). case SeedActiveLifecycle_body request a of
     (r, a) \<Rightarrow> store_draining notify (r, a, obs))"

definition SeedRetainedLifecycleFailure where
  "SeedRetainedLifecycleFailure notify request failure checkpoint = (\<lambda>(a, obs).
     case SeedRetainedLifecycleFailure_body request failure checkpoint a of
       (r, a) \<Rightarrow> store_draining notify (r, a, obs))"

definition RunScheduledRebuild where
  "RunScheduledRebuild notify read = (\<lambda>(a, obs). case RunScheduledRebuild_body read a of
     (r, a) \<Rightarrow> store_draining notify (r, a, obs))"

section \<open>The store as an observer of the lifecycle\<close>

text \<open>
  The object that owns the store: whether it observes the lifecycle, what the state reader returns
  with and without \<open>m_SuppressFocusedItem\<close>, and whether \<open>std::terminate\<close> was called.
\<close>

record PaneBridge =
  m_Store :: PaneStoreAdapter
  m_LifecycleObservation :: bool
  ReadState :: "bool \<Rightarrow> PaneState"
  terminated :: bool

definition seeded :: "PaneLifecycleReducerResult outcome \<times> PaneStoreAdapter \<Rightarrow> PaneBridge
    \<Rightarrow> (PaneException + unit) \<times> PaneBridge" where
  "seeded = (\<lambda>((r, _), a) b. (case r of
      Inl exn \<Rightarrow> Inl exn
    | Inr result \<Rightarrow> if status result = Reducer_Applied \<or> status result = Reducer_NoVisibleChange
        then Inr () else Inl Logic_Error, b\<lparr>m_Store := a\<rparr>))"

definition StartObservingLifecycle :: "PaneLifecycleProducer \<Rightarrow> PaneBridge
    \<Rightarrow> (PaneException + unit) \<times> PaneBridge" where
  "StartObservingLifecycle p b =
    (let subscription = Subscribe p; b = b\<lparr>m_LifecycleObservation := True\<rparr> in
     case retained_failure subscription of
       Some failure \<Rightarrow>
         (case seed_request subscription of
            None \<Rightarrow> (Inl Logic_Error, b)
          | Some request \<Rightarrow>
              if checkpoint_sequence subscription = 0 then (Inl Logic_Error, b)
              else seeded (SeedRetainedLifecycleFailure_body request failure
                (checkpoint_sequence subscription) (m_Store b)) b)
     | None \<Rightarrow>
         (case seed_request subscription of
            None \<Rightarrow> (Inr (), b)
          | Some request \<Rightarrow> seeded (SeedActiveLifecycle_body request (m_Store b)) b))"

text \<open>An event that the reducer refuses is fatal, except for one that it has seen already.\<close>

definition tolerated :: "PaneLifecycleReducerStatus \<Rightarrow> bool" where
  "tolerated s \<longleftrightarrow> s \<in> {Reducer_Applied, Reducer_NoVisibleChange, Reducer_StaleSequence,
     Reducer_CommitProjectionMismatch}"

definition OnLifecycleEvent :: "PaneLifecycleEvent \<Rightarrow> PaneBridge \<Rightarrow> PaneBridge" where
  "OnLifecycleEvent e b =
    (let suppress = (case event_payload e of Lifecycle_Committed _ _ \<Rightarrow> True | _ \<Rightarrow> False) in
     case ApplyLifecycleEvent_body e (ReadState b suppress) (m_Store b) of
       ((Inl _, _), a) \<Rightarrow> b\<lparr>m_Store := a, terminated := True\<rparr>
     | ((Inr result, _), a) \<Rightarrow>
         b\<lparr>m_Store := a, terminated := terminated b \<or> \<not> tolerated (status result)\<rparr>)"

end
