(* ===== verification/PaneRuns.thy ===== *)
theory PaneRuns
  imports PaneCalls PaneReducerProps PaneStore
begin

text \<open>
  Runs of the producer with its observers. \<open>drained_queue\<close> is the interface of a loop over a queue,
  \<open>lifecycle_observer\<close> the one of what observes the producer: whatever it calls, it stays where the
  stream is. It is interpreted by a plain record of the events and by the store of the pane.
\<close>

section \<open>Draining\<close>

locale drained_queue =
  fixes pop :: "'w \<Rightarrow> ('e \<times> 'w) option" and fire :: "'e \<Rightarrow> 'w \<Rightarrow> 'w"
    and at_state :: "'s \<Rightarrow> 'w \<Rightarrow> bool" and room :: "'s \<Rightarrow> nat"
  assumes one: "at_state s w \<Longrightarrow> pop w = Some (e, w') \<Longrightarrow> \<exists>t. at_state t (fire e w') \<and> room t < room s"
begin

lemma drains:
  "at_state s w \<Longrightarrow> \<exists>t w'. drain_loop pop fire w = Some w' \<and> at_state t w' \<and> pop w' = None"
proof (induction "room s" arbitrary: s w rule: less_induct)
  case less
  show ?case
  proof (cases "pop w")
    case None
    then show ?thesis using less(2) by (subst drain_loop.simps) auto
  next
    case (Some x)
    then obtain e w' where p: "pop w = Some (e, w')" by (cases x) auto
    from one [OF less(2) p] obtain t where "at_state t (fire e w')" "room t < room s" by blast
    from less(1) [OF this(2,1)] show ?thesis using p by (subst drain_loop.simps) auto
  qed
qed

end

section \<open>Calls of the producer\<close>

datatype 'o LifecycleCall =
    Call_Start PaneRequestDescriptor
  | Call_Reject PaneRequestDescriptor PaneLifecycleRejected
  | Call_Supersede PaneRequestDescriptor
  | Call_Finish PaneRequestId PaneLifecycleFinishPayload "'o mutation option"
  | Call_Shutdown
  | Call_Destroy

fun producer_call :: "'o observers \<Rightarrow> 'o LifecycleCall \<Rightarrow> PaneLifecycleProducer \<times> 'o
    \<Rightarrow> (PaneLifecycleProducer \<times> 'o) option" where
  "producer_call fire (Call_Start d) w = map_option snd (Start fire d w)"
| "producer_call fire (Call_Reject d rejection) w = map_option snd (Reject fire d rejection w)"
| "producer_call fire (Call_Supersede d) w = map_option snd (SupersedeAndStart fire d w)"
| "producer_call fire (Call_Finish i terminal mutation) w = map_option snd (Finish fire i terminal mutation w)"
| "producer_call fire Call_Shutdown w = map_option snd (Shutdown fire w)"
| "producer_call fire Call_Destroy w = ShutdownForDestruction fire w"

text \<open>The calls one after the other.\<close>

fun producer_calls where
  "producer_calls fire [] w = Some w"
| "producer_calls fire (c # cs) w = Option.bind (producer_call fire c w) (producer_calls fire cs)"

section \<open>What an observer may do\<close>

text \<open>
  An observer calls the producer, whose queue is being drained, and changes its own state, as \<open>M\<close>
  allows it in the producer's state at the time. A mutation it passes to \<open>Finish\<close> changes the state
  of the observers without looking at the producer.
\<close>

definition mutation_within :: "(PaneLifecycleProducer \<Rightarrow> 'o \<Rightarrow> 'o \<Rightarrow> bool) \<Rightarrow> 'o mutation option \<Rightarrow> bool" where
  "mutation_within M mutation \<longleftrightarrow> (\<forall>mutate. mutation = Some mutate \<longrightarrow> mutation_ok mutate \<and>
     (\<forall>p obs threw q obs'. mutate (p, obs) = (threw, q, obs') \<longrightarrow> obs' = obs \<or> (\<forall>p. M p obs obs')))"

definition call_within :: "(PaneLifecycleProducer \<Rightarrow> 'o \<Rightarrow> 'o \<Rightarrow> bool) \<Rightarrow> 'o LifecycleCall \<Rightarrow> bool" where
  "call_within M c \<longleftrightarrow> (case c of Call_Finish i terminal mutation \<Rightarrow> mutation_within M mutation | _ \<Rightarrow> True)"

text \<open>
  The calls are the whole ones, notifications included. That they notify nobody while the queue is
  being drained, whoever observes, is for the guard of \<open>DrainNotifications\<close> to see to.
\<close>

inductive observer_calls :: "(PaneLifecycleProducer \<Rightarrow> 'o \<Rightarrow> 'o \<Rightarrow> bool)
    \<Rightarrow> PaneLifecycleProducer \<times> 'o \<Rightarrow> PaneLifecycleProducer \<times> 'o \<Rightarrow> bool" for M where
  nothing: "observer_calls M w w"
| call: "observer_calls M w (p, obs) \<Longrightarrow> call_within M c \<Longrightarrow> producer_call observers c (p, obs) = Some w'
    \<Longrightarrow> observer_calls M w w'"
| other: "observer_calls M w (p, obs) \<Longrightarrow> M p obs obs' \<Longrightarrow> observer_calls M w (p, obs')"

lemma Finish_obs:
  assumes "mutation_within M mutation" "Finish_body i terminal mutation (p, obs) = (r, q, obs')"
  shows "obs' = obs \<or> (\<forall>p. M p obs obs')"
proof (cases mutation)
  case None
  then show ?thesis using assms(2) by (simp add: Finish_body_def Let_def split: if_splits option.splits)
next
  case (Some mutate)
  let ?p = "p\<lparr>m_MutationViolated := False, m_DestructionRequestedDuringMutation := False,
    m_IsExecutingFinishMutation := True\<rparr>"
  obtain threw p' o' where m: "mutate (?p, obs) = (threw, p', o')" by (cases "mutate (?p, obs)") auto
  have "snd (snd (Finish_body i terminal mutation (p, obs))) \<in> {obs, o'}"
    unfolding Finish_body_def Let_def Some prod.case option.case m
    by (simp split: option.split prod.split)
  then have "obs' = obs \<or> obs' = o'" using assms(2) by simp
  moreover have "o' = obs \<or> (\<forall>p. M p obs o')"
    using assms(1) Some m unfolding mutation_within_def by blast
  ultimately show ?thesis by blast
qed

lemma Destruction_extends:
  assumes ok: "producer_ok p" and r: "ShutdownForDestruction_body p = (drains, q)"
  shows "\<exists>batch. adds_events p q batch \<and> (\<not> drains \<longrightarrow> batch = [])"
  using assms shut_down_extends [OF ok] producer_okD(3) [OF ok]
  by (simp add: ShutdownForDestruction_body_def)

lemma mutation_within_ok:
  "mutation_within M mutation \<Longrightarrow> \<forall>mutate. mutation = Some mutate \<longrightarrow> mutation_ok mutate"
  by (simp add: mutation_within_def)

lemma notifying_call:
  "notifying_at t p \<Longrightarrow> \<exists>batch. adds_events p q batch \<and> (\<not> drains \<longrightarrow> batch = []) \<Longrightarrow>
    notifying_at t q \<and> pr_PaneId q = pr_PaneId p"
  using notifying_extends by (auto simp: adds_events_def same_mode_def)

lemma notifying_ok: "notifying_at t p \<Longrightarrow> producer_ok p"
  by (simp add: notifying_at_def producer_at_def)

lemma nested_draining:
  "m_IsNotifying q \<Longrightarrow> draining observers ((r, drains), q, obs) = Some (r, q, obs)"
  by (simp add: draining_def DrainNotifications_def)

text \<open>A call from inside a notification: its events are queued, and nobody is told yet.\<close>

lemma nested_step:
  assumes n: "notifying_at t p" and b: "\<exists>batch. adds_events p q' batch \<and> (\<not> drains \<longrightarrow> batch = [])"
    and d: "map_option snd (draining observers ((x, drains), q', obs')) = Some (q, obs'')"
  shows "notifying_at t q \<and> pr_PaneId q = pr_PaneId p \<and> obs'' = obs'"
proof -
  have q': "notifying_at t q' \<and> pr_PaneId q' = pr_PaneId p" by (rule notifying_call [OF n b])
  then have "m_IsNotifying q'" by (simp add: notifying_at_def)
  with d have "q' = q" "obs'' = obs'" by (simp_all only: nested_draining option.map snd_conv option.inject prod.inject)
  with q' show ?thesis by simp
qed

lemma nested_call:
  assumes n: "notifying_at t p" and c: "call_within M c"
    and run: "producer_call observers c (p, obs) = Some (q, obs')"
  shows "notifying_at t q \<and> pr_PaneId q = pr_PaneId p \<and> (obs' = obs \<or> (\<forall>p. M p obs obs'))"
proof -
  have ok: "producer_ok p" using n by (rule notifying_ok)
  show ?thesis
  proof (cases c)
    case (Call_Start d)
    obtain x drains q' where b: "Start_body d p = ((x, drains), q')" by (cases "Start_body d p") auto
    have "map_option snd (draining observers ((x, drains), q', obs)) = Some (q, obs')"
      using run by (simp add: Call_Start Start_def b)
    from nested_step [OF n Start_extends [OF ok b] this] show ?thesis by blast
  next
    case (Call_Reject d rejection)
    obtain x drains q' where b: "Reject_body d rejection p = ((x, drains), q')" by (cases "Reject_body d rejection p") auto
    have "map_option snd (draining observers ((x, drains), q', obs)) = Some (q, obs')"
      using run by (simp add: Call_Reject Reject_def b)
    from nested_step [OF n Reject_extends [OF ok b] this] show ?thesis by blast
  next
    case (Call_Supersede d)
    obtain x drains q' where b: "SupersedeAndStart_body d p = ((x, drains), q')" by (cases "SupersedeAndStart_body d p") auto
    have "map_option snd (draining observers ((x, drains), q', obs)) = Some (q, obs')"
      using run by (simp add: Call_Supersede SupersedeAndStart_def b)
    from nested_step [OF n Supersede_extends [OF ok b] this] show ?thesis by blast
  next
    case (Call_Finish i terminal mutation)
    obtain x drains q' o' where b: "Finish_body i terminal mutation (p, obs) = ((x, drains), q', o')"
      by (cases "Finish_body i terminal mutation (p, obs)") auto
    have mu: "mutation_within M mutation" using c Call_Finish by (simp add: call_within_def)
    have "map_option snd (draining observers ((x, drains), q', o')) = Some (q, obs')"
      using run by (simp add: Call_Finish Finish_def b)
    from nested_step [OF n Finish_extends [OF ok mutation_within_ok [OF mu] b] this] Finish_obs [OF mu b]
    show ?thesis by blast
  next
    case Call_Shutdown
    obtain x drains q' where b: "Shutdown_body p = ((x, drains), q')" by (cases "Shutdown_body p") auto
    have "map_option snd (draining observers ((x, drains), q', obs)) = Some (q, obs')"
      using run by (simp add: Call_Shutdown Shutdown_def b)
    from nested_step [OF n Shutdown_extends(2) [OF ok b] this] show ?thesis by blast
  next
    case Call_Destroy
    obtain drains q' where b: "ShutdownForDestruction_body p = (drains, q')"
      by (cases "ShutdownForDestruction_body p") auto
    have "map_option snd (draining observers ((Inr (), drains), q', obs)) = Some (q, obs')"
      using run by (simp add: Call_Destroy ShutdownForDestruction_def b)
    from nested_step [OF n Destruction_extends [OF ok b] this] show ?thesis by blast
  qed
qed

lemma observer_calls_at:
  assumes "observer_calls M w w'" "notifying_at t (fst w)" "pr_PaneId (fst w) = pane" "I (snd w)"
    and M: "\<And>p obs obs'. notifying_at t p \<Longrightarrow> pr_PaneId p = pane \<Longrightarrow> M p obs obs' \<Longrightarrow> I obs \<Longrightarrow> I obs'"
  shows "notifying_at t (fst w') \<and> pr_PaneId (fst w') = pane \<and> I (snd w')"
  using assms(1-4)
proof (induction rule: observer_calls.induct)
  case (nothing w)
  then show ?case by simp
next
  case (call w p obs c observers w')
  obtain q obs' where w': "w' = (q, obs')" by (cases w')
  have w: "notifying_at t p" "pr_PaneId p = pane" "I obs" using call(4) [OF call(5-7)] by simp_all
  note nested = nested_call [OF w(1) call(2) call(3) [unfolded w']]
  then have "I obs'" using M [OF w(1,2) _ w(3)] w(3) by blast
  with nested w(2) w' show ?case by simp
next
  case (other w p obs obs')
  have w: "notifying_at t p" "pr_PaneId p = pane" "I obs" using other(3) [OF other(4-6)] by simp_all
  show ?case using M [OF w(1,2) other(2) w(3)] w by simp
qed

section \<open>Observers\<close>

text \<open>\<open>within\<close> is what observers do as long as they keep to the calls above.\<close>

definition within :: "(PaneLifecycleProducer \<Rightarrow> 'o \<Rightarrow> 'o \<Rightarrow> bool) \<Rightarrow> 'o observers \<Rightarrow> 'o observers" where
  "within M react e w = (if observer_calls M w (react e w) then react e w else w)"

lemma within_id: "\<forall>e w. observer_calls M w (react e w) \<Longrightarrow> within M react = react"
  by (intro ext) (metis within_def)

lemma within_calls: "observer_calls M w (within M react e w)"
  by (simp add: within_def observer_calls.nothing)

lemma pop_notification_None [simp]: "pop_notification (p, obs) = None \<longleftrightarrow> m_PendingNotifications p = []"
  by (simp add: pop_notification_def split: list.split)

lemma idle_now: "idle_at s p \<Longrightarrow> s = producer_now p"
  by (auto simp: idle_at_def producer_at_def)

lemma producer_at_modes [simp]:
  "producer_at s (p\<lparr>m_IsNotifying := v\<rparr>) = producer_at s p"
  "producer_at s (p\<lparr>m_ActiveNotification := x\<rparr>) = producer_at s p"
  by (auto simp: producer_at_def producer_now_def producer_ok_def retained_ok_def capacity_defs
    split: option.splits)

locale lifecycle_observer =
  fixes fire :: "'o observers" and sees :: "PaneId \<Rightarrow> stream \<Rightarrow> 'o \<Rightarrow> bool"
  assumes fires: "notifying_at t p \<Longrightarrow> m_ActiveNotification p = Some e \<Longrightarrow> sees (pr_PaneId p) s obs
    \<Longrightarrow> stream_ok s \<Longrightarrow> stream_step (pr_PaneId p) e s = Some t \<Longrightarrow> fire e (p, obs) = (q, obs')
    \<Longrightarrow> notifying_at t q \<and> pr_PaneId q = pr_PaneId p \<and> sees (pr_PaneId p) t obs'"
begin

definition loop_at :: "PaneId \<Rightarrow> stream \<Rightarrow> PaneLifecycleProducer \<times> 'o \<Rightarrow> bool" where
  "loop_at pane s = (\<lambda>(p, obs). producer_at s p \<and> m_IsNotifying p \<and> pr_PaneId p = pane \<and> sees pane s obs)"

lemma pop_fire:
  assumes l: "loop_at pane s w" and pop: "pop_notification w = Some (e, w')"
  shows "\<exists>t. loop_at pane t (fire e w') \<and> 2 ^ 64 - s_event t < 2 ^ 64 - s_event s"
proof -
  obtain p obs where w: "w = (p, obs)" by (cases w)
  then have at: "producer_at s p" "m_IsNotifying p" "pr_PaneId p = pane" "sees pane s obs"
    using l by (simp_all add: loop_at_def)
  from pop w obtain es where es: "m_PendingNotifications p = e # es"
    and w': "w' = (p\<lparr>m_ActiveNotification := Some e, m_PendingNotifications := es\<rparr>, obs)"
    by (auto simp: pop_notification_def split: list.splits)
  let ?p = "p\<lparr>m_ActiveNotification := Some e, m_PendingNotifications := es\<rparr>"
  from at(1,3) es obtain t where t: "stream_step pane e s = Some t"
    "replay pane es t = Some (producer_now p)"
    by (auto simp: producer_at_def split: bind_splits)
  note ev = stream_step_event [OF t(1)]
  have "producer_at t ?p"
    using at(1,3) es t(2) stream_step_ok [OF t(1)] ev
    by (auto simp: producer_at_def producer_now_def producer_ok_def retained_ok_def capacity_defs
      cong: option.case_cong)
  then have n: "notifying_at t ?p" using at(2) ev by (auto simp: notifying_at_def)
  obtain q obs' where f: "fire e w' = (q, obs')" by (cases "fire e w'")
  have "notifying_at t q \<and> pr_PaneId q = pane \<and> sees pane t obs'"
    using fires [OF n, of e s obs q obs'] at t(1) f w' by (simp add: producer_at_def)
  moreover have "2 ^ 64 - s_event t < (2 ^ 64 - s_event s :: nat)"
    using ev stream_step_bound [OF t(1)] by simp
  ultimately show ?thesis using f by (auto simp: loop_at_def notifying_at_def)
qed

sublocale queue: drained_queue pop_notification fire "loop_at pane" "\<lambda>s. 2 ^ 64 - s_event s" for pane
  by unfold_locales (rule pop_fire)

text \<open>Draining ends, with nothing pending and every observer where the producer is.\<close>

lemma Drain_at:
  assumes "producer_at s p" "pr_PaneId p = pane" "sees pane s obs" "\<not> m_IsNotifying p"
  shows "\<exists>q obs'. DrainNotifications fire (p, obs) = Some (q, obs') \<and> idle_at (producer_now q) q
    \<and> pr_PaneId q = pane \<and> sees pane (producer_now q) obs'"
proof -
  let ?p = "p\<lparr>m_IsNotifying := True\<rparr>"
  have "loop_at pane s (?p, obs)" using assms by (simp add: loop_at_def)
  from queue.drains [OF this] obtain t q obs' where d:
    "drain_loop pop_notification fire (?p, obs) = Some (q, obs')" "loop_at pane t (q, obs')"
    "m_PendingNotifications q = []"
    by fastforce
  let ?q = "q\<lparr>m_ActiveNotification := None, m_IsNotifying := False\<rparr>"
  from d(2,3) have "producer_at t ?q" "t = producer_now q" "pr_PaneId q = pane" "sees pane t obs'"
    by (simp_all add: loop_at_def, simp add: producer_at_def)
  moreover have "producer_now ?q = producer_now q" by (simp add: producer_now_def)
  ultimately show ?thesis using assms(4) d(1,3)
    by (auto simp: DrainNotifications_def idle_at_def)
qed

text \<open>A call from outside: it returns, and leaves everything at rest.\<close>

lemma call_at:
  assumes idle: "idle_at s p" and pane: "pr_PaneId p = pane" and sees: "sees pane s obs"
    and b: "\<exists>batch. adds_events p q batch \<and> (\<not> drains \<longrightarrow> batch = [])"
  shows "\<exists>q' obs'. draining fire ((r, drains), q, obs) = Some (r, q', obs')
    \<and> idle_at (producer_now q') q' \<and> pr_PaneId q' = pane \<and> sees pane (producer_now q') obs'"
proof -
  from b obtain batch where e: "adds_events p q batch" "\<not> drains \<longrightarrow> batch = []" by blast
  have q: "producer_at s q" "pr_PaneId q = pane" "\<not> m_IsNotifying q"
    using idle e(1) adds_at pane by (auto simp: idle_at_def adds_events_def same_mode_def)
  show ?thesis
  proof (cases drains)
    case True
    then show ?thesis using Drain_at [OF q(1,2) sees q(3)] by (auto simp: draining_def)
  next
    case False
    then have "idle_at s q" using idle_extends [OF idle] e by simp
    moreover from this have "s = producer_now q" by (rule idle_now)
    ultimately show ?thesis using False q sees by (auto simp: draining_def)
  qed
qed

text \<open>All calls at once, with mutations that leave the observers where they are.\<close>

definition mutation_keeps :: "'o LifecycleCall \<Rightarrow> bool" where
  "mutation_keeps c \<longleftrightarrow> (case c of
     Call_Finish i terminal (Some mutate) \<Rightarrow> mutation_ok mutate \<and>
       (\<forall>p obs threw q obs' pane s. mutate (p, obs) = (threw, q, obs') \<longrightarrow> sees pane s obs \<longrightarrow> sees pane s obs')
   | _ \<Rightarrow> True)"

lemma producer_call_at:
  assumes idle: "idle_at s p" and pane: "pr_PaneId p = pane" and sees: "sees pane s obs"
    and c: "mutation_keeps c"
  shows "\<exists>q obs'. producer_call fire c (p, obs) = Some (q, obs') \<and> idle_at (producer_now q) q
    \<and> pr_PaneId q = pane \<and> sees pane (producer_now q) obs'"
proof -
  have ok: "producer_ok p" using idle by (simp add: idle_at_def producer_at_def)
  note at = call_at [OF idle pane sees]
  show ?thesis
  proof (cases c)
    case (Call_Start d)
    obtain x drains q where b: "Start_body d p = ((x, drains), q)" by (cases "Start_body d p") auto
    from at [OF Start_extends [OF ok b], of x] b Call_Start show ?thesis by (auto simp: Start_def)
  next
    case (Call_Reject d rejection)
    obtain x drains q where b: "Reject_body d rejection p = ((x, drains), q)"
      by (cases "Reject_body d rejection p") auto
    from at [OF Reject_extends [OF ok b], of x] b Call_Reject show ?thesis by (auto simp: Reject_def)
  next
    case (Call_Supersede d)
    obtain x drains q where b: "SupersedeAndStart_body d p = ((x, drains), q)"
      by (cases "SupersedeAndStart_body d p") auto
    from at [OF Supersede_extends [OF ok b], of x] b Call_Supersede show ?thesis
      by (auto simp: SupersedeAndStart_def)
  next
    case (Call_Finish i terminal mutation)
    obtain x drains q obs' where b: "Finish_body i terminal mutation (p, obs) = ((x, drains), q, obs')"
      by (cases "Finish_body i terminal mutation (p, obs)") auto
    have mu: "\<forall>mutate. mutation = Some mutate \<longrightarrow> mutation_ok mutate"
      and keeps: "mutation_within (\<lambda>_ o1 o2. \<forall>pane s. sees pane s o1 \<longrightarrow> sees pane s o2) mutation"
      using c Call_Finish by (auto simp: mutation_keeps_def mutation_within_def)
    have "sees pane s obs'" using Finish_obs [OF keeps b] sees by blast
    from call_at [OF idle pane this Finish_extends [OF ok mu b], of x] b Call_Finish
    show ?thesis by (auto simp: Finish_def)
  next
    case Call_Shutdown
    obtain x drains q where b: "Shutdown_body p = ((x, drains), q)" by (cases "Shutdown_body p") auto
    from at [OF Shutdown_extends(2) [OF ok b], of x] b Call_Shutdown show ?thesis
      by (auto simp: Shutdown_def)
  next
    case Call_Destroy
    obtain drains q where b: "ShutdownForDestruction_body p = (drains, q)"
      by (cases "ShutdownForDestruction_body p") auto
    from at [OF Destruction_extends [OF ok b], of "Inr ()"] b Call_Destroy show ?thesis
      by (auto simp: ShutdownForDestruction_def)
  qed
qed

lemma producer_calls_at:
  assumes "idle_at s p" "pr_PaneId p = pane" "sees pane s obs" "\<forall>c \<in> set cs. mutation_keeps c"
  shows "\<exists>q obs'. producer_calls fire cs (p, obs) = Some (q, obs') \<and> idle_at (producer_now q) q
    \<and> pr_PaneId q = pane \<and> sees pane (producer_now q) obs'"
  using assms
proof (induction cs arbitrary: s p obs)
  case Nil
  then show ?case using idle_now [of s p] by simp
next
  case (Cons c cs)
  then obtain q obs' where c: "producer_call fire c (p, obs) = Some (q, obs')"
    "idle_at (producer_now q) q" "pr_PaneId q = pane" "sees pane (producer_now q) obs'"
    using producer_call_at [OF Cons.prems(1-3), of c] by auto
  from Cons.IH [OF c(2-4)] Cons.prems(4) c(1) show ?case by simp
qed

end

text \<open>The producer as it is made.\<close>

lemma made_idle:
  assumes "PaneLifecycleProducer_make pane max_id max_sequence = Inr p"
  shows "idle_at stream_init p" "pr_PaneId p = pane" "producer_now p = stream_init"
proof -
  have p: "max_id \<noteq> 0" "max_sequence \<noteq> 0" and def: "p = \<lparr>pr_PaneId = pane, maximum_request_id = max_id,
      maximum_event_sequence = max_sequence, m_NextRequestId = 1, m_NextEventSequence = 1,
      m_ActiveRequest = None, m_RetainedFailure = None, m_PendingNotifications = [],
      m_ActiveNotification = None, m_IsNotifying = False, m_Shutdown = False,
      m_IsExecutingFinishMutation = False, m_MutationViolated = False,
      m_DestructionRequestedDuringMutation = False\<rparr>"
    using assms by (auto simp: PaneLifecycleProducer_make_def split: if_splits)
  have one: "counter_ok 1 n" if "n \<noteq> 0" for n :: u64
    using that by (simp add: counter_ok_def word_le_nat_alt Suc_leI unat_gt_0)
  show now: "pr_PaneId p = pane" "producer_now p = stream_init"
    by (simp_all add: def producer_now_def stream_init_def counter_def)
  have fields: "m_ActiveRequest p = None" "m_RetainedFailure p = None" "m_PendingNotifications p = []"
    "m_ActiveNotification p = None" "\<not> m_IsNotifying p" "\<not> m_IsExecutingFinishMutation p"
    "counter_ok (m_NextEventSequence p) (maximum_event_sequence p)"
    "counter_ok (m_NextRequestId p) (maximum_request_id p)"
    using one p by (simp_all add: def)
  have "producer_ok p" using fields by (simp add: producer_ok_def retained_ok_def now)
  with fields show "idle_at stream_init p" by (simp add: idle_at_def producer_at_def now)
qed

end
