(* ===== verification/PaneBridge.thy ===== *)
theory PaneBridge
  imports PaneRuns
begin

text \<open>
  Two observers of the producer: one that records the events, and the store of the pane as
  \<open>PanelControllerPaneStoreAdapter\<close> connects it. Both stay where the stream is, whatever else the
  observers do; the store also when it joins in the middle of a notification.
\<close>

section \<open>A record of the events\<close>

definition same_log :: "PaneLifecycleProducer \<Rightarrow> PaneLifecycleEvent list \<times> 'x
    \<Rightarrow> PaneLifecycleEvent list \<times> 'x \<Rightarrow> bool" where
  "same_log p obs obs' \<longleftrightarrow> fst obs' = fst obs"

definition record_fire :: "(PaneLifecycleEvent list \<times> 'x) observers
    \<Rightarrow> (PaneLifecycleEvent list \<times> 'x) observers" where
  "record_fire react e = (\<lambda>(p, seen, x). react e (p, seen @ [e], x))"

definition record_sees :: "PaneId \<Rightarrow> stream \<Rightarrow> PaneLifecycleEvent list \<times> 'x \<Rightarrow> bool" where
  "record_sees pane s obs \<longleftrightarrow> replay pane (fst obs) stream_init = Some s"

lemma record_fires:
  assumes n: "notifying_at t p" and sees: "record_sees (pr_PaneId p) s obs"
    and step: "stream_step (pr_PaneId p) e s = Some t"
    and f: "record_fire (within same_log react) e (p, obs) = (q, obs')"
  shows "notifying_at t q \<and> pr_PaneId q = pr_PaneId p \<and> record_sees (pr_PaneId p) t obs'"
proof -
  obtain seen x where obs: "obs = (seen, x)" by (cases obs)
  let ?w = "(p, seen @ [e], x)"
  have "observer_calls same_log ?w (q, obs')"
    using f within_calls [of same_log ?w react e] by (simp add: record_fire_def obs)
  moreover have "record_sees (pr_PaneId p) t (seen @ [e], x)"
    using sees step by (simp add: record_sees_def obs replay_append)
  ultimately show ?thesis
    using observer_calls_at [where I = "record_sees (pr_PaneId p) t" and pane = "pr_PaneId p"] n
    by (fastforce simp: same_log_def record_sees_def)
qed

interpretation seen: lifecycle_observer "record_fire (within same_log react)" record_sees for react
  by unfold_locales (rule record_fires)

section \<open>The store\<close>

definition exhausted :: "PaneStoreAdapter \<Rightarrow> bool" where
  "exhausted a \<longleftrightarrow> snap_revision (m_Snapshot a) = - 1 \<or> snap_listing_generation (m_Snapshot a) = - 1"

definition store_ok :: "PaneStoreAdapter \<Rightarrow> bool" where
  "store_ok a \<longleftrightarrow> reducer_ok (m_Reducer a)
     \<and> same_pane (snap_state (m_Snapshot a)) (pane_state (m_Owned (m_Reducer a)))
     \<and> snap_pane_id (m_Snapshot a) = r_PaneId (m_Reducer a)"

text \<open>What every change of the reducer that goes through \<open>Adapter_Commit\<close> does to the store.\<close>

inductive shaped :: "PaneLifecycleReducer \<Rightarrow> PaneLifecycleReducerResult \<times> PaneLifecycleReducer \<Rightarrow> bool"
  for r where
  refused: "shaped r (refuse x, r)"
| commit: "shaped r (Reducer_Commit n x r)"

lemma shaped_if: "shaped r y \<Longrightarrow> shaped r z \<Longrightarrow> shaped r (if b then y else z)"
  by simp

lemmas shaped_rules = shaped_if shaped.intros

lemma Apply_payload_shaped: "shaped r (Apply_payload e projection r)"
  by (cases "event_payload e"; cases projection)
    (simp_all add: Apply_payload_def Apply_started_def Apply_committed_def Apply_failed_def
      Apply_cancelled_def Apply_superseded_def Apply_rejected_def Let_def shaped_rules)

lemma reduce_shaped: "shaped r (reduce c r)"
proof (cases c)
  case (Call_SeedActive a)
  then show ?thesis by (simp add: SeedActive_def shaped_rules)
next
  case (Call_SeedRetainedFailure a e n)
  then show ?thesis by (cases "event_payload e") (simp_all add: SeedRetainedFailure_def shaped_rules)
next
  case (Call_UpdateCommittedProjection p)
  then show ?thesis by (simp add: UpdateCommittedProjection_def Let_def shaped_rules)
next
  case (Call_Apply e p)
  then show ?thesis
    by (cases "ValidateSequence (event_sequence e) r")
      (simp_all add: Apply_def shaped_rules Apply_payload_shaped)
qed

lemma reduce_changed:
  "state_changed (fst (reduce c r)) \<longleftrightarrow>
    \<not> same_pane (pane_state (m_Owned (snd (reduce c r)))) (pane_state (m_Owned r))"
  using reduce_shaped [of r c]
  by cases (simp_all add: refuse_def Reducer_Commit_def Let_def)

lemma Adapter_Commit_cases:
  assumes ok: "store_ok a" and c: "Adapter_Commit (reduce c (m_Reducer a)) a = ((x, drains), a')"
  shows "store_ok a' \<and> m_RebuildScheduled a' = m_RebuildScheduled a \<and> (exhausted a \<longrightarrow> exhausted a')
    \<and> (exhausted a' \<or> x = Inr (fst (reduce c (m_Reducer a))) \<and> m_Reducer a' = snd (reduce c (m_Reducer a)))
    \<and> (case x of Inl _ \<Rightarrow> a' = a \<and> exhausted a
       | Inr result \<Rightarrow> result = fst (reduce c (m_Reducer a)) \<and> m_Reducer a' = snd (reduce c (m_Reducer a)))"
proof -
  obtain result candidate where r: "reduce c (m_Reducer a) = (result, candidate)"
    by (cases "reduce c (m_Reducer a)")
  have cand: "reducer_ok candidate" "r_PaneId candidate = r_PaneId (m_Reducer a)"
    using ok reduce_ok [of "m_Reducer a" c] reduce_pane [of c "m_Reducer a"] r by (simp_all add: store_ok_def)
  have changed: "state_changed result \<longleftrightarrow>
      \<not> same_pane (pane_state (m_Owned candidate)) (pane_state (m_Owned (m_Reducer a)))"
    using reduce_changed [of c "m_Reducer a"] r by simp
  show ?thesis
  proof (cases "state_changed result")
    case False
    then have "same_pane (snap_state (m_Snapshot a)) (pane_state (m_Owned candidate))"
      using changed ok same_pane_trans same_pane_sym unfolding store_ok_def by blast
    then show ?thesis using c r False cand ok
      by (auto simp: Adapter_Commit_def store_ok_def exhausted_def)
  next
    case True
    then show ?thesis using c r cand ok
      by (auto simp: Adapter_Commit_def store_ok_def exhausted_def Let_def split: if_splits)
  qed
qed

section \<open>Joining\<close>

text \<open>A reducer that has seen nothing, and what the pending events say about where the stream is.\<close>

definition unseeded :: "PaneLifecycleReducer \<Rightarrow> bool" where
  "unseeded r \<longleftrightarrow> last_event_sequence (m_Owned r) = None \<and> active_request (m_Owned r) = None
     \<and> expected_replacement (m_Owned r) = None"

lemma pending_seed_stream:
  assumes "replay pane es s = Some now" "s_expected now = None"
  shows "case pending_seed es of
      None \<Rightarrow> s_active s = s_active now \<and> s_expected s = None
        \<and> (\<forall>e \<in> set es. \<exists>rejection. event_payload e = Lifecycle_Rejected rejection)
    | Some a \<Rightarrow> s_active s = a"
  using assms
proof (induction es arbitrary: s)
  case Nil
  then show ?case by simp
next
  case (Cons e es)
  then obtain t where t: "stream_step pane e s = Some t" "replay pane es t = Some now"
    by (auto split: bind_splits)
  show ?case
  proof (cases "event_payload e")
    case (Lifecycle_Rejected rejection)
    then have "s_active t = s_active s" "s_expected s = None"
      using t(1) by (auto simp: stream_step_def stream_payload_def split: if_splits)
    then show ?thesis using Cons.IH [OF t(2) Cons.prems(2)] Lifecycle_Rejected
      by (auto split: option.splits)
  qed (use t(1) in \<open>auto simp: stream_step_def stream_payload_def request_of_def
      IsPaneLifecycleAcceptedTerminal_def split: if_splits\<close>)
qed

definition joinable :: "stream \<Rightarrow> PaneLifecycleProducer \<Rightarrow> bool" where
  "joinable s p \<longleftrightarrow> idle_at s p \<or> notifying_at s p"

lemma joinable_at: "joinable s p \<Longrightarrow> producer_at s p"
  by (auto simp: joinable_def idle_at_def notifying_at_def)

text \<open>The checkpoint of a retained failure is the last event that the observers have got.\<close>

lemma joinable_checkpoint:
  assumes "joinable s p"
  shows "unat (case m_ActiveNotification p of Some e \<Rightarrow> event_sequence e
    | None \<Rightarrow> PreviousEventSequence p) + 1 = s_event s"
proof (cases "idle_at s p")
  case True
  then have "s = producer_now p" "producer_ok p" "m_ActiveNotification p = None"
    using idle_now by (auto simp: idle_at_def producer_at_def)
  then show ?thesis
    by (auto simp: PreviousEventSequence_def producer_now_def counter_def unat_minus_one
      unat_gt_0 Suc_diff_Suc)
next
  case False
  then show ?thesis using assms by (auto simp: joinable_def notifying_at_def)
qed

lemma SeedActive_follows:
  assumes "unseeded r" "s_active s = Some a" "active_id a \<noteq> 0"
  shows "status (fst (SeedActive a r)) \<notin> refusals \<and> follows s (snd (SeedActive a r))"
  using assms by (auto simp: SeedActive_def unseeded_def follows_def)

lemma SeedRetainedFailure_follows:
  assumes "unseeded r" "s_active s = None" "event_payload f = Lifecycle_Failed error"
    and "event_pane_id f = r_PaneId r" "event_request_id f \<noteq> 0" "event_sequence f \<noteq> 0"
    and "unat (event_sequence f) < s_event s" "unat checkpoint + 1 = s_event s"
  shows "status (fst (SeedRetainedFailure (request_of f) f checkpoint r)) \<notin> refusals
    \<and> follows s (snd (SeedRetainedFailure (request_of f) f checkpoint r))"
  using assms by (auto simp: SeedRetainedFailure_def unseeded_def follows_def request_of_def
    word_less_nat_alt)

text \<open>Where a subscription leaves a reducer: the seed is accepted, and it is where the stream is.\<close>

lemma Subscribe_cases:
  assumes j: "joinable s p"
  obtains (idle) "retained_failure (Subscribe p) = None" "seed_request (Subscribe p) = None"
      "s_active s = None"
  | (active) a where "retained_failure (Subscribe p) = None" "seed_request (Subscribe p) = Some a"
      "s_active s = Some a" "active_id a \<noteq> 0"
  | (failure) f error where "retained_failure (Subscribe p) = Some f"
      "seed_request (Subscribe p) = Some (request_of f)" "s_active s = None"
      "event_payload f = Lifecycle_Failed error" "event_pane_id f = pr_PaneId p"
      "event_request_id f \<noteq> 0" "event_sequence f \<noteq> 0" "unat (event_sequence f) < s_event s"
      "unat (checkpoint_sequence (Subscribe p)) + 1 = s_event s"
proof -
  note at = joinable_at [OF j]
  have now: "replay (pr_PaneId p) (m_PendingNotifications p) s = Some (producer_now p)"
    "s_expected (producer_now p) = None" "s_active (producer_now p) = m_ActiveRequest p" "retained_ok p"
    using at by (auto simp: producer_at_def producer_now_def producer_ok_def)
  note seed = pending_seed_stream [OF now(1,2)]
  have ids: "s_active s = Some a \<Longrightarrow> active_id a \<noteq> 0" for a
    using at by (simp add: producer_at_def stream_ok_def)
  show thesis
  proof (cases "pending_seed (m_PendingNotifications p)")
    case (Some x)
    then have x: "s_active s = x" using seed by simp
    show thesis
    proof (cases x)
      case None
      then show thesis using Some x by - (rule idle, simp_all add: Subscribe_def)
    next
      case a: (Some a)
      then show thesis using Some x ids active [of a] by (simp add: Subscribe_def)
    qed
  next
    case None
    note rejections = seed [unfolded None option.case]
    show thesis
    proof (cases "m_ActiveRequest p")
      case (Some a)
      then show thesis using None rejections now(3) ids active [of a] by (simp add: Subscribe_def)
    next
      case a: None
      show thesis
      proof (cases "m_RetainedFailure p")
        case f: None
        then show thesis using None a rejections now(3) by - (rule idle, simp_all add: Subscribe_def)
      next
        case (Some f)
        then obtain error where f: "event_payload f = Lifecycle_Failed error"
          "event_pane_id f = pr_PaneId p" "event_request_id f \<noteq> 0" "event_sequence f \<noteq> 0"
          using now(4) by (auto simp: retained_ok_def)
        have "f \<notin> set (m_PendingNotifications p)" using rejections f(1) by auto
        then have "unat (event_sequence f) < s_event s" using at Some by (auto simp: producer_at_def)
        with f failure [of f error] show thesis
          using None a Some rejections now(3) joinable_checkpoint [OF j] by (simp add: Subscribe_def)
      qed
    qed
  qed
qed

section \<open>The bridge\<close>

text \<open>What an observer may do to the bridge, and what happens to it from outside.\<close>

inductive bridge_moves :: "PaneLifecycleProducer \<Rightarrow> PaneBridge \<Rightarrow> PaneBridge \<Rightarrow> bool" for p where
  engine: "bridge_moves p b (b\<lparr>ReadState := x\<rparr>)"
| make: "\<not> m_LifecycleObservation b \<Longrightarrow> PaneStoreAdapter_make (pr_PaneId p) (ReadState b False) = Inr a
    \<Longrightarrow> bridge_moves p b (b\<lparr>m_Store := a\<rparr>)"
| schedule: "ScheduleRebuild (m_Store b) = (handed, a) \<Longrightarrow> bridge_moves p b (b\<lparr>m_Store := a\<rparr>)"
| rebuild: "RunScheduledRebuild_body (ReadState b False) (m_Store b) = (r, a)
    \<Longrightarrow> bridge_moves p b (b\<lparr>m_Store := a\<rparr>)"
| deliver: "pop_snapshot (m_Store b, ()) = Some (n, a, ()) \<Longrightarrow> bridge_moves p b (b\<lparr>m_Store := a\<rparr>)"
| observe: "\<not> m_LifecycleObservation b \<Longrightarrow> StartObservingLifecycle p b = (x, b') \<Longrightarrow> bridge_moves p b b'"

definition bridge_sees :: "PaneId \<Rightarrow> stream \<Rightarrow> PaneBridge \<Rightarrow> bool" where
  "bridge_sees pane s b \<longleftrightarrow> store_ok (m_Store b) \<and> r_PaneId (m_Reducer (m_Store b)) = pane
     \<and> (terminated b \<longrightarrow> exhausted (m_Store b))
     \<and> (if m_LifecycleObservation b then exhausted (m_Store b) \<or> follows s (m_Reducer (m_Store b))
        else \<not> terminated b \<and> unseeded (m_Reducer (m_Store b)))"

lemma made_store:
  assumes "PaneStoreAdapter_make pane x = Inr a"
  shows "store_ok a" "unseeded (m_Reducer a)" "r_PaneId (m_Reducer a) = pane"
proof -
  from assms obtain r where r: "PaneLifecycleReducer_make pane x = Inr r"
    and a: "m_Reducer a = r" "snap_state (m_Snapshot a) = pane_state (m_Owned r)"
      "snap_pane_id (m_Snapshot a) = pane"
    by (cases "PaneLifecycleReducer_make pane x") (auto simp: PaneStoreAdapter_make_def)
  from r have "r_PaneId r = pane" "unseeded r"
    by (auto simp: PaneLifecycleReducer_make_def unseeded_def split: if_splits)
  with a make_ok [OF r] show "store_ok a" "unseeded (m_Reducer a)" "r_PaneId (m_Reducer a) = pane"
    by (simp_all add: store_ok_def)
qed

lemma bridge_commit:
  assumes sees: "bridge_sees pane s b" and c: "Adapter_Commit (reduce c (m_Reducer a)) a = ((x, drains), a')"
    and a: "a = m_Store b \<or> a = (m_Store b)\<lparr>m_RebuildScheduled := v\<rparr>"
    and follows: "follows s (m_Reducer (m_Store b)) \<Longrightarrow> follows t (snd (reduce c (m_Reducer a)))"
    and unseeded: "\<not> m_LifecycleObservation b \<Longrightarrow> unseeded (m_Reducer (m_Store b)) \<Longrightarrow> unseeded (snd (reduce c (m_Reducer a)))"
  shows "bridge_sees pane t (b\<lparr>m_Store := a'\<rparr>)"
proof -
  have same: "m_Reducer a = m_Reducer (m_Store b)" "exhausted a = exhausted (m_Store b)" "store_ok a"
    using a sees by (auto simp: bridge_sees_def store_ok_def exhausted_def)
  note c = Adapter_Commit_cases [OF same(3) c]
  have "r_PaneId (m_Reducer a') = pane"
    using c sees reduce_pane [of c "m_Reducer a"] same(1)
    by (cases x) (auto simp: bridge_sees_def)
  moreover have "unseeded (m_Reducer a')" if "\<not> m_LifecycleObservation b" "unseeded (m_Reducer (m_Store b))"
    using c unseeded [OF that] that same(1) by (cases x) auto
  ultimately show ?thesis using c sees same follows
    by (cases x) (auto simp: bridge_sees_def)
qed

lemma update_untouched: "unseeded r \<Longrightarrow> unseeded (snd (UpdateCommittedProjection c r))"
  by (auto simp: UpdateCommittedProjection_def Let_def unseeded_def ClearTerminalOverlay_def)

lemma rebuild_sees:
  assumes sees: "bridge_sees pane s b" and r: "RunScheduledRebuild_body read (m_Store b) = (r, a)"
  shows "bridge_sees pane s (b\<lparr>m_Store := a\<rparr>)"
proof (cases "m_RebuildScheduled (m_Store b)")
  case False
  then show ?thesis using assms by (auto simp: RunScheduledRebuild_body_def)
next
  case True
  let ?a = "(m_Store b)\<lparr>m_RebuildScheduled := False\<rparr>"
  obtain x drains a' where c: "Adapter_Commit
      (reduce (Call_UpdateCommittedProjection read) (m_Reducer ?a)) ?a = ((x, drains), a')"
    by (cases "Adapter_Commit (reduce (Call_UpdateCommittedProjection read) (m_Reducer ?a)) ?a") auto
  then have "a = a'" using r True
    by (auto simp: RunScheduledRebuild_body_def Let_def split: sum.splits)
  with bridge_commit [OF sees c, of False s] show ?thesis
    by (simp add: follows_update update_untouched)
qed

text \<open>The seeding, with the result that the object that owns the store looks at.\<close>

lemma seed_sees:
  assumes sees: "bridge_sees pane s b" "\<not> m_LifecycleObservation b"
    and c: "Adapter_Commit (reduce c (m_Reducer (m_Store b))) (m_Store b) = ((r, drains), a)"
    and ok: "status (fst (reduce c (m_Reducer (m_Store b)))) \<in> {Reducer_Applied, Reducer_NoVisibleChange}"
      "follows s (snd (reduce c (m_Reducer (m_Store b))))"
    and q: "seeded ((r, drains), a) (b\<lparr>m_LifecycleObservation := True\<rparr>) = (x, b')"
  shows "bridge_sees pane s b' \<and> m_LifecycleObservation b' \<and> (exhausted (m_Store b') \<or> x = Inr ())"
proof -
  have store: "store_ok (m_Store b)" using sees(1) by (simp add: bridge_sees_def)
  note c = Adapter_Commit_cases [OF store c]
  have b': "b' = b\<lparr>m_LifecycleObservation := True, m_Store := a\<rparr>"
    using q by (auto simp: seeded_def)
  have "r_PaneId (m_Reducer a) = pane"
    using c sees(1) reduce_pane [of c "m_Reducer (m_Store b)"] by (cases r) (auto simp: bridge_sees_def)
  then show ?thesis using c sees ok q b'
    by (cases r) (auto simp: bridge_sees_def seeded_def)
qed

lemma seed_status:
  "status (fst (SeedActive a r)) \<notin> refusals \<Longrightarrow>
    status (fst (SeedActive a r)) \<in> {Reducer_Applied, Reducer_NoVisibleChange}"
  "status (fst (SeedRetainedFailure a f n r)) \<notin> refusals \<Longrightarrow>
    status (fst (SeedRetainedFailure a f n r)) \<in> {Reducer_Applied, Reducer_NoVisibleChange}"
  by (auto simp: SeedActive_def SeedRetainedFailure_def refuse_def refusals_def Reducer_Commit_def Let_def
    split: PaneLifecycleEventPayload.splits if_splits)

lemma observe_sees:
  assumes j: "joinable s p" "pr_PaneId p = pane" and sees: "bridge_sees pane s b" "\<not> m_LifecycleObservation b"
    and o: "StartObservingLifecycle p b = (x, b')"
  shows "bridge_sees pane s b' \<and> m_LifecycleObservation b' \<and> (exhausted (m_Store b') \<or> x = Inr ())"
proof -
  let ?r = "m_Reducer (m_Store b)"
  have u: "unseeded ?r" "r_PaneId ?r = pr_PaneId p" using sees j by (simp_all add: bridge_sees_def)
  from j(1) show ?thesis
  proof (cases rule: Subscribe_cases)
    case idle
    then have "x = Inr ()" "b' = b\<lparr>m_LifecycleObservation := True\<rparr>"
      using o by (auto simp: StartObservingLifecycle_def Let_def)
    moreover have "follows s ?r" using u(1) idle(3) by (simp add: unseeded_def follows_def)
    ultimately show ?thesis using sees by (simp add: bridge_sees_def)
  next
    case (active a)
    obtain r drains s' where c: "SeedActiveLifecycle_body a (m_Store b) = ((r, drains), s')"
      by (cases "SeedActiveLifecycle_body a (m_Store b)") auto
    note f = SeedActive_follows [OF u(1) active(3,4)]
    show ?thesis
      by (rule seed_sees [OF sees, of "Call_SeedActive a" r drains s'])
        (use c f seed_status(1) o active in
          \<open>auto simp: SeedActiveLifecycle_body_def StartObservingLifecycle_def Let_def\<close>)
  next
    case (failure f error)
    let ?n = "checkpoint_sequence (Subscribe p)"
    obtain r drains s' where c:
      "SeedRetainedLifecycleFailure_body (request_of f) f ?n (m_Store b) = ((r, drains), s')"
      by (cases "SeedRetainedLifecycleFailure_body (request_of f) f ?n (m_Store b)") auto
    have "0 < unat (event_sequence f)" using failure(7) by (simp add: unat_gt_0)
    then have "?n \<noteq> 0" using failure(8,9) by (intro notI) simp
    note g = SeedRetainedFailure_follows [OF u(1) failure(3,4) failure(5) [folded u(2)] failure(6-9)]
    show ?thesis
      by (rule seed_sees [OF sees, of "Call_SeedRetainedFailure (request_of f) f ?n" r drains s'])
        (use c g seed_status(2) o failure \<open>?n \<noteq> 0\<close> in
          \<open>auto simp: SeedRetainedLifecycleFailure_body_def StartObservingLifecycle_def Let_def\<close>)
  qed
qed

lemma moves_sees:
  assumes m: "bridge_moves p b b'" and j: "joinable t p" "pr_PaneId p = pane"
    and sees: "bridge_sees pane s b" and s: "m_LifecycleObservation b \<or> s = t"
  shows "bridge_sees pane s b' \<and> (m_LifecycleObservation b \<longrightarrow> m_LifecycleObservation b')"
  using m
proof cases
  case (engine x)
  then show ?thesis using sees by (simp add: bridge_sees_def)
next
  case (make a)
  then show ?thesis using sees j(2) made_store [OF make(3)] by (simp add: bridge_sees_def)
next
  case (schedule handed a)
  then show ?thesis using sees
    by (auto simp: ScheduleRebuild_def bridge_sees_def store_ok_def exhausted_def)
next
  case (rebuild r a)
  then show ?thesis using rebuild_sees [OF sees rebuild(2)] by simp
next
  case (deliver n a)
  then show ?thesis using sees
    by (auto simp: pop_snapshot_def bridge_sees_def store_ok_def exhausted_def split: list.splits)
next
  case (observe x)
  then show ?thesis using observe_sees [OF j _ observe(1)] sees s by blast
qed

lemma not_refused_tolerated: "y \<notin> refusals \<Longrightarrow> tolerated y"
  by (cases y) (simp_all add: tolerated_def refusals_def)

lemma event_sees:
  assumes sees: "bridge_sees pane s b" "m_LifecycleObservation b"
    and step: "stream_step pane e s = Some t" "stream_ok s"
  shows "bridge_sees pane t (OnLifecycleEvent e b)"
proof -
  let ?r = "m_Reducer (m_Store b)"
  define projection where "projection = (case event_payload e of
    Lifecycle_Committed _ _ \<Rightarrow> Some (ReadState b True) | _ \<Rightarrow> None)"
  obtain x drains a where c: "Adapter_Commit (reduce (Call_Apply e projection) ?r) (m_Store b) = ((x, drains), a)"
    by (cases "Adapter_Commit (reduce (Call_Apply e projection) ?r) (m_Store b)") auto
  have body: "ApplyLifecycleEvent_body e (ReadState b (case event_payload e of
      Lifecycle_Committed _ _ \<Rightarrow> True | _ \<Rightarrow> False)) (m_Store b) = ((x, drains), a)"
    using c by (simp add: ApplyLifecycleEvent_body_def projection_def Let_def
      split: PaneLifecycleEventPayload.split_asm PaneLifecycleEventPayload.split)
  have pane: "r_PaneId ?r = pane" "store_ok (m_Store b)" using sees by (simp_all add: bridge_sees_def)
  have f: "status (fst (Apply e projection ?r)) \<notin> refusals \<and> follows t (snd (Apply e projection ?r))"
    if "follows s ?r" using follows_step [OF that step(2)] step(1) pane by simp
  have "bridge_sees pane t (b\<lparr>m_LifecycleObservation := True, m_Store := a\<rparr>)"
  proof (cases "exhausted (m_Store b)")
    case True
    then show ?thesis
      using Adapter_Commit_cases [OF pane(2) c] sees pane(1) reduce_pane [of "Call_Apply e projection" ?r]
      by (cases x) (auto simp: bridge_sees_def)
  next
    case False
    then show ?thesis using bridge_commit [OF sees(1) c, of False t] f sees
      by (simp add: bridge_sees_def)
  qed
  moreover have "terminated (OnLifecycleEvent e b) \<longrightarrow> exhausted a"
  proof (cases "exhausted (m_Store b)")
    case True
    then show ?thesis using Adapter_Commit_cases [OF pane(2) c] by simp
  next
    case False
    then have "status (fst (Apply e projection ?r)) \<notin> refusals" "\<not> terminated b"
      using sees f by (auto simp: bridge_sees_def)
    moreover from this(1) have "tolerated (status (fst (Apply e projection ?r)))"
      by (rule not_refused_tolerated)
    ultimately show ?thesis using body Adapter_Commit_cases [OF pane(2) c]
      by (cases x) (auto simp: OnLifecycleEvent_def Let_def)
  qed
  moreover obtain v where "OnLifecycleEvent e b = b\<lparr>m_Store := a, terminated := v\<rparr>"
    using body by (cases x) (auto simp: OnLifecycleEvent_def Let_def)
  ultimately show ?thesis using sees(2) by (simp add: bridge_sees_def)
qed

text \<open>
  One notification: what other observers do before the turn of the store, the store if it was
  observing when the notification started, and what happens after.
\<close>

definition bridge_fire :: "PaneBridge observers \<Rightarrow> PaneBridge observers \<Rightarrow> PaneBridge observers" where
  "bridge_fire earlier later e = (\<lambda>(p, b).
    let observing = m_LifecycleObservation b; (p, b) = earlier e (p, b) in
    later e (p, if observing then OnLifecycleEvent e b else b))"

definition moving :: "PaneBridge observers \<Rightarrow> PaneBridge observers" where
  "moving = within bridge_moves"

lemma moving_sees:
  assumes n: "notifying_at t p" and sees: "bridge_sees pane s b" "m_LifecycleObservation b \<or> s = t"
    and pane: "pr_PaneId p = pane" and w: "moving react e (p, b) = (q, b')"
  shows "notifying_at t q \<and> pr_PaneId q = pane \<and> bridge_sees pane s b'
    \<and> (m_LifecycleObservation b \<longrightarrow> m_LifecycleObservation b')"
proof -
  let ?I = "\<lambda>b'. bridge_sees pane s b' \<and> (m_LifecycleObservation b \<longrightarrow> m_LifecycleObservation b')"
  have calls: "observer_calls bridge_moves (p, b) (q, b')"
    using w within_calls [of bridge_moves "(p, b)" react e] by (simp add: moving_def)
  have "?I c'" if "notifying_at t r" "pr_PaneId r = pane" "bridge_moves r c c'" "?I c" for r c c'
    using moves_sees [OF that(3) _ that(2), of t s] that sees(2) by (auto simp: joinable_def)
  then show ?thesis
    using observer_calls_at [OF calls, of t pane ?I] n pane sees(1) by auto
qed

lemma bridge_fires:
  assumes n: "notifying_at t p" and sees: "bridge_sees (pr_PaneId p) s b" and s: "stream_ok s"
    and step: "stream_step (pr_PaneId p) e s = Some t"
    and f: "bridge_fire (moving earlier) (moving later) e (p, b) = (q, b')"
  shows "notifying_at t q \<and> pr_PaneId q = pr_PaneId p \<and> bridge_sees (pr_PaneId p) t b'"
proof -
  define b0 where "b0 = b"
  obtain p1 b1 where w1: "moving earlier e (p, b) = (p1, b1)" by (cases "moving earlier e (p, b)")
  define b2 where "b2 = (if m_LifecycleObservation b then OnLifecycleEvent e b1 else b1)"
  have w2: "moving later e (p1, b2) = (q, b')" using f w1 by (simp add: bridge_fire_def b2_def Let_def)
  have b2: "notifying_at t p1 \<and> pr_PaneId p1 = pr_PaneId p \<and> bridge_sees (pr_PaneId p) t b2"
  proof (cases "m_LifecycleObservation b")
    case True
    from moving_sees [OF n sees _ refl w1] True
    have "notifying_at t p1" "pr_PaneId p1 = pr_PaneId p" "bridge_sees (pr_PaneId p) s b1"
      "m_LifecycleObservation b1" by simp_all
    with event_sees [OF this(3,4) step s] True show ?thesis by (simp add: b2_def)
  next
    case False
    then have "bridge_sees (pr_PaneId p) t b" using sees by (simp add: bridge_sees_def)
    from moving_sees [OF n this _ refl w1] False show ?thesis by (simp add: b2_def)
  qed
  then show ?thesis using moving_sees [of t p1 "pr_PaneId p" t b2 later e q b'] w2 by simp
qed

interpretation bridge: lifecycle_observer "bridge_fire (moving earlier) (moving later)" bridge_sees
  for earlier later
  by unfold_locales (rule bridge_fires)

section \<open>Runs\<close>

text \<open>
  One step from outside: a call of the producer, whose mutation may change what the state reader
  returns, or a move of the bridge.
\<close>

definition engine_mutation :: "PaneBridge mutation \<Rightarrow> bool" where
  "engine_mutation mutate \<longleftrightarrow> mutation_ok mutate \<and>
     (\<forall>p b threw q b'. mutate (p, b) = (threw, q, b') \<longrightarrow> (\<exists>x. b' = b\<lparr>ReadState := x\<rparr>))"

definition engine_call :: "PaneBridge LifecycleCall \<Rightarrow> bool" where
  "engine_call c \<longleftrightarrow> (case c of Call_Finish i terminal (Some mutate) \<Rightarrow> engine_mutation mutate | _ \<Rightarrow> True)"

inductive pane_step :: "PaneBridge observers \<Rightarrow> PaneLifecycleProducer \<times> PaneBridge
    \<Rightarrow> PaneLifecycleProducer \<times> PaneBridge \<Rightarrow> bool" for fire where
  call: "engine_call c \<Longrightarrow> producer_call fire c w = Some w' \<Longrightarrow> pane_step fire w w'"
| move: "bridge_moves p b b' \<Longrightarrow> pane_step fire (p, b) (p, b')"

definition pane_at :: "PaneId \<Rightarrow> PaneLifecycleProducer \<times> PaneBridge \<Rightarrow> bool" where
  "pane_at pane = (\<lambda>(p, b). idle_at (producer_now p) p \<and> pr_PaneId p = pane
     \<and> bridge_sees pane (producer_now p) b)"

lemma engine_keeps: "engine_call c \<Longrightarrow> bridge.mutation_keeps c"
  by (fastforce simp: engine_call_def engine_mutation_def bridge.mutation_keeps_def bridge_sees_def
    split: LifecycleCall.splits option.splits)

lemma pane_step_at:
  assumes "pane_step (bridge_fire (moving earlier) (moving later)) w w'" "pane_at pane w"
  shows "pane_at pane w'"
  using assms(1)
proof cases
  case (call c)
  obtain p b where w: "w = (p, b)" by (cases w)
  with assms(2) have "idle_at (producer_now p) p" "pr_PaneId p = pane" "bridge_sees pane (producer_now p) b"
    by (simp_all add: pane_at_def)
  from bridge.producer_call_at [OF this engine_keeps [OF call(1)], of earlier later] call(2) w
  show ?thesis by (auto simp: pane_at_def)
next
  case (move p b b')
  with assms(2) have "idle_at (producer_now p) p" "pr_PaneId p = pane" "bridge_sees pane (producer_now p) b"
    by (simp_all add: pane_at_def)
  then show ?thesis using moves_sees [OF move(3), of "producer_now p" pane "producer_now p"] move(2)
    by (simp add: pane_at_def joinable_def)
qed

lemma pane_run_at:
  "(pane_step (bridge_fire (moving earlier) (moving later)))\<^sup>*\<^sup>* w w' \<Longrightarrow> pane_at pane w \<Longrightarrow> pane_at pane w'"
  by (induction rule: rtranclp_induct) (auto intro: pane_step_at)

end
