(* ===== verification/PaneTheorems.thy ===== *)
theory PaneTheorems
  imports PaneBridge
begin

text \<open>
  The properties of the pane lifecycle: what the observers of the producer get, what the reducer and
  the store show, and that the two fit together. \<open>sample_store\<close> and \<open>sample_producer\<close> are concrete
  objects for the witnesses.
\<close>

section \<open>The events of a request\<close>

definition starts :: "PaneRequestId \<Rightarrow> PaneLifecycleEvent list \<Rightarrow> nat" where
  "starts i es = length (filter (\<lambda>e. event_request_id e = i \<and> event_payload e = Lifecycle_Started) es)"

definition ends :: "PaneRequestId \<Rightarrow> PaneLifecycleEvent list \<Rightarrow> nat" where
  "ends i es = length (filter (\<lambda>e. event_request_id e = i
     \<and> IsPaneLifecycleAcceptedTerminal (event_payload e)) es)"

definition is_active :: "PaneRequestId \<Rightarrow> PaneActiveRequest option \<Rightarrow> bool" where
  "is_active i a \<longleftrightarrow> (case a of Some a \<Rightarrow> active_id a = i | None \<Rightarrow> False)"

lemma replay_events:
  assumes "replay pane es stream_init = Some s"
  shows "map (\<lambda>e. unat (event_sequence e)) es = [1..<s_event s] \<and> stream_ok s
    \<and> (\<forall>i. ends i es + of_bool (is_active i (s_active s)) = starts i es \<and> starts i es \<le> 1)
    \<and> (\<forall>i. s_request s \<le> unat i \<longrightarrow> starts i es = 0)"
  using assms
proof (induction es arbitrary: s rule: rev_induct)
  case Nil
  then have "s = stream_init" by simp
  then show ?case using stream_init_ok
    by (simp add: starts_def ends_def is_active_def) (simp add: stream_init_def)
next
  case (snoc e es)
  then obtain s0 where s0: "replay pane es stream_init = Some s0" "stream_step pane e s0 = Some s"
    by (auto simp: replay_append split: bind_splits)
  note IH = snoc.IH [OF s0(1)] and ev = stream_step_event [OF s0(2)]
  have ok: "stream_ok s" using stream_step_ok [OF s0(2)] IH by blast
  have seq: "map (\<lambda>e. unat (event_sequence e)) (es @ [e]) = [1..<s_event s]"
    using IH ev by (auto simp: stream_ok_def)
  have counts: "ends i (es @ [e]) + of_bool (is_active i (s_active s)) = starts i (es @ [e])
      \<and> starts i (es @ [e]) \<le> 1 \<and> (s_request s \<le> unat i \<longrightarrow> starts i (es @ [e]) = 0)" for i
  proof -
    have h: "ends i es + of_bool (is_active i (s_active s0)) = starts i es" "starts i es \<le> 1"
      "s_request s0 \<le> unat i \<Longrightarrow> starts i es = 0" using IH by auto
    have same: "unat (event_request_id e) = unat i \<longleftrightarrow> event_request_id e = i"
      by (simp add: word_unat_eq_iff)
    show ?thesis
      using s0(2) h same
      by (cases "event_payload e"; cases "event_request_id e = i")
        (auto simp: stream_step_def stream_payload_def starts_def ends_def is_active_def request_of_def
          IsPaneLifecycleAcceptedTerminal_def split: if_splits)
  qed
  show ?case using seq ok counts by blast
qed

text \<open>A mutation of these calls may change what the other observers have, not the record.\<close>

definition recorded_call :: "(PaneLifecycleEvent list \<times> 'x) LifecycleCall \<Rightarrow> bool" where
  "recorded_call c \<longleftrightarrow> (case c of
     Call_Finish i terminal (Some mutate) \<Rightarrow> mutation_ok mutate \<and>
       (\<forall>p obs threw q obs'. mutate (p, obs) = (threw, q, obs') \<longrightarrow> fst obs' = fst obs)
   | _ \<Rightarrow> True)"

lemma recorded_keeps: "recorded_call c \<Longrightarrow> seen.mutation_keeps c"
  by (cases c) (auto simp: recorded_call_def seen.mutation_keeps_def record_sees_def split: option.splits, metis)

lemma recorded_run:
  assumes p: "PaneLifecycleProducer_make pane max_id max_sequence = Inr p"
    and react: "\<forall>e w. observer_calls same_log w (react e w)"
    and cs: "\<forall>c \<in> set cs. recorded_call c"
  shows "\<exists>q es y. producer_calls (record_fire react) cs (p, [], x) = Some (q, es, y)
    \<and> idle_at (producer_now q) q \<and> pr_PaneId q = pane
    \<and> replay pane es stream_init = Some (producer_now q)"
proof -
  have "record_sees pane stream_init ([], x)" by (simp add: record_sees_def)
  moreover have "\<forall>c \<in> set cs. seen.mutation_keeps c" using cs recorded_keeps by blast
  ultimately show ?thesis
    using seen.producer_calls_at [OF made_idle(1) [OF p] made_idle(2) [OF p], of "([], x)" cs react] within_id [OF react]
    by (fastforce simp: record_sees_def)
qed

text \<open>
  C7: every run of calls returns, and its observers have got the events numbered from one without a
  gap; no request starts twice, and every request that has started has ended exactly once, unless it
  is still the active one.
\<close>

theorem lifecycle_events:
  assumes "PaneLifecycleProducer_make pane max_id max_sequence = Inr p"
    and "\<forall>e w. observer_calls same_log w (react e w)" and "\<forall>c \<in> set cs. recorded_call c"
  shows "\<exists>q es y. producer_calls (record_fire react) cs (p, [], x) = Some (q, es, y)
    \<and> map (\<lambda>e. unat (event_sequence e)) es = [1..<length es + 1]
    \<and> (\<forall>i. starts i es \<le> 1 \<and> ends i es + of_bool (is_active i (m_ActiveRequest q)) = starts i es)"
proof -
  from recorded_run [OF assms] obtain q es y where r:
    "producer_calls (record_fire react) cs (p, [], x) = Some (q, es, y)"
    "replay pane es stream_init = Some (producer_now q)" by blast
  note ev = replay_events [OF r(2)]
  have "length es = s_event (producer_now q) - 1" using ev by (metis length_map length_upt)
  then have "length es + 1 = s_event (producer_now q)" using ev by (simp add: stream_ok_def)
  then show ?thesis using r(1) ev by (simp add: producer_now_def del: upt_Suc)
qed

definition sample_producer :: PaneLifecycleProducer where
  "sample_producer = \<lparr>pr_PaneId = 7, maximum_request_id = - 1, maximum_event_sequence = - 1,
     m_NextRequestId = 1, m_NextEventSequence = 1, m_ActiveRequest = None, m_RetainedFailure = None,
     m_PendingNotifications = [], m_ActiveNotification = None, m_IsNotifying = False,
     m_Shutdown = False, m_IsExecutingFinishMutation = False, m_MutationViolated = False,
     m_DestructionRequestedDuringMutation = False\<rparr>"

lemma sample_producer_made: "PaneLifecycleProducer_make 7 (- 1) (- 1) = Inr sample_producer"
  by (simp add: PaneLifecycleProducer_make_def sample_producer_def)

definition navigation :: PaneRequestDescriptor where
  "navigation = \<lparr>request_kind = Navigation, request_target = None, initiated_by_user = True\<rparr>"

theorem lifecycle_events_witness:
  "\<exists>q es y. producer_calls (record_fire (\<lambda>e w. w))
      [Call_Start navigation, Call_Supersede navigation, Call_Finish 2 (Finish_Cancelled Cancel_User) None]
      (sample_producer, [], ()) = Some (q, es, y)
    \<and> map (\<lambda>e. unat (event_sequence e)) es = [1..<length es + 1]
    \<and> ends 1 es + of_bool (is_active 1 (m_ActiveRequest q)) = starts 1 es"
proof -
  have "\<forall>e w. observer_calls same_log w ((\<lambda>e w. w) e w)" by (simp add: observer_calls.nothing)
  from lifecycle_events [OF sample_producer_made this, of "[Call_Start navigation,
      Call_Supersede navigation, Call_Finish 2 (Finish_Cancelled Cancel_User) None]" "()"]
  show ?thesis by (fastforce simp: recorded_call_def simp del: upt_Suc producer_calls.simps)
qed

section \<open>Ending a request\<close>

text \<open>
  C16: an accepted request can always be ended: whatever was called before, there is an event number
  left for it, so \<open>Finish\<close> publishes and never throws an overflow.
\<close>

theorem accepted_request_ends:
  assumes "PaneLifecycleProducer_make pane max_id max_sequence = Inr p"
    and "\<forall>e w. observer_calls same_log w (react e w)" and "\<forall>c \<in> set cs. recorded_call c"
    and "producer_calls (record_fire react) cs (p, [], x) = Some (q, es, y)"
    and "m_ActiveRequest q = Some a"
  shows "\<exists>w. Finish (record_fire react) (active_id a) terminal None (q, es, y) = Some (Inr Published, w)"
proof -
  from recorded_run [OF assms(1-3), of x] assms(4)
  have q: "idle_at (producer_now q) q" "pr_PaneId q = pane" "replay pane es stream_init = Some (producer_now q)"
    by auto
  have sees: "record_sees pane (producer_now q) (es, y)" using q(3) by (simp add: record_sees_def)
  have ok: "producer_ok q" using q(1) by (simp add: idle_at_def producer_at_def)
  let ?e = "PrepareEvent a (m_NextEventSequence q) (finish_payload terminal) q"
  have b: "Finish_body (active_id a) terminal None (q, es, y) =
      ((Inr Published, True), Finish_publish ?e q, es, y)"
    using producer_okD(3) [OF ok] producer_okD(5) [OF ok assms(5)] assms(5)
    by (simp add: Finish_body_def Let_def)
  from seen.call_at [OF q(1,2) sees Finish_extends [OF ok _ b], where r = "Inr Published" and react = react]
  show ?thesis using within_id [OF assms(2)] b by (auto simp: Finish_def)
qed

lemma quiet_observers: "\<forall>e w. observer_calls M w ((\<lambda>e w. w) e w)"
  by (simp add: observer_calls.nothing)

lemma drain_single:
  assumes "m_PendingNotifications p = [e]" "\<not> m_IsNotifying p"
    and fire: "\<And>q. fire e (q, obs) = (q, obs')"
  shows "DrainNotifications fire (p, obs) =
    Some (p\<lparr>m_ActiveNotification := None, m_PendingNotifications := []\<rparr>, obs')"
proof -
  let ?q = "p\<lparr>m_IsNotifying := True, m_ActiveNotification := Some e, m_PendingNotifications := []\<rparr>"
  have pop: "pop_notification (p\<lparr>m_IsNotifying := True\<rparr>, obs) = Some (e, ?q, obs)"
    "pop_notification (?q, obs') = None"
    using assms by (simp_all add: pop_notification_def)
  have "drain_loop pop_notification fire (p\<lparr>m_IsNotifying := True\<rparr>, obs) = Some (?q, obs')"
    by (subst drain_loop.simps, simp only: pop option.case prod.case fire,
      subst drain_loop.simps, simp only: pop option.case)
  then show ?thesis using assms by (cases p) (simp add: DrainNotifications_def)
qed

definition started_event :: PaneLifecycleEvent where
  "started_event = PrepareEvent \<lparr>active_id = 1, active_descriptor = navigation\<rparr> 1 Lifecycle_Started sample_producer"

definition started_producer :: PaneLifecycleProducer where
  "started_producer = sample_producer\<lparr>m_NextRequestId := 2, m_NextEventSequence := 2,
     m_ActiveRequest := Some \<lparr>active_id = 1, active_descriptor = navigation\<rparr>\<rparr>"

lemma sample_start:
  assumes "\<And>q. fire started_event (q, obs) = (q, obs')"
  shows "producer_call fire (Call_Start navigation) (sample_producer, obs) = Some (started_producer, obs')"
proof -
  let ?p = "started_producer\<lparr>m_PendingNotifications := [started_event]\<rparr>"
  have "Start_body navigation sample_producer = ((Inr 1, True), ?p)"
    by (simp add: Start_body_def capacity_defs has_capacity_def AdvanceCounter_def call_defs
      sample_producer_def started_producer_def started_event_def)
  moreover have "DrainNotifications fire (?p, obs) = Some (started_producer, obs')"
    using drain_single [of ?p started_event fire obs obs', OF _ _ assms]
    by (simp add: started_producer_def sample_producer_def)
  ultimately show ?thesis by (simp add: Start_def draining_def)
qed

theorem accepted_request_ends_witness:
  "\<exists>q es a w. producer_calls (record_fire (\<lambda>e w. w)) [Call_Start navigation] (sample_producer, [], ()) =
      Some (q, es, ()) \<and> m_ActiveRequest q = Some a
    \<and> Finish (record_fire (\<lambda>e w. w)) (active_id a) (Finish_Cancelled Cancel_User) None (q, es, ()) =
        Some (Inr Published, w)"
proof -
  have "producer_calls (record_fire (\<lambda>e w. w)) [Call_Start navigation] (sample_producer, [], ()) =
      Some (started_producer, [started_event], ())"
    using sample_start [of "record_fire (\<lambda>e w. w)" "([], ())" "([started_event], ())"]
    by (auto simp: record_fire_def)
  moreover have "m_ActiveRequest started_producer = Some \<lparr>active_id = 1, active_descriptor = navigation\<rparr>"
    by (simp add: started_producer_def)
  ultimately show ?thesis
    using accepted_request_ends [OF sample_producer_made quiet_observers, of "[Call_Start navigation]" "()"]
    by (fastforce simp: recorded_call_def simp del: producer_calls.simps)
qed

text \<open>
  C28: a mutation that throws, or that calls the producer, ends \<open>Finish\<close> with an exception and leaves
  the producer as it was: the request stays active, no number is used, nothing is published. The calls
  are all those of the producer's interface; a mutation that drops the last reference to it is left out.
\<close>

theorem failed_mutation_changes_nothing:
  assumes "m_ActiveRequest p = Some a" "\<not> m_Shutdown p" "\<not> m_IsExecutingFinishMutation p"
    and "event_sequence_capacity 1 p"
  defines "executing \<equiv> p\<lparr>m_MutationViolated := False, m_DestructionRequestedDuringMutation := False,
    m_IsExecutingFinishMutation := True\<rparr>"
  assumes "mutate (executing, obs) = (threw, q, obs')"
    and "threw \<and> mutation_call\<^sup>*\<^sup>* executing q \<or> mutation_call\<^sup>+\<^sup>+ executing q"
    and "\<not> m_DestructionRequestedDuringMutation q"
  shows "Finish fire (active_id a) terminal (Some mutate) (p, obs) =
    Some (Inl (if threw then Mutation_Exception else Logic_Error),
      p\<lparr>m_MutationViolated := False, m_DestructionRequestedDuringMutation := False\<rparr>, obs')"
proof -
  have running: "m_IsExecutingFinishMutation executing" by (simp add: executing_def)
  obtain v d where q: "q = flagged v d executing" and v: "threw \<or> v"
    using assms(7) mutation_calls_flagged [OF _ running] mutation_called_flagged [OF _ running] by blast
  then have d: "\<not> d" using assms(8) by (simp add: flagged_def)
  have restored: "(flagged v d executing)\<lparr>m_IsExecutingFinishMutation := False\<rparr> = flagged v d p"
    using assms(3) by (cases p) (simp add: flagged_def executing_def)
  have abort: "Finish_abort exn (flagged v d p) = ((Inl exn, False), flagged False False p)" for exn
    using d by (simp add: Finish_abort_def Let_def flagged_def)
  have "Finish_body (active_id a) terminal (Some mutate) (p, obs) =
      ((Inl (if threw then Mutation_Exception else Logic_Error), False), flagged False False p, obs')"
    using assms(1-4,6) [unfolded executing_def] q [unfolded executing_def]
      restored [unfolded executing_def] v abort
    by (simp add: Finish_body_def Let_def) (auto simp: flagged_def)
  then show ?thesis by (simp add: Finish_def draining_def flagged_def)
qed

definition finishing_producer :: PaneLifecycleProducer where
  "finishing_producer = sample_producer\<lparr>m_NextRequestId := 2, m_NextEventSequence := 2,
     m_ActiveRequest := Some \<lparr>active_id = 1, active_descriptor = navigation\<rparr>\<rparr>"

text \<open>
  A mutation that starts another request and swallows the exception it gets: \<open>Finish\<close> throws, and
  the first request is still active.
\<close>

theorem failed_mutation_changes_nothing_witness:
  "Finish (record_fire (\<lambda>e w. w)) 1 (Finish_Committed 0 None)
      (Some (\<lambda>(p, obs). (False, snd (Start_body navigation p), obs))) (finishing_producer, [], ()) =
    Some (Inl Logic_Error, finishing_producer, [], ())"
proof -
  let ?m = "\<lambda>(p, obs :: PaneLifecycleEvent list \<times> unit). (False, snd (Start_body navigation p), obs)"
    and ?a = "\<lparr>active_id = 1, active_descriptor = navigation\<rparr>"
  let ?e = "finishing_producer\<lparr>m_MutationViolated := False, m_DestructionRequestedDuringMutation := False,
    m_IsExecutingFinishMutation := True\<rparr>"
  let ?q = "snd (Start_body navigation ?e)"
  have "mutation_call ?e ?q" by (rule mutation_call.start [OF prod.collapse [symmetric]])
  then have called: "mutation_call\<^sup>+\<^sup>+ ?e ?q" by (rule tranclp.r_into_trancl)
  have p: "m_ActiveRequest finishing_producer = Some ?a" "\<not> m_Shutdown finishing_producer"
    "\<not> m_IsExecutingFinishMutation finishing_producer" "event_sequence_capacity 1 finishing_producer"
    "\<not> m_DestructionRequestedDuringMutation ?q" "?m (?e, [], ()) = (False, ?q, [], ())"
    by (simp_all add: finishing_producer_def sample_producer_def capacity_defs has_capacity_def
        Start_body_def RejectFinishMutationReentry_def)
  have same: "finishing_producer\<lparr>m_MutationViolated := False,
      m_DestructionRequestedDuringMutation := False\<rparr> = finishing_producer"
    by (simp add: finishing_producer_def sample_producer_def)
  show ?thesis
    using failed_mutation_changes_nothing [where p = finishing_producer and mutate = ?m and threw = False
      and obs = "([], ())" and obs' = "([], ())", OF p(1-4,6) disjI2 [OF called] p(5)] unfolding same by simp
qed

section \<open>The reducer\<close>

definition reduce_all :: "ReducerCall list \<Rightarrow> PaneLifecycleReducer \<Rightarrow> PaneLifecycleReducer" where
  "reduce_all cs r = fold (\<lambda>c r. snd (reduce c r)) cs r"

lemma reduce_all_ok: "reducer_ok r \<Longrightarrow> reducer_ok (reduce_all cs r)"
  by (induction cs arbitrary: r) (simp_all add: reduce_all_def reduce_ok)




text \<open>
  C31: a call that the reducer refuses changes nothing and shows nothing, and an event that it has
  accepted it does not accept again.
\<close>

theorem refused_or_consumed:
  "if status (fst (Apply e projection r)) \<in> refusals
   then snd (Apply e projection r) = r \<and> \<not> state_changed (fst (Apply e projection r))
   else Apply e later (snd (Apply e projection r)) =
     (refuse Reducer_StaleSequence, snd (Apply e projection r))"
proof (cases "status (fst (Apply e projection r)) \<in> refusals")
  case True
  then show ?thesis using reduce_refused [of "Call_Apply e projection" r] by simp
next
  case False
  then have ids: "event_pane_id e = r_PaneId r" "event_request_id e \<noteq> 0"
    "ValidateSequence (event_sequence e) r = Sequence_Current"
    by (auto simp: Apply_def refuse_def refusals_def split: if_splits SequenceValidation.splits)
  with False have "status (fst (Apply_payload e projection r)) \<notin> refusals" by (simp add: Apply_def)
  then have "last_event_sequence (m_Owned (snd (Apply_payload e projection r))) = Some (event_sequence e)"
    by (cases "event_payload e"; cases projection)
      (auto simp: Apply_payload_def Apply_started_def Apply_committed_def Apply_failed_def refuse_def
        refusals_def Apply_cancelled_def Apply_superseded_def Apply_rejected_def Let_def split: if_splits)
  moreover have "event_sequence e \<noteq> 0" using ids(3) by (auto simp: ValidateSequence_def split: if_splits)
  moreover have "r_PaneId (snd (Apply_payload e projection r)) = r_PaneId r"
    using reduce_pane [of "Call_Apply e projection" r] ids by (simp add: Apply_def)
  ultimately show ?thesis using False ids by (simp add: Apply_def ValidateSequence_def)
qed

definition empty_pane :: PaneState where
  "empty_pane = \<lparr>location_generation = 0, load_phase = Phase_Empty, is_uniform = False, pane_path = [],
     display_title = [], pane_host = None, listing = None, focused_item = no_item,
     selected_items = make_selection 0 [],
     sort_state = \<lparr>sort_key = SortKey_Unknown, sort_direction = Sort_None,
       sort_collation = Collation_Unknown, separates_directories = False, extensionless_directories = False\<rparr>,
     grouping_state = \<lparr>grouping_enabled = False, grouping_key = GroupKey_Unknown\<rparr>,
     view_state = \<lparr>view_mode = View_Unknown, layout_index = None\<rparr>,
     history_availability = \<lparr>can_go_back = False, can_go_forward = False\<rparr>,
     current_history_entry_id = None, shows_hidden_files = False, item_count = 0, selected_count = 0,
     selected_bytes = 0, visible_error = None\<rparr>"

lemma empty_pane_committed [simp]: "IsCommittedProjection (empty_pane\<lparr>location_generation := n\<rparr>) None"
  "IsCommittedProjection empty_pane None"
  by (simp_all add: empty_pane_def IsCommittedProjection_def IsValidSortState_def IsValidGroupingState_def
    IsValidViewState_def IsValidHistoryState_def no_item_def selected_empty_def make_selection_def)

definition sample_reducer :: PaneLifecycleReducer where
  "sample_reducer = \<lparr>r_PaneId = 7, m_Owned = \<lparr>committed_state = empty_pane, pane_state = empty_pane,
     last_event_sequence = None, active_request = None, expected_replacement = None,
     owned_error = None, navigation_failed = False, commit_projection_failed = False\<rparr>\<rparr>"

lemma sample_reducer_made: "PaneLifecycleReducer_make 7 empty_pane = Inr sample_reducer"
  by (simp add: PaneLifecycleReducer_make_def sample_reducer_def)

definition sample_store :: PaneStoreAdapter where
  "sample_store = \<lparr>m_Reducer = sample_reducer,
     m_Snapshot = \<lparr>snap_pane_id = 7, snap_revision = 0, snap_listing_generation = 0, snap_state = empty_pane\<rparr>,
     a_PendingNotifications = [], a_ActiveNotification = None, a_IsNotifying = False,
     m_RebuildScheduled = False\<rparr>"

lemma sample_store_made: "PaneStoreAdapter_make 7 empty_pane = Inr sample_store"
  by (simp add: PaneStoreAdapter_make_def sample_reducer_made sample_store_def)
    (simp add: sample_reducer_def)


text \<open>
  C18: taking the selection of a projection as valid because it shares listing and storage with the
  committed one decides the same as checking every item again.
\<close>

theorem shared_selection_check:
  assumes "PaneLifecycleReducer_make pane s = Inr r" and "own = m_Owned (reduce_all cs r)"
  shows "IsCommittedProjection c (Some (committed_state own)) = IsCommittedProjection c None"
  using reduce_all_ok [OF make_ok [OF assms(1)]] assms(2) trusted_projection
  by (simp add: reducer_ok_def owned_ok_def)

theorem shared_selection_check_witness:
  "IsCommittedProjection empty_pane (Some (committed_state (m_Owned (reduce_all
    [Call_UpdateCommittedProjection (empty_pane\<lparr>location_generation := 3\<rparr>)] sample_reducer))))"
  using shared_selection_check [OF sample_reducer_made refl] by simp

section \<open>The store of the pane\<close>

definition sample_bridge :: PaneBridge where
  "sample_bridge = \<lparr>m_Store = sample_store, m_LifecycleObservation = False,
     ReadState = (\<lambda>_. empty_pane), terminated = False\<rparr>"

lemma bridge_run:
  assumes p: "PaneLifecycleProducer_make pane max_id max_sequence = Inr p"
    and a: "PaneStoreAdapter_make pane (x False) = Inr a"
    and b: "b = \<lparr>m_Store = a, m_LifecycleObservation = False, ReadState = x, terminated = False\<rparr>"
    and hear: "\<forall>e w. observer_calls bridge_moves w (earlier e w)" "\<forall>e w. observer_calls bridge_moves w (later e w)"
    and run: "(pane_step (bridge_fire earlier later))\<^sup>*\<^sup>* (p, b) (p', b')"
  shows "pane_at pane (p', b')"
proof -
  have "moving earlier = earlier" "moving later = later"
    using within_id [OF hear(1)] within_id [OF hear(2)] by (simp_all add: moving_def)
  moreover have "pane_at pane (p, b)"
    using made_idle [OF p] made_store [OF a] by (simp add: pane_at_def b bridge_sees_def)
  ultimately show ?thesis using pane_run_at [of earlier later "(p, b)" "(p', b')" pane] run by simp
qed

text \<open>
  C4: the store never terminates the program. Whenever it joins, in the middle of a notification too,
  and whatever the other observers, the engine and the callers of the producer do, no event it gets is
  one it refuses, as long as its counters of snapshots last.
\<close>

theorem store_never_terminates:
  assumes "PaneLifecycleProducer_make pane max_id max_sequence = Inr p"
    and "PaneStoreAdapter_make pane (x False) = Inr a"
    and "b = \<lparr>m_Store = a, m_LifecycleObservation = False, ReadState = x, terminated = False\<rparr>"
    and "\<forall>e w. observer_calls bridge_moves w (earlier e w)" "\<forall>e w. observer_calls bridge_moves w (later e w)"
    and "(pane_step (bridge_fire earlier later))\<^sup>*\<^sup>* (p, b) (p', b')"
    and "\<not> exhausted (m_Store b')"
  shows "\<not> terminated b'"
  using bridge_run [OF assms(1-6)] assms(7)
  by (cases "m_LifecycleObservation b'") (auto simp: pane_at_def bridge_sees_def)

text \<open>
  C8: when everything is at rest, a store that observes shows loading exactly while the producer has an
  active navigation, refreshing exactly while it has an active refresh, and no error while there is
  any.
\<close>

theorem store_shows_request:
  assumes "PaneLifecycleProducer_make pane max_id max_sequence = Inr p"
    and "PaneStoreAdapter_make pane (x False) = Inr a"
    and "b = \<lparr>m_Store = a, m_LifecycleObservation = False, ReadState = x, terminated = False\<rparr>"
    and "\<forall>e w. observer_calls bridge_moves w (earlier e w)" "\<forall>e w. observer_calls bridge_moves w (later e w)"
    and "(pane_step (bridge_fire earlier later))\<^sup>*\<^sup>* (p, b) (p', b')"
    and "\<not> exhausted (m_Store b')" "m_LifecycleObservation b'"
  defines "shown \<equiv> snap_state (m_Snapshot (m_Store b'))"
  shows "(load_phase shown = Phase_Loading \<longleftrightarrow>
      (\<exists>a. m_ActiveRequest p' = Some a \<and> request_kind (active_descriptor a) = Navigation))
    \<and> (load_phase shown = Phase_Refreshing \<longleftrightarrow>
      (\<exists>a. m_ActiveRequest p' = Some a \<and> request_kind (active_descriptor a) = Refresh))
    \<and> (m_ActiveRequest p' = None \<or> visible_error shown = None)"
proof -
  let ?own = "m_Owned (m_Reducer (m_Store b'))"
  have ok: "owned_ok ?own" "same_pane shown (pane_state ?own)" "follows (producer_now p') (m_Reducer (m_Store b'))"
    using bridge_run [OF assms(1-6)] assms(7,8)
    by (auto simp: pane_at_def bridge_sees_def store_ok_def reducer_ok_def shown_def)
  then have own: "active_request ?own = m_ActiveRequest p'" "expected_replacement ?own = None"
    by (auto simp: follows_def producer_now_def)
  have shown: "load_phase shown = composed_phase ?own" "visible_error shown = owned_error ?own"
  proof -
    show "load_phase shown = composed_phase ?own"
      using same_pane_fields [OF ok(2)] ok(1) by (simp add: owned_ok_def)
    have composed: "pane_state ?own = (committed_state ?own)\<lparr>visible_error := owned_error ?own,
        load_phase := load_phase (pane_state ?own)\<rparr>" using ok(1) unfolding owned_ok_def by blast
    have "visible_error (pane_state ?own) = owned_error ?own" by (subst composed) simp
    then show "visible_error shown = owned_error ?own" using same_pane_fields [OF ok(2)] by simp
  qed
  have proj: "IsCommittedProjection (committed_state ?own) None" using ok(1) by (simp add: owned_ok_def)
  show ?thesis
  proof (cases "m_ActiveRequest p'")
    case None
    have "composed_phase ?own \<notin> {Phase_Loading, Phase_Refreshing}"
      using own None committed_phase [OF proj] by (auto simp: composed_phase_def)
    then show ?thesis using None shown(1) by simp
  next
    case (Some a)
    have "owned_error ?own = None" using ok(1) own Some by (simp add: owned_ok_def overlay_clear_def)
    moreover have "composed_phase ?own = (if request_kind (active_descriptor a) = Navigation
        then Phase_Loading else Phase_Refreshing)" using own Some by (simp add: composed_phase_def)
    ultimately show ?thesis using Some shown by (cases "request_kind (active_descriptor a)") simp_all
  qed
qed

text \<open>A store that joins at rest, after which a navigation is started.\<close>

definition shown_bridge :: PaneBridge where
  "shown_bridge = OnLifecycleEvent started_event (sample_bridge\<lparr>m_LifecycleObservation := True\<rparr>)"

lemma navigation_run:
  "(pane_step (bridge_fire (\<lambda>e w. w) (\<lambda>e w. w)))\<^sup>*\<^sup>* (sample_producer, sample_bridge)
    (started_producer, shown_bridge)"
proof -
  let ?b = "sample_bridge\<lparr>m_LifecycleObservation := True\<rparr>"
  let ?step = "pane_step (bridge_fire (\<lambda>e w. w) (\<lambda>e w. w))"
  have "StartObservingLifecycle sample_producer sample_bridge = (Inr (), ?b)"
    by (simp add: StartObservingLifecycle_def Subscribe_def sample_producer_def Let_def)
  then have "bridge_moves sample_producer sample_bridge ?b"
    by (intro bridge_moves.observe) (simp_all add: sample_bridge_def)
  then have "?step (sample_producer, sample_bridge) (sample_producer, ?b)" by (rule pane_step.move)
  moreover have "producer_call (bridge_fire (\<lambda>e w. w) (\<lambda>e w. w)) (Call_Start navigation) (sample_producer, ?b) =
      Some (started_producer, shown_bridge)"
    by (rule sample_start) (simp add: bridge_fire_def shown_bridge_def)
  then have "?step (sample_producer, ?b) (started_producer, shown_bridge)"
    by (rule pane_step.call [rotated]) (simp add: engine_call_def)
  ultimately show ?thesis by (intro rtranclp.rtrancl_into_rtrancl [OF r_into_rtranclp])
qed

lemma shown_bridge_rest: "\<not> exhausted (m_Store shown_bridge)" "m_LifecycleObservation shown_bridge"
  by (simp_all add: shown_bridge_def OnLifecycleEvent_def started_event_def PrepareEvent_def
    ApplyLifecycleEvent_body_def sample_bridge_def sample_store_def sample_reducer_def sample_producer_def
    Apply_def ValidateSequence_def Apply_payload_def Apply_started_def Reducer_Commit_def Recompose_def
    ClearTerminalOverlay_def composed_phase_def navigation_def empty_pane_def same_pane_def
    Adapter_Commit_def Let_def exhausted_def)

theorem store_never_terminates_witness: "\<not> terminated shown_bridge"
  by (rule store_never_terminates [OF sample_producer_made _ sample_bridge_def quiet_observers quiet_observers navigation_run
    shown_bridge_rest(1)]) (rule sample_store_made)

theorem store_shows_request_witness:
  "load_phase (snap_state (m_Snapshot (m_Store shown_bridge))) = Phase_Loading"
  using store_shows_request [OF sample_producer_made _ sample_bridge_def quiet_observers quiet_observers navigation_run
    shown_bridge_rest] sample_store_made
  by (simp add: started_producer_def navigation_def)

section \<open>A failure that has been overtaken\<close>

text \<open>
  C36: an error is to be shown until a newer location is committed. A store that joins after that still
  shows it: the retained failure of the producer does not say which location it was about. A store
  that was there all the time shows the new location without it.
\<close>

theorem joiner_shows_overtaken_failure:
  assumes "idle_at s p" "m_RetainedFailure p = Some f" "event_payload f = Lifecycle_Failed error"
    and "request_kind (event_descriptor f) = Navigation"
    and "follows s r" "reducer_ok r"
    and "IsCommittedProjection c None"
      "location_generation (committed_state (m_Owned r)) < location_generation c"
    and "PaneStoreAdapter_make (pr_PaneId p) c = Inr a"
    and "b = \<lparr>m_Store = a, m_LifecycleObservation = False, ReadState = x, terminated = False\<rparr>"
  shows "pane_state (m_Owned (snd (UpdateCommittedProjection c r))) = c
    \<and> (\<exists>b'. StartObservingLifecycle p b = (Inr (), b')
      \<and> load_phase (snap_state (m_Snapshot (m_Store b'))) = Phase_Failed
      \<and> visible_error (snap_state (m_Snapshot (m_Store b'))) = Some error)"
proof
  have "retained_ok p" using assms(1) by (simp add: idle_at_def producer_at_def producer_ok_def)
  then have active: "m_ActiveRequest p = None" using assms(2) by (simp add: retained_ok_def)
  have now: "s = producer_now p" using assms(1) by (rule idle_now)
  have r: "active_request (m_Owned r) = None" "expected_replacement (m_Owned r) = None"
    using assms(5) active by (auto simp: follows_def now producer_now_def)
  have c: "visible_error c = None" using assms(7) by (simp add: IsCommittedProjection_def split: if_splits)
  have "IsCommittedProjection c (Some (committed_state (m_Owned r)))"
    using assms(6,7) trusted_projection by (simp add: reducer_ok_def owned_ok_def)
  then show "pane_state (m_Owned (snd (UpdateCommittedProjection c r))) = c"
    using r c assms(8)
    by (cases c) (auto simp: UpdateCommittedProjection_def Let_def Recompose_def ClearTerminalOverlay_def
      composed_phase_def)
  have joins: "joinable s p" using assms(1) by (simp add: joinable_def)
  have pending: "pending_seed (m_PendingNotifications p) = None" using assms(1) by (simp add: idle_at_def)
  have sub: "retained_failure (Subscribe p) = Some f" "seed_request (Subscribe p) = Some (request_of f)"
    using pending active assms(2) by (simp_all add: Subscribe_def)
  let ?n = "checkpoint_sequence (Subscribe p)"
  from joins have f: "event_pane_id f = pr_PaneId p" "event_request_id f \<noteq> 0" "event_sequence f \<noteq> 0"
    "unat (event_sequence f) < s_event s" "unat ?n + 1 = s_event s"
    by (cases rule: Subscribe_cases; use sub in auto)+
  then have n: "\<not> ?n < event_sequence f" "?n \<noteq> 0"
    by (auto simp: word_less_nat_alt unat_gt_0 [symmetric])
  have a: "m_Reducer a = \<lparr>r_PaneId = pr_PaneId p, m_Owned = \<lparr>committed_state = c, pane_state = c,
      last_event_sequence = None, active_request = None, expected_replacement = None,
      owned_error = None, navigation_failed = False, commit_projection_failed = False\<rparr>\<rparr>"
    "m_Snapshot a = \<lparr>snap_pane_id = pr_PaneId p, snap_revision = 0, snap_listing_generation = 0, snap_state = c\<rparr>"
    using assms(7,9) by (auto simp: PaneStoreAdapter_make_def PaneLifecycleReducer_make_def)
  let ?shown = "c\<lparr>visible_error := Some error, load_phase := Phase_Failed\<rparr>"
  have changed: "\<not> same_pane ?shown c"
    using same_pane_fields(1) [of ?shown c] committed_phase [OF assms(7)] by auto
  let ?own = "\<lparr>committed_state = c, pane_state = ?shown, last_event_sequence = Some ?n,
    active_request = None, expected_replacement = None, owned_error = Some error,
    navigation_failed = True, commit_projection_failed = False\<rparr>"
  have "SeedRetainedFailure (request_of f) f ?n (m_Reducer a) =
      (\<lparr>status = Reducer_Applied, state_changed = True\<rparr>, \<lparr>r_PaneId = pr_PaneId p, m_Owned = ?own\<rparr>)"
    using f n assms(3,4) changed
    by (simp add: SeedRetainedFailure_def a request_of_def Reducer_Commit_def Recompose_def composed_phase_def)
  then have "\<exists>s'. SeedRetainedLifecycleFailure_body (request_of f) f ?n a =
      ((Inr \<lparr>status = Reducer_Applied, state_changed = True\<rparr>, True), s') \<and> snap_state (m_Snapshot s') = ?shown"
    by (simp add: SeedRetainedLifecycleFailure_body_def Adapter_Commit_def Let_def a(2))
  then show "\<exists>b'. StartObservingLifecycle p b = (Inr (), b')
      \<and> load_phase (snap_state (m_Snapshot (m_Store b'))) = Phase_Failed
      \<and> visible_error (snap_state (m_Snapshot (m_Store b'))) = Some error"
    using sub n(2) by (auto simp: StartObservingLifecycle_def Let_def assms(10) seeded_def)
qed

definition failure_event :: PaneLifecycleEvent where
  "failure_event = \<lparr>event_pane_id = 7, event_request_id = 1, event_sequence = 2,
     event_descriptor = navigation, event_payload = Lifecycle_Failed
       \<lparr>err_code = \<lparr>err_domain = ''POSIX'', err_value = 2\<rparr>, err_category = PathNotFoundError,
        err_severity = Severity_BlockingError, user_message_key = [], user_message = [],
        technical_message = [], err_affected_items = [], err_operation_id = None,
        err_provider_id = None, err_recoverable = False, err_retryable = False,
        requires_user_action = False, suggested_actions = [],
        original_error = \<lparr>err_domain = ''POSIX'', err_value = 2\<rparr>, err_timestamp = 0\<rparr>\<rparr>"

text \<open>The producer after a navigation has failed.\<close>

definition failed_producer :: PaneLifecycleProducer where
  "failed_producer = sample_producer\<lparr>m_NextRequestId := 2, m_NextEventSequence := 3,
     m_RetainedFailure := Some failure_event\<rparr>"

lemma failed_producer_idle: "idle_at (producer_now failed_producer) failed_producer"
  by (simp add: idle_at_def producer_at_def producer_ok_def producer_now_def retained_ok_def stream_ok_def
    counter_def counter_ok_def failed_producer_def sample_producer_def failure_event_def)

definition failed_reducer :: PaneLifecycleReducer where
  "failed_reducer = snd (reduce (Call_SeedRetainedFailure (request_of failure_event) failure_event 2)
     sample_reducer)"

lemma failed_reducer_follows:
  "follows (producer_now failed_producer) failed_reducer" "reducer_ok failed_reducer"
  "location_generation (committed_state (m_Owned failed_reducer)) = 0"
proof -
  have "unseeded sample_reducer" by (simp add: unseeded_def sample_reducer_def)
  then show "follows (producer_now failed_producer) failed_reducer"
    using SeedRetainedFailure_follows [of sample_reducer "producer_now failed_producer" failure_event _ 2]
    by (simp add: failed_reducer_def producer_now_def failed_producer_def sample_producer_def counter_def
      failure_event_def sample_reducer_def)
  show "reducer_ok failed_reducer"
    unfolding failed_reducer_def by (rule reduce_ok [OF make_ok [OF sample_reducer_made]])
  show "location_generation (committed_state (m_Owned failed_reducer)) = 0"
    by (simp add: failed_reducer_def SeedRetainedFailure_def failure_event_def sample_reducer_def
      Reducer_Commit_def Let_def empty_pane_def)
qed

theorem joiner_shows_overtaken_failure_witness:
  "\<exists>a b'. PaneStoreAdapter_make 7 (empty_pane\<lparr>location_generation := 1\<rparr>) = Inr a
    \<and> pane_state (m_Owned (snd (UpdateCommittedProjection (empty_pane\<lparr>location_generation := 1\<rparr>)
        failed_reducer))) = empty_pane\<lparr>location_generation := 1\<rparr>
    \<and> StartObservingLifecycle failed_producer \<lparr>m_Store = a, m_LifecycleObservation = False,
        ReadState = \<lambda>_. empty_pane, terminated = False\<rparr> = (Inr (), b')
    \<and> load_phase (snap_state (m_Snapshot (m_Store b'))) = Phase_Failed"
proof -
  let ?c = "empty_pane\<lparr>location_generation := 1\<rparr>"
  obtain a where a: "PaneStoreAdapter_make 7 ?c = Inr a"
    by (simp add: PaneStoreAdapter_make_def PaneLifecycleReducer_make_def)
  have p: "m_RetainedFailure failed_producer = Some failure_event" "pr_PaneId failed_producer = 7"
    by (simp_all add: failed_producer_def sample_producer_def)
  obtain error where e: "event_payload failure_event = Lifecycle_Failed error"
    by (simp add: failure_event_def)
  have d: "request_kind (event_descriptor failure_event) = Navigation"
    by (simp add: failure_event_def navigation_def)
  have g: "location_generation (committed_state (m_Owned failed_reducer)) < location_generation ?c"
    by (simp add: failed_reducer_follows(3))
  have c: "IsCommittedProjection ?c None" by (rule empty_pane_committed)
  from joiner_shows_overtaken_failure [OF failed_producer_idle p(1) e d failed_reducer_follows(1,2) c g,
      unfolded p(2), OF a refl, of "\<lambda>_. empty_pane"]
  show ?thesis using a by blast
qed

end
