(* ===== verification/PaneSnapshots.thy ===== *)
theory PaneSnapshots
  imports PaneTheorems
begin

text \<open>
  What the observers of the store get: the queue of snapshots, as a second instance of
  \<open>drained_queue\<close>. The observers may call the store again while it notifies them.
\<close>

section \<open>Calls of the store\<close>







section \<open>The queue of snapshots\<close>





section \<open>Observers of the store\<close>











end
