(* ===== verification/Spec2Isabelle.thy ===== *)
theory Spec2Isabelle
  imports Terminal JournalTheorems RetryPolicy CoordinatorTheorems PaneSnapshots
begin

text \<open>
  Verification of three parts of Win Commander: the terminal emulator (\<open>Source/Term\<close>), that is
  everything between the bytes a child process writes and what the emulated screen shows; the
  durable ledger of file operations (\<open>Source/Operations\<close>: plans, their codec, and the operation
  journal), that is everything between an admitted plan and the bytes on the disk; and the loading
  lifecycle of a file pane (\<open>Core/Pane\<close> of the application), that is everything between a request to
  load a location and the snapshots that its observers get.

  Part 1, the terminal. The shell view (\<open>ShellState.mm\<close>) hands every read of
  the child's output to the parser (\<open>ParserImpl\<close>), a state machine over bytes that returns a list
  of commands (\<open>input::Command\<close>, in \<open>Parser.h\<close>). The commands go to the interpreter
  (\<open>InterpreterImpl\<close>), which drives the screen (\<open>Screen\<close>), looks characters up in the registry of
  composed characters (\<open>ExtendedCharRegistry\<close>) and calls back to the view: output for the child,
  titles, bell, mouse modes. The screen keeps its cells, the scrollback and the snapshots of its
  alternate half in a \<open>ScreenBuffer\<close>.

  Part 2, the operations. A plan (\<open>OperationPlan\<close>) is made by a validating factory and never changes;
  \<open>OperationPlanCodec\<close> writes and reads it as JSON. The journal (\<open>OperationJournal\<close>) gives out
  identities (\<open>OperationId\<close>), admits plans, and moves an entry from admitted over running to a
  terminal state with the evidence for every item. Authority goes through receipts. Every change
  writes a complete snapshot to a temporary file, synchronises it, renames it into place and
  synchronises the directory; only then the state in memory changes. What a provider reports of an item
  is mapped to a result of the journal, and the retry policy reads these results. The model of the
  Operation Center publishes a record for every admission. The coordinator
  (\<open>OperationCenterCoordinator\<close>) joins the two: it admits a plan in the journal and in the center,
  hands the operation to the pool, passes pause, resume and stop on, and carries the outcome of a
  finished operation back to the journal and then to the center. Opening the journal takes a lock,
  reads the snapshot, migrates older schemas and marks unfinished entries as interrupted.

  Part 3, the panes. A producer (\<open>PaneLifecycleProducer\<close>) gives every request to load an identity and
  publishes numbered events: a request starts, and is committed, failed, cancelled or superseded, or it
  is rejected. Observers are told synchronously and may call the producer again. A reducer
  (\<open>PaneLifecycleReducer\<close>) lays these events over the last committed state of the pane, and a store
  (\<open>PaneStoreAdapter\<close>) publishes what it shows as numbered snapshots. The store joins a producer that
  may be in the middle of a notification (\<open>PanelControllerPaneStoreAdapter\<close>); an event that the reducer
  refuses ends the program, so the parts must agree exactly.

  Theories, in the order of the code:
  \<^item> \<open>Prelude\<close>: machine integers (\<open>u32\<close> as \<open>32 word\<close>, \<open>int\<close> as HOL integers whose range every
    operation checks), faults as the left values of \<open>'a res\<close>, and the interface \<open>safe_machine\<close> of a
    component that consumes inputs one by one.
  \<^item> \<open>TermCommands\<close>: the commands and their payloads (\<open>Parser.h\<close>, \<open>Color.h\<close>, \<open>CursorMode.h\<close>).
  \<^item> \<open>ParserCSI\<close>: the handlers of control sequences, \<open>CSI_A\<close> to \<open>CSI_t\<close>, and \<open>CSIParamsScanner\<close>.
  \<^item> \<open>Utf8Scan\<close>: \<open>ScanUTF8ForValidSequenceLength\<close> of \<open>Encodings.cpp\<close>.
  \<^item> \<open>TermParser\<close>: the states of \<open>ParserImpl\<close>, \<open>EatByte\<close> and \<open>Parse\<close>. \<open>ParserProps\<close> holds its
    invariant and the simulation between two ways to cut the input, \<open>ParserChunks\<close> the interface
    \<open>chunked_consumer\<close> that turns the simulation into the equality of results, and
    \<open>ParserTheorems\<close> the properties of the parser.
  \<^item> \<open>CharRegistry\<close>: \<open>ExtendedCharRegistry\<close> with the interface \<open>char_registry\<close> that the text loop of
    the interpreter relies on. Core Foundation is not part of the repository: the record \<open>CF\<close> holds the
    functions called, and \<open>cf_ok\<close> says what is relied on; \<open>simple_cf\<close> and \<open>composing_cf\<close> are
    instances. How long a composed sequence may get is not part of it.
  \<^item> \<open>ScreenBuffer\<close> and \<open>ScreenResize\<close>: \<open>ScreenBuffer.cpp\<close>, with spans as pointer and length into
    an allocation, so that reads and writes outside of it are faults.
  \<^item> \<open>Screen\<close>: \<open>Screen.cpp\<close>. \<open>ScreenLines\<close> and \<open>ScreenProps\<close> hold the invariant \<open>screen_ok\<close> and the
    effect of every loop over lines as one equation on rows (the interface \<open>line_store\<close>);
    \<open>ScreenTheorems\<close> the properties.
  \<^item> \<open>TranslateMaps\<close> and \<open>Interpreter\<close>: \<open>TranslateMaps.cpp\<close> and \<open>InterpreterImpl.cpp\<close>, one
    definition per handler. \<open>InterpreterProps\<close> shows that each handler keeps the invariant
    \<open>interp_core\<close> and cannot go wrong within the limits \<open>cmd_limits\<close>; \<open>InterpreterTheorems\<close> has
    the properties.
  \<^item> \<open>Terminal\<close> and this theory: the composition, as the callback of the shell view runs it.
  \<^item> \<open>Decimal\<close>: decimal printing and \<open>std::from_chars\<close>. \<open>OperationId\<close> and \<open>OperationPlan\<close>: the
    identities and the plans with their validation.
  \<^item> \<open>JsonValue\<close> and \<open>JsonText\<close>: JSON values. The parser and the printer (rapidjson) are not part of
    the repository's own code: the record \<open>Json\<close> is a parameter, \<open>json_ok\<close> says that parsing gives
    back what was printed, and \<open>sample_json\<close> is an instance. \<open>Base64\<close> and \<open>PlanCodec\<close>: the plan codec.
  \<^item> \<open>Journal\<close>: states, results and evidence, with the rules for valid entries and transitions;
    \<open>JournalCodec\<close>: the document and its four schema versions.
  \<^item> \<open>JournalStore\<close> and \<open>JournalDisk\<close>: opening the directory, reading and publishing snapshots. The
    system calls are the parameter \<open>Syscalls\<close>; \<open>posix_ok\<close> says what is relied on, over a view of the
    disk that includes what a crash may leave; a directory in memory satisfies it.
  \<^item> \<open>OperationJournal\<close>: the class, one definition per operation.
  \<^item> \<open>JournalLedger\<close>, \<open>JournalOps\<close>, \<open>JournalRuns\<close>, \<open>JournalOpen\<close>: the order of ledgers, the interface
    \<open>ledger_store\<close> between journal and store, the specification of every operation against the
    invariant \<open>journal_inv\<close>, runs of requests as a step relation, and opening.
    \<open>JournalSample\<close> runs one operation through, \<open>JournalTheorems\<close> has the properties.
  \<^item> \<open>JournalMapper\<close> and \<open>RetryPolicy\<close>: how the result of a provider becomes a result of the journal,
    and which results may be tried again.
  \<^item> \<open>OperationCenter\<close> and \<open>CenterTheorems\<close>: the records that the Operation Center shows, their
    transitions, and the admission drafts that are published with a receipt of the journal.
  \<^item> \<open>Coordinator\<close>: \<open>OperationCenterCoordinator.cpp\<close>, one definition per member function, over the
    journal and the center's model. \<open>CoordinatorRuns\<close> relates the records shown to the entries of the
    ledger and gives the step relations and the invariant \<open>coordinator_inv\<close>, \<open>CoordinatorSteps\<close> follows
    it through every call, \<open>CoordinatorSample\<close> runs one operation through, and
    \<open>CoordinatorTheorems\<close> has the properties.
  \<^item> \<open>PaneState\<close>: panes, errors and lifecycle events (\<open>PaneSnapshot.h\<close>, \<open>FileManagerError.h\<close>).
    \<open>PaneProducer\<close>, \<open>PaneReducer\<close> and \<open>PaneStore\<close>: one definition per operation of the three classes.
  \<^item> \<open>PaneStream\<close>: the protocol of the events as an abstract machine, and the counters. \<open>PaneCalls\<close>
    shows that every call of the producer extends the stream by events that the machine accepts,
    \<open>PaneReducerProps\<close> that a reducer which is where the stream is accepts the next event and gets where
    the stream is then. \<open>PaneRuns\<close> has the interfaces \<open>drained_queue\<close> and \<open>lifecycle_observer\<close>,
    \<open>PaneBridge\<close> interprets them by a record of the events and by the store; \<open>PaneTheorems\<close> and
    \<open>PaneSnapshots\<close> have the properties.

  Correspondence. A definition has the name of the function it models, a record the name of the
  class and its fields the names of the members (\<open>m_Buffer\<close>, \<open>m_PosX\<close>, \<open>m_SubState\<close>). A function
  that changes its object takes the state last and returns it. Callbacks are not run: the model
  of the interpreter appends them to \<open>m_Events\<close>. Undefined behaviour, failed assertions and
  thrown exceptions are the values of \<open>fault\<close>. The theorems about faults either exclude them or
  show the input that reaches them. In the operations, a \<open>std::expected\<close> is a sum with the error on
  the left, and the file system is a state that every call takes and returns. An operation of the
  journal holds its mutex from start to end and is one step. The coordinator gives up its gate
  between some of its steps: what other threads do there is an argument of the definition (\<open>others\<close>),
  and so is what the call of a foreign operation does (\<open>stop\<close>). An enumeration that comes from outside
  has one more value, \<open>Invalid\<close>, for the numbers without a name. Time points are ticks of libc++'s
  system clock, microseconds.

  Loops and bounds. The loop of \<open>EatByte\<close> has fuel 3, and \<open>EatByte_terminates\<close> shows that more
  changes nothing. The loop of \<open>ProcessText\<close> has the length of the text as fuel, and
  \<open>Interpret_safe\<close> excludes the fault for running out of it, as the registry eats at least one unit a
  round. The registry may grow up to \<open>2 ^ 31\<close> entries: \<open>interp_ok cf n\<close> says that there is room for
  \<open>n\<close> more, and \<open>cmd_cost\<close> how many a command may need. The interpreter theorems are for screens
  of at most 1024 columns, as many as there are tab stops, and with \<open>SetScreenResizeAllowed(false)\<close>,
  as all three users of the class in the repository set it. The loops of the journal over system calls
  are partial functions; \<open>journal_returns\<close> shows that they end when the system interrupts finitely
  often, which is the measure \<open>interrupts\<close> of \<open>posix_ok\<close>.

  The loop that notifies the observers of a pane is a partial function too; it ends because every
  notification uses up one of at most \<open>2 ^ 64 - 1\<close> numbers, which is what \<open>drained_queue\<close> measures.
  What observers call from inside of a notification (\<open>observer_calls\<close>, \<open>snapshot_calls\<close>) are the whole
  functions with their own draining, so that the guards against draining twice count.

  Limits of the safety theorems. \<open>cmd_limits\<close> excludes five inputs for which the code is not safe:
  cursor movements whose sum overflows \<open>int\<close>, a negative count of characters to insert or delete,
  a scrolling region with the top at \<open>INT_MAX\<close>, insert mode, and text in which Core Foundation sees a
  composed sequence of more than 64 units (\<open>text_limits\<close>; by \<open>short_texts\<close> no text of up to 64 bytes
  has one). Theorems of their own show what happens at a negative count, on the shift past the end of a
  line, and with a longer sequence (\<open>Append_long_sequence\<close>). The parser has one fault of its own, at
  \<open>CSI F\<close>, \<open>T\<close> and \<open>Z\<close>; \<open>session_safe\<close> has it as its second case.

  Not modelled: the dumps of the screen buffer to text, logging and \<open>VerboseDescription\<close> (output
  for people only); the mutex of the screen, which the callers take around the calls modelled; the
  translation of key and mouse events (\<open>InputTranslatorImpl\<close>, on Cocoa's \<open>NSEvent\<close>); the tasks
  that run the child (\<open>ShellTask\<close>, \<open>SingleTask\<close>: processes, threads, signals); drawing. Of the
  operations: the planner and the jobs that copy, link, delete and rename; of the coordinator, the
  body of \<open>CopyOperationOrchestrator::SubmitAdmitted\<close>, the pool and the operations themselves, which
  are parameters.
  In the Operation Center's model, the observers (only whether they fire) and failed allocations.
  In the journal, the check that the test harness passed callable system calls, and moves of receipts
  and reservations between C++ objects, which only pass the value on. A crash in the middle of a
  publication is covered as far as its effects are those of a failed one; torn system calls are not
  modelled. Of the panes: registration of observers and queues of the main thread, the coordinator
  \<open>PanelControllerLifecycle\<close>, and how the engine and the views are read. The rest of the repository (listings, virtual file systems, viewer, configuration) is
  listed in the manifest and not modelled yet.
\<close>

section \<open>Sessions\<close>

text \<open>
  C2: a session cannot go wrong, but for the one fault of the parser. Whatever the child writes and
  however its output is cut into reads: the parser hands out commands, or it stops at the final byte of
  a \<open>CSI F\<close>, \<open>CSI T\<close> or \<open>CSI Z\<close> whose parameter is 2147483648 and cannot be negated. If the commands it
  hands out are within the limits and there is room in the registry for their text, then in the first
  case the session runs to its end with no fault and both invariants hold, and in the second case this
  fault is the first there is: everything before it has been run.
\<close>

theorem session_safe:
  assumes "cf_ok cf" and "between_calls p" "interp_ok cf n i"
    and limits: "\<forall>k cs q. Parse_chunks (take k reads) p = Inr (cs, q) \<longrightarrow>
      list_all (cmd_limits cf) cs \<and> sum_list (map cmd_cost cs) \<le> n"
  shows "case Parse_chunks reads p of
      Inr (cs, p') \<Rightarrow> \<exists>i'. session cf reads (p, i) = Inr (p', i') \<and> between_calls p'
        \<and> interp_ok cf (n - sum_list (map cmd_cost cs)) i'
    | Inl e \<Rightarrow> e = Signed_Overflow \<and> session cf reads (p, i) = Inl Signed_Overflow
        \<and> (\<exists>k. parser_stops reads p k)"
proof -
  have run: "\<exists>j. Interpret cf cs i = Inr j \<and> interp_ok cf (n - sum_list (map cmd_cost cs)) j \<and> between_calls q"
    if "Parse_chunks (take k reads) p = Inr (cs, q)" for k cs q
  proof -
    note fits = Parse_chunks_fits [OF assms(2) that]
    then have "list_all (safe_cmd cf) cs" "sum_list (map cmd_cost cs) \<le> n"
      using limits that by (auto simp: list_all_iff safe_cmd_def)
    with run_commands_safe [OF assms(1,3)] fits show ?thesis by blast
  qed
  from Parse_chunks_outcome [OF assms(2), of reads] show ?thesis
  proof (elim disjE exE conjE)
    fix cs p' assume c: "Parse_chunks reads p = Inr (cs, p')"
    with run [of "length reads"] show ?thesis by (auto simp: session_commands [OF c])
  next
    fix k assume "Parse_chunks reads p = Inl Signed_Overflow" "parser_stops reads p k"
    with session_stops [of reads p k cf i] run [of k] show ?thesis by auto
  qed
qed

text \<open>
  A child that writes a letter with an accent, cut between the two bytes of the accent, and then places
  the cursor.
\<close>

theorem session_safe_witness:
  "\<exists>p i. session composing_cf [CHR ''e'' # [CHR 0xCC], CHR 0x81 # [CHR 27, CHR ''['']
        @ (decimal 3 @ CHR '';'' # decimal 17) @ [CHR ''H'']] (ParserImpl_init False, demo_terminal)
      = Inr (p, i) \<and> interp_core i"
proof -
  let ?body = "decimal 3 @ CHR '';'' # decimal 17" and ?p = "ParserImpl_init False"
  let ?b = "CHR 0x81 # [CHR 27, CHR ''[''] @ ?body @ [CHR ''H'']"
    and ?move = "move_cursor Absolute (Some (int (17 - 1))) (Some (int (3 - 1)))"
  let ?reads = "[CHR ''e'' # [CHR 0xCC], ?b]"
  have a: "Parse (CHR ''e'' # [CHR 0xCC]) ?p = Inr ([text_cmd ''e''], ?p\<lparr>m_Stock := [CHR 0xCC]\<rparr>)"
    by (rule Parse_half_accent)
  have "(3 :: nat) \<le> 2 ^ 31" "(17 :: nat) \<le> 2 ^ 31" by simp_all
  note cs = cursor_sequence [OF this]
  obtain q where b: "Parse ?b (?p\<lparr>m_Stock := [CHR 0xCC]\<rparr>) = Inr ([text_cmd [CHR 0xCC, CHR 0x81]] @ emitted [?move], q)"
    using Parse_rest_of_accent [OF cs(2,3,1)] by blast
  have all: "Parse_chunks ?reads ?p = Inr ([text_cmd ''e'', text_cmd [CHR 0xCC, CHR 0x81]] @ emitted [?move], q)"
    using b by (simp add: a)
  have limits: "\<forall>k cs q. Parse_chunks (take k ?reads) ?p = Inr (cs, q) \<longrightarrow>
      list_all (cmd_limits composing_cf) cs \<and> sum_list (map cmd_cost cs) \<le> 5"
  proof (intro allI impI)
    fix k cs r assume "Parse_chunks (take k ?reads) ?p = Inr (cs, r)"
    with b have "cs \<in> {[], [text_cmd ''e''], [text_cmd ''e'', text_cmd [CHR 0xCC, CHR 0x81]] @ emitted [?move]}"
      by (cases k rule: nat.exhaust [case_product nat.exhaust [of "k - 1"]]) (auto simp: a take_Cons')
    then show "list_all (cmd_limits composing_cf) cs \<and> sum_list (map cmd_cost cs) \<le> 5"
      using short_texts [OF composing_cf_ok]
      by (auto simp: text_cmd_def move_cursor_def cmd_limits_def cmd_cost_def small_def g_MaxGraphemeLen_def)
  qed
  from session_safe [OF composing_cf_ok between_calls_init demo_terminal_ok limits] all
  show ?thesis by (auto simp: interp_ok_def)
qed

text \<open>
  C13: a program that places the cursor and asks where it is gets the answer it expects.
\<close>

theorem cursor_report_roundtrip:
  assumes p: "between_calls p" "GetEscState p = ES_Text" "m_Stock p = []"
    and i: "interp_core i" "\<not> m_OriginLineMode i"
    and r: "0 < r" "int r \<le> Height (m_Screen i)" and c: "0 < c" "int c \<le> Width (m_Screen i)"
  defines "at \<equiv> decimal r @ CHR '';'' # decimal c"
  shows "\<exists>q j. session cf [[CHR 27, CHR ''[''] @ at @ ''H'', [CHR 27, CHR ''[''] @ ''6n''] (p, i) = Inr (q, j)
    \<and> m_Events j = m_Events i @ [Ev_Output ([CHR 27, CHR ''[''] @ at @ ''R'')]
    \<and> CursorX j = int c - 1 \<and> CursorY j = int r - 1"
proof -
  note size = screen_ints [OF interp_coreD(1) [OF i(1)]]
  have "r \<le> 2 ^ 31" "c \<le> 2 ^ 31" using size r(2) c(2) by auto
  note cs = cursor_sequence [OF this]
  let ?i = "on_screen (GoTo (int (c - 1)) (int (r - 1))) i"
  have at: "CursorX ?i = int c - 1" "CursorY ?i = int r - 1"
    using r c by (simp_all add: on_screen_def GoTo_pos)
  from OnChildOutput_sequence [OF p(1) _ p(3) cs(2,3,1), of cf i] p(2)
  obtain q where q: "OnChildOutput cf ([CHR 27, CHR ''[''] @ at @ ''H'') (p, i) = Inr (q, ?i)"
    "between_calls q" "m_SubState q = ES_Text" "m_Stock q = []"
    using Interpret_move_cursor [OF i, of "int (c - 1)" "int (r - 1)" cf] r c
    by (auto simp: GetEscState_def at_def)
  have i': "interp_core ?i" "\<not> m_OriginLineMode ?i"
    using i by (simp_all add: GoTo_keeps_core, simp add: on_screen_def)
  from OnChildOutput_sequence [OF q(2-4) report_sequence(2,3,1), of cf ?i]
    Interpret_cursor_report [OF i', of cf]
  obtain q' where "OnChildOutput cf ([CHR 27, CHR ''[''] @ ''6n'') (q, ?i) =
      Inr (q', event (Ev_Output ([CHR 27, CHR ''[''] @ at @ ''R'')) ?i)"
    using at r c by (auto simp: at_def decimal_int_def)
  with q(1) at show ?thesis
    by (simp add: session_def event_def on_screen_def)
qed

theorem cursor_report_roundtrip_witness:
  "\<exists>q j. session simple_cf [[CHR 27, CHR ''[''] @ (decimal 3 @ CHR '';'' # decimal 17) @ ''H'',
      [CHR 27, CHR ''[''] @ ''6n''] (ParserImpl_init False, demo_terminal) = Inr (q, j)
    \<and> m_Events j = m_Events demo_terminal @
        [Ev_Output ([CHR 27, CHR ''[''] @ (decimal 3 @ CHR '';'' # decimal 17) @ ''R'')]"
  using cursor_report_roundtrip [of "ParserImpl_init False" demo_terminal 3 17 simple_cf]
    between_calls_init demo_terminal_core
  by (auto simp: GetEscState_def ParserImpl_init_def)

end
